(* ===== verification/Prelude.thy ===== *)
theory Prelude
  imports
    Complex_Main
    "HOL-Library.Multiset"
    "HOL-Library.Char_ord"
    "HOL-Library.List_Lexorder"
    "HOL-Library.Product_Lexorder"
    "HOL-Library.AList"
begin

text \<open>
  Shared vocabulary of the development: the Python values, strings and dictionaries the
  components compute with, and the generic lemmas about them.

  \<^item> A Python \<open>str\<close> is a HOL \<open>string\<close> whose characters are the code points 0 to 255
    (Latin-1); \<open>py_strip\<close>, \<open>py_lower\<close>, \<open>py_words\<close> and \<open>py_splitlines\<close>
    follow Python's Unicode tables on that range. Text outside it is not modelled.
  \<^item> A dictionary is an association list in insertion order with distinct keys, updated by
    \<open>AList.update\<close> (which, as Python does, keeps the position of an existing key).
  \<^item> An untyped JSON or YAML value is a \<open>pyval\<close>. A float is carried as the text that
    \<open>repr\<close> prints for it, which identifies it; only its truth value and its text are used.
  \<^item> \<open>sorted(set(xs))\<close> is \<open>sorted_list_of_set (set xs)\<close>; strings compare by code
    point and tuples lexicographically, as in Python.
\<close>

section \<open>Fact collections\<close>

named_theorems py_string_simps \<open>evaluation rules for Python string operations\<close>

named_theorems dict_simps \<open>rules for insertion-ordered dictionaries\<close>

section \<open>Python strings\<close>

definition py_is_space :: "char \<Rightarrow> bool" where
  "py_is_space c = (let n = (of_char c :: nat) in
     (9 \<le> n \<and> n \<le> 13) \<or> (28 \<le> n \<and> n \<le> 32) \<or> n = 133 \<or> n = 160)"

definition py_lstrip :: "string \<Rightarrow> string" where
  "py_lstrip s = dropWhile py_is_space s"

definition py_rstrip :: "string \<Rightarrow> string" where
  "py_rstrip s = rev (dropWhile py_is_space (rev s))"

definition py_strip :: "string \<Rightarrow> string" where
  "py_strip s = py_rstrip (py_lstrip s)"

text \<open>\<open>bool(s.strip())\<close>: the text has a character that is not white space.\<close>

definition non_blank :: "string \<Rightarrow> bool" where
  "non_blank s = (py_strip s \<noteq> [])"

definition py_lower_char :: "char \<Rightarrow> char" where
  "py_lower_char c = (let n = (of_char c :: nat) in
     if (65 \<le> n \<and> n \<le> 90) \<or> (192 \<le> n \<and> n \<le> 222 \<and> n \<noteq> 215) then char_of (n + 32) else c)"

definition py_lower :: "string \<Rightarrow> string" where
  "py_lower s = map py_lower_char s"

text \<open>\<open>s.split(c)\<close> for a separator of one character: never empty, keeps empty fields.\<close>

fun py_split_char :: "char \<Rightarrow> string \<Rightarrow> string list" where
  "py_split_char c [] = [[]]"
| "py_split_char c (x # xs) =
     (if x = c then [] # py_split_char c xs
      else (case py_split_char c xs of [] \<Rightarrow> [[x]] | f # fs \<Rightarrow> (x # f) # fs))"

text \<open>\<open>s.split()\<close>: the maximal runs of characters that are not white space.\<close>

fun py_words_acc :: "string \<Rightarrow> string \<Rightarrow> string list" where
  "py_words_acc acc [] = (if acc = [] then [] else [rev acc])"
| "py_words_acc acc (x # xs) =
     (if py_is_space x then (if acc = [] then py_words_acc [] xs else rev acc # py_words_acc [] xs)
      else py_words_acc (x # acc) xs)"

definition py_words :: "string \<Rightarrow> string list" where
  "py_words s = py_words_acc [] s"

fun py_join :: "string \<Rightarrow> string list \<Rightarrow> string" where
  "py_join sep [] = []"
| "py_join sep [x] = x"
| "py_join sep (x # y # ys) = x @ sep @ py_join sep (y # ys)"

text \<open>\<open>s.startswith(p)\<close> and \<open>p in s\<close>.\<close>

fun py_startswith :: "string \<Rightarrow> string \<Rightarrow> bool" where
  "py_startswith s [] = True"
| "py_startswith [] (p # ps) = False"
| "py_startswith (x # xs) (p # ps) = (x = p \<and> py_startswith xs ps)"

fun py_contains :: "string \<Rightarrow> string \<Rightarrow> bool" where
  "py_contains [] p = (p = [])"
| "py_contains (x # xs) p = (py_startswith (x # xs) p \<or> py_contains xs p)"

text \<open>\<open>s.replace(old, new)\<close> for a non-empty \<open>old\<close>\<close>

fun py_replace :: "string \<Rightarrow> string \<Rightarrow> string \<Rightarrow> string" where
  "py_replace old new [] = []"
| "py_replace old new (c # cs) =
     (if old \<noteq> [] \<and> py_startswith (c # cs) old then new @ py_replace old new (drop (length old - 1) cs)
      else c # py_replace old new cs)"

text \<open>\<open>s.splitlines()\<close> on Latin-1 text; a carriage return and line feed are one break.\<close>

definition py_is_linebreak :: "char \<Rightarrow> bool" where
  "py_is_linebreak c = (let n = (of_char c :: nat) in
     (10 \<le> n \<and> n \<le> 13) \<or> (28 \<le> n \<and> n \<le> 30) \<or> n = 133)"

fun after_break :: "char \<Rightarrow> string \<Rightarrow> string" where
  "after_break x [] = []"
| "after_break x (y # ys) = (if of_char x = (13::nat) \<and> of_char y = (10::nat) then ys else y # ys)"

lemma length_after_break [termination_simp]: "length (after_break x xs) \<le> length xs"
  by (cases xs) auto

fun py_splitlines_acc :: "string \<Rightarrow> string \<Rightarrow> string list" where
  "py_splitlines_acc acc [] = (if acc = [] then [] else [rev acc])"
| "py_splitlines_acc acc (x # xs) =
     (if py_is_linebreak x then rev acc # py_splitlines_acc [] (after_break x xs)
      else py_splitlines_acc (x # acc) xs)"

definition py_splitlines :: "string \<Rightarrow> string list" where
  "py_splitlines s = py_splitlines_acc [] s"

text \<open>\<open>str(n)\<close> for integers.\<close>

fun show_nat :: "nat \<Rightarrow> string" where
  "show_nat n = (if n < 10 then [char_of (48 + n)] else show_nat (n div 10) @ [char_of (48 + n mod 10)])"

declare show_nat.simps [simp del]

definition show_int :: "int \<Rightarrow> string" where
  "show_int i = (if i < 0 then CHR ''-'' # show_nat (nat (- i)) else show_nat (nat i))"

section \<open>Python values\<close>

datatype pyval =
    PNone
  | PBool bool
  | PInt int
  | PFloat string
  | PStr string
  | PList "pyval list"
  | PDict "(pyval \<times> pyval) list"

type_synonym pydict = "(pyval \<times> pyval) list"

text \<open>\<open>bool(v)\<close>.\<close>

fun py_truthy :: "pyval \<Rightarrow> bool" where
  "py_truthy PNone = False"
| "py_truthy (PBool b) = b"
| "py_truthy (PInt i) = (i \<noteq> 0)"
| "py_truthy (PFloat r) = (r \<noteq> ''0.0'' \<and> r \<noteq> ''-0.0'')"
| "py_truthy (PStr s) = (s \<noteq> [])"
| "py_truthy (PList xs) = (xs \<noteq> [])"
| "py_truthy (PDict d) = (d \<noteq> [])"

text \<open>\<open>a or b\<close>.\<close>

definition py_or :: "pyval \<Rightarrow> pyval \<Rightarrow> pyval" where
  "py_or a b = (if py_truthy a then a else b)"

text \<open>\<open>repr(s)\<close> of a string: the quote Python chooses, with its escapes.\<close>

definition hex_digit :: "nat \<Rightarrow> char" where
  "hex_digit n = (if n < 10 then char_of (48 + n) else char_of (87 + n))"

definition repr_char :: "char \<Rightarrow> char \<Rightarrow> string" where
  "repr_char q c = (let n = (of_char c :: nat) in
     if c = q \<or> n = 92 then [CHR 0x5C, c]
     else if n = 9 then [CHR 0x5C, CHR ''t'']
     else if n = 10 then [CHR 0x5C, CHR ''n'']
     else if n = 13 then [CHR 0x5C, CHR ''r'']
     else if n < 32 \<or> (127 \<le> n \<and> n \<le> 160) \<or> n = 173
       then [CHR 0x5C, CHR ''x'', hex_digit (n div 16), hex_digit (n mod 16)]
     else [c])"

definition repr_str :: "string \<Rightarrow> string" where
  "repr_str s = (let q = (if CHR 0x27 \<in> set s \<and> CHR 0x22 \<notin> set s then CHR 0x22 else CHR 0x27)
                 in q # concat (map (repr_char q) s) @ [q])"

lemma size_dict_key [termination_simp]:
  "(k, v) \<in> set d \<Longrightarrow> size k < Suc (size_list (size_prod size size) d)"
  by (induction d) auto

lemma size_dict_val [termination_simp]:
  "(k, v) \<in> set d \<Longrightarrow> size v < Suc (size_list (size_prod size size) d)"
  by (induction d) auto

fun py_repr :: "pyval \<Rightarrow> string" where
  "py_repr PNone = ''None''"
| "py_repr (PBool b) = (if b then ''True'' else ''False'')"
| "py_repr (PInt i) = show_int i"
| "py_repr (PFloat r) = r"
| "py_repr (PStr s) = repr_str s"
| "py_repr (PList xs) = ''['' @ py_join '', '' (map py_repr xs) @ '']''"
| "py_repr (PDict d) =
     ''{'' @ py_join '', '' (map (\<lambda>(k, v). py_repr k @ '': '' @ py_repr v) d) @ ''}''"

text \<open>\<open>str(v)\<close>.\<close>

definition py_str :: "pyval \<Rightarrow> string" where
  "py_str v = (case v of PStr s \<Rightarrow> s | _ \<Rightarrow> py_repr v)"

text \<open>\<open>isinstance\<close> tests.\<close>

fun is_pstr :: "pyval \<Rightarrow> bool" where
  "is_pstr (PStr s) = True"
| "is_pstr _ = False"

fun is_plist :: "pyval \<Rightarrow> bool" where
  "is_plist (PList xs) = True"
| "is_plist _ = False"

fun is_pdict :: "pyval \<Rightarrow> bool" where
  "is_pdict (PDict d) = True"
| "is_pdict _ = False"

section \<open>Dictionaries\<close>

text \<open>\<open>d.get(k)\<close> of a dictionary with a string key; a missing key reads as \<open>None\<close>.\<close>

definition dget :: "pydict \<Rightarrow> string \<Rightarrow> pyval" where
  "dget d k = (case map_of d (PStr k) of None \<Rightarrow> PNone | Some v \<Rightarrow> v)"

text \<open>\<open>d.get(k, default)\<close>, \<open>k in d\<close> and \<open>d[k] = v\<close>.\<close>

definition dget_or :: "pydict \<Rightarrow> string \<Rightarrow> pyval \<Rightarrow> pyval" where
  "dget_or d k v0 = (case map_of d (PStr k) of None \<Rightarrow> v0 | Some v \<Rightarrow> v)"

definition dhas :: "pydict \<Rightarrow> string \<Rightarrow> bool" where
  "dhas d k = (map_of d (PStr k) \<noteq> None)"

definition dset :: "pydict \<Rightarrow> string \<Rightarrow> pyval \<Rightarrow> pydict" where
  "dset d k v = AList.update (PStr k) v d"

text \<open>\<open>{**a, **b}\<close> and \<open>{k: v for ...}\<close> for any key type.\<close>

definition dict_merge :: "('k \<times> 'v) list \<Rightarrow> ('k \<times> 'v) list \<Rightarrow> ('k \<times> 'v) list" where
  "dict_merge a b = foldl (\<lambda>d (k, v). AList.update k v d) a b"

definition dict_of :: "('k \<times> 'v) list \<Rightarrow> ('k \<times> 'v) list" where
  "dict_of ps = dict_merge [] ps"

text \<open>\<open>d.setdefault(k, []).append(v)\<close>, the grouping idiom.\<close>

definition dict_push :: "('k \<times> 'v list) list \<Rightarrow> 'k \<Rightarrow> 'v \<Rightarrow> ('k \<times> 'v list) list" where
  "dict_push d k v = AList.update k (case map_of d k of None \<Rightarrow> [v] | Some vs \<Rightarrow> vs @ [v]) d"

text \<open>\<open>d.get(k, [])\<close> on a dictionary of lists.\<close>

definition dict_list :: "('k \<times> 'v list) list \<Rightarrow> 'k \<Rightarrow> 'v list" where
  "dict_list d k = (case map_of d k of None \<Rightarrow> [] | Some vs \<Rightarrow> vs)"

text \<open>A cache: \<open>v = cache.get(k)\<close>, computed and stored when it is missing.\<close>

definition memo_get :: "'k \<Rightarrow> 'v \<Rightarrow> ('k \<times> 'v) list \<Rightarrow> 'v \<times> ('k \<times> 'v) list" where
  "memo_get k v cache = (case map_of cache k of Some x \<Rightarrow> (x, cache) | None \<Rightarrow> (v, AList.update k v cache))"

definition memo_ok :: "('k \<Rightarrow> 'v) \<Rightarrow> ('k \<times> 'v) list \<Rightarrow> bool" where
  "memo_ok f cache = (\<forall>k v. map_of cache k = Some v \<longrightarrow> v = f k)"

lemma memo_ok_Nil [simp]: "memo_ok f []"
  by (simp add: memo_ok_def)

lemma memo_get_value: "memo_ok f cache \<Longrightarrow> fst (memo_get k (f k) cache) = f k"
  by (auto simp: memo_ok_def memo_get_def split: option.splits)

lemma memo_get_ok: "memo_ok f cache \<Longrightarrow> memo_ok f (snd (memo_get k (f k) cache))"
  by (auto simp: memo_ok_def memo_get_def update_conv' split: option.splits)

section \<open>Exceptions and parsing\<close>

datatype py_error = TypeError | ValueError string | KeyError string | OverflowError

text \<open>\<open>all(...)\<close> and \<open>any(...)\<close> over a generator whose test may raise; both stop early.\<close>

fun err_all :: "('a \<Rightarrow> py_error + bool) \<Rightarrow> 'a list \<Rightarrow> py_error + bool" where
  "err_all p [] = Inr True"
| "err_all p (x # xs) =
     (case p x of Inl e \<Rightarrow> Inl e | Inr b \<Rightarrow> (if b then err_all p xs else Inr False))"

fun err_any :: "('a \<Rightarrow> py_error + bool) \<Rightarrow> 'a list \<Rightarrow> py_error + bool" where
  "err_any p [] = Inr False"
| "err_any p (x # xs) =
     (case p x of Inl e \<Rightarrow> Inl e | Inr b \<Rightarrow> (if b then Inr True else err_any p xs))"

text \<open>\<open>v in {"a", "b"}\<close>: hashing a list or a dictionary raises \<open>TypeError\<close>.\<close>

definition in_str_set :: "pyval \<Rightarrow> string list \<Rightarrow> py_error + bool" where
  "in_str_set v names =
     (if is_plist v \<or> is_pdict v then Inl TypeError
      else Inr (case v of PStr s \<Rightarrow> s \<in> set names | _ \<Rightarrow> False))"

text \<open>\<open>int(s)\<close> of a string, with its white space, sign, underscore and length rules.\<close>

definition int_space :: "char \<Rightarrow> bool" where
  "int_space c = (let n = (of_char c :: nat) in (9 \<le> n \<and> n \<le> 13) \<or> n = 32 \<or> n = 133 \<or> n = 160)"

definition is_digit :: "char \<Rightarrow> bool" where
  "is_digit c = (let n = (of_char c :: nat) in 48 \<le> n \<and> n \<le> 57)"

definition digit_val :: "char \<Rightarrow> nat" where
  "digit_val c = of_char c - 48"

fun parse_digits :: "nat \<Rightarrow> bool \<Rightarrow> string \<Rightarrow> nat option" where
  "parse_digits acc prev [] = (if prev then Some acc else None)"
| "parse_digits acc prev (c # cs) =
     (if is_digit c then parse_digits (acc * 10 + digit_val c) True cs
      else if c = CHR ''_'' \<and> prev then parse_digits acc False cs
      else None)"

definition py_int :: "string \<Rightarrow> int option" where
  "py_int s =
     (let t = rev (dropWhile int_space (rev (dropWhile int_space s)))
      in if 4300 < length (filter is_digit t) then None
         else (case t of
                 [] \<Rightarrow> None
               | c # cs \<Rightarrow>
                   (if c = CHR ''-'' then map_option (\<lambda>n. - int n) (parse_digits 0 False cs)
                    else if c = CHR ''+'' then map_option int (parse_digits 0 False cs)
                    else map_option int (parse_digits 0 False t))))"

text \<open>Lowercase hexadecimal identities: \<open>[0-9a-f]{n}\<close> and \<open>sha256:[0-9a-f]{64}\<close>.\<close>

definition is_hex :: "char \<Rightarrow> bool" where
  "is_hex c = (is_digit c \<or> (let n = (of_char c :: nat) in 97 \<le> n \<and> n \<le> 102))"

definition hex_of_length :: "nat \<Rightarrow> string \<Rightarrow> bool" where
  "hex_of_length n s = (length s = n \<and> list_all is_hex s)"

definition is_sha256 :: "string \<Rightarrow> bool" where
  "is_sha256 s = (take 7 s = ''sha256:'' \<and> hex_of_length 64 (drop 7 s))"

section \<open>Generic lemmas\<close>

lemma err_all_True: "err_all p xs = Inr True \<longleftrightarrow> (\<forall>x \<in> set xs. p x = Inr True)"
  by (induction xs) (auto split: sum.splits if_splits)

lemma err_any_False: "err_any p xs = Inr False \<longleftrightarrow> (\<forall>x \<in> set xs. p x = Inr False)"
  by (induction xs) (auto split: sum.splits if_splits)

lemma in_str_set_True:
  "in_str_set v names = Inr True \<longleftrightarrow> (\<exists>s \<in> set names. v = PStr s)"
  by (cases v) (auto simp: in_str_set_def)

lemma map_sum_Inr_iff: "map_sum f g x = Inr y \<longleftrightarrow> (\<exists>z. x = Inr z \<and> y = g z)"
  by (cases x) auto

text \<open>Two lists with the same elements, one of them distinct and no shorter, are permutations.\<close>

lemma mset_eq_of_set_length:
  assumes "set xs = set ys" and "length xs = length ys" and "distinct ys"
  shows "mset xs = mset ys"
proof -
  have "card (set xs) = length xs"
    using assms by (simp add: distinct_card)
  then have "distinct xs" by (rule card_distinct)
  with assms show ?thesis by (simp add: set_eq_iff_mset_eq_distinct)
qed

lemma sum_list_single:
  "distinct ks \<Longrightarrow> (\<Sum>k\<leftarrow>ks. if a = k then M else {#}) = (if a \<in> set ks then M else {#})"
  by (induction ks) auto

text \<open>Grouping by a key loses and duplicates nothing.\<close>

lemma mset_partition:
  assumes "distinct ks" and "\<forall>x \<in> set xs. f x \<in> set ks"
  shows "mset xs = sum_list (map (\<lambda>k. mset (filter (\<lambda>x. f x = k) xs)) ks)"
  using assms
proof (induction xs)
  case Nil
  then show ?case by (induction ks) auto
next
  case (Cons x xs)
  have d: "sum_list (map (\<lambda>k. if f x = k then {#x#} else {#}) ks) = {#x#}"
    using Cons.prems by (simp add: sum_list_single)
  have "sum_list (map (\<lambda>k. mset (filter (\<lambda>y. f y = k) (x # xs))) ks)
      = sum_list (map (\<lambda>k. (if f x = k then {#x#} else {#}) + mset (filter (\<lambda>y. f y = k) xs)) ks)"
    by (intro arg_cong [of _ _ sum_list] map_cong) auto
  also have "\<dots> = {#x#} + mset xs" using Cons d by (simp add: sum_list_addf)
  finally show ?case by simp
qed

lemma dict_list_push: "dict_list (dict_push d k v) k' = (if k' = k then dict_list d k @ [v] else dict_list d k')"
  by (auto simp: dict_list_def dict_push_def update_conv' split: option.splits)

lemma dict_list_group:
  "dict_list (foldl (\<lambda>d x. dict_push d (f x) x) d xs) k = dict_list d k @ filter (\<lambda>x. f x = k) xs"
  by (induction xs arbitrary: d) (simp_all add: dict_list_push)

lemma keys_group:
  "fst ` set (foldl (\<lambda>d x. dict_push d (f x) x) d xs) = fst ` set d \<union> f ` set xs"
  by (induction xs arbitrary: d) (auto simp: dict_push_def dom_update)

lemma set_map_filter: "set (List.map_filter f xs) = {y. \<exists>x \<in> set xs. f x = Some y}"
  by (induction xs) (auto simp: List.map_filter_simps split: option.splits)

lemma list_all2_right: "list_all2 R xs ys \<Longrightarrow> y \<in> set ys \<Longrightarrow> \<exists>x \<in> set xs. R x y"
  by (induction rule: list_all2_induct) auto

text \<open>Filtering and appending.\<close>

lemma update_fresh: "k \<notin> fst ` set d \<Longrightarrow> AList.update k v d = d @ [(k, v)]"
  by (induction d) auto

lemma set_filter_image: "A \<subseteq> f ` set xs \<Longrightarrow> A = set (map f (filter (\<lambda>x. f x \<in> A) xs))"
  by auto

lemma mset_filter_split:
  "mset (map f (filter (\<lambda>x. \<not> P x) xs)) + mset (map f (filter P xs)) = mset (map f xs)"
  by (induction xs) auto

lemma image_mset_sum_list: "image_mset f (\<Sum>x\<leftarrow>xs. g x) = (\<Sum>x\<leftarrow>xs. image_mset f (g x))"
  by (induction xs) auto

lemma filter_concat_single:
  assumes "distinct (map fst ss)" and "(p, s) \<in> set ss"
    and "\<And>q u x. (q, u) \<in> set ss \<Longrightarrow> x \<in> set (g q u) \<Longrightarrow> P x \<Longrightarrow> q = p"
  shows "filter P (concat (map (\<lambda>(p, s). g p s) ss)) = filter P (g p s)"
  using assms
proof (induction ss)
  case (Cons e ss)
  obtain q u where e: "e = (q, u)" by fastforce
  show ?case
  proof (cases "q = p")
    case True
    have "filter P (concat (map (\<lambda>(p, s). g p s) ss)) = []"
      using Cons.prems(1) Cons.prems(3) True e by (fastforce simp: filter_empty_conv rev_image_eqI)
    moreover have "u = s" using Cons.prems(1,2) True e by (auto simp: rev_image_eqI)
    ultimately show ?thesis by (simp add: e True)
  next
    case False
    then have "filter P (g q u) = []" using Cons.prems(3) e by (fastforce simp: filter_empty_conv)
    moreover have "filter P (concat (map (\<lambda>(p, s). g p s) ss)) = filter P (g p s)"
      using Cons.prems False e by (intro Cons.IH) auto
    ultimately show ?thesis by (simp add: e)
  qed
qed simp

text \<open>Printing and parsing numbers.\<close>

lemma digit_char: "d < 10 \<Longrightarrow> is_digit (char_of (48 + d)) \<and> digit_val (char_of (48 + d)) = d"
  by (simp add: is_digit_def digit_val_def)

lemma show_nat_nonempty [simp]: "show_nat n \<noteq> []"
  by (subst show_nat.simps) simp

lemma show_nat_digits: "list_all is_digit (show_nat n)"
  by (induction n rule: show_nat.induct) (subst show_nat.simps, simp add: digit_char)

lemma parse_digits_all:
  "list_all is_digit ds \<Longrightarrow> ds \<noteq> [] \<or> prev \<Longrightarrow>
   parse_digits acc prev ds = Some (foldl (\<lambda>a c. a * 10 + digit_val c) acc ds)"
  by (induction ds arbitrary: acc prev) auto

lemma show_nat_value: "foldl (\<lambda>a c. a * 10 + digit_val c) 0 (show_nat n) = n"
proof (induction n rule: show_nat.induct)
  case (1 n)
  show ?case
  proof (cases "n < 10")
    case True
    then show ?thesis by (subst show_nat.simps) (simp add: digit_char)
  next
    case False
    have "digit_val (char_of (48 + n mod 10)) = n mod 10" by (simp add: digit_char)
    with False 1 show ?thesis by (subst show_nat.simps) simp
  qed
qed

lemma parse_show_nat: "parse_digits 0 False (show_nat n) = Some n"
  using parse_digits_all [of "show_nat n" False 0] show_nat_digits [of n] by (simp add: show_nat_value)

text \<open>Stripping stops at a character that is not white space.\<close>

lemma py_rstrip_stop: "\<not> py_is_space y \<Longrightarrow> py_rstrip (xs @ y # ys) = xs @ y # py_rstrip ys"
  by (simp add: py_rstrip_def dropWhile_append)

lemma py_strip_keep: "\<not> py_is_space x \<Longrightarrow> py_strip (x # xs) = py_rstrip (x # xs)"
  by (simp add: py_strip_def py_lstrip_def)

lemma non_blank_char: "c \<in> set s \<Longrightarrow> \<not> py_is_space c \<Longrightarrow> non_blank s"
  by (auto simp: non_blank_def py_strip_def py_lstrip_def py_rstrip_def dropWhile_eq_Nil_conv)
    (metis Un_iff rev_rev_ident set_append set_rev set_takeWhileD takeWhile_dropWhile_id)

end
