(* ===== verification/Review_Findings.thy ===== *)
theory Review_Findings
  imports Prelude
begin

text \<open>
  The finding model of the code-review bundle
  (\<^verbatim>\<open>packages/specfact-code-review/src/specfact_code_review/run/findings.py\<close>, first half):
  evidence references, cleanup hand-off packets and \<open>ReviewFinding\<close> with its field and
  model validators.

  A closed \<open>Literal\<close> is a datatype and a model class a record. Building a model is a function
  from the record of the arguments to \<open>validation_errors + record\<close>: first every field is
  checked and all messages are collected in field order, then the \<open>mode="after"\<close> validators
  run in source order and stop at the first failure.
\<close>

section \<open>Literals\<close>

datatype category =
    CleanCode | Security | TypeSafety | Contracts | Testing | Style | Architecture | ToolError
  | Naming | Kiss | Yagni | Dry | Solid | AiBloat

datatype severity = SevError | SevWarning | SevInfo

datatype finding_status = Open | Fixed | WaivedByReference

datatype differential_state = DsIntroduced | DsFixed | DsUnchanged | DsUnknown

datatype execution_state = ExRan | ExError | ExNotApplicable

datatype assurance_status = StPass | StFail | StUnknown | StNotApplicable

datatype confidence_level = Low | Medium | High

datatype guidance_kind = SafeMechanical | NeedsTests | DesignJudgment | Preserve

datatype recommended_action =
    Remove | Inline | Collapse | Deduplicate | MakeRequired | Keep | Inspect

datatype clean_code_principle =
    PrKiss | PrDry | PrYagni | PrContracts | PrApiStability | PrReadability

datatype action_status = Recommended | Applied | Kept | Skipped | Failed

datatype preserve_reason =
    ContractLambda | ProtocolMember | PublicApi | CompatShim | CliCallback | DomainWrapper
  | SpecLinked | LoadBearing

text \<open>The text of a literal, where the source uses it as a dictionary key.\<close>

fun guidance_kind_text :: "guidance_kind \<Rightarrow> string" where
  "guidance_kind_text SafeMechanical = ''safe_mechanical''"
| "guidance_kind_text NeedsTests = ''needs_tests''"
| "guidance_kind_text DesignJudgment = ''design_judgment''"
| "guidance_kind_text Preserve = ''preserve''"

fun action_status_text :: "action_status \<Rightarrow> string" where
  "action_status_text Recommended = ''recommended''"
| "action_status_text Applied = ''applied''"
| "action_status_text Kept = ''kept''"
| "action_status_text Skipped = ''skipped''"
| "action_status_text Failed = ''failed''"

type_synonym validation_errors = "string list"

section \<open>Evidence references\<close>

record EvidenceRef =
  er_path :: "string option"
  er_start_line :: "int option"
  er_end_line :: "int option"
  er_artifact_id :: "string option"
  er_description :: "string option"

text \<open>\<open>value is not None and not value.strip()\<close>.\<close>

definition blank_if_present :: "string option \<Rightarrow> bool" where
  "blank_if_present v = (case v of None \<Rightarrow> False | Some s \<Rightarrow> \<not> non_blank s)"

definition below_if_present :: "int \<Rightarrow> int option \<Rightarrow> bool" where
  "below_if_present lo v = (case v of None \<Rightarrow> False | Some i \<Rightarrow> i < lo)"

text \<open>One message when a check fails, none otherwise.\<close>

definition check_fail :: "bool \<Rightarrow> string \<Rightarrow> string list" where
  "check_fail bad msg = (if bad then [msg] else [])"

definition evidence_ref_field_errors :: "EvidenceRef \<Rightarrow> validation_errors" where
  "evidence_ref_field_errors r =
     check_fail (blank_if_present (er_path r)) ''value must not be empty if provided''
     @ check_fail (below_if_present 1 (er_start_line r)) ''greater_than_equal''
     @ check_fail (below_if_present 1 (er_end_line r)) ''greater_than_equal''
     @ check_fail (blank_if_present (er_artifact_id r)) ''value must not be empty if provided''
     @ check_fail (blank_if_present (er_description r)) ''value must not be empty if provided''"

definition evidence_ref_validate_invariants :: "EvidenceRef \<Rightarrow> validation_errors + EvidenceRef" where
  "evidence_ref_validate_invariants r =
     (if er_path r = None \<and> er_artifact_id r = None \<and> er_start_line r = None
        then Inl [''at least one locator (path, artifact_id, or start_line) must be provided'']
      else if er_end_line r \<noteq> None \<and> er_start_line r = None
        then Inl [''start_line must be provided if end_line is present'']
      else (case (er_start_line r, er_end_line r) of
              (Some s, Some e) \<Rightarrow>
                (if e < s then Inl [''end_line must be greater than or equal to start_line'']
                 else Inr r)
            | _ \<Rightarrow> Inr r))"

definition make_evidence_ref :: "EvidenceRef \<Rightarrow> validation_errors + EvidenceRef" where
  "make_evidence_ref r =
     (let errs = evidence_ref_field_errors r
      in if errs \<noteq> [] then Inl errs else evidence_ref_validate_invariants r)"

section \<open>Cleanup hand-off models\<close>

datatype signal_value = SvStr string | SvInt int | SvFloat rat | SvBool bool

record SignalTraceEntry =
  st_tool :: string
  st_source :: string
  st_fired :: bool
  st_score :: "rat option"
  st_value :: "signal_value option"
  st_evidence_refs :: "EvidenceRef list option"
  st_explanation :: string

definition make_signal_trace_entry :: "SignalTraceEntry \<Rightarrow> validation_errors + SignalTraceEntry" where
  "make_signal_trace_entry e =
     (let errs = concat (map (\<lambda>v. check_fail (\<not> non_blank v) ''value must not be empty'')
                         [st_tool e, st_source e, st_explanation e])
      in if errs \<noteq> [] then Inl errs else Inr e)"

record PreserveReasonEvidence =
  pe_reason :: preserve_reason
  pe_evidence_refs :: "EvidenceRef list"
  pe_explanation :: string

definition make_preserve_reason_evidence ::
  "PreserveReasonEvidence \<Rightarrow> validation_errors + PreserveReasonEvidence" where
  "make_preserve_reason_evidence p =
     (let errs = check_fail (pe_evidence_refs p = []) ''too_short''
               @ check_fail (\<not> non_blank (pe_explanation p)) ''value must not be empty''
      in if errs \<noteq> [] then Inl errs else Inr p)"

record RemediationPacket =
  rp_issue :: string
  rp_recommended_action :: string
  rp_possible_keep_reason :: "string option"
  rp_safety_checks :: "string list"
  rp_validation_plan :: "string list"
  rp_safe_to_autofix :: bool
  rp_patch_forecast_refs :: "string list option"

definition entries_error :: "string list \<Rightarrow> string list" where
  "entries_error xs = check_fail (\<exists>x \<in> set xs. \<not> non_blank x) ''entries must not be empty''"

definition make_remediation_packet :: "RemediationPacket \<Rightarrow> validation_errors + RemediationPacket" where
  "make_remediation_packet p =
     (let errs =
        check_fail (\<not> non_blank (rp_issue p)) ''value must not be empty''
        @ check_fail (\<not> non_blank (rp_recommended_action p)) ''value must not be empty''
        @ check_fail (blank_if_present (rp_possible_keep_reason p)) ''value must not be empty''
        @ (if rp_safety_checks p = [] then [''too_short''] else entries_error (rp_safety_checks p))
        @ (if rp_validation_plan p = [] then [''too_short''] else entries_error (rp_validation_plan p))
        @ (case rp_patch_forecast_refs p of None \<Rightarrow> [] | Some xs \<Rightarrow> entries_error xs)
      in if errs \<noteq> [] then Inl errs else Inr p)"

section \<open>Review findings\<close>

record ReviewFinding =
  rf_category :: category
  rf_severity :: severity
  rf_tool :: string
  rf_rule :: string
  rf_file :: string
  rf_line :: int
  rf_message :: string
  rf_fixable :: bool
  rf_status :: finding_status
  rf_differential_state :: "differential_state option"
  rf_autofix_available :: "bool option"
  rf_blocking :: "bool option"
  rf_execution_state :: "execution_state option"
  rf_evidence_outcome :: "assurance_status option"
  rf_evidence_refs :: "EvidenceRef list option"
  rf_confidence :: "confidence_level option"
  rf_rewrite_hint :: "string option"
  rf_canonical_pattern :: "string option"
  rf_intent_key :: "string option"
  rf_estimated_deletion_lines :: "int option"
  rf_related_locations :: "EvidenceRef list option"
  rf_guidance_kind :: "guidance_kind option"
  rf_recommended_action :: "recommended_action option"
  rf_clean_code_principle :: "clean_code_principle option"
  rf_rationale :: "string option"
  rf_safety_checks :: "string list option"
  rf_preserve_reason :: "string option"
  rf_action_status :: "action_status option"
  rf_before_ref :: "EvidenceRef option"
  rf_after_ref :: "EvidenceRef option"
  rf_improvement :: "string option"
  rf_signal_trace :: "SignalTraceEntry list option"
  rf_preserve_reasons :: "PreserveReasonEvidence list option"
  rf_remediation_packet :: "RemediationPacket option"

text \<open>
  \<open>waiver_reference\<close> has the type \<open>None\<close> in the source: it carries no information and
  has no field here.
\<close>

text \<open>\<open>_validate_non_empty_text\<close>, \<open>_validate_safety_checks\<close>,
  \<open>_validate_non_empty_evidence_list\<close>, one field each.\<close>

definition text_field_error :: "string option \<Rightarrow> validation_errors" where
  "text_field_error v = check_fail (blank_if_present v) ''value must not be empty''"

definition safety_checks_error :: "string list option \<Rightarrow> validation_errors" where
  "safety_checks_error v =
     (case v of
        None \<Rightarrow> []
      | Some xs \<Rightarrow>
          (if xs = [] then [''safety_checks must not be empty when provided'']
           else if \<exists>x \<in> set xs. \<not> non_blank x then [''safety_checks entries must not be empty'']
           else []))"

definition evidence_list_error :: "'a list option \<Rightarrow> validation_errors" where
  "evidence_list_error v =
     check_fail (case v of None \<Rightarrow> False | Some xs \<Rightarrow> xs = [])
       ''evidence lists must not be empty when provided''"

definition finding_field_errors :: "ReviewFinding \<Rightarrow> validation_errors" where
  "finding_field_errors f =
     text_field_error (Some (rf_tool f))
     @ text_field_error (Some (rf_rule f))
     @ text_field_error (Some (rf_file f))
     @ check_fail (rf_line f < 1) ''greater_than_equal''
     @ text_field_error (Some (rf_message f))
     @ text_field_error (rf_rewrite_hint f)
     @ text_field_error (rf_canonical_pattern f)
     @ text_field_error (rf_intent_key f)
     @ check_fail (below_if_present 0 (rf_estimated_deletion_lines f)) ''greater_than_equal''
     @ text_field_error (rf_rationale f)
     @ safety_checks_error (rf_safety_checks f)
     @ text_field_error (rf_preserve_reason f)
     @ text_field_error (rf_improvement f)
     @ evidence_list_error (rf_signal_trace f)
     @ evidence_list_error (rf_preserve_reasons f)"

text \<open>\<open>_validate_guided_metadata\<close>.\<close>

definition any_guided_field :: "ReviewFinding \<Rightarrow> bool" where
  "any_guided_field f =
     (rf_recommended_action f \<noteq> None \<or> rf_clean_code_principle f \<noteq> None \<or> rf_rationale f \<noteq> None
      \<or> rf_safety_checks f \<noteq> None \<or> rf_action_status f \<noteq> None \<or> rf_preserve_reason f \<noteq> None
      \<or> rf_before_ref f \<noteq> None \<or> rf_after_ref f \<noteq> None \<or> rf_improvement f \<noteq> None)"

definition validate_guided_metadata :: "ReviewFinding \<Rightarrow> validation_errors + ReviewFinding" where
  "validate_guided_metadata f =
     (case rf_guidance_kind f of
        None \<Rightarrow>
          (if any_guided_field f
           then Inl [''guidance_kind is required when guided metadata fields are present'']
           else Inr f)
      | Some k \<Rightarrow>
          (if rf_recommended_action f = None
             then Inl [''recommended_action is required when guidance_kind is present'']
           else if rf_clean_code_principle f = None
             then Inl [''clean_code_principle is required when guidance_kind is present'']
           else if rf_rationale f = None
             then Inl [''rationale is required when guidance_kind is present'']
           else if rf_safety_checks f = None
             then Inl [''safety_checks is required when guidance_kind is present'']
           else if k = Preserve \<and> rf_preserve_reason f = None
             then Inl [''preserve_reason is required for preserve guidance'']
           else Inr f))"

text \<open>\<open>_derive_c14_lifecycle_fields\<close>.\<close>

definition expected_blocking :: "ReviewFinding \<Rightarrow> bool" where
  "expected_blocking f = (rf_severity f = SevError \<and> rf_status f = Open)"

definition derive_c14_lifecycle_fields :: "ReviewFinding \<Rightarrow> validation_errors + ReviewFinding" where
  "derive_c14_lifecycle_fields f =
     (if rf_autofix_available f \<noteq> None \<and> rf_autofix_available f \<noteq> Some (rf_fixable f)
        then Inl [''autofix_available must preserve the legacy fixable value'']
      else (let f1 = f\<lparr>rf_autofix_available := Some (rf_fixable f)\<rparr>
            in if rf_blocking f1 \<noteq> None \<and> rf_blocking f1 \<noteq> Some (expected_blocking f1)
                 then Inl [''blocking must be derived from severity and lifecycle status'']
               else Inr (f1\<lparr>rf_blocking := Some (expected_blocking f1)\<rparr>)))"

text \<open>\<open>ReviewFinding(...)\<close>.\<close>

definition make_finding :: "ReviewFinding \<Rightarrow> validation_errors + ReviewFinding" where
  "make_finding f =
     (let errs = finding_field_errors f
      in if errs \<noteq> [] then Inl errs
         else (case validate_guided_metadata f of
                 Inl e \<Rightarrow> Inl e
               | Inr g \<Rightarrow> derive_c14_lifecycle_fields g))"

text \<open>The queries of \<open>ReviewFinding\<close>.\<close>

definition has_simplification_metadata :: "ReviewFinding \<Rightarrow> bool" where
  "has_simplification_metadata f =
     (rf_confidence f \<noteq> None \<or> rf_rewrite_hint f \<noteq> None \<or> rf_canonical_pattern f \<noteq> None
      \<or> rf_intent_key f \<noteq> None \<or> rf_estimated_deletion_lines f \<noteq> None
      \<or> rf_related_locations f \<noteq> None \<or> rf_guidance_kind f \<noteq> None
      \<or> rf_recommended_action f \<noteq> None \<or> rf_clean_code_principle f \<noteq> None
      \<or> rf_rationale f \<noteq> None \<or> rf_safety_checks f \<noteq> None \<or> rf_preserve_reason f \<noteq> None
      \<or> rf_action_status f \<noteq> None \<or> rf_before_ref f \<noteq> None \<or> rf_after_ref f \<noteq> None
      \<or> rf_improvement f \<noteq> None \<or> rf_signal_trace f \<noteq> None \<or> rf_preserve_reasons f \<noteq> None
      \<or> rf_remediation_packet f \<noteq> None)"

definition has_guided_simplification_metadata :: "ReviewFinding \<Rightarrow> bool" where
  "has_guided_simplification_metadata f = (rf_guidance_kind f \<noteq> None)"

definition is_safe_mechanical_simplification :: "ReviewFinding \<Rightarrow> bool" where
  "is_safe_mechanical_simplification f =
     (rf_guidance_kind f = Some SafeMechanical
      \<and> rf_action_status f \<in> {None, Some Recommended, Some Failed}
      \<and> (case rf_preserve_reasons f of None \<Rightarrow> True | Some ps \<Rightarrow> ps = []))"

definition has_cleanup_handoff_metadata :: "ReviewFinding \<Rightarrow> bool" where
  "has_cleanup_handoff_metadata f =
     (rf_signal_trace f \<noteq> None \<or> rf_preserve_reasons f \<noteq> None \<or> rf_remediation_packet f \<noteq> None)"

definition simplification_metadata_is_deterministic :: "ReviewFinding \<Rightarrow> bool" where
  "simplification_metadata_is_deterministic f =
     (rf_rewrite_hint f \<noteq> None \<and> rf_canonical_pattern f \<noteq> None \<and> rf_intent_key f \<noteq> None)"

definition is_blocking :: "ReviewFinding \<Rightarrow> bool" where
  "is_blocking f = (rf_blocking f = Some True)"

section \<open>Well-formed findings\<close>

text \<open>What a constructed finding satisfies: no validator objects to it and the two derived
  fields hold their derived values.\<close>

definition wf_finding :: "ReviewFinding \<Rightarrow> bool" where
  "wf_finding f =
     (finding_field_errors f = [] \<and> validate_guided_metadata f = Inr f
      \<and> rf_autofix_available f = Some (rf_fixable f)
      \<and> rf_blocking f = Some (expected_blocking f))"

lemma validate_guided_metadata_id:
  "validate_guided_metadata f = Inr g \<Longrightarrow> g = f"
  by (auto simp: validate_guided_metadata_def split: option.splits if_splits)

lemma derive_c14_frame:
  assumes "derive_c14_lifecycle_fields f = Inr g"
  shows "g = f\<lparr>rf_autofix_available := Some (rf_fixable f), rf_blocking := Some (expected_blocking f)\<rparr>"
  using assms
  by (auto simp: derive_c14_lifecycle_fields_def expected_blocking_def Let_def split: if_splits)

lemma finding_checks_ignore_derived [simp]:
  "finding_field_errors (f\<lparr>rf_autofix_available := a, rf_blocking := b\<rparr>) = finding_field_errors f"
  "expected_blocking (f\<lparr>rf_autofix_available := a, rf_blocking := b\<rparr>) = expected_blocking f"
  by (simp_all add: finding_field_errors_def expected_blocking_def)

lemma guided_ignores_derived:
  "validate_guided_metadata f = Inr f \<Longrightarrow>
   validate_guided_metadata (f\<lparr>rf_autofix_available := a, rf_blocking := b\<rparr>)
   = Inr (f\<lparr>rf_autofix_available := a, rf_blocking := b\<rparr>)"
  by (auto simp: validate_guided_metadata_def any_guided_field_def split: option.splits if_splits)

lemma make_finding_steps:
  assumes "make_finding f = Inr g"
  shows "finding_field_errors f = []" and "validate_guided_metadata f = Inr f"
    and "g = f\<lparr>rf_autofix_available := Some (rf_fixable f), rf_blocking := Some (expected_blocking f)\<rparr>"
  using assms
  by (auto simp: make_finding_def Let_def split: if_splits sum.splits
      dest: validate_guided_metadata_id derive_c14_frame)

lemma make_finding_wf:
  assumes "make_finding f = Inr g"
  shows "wf_finding g"
  using guided_ignores_derived [OF make_finding_steps(2) [OF assms]] make_finding_steps [OF assms]
  by (simp add: wf_finding_def)

lemma make_finding_of_wf: "wf_finding f \<Longrightarrow> make_finding f = Inr f"
  by (simp add: make_finding_def wf_finding_def derive_c14_lifecycle_fields_def Let_def
      expected_blocking_def)

lemma wf_finding_blocking: "wf_finding f \<Longrightarrow> is_blocking f = expected_blocking f"
  by (simp add: wf_finding_def is_blocking_def)

end
