(* ===== verification/Review_Report.thy ===== *)
theory Review_Report
  imports Review_Findings
begin

text \<open>
  Report governance of the code-review bundle (\<^verbatim>\<open>run/findings.py\<close>, second half):
  analyzer-evidence profiles, schema versions, \<open>ReviewReport\<close> with the fields its validator
  derives, and the schema 1.6 assurance projection, builder and reader.
\<close>

section \<open>Analyzer evidence\<close>

definition PR_RANGE_REQUIRED_ANALYZERS :: "string list" where
  "PR_RANGE_REQUIRED_ANALYZERS =
     [''ruff'', ''radon'', ''semgrep-clean'', ''ai-bloat-ast'', ''ast-clean-code'',
      ''basedpyright'', ''pylint'', ''contracts'']"

definition PR_RANGE_CONDITIONAL_ANALYZERS :: "string list" where
  "PR_RANGE_CONDITIONAL_ANALYZERS = [''semgrep-bugs'', ''targeted-pytest-coverage'']"

definition PR_RANGE_ANALYZERS :: "string list" where
  "PR_RANGE_ANALYZERS = PR_RANGE_REQUIRED_ANALYZERS @ PR_RANGE_CONDITIONAL_ANALYZERS"

definition PASSING_ANALYZER_OUTCOMES :: "string list" where
  "PASSING_ANALYZER_OUTCOMES = [''PASS'', ''NOT_APPLICABLE'']"

definition VALID_ANALYZER_OUTCOMES :: "string list" where
  "VALID_ANALYZER_OUTCOMES = PASSING_ANALYZER_OUTCOMES @ [''FAIL'', ''UNKNOWN'']"

text \<open>\<open>evidence or []\<close>.\<close>

definition evidence_list :: "pydict list option \<Rightarrow> pydict list" where
  "evidence_list ev = (case ev of None \<Rightarrow> [] | Some xs \<Rightarrow> xs)"

definition evidence_id :: "pydict \<Rightarrow> string" where
  "evidence_id item = py_str (dget_or item ''id'' (PStr []))"

definition passing_pr_range_analyzer_profile :: "pydict list option \<Rightarrow> py_error + bool" where
  "passing_pr_range_analyzer_profile ev =
     (let ids = map evidence_id (evidence_list ev)
      in if length ids = length PR_RANGE_ANALYZERS \<and> set ids = set PR_RANGE_ANALYZERS
         then err_all (\<lambda>item. in_str_set (dget item ''evidence_outcome'') PASSING_ANALYZER_OUTCOMES)
                (evidence_list ev)
         else Inr False)"

definition has_untrusted_analyzer_outcome :: "pydict list option \<Rightarrow> py_error + bool" where
  "has_untrusted_analyzer_outcome ev =
     err_any (\<lambda>item. map_sum id Not
                (in_str_set (dget item ''evidence_outcome'') VALID_ANALYZER_OUTCOMES))
       (evidence_list ev)"

definition item_required_unknown :: "pydict \<Rightarrow> bool" where
  "item_required_unknown item =
     (case dget_or item ''required_unknown_reasons'' (PList []) of
        PList reasons \<Rightarrow> (\<exists>r \<in> set reasons. \<not> is_pstr r \<or> r = PStr []) \<or> reasons \<noteq> []
      | _ \<Rightarrow> True)"

definition has_required_unknown_evidence :: "pydict list option \<Rightarrow> bool" where
  "has_required_unknown_evidence ev = (\<exists>item \<in> set (evidence_list ev). item_required_unknown item)"

section \<open>Schema versions\<close>

definition schema_version_at_least :: "string \<Rightarrow> int \<Rightarrow> bool" where
  "schema_version_at_least v required_minor =
     (case py_split_char (CHR ''.'') v of
        major_text # minor_text # _ \<Rightarrow>
          (case (py_int major_text, py_int minor_text) of
             (Some major, Some minor) \<Rightarrow> major > 1 \<or> (major = 1 \<and> minor \<ge> required_minor)
           | _ \<Rightarrow> False)
      | _ \<Rightarrow> False)"

section \<open>Report models\<close>

datatype verdict = VPass | VPassWithAdvisory | VFail

datatype gate_decision = GatePass | GateFail

datatype enforcement_mode = EFull | EChanged | EShadow

record ReviewedLoc =
  rl_production :: int
  rl_tests :: int
  rl_total :: int

definition make_reviewed_loc :: "ReviewedLoc \<Rightarrow> validation_errors + ReviewedLoc" where
  "make_reviewed_loc r =
     (let errs = check_fail (rl_production r < 0) ''greater_than_equal''
               @ check_fail (rl_tests r < 0) ''greater_than_equal''
               @ check_fail (rl_total r < 0) ''greater_than_equal''
      in if errs \<noteq> [] then Inl errs
         else if rl_total r \<noteq> rl_production r + rl_tests r
           then Inl [''reviewed_loc.total must equal production + tests''] else Inr r)"

record DeletionEstimate =
  de_low :: int
  de_expected :: int
  de_high :: int

definition make_deletion_estimate :: "DeletionEstimate \<Rightarrow> validation_errors + DeletionEstimate" where
  "make_deletion_estimate d =
     (let errs = check_fail (de_low d < 0) ''greater_than_equal''
               @ check_fail (de_expected d < 0) ''greater_than_equal''
               @ check_fail (de_high d < 0) ''greater_than_equal''
      in if errs \<noteq> [] then Inl errs
         else if \<not> (de_low d \<le> de_expected d \<and> de_expected d \<le> de_high d)
           then Inl [''estimated_deletion_lines must satisfy low <= expected <= high''] else Inr d)"

record AiBloatIndex =
  ai_findings_per_kloc :: rat
  ai_weighted_bloat_points_per_kloc :: rat
  ai_cleanup_yield_loc_per_kloc :: rat

record GuidanceKindForecast =
  gf_count :: int
  gf_estimated_deletion_lines :: int
  gf_weight :: rat

record CleanupForecast =
  cf_reviewed_loc :: ReviewedLoc
  cf_estimated_deletion_lines :: DeletionEstimate
  cf_ai_bloat_index :: AiBloatIndex
  cf_by_guidance_kind :: "(string \<times> GuidanceKindForecast) list"
  cf_by_action_status :: "(string \<times> int) list"
  cf_preview_evidence_count :: int
  cf_mutation_evidence_count :: int

record SimplificationSummary =
  ss_by_guidance_kind :: "(string \<times> int) list"
  ss_by_action_status :: "(string \<times> int) list"
  ss_blocking_simplification_count :: int
  ss_applied_count :: int
  ss_kept_count :: int

record RequirementsEvidenceContext =
  rc_path :: string
  rc_content_digest :: string
  rc_mapping_digest :: string
  rc_plan_digest :: string
  rc_source_ref :: string
  rc_gate_decision :: gate_decision

definition make_requirements_context ::
  "RequirementsEvidenceContext \<Rightarrow> validation_errors + RequirementsEvidenceContext" where
  "make_requirements_context c =
     (let errs =
        check_fail (rc_path c = []) ''string_too_short''
        @ check_fail (\<not> is_sha256 (rc_content_digest c)) ''string_pattern_mismatch''
        @ check_fail (\<not> is_sha256 (rc_mapping_digest c)) ''string_pattern_mismatch''
        @ check_fail (\<not> is_sha256 (rc_plan_digest c)) ''string_pattern_mismatch''
        @ check_fail (\<not> (hex_of_length 40 (rc_source_ref c) \<or> hex_of_length 64 (rc_source_ref c)))
            ''string_pattern_mismatch''
      in if errs \<noteq> [] then Inl errs else Inr c)"

text \<open>The instant of \<open>timestamp\<close> is a number; \<open>_normalize_timestamp\<close> only changes the
  time zone it is written in.\<close>

record ReviewReport =
  rr_schema_version :: string
  rr_run_id :: string
  rr_timestamp :: int
  rr_overall_verdict :: "verdict option"
  rr_ci_exit_code :: "int option"
  rr_assurance_status :: "assurance_status option"
  rr_has_unknown_required_evidence :: "bool option"
  rr_scope_evidence :: "pydict option"
  rr_analyzer_evidence :: "pydict list option"
  rr_suppression_catalog_digest :: "string option"
  rr_score :: int
  rr_reward_delta :: "int option"
  rr_findings :: "ReviewFinding list"
  rr_summary :: string
  rr_simplification_summary :: "SimplificationSummary option"
  rr_cleanup_forecast :: "CleanupForecast option"
  rr_enforcement_mode :: "enforcement_mode option"
  rr_enforcement_summary :: "string option"
  rr_requirements_evidence :: "RequirementsEvidenceContext option"
  rr_house_rules_updates :: "string list"

section \<open>Simplification summary\<close>

definition count_in :: "('k \<times> int) list \<Rightarrow> 'k \<Rightarrow> ('k \<times> int) list" where
  "count_in d k = AList.update k ((case map_of d k of None \<Rightarrow> 0 | Some n \<Rightarrow> n) + 1) d"

definition count_opt :: "('k \<times> int) list \<Rightarrow> 'k option \<Rightarrow> ('k \<times> int) list" where
  "count_opt d k = (case k of None \<Rightarrow> d | Some k' \<Rightarrow> count_in d k')"

definition count_or_zero :: "('k \<times> int) list \<Rightarrow> 'k \<Rightarrow> int" where
  "count_or_zero d k = (case map_of d k of None \<Rightarrow> 0 | Some n \<Rightarrow> n)"

definition build_simplification_summary :: "ReviewFinding list \<Rightarrow> SimplificationSummary option" where
  "build_simplification_summary findings =
     (let guided = filter has_guided_simplification_metadata findings
      in if guided = [] then None
         else (let by_kind = foldl count_opt [] (map (map_option guidance_kind_text \<circ> rf_guidance_kind) guided);
                   by_status = foldl count_opt [] (map (map_option action_status_text \<circ> rf_action_status) guided)
               in Some \<lparr>ss_by_guidance_kind = by_kind,
                        ss_by_action_status = by_status,
                        ss_blocking_simplification_count =
                          int (length (filter is_safe_mechanical_simplification guided)),
                        ss_applied_count = count_or_zero by_status ''applied'',
                        ss_kept_count = count_or_zero by_status ''kept''\<rparr>))"

section \<open>Derived governance\<close>

definition report_schema_version :: "ReviewReport \<Rightarrow> string" where
  "report_schema_version r =
     (if schema_version_at_least (rr_schema_version r) 6 then rr_schema_version r
      else if rr_requirements_evidence r \<noteq> None then ''1.5''
      else if rr_enforcement_mode r \<noteq> None then ''1.4''
      else if rr_cleanup_forecast r \<noteq> None
              \<or> (\<exists>f \<in> set (rr_findings r). has_cleanup_handoff_metadata f) then ''1.3''
      else if rr_simplification_summary r \<noteq> None then ''1.2''
      else if \<exists>f \<in> set (rr_findings r). has_simplification_metadata f then ''1.1''
      else rr_schema_version r)"

text \<open>The disjunction that sets \<open>has_unknown_required_evidence\<close>, evaluated left to right.\<close>

definition derived_unknown_evidence :: "ReviewReport \<Rightarrow> assurance_status \<Rightarrow> py_error + bool" where
  "derived_unknown_evidence r st =
     (case (if st = StPass then passing_pr_range_analyzer_profile (rr_analyzer_evidence r)
            else Inr True) of
        Inl e \<Rightarrow> Inl e
      | Inr profile_ok \<Rightarrow>
          (if rr_has_unknown_required_evidence r = Some True \<or> st = StUnknown \<or> \<not> profile_ok
             then Inr True
           else (case has_untrusted_analyzer_outcome (rr_analyzer_evidence r) of
                   Inl e \<Rightarrow> Inl e
                 | Inr untrusted \<Rightarrow>
                     Inr (untrusted \<or> has_required_unknown_evidence (rr_analyzer_evidence r)
                          \<or> (\<exists>item \<in> set (evidence_list (rr_analyzer_evidence r)).
                                dget item ''evidence_outcome'' = PStr ''UNKNOWN'')))))"

definition authoritative_verdict :: "assurance_status \<Rightarrow> bool \<Rightarrow> verdict" where
  "authoritative_verdict st has_findings =
     (case st of
        StPass \<Rightarrow> (if has_findings then VPassWithAdvisory else VPass)
      | StNotApplicable \<Rightarrow> VPassWithAdvisory
      | StFail \<Rightarrow> VFail
      | StUnknown \<Rightarrow> VFail)"

text \<open>\<open>_derive_authoritative_governance\<close>: the flag says whether the method returned
  \<open>True\<close>, in which case the later derivations are skipped.\<close>

definition derive_authoritative_governance :: "ReviewReport \<Rightarrow> py_error + (bool \<times> ReviewReport)" where
  "derive_authoritative_governance r =
     (case rr_assurance_status r of
        None \<Rightarrow> Inr (False, r)
      | Some st \<Rightarrow>
          (if \<not> schema_version_at_least (rr_schema_version r) 6 then Inr (False, r)
           else (case derived_unknown_evidence r st of
                   Inl e \<Rightarrow> Inl e
                 | Inr unk \<Rightarrow>
                     (let st' = (if unk \<and> st \<in> {StPass, StNotApplicable} then StUnknown else st);
                          accepted = (st' \<in> {StPass, StNotApplicable})
                      in Inr (True,
                          r\<lparr>rr_has_unknown_required_evidence := Some unk,
                            rr_assurance_status := Some st',
                            rr_overall_verdict := Some (authoritative_verdict st' (rr_findings r \<noteq> [])),
                            rr_ci_exit_code :=
                              Some (if rr_enforcement_mode r = Some EShadow \<or> accepted then 0 else 1)\<rparr>)))))"

definition has_explicit_legacy_governance :: "ReviewReport \<Rightarrow> bool" where
  "has_explicit_legacy_governance r =
     (rr_enforcement_mode r \<noteq> None \<and> rr_overall_verdict r \<noteq> None \<and> rr_ci_exit_code r \<noteq> None)"

definition derive_score_governance :: "ReviewReport \<Rightarrow> ReviewReport" where
  "derive_score_governance r =
     (if \<exists>f \<in> set (rr_findings r). is_blocking f
        then r\<lparr>rr_overall_verdict := Some VFail, rr_ci_exit_code := Some 1\<rparr>
      else if rr_score r \<ge> 70
        then r\<lparr>rr_overall_verdict := Some VPass, rr_ci_exit_code := Some 0\<rparr>
      else if rr_score r \<ge> 50
        then r\<lparr>rr_overall_verdict := Some VPassWithAdvisory, rr_ci_exit_code := Some 0\<rparr>
      else r\<lparr>rr_overall_verdict := Some VFail, rr_ci_exit_code := Some 1\<rparr>)"

definition has_blocking_findings :: "ReviewReport \<Rightarrow> bool" where
  "has_blocking_findings r = (\<exists>f \<in> set (rr_findings r). is_blocking f)"

text \<open>The first three statements of \<open>_derive_governance_fields\<close>.\<close>

definition prepare_governance :: "ReviewReport \<Rightarrow> ReviewReport" where
  "prepare_governance r =
     (let r1 = (if rr_simplification_summary r = None
                then r\<lparr>rr_simplification_summary := build_simplification_summary (rr_findings r)\<rparr>
                else r);
          r2 = r1\<lparr>rr_schema_version := report_schema_version r1\<rparr>
      in r2\<lparr>rr_reward_delta := Some (rr_score r2 - 80)\<rparr>)"

definition derive_governance_fields :: "ReviewReport \<Rightarrow> py_error + ReviewReport" where
  "derive_governance_fields r =
     (let r0 = prepare_governance r
      in case derive_authoritative_governance r0 of
           Inl e \<Rightarrow> Inl e
         | Inr (True, r1) \<Rightarrow> Inr r1
         | Inr (False, r1) \<Rightarrow>
             (if has_explicit_legacy_governance r1 then Inr r1 else Inr (derive_score_governance r1)))"

datatype report_error = ValidationErrors "string list" | Raised py_error

definition report_field_errors :: "ReviewReport \<Rightarrow> validation_errors" where
  "report_field_errors r =
     check_fail (\<not> non_blank (rr_schema_version r)) ''value must not be empty''
     @ check_fail (\<not> non_blank (rr_run_id r)) ''value must not be empty''
     @ check_fail (rr_score r < 0) ''greater_than_equal''
     @ check_fail (rr_score r > 120) ''less_than_equal''
     @ check_fail (\<not> non_blank (rr_summary r)) ''value must not be empty''"

definition make_report :: "ReviewReport \<Rightarrow> report_error + ReviewReport" where
  "make_report r =
     (let errs = report_field_errors r
      in if errs \<noteq> [] then Inl (ValidationErrors errs)
         else map_sum Raised id (derive_governance_fields r))"

section \<open>Schema 1.6 assurance\<close>

record AssuranceProjection =
  ap_assurance_status :: assurance_status
  ap_overall_verdict :: verdict
  ap_ci_exit_code :: int
  ap_enforcement_shadow :: bool

fun assurance_of_text :: "string \<Rightarrow> assurance_status option" where
  "assurance_of_text s =
     (if s = ''PASS'' then Some StPass else if s = ''FAIL'' then Some StFail
      else if s = ''UNKNOWN'' then Some StUnknown
      else if s = ''NOT_APPLICABLE'' then Some StNotApplicable else None)"

definition project_assurance_status :: "string \<Rightarrow> string \<Rightarrow> py_error + AssuranceProjection" where
  "project_assurance_status status enforcement =
     (case assurance_of_text status of
        None \<Rightarrow> Inl (ValueError (''Unsupported assurance status: '' @ status))
      | Some st \<Rightarrow>
          (if enforcement \<noteq> ''full'' \<and> enforcement \<noteq> ''shadow''
             then Inl (ValueError (''Unsupported schema 1.6 enforcement mode: '' @ enforcement))
           else Inr \<lparr>ap_assurance_status = st,
                     ap_overall_verdict =
                       (if st = StPass then VPass
                        else if st = StNotApplicable then VPassWithAdvisory else VFail),
                     ap_ci_exit_code =
                       (if enforcement = ''shadow'' \<or> st \<in> {StPass, StNotApplicable} then 0 else 1),
                     ap_enforcement_shadow = (enforcement = ''shadow'')\<rparr>))"

record AssuranceMemberEvidence =
  am_id :: string
  am_outcome :: "assurance_status option"
  am_diagnostic :: "string option"
  am_base :: "assurance_status option"
  am_head :: "assurance_status option"
  am_disposition :: "differential_state option"

fun disposition_of_text :: "string \<Rightarrow> differential_state option" where
  "disposition_of_text s =
     (if s = ''fixed'' then Some DsFixed else if s = ''introduced'' then Some DsIntroduced
      else if s = ''unchanged'' then Some DsUnchanged
      else if s = ''unknown'' then Some DsUnknown else None)"

text \<open>A literal field of \<open>model_validate\<close>: absent is \<open>None\<close>, other text is an error.\<close>

definition literal_field :: "(string \<Rightarrow> 'a option) \<Rightarrow> string option \<Rightarrow> validation_errors" where
  "literal_field parse v =
     check_fail (case v of None \<Rightarrow> False | Some s \<Rightarrow> parse s = None) ''literal_error''"

definition parse_literal :: "(string \<Rightarrow> 'a option) \<Rightarrow> string option \<Rightarrow> 'a option" where
  "parse_literal parse v = (case v of None \<Rightarrow> None | Some s \<Rightarrow> parse s)"

definition make_member_evidence ::
  "(string \<times> string) list \<Rightarrow> validation_errors + AssuranceMemberEvidence" where
  "make_member_evidence d =
     (let get = map_of d;
          errs = check_fail (get ''id'' = None) ''missing''
               @ literal_field assurance_of_text (get ''outcome'')
               @ literal_field assurance_of_text (get ''base'')
               @ literal_field assurance_of_text (get ''head'')
               @ literal_field disposition_of_text (get ''disposition'')
      in if errs \<noteq> [] then Inl errs
         else Inr \<lparr>am_id = the (get ''id''),
                   am_outcome = parse_literal assurance_of_text (get ''outcome''),
                   am_diagnostic = get ''diagnostic'',
                   am_base = parse_literal assurance_of_text (get ''base''),
                   am_head = parse_literal assurance_of_text (get ''head''),
                   am_disposition = parse_literal disposition_of_text (get ''disposition'')\<rparr>)"

fun make_members ::
  "(string \<times> string) list list \<Rightarrow> validation_errors + AssuranceMemberEvidence list" where
  "make_members [] = Inr []"
| "make_members (d # ds) =
     (case make_member_evidence d of
        Inl e \<Rightarrow> Inl e
      | Inr m \<Rightarrow> (case make_members ds of Inl e \<Rightarrow> Inl e | Inr ms \<Rightarrow> Inr (m # ms)))"

record AssuranceReport =
  ar_assurance_status :: assurance_status
  ar_has_unknown_required_evidence :: bool
  ar_overall_verdict :: verdict
  ar_ci_exit_code :: int
  ar_enforcement_shadow :: bool
  ar_member_evidence :: "AssuranceMemberEvidence list"
  ar_aggregate_blockers :: "(string \<times> string) list list"
  ar_summary :: string
  ar_suppression_catalog_digest :: "string option"

definition assurance_summary :: "string \<Rightarrow> bool \<Rightarrow> string" where
  "assurance_summary derived has_unknown =
     (if derived = ''PASS'' then ''All required validations passed.''
      else if derived = ''FAIL'' then
        ''Open blocking findings remain.''
        @ (if has_unknown then '' Required evidence also remains unknown.'' else [])
      else if derived = ''NOT_APPLICABLE'' then ''No governed impact is applicable to this review.''
      else ''Required validation evidence remains unknown.'')"

definition build_assurance_report ::
  "string option \<Rightarrow> string \<Rightarrow> (string \<times> string) list list \<Rightarrow> (string \<times> string) list list
   \<Rightarrow> string option \<Rightarrow> report_error + AssuranceReport" where
  "build_assurance_report status enforcement member_evidence valid_blockers digest =
     (case make_members member_evidence of
        Inl e \<Rightarrow> Inl (ValidationErrors e)
      | Inr members \<Rightarrow>
          (let has_unknown = (\<exists>m \<in> set members. am_outcome m = Some StUnknown
                                                \<or> am_disposition m = Some DsUnknown);
               blockers = filter (\<lambda>b. map_of b ''status'' = Some ''open'') valid_blockers;
               derived = (case status of
                            None \<Rightarrow> (if blockers \<noteq> [] then ''FAIL''
                                     else if has_unknown then ''UNKNOWN'' else ''PASS'')
                          | Some s \<Rightarrow> s)
           in case project_assurance_status derived enforcement of
                Inl e \<Rightarrow> Inl (Raised e)
              | Inr proj \<Rightarrow>
                  Inr \<lparr>ar_assurance_status = ap_assurance_status proj,
                       ar_has_unknown_required_evidence = has_unknown,
                       ar_overall_verdict = ap_overall_verdict proj,
                       ar_ci_exit_code = ap_ci_exit_code proj,
                       ar_enforcement_shadow = ap_enforcement_shadow proj,
                       ar_member_evidence = members,
                       ar_aggregate_blockers = blockers,
                       ar_summary = assurance_summary derived has_unknown,
                       ar_suppression_catalog_digest = digest\<rparr>))"

text \<open>\<open>read_review_report\<close>: the status and the exit code read from a serialized report.\<close>

definition read_status :: "pydict \<Rightarrow> py_error + string" where
  "read_status payload =
     (let version = py_str (dget_or payload ''schema_version'' (PStr []));
          raw = dget payload ''assurance_status''
      in case in_str_set raw [''PASS'', ''FAIL'', ''UNKNOWN'', ''NOT_APPLICABLE''] of
           Inl e \<Rightarrow> Inl e
         | Inr True \<Rightarrow> Inr (py_str raw)
         | Inr False \<Rightarrow>
             (if schema_version_at_least version 6 then Inr ''UNKNOWN''
              else map_sum id (\<lambda>ok. if ok then ''PASS'' else ''FAIL'')
                     (in_str_set (dget payload ''overall_verdict'') [''PASS'', ''PASS_WITH_ADVISORY''])))"

definition read_review_report :: "pydict \<Rightarrow> py_error + (string \<times> int)" where
  "read_review_report payload =
     (case read_status payload of
        Inl e \<Rightarrow> Inl e
      | Inr status \<Rightarrow>
          (let raw_mode = py_str (dget_or payload ''enforcement_mode'' (PStr ''full''));
               enforcement = (if raw_mode = ''full'' \<or> raw_mode = ''shadow'' then raw_mode else ''full'')
           in map_sum id (\<lambda>proj. (status, ap_ci_exit_code proj))
                (project_assurance_status status enforcement)))"

section \<open>Lemmas on evidence profiles\<close>

lemma evidence_profile_passing:
  assumes "passing_pr_range_analyzer_profile ev = Inr True"
  shows "mset (map evidence_id (evidence_list ev)) = mset PR_RANGE_ANALYZERS"
    and "\<And>item. item \<in> set (evidence_list ev) \<Longrightarrow>
           dget item ''evidence_outcome'' \<in> {PStr ''PASS'', PStr ''NOT_APPLICABLE''}"
proof -
  have d: "distinct PR_RANGE_ANALYZERS" by code_simp
  show "mset (map evidence_id (evidence_list ev)) = mset PR_RANGE_ANALYZERS"
    using assms by (intro mset_eq_of_set_length d)
      (auto simp: passing_pr_range_analyzer_profile_def Let_def split: if_splits)
  show "dget item ''evidence_outcome'' \<in> {PStr ''PASS'', PStr ''NOT_APPLICABLE''}"
    if "item \<in> set (evidence_list ev)" for item
    using assms that
    by (auto simp: passing_pr_range_analyzer_profile_def Let_def err_all_True in_str_set_True
        PASSING_ANALYZER_OUTCOMES_def split: if_splits)
qed

section \<open>Lemmas on derived governance\<close>

lemma derived_unknown_False:
  assumes "derived_unknown_evidence r st = Inr False"
  shows "rr_has_unknown_required_evidence r \<noteq> Some True" and "st \<noteq> StUnknown"
    and "st = StPass \<Longrightarrow> passing_pr_range_analyzer_profile (rr_analyzer_evidence r) = Inr True"
    and "has_untrusted_analyzer_outcome (rr_analyzer_evidence r) = Inr False"
    and "\<not> has_required_unknown_evidence (rr_analyzer_evidence r)"
  using assms by (auto simp: derived_unknown_evidence_def split: sum.splits if_splits)

lemma derived_unknown_mono:
  "rr_has_unknown_required_evidence r = Some True \<Longrightarrow> st \<noteq> StPass \<Longrightarrow> derived_unknown_evidence r st = Inr True"
  by (simp add: derived_unknown_evidence_def)

lemma derived_unknown_keep:
  "derived_unknown_evidence r st = Inr False \<Longrightarrow>
   rr_analyzer_evidence r' = rr_analyzer_evidence r \<Longrightarrow>
   rr_has_unknown_required_evidence r' = Some False \<Longrightarrow>
   derived_unknown_evidence r' st = Inr False"
  by (auto simp: derived_unknown_evidence_def split: sum.splits if_splits)

lemma authoritative_result:
  assumes "derive_authoritative_governance r = Inr (True, r')"
  obtains st unk where "rr_assurance_status r = Some st" "schema_version_at_least (rr_schema_version r) 6"
    "derived_unknown_evidence r st = Inr unk"
    "r' = r\<lparr>rr_has_unknown_required_evidence := Some unk,
            rr_assurance_status := Some (if unk \<and> st \<in> {StPass, StNotApplicable} then StUnknown else st),
            rr_overall_verdict := Some (authoritative_verdict
               (if unk \<and> st \<in> {StPass, StNotApplicable} then StUnknown else st) (rr_findings r \<noteq> [])),
            rr_ci_exit_code := Some (if rr_enforcement_mode r = Some EShadow
               \<or> (if unk \<and> st \<in> {StPass, StNotApplicable} then StUnknown else st) \<in> {StPass, StNotApplicable}
               then 0 else 1)\<rparr>"
  using assms
  by (auto simp: derive_authoritative_governance_def Let_def split: option.splits if_splits sum.splits)

lemma authoritative_skipped:
  assumes "derive_authoritative_governance r = Inr (False, r')"
  shows "r' = r" and "rr_assurance_status r = None \<or> \<not> schema_version_at_least (rr_schema_version r) 6"
  using assms
  by (auto simp: derive_authoritative_governance_def Let_def split: option.splits if_splits sum.splits)

lemma authoritative_idem:
  assumes "derive_authoritative_governance r = Inr (True, r')"
  shows "derive_authoritative_governance r' = Inr (True, r')"
  using assms
proof (rule authoritative_result)
  fix st unk
  let ?st = "if unk \<and> st \<in> {StPass, StNotApplicable} then StUnknown else st"
  assume st: "rr_assurance_status r = Some st" "schema_version_at_least (rr_schema_version r) 6"
    and u: "derived_unknown_evidence r st = Inr unk"
    and r': "r' = r\<lparr>rr_has_unknown_required_evidence := Some unk, rr_assurance_status := Some ?st,
            rr_overall_verdict := Some (authoritative_verdict ?st (rr_findings r \<noteq> [])),
            rr_ci_exit_code := Some (if rr_enforcement_mode r = Some EShadow
               \<or> ?st \<in> {StPass, StNotApplicable} then 0 else 1)\<rparr>"
  have "derived_unknown_evidence r' ?st = Inr unk"
  proof (cases unk)
    case True
    then show ?thesis by (intro derived_unknown_mono [THEN trans]) (auto simp: r')
  next
    case False
    with u show ?thesis by (auto simp: r' intro: derived_unknown_keep)
  qed
  then show ?thesis using st by (simp add: derive_authoritative_governance_def r' Let_def)
qed

lemma schema_text_below_6 [simp]:
  "\<not> schema_version_at_least ''1.1'' 6" "\<not> schema_version_at_least ''1.2'' 6"
  "\<not> schema_version_at_least ''1.3'' 6" "\<not> schema_version_at_least ''1.4'' 6"
  "\<not> schema_version_at_least ''1.5'' 6"
  by code_simp+

lemma report_schema_version_stable:
  "report_schema_version (r\<lparr>rr_schema_version := report_schema_version r\<rparr>) = report_schema_version r"
  by (cases "schema_version_at_least (rr_schema_version r) 6") (auto simp: report_schema_version_def)

lemma report_schema_version_reward [simp]:
  "report_schema_version (r\<lparr>rr_reward_delta := d\<rparr>) = report_schema_version r"
  by (simp add: report_schema_version_def)

lemma prepare_governance_alt:
  "prepare_governance r =
     (let r1 = r\<lparr>rr_simplification_summary :=
                   (if rr_simplification_summary r = None
                    then build_simplification_summary (rr_findings r) else rr_simplification_summary r)\<rparr>
      in r1\<lparr>rr_schema_version := report_schema_version r1, rr_reward_delta := Some (rr_score r - 80)\<rparr>)"
  by (simp add: prepare_governance_def Let_def)

lemma prepare_fields [simp]:
  "rr_findings (prepare_governance r) = rr_findings r"
  "rr_score (prepare_governance r) = rr_score r"
  "rr_reward_delta (prepare_governance r) = Some (rr_score r - 80)"
  "rr_assurance_status (prepare_governance r) = rr_assurance_status r"
  "rr_analyzer_evidence (prepare_governance r) = rr_analyzer_evidence r"
  "rr_enforcement_mode (prepare_governance r) = rr_enforcement_mode r"
  "rr_overall_verdict (prepare_governance r) = rr_overall_verdict r"
  "rr_ci_exit_code (prepare_governance r) = rr_ci_exit_code r"
  by (simp_all add: prepare_governance_alt Let_def)

text \<open>A report whose derived header fields already hold their derived values.\<close>

definition header_settled :: "ReviewReport \<Rightarrow> bool" where
  "header_settled r =
     ((rr_simplification_summary r = None \<longrightarrow> build_simplification_summary (rr_findings r) = None)
      \<and> rr_schema_version r = report_schema_version r
      \<and> rr_reward_delta r = Some (rr_score r - 80))"

lemma prepare_settled: "header_settled r \<Longrightarrow> prepare_governance r = r"
  by (cases r) (auto simp: header_settled_def prepare_governance_alt Let_def)

lemma header_settled_prepare: "header_settled (prepare_governance r)"
  unfolding header_settled_def prepare_governance_alt Let_def
  by (simp only: report_schema_version_stable report_schema_version_reward) auto

lemma header_settled_outcome [simp]:
  "header_settled (r\<lparr>rr_has_unknown_required_evidence := a\<rparr>) = header_settled r"
  "header_settled (r\<lparr>rr_assurance_status := b\<rparr>) = header_settled r"
  "header_settled (r\<lparr>rr_overall_verdict := c\<rparr>) = header_settled r"
  "header_settled (r\<lparr>rr_ci_exit_code := d\<rparr>) = header_settled r"
  by (simp_all add: header_settled_def report_schema_version_def)

lemma derive_score_fields [simp]:
  "header_settled (derive_score_governance r) = header_settled r"
  "rr_assurance_status (derive_score_governance r) = rr_assurance_status r"
  "rr_schema_version (derive_score_governance r) = rr_schema_version r"
  by (simp_all add: derive_score_governance_def)

lemma derive_score_idem: "derive_score_governance (derive_score_governance r) = derive_score_governance r"
  by (simp add: derive_score_governance_def)

lemma derive_governance_cases:
  assumes "derive_governance_fields r = Inr r'"
  obtains
    (authoritative) "derive_authoritative_governance (prepare_governance r) = Inr (True, r')"
  | (legacy) "r' = prepare_governance r" "has_explicit_legacy_governance r'"
      "rr_assurance_status r' = None \<or> \<not> schema_version_at_least (rr_schema_version r') 6"
  | (scored) "r' = derive_score_governance (prepare_governance r)"
      "\<not> has_explicit_legacy_governance (prepare_governance r)"
      "rr_assurance_status r' = None \<or> \<not> schema_version_at_least (rr_schema_version r') 6"
proof (cases "derive_authoritative_governance (prepare_governance r)")
  case (Inl e)
  with assms show ?thesis by (simp add: derive_governance_fields_def)
next
  case (Inr res)
  obtain b q where q: "res = (b, q)" by (cases res)
  show ?thesis
  proof (cases b)
    case True
    with assms Inr q show ?thesis by (auto simp: derive_governance_fields_def intro: authoritative)
  next
    case False
    with Inr q have "derive_authoritative_governance (prepare_governance r) = Inr (False, q)" by simp
    note skipped = authoritative_skipped [OF this]
    with assms Inr q False show ?thesis
      by (cases "has_explicit_legacy_governance q")
        (auto simp: derive_governance_fields_def intro: legacy scored)
  qed
qed

lemma authoritative_header:
  assumes "derive_authoritative_governance r = Inr (True, r')"
  shows "header_settled r' = header_settled r"
  using assms by (rule authoritative_result) simp

lemma derive_governance_settled:
  assumes "derive_governance_fields r = Inr r'"
  shows "header_settled r'"
  using assms
  by (cases rule: derive_governance_cases) (auto simp: authoritative_header header_settled_prepare)

lemma skip_authoritative:
  "rr_assurance_status r = None \<or> \<not> schema_version_at_least (rr_schema_version r) 6 \<Longrightarrow>
   derive_authoritative_governance r = Inr (False, r)"
  by (auto simp: derive_authoritative_governance_def split: option.splits)

lemma derive_governance_idem:
  assumes "derive_governance_fields r = Inr r'"
  shows "derive_governance_fields r' = Inr r'"
proof -
  have p: "prepare_governance r' = r'"
    using derive_governance_settled [OF assms] by (rule prepare_settled)
  from assms show ?thesis
  proof (cases rule: derive_governance_cases)
    case authoritative
    then have "derive_authoritative_governance r' = Inr (True, r')" by (rule authoritative_idem)
    then show ?thesis by (simp add: derive_governance_fields_def p)
  next
    case legacy
    from legacy(2) show ?thesis
      by (simp add: derive_governance_fields_def p skip_authoritative [OF legacy(3)])
  next
    case scored
    then have "derive_score_governance r' = r'" by (simp add: derive_score_idem)
    then show ?thesis by (simp add: derive_governance_fields_def p skip_authoritative [OF scored(3)])
  qed
qed

lemma report_field_errors_governance:
  assumes "derive_governance_fields r = Inr r'" and "report_field_errors r = []"
  shows "report_field_errors r' = []"
proof -
  have v: "non_blank ''1.1''" "non_blank ''1.2''" "non_blank ''1.3''" "non_blank ''1.4''" "non_blank ''1.5''"
    by code_simp+
  have "report_field_errors (prepare_governance r) = []"
    using assms(2) v
    by (auto simp: report_field_errors_def check_fail_def prepare_governance_alt report_schema_version_def
        Let_def split: if_splits)
  moreover have "rr_schema_version r' = rr_schema_version (prepare_governance r)"
    "rr_run_id r' = rr_run_id (prepare_governance r)" "rr_score r' = rr_score (prepare_governance r)"
    "rr_summary r' = rr_summary (prepare_governance r)"
    using assms(1)
    by (cases rule: derive_governance_cases;
        auto elim!: authoritative_result simp: derive_score_governance_def)+
  ultimately show ?thesis by (simp add: report_field_errors_def)
qed

lemma make_report_steps:
  assumes "make_report r = Inr r'"
  shows "report_field_errors r = []" and "derive_governance_fields r = Inr r'"
  using assms by (auto simp: make_report_def Let_def map_sum_Inr_iff split: if_splits)

section \<open>Sample reports\<close>

definition sample_report :: ReviewReport where
  "sample_report =
     \<lparr>rr_schema_version = ''1.0'', rr_run_id = ''run-1'', rr_timestamp = 0, rr_overall_verdict = None,
      rr_ci_exit_code = None, rr_assurance_status = None, rr_has_unknown_required_evidence = None,
      rr_scope_evidence = None, rr_analyzer_evidence = None, rr_suppression_catalog_digest = None,
      rr_score = 100, rr_reward_delta = None, rr_findings = [], rr_summary = ''ok'',
      rr_simplification_summary = None, rr_cleanup_forecast = None, rr_enforcement_mode = None,
      rr_enforcement_summary = None, rr_requirements_evidence = None, rr_house_rules_updates = []\<rparr>"

definition passing_profile :: "pydict list" where
  "passing_profile =
     map (\<lambda>name. [(PStr ''id'', PStr name), (PStr ''evidence_outcome'', PStr ''PASS'')]) PR_RANGE_ANALYZERS"

definition sample_pass_report :: ReviewReport where
  "sample_pass_report = sample_report\<lparr>rr_schema_version := ''1.6'', rr_assurance_status := Some StPass,
     rr_analyzer_evidence := Some passing_profile\<rparr>"

lemma sample_pass_report_made:
  "make_report sample_pass_report =
     Inr (sample_pass_report\<lparr>rr_reward_delta := Some 20, rr_has_unknown_required_evidence := Some False,
            rr_overall_verdict := Some VPass, rr_ci_exit_code := Some 0\<rparr>)"
  by code_simp

section \<open>Properties\<close>

text \<open>C14: A schema 1.6 report is never PASS on partial evidence. When a constructed report ends
  with assurance status PASS, its analyzer evidence names each of the ten analyzers of the PR range
  profile exactly once, every outcome is PASS or NOT_APPLICABLE, no member lists a reason for
  unknown required evidence, the unknown flag is false and the exit code is 0.\<close>

theorem report_pass_is_complete:
  assumes "make_report r = Inr r'"
    and "schema_version_at_least (rr_schema_version r') 6"
    and "rr_assurance_status r' = Some StPass"
  shows "mset (map evidence_id (evidence_list (rr_analyzer_evidence r'))) = mset PR_RANGE_ANALYZERS
    \<and> (\<forall>item \<in> set (evidence_list (rr_analyzer_evidence r')).
         dget item ''evidence_outcome'' \<in> {PStr ''PASS'', PStr ''NOT_APPLICABLE''}
         \<and> \<not> item_required_unknown item)
    \<and> rr_has_unknown_required_evidence r' = Some False
    \<and> rr_ci_exit_code r' = Some 0"
proof -
  have "derive_authoritative_governance (prepare_governance r) = Inr (True, r')"
    using make_report_steps(2) [OF assms(1)] assms(2,3)
    by (cases rule: derive_governance_cases) auto
  then show ?thesis
  proof (rule authoritative_result)
    fix st unk
    let ?p = "prepare_governance r"
    assume u: "derived_unknown_evidence ?p st = Inr unk"
      and r': "r' = ?p\<lparr>rr_has_unknown_required_evidence := Some unk,
            rr_assurance_status := Some (if unk \<and> st \<in> {StPass, StNotApplicable} then StUnknown else st),
            rr_overall_verdict := Some (authoritative_verdict
               (if unk \<and> st \<in> {StPass, StNotApplicable} then StUnknown else st) (rr_findings ?p \<noteq> [])),
            rr_ci_exit_code := Some (if rr_enforcement_mode ?p = Some EShadow
               \<or> (if unk \<and> st \<in> {StPass, StNotApplicable} then StUnknown else st) \<in> {StPass, StNotApplicable}
               then 0 else 1)\<rparr>"
    from assms(3) r' have st: "st = StPass" "\<not> unk" by (auto split: if_splits)
    with u have "derived_unknown_evidence ?p StPass = Inr False" by simp
    note d = derived_unknown_False [OF this]
    note e = evidence_profile_passing [OF d(3) [OF refl]]
    show ?thesis using r' st e d(5) by (auto simp: has_required_unknown_evidence_def)
  qed
qed

theorem report_pass_is_complete_witness:
  "\<exists>r'. make_report sample_pass_report = Inr r' \<and> rr_assurance_status r' = Some StPass
        \<and> mset (map evidence_id (evidence_list (rr_analyzer_evidence r'))) = mset PR_RANGE_ANALYZERS
        \<and> rr_ci_exit_code r' = Some 0"
proof -
  let ?r = "sample_pass_report\<lparr>rr_reward_delta := Some 20, rr_has_unknown_required_evidence := Some False,
     rr_overall_verdict := Some VPass, rr_ci_exit_code := Some 0\<rparr>"
  have v: "schema_version_at_least (rr_schema_version ?r) 6" by code_simp
  have st: "rr_assurance_status ?r = Some StPass" by (simp add: sample_pass_report_def)
  from report_pass_is_complete [OF sample_pass_report_made v st] st sample_pass_report_made
  show ?thesis by blast
qed

text \<open>Re-validating a constructed report changes nothing: the derived summary, schema version,
  reward delta, verdict, exit code and assurance status are a fixed point of the derivation.\<close>

theorem report_revalidation:
  assumes "make_report r = Inr r'"
  shows "make_report r' = Inr r'"
proof -
  note steps = make_report_steps [OF assms]
  have "report_field_errors r' = []" using steps(2,1) by (rule report_field_errors_governance)
  moreover have "derive_governance_fields r' = Inr r'" using steps(2) by (rule derive_governance_idem)
  ultimately show ?thesis by (simp add: make_report_def)
qed

theorem report_revalidation_witness:
  "\<exists>r'. make_report sample_pass_report = Inr r' \<and> r' \<noteq> sample_pass_report \<and> make_report r' = Inr r'"
proof -
  have "sample_pass_report\<lparr>rr_reward_delta := Some 20, rr_has_unknown_required_evidence := Some False,
     rr_overall_verdict := Some VPass, rr_ci_exit_code := Some 0\<rparr> \<noteq> sample_pass_report"
    by (simp add: sample_pass_report_def sample_report_def)
  with report_revalidation [OF sample_pass_report_made] sample_pass_report_made show ?thesis by blast
qed

end
