(* ===== verification/Review_Scorer.thy ===== *)
theory Review_Scorer
  imports Review_Report
begin

text \<open>
  Scoring of a review run (\<^verbatim>\<open>run/scorer.py\<close>): deductions per finding, bonus points, the
  clamp to 0..120 and the verdict, and how it agrees with the verdict that \<open>ReviewReport\<close>
  derives for itself.
\<close>

section \<open>Model\<close>

record ReviewScore =
  rs_score :: int
  rs_reward_delta :: int
  rs_overall_verdict :: verdict
  rs_ci_exit_code :: int

record ReviewScoreModifiers =
  zero_loc_violations :: bool
  zero_complexity_violations :: bool
  all_apis_have_icontract :: bool
  coverage_90_plus :: bool
  no_new_suppressions :: bool

definition bonus_points :: "ReviewScoreModifiers \<Rightarrow> int" where
  "bonus_points m =
     5 * (of_bool (zero_loc_violations m) + of_bool (zero_complexity_violations m)
          + of_bool (all_apis_have_icontract m) + of_bool (coverage_90_plus m)
          + of_bool (no_new_suppressions m))"

definition deduction_for_finding :: "bool \<Rightarrow> ReviewFinding \<Rightarrow> int" where
  "deduction_for_finding simplification_score_neutral f =
     (if rf_category f = AiBloat then 0
      else if simplification_score_neutral \<and> rf_category f \<in> {Dry, Kiss}
              \<and> rf_confidence f = Some High \<and> simplification_metadata_is_deterministic f then 0
      else if rf_severity f = SevError \<and> \<not> rf_fixable f then 15
      else if rf_severity f = SevError \<and> rf_fixable f then 5
      else if rf_severity f = SevWarning then 2
      else 1)"

definition determine_verdict :: "int \<Rightarrow> ReviewFinding list \<Rightarrow> verdict \<times> int" where
  "determine_verdict score findings =
     (if \<exists>f \<in> set findings. is_blocking f then (VFail, 1)
      else if score \<ge> 70 then (VPass, 0)
      else if score \<ge> 50 then (VPassWithAdvisory, 0)
      else (VFail, 1))"

text \<open>\<open>bool(kwargs.pop(name, False))\<close>.\<close>

definition kwarg_flag :: "(string \<times> pyval) list \<Rightarrow> string \<Rightarrow> bool" where
  "kwarg_flag kwargs name = (case map_of kwargs name of None \<Rightarrow> False | Some v \<Rightarrow> py_truthy v)"

definition score_kwargs :: "string list" where
  "score_kwargs =
     [''zero_loc_violations'', ''zero_complexity_violations'', ''all_apis_have_icontract'',
      ''coverage_90_plus'', ''no_new_suppressions'', ''simplification_score_neutral'']"

definition modifiers_of :: "(string \<times> pyval) list \<Rightarrow> ReviewScoreModifiers" where
  "modifiers_of kwargs =
     \<lparr>zero_loc_violations = kwarg_flag kwargs ''zero_loc_violations'',
      zero_complexity_violations = kwarg_flag kwargs ''zero_complexity_violations'',
      all_apis_have_icontract = kwarg_flag kwargs ''all_apis_have_icontract'',
      coverage_90_plus = kwarg_flag kwargs ''coverage_90_plus'',
      no_new_suppressions = kwarg_flag kwargs ''no_new_suppressions''\<rparr>"

definition raw_score :: "ReviewFinding list \<Rightarrow> bool \<Rightarrow> ReviewScoreModifiers \<Rightarrow> int" where
  "raw_score findings neutral m =
     100 - sum_list (map (deduction_for_finding neutral) findings) + bonus_points m"

definition score_review ::
  "ReviewFinding list \<Rightarrow> (string \<times> pyval) list \<Rightarrow> py_error + ReviewScore" where
  "score_review findings kwargs =
     (let unexpected = filter (\<lambda>k. k \<notin> set score_kwargs) (map fst kwargs)
      in if unexpected \<noteq> []
         then Inl (ValueError (''Unexpected keyword arguments: '' @ py_join '', '' (sort unexpected)))
         else (let score = max 0 (min 120 (raw_score findings
                             (kwarg_flag kwargs ''simplification_score_neutral'') (modifiers_of kwargs)));
                   (verdict, code) = determine_verdict score findings
               in Inr \<lparr>rs_score = score, rs_reward_delta = score - 80,
                       rs_overall_verdict = verdict, rs_ci_exit_code = code\<rparr>))"

section \<open>The verdict policy as an interface\<close>

text \<open>
  Two components decide a verdict from a score and the presence of a blocking finding. The
  interface states what such a decision promises; everything about exit codes follows from it.
\<close>

locale verdict_policy =
  fixes decide :: "int \<Rightarrow> bool \<Rightarrow> verdict \<times> int"
  assumes blocked: "decide s True = (VFail, 1)"
    and high: "70 \<le> s \<Longrightarrow> decide s False = (VPass, 0)"
    and middle: "50 \<le> s \<Longrightarrow> s < 70 \<Longrightarrow> decide s False = (VPassWithAdvisory, 0)"
    and low: "s < 50 \<Longrightarrow> decide s False = (VFail, 1)"
begin

lemma decide_cases:
  "decide s b = (if b \<or> s < 50 then (VFail, 1) else if s < 70 then (VPassWithAdvisory, 0) else (VPass, 0))"
  using blocked high middle low by (cases b) auto

lemma exit_iff_fail: "snd (decide s b) = 1 \<longleftrightarrow> fst (decide s b) = VFail"
  by (simp add: decide_cases)

lemma exit_zero_mono: "snd (decide s b) = 0 \<Longrightarrow> s \<le> t \<Longrightarrow> snd (decide t b) = 0"
  by (simp add: decide_cases split: if_splits)

lemma policy_unique:
  assumes "verdict_policy other"
  shows "decide s b = other s b"
  using decide_cases verdict_policy.decide_cases [OF assms] by simp

end

text \<open>The two decisions of the source, seen through the interface: a list with or without a
  blocking finding, and a report whose findings block or not.\<close>

definition some_blocker :: ReviewFinding where
  "some_blocker =
     \<lparr>rf_category = Security, rf_severity = SevError, rf_tool = ''t'', rf_rule = ''r'', rf_file = ''f'',
      rf_line = 1, rf_message = ''m'', rf_fixable = False, rf_status = Open,
      rf_differential_state = None, rf_autofix_available = Some False, rf_blocking = Some True,
      rf_execution_state = None, rf_evidence_outcome = None, rf_evidence_refs = None,
      rf_confidence = None, rf_rewrite_hint = None, rf_canonical_pattern = None, rf_intent_key = None,
      rf_estimated_deletion_lines = None, rf_related_locations = None, rf_guidance_kind = None,
      rf_recommended_action = None, rf_clean_code_principle = None, rf_rationale = None,
      rf_safety_checks = None, rf_preserve_reason = None, rf_action_status = None,
      rf_before_ref = None, rf_after_ref = None, rf_improvement = None, rf_signal_trace = None,
      rf_preserve_reasons = None, rf_remediation_packet = None\<rparr>"

lemma some_blocker_blocks [simp]: "is_blocking some_blocker"
  by (simp add: is_blocking_def some_blocker_def)

definition scorer_decision :: "int \<Rightarrow> bool \<Rightarrow> verdict \<times> int" where
  "scorer_decision s b = determine_verdict s (if b then [some_blocker] else [])"

lemma determine_verdict_decision:
  "determine_verdict s fs = scorer_decision s (\<exists>f \<in> set fs. is_blocking f)"
  by (auto simp: determine_verdict_def scorer_decision_def)

interpretation scorer: verdict_policy scorer_decision
  by unfold_locales (auto simp: scorer_decision_def determine_verdict_def)

definition report_decision :: "ReviewReport \<Rightarrow> int \<Rightarrow> bool \<Rightarrow> verdict \<times> int" where
  "report_decision r s b =
     (let r' = derive_score_governance (r\<lparr>rr_score := s, rr_findings := (if b then [some_blocker] else [])\<rparr>)
      in (the (rr_overall_verdict r'), the (rr_ci_exit_code r')))"

interpretation report: verdict_policy "report_decision r"
  by unfold_locales (auto simp: report_decision_def derive_score_governance_def Let_def)

lemma report_decision_of:
  "derive_score_governance r =
     r\<lparr>rr_overall_verdict := Some (fst (report_decision r (rr_score r) (has_blocking_findings r))),
       rr_ci_exit_code := Some (snd (report_decision r (rr_score r) (has_blocking_findings r)))\<rparr>"
  by (simp add: report.decide_cases derive_score_governance_def has_blocking_findings_def)

lemma decisions_agree: "report_decision r s b = scorer_decision s b"
  by (rule report.policy_unique) (rule scorer.verdict_policy_axioms)

section \<open>Lemmas on scores\<close>

lemma deduction_range: "0 \<le> deduction_for_finding n f \<and> deduction_for_finding n f \<le> 15"
  by (simp add: deduction_for_finding_def)

lemma bonus_range: "0 \<le> bonus_points m \<and> bonus_points m \<le> 25"
  by (simp add: bonus_points_def of_bool_def)

lemma score_review_ok:
  assumes "score_review fs kw = Inr s"
  shows "rs_score s = max 0 (min 120 (raw_score fs (kwarg_flag kw ''simplification_score_neutral'') (modifiers_of kw)))"
    and "rs_reward_delta s = rs_score s - 80"
    and "(rs_overall_verdict s, rs_ci_exit_code s) = determine_verdict (rs_score s) fs"
  using assms by (auto simp: score_review_def Let_def split: if_splits prod.splits)

lemma score_review_unexpected:
  "set (map fst kw) \<subseteq> set score_kwargs \<longleftrightarrow> (\<exists>s. score_review fs kw = Inr s)"
  by (auto simp: score_review_def Let_def filter_empty_conv split: if_splits prod.splits)

lemma raw_score_anti:
  assumes "mset fs \<subseteq># mset gs"
  shows "raw_score gs n m \<le> raw_score fs n m"
proof -
  let ?d = "deduction_for_finding n"
  obtain M where M: "mset gs = mset fs + M"
    using assms by (auto simp: subset_mset.le_iff_add)
  have eq: "sum_list (map ?d xs) = sum_mset (image_mset ?d (mset xs))" for xs
    by (simp flip: sum_mset_sum_list)
  have "0 \<le> sum_mset (image_mset ?d M)"
    by (induction M) (auto simp: deduction_range add_nonneg_nonneg)
  then have "sum_list (map ?d fs) \<le> sum_list (map ?d gs)"
    by (simp add: eq M)
  then show ?thesis by (simp add: raw_score_def)
qed

section \<open>Properties\<close>

text \<open>A score that is computed is in 0..120 with reward delta score minus 80; the run fails (exit
  code 1, verdict FAIL) exactly when a finding blocks or the score is below 50, and it is a clean
  PASS exactly when nothing blocks and the score is at least 70.\<close>

theorem score_review_verdict:
  assumes "score_review fs kw = Inr s"
  shows "0 \<le> rs_score s \<and> rs_score s \<le> 120 \<and> rs_reward_delta s = rs_score s - 80
    \<and> rs_ci_exit_code s = (if rs_overall_verdict s = VFail then 1 else 0)
    \<and> (rs_overall_verdict s = VFail \<longleftrightarrow> (\<exists>f \<in> set fs. is_blocking f) \<or> rs_score s < 50)
    \<and> (rs_overall_verdict s = VPass \<longleftrightarrow> (\<forall>f \<in> set fs. \<not> is_blocking f) \<and> 70 \<le> rs_score s)"
  using score_review_ok [OF assms]
  by (auto simp: determine_verdict_decision scorer.decide_cases split: if_splits)

theorem score_review_verdict_witness:
  "\<exists>s. score_review [some_blocker] [] = Inr s \<and> rs_score s = 85 \<and> rs_overall_verdict s = VFail
       \<and> rs_ci_exit_code s = 1"
proof -
  have eq: "score_review [some_blocker] [] =
    Inr \<lparr>rs_score = 85, rs_reward_delta = 5, rs_overall_verdict = VFail, rs_ci_exit_code = 1\<rparr>"
    by code_simp
  from score_review_verdict [OF this] eq show ?thesis by auto
qed

text \<open>More findings never help. If the findings of one run contain those of another (with
  multiplicity, in any order), its score is no higher and a failing run stays failing; in particular the
  score does not depend on the order of the findings.\<close>

theorem score_review_antitone:
  assumes "mset fs \<subseteq># mset gs" and "score_review fs kw = Inr s" and "score_review gs kw = Inr t"
  shows "rs_score t \<le> rs_score s \<and> rs_ci_exit_code s \<le> rs_ci_exit_code t"
proof -
  note s = score_review_ok [OF assms(2)] and t = score_review_ok [OF assms(3)]
  have le: "rs_score t \<le> rs_score s"
    unfolding s(1) t(1) by (intro max.mono min.mono raw_score_anti [OF assms(1)] order_refl)
  have sub: "set fs \<subseteq> set gs"
    using set_mset_mono [OF assms(1)] by simp
  from le sub s(3) t(3) show ?thesis
    by (auto simp: determine_verdict_decision scorer.decide_cases split: if_splits)
qed

theorem score_review_antitone_witness:
  "\<exists>s t. score_review [] [] = Inr s \<and> score_review [some_blocker] [] = Inr t
         \<and> rs_score t \<le> rs_score s \<and> rs_ci_exit_code s < rs_ci_exit_code t"
proof -
  have a: "score_review [] [] =
      Inr \<lparr>rs_score = 100, rs_reward_delta = 20, rs_overall_verdict = VPass, rs_ci_exit_code = 0\<rparr>"
    by code_simp
  have b: "score_review [some_blocker] [] =
      Inr \<lparr>rs_score = 85, rs_reward_delta = 5, rs_overall_verdict = VFail, rs_ci_exit_code = 1\<rparr>"
    by code_simp
  have "mset [] \<subseteq># mset [some_blocker]" by simp
  from score_review_antitone [OF this a b] a b show ?thesis by auto
qed

text \<open>The scorer and the report agree. A report that carries no enforcement mode and no assurance
  status, built with the findings and the score of \<open>score_review\<close>, gets the same reward delta,
  verdict and exit code as the score.\<close>

theorem report_agrees_with_score:
  assumes "score_review (rr_findings r) kw = Inr s" and "rr_score r = rs_score s"
    and "rr_enforcement_mode r = None" and "rr_assurance_status r = None"
    and "make_report r = Inr r'"
  shows "rr_reward_delta r' = Some (rs_reward_delta s)
    \<and> rr_overall_verdict r' = Some (rs_overall_verdict s)
    \<and> rr_ci_exit_code r' = Some (rs_ci_exit_code s)"
proof -
  let ?p = "prepare_governance r"
  have "r' = derive_score_governance ?p"
    using make_report_steps(2) [OF assms(5)]
  proof (cases rule: derive_governance_cases)
    case authoritative
    with assms(4) show ?thesis by (auto elim: authoritative_result)
  next
    case legacy
    with assms(3) show ?thesis by (simp add: has_explicit_legacy_governance_def)
  qed
  then show ?thesis
    using score_review_ok [OF assms(1)] assms(2)
    by (simp add: report_decision_of decisions_agree determine_verdict_decision has_blocking_findings_def prod_eq_iff)
qed

theorem report_agrees_with_score_witness:
  "\<exists>s r'. score_review (rr_findings (sample_report\<lparr>rr_findings := [some_blocker], rr_score := 85\<rparr>)) [] = Inr s
     \<and> make_report (sample_report\<lparr>rr_findings := [some_blocker], rr_score := 85\<rparr>) = Inr r'
     \<and> rr_overall_verdict r' = Some (rs_overall_verdict s) \<and> rr_ci_exit_code r' = Some 1"
proof -
  let ?r = "sample_report\<lparr>rr_findings := [some_blocker], rr_score := 85\<rparr>"
  let ?s = "\<lparr>rs_score = 85, rs_reward_delta = 5, rs_overall_verdict = VFail, rs_ci_exit_code = 1\<rparr>"
  have s: "score_review (rr_findings ?r) [] = Inr ?s" by code_simp
  have m: "make_report ?r = Inr (?r\<lparr>rr_reward_delta := Some 5, rr_overall_verdict := Some VFail,
      rr_ci_exit_code := Some 1\<rparr>)" (is "_ = Inr ?r'") by code_simp
  have "rr_score ?r = rs_score ?s" "rr_enforcement_mode ?r = None" "rr_assurance_status ?r = None"
    by (simp_all add: sample_report_def)
  from report_agrees_with_score [OF s this m] s m show ?thesis by auto
qed

text \<open>AI-bloat findings are score neutral: wherever one is inserted, the score and reward are
  unchanged, and so is the verdict unless the finding itself blocks.\<close>

theorem ai_bloat_neutral:
  assumes "rf_category f = AiBloat" and "\<not> is_blocking f"
  shows "score_review (xs @ f # ys) kw = score_review (xs @ ys) kw"
proof -
  have "raw_score (xs @ f # ys) = raw_score (xs @ ys)"
    using assms(1) by (auto simp: fun_eq_iff raw_score_def deduction_for_finding_def)
  moreover have "determine_verdict s (xs @ f # ys) = determine_verdict s (xs @ ys)" for s
    using assms(2) by (simp add: determine_verdict_def)
  ultimately show ?thesis unfolding score_review_def by presburger
qed

theorem ai_bloat_neutral_witness:
  "rf_category (some_blocker\<lparr>rf_category := AiBloat, rf_severity := SevInfo, rf_blocking := Some False\<rparr>) = AiBloat
   \<and> score_review ([] @ some_blocker\<lparr>rf_category := AiBloat, rf_severity := SevInfo, rf_blocking := Some False\<rparr> # [some_blocker]) []
     = score_review ([] @ [some_blocker]) []"
proof -
  let ?f = "some_blocker\<lparr>rf_category := AiBloat, rf_severity := SevInfo, rf_blocking := Some False\<rparr>"
  have c: "rf_category ?f = AiBloat" and b: "\<not> is_blocking ?f" by (simp_all add: is_blocking_def)
  from c ai_bloat_neutral [OF c b] show ?thesis by blast
qed

end
