(* ===== verification/Py_Float.thy ===== *)
theory Py_Float
  imports Prelude "HOL-Library.Log_Nat"
begin

text \<open>
  Python floats where the program computes with them. A float is the rational number it denotes;
  an operation is the exact operation followed by \<open>double_round\<close>, rounding to nearest (ties
  to even) with a 53-bit significand. Exponent overflow and underflow are not modelled: the
  values of the program stay far inside the normal range. \<open>py_round2\<close> is \<open>round(x, 2)\<close>:
  the nearest number of hundredths (ties to even), as a float; \<open>py_round3\<close> is \<open>round(x, 3)\<close>.
\<close>

section \<open>Rounding\<close>

definition round_half_even :: "rat \<Rightarrow> int" where
  "round_half_even x =
     (let f = \<lfloor>x\<rfloor>; d = x - of_int f
      in if d < 1 / 2 then f else if 1 / 2 < d then f + 1 else if even f then f else f + 1)"

text \<open>The binary exponent of a positive rational.\<close>

definition binary_exponent :: "rat \<Rightarrow> int" where
  "binary_exponent x =
     (let (p, q) = quotient_of x; k = bitlen p - bitlen q
      in if 2 powi k \<le> x then k else k - 1)"

definition double_round :: "rat \<Rightarrow> rat" where
  "double_round x =
     (if x = 0 then 0
      else (let u = 2 powi (binary_exponent \<bar>x\<bar> - 52) in of_int (round_half_even (x / u)) * u))"

definition py_round2 :: "rat \<Rightarrow> rat" where
  "py_round2 x = double_round (of_int (round_half_even (100 * x)) / 100)"

definition py_round3 :: "rat \<Rightarrow> rat" where
  "py_round3 x = double_round (of_int (round_half_even (1000 * x)) / 1000)"

section \<open>Error bounds\<close>

lemma round_half_even_error: "\<bar>of_int (round_half_even x) - x\<bar> \<le> 1 / 2"
proof -
  have "of_int \<lfloor>x\<rfloor> \<le> x" "x < of_int \<lfloor>x\<rfloor> + 1" by linarith+
  then show ?thesis by (auto simp: round_half_even_def Let_def)
qed

lemma round_half_even_near:
  assumes "\<bar>x - of_int n\<bar> < 1 / 2"
  shows "round_half_even x = n"
proof -
  have "\<bar>of_int (round_half_even x) - of_int n :: rat\<bar> < 1"
    using round_half_even_error [of x] assms by linarith
  then show ?thesis by linarith
qed

lemma binary_exponent_le:
  assumes "0 < x"
  shows "2 powi (binary_exponent x) \<le> x"
proof -
  obtain p q where pq: "quotient_of x = (p, q)" by (cases "quotient_of x")
  then have x: "x = of_int p / of_int q" and q: "0 < q"
    by (simp_all add: quotient_of_div quotient_of_denom_pos)
  with assms have p: "0 < p" by (simp add: zero_less_divide_iff)
  have bp: "1 \<le> bitlen p" using p bitlen_eq_zero_iff [of p] bitlen_nonneg [of p] by linarith
  have lo: "(2::rat) powi (bitlen p - 1) \<le> of_int p"
    using bitlen_bounds [OF p] bp
    by (simp add: power_int_nonneg_exp)
  have hi: "of_int q \<le> (2::rat) powi (bitlen q)"
    using bitlen_bounds [OF q] bitlen_nonneg [of q]
    by (simp add: power_int_nonneg_exp)
  have "(2::rat) powi (bitlen p - bitlen q - 1) = 2 powi (bitlen p - 1) / 2 powi (bitlen q)"
    by (simp flip: power_int_diff add: algebra_simps)
  also have "\<dots> \<le> of_int p / of_int q"
    using lo hi q p by (intro frac_le) auto
  finally have "(2::rat) powi (bitlen p - bitlen q - 1) \<le> x" by (simp add: x)
  then show ?thesis by (simp add: binary_exponent_def pq Let_def)
qed

lemma double_round_error: "\<bar>double_round x - x\<bar> \<le> \<bar>x\<bar> / 2 ^ 53"
proof (cases "x = 0")
  case False
  define e where "e = binary_exponent \<bar>x\<bar>"
  define u :: rat where "u = 2 powi (e - 52)"
  have u: "0 < u" by (simp add: u_def)
  have e: "2 powi e \<le> \<bar>x\<bar>" using False by (simp add: e_def binary_exponent_le)
  have ue: "u = 2 powi e / 2 ^ 52" by (simp add: u_def power_int_diff)
  have "double_round x - x = (of_int (round_half_even (x / u)) - x / u) * u"
    using False u by (simp add: double_round_def u_def e_def Let_def algebra_simps)
  then have "\<bar>double_round x - x\<bar> = \<bar>of_int (round_half_even (x / u)) - x / u\<bar> * u"
    using u by (simp add: abs_mult)
  also have "\<dots> \<le> 1 / 2 * u"
    using round_half_even_error [of "x / u"] u by (intro mult_right_mono) auto
  also have "\<dots> \<le> \<bar>x\<bar> / 2 ^ 53" using e by (simp add: ue)
  finally show ?thesis .
qed (simp add: double_round_def)

lemma double_round_bound: "\<bar>x\<bar> \<le> b \<Longrightarrow> \<bar>double_round x - x\<bar> \<le> b / 2 ^ 53"
  using double_round_error [of x] by (simp add: field_simps)

section \<open>Order\<close>

lemma round_half_even_mono:
  assumes "x \<le> y"
  shows "round_half_even x \<le> round_half_even y"
proof -
  have "\<lfloor>x\<rfloor> \<le> \<lfloor>y\<rfloor>" using assms by (rule floor_mono)
  then consider "\<lfloor>x\<rfloor> = \<lfloor>y\<rfloor>" | "\<lfloor>x\<rfloor> + 1 \<le> \<lfloor>y\<rfloor>" by linarith
  then show ?thesis
    by cases (use assms in \<open>auto simp: round_half_even_def Let_def\<close>)
qed

lemma round_half_even_of_int [simp]: "round_half_even (of_int n) = n"
  by (simp add: round_half_even_def)

lemma binary_exponent_less:
  assumes "0 < x"
  shows "x < 2 powi (binary_exponent x + 1)"
proof -
  obtain p q where pq: "quotient_of x = (p, q)" by (cases "quotient_of x")
  then have x: "x = of_int p / of_int q" and q: "0 < q"
    by (simp_all add: quotient_of_div quotient_of_denom_pos)
  with assms have p: "0 < p" by (simp add: zero_less_divide_iff)
  have bq: "1 \<le> bitlen q" using q bitlen_eq_zero_iff [of q] bitlen_nonneg [of q] by linarith
  have hi: "of_int p < (2::rat) powi (bitlen p)"
    using bitlen_bounds [OF p] bitlen_nonneg [of p] by (simp add: power_int_nonneg_exp)
  have lo: "(2::rat) powi (bitlen q - 1) \<le> of_int q"
    using bitlen_bounds [OF q] bq by (simp add: power_int_nonneg_exp)
  have "of_int p / of_int q < (2::rat) powi (bitlen p) / 2 powi (bitlen q - 1)"
    using lo hi p by (intro frac_less) auto
  also have "\<dots> = 2 powi (bitlen p - bitlen q + 1)"
    by (simp flip: power_int_diff add: algebra_simps)
  finally have "x < 2 powi (bitlen p - bitlen q + 1)" by (simp add: x)
  then show ?thesis by (auto simp: binary_exponent_def pq Let_def)
qed

lemma binary_exponent_mono:
  assumes "0 < x" and "x \<le> y"
  shows "binary_exponent x \<le> binary_exponent y"
proof (rule ccontr)
  assume "\<not> ?thesis"
  then have "(2::rat) powi (binary_exponent y + 1) \<le> 2 powi (binary_exponent x)" by (intro power_int_increasing) auto
  with binary_exponent_le [OF assms(1)] binary_exponent_less [of y] assms show False by linarith
qed

text \<open>A positive float lies between the powers of two around the number it rounds.\<close>

lemma double_round_between:
  assumes "0 < x"
  shows "2 powi (binary_exponent x) \<le> double_round x" and "double_round x \<le> 2 powi (binary_exponent x + 1)"
proof -
  define u :: rat where "u = 2 powi (binary_exponent x - 52)"
  have u: "0 < u" by (simp add: u_def)
  have p: "of_int (2 ^ k) * u = 2 powi (binary_exponent x - 52 + int k)" for k
    by (simp add: u_def power_int_add)
  have d: "double_round x = of_int (round_half_even (x / u)) * u" using assms by (simp add: double_round_def u_def Let_def)
  have "of_int (2 ^ 52) \<le> x / u" using binary_exponent_le [OF assms] p [of 52] u by (simp add: field_simps)
  from round_half_even_mono [OF this] have "2 ^ 52 \<le> round_half_even (x / u)" by (simp only: round_half_even_of_int)
  then have "of_int (2 ^ 52) * u \<le> double_round x" unfolding d using u by (intro mult_right_mono) (simp_all only: of_int_le_iff less_imp_le)
  then show "2 powi (binary_exponent x) \<le> double_round x" by (simp only: p) simp
  have "x / u \<le> of_int (2 ^ 53)" using binary_exponent_less [OF assms] p [of 53] u by (simp add: field_simps)
  from round_half_even_mono [OF this] have "round_half_even (x / u) \<le> 2 ^ 53" by (simp only: round_half_even_of_int)
  then have "double_round x \<le> of_int (2 ^ 53) * u" unfolding d using u by (intro mult_right_mono) (simp_all only: of_int_le_iff less_imp_le)
  then show "double_round x \<le> 2 powi (binary_exponent x + 1)" by (simp only: p) (simp add: add.commute)
qed

lemma double_round_nonneg: "0 \<le> x \<Longrightarrow> 0 \<le> double_round x"
proof (cases "x = 0")
  case False
  assume "0 \<le> x"
  with False have "0 < x" by simp
  have "(0::rat) < 2 powi (binary_exponent x)" by simp
  also have "\<dots> \<le> double_round x" using \<open>0 < x\<close> by (rule double_round_between)
  finally show ?thesis by simp
qed (simp add: double_round_def)

lemma double_round_mono:
  assumes "0 \<le> x" and "x \<le> y"
  shows "double_round x \<le> double_round y"
proof (cases "x = 0")
  case True
  with assms show ?thesis by (simp add: double_round_def double_round_nonneg [of y, unfolded double_round_def])
next
  case False
  with assms have x: "0 < x" and y: "0 < y" by auto
  from binary_exponent_mono [OF x assms(2)]
  consider "binary_exponent x = binary_exponent y" | "binary_exponent x + 1 \<le> binary_exponent y" by linarith
  then show ?thesis
  proof cases
    case 1
    have u: "(0::rat) < 2 powi (binary_exponent y - 52)" by simp
    have "x / 2 powi (binary_exponent y - 52) \<le> y / 2 powi (binary_exponent y - 52)"
      using assms(2) u by (simp add: divide_right_mono)
    from round_half_even_mono [OF this] show ?thesis using x y u 1
      by (simp add: double_round_def Let_def mult_right_mono)
  next
    case 2
    have "double_round x \<le> 2 powi (binary_exponent x + 1)" using x by (rule double_round_between)
    also have "\<dots> \<le> 2 powi (binary_exponent y)" using 2 by (intro power_int_increasing) auto
    also have "\<dots> \<le> double_round y" using y by (rule double_round_between)
    finally show ?thesis .
  qed
qed

text \<open>Integers of at most 53 bits are floats.\<close>

lemma double_round_of_int:
  assumes "0 \<le> n" and "n < 2 ^ 53"
  shows "double_round (of_int n) = of_int n"
proof (cases "n = 0")
  case False
  with assms have n: "(0::rat) < of_int n" by simp
  define e where "e = binary_exponent (of_int n)"
  have "(2::rat) powi e \<le> of_int n" using binary_exponent_le [OF n] by (simp add: e_def)
  also have "(of_int n :: rat) < of_int (2 ^ 53)" using assms(2) by (simp only: of_int_less_iff)
  also have "(of_int (2 ^ 53) :: rat) = 2 powi 53" by simp
  finally have "e < 53" using power_int_increasing [of 53 e "2::rat"] by (cases "53 \<le> e") auto
  then have u: "(2::rat) powi (e - 52) = 1 / of_int (2 ^ nat (52 - e))"
    using power_int_minus [of "2::rat" "52 - e"] by (simp add: power_int_nonneg_exp field_simps)
  have "of_int n / (2::rat) powi (e - 52) = of_int (n * 2 ^ nat (52 - e))" by (simp add: u)
  then have "round_half_even (of_int n / 2 powi (e - 52)) = n * 2 ^ nat (52 - e)" by (simp only: round_half_even_of_int)
  then show ?thesis using n by (simp add: double_round_def Let_def flip: e_def) (simp add: u)
qed (simp add: double_round_def)

lemma py_round3_nonneg: "0 \<le> x \<Longrightarrow> 0 \<le> py_round3 x"
  using round_half_even_mono [of 0 "1000 * x"] round_half_even_of_int [of 0] by (simp add: py_round3_def double_round_nonneg)

text \<open>Adding up errors.\<close>

lemma abs_chain: "\<bar>x - y\<bar> \<le> a \<Longrightarrow> \<bar>y - z\<bar> \<le> b \<Longrightarrow> a + b \<le> c \<Longrightarrow> \<bar>x - z\<bar> \<le> (c :: rat)"
  by linarith

lemma abs_near: "\<bar>x - y\<bar> \<le> a \<Longrightarrow> \<bar>y\<bar> \<le> b \<Longrightarrow> a + b \<le> c \<Longrightarrow> \<bar>x\<bar> \<le> (c :: rat)"
  by linarith

text \<open>A computation whose error stays below half a hundredth of a whole number of tenths is put
  back on the float of that number by \<open>round(x, 2)\<close>.\<close>

lemma py_round2_tenths:
  assumes "\<bar>y - of_int n / 10\<bar> < 1 / 200"
  shows "py_round2 y = double_round (of_int n / 10)"
proof -
  have "round_half_even (100 * y) = 10 * n"
    using assms by (intro round_half_even_near) (simp add: abs_if field_simps split: if_splits)
  then show ?thesis by (simp add: py_round2_def)
qed

end
