(* ===== verification/Review_Ledger.thy ===== *)
theory Review_Ledger
  imports Review_Scorer Py_Float
begin

text \<open>
  The reward ledger (\<^verbatim>\<open>ledger/client.py\<close>): the state kept per agent, the transition a
  review report makes, persistence to the local JSON file with Supabase in front of it, and the
  status shown to the user.

  Parameters of the model: \<open>digest\<close> is the SHA-256 of the canonical JSON of a report (stored,
  never inspected); a \<open>supabase_env\<close> says how the service answers during one operation.
  Serialising a state to the local file and validating it back is the identity.
\<close>

section \<open>State\<close>

datatype ledger_verdict = LPass | LPassWithAdvisory | LFail | LUnknown | LNotApplicable

record LedgerRun =
  lr_session_id :: string
  lr_issue_number :: "int option"
  lr_agent :: string
  lr_changed_files :: "string list"
  lr_score :: int
  lr_reward_delta :: int
  lr_verdict :: ledger_verdict
  lr_findings :: "ReviewFinding list"
  lr_report :: "ReviewReport option"
  lr_report_digest :: "string option"
  lr_house_rules_ver :: int
  lr_created_at :: int

record LedgerState =
  ls_agent :: string
  ls_cumulative_coins :: rat
  ls_streak_pass :: int
  ls_streak_block :: int
  ls_last_delta :: int
  ls_last_verdict :: "ledger_verdict option"
  ls_violation_counts :: "(string \<times> int) list"
  ls_runs :: "LedgerRun list"

text \<open>\<open>LedgerState(agent=...)\<close>: every other field at its default.\<close>

definition fresh_state :: "string \<Rightarrow> LedgerState" where
  "fresh_state agent =
     \<lparr>ls_agent = agent, ls_cumulative_coins = 0, ls_streak_pass = 0, ls_streak_block = 0,
      ls_last_delta = 0, ls_last_verdict = None, ls_violation_counts = [], ls_runs = []\<rparr>"

section \<open>Recording a report\<close>

fun ledger_verdict_of_status :: "assurance_status \<Rightarrow> ledger_verdict" where
  "ledger_verdict_of_status StPass = LPass"
| "ledger_verdict_of_status StFail = LFail"
| "ledger_verdict_of_status StUnknown = LUnknown"
| "ledger_verdict_of_status StNotApplicable = LNotApplicable"

fun ledger_verdict_of_verdict :: "verdict \<Rightarrow> ledger_verdict" where
  "ledger_verdict_of_verdict VPass = LPass"
| "ledger_verdict_of_verdict VPassWithAdvisory = LPassWithAdvisory"
| "ledger_verdict_of_verdict VFail = LFail"

definition verdict_for :: "ReviewReport \<Rightarrow> ledger_verdict" where
  "verdict_for r =
     (if schema_version_at_least (rr_schema_version r) 6
        then (case rr_assurance_status r of None \<Rightarrow> LUnknown | Some st \<Rightarrow> ledger_verdict_of_status st)
      else (case rr_overall_verdict r of
              None \<Rightarrow> LPassWithAdvisory | Some v \<Rightarrow> ledger_verdict_of_verdict v))"

definition reward_or_zero :: "ReviewReport \<Rightarrow> int" where
  "reward_or_zero r = (case rr_reward_delta r of None \<Rightarrow> 0 | Some d \<Rightarrow> d)"

definition reward_delta_for :: "ReviewReport \<Rightarrow> int" where
  "reward_delta_for r =
     (if schema_version_at_least (rr_schema_version r) 6
        then (if rr_assurance_status r \<in> {Some StPass, Some StFail} then reward_or_zero r else 0)
      else reward_or_zero r)"

definition changed_files_for :: "ReviewReport \<Rightarrow> string list" where
  "changed_files_for r = sorted_list_of_set (set (filter (\<lambda>f. f \<noteq> []) (map rf_file (rr_findings r))))"

text \<open>\<open>Counter\<close>: counting an iterable, and adding one counter to another.\<close>

definition rule_counts :: "ReviewFinding list \<Rightarrow> (string \<times> int) list" where
  "rule_counts fs = foldl count_in [] (map rf_rule fs)"

definition counter_update :: "(string \<times> int) list \<Rightarrow> (string \<times> int) list \<Rightarrow> (string \<times> int) list" where
  "counter_update c d = foldl (\<lambda>acc (k, n). AList.update k (n + count_or_zero acc k) acc) c d"

definition next_pass_streak :: "LedgerState \<Rightarrow> ledger_verdict \<Rightarrow> int" where
  "next_pass_streak s v =
     (if v \<in> {LUnknown, LNotApplicable} then ls_streak_pass s
      else if v \<noteq> LFail then ls_streak_pass s + 1 else 0)"

definition next_block_streak :: "LedgerState \<Rightarrow> ledger_verdict \<Rightarrow> int" where
  "next_block_streak s v =
     (if v \<in> {LUnknown, LNotApplicable} then ls_streak_block s
      else if v = LFail then ls_streak_block s + 1 else 0)"

definition coin_delta :: "ledger_verdict \<Rightarrow> int \<Rightarrow> int \<Rightarrow> int \<Rightarrow> rat" where
  "coin_delta v reward pass_streak block_streak =
     (let d0 = double_round (of_int reward / 10);
          d1 = (if v \<notin> {LFail, LUnknown, LNotApplicable} \<and> pass_streak \<ge> 5
                then double_round (d0 + 1 / 2) else d0)
      in if v = LFail \<and> block_streak \<ge> 3 then double_round (d1 - 1) else d1)"

definition run_entry_for :: "string \<Rightarrow> (ReviewReport \<Rightarrow> string) \<Rightarrow> ReviewReport \<Rightarrow> LedgerRun" where
  "run_entry_for agent digest r =
     \<lparr>lr_session_id = rr_run_id r, lr_issue_number = None, lr_agent = agent, lr_changed_files = changed_files_for r,
      lr_score = rr_score r, lr_reward_delta = reward_delta_for r, lr_verdict = verdict_for r,
      lr_findings = rr_findings r, lr_report = Some r, lr_report_digest = Some (digest r),
      lr_house_rules_ver = 1, lr_created_at = rr_timestamp r\<rparr>"

definition apply_report ::
  "string \<Rightarrow> (ReviewReport \<Rightarrow> string) \<Rightarrow> LedgerState \<Rightarrow> ReviewReport \<Rightarrow> LedgerState \<times> LedgerRun" where
  "apply_report agent digest s r =
     (let run = run_entry_for agent digest r;
          v = lr_verdict run;
          pass_streak = next_pass_streak s v;
          block_streak = next_block_streak s v;
          delta = coin_delta v (lr_reward_delta run) pass_streak block_streak
      in (\<lparr>ls_agent = agent,
           ls_cumulative_coins = py_round2 (double_round (ls_cumulative_coins s + delta)),
           ls_streak_pass = pass_streak,
           ls_streak_block = block_streak,
           ls_last_delta = lr_reward_delta run,
           ls_last_verdict = Some v,
           ls_violation_counts = counter_update (ls_violation_counts s) (rule_counts (rr_findings r)),
           ls_runs = ls_runs s @ [run]\<rparr>,
          run))"

section \<open>Persistence\<close>

datatype local_file = Absent | Unreadable | Stored LedgerState

text \<open>What the service answers to the state query: a failed request, a payload without a usable
  first row, a row whose conversion raises, or the decoded row.\<close>

datatype supabase_read =
    SbRequestError
  | SbNoRow
  | SbBadRow
  | SbRow string rat int int int "ledger_verdict option"

record supabase_env =
  sb_enabled :: bool
  sb_read :: supabase_read
  sb_post_run_ok :: bool
  sb_post_row_ok :: bool

record ledger_world =
  lw_local :: local_file
  lw_posted_runs :: "LedgerRun list"
  lw_posted_rows :: "LedgerState list"

record LedgerClient =
  lc_agent :: string
  lc_digest :: "ReviewReport \<Rightarrow> string"

definition read_local_state :: "LedgerClient \<Rightarrow> ledger_world \<Rightarrow> LedgerState" where
  "read_local_state c w =
     (case lw_local w of Absent \<Rightarrow> fresh_state (lc_agent c) | Unreadable \<Rightarrow> fresh_state (lc_agent c)
      | Stored s \<Rightarrow> s)"

definition write_local_state :: "LedgerState \<Rightarrow> ledger_world \<Rightarrow> ledger_world" where
  "write_local_state s w = w\<lparr>lw_local := Stored s\<rparr>"

definition read_supabase_state :: "LedgerClient \<Rightarrow> supabase_env \<Rightarrow> LedgerState option" where
  "read_supabase_state c env =
     (if \<not> sb_enabled env then None
      else (case sb_read env of
              SbRequestError \<Rightarrow> None
            | SbNoRow \<Rightarrow> Some (fresh_state (lc_agent c))
            | SbBadRow \<Rightarrow> Some (fresh_state (lc_agent c))
            | SbRow agent coins pass block delta verdict \<Rightarrow>
                (if pass < 0 \<or> block < 0 then Some (fresh_state (lc_agent c))
                 else Some \<lparr>ls_agent = agent, ls_cumulative_coins = coins, ls_streak_pass = pass,
                            ls_streak_block = block, ls_last_delta = delta, ls_last_verdict = verdict,
                            ls_violation_counts = [], ls_runs = []\<rparr>)))"

definition write_supabase ::
  "supabase_env \<Rightarrow> LedgerRun \<Rightarrow> LedgerState \<Rightarrow> ledger_world \<Rightarrow> bool \<times> ledger_world" where
  "write_supabase env run s w =
     (if \<not> sb_post_run_ok env then (False, w)
      else (let w1 = w\<lparr>lw_posted_runs := lw_posted_runs w @ [run]\<rparr>
            in if \<not> sb_post_row_ok env then (False, w1)
               else (True, w1\<lparr>lw_posted_rows := lw_posted_rows w1 @ [s]\<rparr>)))"

record LedgerStatus =
  lt_coins :: rat
  lt_streak_pass :: int
  lt_streak_block :: int
  lt_last_verdict :: ledger_verdict
  lt_top_violations :: "(string \<times> int) list"

definition status_payload :: "LedgerState \<Rightarrow> LedgerStatus" where
  "status_payload s =
     \<lparr>lt_coins = py_round2 (ls_cumulative_coins s), lt_streak_pass = ls_streak_pass s,
      lt_streak_block = ls_streak_block s,
      lt_last_verdict = (case ls_last_verdict s of None \<Rightarrow> LUnknown | Some v \<Rightarrow> v),
      lt_top_violations = take 3 (sort_key (\<lambda>(k, n). (- n, k)) (ls_violation_counts s))\<rparr>"

definition record_run ::
  "LedgerClient \<Rightarrow> supabase_env \<Rightarrow> ledger_world \<Rightarrow> ReviewReport \<Rightarrow> LedgerStatus \<times> ledger_world" where
  "record_run c env w r =
     (let current = (case read_supabase_state c env of
                       None \<Rightarrow> read_local_state c w | Some s \<Rightarrow> s);
          (updated, run) = apply_report (lc_agent c) (lc_digest c) current r
      in if sb_enabled env
         then (case write_supabase env run updated w of
                 (True, w1) \<Rightarrow> (status_payload updated, w1)
               | (False, w1) \<Rightarrow> (status_payload updated, write_local_state updated w1))
         else (status_payload updated, write_local_state updated w))"

definition get_status :: "LedgerClient \<Rightarrow> supabase_env \<Rightarrow> ledger_world \<Rightarrow> LedgerStatus" where
  "get_status c env w =
     status_payload (case read_supabase_state c env of None \<Rightarrow> read_local_state c w | Some s \<Rightarrow> s)"

text \<open>The run list of the service: a failed request or a payload that is not a list is \<open>None\<close>; the
  entries come newest first, and one that does not validate (\<open>None\<close>) discards the answer.\<close>

fun valid_runs :: "LedgerRun option list \<Rightarrow> LedgerRun list option" where
  "valid_runs [] = Some []"
| "valid_runs (e # es) =
     (case e of None \<Rightarrow> None | Some run \<Rightarrow> map_option (\<lambda>runs. run # runs) (valid_runs es))"

definition read_supabase_runs :: "LedgerRun option list option \<Rightarrow> LedgerRun list option" where
  "read_supabase_runs payload = (case payload of None \<Rightarrow> None | Some es \<Rightarrow> valid_runs (rev es))"

text \<open>\<open>runs[-limit:]\<close>: the whole list for 0, and the list without its first elements for a negative limit.\<close>

definition last_slice :: "int \<Rightarrow> 'a list \<Rightarrow> 'a list" where
  "last_slice limit xs = (if limit > 0 then drop (length xs - nat limit) xs else drop (nat (- limit)) xs)"

definition get_recent_runs ::
  "LedgerClient \<Rightarrow> supabase_env \<Rightarrow> LedgerRun option list option \<Rightarrow> ledger_world \<Rightarrow> int \<Rightarrow> LedgerRun list" where
  "get_recent_runs c env payload w limit =
     (case (if sb_enabled env then read_supabase_runs payload else None) of
        Some runs \<Rightarrow> runs
      | None \<Rightarrow> last_slice limit (ls_runs (read_local_state c w)))"

definition reset_local :: "ledger_world \<Rightarrow> bool \<times> ledger_world" where
  "reset_local w = (True, w\<lparr>lw_local := Absent\<rparr>)"

section \<open>The local store as an interface\<close>

text \<open>A store from which the state last written is read back: folding a transition over a sequence of
  inputs through the store is folding it over the state.\<close>

locale state_store =
  fixes rd :: "'w \<Rightarrow> 's" and wr :: "'s \<Rightarrow> 'w \<Rightarrow> 'w"
  assumes read_write: "rd (wr s w) = s"
begin

lemma read_fold: "rd (foldl (\<lambda>w x. wr (f (rd w) x) w) w xs) = foldl f (rd w) xs"
  by (induction xs arbitrary: w) (simp_all add: read_write)

end

interpretation local_store: state_store "read_local_state c" write_local_state
  by unfold_locales (simp add: read_local_state_def write_local_state_def)

section \<open>Runs of the transition\<close>

definition apply_reports ::
  "string \<Rightarrow> (ReviewReport \<Rightarrow> string) \<Rightarrow> LedgerState \<Rightarrow> ReviewReport list \<Rightarrow> LedgerState" where
  "apply_reports agent digest s rs = foldl (\<lambda>s r. fst (apply_report agent digest s r)) s rs"

lemma apply_reports_Nil [simp]: "apply_reports a d s [] = s"
  by (simp add: apply_reports_def)

lemma apply_reports_snoc [simp]:
  "apply_reports a d s (rs @ [r]) = fst (apply_report a d (apply_reports a d s rs) r)"
  by (simp add: apply_reports_def)

text \<open>The verdicts that move the streaks, and the length of the run of them at the end that satisfy \<open>p\<close>.\<close>

definition decisive_verdicts :: "ReviewReport list \<Rightarrow> ledger_verdict list" where
  "decisive_verdicts rs = filter (\<lambda>v. v \<notin> {LUnknown, LNotApplicable}) (map verdict_for rs)"

definition trailing_run :: "('a \<Rightarrow> bool) \<Rightarrow> 'a list \<Rightarrow> nat" where
  "trailing_run p xs = length (takeWhile p (rev xs))"

lemma apply_report_fields:
  "ls_agent (fst (apply_report a d s r)) = a"
  "ls_streak_pass (fst (apply_report a d s r)) = next_pass_streak s (verdict_for r)"
  "ls_streak_block (fst (apply_report a d s r)) = next_block_streak s (verdict_for r)"
  "ls_last_delta (fst (apply_report a d s r)) = reward_delta_for r"
  "ls_last_verdict (fst (apply_report a d s r)) = Some (verdict_for r)"
  "ls_violation_counts (fst (apply_report a d s r)) =
     counter_update (ls_violation_counts s) (rule_counts (rr_findings r))"
  "ls_runs (fst (apply_report a d s r)) = ls_runs s @ [run_entry_for a d r]"
  "ls_cumulative_coins (fst (apply_report a d s r)) = py_round2 (double_round (ls_cumulative_coins s
     + coin_delta (verdict_for r) (reward_delta_for r)
         (next_pass_streak s (verdict_for r)) (next_block_streak s (verdict_for r))))"
  "snd (apply_report a d s r) = run_entry_for a d r"
  by (simp_all add: apply_report_def run_entry_for_def Let_def)

lemma count_in_value [simp]: "count_or_zero (count_in d k') k = count_or_zero d k + of_bool (k = k')"
  by (simp add: count_in_def count_or_zero_def update_conv')

lemma counting_value:
  "count_or_zero (foldl count_in d ks) k = count_or_zero d k + int (count_list ks k)"
  by (induction ks arbitrary: d) auto

lemma counting_distinct: "distinct (map fst d) \<Longrightarrow> distinct (map fst (foldl count_in d ks))"
  by (induction ks arbitrary: d) (auto simp: count_in_def distinct_update)

lemma counter_update_value:
  "distinct (map fst d) \<Longrightarrow>
     count_or_zero (counter_update c d) k = count_or_zero c k + count_or_zero d k"
  unfolding counter_update_def
proof (induction d arbitrary: c)
  case (Cons p d)
  obtain k' n where p: "p = (k', n)" by (cases p)
  have "k' \<notin> fst ` set d" using Cons.prems by (simp add: p)
  then have "map_of d k' = None" by (simp add: map_of_eq_None_iff)
  with Cons show ?case by (auto simp: p count_or_zero_def update_conv')
qed (simp add: count_or_zero_def)

lemma rule_counts_value:
  "count_or_zero (counter_update c (rule_counts fs)) k
     = count_or_zero c k + int (count_list (map rf_rule fs) k)"
  unfolding rule_counts_def
  by (subst counter_update_value) (simp_all add: counting_distinct counting_value count_or_zero_def [of "[]"])

lemma trailing_run_snoc: "trailing_run p (xs @ [x]) = (if p x then Suc (trailing_run p xs) else 0)"
  by (simp add: trailing_run_def)

text \<open>A state read from the service has no history.\<close>

lemma read_supabase_history:
  assumes "sb_enabled env" and "sb_read env \<noteq> SbRequestError"
  shows "\<exists>s. read_supabase_state c env = Some s \<and> ls_runs s = [] \<and> ls_violation_counts s = []"
  using assms by (cases "sb_read env") (auto simp: read_supabase_state_def fresh_state_def)

section \<open>Coins in tenths\<close>

text \<open>The abstract coin account: whole tenths of a coin with the two streaks. A run earns its reward,
  5 tenths more from the fifth passing run on, 10 tenths less from the third failing run on.\<close>

definition streak_tenths :: "ledger_verdict \<Rightarrow> int \<Rightarrow> int \<Rightarrow> int" where
  "streak_tenths v pass_streak block_streak =
     (if v \<in> {LPass, LPassWithAdvisory} \<and> pass_streak \<ge> 5 then 5 else 0)
     - (if v = LFail \<and> block_streak \<ge> 3 then 10 else 0)"

definition tenths_step :: "int \<times> LedgerState \<Rightarrow> ReviewReport \<Rightarrow> int" where
  "tenths_step ts r =
     (let v = verdict_for r; s = snd ts
      in fst ts + reward_delta_for r + streak_tenths v (next_pass_streak s v) (next_block_streak s v))"

fun coin_tenths :: "string \<Rightarrow> (ReviewReport \<Rightarrow> string) \<Rightarrow> int \<times> LedgerState \<Rightarrow> ReviewReport list \<Rightarrow> int" where
  "coin_tenths a d ts [] = fst ts"
| "coin_tenths a d ts (r # rs) = coin_tenths a d (tenths_step ts r, fst (apply_report a d (snd ts) r)) rs"

lemma streak_tenths_bound: "\<bar>streak_tenths v p b\<bar> \<le> 10"
  by (simp add: streak_tenths_def)

lemma coin_delta_error:
  assumes "\<bar>reward\<bar> \<le> 1000"
  shows "\<bar>coin_delta v reward p b - of_int (reward + streak_tenths v p b) / 10\<bar> \<le> 1 / 10 ^ 6"
proof -
  define q :: rat where "q = of_int reward / 10"
  have q: "\<bar>q\<bar> \<le> 100" using assms by (simp add: q_def)
  define e where "e = double_round q"
  have e: "\<bar>e - q\<bar> \<le> 1 / 10 ^ 8"
    unfolding e_def by (rule order_trans [OF double_round_bound [OF q]]) simp
  then have be: "\<bar>e\<bar> \<le> 101" using q by (rule abs_near) simp
  have "\<bar>e + 1 / 2\<bar> \<le> 102" "\<bar>e - 1\<bar> \<le> 102" using be by linarith+
  note this [THEN double_round_bound]
  then have u: "\<bar>double_round (e + 1 / 2) - (e + 1 / 2)\<bar> \<le> 1 / 10 ^ 8"
    and w: "\<bar>double_round (e - 1) - (e - 1)\<bar> \<le> 1 / 10 ^ 8"
    by (auto elim!: order_trans)
  have "coin_delta v reward p b = (if v \<in> {LPass, LPassWithAdvisory} \<and> p \<ge> 5 then double_round (e + 1 / 2)
      else if v = LFail \<and> b \<ge> 3 then double_round (e - 1) else e)"
    by (cases v) (auto simp: coin_delta_def Let_def e_def q_def)
  moreover have "of_int (reward + streak_tenths v p b) / 10 = (if v \<in> {LPass, LPassWithAdvisory} \<and> p \<ge> 5 then q + 1 / 2
      else if v = LFail \<and> b \<ge> 3 then q - 1 else q)"
    by (cases v) (auto simp: streak_tenths_def q_def add_divide_distrib diff_divide_distrib)
  moreover have "\<bar>double_round (e + 1 / 2) - (q + 1 / 2)\<bar> \<le> 1 / 10 ^ 6"
    by (rule abs_chain [OF u, of _ "1 / 10 ^ 8"]) (use e in simp_all)
  moreover have "\<bar>double_round (e - 1) - (q - 1)\<bar> \<le> 1 / 10 ^ 6"
    by (rule abs_chain [OF w, of _ "1 / 10 ^ 8"]) (use e in simp_all)
  moreover have "\<bar>e - q\<bar> \<le> 1 / 10 ^ 6" using e by (rule order_trans) simp
  ultimately show ?thesis by (simp only: split: if_split) blast
qed

lemma tenths_step_bound: "\<bar>reward_delta_for r\<bar> \<le> 1000 \<Longrightarrow> \<bar>tenths_step (t, s) r\<bar> \<le> \<bar>t\<bar> + 1010"
  using streak_tenths_bound [of "verdict_for r" "next_pass_streak s (verdict_for r)" "next_block_streak s (verdict_for r)"]
  by (simp add: tenths_step_def Let_def)

lemma coins_step:
  assumes "ls_cumulative_coins s = double_round (of_int t / 10)"
    and "\<bar>t\<bar> \<le> 10 ^ 10" and "\<bar>reward_delta_for r\<bar> \<le> 1000"
  shows "ls_cumulative_coins (fst (apply_report a d s r)) = double_round (of_int (tenths_step (t, s) r) / 10)"
proof -
  let ?v = "verdict_for r"
  define cd where
    "cd = coin_delta ?v (reward_delta_for r) (next_pass_streak s ?v) (next_block_streak s ?v)"
  define m where "m = reward_delta_for r + streak_tenths ?v (next_pass_streak s ?v) (next_block_streak s ?v)"
  define q :: rat where "q = of_int t / 10"
  have cd: "\<bar>cd - of_int m / 10\<bar> \<le> 1 / 10 ^ 6"
    unfolding cd_def m_def by (rule coin_delta_error [OF assms(3)])
  have "\<bar>m\<bar> \<le> 1010"
    using assms(3) streak_tenths_bound [of ?v "next_pass_streak s ?v" "next_block_streak s ?v"] by (simp add: m_def)
  then have m: "\<bar>of_int m / 10 :: rat\<bar> \<le> 101" by simp
  have q: "\<bar>q\<bar> \<le> 10 ^ 9" using assms(2) by (simp add: q_def)
  have t: "\<bar>double_round q - q\<bar> \<le> 1 / 10 ^ 6"
    by (rule order_trans [OF double_round_bound [OF q]]) simp
  let ?c = "double_round q + cd"
  have dq: "\<bar>double_round q\<bar> \<le> 1000000001" using t q by (rule abs_near) simp
  have "\<bar>cd\<bar> \<le> 102" using cd m by (rule abs_near) simp
  then have "\<bar>?c - double_round q\<bar> \<le> 102" by simp
  then have "\<bar>?c\<bar> \<le> 2 * 10 ^ 9" using dq by (rule abs_near) simp
  from double_round_bound [OF this] have c: "\<bar>double_round ?c - ?c\<bar> \<le> 1 / 10 ^ 6"
    by (rule order_trans) simp
  have eq: "of_int (tenths_step (t, s) r) / 10 = q + of_int m / 10"
    by (simp add: q_def m_def tenths_step_def Let_def add_divide_distrib)
  have "\<bar>?c - (q + of_int m / 10)\<bar> \<le> 1 / 10 ^ 6 + 1 / 10 ^ 6" using t cd by linarith
  from abs_chain [OF c this order_refl]
  have "\<bar>double_round ?c - of_int (tenths_step (t, s) r) / 10\<bar> < 1 / 200"
    unfolding eq by (rule order_le_less_trans) simp
  then have "py_round2 (double_round ?c) = double_round (of_int (tenths_step (t, s) r) / 10)"
    by (rule py_round2_tenths)
  then show ?thesis by (simp add: apply_report_fields assms(1) cd_def q_def)
qed

lemma coins_exact:
  assumes "ls_cumulative_coins s = double_round (of_int t / 10)"
    and "\<forall>r \<in> set rs. \<bar>reward_delta_for r\<bar> \<le> 1000"
    and "\<bar>t\<bar> + 1010 * int (length rs) \<le> 10 ^ 10"
  shows "ls_cumulative_coins (apply_reports a d s rs) = double_round (of_int (coin_tenths a d (t, s) rs) / 10)"
  using assms
proof (induction rs arbitrary: s t)
  case (Cons r rs)
  let ?s = "fst (apply_report a d s r)" and ?t = "tenths_step (t, s) r"
  have r: "\<bar>reward_delta_for r\<bar> \<le> 1000" using Cons.prems(2) by simp
  have "\<bar>t\<bar> \<le> 10 ^ 10" using Cons.prems(3) by simp
  from coins_step [OF Cons.prems(1) this r]
  have "ls_cumulative_coins ?s = double_round (of_int ?t / 10)" .
  moreover have "\<forall>r \<in> set rs. \<bar>reward_delta_for r\<bar> \<le> 1000" using Cons.prems(2) by simp
  moreover have "\<bar>?t\<bar> + 1010 * int (length rs) \<le> 10 ^ 10"
    using tenths_step_bound [OF r, of t s] Cons.prems(3) by simp
  ultimately have "ls_cumulative_coins (apply_reports a d ?s rs) = double_round (of_int (coin_tenths a d (?t, ?s) rs) / 10)"
    by (rule Cons.IH)
  then show ?case by (simp add: apply_reports_def)
qed simp

section \<open>Properties\<close>

text \<open>The ledger's bookkeeping is a function of the recorded reports. After any sequence of reports
  from a fresh state, the pass streak is the number of passing runs since the last failing one and the
  block streak the number of failing runs since the last passing one, both ignoring UNKNOWN and
  NOT_APPLICABLE runs; the stored runs are the entries of the reports in order; and the count of a rule
  is the number of findings with that rule over all reports.\<close>

theorem ledger_bookkeeping:
  fixes rs a d
  defines "s \<equiv> apply_reports a d (fresh_state a) rs"
  shows "ls_streak_pass s = int (trailing_run (\<lambda>v. v \<noteq> LFail) (decisive_verdicts rs))
    \<and> ls_streak_block s = int (trailing_run (\<lambda>v. v = LFail) (decisive_verdicts rs))
    \<and> ls_runs s = map (run_entry_for a d) rs
    \<and> count_or_zero (ls_violation_counts s) rule
        = int (count_list (concat (map (\<lambda>r. map rf_rule (rr_findings r)) rs)) rule)"
  unfolding s_def
proof (induction rs rule: rev_induct)
  case Nil
  show ?case by (simp add: fresh_state_def decisive_verdicts_def trailing_run_def count_or_zero_def)
next
  case (snoc r rs)
  then show ?case
    by (cases "verdict_for r") (auto simp: apply_report_fields next_pass_streak_def next_block_streak_def
      decisive_verdicts_def trailing_run_snoc rule_counts_value count_list_append)
qed

text \<open>C31: Coins do not drift. As long as rewards stay within 1000 points and at most nine million runs are
  recorded, the floating-point balance after every run is the float nearest to the exact number of
  tenths (rewards plus streak bonuses minus block penalties): the rounding to two decimals absorbs all
  accumulated error.\<close>

theorem coins_do_not_drift:
  assumes "\<forall>r \<in> set rs. \<bar>reward_delta_for r\<bar> \<le> 1000" and "length rs \<le> 9000000"
  shows "ls_cumulative_coins (apply_reports a d (fresh_state a) rs)
    = double_round (of_int (coin_tenths a d (0, fresh_state a) rs) / 10)"
proof (rule coins_exact [OF _ assms(1)])
  show "ls_cumulative_coins (fresh_state a) = double_round (of_int 0 / 10)"
    by (simp add: fresh_state_def double_round_def)
  show "\<bar>0\<bar> + 1010 * int (length rs) \<le> 10 ^ 10" using assms(2) by simp
qed

theorem coins_do_not_drift_witness:
  "ls_cumulative_coins (apply_reports ''a'' (\<lambda>_. ''d'') (fresh_state ''a'')
      (replicate 5 (sample_report\<lparr>rr_reward_delta := Some 3\<rparr>)))
   = double_round (of_int (coin_tenths ''a'' (\<lambda>_. ''d'') (0, fresh_state ''a'')
      (replicate 5 (sample_report\<lparr>rr_reward_delta := Some 3\<rparr>))) / 10)
   \<and> coin_tenths ''a'' (\<lambda>_. ''d'') (0, fresh_state ''a'') (replicate 5 (sample_report\<lparr>rr_reward_delta := Some 3\<rparr>)) = 20"
proof
  let ?rs = "replicate 5 (sample_report\<lparr>rr_reward_delta := Some 3\<rparr>)"
  have r: "reward_delta_for (sample_report\<lparr>rr_reward_delta := Some 3\<rparr>) = 3" by code_simp
  have "\<forall>r \<in> set ?rs. \<bar>reward_delta_for r\<bar> \<le> 1000" using r by simp
  then show "ls_cumulative_coins (apply_reports ''a'' (\<lambda>_. ''d'') (fresh_state ''a'') ?rs)
      = double_round (of_int (coin_tenths ''a'' (\<lambda>_. ''d'') (0, fresh_state ''a'') ?rs) / 10)"
    by (rule coins_do_not_drift) simp
  show "coin_tenths ''a'' (\<lambda>_. ''d'') (0, fresh_state ''a'') ?rs = 20" by code_simp
qed


text \<open>C39: A failed Supabase write loses the local history. When the service answers the state query but a
  write is refused, the state saved to the local file holds this one run and the rule counts of this one
  report, whatever runs and counts the file held before.\<close>

theorem failed_write_drops_local_history:
  assumes "sb_enabled env" and "sb_read env \<noteq> SbRequestError"
    and "\<not> (sb_post_run_ok env \<and> sb_post_row_ok env)"
  shows "\<exists>s. lw_local (snd (record_run c env w r)) = Stored s
    \<and> ls_runs s = [run_entry_for (lc_agent c) (lc_digest c) r]
    \<and> ls_violation_counts s = counter_update [] (rule_counts (rr_findings r))"
proof -
  obtain s where s: "read_supabase_state c env = Some s" "ls_runs s = []" "ls_violation_counts s = []"
    using read_supabase_history [OF assms(1,2)] by blast
  have "lw_local (snd (record_run c env w r)) = Stored (fst (apply_report (lc_agent c) (lc_digest c) s r))"
    using assms(1,3) s(1)
    by (auto simp: record_run_def write_supabase_def write_local_state_def Let_def split: prod.splits bool.splits)
  then show ?thesis by (simp add: apply_report_fields s)
qed

theorem failed_write_drops_local_history_witness:
  "\<exists>s. lw_local (snd (record_run \<lparr>lc_agent = ''a'', lc_digest = \<lambda>_. ''d''\<rparr>
        \<lparr>sb_enabled = True, sb_read = SbNoRow, sb_post_run_ok = False, sb_post_row_ok = False\<rparr>
        \<lparr>lw_local = Stored (apply_reports ''a'' (\<lambda>_. ''d'') (fresh_state ''a'') [sample_report, sample_report]),
         lw_posted_runs = [], lw_posted_rows = []\<rparr> sample_report)) = Stored s
     \<and> length (ls_runs s) = 1"
proof -
  let ?env = "\<lparr>sb_enabled = True, sb_read = SbNoRow, sb_post_run_ok = False, sb_post_row_ok = False\<rparr>"
  have "sb_enabled ?env" "sb_read ?env \<noteq> SbRequestError" "\<not> (sb_post_run_ok ?env \<and> sb_post_row_ok ?env)"
    by simp_all
  from failed_write_drops_local_history [OF this] show ?thesis
    by (metis length_Cons list.size(3) One_nat_def)
qed

end
