(* ===== verification/Review_Assurance.thy ===== *)
theory Review_Assurance
  imports Review_Report
begin

text \<open>
  The consumer side of the assurance contract (the end of \<^verbatim>\<open>run/findings.py\<close>): validation of the
  closed consumer matrix against the packaged suppression catalog, and the properties of findings,
  assurance reports and the conservative report reader.

  Parameter of the model: \<open>packaged\<close> is the digest of the packaged suppression catalog, \<open>None\<close>
  when the resource cannot be read.
\<close>

section \<open>Consumer matrix\<close>

record ConsumerMatrixValidation =
  cm_pass :: bool
  cm_reason :: string
  cm_exercised_statuses :: "string list"

definition unknown_matrix :: "string \<Rightarrow> ConsumerMatrixValidation" where
  "unknown_matrix reason = \<lparr>cm_pass = False, cm_reason = reason, cm_exercised_statuses = []\<rparr>"

definition identity_bindings :: "string list" where
  "identity_bindings = [''checkpoint'', ''resource'', ''package'', ''profile'', ''report'', ''static_envelope'']"

definition validate_matrix_catalog_identity :: "pydict \<Rightarrow> string \<Rightarrow> string option" where
  "validate_matrix_catalog_identity matrix digest =
     (case dget matrix ''accepted_pr_range_envelope'' of
        PDict envelope \<Rightarrow>
          (if dget envelope ''suppression_catalog_digest'' \<noteq> PStr digest
             then Some ''suppression_catalog_identity_mismatch''
           else (case dget matrix ''suppression_catalog_identity_bindings'' of
                   PDict bindings \<Rightarrow>
                     (if set (map fst bindings) \<noteq> set (map PStr identity_bindings)
                        then Some ''consumer_matrix_identity_bindings_invalid''
                      else if \<exists>name \<in> set identity_bindings. dget bindings name \<noteq> PStr digest
                        then Some ''suppression_catalog_identity_mismatch''
                      else None)
                 | _ \<Rightarrow> Some ''consumer_matrix_identity_bindings_invalid''))
      | _ \<Rightarrow> Some ''suppression_catalog_identity_mismatch'')"

text \<open>Python's \<open>v == n\<close> for an integer \<open>n\<close>: booleans and integral floats compare as numbers.\<close>

fun py_eq_int :: "pyval \<Rightarrow> int \<Rightarrow> bool" where
  "py_eq_int (PInt i) n = (i = n)"
| "py_eq_int (PBool b) n = (n = (if b then 1 else 0))"
| "py_eq_int (PFloat r) n = (r = show_int n @ ''.0'' \<or> (n = 0 \<and> r = ''-0.0''))"
| "py_eq_int _ n = False"

fun verdict_text :: "verdict \<Rightarrow> string" where
  "verdict_text VPass = ''PASS''"
| "verdict_text VPassWithAdvisory = ''PASS_WITH_ADVISORY''"
| "verdict_text VFail = ''FAIL''"

definition validated_matrix_status :: "pyval \<Rightarrow> string \<Rightarrow> string + string" where
  "validated_matrix_status report digest =
     (case report of
        PDict d \<Rightarrow>
          (case dget d ''assurance_status'' of
             PStr status \<Rightarrow>
               (case project_assurance_status status ''full'' of
                  Inl e \<Rightarrow> Inl ''consumer_matrix_status_reports_invalid''
                | Inr proj \<Rightarrow>
                    (if dget d ''overall_verdict'' = PStr (verdict_text (ap_overall_verdict proj))
                        \<and> py_eq_int (dget d ''ci_exit_code'') (ap_ci_exit_code proj)
                        \<and> dget d ''suppression_catalog_digest'' = PStr digest
                     then Inr status
                     else Inl ''consumer_matrix_status_projection_mismatch''))
           | _ \<Rightarrow> Inl ''consumer_matrix_status_reports_invalid'')
      | _ \<Rightarrow> Inl ''consumer_matrix_status_reports_invalid'')"

fun collect_statuses :: "pyval list \<Rightarrow> string \<Rightarrow> string + string list" where
  "collect_statuses [] digest = Inr []"
| "collect_statuses (r # rs) digest =
     (case validated_matrix_status r digest of
        Inl reason \<Rightarrow> Inl reason
      | Inr status \<Rightarrow> map_sum id (\<lambda>ss. status # ss) (collect_statuses rs digest))"

definition all_statuses :: "string list" where
  "all_statuses = [''PASS'', ''FAIL'', ''UNKNOWN'', ''NOT_APPLICABLE'']"

definition validated_matrix_statuses :: "pydict \<Rightarrow> string \<Rightarrow> string + string list" where
  "validated_matrix_statuses matrix digest =
     (case dget matrix ''canonical_status_reports'' of
        PList reports \<Rightarrow>
          (case collect_statuses reports digest of
             Inl reason \<Rightarrow> Inl reason
           | Inr ss \<Rightarrow> (if set ss \<noteq> set all_statuses then Inl ''consumer_matrix_status_set_invalid''
                        else Inr (sorted_list_of_set (set ss))))
      | _ \<Rightarrow> Inl ''consumer_matrix_status_reports_invalid'')"

text \<open>\<open>_matrix_case_values(matrix, key, value_key) == names\<close>: building the set raises \<open>TypeError\<close> on an
  unhashable value.\<close>

definition matrix_case_values :: "pydict \<Rightarrow> string \<Rightarrow> string \<Rightarrow> py_error + pyval list option" where
  "matrix_case_values matrix key value_key =
     (case dget matrix key of
        PList cases \<Rightarrow>
          (let vals = [dget d value_key. PDict d \<leftarrow> cases]
           in if \<exists>v \<in> set vals. is_plist v \<or> is_pdict v then Inl TypeError else Inr (Some vals))
      | _ \<Rightarrow> Inr None)"

definition case_values_are :: "pydict \<Rightarrow> string \<Rightarrow> string \<Rightarrow> string list \<Rightarrow> py_error + bool" where
  "case_values_are matrix key value_key names =
     map_sum id (\<lambda>vals. case vals of None \<Rightarrow> False | Some vs \<Rightarrow> set vs = set (map PStr names))
       (matrix_case_values matrix key value_key)"

definition boundary_dimensions :: "string list" where
  "boundary_dimensions = [''accepted'', ''analyzer_profile'', ''merge_base'', ''producer_identity'',
     ''project_runtime'', ''schema'', ''suppression_catalog'']"

text \<open>The three case sets, checked in order; the first that differs gives the reason.\<close>

fun first_bad_cases ::
  "pydict \<Rightarrow> (string \<times> string \<times> string list \<times> string) list \<Rightarrow> py_error + string option" where
  "first_bad_cases matrix [] = Inr None"
| "first_bad_cases matrix ((key, value_key, names, reason) # rest) =
     (case case_values_are matrix key value_key names of
        Inl e \<Rightarrow> Inl e
      | Inr ok \<Rightarrow> (if ok then first_bad_cases matrix rest else Inr (Some reason)))"

definition matrix_case_checks :: "(string \<times> string \<times> string list \<times> string) list" where
  "matrix_case_checks =
     [(''finding_multiset_cases'', ''disposition'', [''fixed'', ''introduced'', ''unchanged'', ''unknown''],
       ''consumer_matrix_finding_multiset_invalid''),
      (''project_runtime_cases'', ''expected_status'', [''PASS'', ''UNKNOWN''],
       ''consumer_matrix_project_runtime_invalid''),
      (''pr_range_boundary_cases'', ''dimension'', boundary_dimensions,
       ''consumer_matrix_pr_range_boundaries_invalid'')]"

definition validate_consumer_matrix ::
  "string option \<Rightarrow> pyval \<Rightarrow> py_error + ConsumerMatrixValidation" where
  "validate_consumer_matrix packaged matrix =
     (case matrix of
        PDict m \<Rightarrow>
          (case packaged of
             None \<Rightarrow> Inr (unknown_matrix ''suppression_catalog_resource_unavailable'')
           | Some digest \<Rightarrow>
               (case validate_matrix_catalog_identity m digest of
                  Some reason \<Rightarrow> Inr (unknown_matrix reason)
                | None \<Rightarrow>
                    (case validated_matrix_statuses m digest of
                       Inl reason \<Rightarrow> Inr (unknown_matrix reason)
                     | Inr ss \<Rightarrow>
                         map_sum id (\<lambda>bad. case bad of
                             Some reason \<Rightarrow> unknown_matrix reason
                           | None \<Rightarrow> \<lparr>cm_pass = True, cm_reason = [], cm_exercised_statuses = ss\<rparr>)
                           (first_bad_cases m matrix_case_checks))))
      | _ \<Rightarrow> Inr (unknown_matrix ''consumer_matrix_invalid''))"

section \<open>Serialized assurance reports\<close>

fun status_text :: "assurance_status \<Rightarrow> string" where
  "status_text StPass = ''PASS''"
| "status_text StFail = ''FAIL''"
| "status_text StUnknown = ''UNKNOWN''"
| "status_text StNotApplicable = ''NOT_APPLICABLE''"

fun disposition_text :: "differential_state \<Rightarrow> string" where
  "disposition_text DsFixed = ''fixed''"
| "disposition_text DsIntroduced = ''introduced''"
| "disposition_text DsUnchanged = ''unchanged''"
| "disposition_text DsUnknown = ''unknown''"

definition opt_str :: "string option \<Rightarrow> pyval" where
  "opt_str v = (case v of None \<Rightarrow> PNone | Some s \<Rightarrow> PStr s)"

definition member_payload :: "AssuranceMemberEvidence \<Rightarrow> pyval" where
  "member_payload m = PDict
     [(PStr ''id'', PStr (am_id m)),
      (PStr ''outcome'', opt_str (map_option status_text (am_outcome m))),
      (PStr ''diagnostic'', opt_str (am_diagnostic m)),
      (PStr ''base'', opt_str (map_option status_text (am_base m))),
      (PStr ''head'', opt_str (map_option status_text (am_head m))),
      (PStr ''disposition'', opt_str (map_option disposition_text (am_disposition m)))]"

text \<open>\<open>AssuranceReport.model_dump(mode="json")\<close>.\<close>

definition assurance_payload :: "AssuranceReport \<Rightarrow> pydict" where
  "assurance_payload r =
     [(PStr ''schema_version'', PStr ''1.6''),
      (PStr ''assurance_status'', PStr (status_text (ar_assurance_status r))),
      (PStr ''has_unknown_required_evidence'', PBool (ar_has_unknown_required_evidence r)),
      (PStr ''overall_verdict'', PStr (verdict_text (ar_overall_verdict r))),
      (PStr ''ci_exit_code'', PInt (ar_ci_exit_code r)),
      (PStr ''enforcement_mode'', PStr (if ar_enforcement_shadow r then ''shadow'' else ''full'')),
      (PStr ''member_evidence'', PList (map member_payload (ar_member_evidence r))),
      (PStr ''aggregate_blockers'',
        PList (map (\<lambda>b. PDict (map (\<lambda>(k, v). (PStr k, PStr v)) b)) (ar_aggregate_blockers r))),
      (PStr ''summary'', PStr (ar_summary r)),
      (PStr ''suppression_catalog_digest'', opt_str (ar_suppression_catalog_digest r))]"

section \<open>Lemmas\<close>

lemma assurance_of_status_text [simp]: "assurance_of_text (status_text st) = Some st"
  by (cases st) simp_all

lemma status_text_inject [simp]: "status_text a = status_text b \<longleftrightarrow> a = b"
  by (cases a; cases b) simp_all

lemma assurance_of_text_inverse: "assurance_of_text s = Some st \<Longrightarrow> s = status_text st"
  by (auto split: if_splits)

lemma status_text_mem [simp]: "status_text st \<in> set [''PASS'', ''FAIL'', ''UNKNOWN'', ''NOT_APPLICABLE'']"
  by (cases st) simp_all

lemma projection_fields:
  assumes "project_assurance_status s e = Inr p"
  shows "s = status_text (ap_assurance_status p)" and "e = (if ap_enforcement_shadow p then ''shadow'' else ''full'')"
    and "ap_ci_exit_code p = (if ap_enforcement_shadow p \<or> ap_assurance_status p \<in> {StPass, StNotApplicable} then 0 else 1)"
  using assms
  by (auto simp: project_assurance_status_def dest!: assurance_of_text_inverse split: option.splits if_splits)

lemma projection_exists:
  "project_assurance_status (status_text st) (if sh then ''shadow'' else ''full'') =
     Inr \<lparr>ap_assurance_status = st,
          ap_overall_verdict = (if st = StPass then VPass else if st = StNotApplicable then VPassWithAdvisory else VFail),
          ap_ci_exit_code = (if sh \<or> st \<in> {StPass, StNotApplicable} then 0 else 1),
          ap_enforcement_shadow = sh\<rparr>"
  by (simp add: project_assurance_status_def del: assurance_of_text.simps)

text \<open>The derived status of a report with no explicit one.\<close>

lemma build_assurance_fields:
  assumes "build_assurance_report status enf mem blk dg = Inr r"
  shows "make_members mem = Inr (ar_member_evidence r)"
    and "ar_has_unknown_required_evidence r = (\<exists>m \<in> set (ar_member_evidence r).
           am_outcome m = Some StUnknown \<or> am_disposition m = Some DsUnknown)"
    and "ar_aggregate_blockers r = filter (\<lambda>b. map_of b ''status'' = Some ''open'') blk"
    and "\<exists>p. project_assurance_status (case status of Some s \<Rightarrow> s | None \<Rightarrow>
            (if ar_aggregate_blockers r \<noteq> [] then ''FAIL''
             else if ar_has_unknown_required_evidence r then ''UNKNOWN'' else ''PASS'')) enf = Inr p
          \<and> ar_assurance_status r = ap_assurance_status p \<and> ar_ci_exit_code r = ap_ci_exit_code p
          \<and> ar_enforcement_shadow r = ap_enforcement_shadow p"
  using assms by (auto simp: build_assurance_report_def Let_def split: sum.splits option.splits)

lemma first_bad_cases_None:
  "first_bad_cases m cs = Inr None \<longleftrightarrow>
     (\<forall>(key, vk, names, reason) \<in> set cs. case_values_are m key vk names = Inr True)"
  by (induction cs) (auto split: sum.splits if_splits)

lemma collect_statuses_ok:
  assumes "collect_statuses rs dg = Inr ss"
  shows "list_all2 (\<lambda>r s. validated_matrix_status r dg = Inr s) rs ss"
  using assms by (induction rs arbitrary: ss) (auto split: sum.splits simp: map_sum_Inr_iff)

lemma list_all2_member: "list_all2 P xs ys \<Longrightarrow> y \<in> set ys \<Longrightarrow> \<exists>x \<in> set xs. P x y"
  by (induction rule: list_all2_induct) auto

lemma validated_matrix_status_ok:
  assumes "validated_matrix_status r dg = Inr s"
  obtains d p where "r = PDict d" "project_assurance_status s ''full'' = Inr p"
    "dget d ''assurance_status'' = PStr s" "dget d ''overall_verdict'' = PStr (verdict_text (ap_overall_verdict p))"
    "py_eq_int (dget d ''ci_exit_code'') (ap_ci_exit_code p)" "dget d ''suppression_catalog_digest'' = PStr dg"
  using assms by (auto simp: validated_matrix_status_def split: pyval.splits sum.splits if_splits)

lemma matrix_identity_ok:
  assumes "validate_matrix_catalog_identity m dg = None"
  obtains envelope bindings where
    "dget m ''accepted_pr_range_envelope'' = PDict envelope"
    "dget envelope ''suppression_catalog_digest'' = PStr dg"
    "dget m ''suppression_catalog_identity_bindings'' = PDict bindings"
    "set (map fst bindings) = set (map PStr identity_bindings)"
    "\<forall>name \<in> set identity_bindings. dget bindings name = PStr dg"
  using assms
  by (auto simp: validate_matrix_catalog_identity_def split: pyval.splits if_splits)

section \<open>Properties\<close>

text \<open>Findings are validated once and for all. A finding that the constructor accepts is well formed,
  is accepted again unchanged, blocks exactly when it is an open error (whatever the caller passed for the
  derived fields agreed with that), and carries its complete guidance when it has a guidance kind.\<close>

theorem finding_validation:
  assumes "make_finding f = Inr g"
  shows "make_finding g = Inr g
    \<and> (is_blocking g \<longleftrightarrow> rf_severity f = SevError \<and> rf_status f = Open)
    \<and> rf_autofix_available g = Some (rf_fixable f)
    \<and> (rf_guidance_kind g \<noteq> None \<longrightarrow> rf_recommended_action g \<noteq> None \<and> rf_clean_code_principle g \<noteq> None
         \<and> rf_rationale g \<noteq> None \<and> rf_safety_checks g \<noteq> None
         \<and> (rf_guidance_kind g = Some Preserve \<longrightarrow> rf_preserve_reason g \<noteq> None))"
proof -
  have wf: "wf_finding g" by (rule make_finding_wf [OF assms])
  have g: "g = f\<lparr>rf_autofix_available := Some (rf_fixable f), rf_blocking := Some (expected_blocking f)\<rparr>"
    by (rule make_finding_steps(3) [OF assms])
  have v: "validate_guided_metadata g = Inr g" using wf by (simp add: wf_finding_def)
  have "is_blocking g \<longleftrightarrow> rf_severity f = SevError \<and> rf_status f = Open"
    by (simp add: g is_blocking_def expected_blocking_def)
  moreover have "rf_autofix_available g = Some (rf_fixable f)" by (simp add: g)
  moreover have "rf_guidance_kind g \<noteq> None \<longrightarrow> rf_recommended_action g \<noteq> None \<and> rf_clean_code_principle g \<noteq> None
         \<and> rf_rationale g \<noteq> None \<and> rf_safety_checks g \<noteq> None
         \<and> (rf_guidance_kind g = Some Preserve \<longrightarrow> rf_preserve_reason g \<noteq> None)"
    using v unfolding validate_guided_metadata_def by (cases "rf_guidance_kind g") (auto split: if_splits)
  ultimately show ?thesis using make_finding_of_wf [OF wf] by blast
qed

definition sample_finding :: ReviewFinding where
  "sample_finding =
     \<lparr>rf_category = Security, rf_severity = SevError, rf_tool = ''semgrep'', rf_rule = ''r1'', rf_file = ''a.py'',
      rf_line = 3, rf_message = ''m'', rf_fixable = True, rf_status = Open,
      rf_differential_state = None, rf_autofix_available = None, rf_blocking = None,
      rf_execution_state = None, rf_evidence_outcome = None, rf_evidence_refs = None,
      rf_confidence = None, rf_rewrite_hint = None, rf_canonical_pattern = None, rf_intent_key = None,
      rf_estimated_deletion_lines = None, rf_related_locations = None, rf_guidance_kind = None,
      rf_recommended_action = None, rf_clean_code_principle = None, rf_rationale = None,
      rf_safety_checks = None, rf_preserve_reason = None, rf_action_status = None,
      rf_before_ref = None, rf_after_ref = None, rf_improvement = None, rf_signal_trace = None,
      rf_preserve_reasons = None, rf_remediation_packet = None\<rparr>"

lemma sample_finding_made:
  "make_finding sample_finding = Inr (sample_finding\<lparr>rf_autofix_available := Some True, rf_blocking := Some True\<rparr>)"
  by code_simp

theorem finding_validation_witness:
  "\<exists>g. make_finding sample_finding = Inr g \<and> make_finding g = Inr g \<and> is_blocking g"
  using finding_validation [OF sample_finding_made] sample_finding_made
  by (auto simp: sample_finding_def)

text \<open>An assurance report derives its status with FAIL before UNKNOWN before PASS. With no explicit
  status, it is FAIL exactly when a blocker is open, UNKNOWN exactly when none is but a member's outcome or
  disposition is unknown, PASS otherwise; unknown evidence is recorded even when the status is FAIL, and
  the exit code is 0 only in shadow mode or on PASS.\<close>

theorem assurance_fail_first:
  assumes "build_assurance_report None enf mem blk dg = Inr r"
  shows "(ar_assurance_status r = StFail \<longleftrightarrow> (\<exists>b \<in> set blk. map_of b ''status'' = Some ''open''))
    \<and> (ar_assurance_status r = StUnknown \<longleftrightarrow> (\<forall>b \<in> set blk. map_of b ''status'' \<noteq> Some ''open'')
         \<and> ar_has_unknown_required_evidence r)
    \<and> ar_assurance_status r \<noteq> StNotApplicable
    \<and> (ar_has_unknown_required_evidence r \<longleftrightarrow> (\<exists>m \<in> set (ar_member_evidence r).
         am_outcome m = Some StUnknown \<or> am_disposition m = Some DsUnknown))
    \<and> (ar_ci_exit_code r = 0 \<longleftrightarrow> enf = ''shadow'' \<or> ar_assurance_status r = StPass)"
proof -
  note f = build_assurance_fields [OF assms]
  let ?d = "if ar_aggregate_blockers r \<noteq> [] then StFail
            else if ar_has_unknown_required_evidence r then StUnknown else StPass"
  obtain p where p: "project_assurance_status (status_text ?d) enf = Inr p"
    "ar_assurance_status r = ap_assurance_status p" "ar_ci_exit_code r = ap_ci_exit_code p"
    using f(4) by (auto split: if_splits)
  have st: "ar_assurance_status r = ?d"
    using projection_fields(1) [OF p(1)] unfolding p(2) status_text_inject by (rule sym)
  have code: "ar_ci_exit_code r = 0 \<longleftrightarrow> enf = ''shadow'' \<or> ar_assurance_status r = StPass"
  proof (cases "ap_enforcement_shadow p")
    case True
    with projection_fields(2,3) [OF p(1)] p(3) show ?thesis by simp
  next
    case False
    with projection_fields(2,3) [OF p(1)] p(2,3) st show ?thesis by (simp split: if_splits)
  qed
  have "ar_aggregate_blockers r \<noteq> [] \<longleftrightarrow> (\<exists>b \<in> set blk. map_of b ''status'' = Some ''open'')"
    by (auto simp: f(3) filter_empty_conv)
  note blk = this
  show ?thesis
  proof (intro conjI)
    show "ar_assurance_status r = StFail \<longleftrightarrow> (\<exists>b \<in> set blk. map_of b ''status'' = Some ''open'')"
      unfolding st blk [symmetric] by simp
    show "ar_assurance_status r = StUnknown \<longleftrightarrow> (\<forall>b \<in> set blk. map_of b ''status'' \<noteq> Some ''open'')
         \<and> ar_has_unknown_required_evidence r"
      using blk unfolding st by simp
  qed (simp_all only: code f(2), simp add: st)
qed

theorem assurance_fail_first_witness:
  "\<exists>r. build_assurance_report None ''full'' [[(''id'', ''ruff''), (''outcome'', ''UNKNOWN'')]]
         [[(''status'', ''open'')]] None = Inr r
     \<and> ar_assurance_status r = StFail \<and> ar_has_unknown_required_evidence r \<and> ar_ci_exit_code r \<noteq> 0"
proof -
  let ?b = "build_assurance_report None ''full'' [[(''id'', ''ruff''), (''outcome'', ''UNKNOWN'')]]
         [[(''status'', ''open'')]] None"
  have "case ?b of Inl _ \<Rightarrow> False | Inr r \<Rightarrow> ar_has_unknown_required_evidence r" by code_simp
  then obtain r where r: "?b = Inr r" "ar_has_unknown_required_evidence r" by (auto split: sum.splits)
  from assurance_fail_first [OF r(1)] r show ?thesis by auto
qed

text \<open>Serialized assurance reports read back. Whatever status, enforcement mode, members and blockers
  an assurance report was built from, reading its serialized form gives its status and its exit code.\<close>

theorem assurance_read_back:
  assumes "build_assurance_report status enf mem blk dg = Inr r"
  shows "read_review_report (assurance_payload r) = Inr (status_text (ar_assurance_status r), ar_ci_exit_code r)"
proof -
  obtain q p where p: "project_assurance_status q enf = Inr p" "ar_assurance_status r = ap_assurance_status p"
    "ar_ci_exit_code r = ap_ci_exit_code p" "ar_enforcement_shadow r = ap_enforcement_shadow p"
    using build_assurance_fields(4) [OF assms] by blast
  have "read_status (assurance_payload r) = Inr (status_text (ar_assurance_status r))"
    by (cases "ar_assurance_status r")
      (simp_all add: read_status_def assurance_payload_def dget_def in_str_set_def py_str_def)
  moreover have "py_str (dget_or (assurance_payload r) ''enforcement_mode'' (PStr ''full''))
      = (if ar_enforcement_shadow r then ''shadow'' else ''full'')"
    by (simp add: assurance_payload_def dget_or_def py_str_def)
  ultimately show ?thesis
    using projection_exists [of "ar_assurance_status r" "ar_enforcement_shadow r"] projection_fields(3) [OF p(1)] p(2-4)
    by (simp add: read_review_report_def Let_def split: if_splits)
qed

theorem assurance_read_back_witness:
  "\<exists>r. build_assurance_report (Some ''NOT_APPLICABLE'') ''shadow'' [] [] None = Inr r
     \<and> read_review_report (assurance_payload r) = Inr (''NOT_APPLICABLE'', 0)"
proof -
  let ?b = "build_assurance_report (Some ''NOT_APPLICABLE'') ''shadow'' [] [] None"
  have "case ?b of Inl _ \<Rightarrow> False | Inr r \<Rightarrow> ar_assurance_status r = StNotApplicable \<and> ar_ci_exit_code r = 0"
    by code_simp
  then obtain r where r: "?b = Inr r" "ar_assurance_status r = StNotApplicable" "ar_ci_exit_code r = 0"
    by (auto split: sum.splits)
  from assurance_read_back [OF r(1)] r show ?thesis by auto
qed

text \<open>The reader is conservative. On a schema 1.6 or later report outside shadow mode it gives exit
  code 0 only when the recorded assurance status is literally PASS or NOT_APPLICABLE; a missing or
  unknown status reads as UNKNOWN with exit code 1, whatever the legacy verdict says.\<close>

theorem reader_is_conservative:
  assumes "schema_version_at_least (py_str (dget_or p ''schema_version'' (PStr []))) 6"
    and mode: "py_str (dget_or p ''enforcement_mode'' (PStr ''full'')) \<noteq> ''shadow''"
    and "read_review_report p = Inr (status, code)"
  shows "(code = 0 \<longrightarrow> dget p ''assurance_status'' \<in> {PStr ''PASS'', PStr ''NOT_APPLICABLE''})
    \<and> (dget p ''assurance_status'' \<notin> set (map PStr all_statuses) \<longrightarrow> status = ''UNKNOWN'' \<and> code = 1)"
proof -
  obtain proj where proj: "read_status p = Inr status" "project_assurance_status status ''full'' = Inr proj"
    "code = ap_ci_exit_code proj"
    using assms(3) mode
    by (auto simp: read_review_report_def Let_def map_sum_Inr_iff split: sum.splits if_splits)
  note f = projection_fields [OF proj(2)]
  show ?thesis
    using proj(1,3) assms(1) f
    by (auto simp: read_status_def Let_def in_str_set_def py_str_def all_statuses_def
        split: sum.splits bool.splits if_splits pyval.splits)
qed

theorem reader_is_conservative_witness:
  "read_review_report [(PStr ''schema_version'', PStr ''1.6''), (PStr ''overall_verdict'', PStr ''PASS'')]
     = Inr (''UNKNOWN'', 1)
   \<and> (dget [(PStr ''schema_version'', PStr ''1.6''), (PStr ''overall_verdict'', PStr ''PASS'')] ''assurance_status''
        \<notin> set (map PStr all_statuses))"
proof -
  let ?p = "[(PStr ''schema_version'', PStr ''1.6''), (PStr ''overall_verdict'', PStr ''PASS'')]"
  have v: "schema_version_at_least (py_str (dget_or ?p ''schema_version'' (PStr []))) 6"
    and m: "py_str (dget_or ?p ''enforcement_mode'' (PStr ''full'')) \<noteq> ''shadow''"
    and s: "dget ?p ''assurance_status'' \<notin> set (map PStr all_statuses)"
    and r: "case read_review_report ?p of Inl _ \<Rightarrow> False | Inr _ \<Rightarrow> True" by code_simp+
  from r obtain status code where eq: "read_review_report ?p = Inr (status, code)" by (auto split: sum.splits)
  from reader_is_conservative [OF v m eq] s eq show ?thesis by blast
qed

text \<open>A consumer matrix passes only when it is closed: the catalog digest is bound in the envelope and
  under exactly the six required names, each of the four assurance statuses is exercised by a report whose
  verdict, exit code and digest are the ones the projection gives, no other status is, and the three case
  tables cover exactly their required values.\<close>

theorem consumer_matrix_closed:
  assumes "validate_consumer_matrix packaged matrix = Inr v" and "cm_pass v"
  shows "\<exists>m digest envelope bindings reports. matrix = PDict m \<and> packaged = Some digest
    \<and> dget m ''accepted_pr_range_envelope'' = PDict envelope
    \<and> dget envelope ''suppression_catalog_digest'' = PStr digest
    \<and> dget m ''suppression_catalog_identity_bindings'' = PDict bindings
    \<and> set (map fst bindings) = set (map PStr identity_bindings)
    \<and> (\<forall>name \<in> set identity_bindings. dget bindings name = PStr digest)
    \<and> dget m ''canonical_status_reports'' = PList reports
    \<and> (\<forall>st. \<exists>d p. PDict d \<in> set reports \<and> dget d ''assurance_status'' = PStr (status_text st)
          \<and> project_assurance_status (status_text st) ''full'' = Inr p
          \<and> dget d ''overall_verdict'' = PStr (verdict_text (ap_overall_verdict p))
          \<and> py_eq_int (dget d ''ci_exit_code'') (ap_ci_exit_code p)
          \<and> dget d ''suppression_catalog_digest'' = PStr digest)
    \<and> (\<forall>(key, vk, names, reason) \<in> set matrix_case_checks. case_values_are m key vk names = Inr True)
    \<and> cm_exercised_statuses v = sorted_list_of_set (set all_statuses)"
proof -
  obtain m digest ss where m: "matrix = PDict m" "packaged = Some digest"
    "validate_matrix_catalog_identity m digest = None" "validated_matrix_statuses m digest = Inr ss"
    "first_bad_cases m matrix_case_checks = Inr None" "cm_exercised_statuses v = ss"
    using assms
    by (auto simp: validate_consumer_matrix_def unknown_matrix_def map_sum_Inr_iff
        split: pyval.splits option.splits sum.splits)
  obtain reports qs where r: "dget m ''canonical_status_reports'' = PList reports"
    "collect_statuses reports digest = Inr qs" "set qs = set all_statuses" "ss = sorted_list_of_set (set qs)"
    using m(4) by (auto simp: validated_matrix_statuses_def split: pyval.splits sum.splits if_splits)
  have each: "\<exists>d p. PDict d \<in> set reports \<and> dget d ''assurance_status'' = PStr (status_text st)
          \<and> project_assurance_status (status_text st) ''full'' = Inr p
          \<and> dget d ''overall_verdict'' = PStr (verdict_text (ap_overall_verdict p))
          \<and> py_eq_int (dget d ''ci_exit_code'') (ap_ci_exit_code p)
          \<and> dget d ''suppression_catalog_digest'' = PStr digest" for st
  proof -
    have "status_text st \<in> set qs" unfolding r(3) all_statuses_def by (rule status_text_mem)
    then obtain x where x: "x \<in> set reports" "validated_matrix_status x digest = Inr (status_text st)"
      using list_all2_member [OF collect_statuses_ok [OF r(2)]] by blast
    from x(2) show ?thesis by (rule validated_matrix_status_ok) (use x(1) in blast)
  qed
  obtain envelope bindings where e:
    "dget m ''accepted_pr_range_envelope'' = PDict envelope"
    "dget envelope ''suppression_catalog_digest'' = PStr digest"
    "dget m ''suppression_catalog_identity_bindings'' = PDict bindings"
    "set (map fst bindings) = set (map PStr identity_bindings)"
    "\<forall>name \<in> set identity_bindings. dget bindings name = PStr digest"
    using m(3) by (rule matrix_identity_ok)
  have "cm_exercised_statuses v = sorted_list_of_set (set all_statuses)" using m(6) r(3,4) by simp
  with m(1,2) m(5) [unfolded first_bad_cases_None] e r(1) each show ?thesis by blast
qed

definition sample_status_report :: "string \<Rightarrow> string \<Rightarrow> int \<Rightarrow> pyval" where
  "sample_status_report st verdict code = PDict
     [(PStr ''assurance_status'', PStr st), (PStr ''overall_verdict'', PStr verdict),
      (PStr ''ci_exit_code'', PInt code), (PStr ''suppression_catalog_digest'', PStr ''d'')]"

definition sample_matrix :: pyval where
  "sample_matrix = PDict
     [(PStr ''accepted_pr_range_envelope'', PDict [(PStr ''suppression_catalog_digest'', PStr ''d'')]),
      (PStr ''suppression_catalog_identity_bindings'', PDict (map (\<lambda>n. (PStr n, PStr ''d'')) identity_bindings)),
      (PStr ''canonical_status_reports'', PList
         [sample_status_report ''PASS'' ''PASS'' 0, sample_status_report ''FAIL'' ''FAIL'' 1,
          sample_status_report ''UNKNOWN'' ''FAIL'' 1,
          sample_status_report ''NOT_APPLICABLE'' ''PASS_WITH_ADVISORY'' 0]),
      (PStr ''finding_multiset_cases'', PList (map (\<lambda>n. PDict [(PStr ''disposition'', PStr n)])
         [''fixed'', ''introduced'', ''unchanged'', ''unknown''])),
      (PStr ''project_runtime_cases'', PList (map (\<lambda>n. PDict [(PStr ''expected_status'', PStr n)])
         [''PASS'', ''UNKNOWN''])),
      (PStr ''pr_range_boundary_cases'', PList (map (\<lambda>n. PDict [(PStr ''dimension'', PStr n)])
         boundary_dimensions))]"

theorem consumer_matrix_closed_witness:
  "\<exists>v. validate_consumer_matrix (Some ''d'') sample_matrix = Inr v \<and> cm_pass v
     \<and> cm_exercised_statuses v = sorted_list_of_set (set all_statuses)"
proof -
  have "case validate_consumer_matrix (Some ''d'') sample_matrix of Inl _ \<Rightarrow> False | Inr v \<Rightarrow> cm_pass v"
    by code_simp
  then obtain v where v: "validate_consumer_matrix (Some ''d'') sample_matrix = Inr v" "cm_pass v"
    by (auto split: sum.splits)
  from consumer_matrix_closed [OF v] v show ?thesis by blast
qed

end
