(* ===== verification/Line_Correspondence.thy ===== *)
theory Line_Correspondence
  imports Prelude
begin

text \<open>
  Line correspondence between two revisions of a source (\<open>_edit_costs\<close> and its callers in
  \<^verbatim>\<open>run/differential.py\<close>): the cost tables over the lines of both revisions, filled row by row as
  the source does, and what they mean. An alignment is a path through the edit grid; a table entry is
  the cost of the cheapest path to it, so the three costs the source compares decide whether a pair of
  lines is on every, on some or on no optimal alignment.

  A \<open>bytes\<close> object is a \<open>string\<close> whose characters are its bytes; costs are natural numbers.
\<close>

section \<open>Lines\<close>

text \<open>\<open>source.splitlines()\<close> on bytes: line feed, carriage return, or both.\<close>

fun bytes_lines_acc :: "string \<Rightarrow> string \<Rightarrow> string list" where
  "bytes_lines_acc acc [] = (if acc = [] then [] else [rev acc])"
| "bytes_lines_acc acc (x # xs) =
     (if of_char x = (10::nat) \<or> of_char x = (13::nat) then rev acc # bytes_lines_acc [] (after_break x xs)
      else bytes_lines_acc (x # acc) xs)"

definition physical_lines :: "string \<Rightarrow> string list" where
  "physical_lines source = bytes_lines_acc [] source"

section \<open>Cost tables\<close>

text \<open>\<open>replace_cost\<close> of the pair of line \<open>i\<close> of the base and line \<open>j\<close> of the head.\<close>

definition line_cost :: "'a \<Rightarrow> 'a \<Rightarrow> nat" where
  "line_cost b h = (if b = h then 0 else 2)"

text \<open>One cell from its upper, left and diagonal neighbour, the diagonal unless it is forbidden.\<close>

definition cell_cost :: "(nat \<times> nat) option \<Rightarrow> nat \<Rightarrow> nat \<Rightarrow> nat \<Rightarrow> nat \<Rightarrow> nat \<Rightarrow> nat \<Rightarrow> nat" where
  "cell_cost forbidden i j up left diagonal replace_cost =
     (let m = min (up + 1) (left + 1)
      in if forbidden \<noteq> Some (i, j) then min m (diagonal + replace_cost) else m)"

text \<open>The row below \<open>prev\<close>, from the column whose left value is \<open>left\<close>.\<close>

fun edit_row :: "(nat \<times> nat) option \<Rightarrow> nat \<Rightarrow> 'a \<Rightarrow> nat \<Rightarrow> 'a list \<Rightarrow> nat list \<Rightarrow> nat \<Rightarrow> nat list" where
  "edit_row fb i b j (h # hs) (diagonal # up # rest) left =
     left # edit_row fb i b (Suc j) hs (up # rest) (cell_cost fb i j up left diagonal (line_cost b h))"
| "edit_row fb i b j _ _ left = [left]"

fun edit_rows :: "(nat \<times> nat) option \<Rightarrow> nat \<Rightarrow> 'a list \<Rightarrow> 'a list \<Rightarrow> nat list \<Rightarrow> nat list list" where
  "edit_rows fb i [] hs prev = [prev]"
| "edit_rows fb i (b # bs) hs prev =
     prev # edit_rows fb (Suc i) bs hs (edit_row fb i b 0 hs prev (Suc i))"

definition edit_costs :: "'a list \<Rightarrow> 'a list \<Rightarrow> (nat \<times> nat) option \<Rightarrow> nat list list" where
  "edit_costs base_lines head_lines forbidden_pair =
     edit_rows forbidden_pair 0 base_lines head_lines [0..<Suc (length head_lines)]"

definition suffix_edit_costs :: "'a list \<Rightarrow> 'a list \<Rightarrow> nat list list" where
  "suffix_edit_costs base_lines head_lines =
     (let reversed_costs = edit_costs (rev base_lines) (rev head_lines) None;
          rows = length base_lines; columns = length head_lines
      in map (\<lambda>i. map (\<lambda>j. reversed_costs ! (rows - i) ! (columns - j)) [0..<Suc columns]) [0..<Suc rows])"

section \<open>Reference recurrence\<close>

fun cost_at :: "(nat \<times> nat) option \<Rightarrow> 'a list \<Rightarrow> 'a list \<Rightarrow> nat \<Rightarrow> nat \<Rightarrow> nat" where
  "cost_at fb bs hs 0 j = j"
| "cost_at fb bs hs (Suc i) 0 = Suc i"
| "cost_at fb bs hs (Suc i) (Suc j) =
     cell_cost fb i j (cost_at fb bs hs i (Suc j)) (cost_at fb bs hs (Suc i) j) (cost_at fb bs hs i j)
       (line_cost (bs ! i) (hs ! j))"

lemma edit_row_costs:
  assumes "prev = map (cost_at fb bs hs i) [j..<Suc (length hs)]"
    and "left = cost_at fb bs hs (Suc i) j" and "j \<le> length hs"
  shows "edit_row fb i (bs ! i) j (drop j hs) prev left = map (cost_at fb bs hs (Suc i)) [j..<Suc (length hs)]"
  using assms
proof (induction "length hs - j" arbitrary: j prev left)
  case 0
  then have "j = length hs" by simp
  with 0 show ?case by (simp add: upt_rec)
next
  case (Suc n)
  then have j: "j < length hs" by simp
  have up: "[j..<Suc (length hs)] = j # Suc j # [Suc (Suc j)..<Suc (length hs)]"
    using j by (simp add: upt_conv_Cons)
  have d: "drop j hs = hs ! j # drop (Suc j) hs" using j by (simp add: Cons_nth_drop_Suc)
  have up': "[Suc j..<Suc (length hs)] = Suc j # [Suc (Suc j)..<Suc (length hs)]"
    using j by (simp add: upt_conv_Cons)
  have "edit_row fb i (bs ! i) (Suc j) (drop (Suc j) hs) (map (cost_at fb bs hs i) [Suc j..<Suc (length hs)])
      (cost_at fb bs hs (Suc i) (Suc j)) = map (cost_at fb bs hs (Suc i)) [Suc j..<Suc (length hs)]"
    using Suc.hyps(2) j by (intro Suc.hyps(1)) auto
  then show ?case unfolding Suc.prems(1,2) d up up' by simp
qed

lemma edit_rows_costs:
  assumes "prev = map (cost_at fb bs hs i) [0..<Suc (length hs)]" and "i \<le> length bs"
  shows "edit_rows fb i (drop i bs) hs prev
    = map (\<lambda>k. map (cost_at fb bs hs k) [0..<Suc (length hs)]) [i..<Suc (length bs)]"
  using assms
proof (induction "length bs - i" arbitrary: i prev)
  case 0
  then have "i = length bs" by simp
  with 0 show ?case by simp
next
  case (Suc n)
  then have i: "i < length bs" by simp
  have d: "drop i bs = bs ! i # drop (Suc i) bs" using i by (simp add: Cons_nth_drop_Suc)
  have row: "edit_row fb i (bs ! i) 0 hs prev (Suc i) = map (cost_at fb bs hs (Suc i)) [0..<Suc (length hs)]"
    using edit_row_costs [OF Suc.prems(1), of "Suc i"] by simp
  have "edit_rows fb (Suc i) (drop (Suc i) bs) hs (map (cost_at fb bs hs (Suc i)) [0..<Suc (length hs)])
      = map (\<lambda>k. map (cost_at fb bs hs k) [0..<Suc (length hs)]) [Suc i..<Suc (length bs)]"
    using Suc.hyps(2) i by (intro Suc.hyps(1)) auto
  moreover have "[i..<Suc (length bs)] = i # [Suc i..<Suc (length bs)]"
    using i by (simp only: upt_conv_Cons)
  ultimately show ?case unfolding d edit_rows.simps row by (simp only: list.map Suc.prems(1))
qed

text \<open>The table holds the recurrence.\<close>

lemma edit_costs_table:
  "edit_costs bs hs fb = map (\<lambda>i. map (cost_at fb bs hs i) [0..<Suc (length hs)]) [0..<Suc (length bs)]"
proof -
  have "cost_at fb bs hs 0 = id" by (simp add: fun_eq_iff)
  then have "[0..<Suc (length hs)] = map (cost_at fb bs hs 0) [0..<Suc (length hs)]" by simp
  from edit_rows_costs [OF this] show ?thesis by (simp add: edit_costs_def)
qed

lemma edit_costs_nth:
  assumes "i \<le> length bs" and "j \<le> length hs"
  shows "edit_costs bs hs fb ! i ! j = cost_at fb bs hs i j"
  using assms unfolding edit_costs_table by (simp del: upt_Suc)

lemma suffix_edit_costs_nth:
  assumes "i \<le> length bs" and "j \<le> length hs"
  shows "suffix_edit_costs bs hs ! i ! j = cost_at None (rev bs) (rev hs) (length bs - i) (length hs - j)"
  using assms unfolding suffix_edit_costs_def Let_def by (simp del: upt_Suc add: edit_costs_nth)

lemma edit_costs_last: "last (last (edit_costs bs hs fb)) = cost_at fb bs hs (length bs) (length hs)"
  unfolding edit_costs_table by simp

section \<open>Alignments as paths of the edit grid\<close>

text \<open>\<open>edit_path bs hs p q P c\<close>: a path from grid point \<open>p\<close> to grid point \<open>q\<close> of cost \<open>c\<close> whose diagonal
  steps are the pairs \<open>P\<close>, in order.\<close>

inductive edit_path ::
  "'a list \<Rightarrow> 'a list \<Rightarrow> nat \<times> nat \<Rightarrow> nat \<times> nat \<Rightarrow> (nat \<times> nat) list \<Rightarrow> nat \<Rightarrow> bool"
  for bs hs where
  start: "edit_path bs hs p p [] 0"
| delete: "edit_path bs hs p (i, j) P c \<Longrightarrow> i < length bs \<Longrightarrow> edit_path bs hs p (Suc i, j) P (Suc c)"
| insert: "edit_path bs hs p (i, j) P c \<Longrightarrow> j < length hs \<Longrightarrow> edit_path bs hs p (i, Suc j) P (Suc c)"
| pair: "edit_path bs hs p (i, j) P c \<Longrightarrow> i < length bs \<Longrightarrow> j < length hs \<Longrightarrow>
    edit_path bs hs p (Suc i, Suc j) (P @ [(i, j)]) (c + line_cost (bs ! i) (hs ! j))"

inductive_cases path_from_cases: "edit_path bs hs p q P c"

lemma path_append:
  assumes "edit_path bs hs q r Q d" and "edit_path bs hs p q P c"
  shows "edit_path bs hs p r (P @ Q) (c + d)"
  using assms
proof (induction rule: edit_path.induct)
  case (pair p' i j Q d)
  from edit_path.pair [OF pair.IH [OF pair.prems] pair.hyps(2,3)] show ?case by (simp add: add.assoc)
qed (auto intro: edit_path.intros)

lemma path_mono: "edit_path bs hs p q P c \<Longrightarrow> fst p \<le> fst q \<and> snd p \<le> snd q"
  by (induction rule: edit_path.induct) auto

lemma path_pairs:
  "edit_path bs hs p q P c \<Longrightarrow> (a, b) \<in> set P \<Longrightarrow>
   fst p \<le> a \<and> snd p \<le> b \<and> a < fst q \<and> b < snd q \<and> a < length bs \<and> b < length hs"
proof (induction arbitrary: a b rule: edit_path.induct)
  case (pair p i j P c)
  then show ?case using path_mono [OF pair.hyps(1)] by (auto dest: pair.IH)
qed fastforce+

text \<open>A path through a pair splits at it.\<close>

lemma path_split:
  "edit_path bs hs p q P c \<Longrightarrow> (a, b) \<in> set P \<Longrightarrow>
   \<exists>P1 P2 c1 c2. edit_path bs hs p (a, b) P1 c1 \<and> edit_path bs hs (Suc a, Suc b) q P2 c2
     \<and> c = c1 + line_cost (bs ! a) (hs ! b) + c2"
proof (induction rule: edit_path.induct)
  case (pair p i j P c)
  show ?case
  proof (cases "(a, b) \<in> set P")
    case True
    with pair.IH obtain P1 P2 c1 c2 where
      "edit_path bs hs p (a, b) P1 c1" "edit_path bs hs (Suc a, Suc b) (i, j) P2 c2"
      "c = c1 + line_cost (bs ! a) (hs ! b) + c2" by blast
    moreover from edit_path.pair [OF this(2) pair.hyps(2,3)]
    have "edit_path bs hs (Suc a, Suc b) (Suc i, Suc j) (P2 @ [(i, j)]) (c2 + line_cost (bs ! i) (hs ! j))" .
    ultimately show ?thesis by (metis add.assoc)
  next
    case False
    with pair.prems have "a = i" "b = j" by auto
    with pair.hyps(1) edit_path.start [of bs hs "(Suc a, Suc b)"] show ?thesis by force
  qed
qed (simp, metis edit_path.delete add_Suc_right, metis edit_path.insert add_Suc_right)

text \<open>Reversing both revisions reverses the path.\<close>

lemma path_reverse:
  assumes "edit_path bs hs p q P c" and "fst q \<le> length bs" and "snd q \<le> length hs"
  shows "\<exists>P'. edit_path (rev bs) (rev hs) (length bs - fst q, length hs - snd q)
                (length bs - fst p, length hs - snd p) P' c"
  using assms
proof (induction rule: edit_path.induct)
  case (start p)
  show ?case by (blast intro: edit_path.start)
next
  case (delete p i j P c)
  let ?q = "(length bs - Suc i, length hs - j)"
  from delete obtain P' where IH: "edit_path (rev bs) (rev hs) (length bs - i, length hs - j)
      (length bs - fst p, length hs - snd p) P' c" by auto
  have "edit_path (rev bs) (rev hs) ?q (Suc (length bs - Suc i), length hs - j) [] (Suc 0)"
    using delete.hyps(2) by (intro edit_path.delete edit_path.start) simp
  then have "edit_path (rev bs) (rev hs) ?q (length bs - i, length hs - j) [] (Suc 0)"
    using delete.hyps(2) by (simp add: Suc_diff_Suc)
  from path_append [OF IH this] show ?case by auto
next
  case (insert p i j P c)
  let ?q = "(length bs - i, length hs - Suc j)"
  from insert obtain P' where IH: "edit_path (rev bs) (rev hs) (length bs - i, length hs - j)
      (length bs - fst p, length hs - snd p) P' c" by auto
  have "edit_path (rev bs) (rev hs) ?q (length bs - i, Suc (length hs - Suc j)) [] (Suc 0)"
    using insert.hyps(2) by (intro edit_path.insert edit_path.start) simp
  then have "edit_path (rev bs) (rev hs) ?q (length bs - i, length hs - j) [] (Suc 0)"
    using insert.hyps(2) by (simp add: Suc_diff_Suc)
  from path_append [OF IH this] show ?case by auto
next
  case (pair p i j P c)
  let ?q = "(length bs - Suc i, length hs - Suc j)"
  from pair obtain P' where IH: "edit_path (rev bs) (rev hs) (length bs - i, length hs - j)
      (length bs - fst p, length hs - snd p) P' c" by auto
  have "edit_path (rev bs) (rev hs) ?q (Suc (length bs - Suc i), Suc (length hs - Suc j)) ([] @ [?q])
      (0 + line_cost (rev bs ! (length bs - Suc i)) (rev hs ! (length hs - Suc j)))"
    using pair.hyps(2,3) by (intro edit_path.pair edit_path.start) simp_all
  then have "edit_path (rev bs) (rev hs) ?q (length bs - i, length hs - j) [?q] (line_cost (bs ! i) (hs ! j))"
    using pair.hyps(2,3) by (simp add: Suc_diff_Suc rev_nth)
  from path_append [OF IH this] show ?case by (auto simp: add.commute)
qed

section \<open>Table entries are optimal costs\<close>

lemma cost_at_zero_right [simp]: "cost_at fb bs hs i 0 = i"
  by (cases i) simp_all

lemma cell_cost_le:
  "cell_cost fb i j up left dg rc \<le> Suc up" "cell_cost fb i j up left dg rc \<le> Suc left"
  "fb \<noteq> Some (i, j) \<Longrightarrow> cell_cost fb i j up left dg rc \<le> dg + rc"
  by (auto simp: cell_cost_def Let_def)

lemma cell_cost_cases:
  obtains "cell_cost fb i j up left dg rc = Suc up"
  | "cell_cost fb i j up left dg rc = Suc left"
  | "cell_cost fb i j up left dg rc = dg + rc" "fb \<noteq> Some (i, j)"
proof -
  have "cell_cost fb i j up left dg rc = Suc up \<or> cell_cost fb i j up left dg rc = Suc left
      \<or> (cell_cost fb i j up left dg rc = dg + rc \<and> fb \<noteq> Some (i, j))"
    by (auto simp: cell_cost_def Let_def min_def)
  then show thesis using that by blast
qed

lemma cost_at_up: "cost_at fb bs hs (Suc i) j \<le> Suc (cost_at fb bs hs i j)"
  by (cases j) (simp_all add: cell_cost_le)

lemma cost_at_left: "cost_at fb bs hs i (Suc j) \<le> Suc (cost_at fb bs hs i j)"
  by (cases i) (simp_all add: cell_cost_le)

lemma cost_at_lower:
  "edit_path bs hs p q P c \<Longrightarrow> p = (0, 0) \<Longrightarrow> (\<forall>x \<in> set P. fb \<noteq> Some x) \<Longrightarrow>
   cost_at fb bs hs (fst q) (snd q) \<le> c"
proof (induction rule: edit_path.induct)
  case (delete p i j P c)
  then show ?case using cost_at_up [of fb bs hs i j] by simp
next
  case (insert p i j P c)
  then show ?case using cost_at_left [of fb bs hs i j] by simp
next
  case (pair p i j P c)
  then have "cost_at fb bs hs i j \<le> c" "fb \<noteq> Some (i, j)" by auto
  then show ?case by (auto intro: order_trans [OF cell_cost_le(3)])
qed simp

lemma cost_at_attained:
  assumes "i \<le> length bs" and "j \<le> length hs"
  shows "\<exists>P. edit_path bs hs (0, 0) (i, j) P (cost_at fb bs hs i j) \<and> (\<forall>x \<in> set P. fb \<noteq> Some x)"
  using assms
proof (induction fb bs hs i j rule: cost_at.induct)
  case (1 fb bs hs j)
  then show ?case
  proof (induction j)
    case 0
    show ?case using edit_path.start [of bs hs "(0, 0)"] by fastforce
  next
    case (Suc j)
    then obtain P where "edit_path bs hs (0, 0) (0, j) P j" "\<forall>x \<in> set P. fb \<noteq> Some x" by auto
    with edit_path.insert [OF this(1)] Suc.prems show ?case by auto
  qed
next
  case (2 fb bs hs i)
  then show ?case
  proof (induction i)
    case 0
    have "edit_path bs hs (0, 0) (0, 0) [] 0" by (rule edit_path.start)
    from edit_path.delete [OF this] 0 show ?case by fastforce
  next
    case (Suc i)
    then obtain P where "edit_path bs hs (0, 0) (Suc i, 0) P (Suc i)" "\<forall>x \<in> set P. fb \<noteq> Some x" by auto
    with edit_path.delete [OF this(1)] Suc.prems show ?case by auto
  qed
next
  case (3 fb bs hs i j)
  let ?u = "cost_at fb bs hs i (Suc j)" and ?l = "cost_at fb bs hs (Suc i) j" and ?d = "cost_at fb bs hs i j"
  from 3 obtain Pu Pl Pd where
    u: "edit_path bs hs (0, 0) (i, Suc j) Pu ?u" "\<forall>x \<in> set Pu. fb \<noteq> Some x" and
    l: "edit_path bs hs (0, 0) (Suc i, j) Pl ?l" "\<forall>x \<in> set Pl. fb \<noteq> Some x" and
    d: "edit_path bs hs (0, 0) (i, j) Pd ?d" "\<forall>x \<in> set Pd. fb \<noteq> Some x" by auto
  show ?case
    using edit_path.delete [OF u(1)] edit_path.insert [OF l(1)] edit_path.pair [OF d(1)] u(2) l(2) d(2) 3(4,5)
    by (cases rule: cell_cost_cases [of fb i j ?u ?l ?d "line_cost (bs ! i) (hs ! j)"]) fastforce+
qed

text \<open>The three costs compared by the source, for a pair of lines inside both revisions.\<close>

definition full_path :: "'a list \<Rightarrow> 'a list \<Rightarrow> (nat \<times> nat) list \<Rightarrow> nat \<Rightarrow> bool" where
  "full_path bs hs P c = edit_path bs hs (0, 0) (length bs, length hs) P c"

definition global_cost :: "'a list \<Rightarrow> 'a list \<Rightarrow> nat" where
  "global_cost bs hs = last (last (edit_costs bs hs None))"

definition forced_cost :: "'a list \<Rightarrow> 'a list \<Rightarrow> nat \<Rightarrow> nat \<Rightarrow> nat" where
  "forced_cost bs hs i j =
     edit_costs bs hs None ! i ! j + line_cost (bs ! i) (hs ! j) + suffix_edit_costs bs hs ! Suc i ! Suc j"

definition forbidden_cost :: "'a list \<Rightarrow> 'a list \<Rightarrow> nat \<Rightarrow> nat \<Rightarrow> nat" where
  "forbidden_cost bs hs i j = last (last (edit_costs bs hs (Some (i, j))))"

text \<open>An optimal alignment: a full path no other full path undercuts.\<close>

definition optimal :: "'a list \<Rightarrow> 'a list \<Rightarrow> (nat \<times> nat) list \<Rightarrow> bool" where
  "optimal bs hs P = (\<exists>c. full_path bs hs P c \<and> (\<forall>Q d. full_path bs hs Q d \<longrightarrow> c \<le> d))"

lemma global_cost_path: "\<exists>P. full_path bs hs P (global_cost bs hs)"
  using cost_at_attained [of "length bs" bs "length hs" hs None]
  by (auto simp: full_path_def global_cost_def edit_costs_last)

lemma global_cost_least: "full_path bs hs P c \<Longrightarrow> global_cost bs hs \<le> c"
  using cost_at_lower [of bs hs "(0, 0)" "(length bs, length hs)" P c None]
  by (simp add: full_path_def global_cost_def edit_costs_last)

lemma optimal_iff: "optimal bs hs P \<longleftrightarrow> full_path bs hs P (global_cost bs hs)"
  unfolding optimal_def by (metis global_cost_least global_cost_path le_antisym)

lemma forbidden_cost_path:
  "\<exists>P. full_path bs hs P (forbidden_cost bs hs i j) \<and> (i, j) \<notin> set P"
  using cost_at_attained [of "length bs" bs "length hs" hs "Some (i, j)"]
  by (force simp: full_path_def forbidden_cost_def edit_costs_last)

lemma forbidden_cost_least:
  "full_path bs hs P c \<Longrightarrow> (i, j) \<notin> set P \<Longrightarrow> forbidden_cost bs hs i j \<le> c"
  using cost_at_lower [of bs hs "(0, 0)" "(length bs, length hs)" P c "Some (i, j)"]
  by (force simp: full_path_def forbidden_cost_def edit_costs_last)

lemma suffix_cost_path:
  assumes "i \<le> length bs" and "j \<le> length hs"
  shows "\<exists>P. edit_path bs hs (i, j) (length bs, length hs) P (suffix_edit_costs bs hs ! i ! j)"
proof -
  obtain P where "edit_path (rev bs) (rev hs) (0, 0) (length bs - i, length hs - j) P
      (suffix_edit_costs bs hs ! i ! j)"
    using cost_at_attained [of "length bs - i" "rev bs" "length hs - j" "rev hs" None] assms
    by (auto simp: suffix_edit_costs_nth)
  from path_reverse [OF this] assms show ?thesis by auto
qed

lemma suffix_cost_least:
  assumes "edit_path bs hs (i, j) (length bs, length hs) P c" and "i \<le> length bs" and "j \<le> length hs"
  shows "suffix_edit_costs bs hs ! i ! j \<le> c"
proof -
  obtain P' where "edit_path (rev bs) (rev hs) (0, 0) (length bs - i, length hs - j) P' c"
    using path_reverse [OF assms(1)] by auto
  from cost_at_lower [OF this, of None] show ?thesis by (simp add: suffix_edit_costs_nth [OF assms(2,3)])
qed

lemma forced_cost_path:
  assumes "i < length bs" and "j < length hs"
  shows "\<exists>P. full_path bs hs P (forced_cost bs hs i j) \<and> (i, j) \<in> set P"
proof -
  have "i \<le> length bs" "j \<le> length hs" using assms by simp_all
  with cost_at_attained [OF this, of None] obtain P where
    p: "edit_path bs hs (0, 0) (i, j) P (edit_costs bs hs None ! i ! j)"
    by (auto simp: edit_costs_nth)
  obtain Q where q: "edit_path bs hs (Suc i, Suc j) (length bs, length hs) Q (suffix_edit_costs bs hs ! Suc i ! Suc j)"
    using suffix_cost_path [of "Suc i" bs "Suc j" hs] assms by auto
  from path_append [OF q edit_path.pair [OF p assms]] show ?thesis
    by (auto simp: full_path_def forced_cost_def)
qed

lemma forced_cost_least:
  assumes "full_path bs hs P c" and "(i, j) \<in> set P"
  shows "forced_cost bs hs i j \<le> c"
proof -
  have p: "edit_path bs hs (0, 0) (length bs, length hs) P c" using assms(1) by (simp add: full_path_def)
  from path_split [OF p assms(2)] obtain P1 P2 c1 c2 where s:
    "edit_path bs hs (0, 0) (i, j) P1 c1" "edit_path bs hs (Suc i, Suc j) (length bs, length hs) P2 c2"
    "c = c1 + line_cost (bs ! i) (hs ! j) + c2" by blast
  have lt: "i < length bs" "j < length hs" using path_pairs [OF p assms(2)] by auto
  have "edit_costs bs hs None ! i ! j \<le> c1"
    using cost_at_lower [OF s(1), of None] lt by (simp add: edit_costs_nth)
  moreover have "suffix_edit_costs bs hs ! Suc i ! Suc j \<le> c2"
    using suffix_cost_least [OF s(2)] lt by simp
  ultimately show ?thesis by (simp add: forced_cost_def s(3))
qed

text \<open>What the two comparisons decide.\<close>

lemma forced_optimal_iff:
  assumes "i < length bs" and "j < length hs"
  shows "forced_cost bs hs i j = global_cost bs hs \<longleftrightarrow> (\<exists>P. optimal bs hs P \<and> (i, j) \<in> set P)"
  unfolding optimal_iff
  by (metis assms forced_cost_path forced_cost_least global_cost_least le_antisym)

lemma forbidden_optimal_iff:
  "global_cost bs hs < forbidden_cost bs hs i j \<longleftrightarrow> (\<forall>P. optimal bs hs P \<longrightarrow> (i, j) \<in> set P)"
  unfolding optimal_iff
  by (metis forbidden_cost_path forbidden_cost_least global_cost_least leD le_less not_less)

lemma optimal_exists: "\<exists>P. optimal bs hs P"
  unfolding optimal_iff by (rule global_cost_path)

section \<open>Properties\<close>

text \<open>The cost table is optimal. Its entry at row \<open>i\<close> and column \<open>j\<close> is the cost of some alignment of the
  first \<open>i\<close> base lines with the first \<open>j\<close> head lines that avoids the forbidden pair, and no alignment that
  avoids it is cheaper; the suffix table gives the same for the remaining lines.\<close>

theorem edit_costs_optimal:
  assumes "i \<le> length bs" and "j \<le> length hs"
  shows "(\<exists>P. edit_path bs hs (0, 0) (i, j) P (edit_costs bs hs fb ! i ! j) \<and> (\<forall>x \<in> set P. fb \<noteq> Some x))
    \<and> (\<forall>P c. edit_path bs hs (0, 0) (i, j) P c \<and> (\<forall>x \<in> set P. fb \<noteq> Some x) \<longrightarrow> edit_costs bs hs fb ! i ! j \<le> c)
    \<and> (\<exists>P. edit_path bs hs (i, j) (length bs, length hs) P (suffix_edit_costs bs hs ! i ! j))
    \<and> (\<forall>P c. edit_path bs hs (i, j) (length bs, length hs) P c \<longrightarrow> suffix_edit_costs bs hs ! i ! j \<le> c)"
  using cost_at_attained [OF assms, of fb] cost_at_lower [of bs hs "(0, 0)" "(i, j)" _ _ fb]
    suffix_cost_path [OF assms] suffix_cost_least [OF _ assms]
  by (auto simp: edit_costs_nth [OF assms])

theorem edit_costs_optimal_witness:
  "\<exists>P. edit_path ''abc'' ''axc'' (0, 0) (3, 3) P 2"
proof -
  have "edit_costs ''abc'' ''axc'' None ! 3 ! 3 = 2" by code_simp
  moreover have "(3::nat) \<le> length ''abc''" "(3::nat) \<le> length ''axc''" by simp_all
  ultimately show ?thesis using edit_costs_optimal [of 3 "''abc''" 3 "''axc''" None] by auto
qed

end
