(* ===== verification/Py_Json.thy ===== *)
theory Py_Json
  imports Py_Float
begin

text \<open>
  Serialisation and number conversion of the standard library: \<open>json.dumps(value, sort_keys=True,
  separators=(",", ":"))\<close> of values whose dictionaries have string keys, and \<open>int(value)\<close>.
\<close>

section \<open>JSON text\<close>

definition json_char :: "char \<Rightarrow> string" where
  "json_char c = (let n = (of_char c :: nat) in
     if n = 34 \<or> n = 92 then [CHR 0x5C, c]
     else if n = 8 then [CHR 0x5C, CHR ''b'']
     else if n = 9 then [CHR 0x5C, CHR ''t'']
     else if n = 10 then [CHR 0x5C, CHR ''n'']
     else if n = 12 then [CHR 0x5C, CHR ''f'']
     else if n = 13 then [CHR 0x5C, CHR ''r'']
     else if n < 32 \<or> 126 < n
       then [CHR 0x5C, CHR ''u'', CHR ''0'', CHR ''0'', hex_digit (n div 16), hex_digit (n mod 16)]
     else [c])"

definition json_str :: "string \<Rightarrow> string" where
  "json_str s = [CHR 0x22] @ concat (map json_char s) @ [CHR 0x22]"

fun json_dumps :: "pyval \<Rightarrow> string" where
  "json_dumps PNone = ''null''"
| "json_dumps (PBool b) = (if b then ''true'' else ''false'')"
| "json_dumps (PInt i) = show_int i"
| "json_dumps (PFloat r) = r"
| "json_dumps (PStr s) = json_str s"
| "json_dumps (PList xs) = ''['' @ py_join '','' (map json_dumps xs) @ '']''"
| "json_dumps (PDict d) =
     ''{'' @ py_join '',''
       (map (\<lambda>(k, v). json_str k @ '':'' @ v)
         (sort_key fst (map (\<lambda>(k, v). (py_str k, json_dumps v)) d))) @ ''}''"

section \<open>Integers from values\<close>

text \<open>\<open>int(x)\<close> of a float given by its \<open>repr\<close>: the float is the double nearest to the printed decimal.\<close>

definition float_trunc :: "string \<Rightarrow> int option" where
  "float_trunc r =
     (let neg = (take 1 r = ''-''); t = (if neg then drop 1 r else r);
          parts = py_split_char (CHR ''e'') t;
          mantissa = py_split_char (CHR ''.'') (hd parts);
          whole = hd mantissa; frac = concat (tl mantissa);
          expo = (case tl parts of [] \<Rightarrow> Some 0 | e # _ \<Rightarrow> py_int e)
      in case (parse_digits 0 False (whole @ frac), expo) of
           (Some d, Some e) \<Rightarrow>
             (let v = \<lfloor>double_round (of_nat d * 10 powi (e - int (length frac)))\<rfloor>
              in Some (if neg then - v else v))
         | _ \<Rightarrow> None)"

fun py_int_of :: "pyval \<Rightarrow> py_error + int" where
  "py_int_of (PInt i) = Inr i"
| "py_int_of (PBool b) = Inr (if b then 1 else 0)"
| "py_int_of (PStr s) = (case py_int s of None \<Rightarrow> Inl (ValueError ''invalid literal for int()'') | Some i \<Rightarrow> Inr i)"
| "py_int_of (PFloat r) =
     (case float_trunc r of
        None \<Rightarrow> Inl (if r = ''nan'' then ValueError ''cannot convert float NaN to integer'' else OverflowError)
      | Some i \<Rightarrow> Inr i)"
| "py_int_of _ = Inl TypeError"

end
