(* ===== verification/Finding_Differential.thy ===== *)
theory Finding_Differential
  imports Line_Correspondence Py_Json
begin

text \<open>
  Differential lifecycle of findings (\<^verbatim>\<open>run/differential.py\<close>): each finding of the head revision is
  introduced, unchanged or of unknown origin with respect to the base revision, and base findings that
  disappeared are fixed or unknown. The two caches of the source are part of the state and are shown to
  be transparent.

  Parameter of the model: \<open>sha\<close> is the hexadecimal SHA-256 of a byte string. Evidence dictionaries are
  records here, \<open>evidence_dict\<close> is the dictionary they stand for.
\<close>

section \<open>Data\<close>

record DifferentialFinding =
  df_analyzer :: string
  df_rule :: string
  df_severity :: string
  df_path :: string
  df_line :: int
  df_message :: string
  df_blocking :: bool

datatype differential_status = DPass | DFail | DUnknown

datatype continuity_kind = CUnchanged | CIntroduced | CUnknown

record FindingClassificationRequest =
  fr_base_findings :: "pydict list"
  fr_head_findings :: "pydict list"
  fr_base_sources :: "(string \<times> string) list"
  fr_head_sources :: "(string \<times> string) list"
  fr_base_analysis_status :: string
  fr_rename_facts :: "(string \<times> string) list option"
  fr_rename_ambiguities :: "(string \<times> string list) list option"
  fr_deleted_paths :: "string list"
  fr_added_paths :: "string list"
  fr_source_size_override :: "int option"

record correspondence_caches =
  cc_matrices :: "((string \<times> string) \<times> (nat list list \<times> nat list list)) list"
  cc_forbidden :: "((string \<times> string \<times> nat \<times> nat) \<times> nat) list"

record ContinuityContext =
  cx_base_lines :: "string list"
  cx_head_lines :: "string list"
  cx_base_index :: int
  cx_head_index :: int
  cx_cells :: nat

record cost_evidence =
  co_global :: nat
  co_forced :: nat
  co_forbidden :: nat
  co_pair :: nat

record anchor_evidence =
  an_base_digest :: string
  an_head_digest :: string
  an_base_count :: nat
  an_head_count :: nat

record continuity_evidence =
  ce_base_line :: int
  ce_head_line :: int
  ce_cells :: "nat option"
  ce_costs :: "cost_evidence option"
  ce_anchors :: "anchor_evidence option"
  ce_reason :: "string option"
  ce_decision :: "string option"

record pair_evidence =
  pe_continuity :: continuity_evidence
  pe_identity :: "string \<times> string \<times> string \<times> string"
  pe_base_path :: string
  pe_head_path :: string

record ClassificationState =
  st_introduced :: "DifferentialFinding list"
  st_fixed :: "DifferentialFinding list"
  st_unchanged :: "DifferentialFinding list"
  st_unknown :: "DifferentialFinding list"
  st_evidence :: "pair_evidence list"
  st_caches :: correspondence_caches

record DifferentialClassification =
  dc_status :: differential_status
  dc_introduced :: "DifferentialFinding list"
  dc_fixed :: "DifferentialFinding list"
  dc_unchanged :: "DifferentialFinding list"
  dc_unknown :: "DifferentialFinding list"
  dc_evidence_digest :: string
  dc_reason :: string
  dc_correspondence_evidence :: "pair_evidence list"

section \<open>Findings and sources\<close>

definition finding_of :: "pydict \<Rightarrow> py_error + DifferentialFinding" where
  "finding_of value =
     (let txt = (\<lambda>k. py_str (dget_or value k (PStr [])))
      in map_sum id (\<lambda>line.
           \<lparr>df_analyzer = txt ''analyzer'', df_rule = txt ''rule'', df_severity = txt ''severity'',
            df_path = txt ''path'', df_line = line,
            df_message = py_join '' '' (py_words (txt ''message'')),
            df_blocking = py_truthy (dget_or value ''blocking'' (PBool False))\<rparr>)
         (py_int_of (dget_or value ''line'' (PInt 1))))"

fun findings_of :: "pydict list \<Rightarrow> py_error + DifferentialFinding list" where
  "findings_of [] = Inr []"
| "findings_of (v # vs) =
     (case finding_of v of
        Inl e \<Rightarrow> Inl e
      | Inr f \<Rightarrow> map_sum id (\<lambda>fs. f # fs) (findings_of vs))"

definition source_for :: "string \<Rightarrow> (string \<times> string) list \<Rightarrow> string option" where
  "source_for path sources =
     (case map_of sources path of
        Some s \<Rightarrow> Some s
      | None \<Rightarrow> (case sources of [(_, s)] \<Rightarrow> Some s | _ \<Rightarrow> None))"

definition MAX_SOURCE_BYTES :: int where
  "MAX_SOURCE_BYTES = 16 * 1024 * 1024"

definition MAX_SOURCE_LINES :: int where
  "MAX_SOURCE_LINES = 20000"

definition MAX_CORRESPONDENCE_CELLS :: int where
  "MAX_CORRESPONDENCE_CELLS = 4000000"

section \<open>Continuity of one pair\<close>

definition continuity_within_bounds ::
  "string \<Rightarrow> string \<Rightarrow> string list \<Rightarrow> string list \<Rightarrow> nat \<Rightarrow> bool" where
  "continuity_within_bounds base_source head_source base_lines head_lines cells =
     (int (max (length base_source) (length head_source)) \<le> MAX_SOURCE_BYTES
      \<and> int (max (length base_lines) (length head_lines)) \<le> MAX_SOURCE_LINES
      \<and> int cells \<le> MAX_CORRESPONDENCE_CELLS)"

definition continuity_anchor_is_valid :: "ContinuityContext \<Rightarrow> bool" where
  "continuity_anchor_is_valid x =
     (0 \<le> cx_base_index x \<and> cx_base_index x < int (length (cx_base_lines x))
      \<and> 0 \<le> cx_head_index x \<and> cx_head_index x < int (length (cx_head_lines x)))"

text \<open>The context, or the cells and the reason why there is none.\<close>

definition continuity_context ::
  "DifferentialFinding \<Rightarrow> DifferentialFinding \<Rightarrow> string option \<Rightarrow> string option
   \<Rightarrow> (nat option \<times> string) + ContinuityContext" where
  "continuity_context base head base_source head_source =
     (case (base_source, head_source) of
        (Some bs, Some hs) \<Rightarrow>
          (let bl = physical_lines bs; hl = physical_lines hs;
               cells = (length bl + 1) * (length hl + 1)
           in if \<not> continuity_within_bounds bs hs bl hl cells
                then Inl (Some cells, ''correspondence_bounds'')
              else (let x = \<lparr>cx_base_lines = bl, cx_head_lines = hl, cx_base_index = df_line base - 1,
                             cx_head_index = df_line head - 1, cx_cells = cells\<rparr>
                    in if \<not> continuity_anchor_is_valid x then Inl (Some cells, ''invalid_source_anchor'')
                       else Inr x))
      | _ \<Rightarrow> Inl (None, ''missing_source''))"

definition continuity_cost_evidence ::
  "ContinuityContext \<Rightarrow> string \<times> string \<Rightarrow> correspondence_caches \<Rightarrow> cost_evidence \<times> correspondence_caches" where
  "continuity_cost_evidence x source_key c =
     (let bl = cx_base_lines x; hl = cx_head_lines x;
          i = nat (cx_base_index x); j = nat (cx_head_index x);
          (matrices, ms) = memo_get source_key (edit_costs bl hl None, suffix_edit_costs bl hl) (cc_matrices c);
          (forward, suffix) = matrices;
          pair_cost = line_cost (bl ! i) (hl ! j);
          (forbidden, fs) = memo_get (fst source_key, snd source_key, i, j)
             (last (last (edit_costs bl hl (Some (i, j))))) (cc_forbidden c)
      in (\<lparr>co_global = last (last forward),
           co_forced = forward ! i ! j + pair_cost + suffix ! Suc i ! Suc j,
           co_forbidden = forbidden,
           co_pair = pair_cost\<rparr>,
          c\<lparr>cc_matrices := ms, cc_forbidden := fs\<rparr>))"

definition line_anchor :: "string list \<Rightarrow> nat \<Rightarrow> string \<times> string \<times> string" where
  "line_anchor ls i =
     (if i > 0 then ls ! (i - 1) else ''<BOF>'', ls ! i, if i + 1 < length ls then ls ! (i + 1) else ''<EOF>'')"

definition anchor_digest :: "(string \<Rightarrow> string) \<Rightarrow> string \<times> string \<times> string \<Rightarrow> string" where
  "anchor_digest sha anchor =
     (case anchor of (a, b, c) \<Rightarrow> ''sha256:'' @ sha (a @ [CHR 0x00] @ b @ [CHR 0x00] @ c))"

definition continuity_anchor_evidence :: "(string \<Rightarrow> string) \<Rightarrow> ContinuityContext \<Rightarrow> anchor_evidence" where
  "continuity_anchor_evidence sha x =
     (let bl = cx_base_lines x; hl = cx_head_lines x;
          i = nat (cx_base_index x); j = nat (cx_head_index x)
      in \<lparr>an_base_digest = anchor_digest sha (line_anchor bl i),
          an_head_digest = anchor_digest sha (line_anchor hl j),
          an_base_count = count_list bl (bl ! i),
          an_head_count = count_list hl (hl ! j)\<rparr>)"

definition continuity_decision ::
  "ContinuityContext \<Rightarrow> cost_evidence \<Rightarrow> anchor_evidence \<Rightarrow> continuity_kind \<times> string" where
  "continuity_decision x co an =
     (let ba = line_anchor (cx_base_lines x) (nat (cx_base_index x));
          ha = line_anchor (cx_head_lines x) (nat (cx_head_index x))
      in if an_base_count an \<noteq> 1 \<or> an_head_count an \<noteq> 1 then (CUnknown, ''ambiguous_source_anchor'')
         else if ba \<noteq> ha then (CIntroduced, ''occurrence_anchor_changed'')
         else if co_pair co = 0 \<and> co_forced co = co_global co \<and> co_forbidden co > co_global co
           then (CUnchanged, ''unique_optimal_match'')
         else if co_forced co > co_global co \<or> co_pair co \<noteq> 0
           then (CIntroduced, ''not_on_optimal_correspondence'')
         else (CUnknown, ''alternate_optimal_correspondence''))"

definition continuity ::
  "(string \<Rightarrow> string) \<Rightarrow> DifferentialFinding \<Rightarrow> DifferentialFinding \<Rightarrow> string option \<Rightarrow> string option
   \<Rightarrow> correspondence_caches \<Rightarrow> (continuity_kind \<times> continuity_evidence) \<times> correspondence_caches" where
  "continuity sha base head base_source head_source c =
     (case continuity_context base head base_source head_source of
        Inl (cells, reason) \<Rightarrow>
          ((CUnknown, \<lparr>ce_base_line = df_line base, ce_head_line = df_line head, ce_cells = cells,
              ce_costs = None, ce_anchors = None, ce_reason = Some reason, ce_decision = None\<rparr>), c)
      | Inr x \<Rightarrow>
          (let (co, c1) = continuity_cost_evidence x (the base_source, the head_source) c;
               an = continuity_anchor_evidence sha x;
               (kind, decision) = continuity_decision x co an
           in ((kind, \<lparr>ce_base_line = df_line base, ce_head_line = df_line head,
                  ce_cells = Some (cx_cells x), ce_costs = Some co, ce_anchors = Some an,
                  ce_reason = None, ce_decision = Some decision\<rparr>), c1)))"

section \<open>Evidence digests\<close>

definition opt_entry :: "string \<Rightarrow> pyval option \<Rightarrow> pydict" where
  "opt_entry k v = (case v of None \<Rightarrow> [] | Some x \<Rightarrow> [(PStr k, x)])"

definition pint :: "nat \<Rightarrow> pyval" where
  "pint n = PInt (int n)"

definition evidence_dict :: "pair_evidence \<Rightarrow> pyval" where
  "evidence_dict e =
     (let c = pe_continuity e; (a, r, q, m) = pe_identity e
      in PDict ([(PStr ''algorithm'', PStr ''source-line-correspondence-v1''),
                 (PStr ''base_line'', PInt (ce_base_line c)), (PStr ''head_line'', PInt (ce_head_line c)),
                 (PStr ''bounds'', PDict
                    [(PStr ''max_source_bytes'', PInt MAX_SOURCE_BYTES),
                     (PStr ''max_source_lines'', PInt MAX_SOURCE_LINES),
                     (PStr ''max_cells'', PInt MAX_CORRESPONDENCE_CELLS)])]
           @ opt_entry ''cells'' (map_option pint (ce_cells c))
           @ (case ce_costs c of None \<Rightarrow> [] | Some co \<Rightarrow>
                [(PStr ''global_cost'', pint (co_global co)), (PStr ''forced_cost'', pint (co_forced co)),
                 (PStr ''forbidden_cost'', pint (co_forbidden co)), (PStr ''pair_cost'', pint (co_pair co))])
           @ (case ce_anchors c of None \<Rightarrow> [] | Some an \<Rightarrow>
                [(PStr ''base_anchor_digest'', PStr (an_base_digest an)),
                 (PStr ''head_anchor_digest'', PStr (an_head_digest an)),
                 (PStr ''base_distinct_location_count'', pint (an_base_count an)),
                 (PStr ''head_distinct_location_count'', pint (an_head_count an))])
           @ opt_entry ''reason'' (map_option PStr (ce_reason c))
           @ opt_entry ''decision'' (map_option PStr (ce_decision c))
           @ [(PStr ''identity'', PList [PStr a, PStr r, PStr q, PStr m]),
              (PStr ''base_path'', PStr (pe_base_path e)), (PStr ''head_path'', PStr (pe_head_path e))]))"

definition finding_dict :: "DifferentialFinding \<Rightarrow> pyval" where
  "finding_dict f = PDict
     [(PStr ''analyzer'', PStr (df_analyzer f)), (PStr ''rule'', PStr (df_rule f)),
      (PStr ''severity'', PStr (df_severity f)), (PStr ''path'', PStr (df_path f)),
      (PStr ''line'', PInt (df_line f)), (PStr ''message'', PStr (df_message f)),
      (PStr ''blocking'', PBool (df_blocking f))]"

definition classification_digest :: "(string \<Rightarrow> string) \<Rightarrow> ClassificationState \<Rightarrow> string" where
  "classification_digest sha st =
     ''sha256:'' @ sha (json_dumps (PDict
       [(PStr ''fixed'', PList (map finding_dict (st_fixed st))),
        (PStr ''introduced'', PList (map finding_dict (st_introduced st))),
        (PStr ''unchanged'', PList (map finding_dict (st_unchanged st))),
        (PStr ''unknown'', PList (map finding_dict (st_unknown st))),
        (PStr ''correspondence_evidence'', PList (map evidence_dict (st_evidence st)))]))"

section \<open>Classification\<close>

type_synonym finding_identity = "string \<times> string \<times> string \<times> string"

definition empty_caches :: correspondence_caches where
  "empty_caches = \<lparr>cc_matrices = [], cc_forbidden = []\<rparr>"

definition initial_state :: ClassificationState where
  "initial_state = \<lparr>st_introduced = [], st_fixed = [], st_unchanged = [], st_unknown = [],
     st_evidence = [], st_caches = empty_caches\<rparr>"

definition classification_with_reason ::
  "(string \<Rightarrow> string) \<Rightarrow> ClassificationState \<Rightarrow> string \<Rightarrow> DifferentialClassification" where
  "classification_with_reason sha st reason =
     \<lparr>dc_status = DUnknown, dc_introduced = [], dc_fixed = [], dc_unchanged = [],
      dc_unknown = st_unknown st, dc_evidence_digest = classification_digest sha st,
      dc_reason = reason, dc_correspondence_evidence = []\<rparr>"

definition early_classification ::
  "(string \<Rightarrow> string) \<Rightarrow> FindingClassificationRequest \<Rightarrow> DifferentialFinding list \<Rightarrow> DifferentialFinding list
   \<Rightarrow> ClassificationState \<Rightarrow> DifferentialClassification option" where
  "early_classification sha req base_values head_values st =
     (if fr_base_analysis_status req \<noteq> ''pass''
        then Some (classification_with_reason sha st ''baseline_analysis_error'')
      else (let oversized = (case fr_source_size_override req of
                               None \<Rightarrow> False | Some n \<Rightarrow> n > MAX_SOURCE_BYTES);
                ambiguous = (case fr_rename_ambiguities req of None \<Rightarrow> False | Some d \<Rightarrow> d \<noteq> [])
            in if ambiguous \<or> oversized
               then Some (classification_with_reason sha
                      (st\<lparr>st_unknown := st_unknown st @ (if head_values \<noteq> [] then head_values else base_values)\<rparr>)
                      ''continuity_unavailable'')
               else None))"

definition identity_of :: "DifferentialFinding \<Rightarrow> string \<Rightarrow> finding_identity" where
  "identity_of f normalized_path = (df_analyzer f, df_rule f, normalized_path, df_message f)"

text \<open>\<open>request.rename_facts or {}\<close>, and the head path a finding is filed under.\<close>

definition renames_of :: "FindingClassificationRequest \<Rightarrow> (string \<times> string) list" where
  "renames_of req = (case fr_rename_facts req of None \<Rightarrow> [] | Some d \<Rightarrow> d)"

definition base_identity :: "DifferentialFinding \<Rightarrow> finding_identity" where
  "base_identity f = identity_of f (df_path f)"

definition head_identity :: "(string \<times> string) list \<Rightarrow> DifferentialFinding \<Rightarrow> finding_identity" where
  "head_identity renames f =
     (let reverse_renames = dict_of (map (\<lambda>(old, new). (new, old)) renames)
      in identity_of f (case map_of reverse_renames (df_path f) of None \<Rightarrow> df_path f | Some old \<Rightarrow> old))"

definition finding_buckets ::
  "DifferentialFinding list \<Rightarrow> DifferentialFinding list \<Rightarrow> (string \<times> string) list
   \<Rightarrow> (finding_identity \<times> DifferentialFinding list) list \<times> (finding_identity \<times> DifferentialFinding list) list" where
  "finding_buckets base_values head_values renames =
     (foldl (\<lambda>d f. dict_push d (base_identity f) f) [] base_values,
      foldl (\<lambda>d f. dict_push d (head_identity renames f) f) [] head_values)"

definition severity_key :: "DifferentialFinding \<Rightarrow> string \<times> bool" where
  "severity_key f = (df_severity f, df_blocking f)"

definition severity_multiset_changed :: "DifferentialFinding list \<Rightarrow> DifferentialFinding list \<Rightarrow> bool" where
  "severity_multiset_changed base_bucket head_bucket =
     (if base_bucket = [] \<or> head_bucket = [] then False
      else set (map severity_key base_bucket) \<noteq> set (map severity_key head_bucket))"

definition pairing_sort_key ::
  "DifferentialFinding \<Rightarrow> string \<times> string \<times> string \<times> int \<times> string \<times> string \<times> bool" where
  "pairing_sort_key f =
     (df_analyzer f, df_rule f, df_path f, df_line f, df_message f, df_severity f, df_blocking f)"

definition request_continuity ::
  "(string \<Rightarrow> string) \<Rightarrow> FindingClassificationRequest \<Rightarrow> DifferentialFinding \<Rightarrow> DifferentialFinding
   \<Rightarrow> correspondence_caches \<Rightarrow> (continuity_kind \<times> continuity_evidence) \<times> correspondence_caches" where
  "request_continuity sha req b h c =
     continuity sha b h (source_for (df_path b) (fr_base_sources req)) (source_for (df_path h) (fr_head_sources req)) c"

text \<open>The list comprehension over the remaining base findings.\<close>

fun continuity_candidates ::
  "(string \<Rightarrow> string) \<Rightarrow> FindingClassificationRequest \<Rightarrow> DifferentialFinding \<Rightarrow> DifferentialFinding list
   \<Rightarrow> correspondence_caches \<Rightarrow> DifferentialFinding list \<times> correspondence_caches" where
  "continuity_candidates sha req h [] c = ([], c)"
| "continuity_candidates sha req h (b # bs) c =
     (let (res, c1) = request_continuity sha req b h c;
          (rest, c2) = continuity_candidates sha req h bs c1
      in (if fst res = CUnchanged then b # rest else rest, c2))"

fun unique_pairs ::
  "(string \<Rightarrow> string) \<Rightarrow> FindingClassificationRequest \<Rightarrow> DifferentialFinding list
   \<Rightarrow> DifferentialFinding list \<Rightarrow> DifferentialFinding list \<Rightarrow> correspondence_caches
   \<Rightarrow> (DifferentialFinding \<times> DifferentialFinding) list \<times> DifferentialFinding list
        \<times> DifferentialFinding list \<times> correspondence_caches" where
  "unique_pairs sha req [] rb rh c = ([], rb, rh, c)"
| "unique_pairs sha req (h # hs) rb rh c =
     (case continuity_candidates sha req h rb c of
        ([b], c1) \<Rightarrow>
          (let (ps, rb', rh', c2) = unique_pairs sha req hs (remove1 b rb) (remove1 h rh) c1
           in ((b, h) # ps, rb', rh', c2))
      | (_, c1) \<Rightarrow> unique_pairs sha req hs rb rh c1)"

definition continuity_compatible_pairs ::
  "(string \<Rightarrow> string) \<Rightarrow> FindingClassificationRequest \<Rightarrow> DifferentialFinding list
   \<Rightarrow> DifferentialFinding list \<Rightarrow> correspondence_caches
   \<Rightarrow> (DifferentialFinding \<times> DifferentialFinding) list \<times> DifferentialFinding list
        \<times> DifferentialFinding list \<times> correspondence_caches" where
  "continuity_compatible_pairs sha req base_partition head_partition c =
     (let rb0 = sort_key pairing_sort_key base_partition; rh0 = sort_key pairing_sort_key head_partition;
          (pairs, rb, rh, c1) = unique_pairs sha req rh0 rb0 rh0 c;
          n = min (length rb) (length rh)
      in (pairs @ zip (take n rb) (take n rh), drop n rb, drop n rh, c1))"

definition classify_pair ::
  "(string \<Rightarrow> string) \<Rightarrow> FindingClassificationRequest \<Rightarrow> finding_identity
   \<Rightarrow> DifferentialFinding \<times> DifferentialFinding \<Rightarrow> ClassificationState \<Rightarrow> ClassificationState" where
  "classify_pair sha req idn bh st =
     (let (b, h) = bh; ((kind, ev), c1) = request_continuity sha req b h (st_caches st);
          st1 = st\<lparr>st_evidence := st_evidence st @
                    [\<lparr>pe_continuity = ev, pe_identity = idn, pe_base_path = df_path b, pe_head_path = df_path h\<rparr>],
                   st_caches := c1\<rparr>
      in case kind of
           CUnchanged \<Rightarrow> st1\<lparr>st_unchanged := st_unchanged st1 @ [h]\<rparr>
         | CIntroduced \<Rightarrow> st1\<lparr>st_introduced := st_introduced st1 @ [h]\<rparr>
         | CUnknown \<Rightarrow> st1\<lparr>st_unknown := st_unknown st1 @ [h]\<rparr>)"

definition classify_removed_base ::
  "FindingClassificationRequest \<Rightarrow> DifferentialFinding \<Rightarrow> ClassificationState \<Rightarrow> ClassificationState" where
  "classify_removed_base req b st =
     (if df_path b \<in> set (map fst (renames_of req))
         \<or> (df_path b \<in> set (fr_deleted_paths req) \<and> fr_added_paths req \<noteq> [])
      then st\<lparr>st_unknown := st_unknown st @ [b]\<rparr>
      else st\<lparr>st_fixed := st_fixed st @ [b]\<rparr>)"

definition classify_partition ::
  "(string \<Rightarrow> string) \<Rightarrow> FindingClassificationRequest \<Rightarrow> finding_identity
   \<Rightarrow> DifferentialFinding list \<Rightarrow> DifferentialFinding list \<Rightarrow> ClassificationState \<Rightarrow> ClassificationState" where
  "classify_partition sha req idn bp hp st =
     (let (pairs, rb, rh, c1) = continuity_compatible_pairs sha req bp hp (st_caches st);
          st1 = fold (classify_pair sha req idn) pairs (st\<lparr>st_caches := c1\<rparr>);
          st2 = fold (classify_removed_base req) rb st1
      in st2\<lparr>st_introduced := st_introduced st2 @ rh\<rparr>)"

definition classify_identity ::
  "(string \<Rightarrow> string) \<Rightarrow> FindingClassificationRequest
   \<Rightarrow> (finding_identity \<times> DifferentialFinding list) list \<Rightarrow> (finding_identity \<times> DifferentialFinding list) list
   \<Rightarrow> finding_identity \<Rightarrow> ClassificationState \<Rightarrow> ClassificationState" where
  "classify_identity sha req base_buckets head_buckets idn st =
     (let bb = dict_list base_buckets idn; hb = dict_list head_buckets idn;
          partitions = sorted_list_of_set (set (map severity_key (bb @ hb)))
      in if severity_multiset_changed bb hb
           then st\<lparr>st_unknown := st_unknown st @ (if hb \<noteq> [] then hb else bb)\<rparr>
         else fold (\<lambda>key. classify_partition sha req idn
                      (filter (\<lambda>f. severity_key f = key) bb) (filter (\<lambda>f. severity_key f = key) hb))
                partitions st)"

definition final_classification :: "(string \<Rightarrow> string) \<Rightarrow> ClassificationState \<Rightarrow> DifferentialClassification" where
  "final_classification sha st0 =
     (let st = st0\<lparr>st_evidence := sort_key (\<lambda>e. json_dumps (evidence_dict e)) (st_evidence st0)\<rparr>
      in \<lparr>dc_status = (if st_unknown st \<noteq> [] then DUnknown
                       else if \<exists>f \<in> set (st_introduced st @ st_unchanged st). df_blocking f then DFail
                       else DPass),
          dc_introduced = st_introduced st, dc_fixed = st_fixed st, dc_unchanged = st_unchanged st,
          dc_unknown = st_unknown st, dc_evidence_digest = classification_digest sha st,
          dc_reason = [], dc_correspondence_evidence = st_evidence st\<rparr>)"

definition classify_values ::
  "(string \<Rightarrow> string) \<Rightarrow> FindingClassificationRequest \<Rightarrow> DifferentialFinding list \<Rightarrow> DifferentialFinding list
   \<Rightarrow> DifferentialClassification" where
  "classify_values sha req base_values head_values =
     (case early_classification sha req base_values head_values initial_state of
        Some r \<Rightarrow> r
      | None \<Rightarrow>
          (let (bbs, hbs) = finding_buckets base_values head_values (renames_of req)
           in final_classification sha
                (fold (classify_identity sha req bbs hbs)
                   (sorted_list_of_set (set (map fst bbs) \<union> set (map fst hbs))) initial_state)))"

definition classify_findings ::
  "(string \<Rightarrow> string) \<Rightarrow> FindingClassificationRequest \<Rightarrow> py_error + DifferentialClassification" where
  "classify_findings sha req =
     (case findings_of (fr_base_findings req) of
        Inl e \<Rightarrow> Inl e
      | Inr bs \<Rightarrow> map_sum id (classify_values sha req bs) (findings_of (fr_head_findings req)))"

section \<open>Exact renames\<close>

record ExactRenameFacts =
  er_pairs :: "(string \<times> string) list"
  er_ambiguities :: "string list"

definition paths_by_blob :: "(string \<times> string) list \<Rightarrow> (string \<times> string list) list" where
  "paths_by_blob d = foldl (\<lambda>acc (path, blob). dict_push acc blob path) [] d"

definition rename_step ::
  "(string \<times> string list) list \<Rightarrow> (string \<times> string list) list \<Rightarrow> string
   \<Rightarrow> (string \<times> string) list \<times> string list \<Rightarrow> (string \<times> string) list \<times> string list" where
  "rename_step deleted_by_blob added_by_blob blob acc =
     (case (sort (dict_list deleted_by_blob blob), sort (dict_list added_by_blob blob)) of
        ([old], [new]) \<Rightarrow> (fst acc @ [(old, new)], snd acc)
      | _ \<Rightarrow> (fst acc, snd acc @ [blob]))"

definition canonical_exact_renames ::
  "(string \<times> string) list \<Rightarrow> (string \<times> string) list \<Rightarrow> ExactRenameFacts" where
  "canonical_exact_renames deleted added =
     (let deleted_by_blob = paths_by_blob deleted; added_by_blob = paths_by_blob added;
          (pairs, ambiguities) = fold (rename_step deleted_by_blob added_by_blob)
             (sorted_list_of_set (set (map fst deleted_by_blob) \<inter> set (map fst added_by_blob))) ([], [])
      in \<lparr>er_pairs = pairs, er_ambiguities = ambiguities\<rparr>)"

section \<open>The caches are transparent\<close>

definition matrices_of :: "string \<times> string \<Rightarrow> nat list list \<times> nat list list" where
  "matrices_of key =
     (edit_costs (physical_lines (fst key)) (physical_lines (snd key)) None,
      suffix_edit_costs (physical_lines (fst key)) (physical_lines (snd key)))"

definition forbidden_of :: "string \<times> string \<times> nat \<times> nat \<Rightarrow> nat" where
  "forbidden_of key = (case key of (b, h, i, j) \<Rightarrow> forbidden_cost (physical_lines b) (physical_lines h) i j)"

definition caches_ok :: "correspondence_caches \<Rightarrow> bool" where
  "caches_ok c = (memo_ok matrices_of (cc_matrices c) \<and> memo_ok forbidden_of (cc_forbidden c))"

lemma empty_caches_ok [simp]: "caches_ok empty_caches"
  by (simp add: caches_ok_def empty_caches_def)

text \<open>A valid context and the costs it determines.\<close>

lemma continuity_context_Inr:
  assumes "continuity_context b h bs hs = Inr x"
  obtains bsrc hsrc i j where "bs = Some bsrc" "hs = Some hsrc"
    "cx_base_lines x = physical_lines bsrc" "cx_head_lines x = physical_lines hsrc"
    "cx_base_index x = int i" "cx_head_index x = int j" "df_line b = int (Suc i)" "df_line h = int (Suc j)"
    "i < length (physical_lines bsrc)" "j < length (physical_lines hsrc)"
proof -
  obtain bsrc hsrc where s: "bs = Some bsrc" "hs = Some hsrc"
    using assms by (auto simp: continuity_context_def split: option.splits)
  have x: "cx_base_lines x = physical_lines bsrc" "cx_head_lines x = physical_lines hsrc"
    "cx_base_index x = df_line b - 1" "cx_head_index x = df_line h - 1" "continuity_anchor_is_valid x"
    using assms by (auto simp: s continuity_context_def Let_def split: if_splits)
  then have "df_line b = int (Suc (nat (df_line b - 1)))" "df_line h = int (Suc (nat (df_line h - 1)))"
    "nat (df_line b - 1) < length (physical_lines bsrc)" "nat (df_line h - 1) < length (physical_lines hsrc)"
    by (auto simp: continuity_anchor_is_valid_def nat_less_iff)
  with s x show thesis by (intro that [of bsrc hsrc "nat (df_line b - 1)" "nat (df_line h - 1)"]) auto
qed

lemma cost_evidence_cached:
  assumes "continuity_context b h bs hs = Inr x" and "caches_ok c"
  shows "fst (continuity_cost_evidence x (the bs, the hs) c) =
      \<lparr>co_global = global_cost (cx_base_lines x) (cx_head_lines x),
       co_forced = forced_cost (cx_base_lines x) (cx_head_lines x) (nat (cx_base_index x)) (nat (cx_head_index x)),
       co_forbidden = forbidden_cost (cx_base_lines x) (cx_head_lines x) (nat (cx_base_index x)) (nat (cx_head_index x)),
       co_pair = line_cost (cx_base_lines x ! nat (cx_base_index x)) (cx_head_lines x ! nat (cx_head_index x))\<rparr>
    \<and> caches_ok (snd (continuity_cost_evidence x (the bs, the hs) c))"
  using assms(1)
proof (rule continuity_context_Inr)
  fix bsrc hsrc i j
  assume s: "bs = Some bsrc" "hs = Some hsrc" "cx_base_lines x = physical_lines bsrc"
    "cx_head_lines x = physical_lines hsrc"
  have m: "(edit_costs (physical_lines bsrc) (physical_lines hsrc) None,
      suffix_edit_costs (physical_lines bsrc) (physical_lines hsrc)) = matrices_of (bsrc, hsrc)"
    by (simp add: matrices_of_def)
  have f: "last (last (edit_costs (physical_lines bsrc) (physical_lines hsrc) (Some (i, j)))) = forbidden_of (bsrc, hsrc, i, j)"
    for i j by (simp add: forbidden_of_def forbidden_cost_def)
  have mo: "memo_ok matrices_of (cc_matrices c)" and fo: "memo_ok forbidden_of (cc_forbidden c)"
    using assms(2) by (simp_all add: caches_ok_def)
  have "fst (continuity_cost_evidence x (the bs, the hs) c) =
      \<lparr>co_global = last (last (fst (matrices_of (bsrc, hsrc)))),
       co_forced = fst (matrices_of (bsrc, hsrc)) ! nat (cx_base_index x) ! nat (cx_head_index x)
          + line_cost (physical_lines bsrc ! nat (cx_base_index x)) (physical_lines hsrc ! nat (cx_head_index x))
          + snd (matrices_of (bsrc, hsrc)) ! Suc (nat (cx_base_index x)) ! Suc (nat (cx_head_index x)),
       co_forbidden = forbidden_of (bsrc, hsrc, nat (cx_base_index x), nat (cx_head_index x)),
       co_pair = line_cost (physical_lines bsrc ! nat (cx_base_index x)) (physical_lines hsrc ! nat (cx_head_index x))\<rparr>"
    using memo_get_value [OF mo] memo_get_value [OF fo]
    by (simp add: continuity_cost_evidence_def Let_def s m f split_beta)
  moreover have "caches_ok (snd (continuity_cost_evidence x (the bs, the hs) c))"
    using memo_get_ok [OF mo] memo_get_ok [OF fo]
    by (simp add: continuity_cost_evidence_def Let_def s m f split_beta caches_ok_def)
  ultimately show ?thesis
    by (simp add: s matrices_of_def global_cost_def forced_cost_def forbidden_of_def)
qed

lemma continuity_cached:
  assumes "caches_ok c"
  shows "fst (continuity sha b h bs hs c) = fst (continuity sha b h bs hs empty_caches)
    \<and> caches_ok (snd (continuity sha b h bs hs c))"
proof (cases "continuity_context b h bs hs")
  case (Inl r)
  with assms show ?thesis by (cases r) (simp add: continuity_def)
next
  case (Inr x)
  from cost_evidence_cached [OF Inr assms] cost_evidence_cached [OF Inr empty_caches_ok] show ?thesis
    by (simp add: continuity_def Inr Let_def split_beta)
qed

text \<open>What continuity establishes, with no reference to tables or caches.\<close>

definition same_location :: "string \<Rightarrow> string \<Rightarrow> nat \<Rightarrow> nat \<Rightarrow> bool" where
  "same_location bsrc hsrc i j =
     (let bl = physical_lines bsrc; hl = physical_lines hsrc
      in i < length bl \<and> j < length hl
         \<and> count_list bl (bl ! i) = 1 \<and> count_list hl (hl ! j) = 1
         \<and> line_anchor bl i = line_anchor hl j
         \<and> (\<forall>P. optimal bl hl P \<longrightarrow> (i, j) \<in> set P))"

lemma line_anchor_line: "line_anchor bl i = line_anchor hl j \<Longrightarrow> bl ! i = hl ! j"
  by (simp add: line_anchor_def)

lemma unchanged_iff:
  "fst (fst (continuity sha b h bs hs empty_caches)) = CUnchanged \<longleftrightarrow>
     (\<exists>bsrc hsrc i j. bs = Some bsrc \<and> hs = Some hsrc \<and> df_line b = int (Suc i) \<and> df_line h = int (Suc j)
        \<and> continuity_within_bounds bsrc hsrc (physical_lines bsrc) (physical_lines hsrc)
            ((length (physical_lines bsrc) + 1) * (length (physical_lines hsrc) + 1))
        \<and> same_location bsrc hsrc i j)" (is "?L \<longleftrightarrow> ?R")
proof (cases "continuity_context b h bs hs")
  case (Inl r)
  have "\<not> ?R"
  proof
    assume ?R
    then obtain bsrc hsrc i j where s: "bs = Some bsrc" "hs = Some hsrc" "df_line b = int (Suc i)" "df_line h = int (Suc j)"
      "continuity_within_bounds bsrc hsrc (physical_lines bsrc) (physical_lines hsrc)
            ((length (physical_lines bsrc) + 1) * (length (physical_lines hsrc) + 1))" "same_location bsrc hsrc i j" by blast
    with Inl show False
      by (simp add: continuity_context_def Let_def continuity_anchor_is_valid_def same_location_def)
  qed
  with Inl show ?thesis by (cases r) (simp add: continuity_def)
next
  case (Inr x)
  from Inr show ?thesis
  proof (rule continuity_context_Inr)
    fix bsrc hsrc i j
    assume s: "bs = Some bsrc" "hs = Some hsrc" "cx_base_lines x = physical_lines bsrc"
      "cx_head_lines x = physical_lines hsrc" "cx_base_index x = int i" "cx_head_index x = int j"
      "df_line b = int (Suc i)" "df_line h = int (Suc j)"
      "i < length (physical_lines bsrc)" "j < length (physical_lines hsrc)"
    let ?bl = "physical_lines bsrc" and ?hl = "physical_lines hsrc"
    have bounds: "continuity_within_bounds bsrc hsrc ?bl ?hl ((length ?bl + 1) * (length ?hl + 1))"
      using Inr by (auto simp: s(1,2) continuity_context_def Let_def split: if_splits)
    have kind: "fst (fst (continuity sha b h bs hs empty_caches)) =
       fst (continuity_decision x \<lparr>co_global = global_cost ?bl ?hl, co_forced = forced_cost ?bl ?hl i j,
         co_forbidden = forbidden_cost ?bl ?hl i j, co_pair = line_cost (?bl ! i) (?hl ! j)\<rparr>
         (continuity_anchor_evidence sha x))"
      using cost_evidence_cached [OF Inr empty_caches_ok]
      by (simp add: continuity_def Inr [unfolded s(1,2)] Let_def split_beta s)
    have forced: "forced_cost ?bl ?hl i j = global_cost ?bl ?hl"
      if "\<forall>P. optimal ?bl ?hl P \<longrightarrow> (i, j) \<in> set P"
      using that optimal_exists [of ?bl ?hl] forced_optimal_iff [OF s(9,10)] by blast
    have "?L \<longleftrightarrow> count_list ?bl (?bl ! i) = 1 \<and> count_list ?hl (?hl ! j) = 1
        \<and> line_anchor ?bl i = line_anchor ?hl j \<and> line_cost (?bl ! i) (?hl ! j) = 0
        \<and> forced_cost ?bl ?hl i j = global_cost ?bl ?hl \<and> global_cost ?bl ?hl < forbidden_cost ?bl ?hl i j"
      unfolding kind by (simp add: continuity_decision_def continuity_anchor_evidence_def Let_def s) blast
    also have "\<dots> \<longleftrightarrow> same_location bsrc hsrc i j"
      using s(9,10) forced line_anchor_line [of ?bl i ?hl j]
      unfolding same_location_def Let_def forbidden_optimal_iff by (auto simp: line_cost_def)
    finally have "?L \<longleftrightarrow> same_location bsrc hsrc i j" .
    with bounds s show ?thesis by auto
  qed
qed

section \<open>Accounting\<close>

text \<open>\<open>accounted st H B\<close>: the lists of the state hold the head findings \<open>H\<close> each exactly once, and base
  findings out of \<open>B\<close> at most once each.\<close>

definition accounted ::
  "ClassificationState \<Rightarrow> DifferentialFinding multiset \<Rightarrow> DifferentialFinding multiset \<Rightarrow> bool" where
  "accounted st H B =
     (\<exists>U W. mset (st_unknown st) = U + W
        \<and> mset (st_introduced st) + mset (st_unchanged st) + U = H
        \<and> mset (st_fixed st) + W \<subseteq># B)"

lemma accounted_initial: "accounted initial_state {#} {#}"
  by (simp add: accounted_def initial_state_def)

lemma accountedI:
  "mset (st_unknown st) = U + W \<Longrightarrow> mset (st_introduced st) + mset (st_unchanged st) + U = H \<Longrightarrow>
   mset (st_fixed st) + W \<subseteq># B \<Longrightarrow> accounted st H B"
  by (auto simp: accounted_def)

lemma accounted_caches [simp]: "accounted (st\<lparr>st_caches := c\<rparr>) H B = accounted st H B"
  by (simp add: accounted_def)

lemma accounted_base: "accounted st H B \<Longrightarrow> accounted st H (B + C)"
  by (auto simp: accounted_def intro: subset_mset.order_trans [OF _ mset_subset_eq_add_left])

lemma accounted_introduced:
  "accounted st H B \<Longrightarrow> accounted (st\<lparr>st_introduced := st_introduced st @ hs\<rparr>) (H + mset hs) B"
  unfolding accounted_def by (auto simp: ac_simps)

lemma accounted_unknown_head:
  assumes "accounted st H B"
  shows "accounted (st\<lparr>st_unknown := st_unknown st @ hs\<rparr>) (H + mset hs) B"
proof -
  obtain U W where u: "mset (st_unknown st) = U + W" "mset (st_introduced st) + mset (st_unchanged st) + U = H"
    "mset (st_fixed st) + W \<subseteq># B" using assms by (auto simp: accounted_def)
  show ?thesis by (rule accountedI [of _ "U + mset hs" W]) (use u in \<open>auto simp: ac_simps\<close>)
qed

lemma accounted_pair:
  assumes "accounted st H B"
  shows "accounted (classify_pair sha req idn (b, h) st) (add_mset h H) B"
proof -
  obtain U W where u: "mset (st_unknown st) = U + W" "mset (st_introduced st) + mset (st_unchanged st) + U = H"
    "mset (st_fixed st) + W \<subseteq># B" using assms by (auto simp: accounted_def)
  show ?thesis
    by (rule accountedI [of _ "U + (if fst (fst (request_continuity sha req b h (st_caches st))) = CUnknown
           then {#h#} else {#})" W])
      (use u in \<open>auto simp: classify_pair_def Let_def split_beta ac_simps split: continuity_kind.splits\<close>)
qed

lemma accounted_pairs:
  "accounted st H B \<Longrightarrow> accounted (fold (classify_pair sha req idn) ps st) (H + mset (map snd ps)) B"
proof (induction ps arbitrary: st H)
  case (Cons p ps)
  obtain b h where p: "p = (b, h)" by (cases p)
  from Cons.IH [OF accounted_pair [OF Cons.prems, of sha req idn b h]] show ?case by (simp add: p)
qed simp

lemma accounted_removed:
  assumes "accounted st H B"
  shows "accounted (classify_removed_base req b st) H (add_mset b B)"
proof -
  obtain U W where u: "mset (st_unknown st) = U + W" "mset (st_introduced st) + mset (st_unchanged st) + U = H"
    "mset (st_fixed st) + W \<subseteq># B" using assms by (auto simp: accounted_def)
  show ?thesis
  proof (cases "st_fixed (classify_removed_base req b st) = st_fixed st")
    case True
    then have "classify_removed_base req b st = st\<lparr>st_unknown := st_unknown st @ [b]\<rparr>"
      by (auto simp: classify_removed_base_def)
    then show ?thesis by (intro accountedI [of _ U "add_mset b W"]) (use u in auto)
  next
    case False
    then have "classify_removed_base req b st = st\<lparr>st_fixed := st_fixed st @ [b]\<rparr>"
      by (auto simp: classify_removed_base_def split: if_splits)
    then show ?thesis by (intro accountedI [of _ U W]) (use u in auto)
  qed
qed

lemma accounted_removed_list:
  "accounted st H B \<Longrightarrow> accounted (fold (classify_removed_base req) bs st) H (B + mset bs)"
proof (induction bs arbitrary: st B)
  case (Cons b bs)
  from Cons.IH [OF accounted_removed [OF Cons.prems]] show ?case by simp
qed simp

section \<open>Pairing\<close>

lemma candidates_subset:
  "set (fst (continuity_candidates sha req h bs c)) \<subseteq> set bs"
  by (induction bs arbitrary: c) (auto simp: Let_def split_beta)

lemma unique_pairs_step:
  obtains (found) b c1 where "continuity_candidates sha req h rb c = ([b], c1)" "b \<in> set rb"
    "unique_pairs sha req (h # hs) rb rh c =
       (let (ps, rb', rh', c2) = unique_pairs sha req hs (remove1 b rb) (remove1 h rh) c1 in ((b, h) # ps, rb', rh', c2))"
  | (none) c1 where "snd (continuity_candidates sha req h rb c) = c1"
    "unique_pairs sha req (h # hs) rb rh c = unique_pairs sha req hs rb rh c1"
proof (cases "continuity_candidates sha req h rb c")
  case (Pair bs c1)
  show thesis
  proof (cases "\<exists>b. bs = [b]")
    case True
    then obtain b where b: "bs = [b]" by blast
    have "b \<in> set rb" using candidates_subset [of sha req h rb c] by (simp add: Pair b)
    with Pair b show thesis by (intro found) simp_all
  next
    case False
    with Pair show thesis by (intro none) (auto split: list.splits)
  qed
qed

lemma unique_pairs_account:
  "unique_pairs sha req hs rb rh c = (ps, rb', rh', c') \<Longrightarrow> mset hs \<subseteq># mset rh \<Longrightarrow>
   mset (map fst ps) + mset rb' = mset rb \<and> mset (map snd ps) + mset rh' = mset rh"
proof (induction hs arbitrary: rb rh c ps)
  case (Cons h hs)
  have h: "h \<in> set rh" "mset hs \<subseteq># mset (remove1 h rh)"
    using Cons.prems(2) by (auto simp: insert_subset_eq_iff)
  have h3: "mset hs \<subseteq># mset rh"
    using Cons.prems(2) by (auto intro: subset_mset.order_trans [OF mset_subset_eq_add_right [of "mset hs" "{#h#}"]])
  show ?case
  proof (cases rule: unique_pairs_step [of sha req h rb c hs rh])
    case (found b c1)
    with Cons.prems(1) obtain ps' where ps: "ps = (b, h) # ps'"
      "unique_pairs sha req hs (remove1 b rb) (remove1 h rh) c1 = (ps', rb', rh', c')"
      by (auto simp: Let_def split: prod.splits)
    from Cons.IH [OF ps(2) h(2)] found(2) h(1) show ?thesis
      by (auto simp: ps(1) add_mset_remove_trivial_If intro: insert_DiffM)
  next
    case (none c1)
    with Cons.prems(1) Cons.IH h3 show ?thesis by simp
  qed
qed auto

lemma pairs_account:
  assumes "continuity_compatible_pairs sha req bp hp c = (ps, rb, rh, c')"
  shows "mset (map fst ps) + mset rb = mset bp" and "mset (map snd ps) + mset rh = mset hp"
proof -
  let ?rb = "sort_key pairing_sort_key bp" and ?rh = "sort_key pairing_sort_key hp"
  obtain qs xb xh where q: "unique_pairs sha req ?rh ?rb ?rh c = (qs, xb, xh, c')"
    "ps = qs @ zip (take (min (length xb) (length xh)) xb) (take (min (length xb) (length xh)) xh)"
    "rb = drop (min (length xb) (length xh)) xb" "rh = drop (min (length xb) (length xh)) xh"
    using assms by (auto simp: continuity_compatible_pairs_def Let_def split: prod.splits)
  have a: "mset (map fst qs) + mset xb = mset bp" "mset (map snd qs) + mset xh = mset hp"
    using unique_pairs_account [OF q(1)] by simp_all
  have t: "mset (take n xs) + mset (drop n xs) = mset xs" for n and xs :: "DifferentialFinding list"
    by (metis append_take_drop_id mset_append)
  show "mset (map fst ps) + mset rb = mset bp" "mset (map snd ps) + mset rh = mset hp"
    unfolding q(2-4) a [symmetric] using t by (simp_all add: ac_simps)
qed

lemma accounted_partition:
  assumes "accounted st H B"
  shows "accounted (classify_partition sha req idn bp hp st) (H + mset hp) (B + mset bp)"
proof -
  obtain ps rb rh c where p: "continuity_compatible_pairs sha req bp hp (st_caches st) = (ps, rb, rh, c)"
    by (metis prod_cases4)
  note a = pairs_account [OF p]
  have "accounted (fold (classify_pair sha req idn) ps (st\<lparr>st_caches := c\<rparr>)) (H + mset (map snd ps)) B"
    using assms by (intro accounted_pairs) simp
  from accounted_removed_list [OF this, of req rb] have
    "accounted (fold (classify_removed_base req) rb (fold (classify_pair sha req idn) ps (st\<lparr>st_caches := c\<rparr>)))
       (H + mset (map snd ps)) (B + mset rb)" .
  from accounted_introduced [OF this, of rh] have
    "accounted (classify_partition sha req idn bp hp st) (H + mset (map snd ps) + mset rh) (B + mset rb)"
    by (simp add: classify_partition_def p Let_def)
  from accounted_base [OF this, of "mset (map fst ps)"] show ?thesis
    unfolding a [symmetric] by (simp add: ac_simps)
qed

text \<open>Folding the partitions of one identity, and the identities, accounts for all findings.\<close>

lemma accounted_fold:
  assumes "accounted st H B"
    and "\<And>k st H B. accounted st H B \<Longrightarrow> accounted (f k st) (H + hd_of k) (B + bd_of k)"
  shows "accounted (fold f ks st) (H + sum_list (map hd_of ks)) (B + sum_list (map bd_of ks))"
  using assms(1)
proof (induction ks arbitrary: st H B)
  case (Cons k ks)
  from Cons.IH [OF assms(2) [OF Cons.prems]] show ?case by (simp add: add.assoc)
qed simp

lemma accounted_identity:
  assumes "accounted st H B"
  shows "accounted (classify_identity sha req bbs hbs idn st) (H + mset (dict_list hbs idn)) (B + mset (dict_list bbs idn))"
proof (cases "severity_multiset_changed (dict_list bbs idn) (dict_list hbs idn)")
  case True
  then have "dict_list hbs idn \<noteq> []" by (auto simp: severity_multiset_changed_def)
  with True show ?thesis
    using accounted_base [OF accounted_unknown_head [OF assms]] by (simp add: classify_identity_def Let_def)
next
  case False
  let ?bb = "dict_list bbs idn" and ?hb = "dict_list hbs idn"
  let ?ks = "sorted_list_of_set (set (map severity_key (?bb @ ?hb)))"
  have h: "mset ?hb = sum_list (map (\<lambda>k. mset (filter (\<lambda>f. severity_key f = k) ?hb)) ?ks)"
    and b: "mset ?bb = sum_list (map (\<lambda>k. mset (filter (\<lambda>f. severity_key f = k) ?bb)) ?ks)"
    by (rule mset_partition; simp)+
  have "accounted (fold (\<lambda>k. classify_partition sha req idn (filter (\<lambda>f. severity_key f = k) ?bb)
       (filter (\<lambda>f. severity_key f = k) ?hb)) ?ks st) (H + mset ?hb) (B + mset ?bb)"
    unfolding h b by (rule accounted_fold [OF assms]) (rule accounted_partition)
  with False show ?thesis by (simp add: classify_identity_def Let_def)
qed

text \<open>The state after all identities.\<close>

definition classified_state ::
  "(string \<Rightarrow> string) \<Rightarrow> FindingClassificationRequest \<Rightarrow> DifferentialFinding list \<Rightarrow> DifferentialFinding list
   \<Rightarrow> ClassificationState" where
  "classified_state sha req bs hs =
     (let (bbs, hbs) = finding_buckets bs hs (renames_of req)
      in fold (classify_identity sha req bbs hbs)
           (sorted_list_of_set (set (map fst bbs) \<union> set (map fst hbs))) initial_state)"

lemma dict_list_Nil [simp]: "dict_list [] k = []"
  by (simp add: dict_list_def)

lemma accounted_all: "accounted (classified_state sha req bs hs) (mset hs) (mset bs)"
proof -
  let ?bbs = "foldl (\<lambda>d f. dict_push d (base_identity f) f) [] bs"
  let ?hbs = "foldl (\<lambda>d f. dict_push d (head_identity (renames_of req) f) f) [] hs"
  let ?ids = "sorted_list_of_set (set (map fst ?bbs) \<union> set (map fst ?hbs))"
  have ids: "set ?ids = base_identity ` set bs \<union> head_identity (renames_of req) ` set hs"
    by (simp add: keys_group)
  have h: "mset hs = sum_list (map (\<lambda>k. mset (dict_list ?hbs k)) ?ids)"
    and b: "mset bs = sum_list (map (\<lambda>k. mset (dict_list ?bbs k)) ?ids)"
    unfolding dict_list_group dict_list_Nil append_Nil
    by (rule mset_partition; use ids in auto)+
  have "accounted (fold (classify_identity sha req ?bbs ?hbs) ?ids initial_state) ({#} + mset hs) ({#} + mset bs)"
    unfolding h b by (rule accounted_fold [OF accounted_initial]) (rule accounted_identity)
  then show ?thesis by (simp add: classified_state_def finding_buckets_def)
qed

lemma classify_values_late:
  assumes "dc_reason (classify_values sha req bs hs) = []"
  shows "classify_values sha req bs hs = final_classification sha (classified_state sha req bs hs)"
  using assms
  by (auto simp: classify_values_def early_classification_def classification_with_reason_def classified_state_def
      split: option.splits if_splits prod.splits)

lemma classify_values_early:
  assumes "dc_reason (classify_values sha req bs hs) \<noteq> []"
  shows "dc_status (classify_values sha req bs hs) = DUnknown \<and> dc_unchanged (classify_values sha req bs hs) = []"
proof (cases "early_classification sha req bs hs initial_state")
  case None
  with assms show ?thesis by (simp add: classify_values_def final_classification_def Let_def split_beta)
next
  case (Some r)
  then have "dc_status r = DUnknown \<and> dc_unchanged r = []"
    by (auto simp: early_classification_def classification_with_reason_def Let_def split: if_splits)
  with Some show ?thesis by (simp add: classify_values_def)
qed

lemma final_classification_fields [simp]:
  "dc_introduced (final_classification sha st) = st_introduced st"
  "dc_fixed (final_classification sha st) = st_fixed st"
  "dc_unchanged (final_classification sha st) = st_unchanged st"
  "dc_unknown (final_classification sha st) = st_unknown st"
  "dc_status (final_classification sha st) =
     (if st_unknown st \<noteq> [] then DUnknown
      else if \<exists>f \<in> set (st_introduced st @ st_unchanged st). df_blocking f then DFail else DPass)"
  by (simp_all add: final_classification_def Let_def)

lemma classify_findings_values:
  assumes "classify_findings sha req = Inr r"
  obtains bs hs where "findings_of (fr_base_findings req) = Inr bs" "findings_of (fr_head_findings req) = Inr hs"
    "r = classify_values sha req bs hs"
  using assms by (auto simp: classify_findings_def map_sum_Inr_iff split: sum.splits)

section \<open>Justified continuity\<close>

text \<open>A finding reported as unchanged has a base finding behind it.\<close>

definition justified ::
  "FindingClassificationRequest \<Rightarrow> DifferentialFinding list \<Rightarrow> DifferentialFinding \<Rightarrow> bool" where
  "justified req bs h =
     (\<exists>b \<in> set bs. base_identity b = head_identity (renames_of req) h \<and> severity_key b = severity_key h
        \<and> (\<exists>bsrc hsrc i j. source_for (df_path b) (fr_base_sources req) = Some bsrc
             \<and> source_for (df_path h) (fr_head_sources req) = Some hsrc
             \<and> df_line b = int (Suc i) \<and> df_line h = int (Suc j) \<and> same_location bsrc hsrc i j))"

definition state_justified ::
  "FindingClassificationRequest \<Rightarrow> DifferentialFinding list \<Rightarrow> ClassificationState \<Rightarrow> bool" where
  "state_justified req bs st = (caches_ok (st_caches st) \<and> (\<forall>h \<in> set (st_unchanged st). justified req bs h))"

lemma state_justified_unknown [simp]:
  "state_justified req bs (st\<lparr>st_unknown := u\<rparr>) = state_justified req bs st"
  by (simp add: state_justified_def)

lemma candidates_caches: "caches_ok c \<Longrightarrow> caches_ok (snd (continuity_candidates sha req h bs c))"
  by (induction bs arbitrary: c)
    (simp_all add: Let_def split_beta request_continuity_def continuity_cached [THEN conjunct2])

lemma unique_pairs_caches:
  "unique_pairs sha req hs rb rh c = (ps, rb', rh', c') \<Longrightarrow> caches_ok c \<Longrightarrow> caches_ok c'"
proof (induction hs arbitrary: rb rh c ps)
  case (Cons h hs)
  have c1: "caches_ok (snd (continuity_candidates sha req h rb c))"
    using Cons.prems(2) by (rule candidates_caches)
  show ?case
  proof (cases rule: unique_pairs_step [of sha req h rb c hs rh])
    case (found b c1)
    with Cons c1 show ?thesis by (auto simp: Let_def split: prod.splits)
  next
    case (none c1)
    have "unique_pairs sha req hs rb rh c1 = (ps, rb', rh', c')" using Cons.prems(1) none(2) by metis
    from Cons.IH [OF this] c1 none(1) show ?thesis by simp
  qed
qed simp

lemma pairs_caches:
  "continuity_compatible_pairs sha req bp hp c = (ps, rb, rh, c') \<Longrightarrow> caches_ok c \<Longrightarrow> caches_ok c'"
  by (auto simp: continuity_compatible_pairs_def Let_def split: prod.splits dest: unique_pairs_caches)

lemma pair_justified:
  assumes "state_justified req bs st" and "b \<in> set bs"
    and "base_identity b = head_identity (renames_of req) h" and "severity_key b = severity_key h"
  shows "state_justified req bs (classify_pair sha req idn (b, h) st)"
proof -
  let ?r = "request_continuity sha req b h (st_caches st)"
  have c: "caches_ok (snd ?r)" and k: "fst ?r = fst (request_continuity sha req b h empty_caches)"
    using assms(1) continuity_cached unfolding state_justified_def request_continuity_def by blast+
  have "justified req bs h" if "fst (fst ?r) = CUnchanged"
    using that [unfolded k, unfolded request_continuity_def unchanged_iff] assms(2-4)
    unfolding justified_def by blast
  with assms(1) c show ?thesis
    by (auto simp: state_justified_def classify_pair_def Let_def split_beta split: continuity_kind.splits)
qed

lemma pairs_justified:
  assumes "state_justified req bs st"
    and "\<forall>(b, h) \<in> set ps. b \<in> set bs \<and> base_identity b = head_identity (renames_of req) h \<and> severity_key b = severity_key h"
  shows "state_justified req bs (fold (classify_pair sha req idn) ps st)"
  using assms by (induction ps arbitrary: st) (auto intro: pair_justified)

lemma removed_justified:
  "state_justified req bs (fold (classify_removed_base req) rb st) = state_justified req bs st"
  by (induction rb arbitrary: st) (auto simp: classify_removed_base_def state_justified_def)

lemma partition_justified:
  assumes "state_justified req bs st"
    and "\<forall>b \<in> set bp. b \<in> set bs \<and> base_identity b = idn \<and> severity_key b = key"
    and "\<forall>h \<in> set hp. head_identity (renames_of req) h = idn \<and> severity_key h = key"
  shows "state_justified req bs (classify_partition sha req idn bp hp st)"
proof -
  obtain ps rb rh c where p: "continuity_compatible_pairs sha req bp hp (st_caches st) = (ps, rb, rh, c)"
    by (metis prod_cases4)
  have "set (map fst ps) \<subseteq> set bp" "set (map snd ps) \<subseteq> set hp"
    using pairs_account [OF p] by (metis mset_subset_eq_add_left set_mset_mono set_mset_mset)+
  then have "\<forall>(b, h) \<in> set ps. b \<in> set bs \<and> base_identity b = head_identity (renames_of req) h
      \<and> severity_key b = severity_key h"
    using assms(2,3) by fastforce
  moreover have "state_justified req bs (st\<lparr>st_caches := c\<rparr>)"
    using assms(1) pairs_caches [OF p] by (simp add: state_justified_def)
  ultimately have "state_justified req bs (fold (classify_pair sha req idn) ps (st\<lparr>st_caches := c\<rparr>))"
    by (rule pairs_justified [rotated])
  then have "state_justified req bs (fold (classify_removed_base req) rb
      (fold (classify_pair sha req idn) ps (st\<lparr>st_caches := c\<rparr>)))"
    by (simp only: removed_justified)
  then show ?thesis by (simp add: classify_partition_def p Let_def state_justified_def)
qed

lemma fold_invariant: "P s \<Longrightarrow> (\<And>x s. x \<in> set xs \<Longrightarrow> P s \<Longrightarrow> P (f x s)) \<Longrightarrow> P (fold f xs s)"
  by (induction xs arbitrary: s) auto

lemma classified_justified: "state_justified req bs (classified_state sha req bs hs)"
proof -
  let ?bbs = "foldl (\<lambda>d f. dict_push d (base_identity f) f) [] bs"
  let ?hbs = "foldl (\<lambda>d f. dict_push d (head_identity (renames_of req) f) f) [] hs"
  have "state_justified req bs (classify_identity sha req ?bbs ?hbs idn st)" if "state_justified req bs st" for idn st
  proof -
    have p: "state_justified req bs (classify_partition sha req idn (filter (\<lambda>f. severity_key f = k) (dict_list ?bbs idn))
       (filter (\<lambda>f. severity_key f = k) (dict_list ?hbs idn)) s)" if "state_justified req bs s" for k s
      using that by (rule partition_justified [where key = k]) (auto simp: dict_list_group)
    from that show ?thesis
      unfolding classify_identity_def Let_def
      by (simp add: fold_invariant [where P = "state_justified req bs"] p)
  qed
  then show ?thesis
    unfolding classified_state_def finding_buckets_def prod.case Let_def
    by (intro fold_invariant [where P = "state_justified req bs"]) (auto simp: state_justified_def initial_state_def)
qed

section \<open>Exact renames, characterised\<close>

lemma paths_by_blob_list: "dict_list (paths_by_blob d) blob = map fst (filter (\<lambda>(p, b). b = blob) d)"
proof -
  have "dict_list (foldl (\<lambda>acc (path, blob). dict_push acc blob path) e d) blob
      = dict_list e blob @ map fst (filter (\<lambda>(p, b). b = blob) d)" for e
    by (induction d arbitrary: e) (auto simp: dict_list_push)
  then show ?thesis by (simp add: paths_by_blob_def)
qed

lemma paths_by_blob_keys: "fst ` set (paths_by_blob d) = snd ` set d"
proof -
  have "fst ` set (foldl (\<lambda>acc (path, blob). dict_push acc blob path) e d) = fst ` set e \<union> snd ` set d" for e
    by (induction d arbitrary: e) (simp_all add: split_beta dict_push_def dom_update)
  then show ?thesis by (simp add: paths_by_blob_def)
qed

text \<open>A blob with one path on each side, and the paths it has there.\<close>

definition unique_blob :: "(string \<times> string) list \<Rightarrow> (string \<times> string) list \<Rightarrow> string \<Rightarrow> string \<Rightarrow> string \<Rightarrow> bool" where
  "unique_blob deleted added blob old new =
     (map fst (filter (\<lambda>(p, b). b = blob) deleted) = [old] \<and> map fst (filter (\<lambda>(p, b). b = blob) added) = [new])"

lemma sort_single: "sort xs = [x] \<longleftrightarrow> xs = [x]"
proof
  assume "sort xs = [x]"
  then have "length xs = 1" by (metis length_sort length_Cons list.size(3) One_nat_def)
  then obtain y where "xs = [y]" by (metis length_Suc_conv length_0_conv One_nat_def)
  with \<open>sort xs = [x]\<close> show "xs = [x]" by simp
qed simp

lemma rename_step_cases:
  "rename_step d a blob acc =
     (if \<exists>old new. dict_list d blob = [old] \<and> dict_list a blob = [new]
      then (fst acc @ [(hd (dict_list d blob), hd (dict_list a blob))], snd acc)
      else (fst acc, snd acc @ [blob]))"
  by (cases "\<exists>old new. dict_list d blob = [old] \<and> dict_list a blob = [new]")
    (auto simp: rename_step_def sort_single split: list.splits)

lemma rename_fold:
  "(old, new) \<in> set (fst (fold (rename_step d a) blobs acc)) \<longleftrightarrow>
     (old, new) \<in> set (fst acc) \<or> (\<exists>blob \<in> set blobs. dict_list d blob = [old] \<and> dict_list a blob = [new])"
  "blob \<in> set (snd (fold (rename_step d a) blobs acc)) \<longleftrightarrow>
     blob \<in> set (snd acc) \<or> (blob \<in> set blobs \<and> \<not> (\<exists>old new. dict_list d blob = [old] \<and> dict_list a blob = [new]))"
  by (induction blobs arbitrary: acc) (auto simp: rename_step_cases)

lemma unique_blob_mem: "unique_blob deleted added blob old new \<Longrightarrow> (old, blob) \<in> set deleted \<and> (new, blob) \<in> set added"
proof -
  assume u: "unique_blob deleted added blob old new"
  have "old \<in> set (map fst (filter (\<lambda>(p, b). b = blob) deleted))" "new \<in> set (map fst (filter (\<lambda>(p, b). b = blob) added))"
    using u unfolding unique_blob_def by simp_all
  then show ?thesis by auto
qed

lemma canonical_exact_renames_facts:
  "(old, new) \<in> set (er_pairs (canonical_exact_renames deleted added)) \<longleftrightarrow>
     (\<exists>blob. unique_blob deleted added blob old new)"
  "blob \<in> set (er_ambiguities (canonical_exact_renames deleted added)) \<longleftrightarrow>
     blob \<in> snd ` set deleted \<and> blob \<in> snd ` set added \<and> \<not> (\<exists>old new. unique_blob deleted added blob old new)"
proof -
  let ?f = "fold (rename_step (paths_by_blob deleted) (paths_by_blob added))
      (sorted_list_of_set (snd ` set deleted \<inter> snd ` set added)) ([], [])"
  have r: "canonical_exact_renames deleted added = \<lparr>er_pairs = fst ?f, er_ambiguities = snd ?f\<rparr>"
    by (simp add: canonical_exact_renames_def Let_def split_beta paths_by_blob_keys)
  have u: "unique_blob deleted added blob old new \<longleftrightarrow>
      dict_list (paths_by_blob deleted) blob = [old] \<and> dict_list (paths_by_blob added) blob = [new]" for blob old new
    by (simp add: unique_blob_def paths_by_blob_list)
  show "(old, new) \<in> set (er_pairs (canonical_exact_renames deleted added)) \<longleftrightarrow>
     (\<exists>blob. unique_blob deleted added blob old new)"
    unfolding r using unique_blob_mem by (auto simp: rename_fold u [symmetric]) force
  show "blob \<in> set (er_ambiguities (canonical_exact_renames deleted added)) \<longleftrightarrow>
     blob \<in> snd ` set deleted \<and> blob \<in> snd ` set added \<and> \<not> (\<exists>old new. unique_blob deleted added blob old new)"
    unfolding r by (auto simp: rename_fold u [symmetric])
qed

section \<open>Properties\<close>

definition sample_raw :: "int \<Rightarrow> pydict" where
  "sample_raw line = [(PStr ''analyzer'', PStr ''ruff''), (PStr ''rule'', PStr ''E1''), (PStr ''severity'', PStr ''error''),
     (PStr ''path'', PStr ''a.py''), (PStr ''line'', PInt line), (PStr ''message'', PStr ''m''), (PStr ''blocking'', PBool True)]"

text \<open>A finding that moved down by one line, and a new one.\<close>

definition sample_request :: FindingClassificationRequest where
  "sample_request =
     \<lparr>fr_base_findings = [sample_raw 2], fr_head_findings = [sample_raw 3, sample_raw 1],
      fr_base_sources = [(''a.py'', [CHR ''a'', CHR 0x0A, CHR ''b'', CHR 0x0A, CHR ''c''])],
      fr_head_sources = [(''a.py'', [CHR ''x'', CHR 0x0A, CHR ''a'', CHR 0x0A, CHR ''b'', CHR 0x0A, CHR ''c''])],
      fr_base_analysis_status = ''pass'', fr_rename_facts = None, fr_rename_ambiguities = None,
      fr_deleted_paths = [], fr_added_paths = [], fr_source_size_override = None\<rparr>"

definition sample_values :: "int list \<Rightarrow> DifferentialFinding list" where
  "sample_values ls = map (\<lambda>l. \<lparr>df_analyzer = ''ruff'', df_rule = ''E1'', df_severity = ''error'', df_path = ''a.py'',
     df_line = l, df_message = ''m'', df_blocking = True\<rparr>) ls"

lemma sample_state:
  "let st = classified_state (\<lambda>_. []) sample_request (sample_values [2]) (sample_values [3, 1])
   in st_unchanged st = sample_values [3] \<and> st_introduced st = sample_values [1]
      \<and> st_unknown st = [] \<and> st_fixed st = []"
  by code_simp

lemma sample_request_result:
  "\<exists>r. classify_findings (\<lambda>_. []) sample_request = Inr r \<and> dc_status r = DFail \<and> dc_reason r = []
     \<and> dc_unchanged r = sample_values [3]"
proof -
  have v: "findings_of (fr_base_findings sample_request) = Inr (sample_values [2])"
    "findings_of (fr_head_findings sample_request) = Inr (sample_values [3, 1])" by code_simp+
  have e: "early_classification (\<lambda>_. []) sample_request (sample_values [2]) (sample_values [3, 1]) initial_state = None"
    by (simp add: early_classification_def sample_request_def)
  let ?r = "final_classification (\<lambda>_. []) (classified_state (\<lambda>_. []) sample_request (sample_values [2]) (sample_values [3, 1]))"
  have "classify_findings (\<lambda>_. []) sample_request = Inr ?r"
    by (simp add: classify_findings_def v classify_values_def e classified_state_def split_beta)
  moreover have "dc_reason ?r = []" by (simp add: final_classification_def Let_def)
  ultimately show ?thesis
    using sample_state by (intro exI [of _ ?r]) (simp add: Let_def, simp add: sample_values_def)
qed





text \<open>C23: Unchanged means proven unchanged. Every finding reported as unchanged has a base finding with the
  same analyzer, rule, message, severity and blocking flag, in the same file up to the given renames, such
  that both lines and their neighbours read the same, occur once in their revision, and every optimal
  alignment of the two revisions pairs them.\<close>

theorem unchanged_is_justified:
  assumes "classify_findings sha req = Inr r" and "h \<in> set (dc_unchanged r)"
  shows "\<exists>bs. findings_of (fr_base_findings req) = Inr bs \<and> justified req bs h"
  using assms(1)
proof (rule classify_findings_values)
  fix bs hs
  assume v: "findings_of (fr_base_findings req) = Inr bs" "findings_of (fr_head_findings req) = Inr hs"
    "r = classify_values sha req bs hs"
  have "dc_reason r = []" using assms(2) classify_values_early [of sha req bs hs] unfolding v(3) by fastforce
  then have "r = final_classification sha (classified_state sha req bs hs)"
    using classify_values_late [of sha req bs hs] v(3) by simp
  with assms(2) classified_justified [of req bs sha hs] v(1) show ?thesis by (auto simp: state_justified_def)
qed

theorem unchanged_is_justified_witness:
  "\<exists>r h bs. classify_findings (\<lambda>_. []) sample_request = Inr r \<and> h \<in> set (dc_unchanged r) \<and> df_line h = 3
     \<and> findings_of (fr_base_findings sample_request) = Inr bs \<and> justified sample_request bs h"
proof -
  obtain r where r: "classify_findings (\<lambda>_. []) sample_request = Inr r" "dc_unchanged r = sample_values [3]"
    using sample_request_result by blast
  then obtain h where h: "h \<in> set (dc_unchanged r)" "df_line h = 3" by (auto simp: sample_values_def)
  from unchanged_is_justified [OF r(1) h(1)] r(1) h show ?thesis by blast
qed

text \<open>The continuity test is exact. Whatever the caches hold from earlier calls, two findings are
  \<open>unchanged\<close> exactly when both sources are present and within the bounds, both lines exist, each line
  is unique in its revision, the three-line anchors agree, and every optimal alignment pairs the lines.\<close>

theorem continuity_exact:
  assumes "caches_ok c"
  shows "(fst (fst (continuity sha b h bs hs c)) = CUnchanged \<longleftrightarrow>
     (\<exists>bsrc hsrc i j. bs = Some bsrc \<and> hs = Some hsrc \<and> df_line b = int (Suc i) \<and> df_line h = int (Suc j)
        \<and> continuity_within_bounds bsrc hsrc (physical_lines bsrc) (physical_lines hsrc)
            ((length (physical_lines bsrc) + 1) * (length (physical_lines hsrc) + 1))
        \<and> same_location bsrc hsrc i j))
    \<and> caches_ok (snd (continuity sha b h bs hs c))"
  using continuity_cached [OF assms, of sha b h bs hs] unchanged_iff [of sha b h bs hs] by simp

definition sample_finding_at :: "int \<Rightarrow> DifferentialFinding" where
  "sample_finding_at line = \<lparr>df_analyzer = ''ruff'', df_rule = ''E1'', df_severity = ''error'', df_path = ''a.py'',
     df_line = line, df_message = ''m'', df_blocking = True\<rparr>"

theorem continuity_exact_witness:
  "same_location [CHR ''a'', CHR 0x0A, CHR ''b''] [CHR ''a'', CHR 0x0A, CHR ''b''] 1 1"
proof -
  let ?s = "[CHR ''a'', CHR 0x0A, CHR ''b'']"
  have u: "fst (fst (continuity (\<lambda>_. []) (sample_finding_at 2) (sample_finding_at 2) (Some ?s) (Some ?s) empty_caches)) = CUnchanged"
    by code_simp
  from continuity_exact [OF empty_caches_ok, of "\<lambda>_. []" "sample_finding_at 2" "sample_finding_at 2" "Some ?s" "Some ?s"] u
  obtain i j where "df_line (sample_finding_at 2) = int (Suc i)" "df_line (sample_finding_at 2) = int (Suc j)"
    "same_location ?s ?s i j" by auto
  then show ?thesis by (simp add: sample_finding_at_def)
qed

text \<open>Exact renames are exactly the unambiguous ones: a deleted path is paired with an added path iff some
  blob identity occurs at that path alone among the deleted and at that path alone among the added files;
  the blobs on both sides without such a unique pair are the ambiguities.\<close>

theorem exact_renames_unambiguous:
  "((old, new) \<in> set (er_pairs (canonical_exact_renames deleted added)) \<longleftrightarrow>
      (\<exists>blob. unique_blob deleted added blob old new))
   \<and> (b \<in> set (er_ambiguities (canonical_exact_renames deleted added)) \<longleftrightarrow>
      b \<in> snd ` set deleted \<and> b \<in> snd ` set added \<and> \<not> (\<exists>old new. unique_blob deleted added b old new))"
  using canonical_exact_renames_facts by blast

end
