(* ===== verification/Suppression_Directives.thy ===== *)
theory Suppression_Directives
  imports Py_Json
begin

text \<open>
  Suppression comments in Python sources (\<^verbatim>\<open>run/differential.py\<close>): the directive patterns, the occurrences they
  have in a source, and the sources that are searched.

  A pattern is a regular expression with the constructs the source uses; \<open>ends\<close> lists the positions
  where a match from a given position can end, which is all that \<open>pattern.search\<close> needs, since only the
  existence of a match is used. Character classes and word boundaries follow Unicode on Latin-1.

  Parameter of the model: \<open>tok\<close> gives for a source the comment tokens of \<open>tokenize.tokenize\<close>, with
  their line numbers, or the name of the exception it raises (one of those that the caller catches).
\<close>

section \<open>Regular expressions\<close>

datatype rx =
    Empty
  | Text string
  | Class "char \<Rightarrow> bool"
  | ClassStar "char \<Rightarrow> bool"
  | Boundary
  | Then rx rx
  | Or rx rx

definition same_char :: "bool \<Rightarrow> char \<Rightarrow> char \<Rightarrow> bool" where
  "same_char ignore_case a b = (if ignore_case then py_lower_char a = py_lower_char b else a = b)"

fun text_at :: "bool \<Rightarrow> string \<Rightarrow> string \<Rightarrow> bool" where
  "text_at ic [] s = True"
| "text_at ic (p # ps) [] = False"
| "text_at ic (p # ps) (x # xs) = (same_char ic p x \<and> text_at ic ps xs)"

text \<open>The word characters of \<open>\b\<close> on Latin-1: letters, digits and other numerals, and the underscore.\<close>

definition word_char :: "char \<Rightarrow> bool" where
  "word_char c = (let n = (of_char c :: nat) in
     (48 \<le> n \<and> n \<le> 57) \<or> (65 \<le> n \<and> n \<le> 90) \<or> (97 \<le> n \<and> n \<le> 122) \<or> n = 95
     \<or> n \<in> {170, 178, 179, 181, 185, 186, 188, 189, 190} \<or> (192 \<le> n \<and> n \<noteq> 215 \<and> n \<noteq> 247))"

definition word_at :: "string \<Rightarrow> nat \<Rightarrow> bool" where
  "word_at s i = (i < length s \<and> word_char (s ! i))"

definition at_boundary :: "string \<Rightarrow> nat \<Rightarrow> bool" where
  "at_boundary s i = ((0 < i \<and> word_at s (i - 1)) \<noteq> word_at s i)"

fun ends :: "bool \<Rightarrow> string \<Rightarrow> rx \<Rightarrow> nat \<Rightarrow> nat list" where
  "ends ic s Empty i = [i]"
| "ends ic s (Text t) i = (if text_at ic t (drop i s) then [i + length t] else [])"
| "ends ic s (Class p) i = (if i < length s \<and> p (s ! i) then [Suc i] else [])"
| "ends ic s (ClassStar p) i = [i..<i + length (takeWhile p (drop i s)) + 1]"
| "ends ic s Boundary i = (if at_boundary s i then [i] else [])"
| "ends ic s (Then a b) i = concat (map (ends ic s b) (ends ic s a i))"
| "ends ic s (Or a b) i = ends ic s a i @ ends ic s b i"

definition rx_search :: "bool \<Rightarrow> rx \<Rightarrow> string \<Rightarrow> bool" where
  "rx_search ic r s = list_ex (\<lambda>i. ends ic s r i \<noteq> []) [0..<length s + 1]"

text \<open>\<open>(?:a|b|...)\<close>, \<open>(?:a)?\<close>, \<open>\s*\<close> and the character classes of the patterns.\<close>

fun any_of :: "rx list \<Rightarrow> rx" where
  "any_of [] = Class (\<lambda>_. False)"
| "any_of [r] = r"
| "any_of (r # q # qs) = Or r (any_of (q # qs))"

fun all_of :: "rx list \<Rightarrow> rx" where
  "all_of [] = Empty"
| "all_of [r] = r"
| "all_of (r # q # qs) = Then r (all_of (q # qs))"

definition optional :: "rx \<Rightarrow> rx" where
  "optional r = Or r Empty"

abbreviation spaces :: rx where
  "spaces \<equiv> ClassStar py_is_space"

definition ascii_letter :: "char \<Rightarrow> bool" where
  "ascii_letter c = (let n = (of_char c :: nat) in (65 \<le> n \<and> n \<le> 90) \<or> (97 \<le> n \<and> n \<le> 122))"

text \<open>\<open>(?:\[[^]]*\])?\<close>\<close>

definition bracketed :: rx where
  "bracketed = optional (all_of [Text ''['', ClassStar (\<lambda>c. c \<noteq> CHR 0x5D), Text [CHR 0x5D]])"

section \<open>Directives\<close>

text \<open>Family, kind, whether \<open>re.I\<close> is given, and the pattern.\<close>

definition DIRECTIVE_PATTERNS :: "(string \<times> string \<times> bool \<times> rx) list" where
  "DIRECTIVE_PATTERNS =
    [(''ruff-noqa'', ''introduced_inline_suppression'', True,
        all_of [Boundary, any_of [Text ''noqa'', all_of [Text ''ruff:'', spaces, Text ''noqa'']], Boundary]),
     (''ruff-control'', ''introduced_inline_suppression'', False,
        all_of [Boundary, Text ''ruff:'', spaces,
          any_of [Text ''ignore'', Text ''file-ignore'', Text ''disable'', Text ''enable''], spaces, Text ''['']),
     (''ruff-isort'', ''introduced_inline_suppression'', True,
        all_of [Boundary, optional (all_of [Text ''ruff:'', spaces]), Text ''isort:'', spaces,
          any_of [Text ''skip_file'', Text ''on'', Text ''off'', Text ''skip'', Text ''split''], Boundary]),
     (''pylint'', ''introduced_inline_suppression'', True,
        all_of [Boundary, Text ''pylint:'', spaces,
          any_of [all_of [Text ''disable'', optional (any_of [Text ''-next'', Text ''-all'', Text ''-msg''])],
                  Text ''skip-file''], Boundary]),
     (''type-ignore'', ''introduced_inline_suppression'', True,
        all_of [Boundary, Text ''type:'', spaces, Text ''ignore'', bracketed]),
     (''nosemgrep'', ''introduced_inline_suppression'', True,
        all_of [Boundary, Text ''no'', any_of [Text ''semgrep'', Text ''sem''], Boundary]),
     (''coverage'', ''introduced_inline_suppression'', True,
        all_of [Boundary, Text ''pragma:'', spaces, Text ''no'', Class py_is_space, spaces,
          any_of [Text ''cover'', Text ''branch''], Boundary]),
     (''basedpyright'', ''introduced_analyzer_result_control'', True,
        all_of [Boundary, Text ''pyright:'', spaces,
          any_of [all_of [Text ''ignore'', bracketed], Text ''strict'', Text ''basic'', Text ''standard'',
                  all_of [Class ascii_letter, ClassStar (\<lambda>c. ascii_letter c \<or> is_digit c), spaces, Text ''='']]]),
     (''crosshair'', ''introduced_analyzer_result_control'', True,
        all_of [Boundary, Text ''crosshair:'', spaces,
          any_of [Text ''on'', Text ''off'', Text ''enabled'', Text ''analysis_kind'', Text ''specs_complete'',
                  Text ''max_iterations'', Text ''per_condition_timeout'', Text ''per_path_timeout'',
                  Text ''max_uninteresting_iterations''], Boundary])]"

definition SUPPRESSION_ANALYZERS :: "(string \<times> string list) list" where
  "SUPPRESSION_ANALYZERS =
    [(''ruff-noqa'', [''ruff'']), (''ruff-control'', [''ruff'']), (''ruff-isort'', [''ruff'']),
     (''pylint'', [''pylint'']), (''basedpyright'', [''basedpyright'']), (''crosshair'', [''contracts'']),
     (''type-ignore'', [''basedpyright'', ''pylint'']), (''nosemgrep'', [''semgrep'', ''semgrep-bugs'']),
     (''coverage'', [''targeted-pytest-coverage''])]"

record SuppressionOccurrence =
  so_path :: string
  so_line :: int
  so_family :: string
  so_kind :: string
  so_token :: string

type_synonym tokenizer = "string \<Rightarrow> string + (int \<times> string) list"

definition normalized_comment :: "string \<Rightarrow> string" where
  "normalized_comment text = py_join '' '' (py_words (py_strip text))"

definition directive_of :: "string \<Rightarrow> (string \<times> string) option" where
  "directive_of normalized =
     map_option (\<lambda>(family, kind, _). (family, kind))
       (find (\<lambda>(_, _, ic, pattern). rx_search ic pattern normalized) DIRECTIVE_PATTERNS)"

definition comment_occurrence :: "string \<Rightarrow> int \<times> string \<Rightarrow> SuppressionOccurrence option" where
  "comment_occurrence path token =
     (let normalized = normalized_comment (snd token)
      in map_option (\<lambda>(family, kind).
           \<lparr>so_path = path, so_line = fst token, so_family = family, so_kind = kind,
            so_token = py_lower normalized\<rparr>) (directive_of normalized))"

definition tokenize_comments :: "tokenizer \<Rightarrow> string \<Rightarrow> string \<Rightarrow> string + SuppressionOccurrence list" where
  "tokenize_comments tok path source = map_sum id (List.map_filter (comment_occurrence path)) (tok source)"

text \<open>\<open>Path(path).suffix\<close>: from the last dot of the last component, unless it is the first or last character.\<close>

definition path_name :: "string \<Rightarrow> string" where
  "path_name path =
     (case filter (\<lambda>c. c \<noteq> [] \<and> c \<noteq> ''.'') (py_split_char (CHR ''/'') path) of
        [] \<Rightarrow> [] | cs \<Rightarrow> last cs)"

definition path_suffix :: "string \<Rightarrow> string" where
  "path_suffix path =
     (let name = path_name path; ext = rev (takeWhile (\<lambda>c. c \<noteq> CHR ''.'') (rev name))
      in if ext \<noteq> [] \<and> length ext + 1 < length name then CHR ''.'' # ext else [])"

definition python_sources :: "(string \<times> string) list \<Rightarrow> (string \<times> string) list" where
  "python_sources sources = filter (\<lambda>(path, _). path_suffix path \<in> {''.py'', ''.pyi''}) sources"

fun occurrences_in :: "tokenizer \<Rightarrow> (string \<times> string) list \<Rightarrow> string + SuppressionOccurrence list" where
  "occurrences_in tok [] = Inr []"
| "occurrences_in tok ((path, source) # rest) =
     (case tokenize_comments tok path source of
        Inl e \<Rightarrow> Inl e
      | Inr occurrences \<Rightarrow> map_sum id (\<lambda>more. occurrences @ more) (occurrences_in tok rest))"

definition suppression_occurrences ::
  "tokenizer \<Rightarrow> (string \<times> string) list \<Rightarrow> string + SuppressionOccurrence list" where
  "suppression_occurrences tok sources = occurrences_in tok (sort_key fst sources)"

end
