(* ===== verification/Suppression_Delta.thy ===== *)
theory Suppression_Delta
  imports Finding_Differential Suppression_Directives
begin

text \<open>
  The suppression delta of \<^verbatim>\<open>run/differential.py\<close>: which suppression comments of the head revision were
  already in the base revision. Occurrences are filed under a key (normalised path, family, token, ordinal); those
  that share the first three parts are paired, and the pairs are decided by line correspondence.

  Parameters of the model: \<open>sha\<close>, the hexadecimal SHA-256 of a byte string, and \<open>tok\<close>, the tokenizer.
  Evidence is a dictionary, as in the source. Of the cache of the source, the tables of costs and the
  budget of cells are part of the state; its two memo tables of \<open>splitlines\<close> and of source equality are
  not, the model calls the functions they remember.
\<close>

section \<open>Data\<close>

type_synonym suppression_identity = "string \<times> string \<times> string"

type_synonym suppression_key = "string \<times> string \<times> string \<times> nat"

type_synonym suppression_entry = "suppression_key \<times> SuppressionOccurrence"

type_synonym sources = "(string \<times> string) list"

record CorrespondenceCache =
  sc_costs :: correspondence_caches
  sc_forbidden_cells :: "((string \<times> string) \<times> nat) list"

record SuppressionDeltaContext =
  dx_base_by_key :: "suppression_entry list"
  dx_head_by_key :: "suppression_entry list"
  dx_base_sources :: sources
  dx_head_sources :: sources
  dx_base_manifest_digest :: string
  dx_head_manifest_digest :: string

record SuppressionCorrespondence =
  sr_status :: continuity_kind
  sr_evidence :: pydict

record SuppressionIntroduction =
  si_base_key :: "suppression_key option"
  si_head_key :: suppression_key
  si_evidence :: pydict

record SuppressionPairing =
  sp_base_key :: "suppression_key option"
  sp_head_key :: suppression_key
  sp_evidence :: pydict

record SuppressionTransitionEvidence =
  te_base_path :: string
  te_base_line :: int
  te_base_occurrence_digest :: string
  te_correspondence_status :: string
  te_correspondence_digest :: string
  te_correspondence_evidence :: pydict

record SuppressionEvidence =
  sv_changed_hunk_digest :: string
  sv_analyzers :: "string list"
  sv_family :: string
  sv_base_blob_digest :: string
  sv_head_blob_digest :: string
  sv_occurrence_digest :: string
  sv_base_manifest_digest :: string
  sv_head_manifest_digest :: string
  sv_transition :: SuppressionTransitionEvidence

record SuppressionFinding =
  sf_kind :: string
  sf_path :: string
  sf_line :: int
  sf_blocking :: bool
  sf_evidence :: SuppressionEvidence

record SuppressionClassification =
  sl_status :: differential_status
  sl_findings :: "SuppressionFinding list"
  sl_introduced :: "SuppressionOccurrence list"
  sl_unchanged :: "SuppressionOccurrence list"
  sl_missing_base_disposition :: string
  sl_reason :: string

datatype suppression_error = UnsupportedWaiverInput string

definition empty_cache :: CorrespondenceCache where
  "empty_cache = \<lparr>sc_costs = empty_caches, sc_forbidden_cells = []\<rparr>"

definition MAX_AGGREGATE_CORRESPONDENCE_CELLS :: int where
  "MAX_AGGREGATE_CORRESPONDENCE_CELLS = 4000000"

text \<open>\<open>sources[path]\<close>; every occurrence comes from a source of the dictionary.\<close>

definition source_at :: "sources \<Rightarrow> string \<Rightarrow> string" where
  "source_at sources path = (case map_of sources path of None \<Rightarrow> [] | Some s \<Rightarrow> s)"

section \<open>Index of occurrences\<close>

definition occurrence_origin :: "(string \<times> string) list \<Rightarrow> string \<Rightarrow> string" where
  "occurrence_origin reverse_renames path =
     (case map_of reverse_renames path of None \<Rightarrow> path | Some old \<Rightarrow> old)"

definition suppression_key :: "SuppressionOccurrence \<Rightarrow> (string \<times> string) list \<Rightarrow> nat \<Rightarrow> suppression_key" where
  "suppression_key occ reverse_renames ordinal =
     (occurrence_origin reverse_renames (so_path occ), so_family occ, so_token occ, ordinal)"

definition occurrence_identity :: "(string \<times> string) list \<Rightarrow> SuppressionOccurrence \<Rightarrow> suppression_identity" where
  "occurrence_identity reverse_renames occ =
     (occurrence_origin reverse_renames (so_path occ), so_family occ, so_token occ)"

definition index_step ::
  "(string \<times> string) list \<Rightarrow> (suppression_identity \<times> nat) list \<times> suppression_entry list \<Rightarrow> SuppressionOccurrence
   \<Rightarrow> (suppression_identity \<times> nat) list \<times> suppression_entry list" where
  "index_step reverse_renames acc occ =
     (case acc of (counts, indexed) \<Rightarrow>
        (let identity = occurrence_identity reverse_renames occ;
             ordinal = (case map_of counts identity of None \<Rightarrow> 0 | Some n \<Rightarrow> n)
         in (AList.update identity (ordinal + 1) counts,
             AList.update (suppression_key occ reverse_renames ordinal) occ indexed)))"

definition suppression_occurrence_index ::
  "SuppressionOccurrence list \<Rightarrow> (string \<times> string) list \<Rightarrow> suppression_entry list" where
  "suppression_occurrence_index occurrences reverse_renames =
     snd (foldl (index_step reverse_renames) ([], []) occurrences)"

definition reversed_renames :: "(string \<times> string) list \<Rightarrow> (string \<times> string) list" where
  "reversed_renames renames = dict_of (map (\<lambda>(old, new). (new, old)) renames)"

definition suppression_indexes ::
  "SuppressionOccurrence list \<Rightarrow> SuppressionOccurrence list \<Rightarrow> (string \<times> string) list
   \<Rightarrow> suppression_entry list \<times> suppression_entry list" where
  "suppression_indexes base_occurrences head_occurrences renames =
     (suppression_occurrence_index base_occurrences [],
      suppression_occurrence_index head_occurrences (reversed_renames renames))"

fun identity_of_key :: "suppression_key \<Rightarrow> suppression_identity" where
  "identity_of_key (path, family, token, ordinal) = (path, family, token)"

definition suppression_identity_buckets ::
  "suppression_entry list \<Rightarrow> (suppression_identity \<times> suppression_entry list) list" where
  "suppression_identity_buckets occurrences =
     foldl (\<lambda>buckets entry. dict_push buckets (identity_of_key (fst entry)) entry) [] (sort_key fst occurrences)"

section \<open>Digests\<close>

text \<open>\<open>json.dumps(document, ensure_ascii=False, sort_keys=True, separators=(",", ":")).encode()\<close>\<close>

definition raw_json_char :: "char \<Rightarrow> string" where
  "raw_json_char c = (if 126 < (of_char c :: nat) then [c] else json_char c)"

definition raw_json_str :: "string \<Rightarrow> string" where
  "raw_json_str s = [CHR 0x22] @ concat (map raw_json_char s) @ [CHR 0x22]"

fun raw_json_dumps :: "pyval \<Rightarrow> string" where
  "raw_json_dumps PNone = ''null''"
| "raw_json_dumps (PBool b) = (if b then ''true'' else ''false'')"
| "raw_json_dumps (PInt i) = show_int i"
| "raw_json_dumps (PFloat r) = r"
| "raw_json_dumps (PStr s) = raw_json_str s"
| "raw_json_dumps (PList xs) = ''['' @ py_join '','' (map raw_json_dumps xs) @ '']''"
| "raw_json_dumps (PDict d) =
     ''{'' @ py_join '',''
       (map (\<lambda>(k, v). raw_json_str k @ '':'' @ v)
         (sort_key fst (map (\<lambda>(k, v). (py_str k, raw_json_dumps v)) d))) @ ''}''"

text \<open>\<open>s.encode()\<close> of Latin-1 text: UTF-8, at most two bytes for a character.\<close>

definition latin1_utf8 :: "string \<Rightarrow> string" where
  "latin1_utf8 s = concat (map (\<lambda>c. let n = (of_char c :: nat) in
     if n < 128 then [c] else [char_of (192 + n div 64), char_of (128 + n mod 64)]) s)"

definition canonical_bytes :: "pyval \<Rightarrow> string" where
  "canonical_bytes document = latin1_utf8 (raw_json_dumps document)"

definition prefixed_digest :: "(string \<Rightarrow> string) \<Rightarrow> string \<Rightarrow> string" where
  "prefixed_digest sha payload = ''sha256:'' @ sha payload"

definition source_manifest_digest :: "(string \<Rightarrow> string) \<Rightarrow> sources \<Rightarrow> string" where
  "source_manifest_digest sha sources =
     prefixed_digest sha (canonical_bytes
       (PDict (map (\<lambda>(path, payload). (PStr path, PStr (prefixed_digest sha payload))) (sort_key fst sources))))"

definition suppression_occurrence_projection :: "SuppressionOccurrence \<Rightarrow> pyval" where
  "suppression_occurrence_projection occ = PDict
     [(PStr ''family'', PStr (so_family occ)), (PStr ''kind'', PStr (so_kind occ)),
      (PStr ''line'', PInt (so_line occ)), (PStr ''path'', PStr (so_path occ)),
      (PStr ''token'', PStr (so_token occ))]"

definition suppression_evidence ::
  "(string \<Rightarrow> string) \<Rightarrow> SuppressionOccurrence \<Rightarrow> SuppressionOccurrence option \<Rightarrow> string option \<Rightarrow> string option
   \<Rightarrow> string \<Rightarrow> string \<Rightarrow> pydict \<Rightarrow> SuppressionEvidence" where
  "suppression_evidence sha occ base_occurrence base_source head_source base_manifest head_manifest correspondence =
     (let text = (\<lambda>s. case s of None \<Rightarrow> [] | Some t \<Rightarrow> t);
          blob = (\<lambda>s. case s of None \<Rightarrow> [] | Some t \<Rightarrow> prefixed_digest sha t);
          projected = (\<lambda>x. prefixed_digest sha (canonical_bytes (suppression_occurrence_projection x)))
      in \<lparr>sv_changed_hunk_digest = prefixed_digest sha (text base_source @ [CHR 0x00] @ text head_source),
          sv_analyzers = (case map_of SUPPRESSION_ANALYZERS (so_family occ) of None \<Rightarrow> [] | Some a \<Rightarrow> a),
          sv_family = so_family occ,
          sv_base_blob_digest = blob base_source,
          sv_head_blob_digest = blob head_source,
          sv_occurrence_digest = projected occ,
          sv_base_manifest_digest = base_manifest,
          sv_head_manifest_digest = head_manifest,
          sv_transition =
            \<lparr>te_base_path = (case base_occurrence of None \<Rightarrow> [] | Some b \<Rightarrow> so_path b),
             te_base_line = (case base_occurrence of None \<Rightarrow> 0 | Some b \<Rightarrow> so_line b),
             te_base_occurrence_digest = (case base_occurrence of None \<Rightarrow> [] | Some b \<Rightarrow> projected b),
             te_correspondence_status = py_str (dget_or correspondence ''status'' (PStr [])),
             te_correspondence_digest =
               (if correspondence \<noteq> [] then prefixed_digest sha (canonical_bytes (PDict correspondence)) else []),
             te_correspondence_evidence = correspondence\<rparr>\<rparr>)"

section \<open>Continuity of one occurrence\<close>

fun continuity_text :: "continuity_kind \<Rightarrow> string" where
  "continuity_text CUnchanged = ''unchanged''"
| "continuity_text CIntroduced = ''introduced''"
| "continuity_text CUnknown = ''unknown''"

definition suppression_correspondence :: "continuity_kind \<Rightarrow> pydict \<Rightarrow> string \<Rightarrow> SuppressionCorrespondence" where
  "suppression_correspondence status evidence decision =
     \<lparr>sr_status = status,
      sr_evidence = dset (dset evidence ''decision'' (PStr decision)) ''status'' (PStr (continuity_text status))\<rparr>"

definition reserve_forbidden_correspondence ::
  "CorrespondenceCache \<Rightarrow> string \<times> string \<Rightarrow> ContinuityContext \<Rightarrow> bool \<times> CorrespondenceCache" where
  "reserve_forbidden_correspondence cache source_key x =
     (if (fst source_key, snd source_key, nat (cx_base_index x), nat (cx_head_index x))
           \<in> set (map fst (cc_forbidden (sc_costs cache)))
      then (True, cache)
      else (let used = (case map_of (sc_forbidden_cells cache) source_key of None \<Rightarrow> 0 | Some n \<Rightarrow> n)
            in if int (used + cx_cells x) > MAX_AGGREGATE_CORRESPONDENCE_CELLS then (False, cache)
               else (True, cache\<lparr>sc_forbidden_cells :=
                       AList.update source_key (used + cx_cells x) (sc_forbidden_cells cache)\<rparr>)))"

definition continuity_base_evidence :: "SuppressionOccurrence \<Rightarrow> SuppressionOccurrence \<Rightarrow> pydict" where
  "continuity_base_evidence base head =
     [(PStr ''algorithm'', PStr ''source-line-correspondence-v1''),
      (PStr ''base_line'', PInt (so_line base)), (PStr ''head_line'', PInt (so_line head)),
      (PStr ''bounds'', PDict
         [(PStr ''max_source_bytes'', PInt MAX_SOURCE_BYTES), (PStr ''max_source_lines'', PInt MAX_SOURCE_LINES),
          (PStr ''max_cells'', PInt MAX_CORRESPONDENCE_CELLS),
          (PStr ''max_aggregate_cells'', PInt MAX_AGGREGATE_CORRESPONDENCE_CELLS)])]"

definition suppression_differential_finding :: "SuppressionOccurrence \<Rightarrow> DifferentialFinding" where
  "suppression_differential_finding occ =
     \<lparr>df_analyzer = ''suppression'', df_rule = so_family occ, df_severity = ''error'', df_path = so_path occ,
      df_line = so_line occ, df_message = so_token occ, df_blocking = True\<rparr>"

definition suppression_occurrence_continuity ::
  "(string \<Rightarrow> string) \<Rightarrow> SuppressionOccurrence \<Rightarrow> SuppressionOccurrence \<Rightarrow> string \<Rightarrow> string
   \<Rightarrow> CorrespondenceCache \<Rightarrow> SuppressionCorrespondence \<times> CorrespondenceCache" where
  "suppression_occurrence_continuity sha base head base_source head_source cache =
     (let evidence = continuity_base_evidence base head
      in if base_source = head_source
           then (suppression_correspondence CUnchanged evidence ''identical_source'', cache)
         else case continuity_context (suppression_differential_finding base)
                 (suppression_differential_finding head) (Some base_source) (Some head_source) of
           Inl (cells, reason) \<Rightarrow>
             (suppression_correspondence CUnknown
                (dict_merge evidence (opt_entry ''cells'' (map_option pint cells) @ [(PStr ''reason'', PStr reason)]))
                ''unavailable'', cache)
         | Inr x \<Rightarrow>
             (let digest = (\<lambda>ls. PStr (prefixed_digest sha (py_join [CHR 0x0A] ls)));
                  evidence1 = dset (dset evidence ''base_line_sequence_digest'' (digest (cx_base_lines x)))
                                ''head_line_sequence_digest'' (digest (cx_head_lines x));
                  base_line = cx_base_lines x ! nat (cx_base_index x);
                  head_line = cx_head_lines x ! nat (cx_head_index x)
              in if base_line \<noteq> head_line
                   then (suppression_correspondence CIntroduced evidence1 ''physical_line_changed'', cache)
                 else if count_list (cx_base_lines x) base_line \<noteq> 1 \<or> count_list (cx_head_lines x) head_line \<noteq> 1
                   then (suppression_correspondence CUnknown evidence1 ''ambiguous_physical_line'', cache)
                 else (case reserve_forbidden_correspondence cache (base_source, head_source) x of
                         (False, cache1) \<Rightarrow>
                           (suppression_correspondence CUnknown evidence1 ''aggregate_correspondence_bounds'', cache1)
                       | (True, cache1) \<Rightarrow>
                           (let (co, costs) = continuity_cost_evidence x (base_source, head_source) (sc_costs cache1);
                                evidence2 = dict_merge evidence1
                                  [(PStr ''cells'', pint (cx_cells x)),
                                   (PStr ''global_cost'', pint (co_global co)),
                                   (PStr ''forced_cost'', pint (co_forced co)),
                                   (PStr ''forbidden_cost'', pint (co_forbidden co)),
                                   (PStr ''pair_cost'', pint (co_pair co))];
                                cache2 = cache1\<lparr>sc_costs := costs\<rparr>
                            in if co_pair co = 0 \<and> co_forced co = co_global co \<and> co_forbidden co > co_global co
                                 then (suppression_correspondence CUnchanged evidence2 ''unique_optimal_match'', cache2)
                               else (suppression_correspondence CIntroduced evidence2
                                       ''not_unique_optimal_correspondence'', cache2)))))"

section \<open>Pairing within one identity\<close>

definition suppression_physical_lines ::
  "suppression_entry list \<Rightarrow> string list \<Rightarrow> (suppression_key \<times> string option) list" where
  "suppression_physical_lines bucket source_lines =
     map (\<lambda>(key, occ). (key,
       if 0 < so_line occ \<and> so_line occ \<le> int (length source_lines)
       then Some (source_lines ! nat (so_line occ - 1)) else None)) bucket"

definition suppression_entries_by_line ::
  "suppression_entry list \<Rightarrow> (suppression_key \<times> string option) list \<Rightarrow> (string \<times> suppression_entry list) list" where
  "suppression_entries_by_line bucket physical =
     foldl (\<lambda>d entry. case map_of physical (fst entry) of
              Some (Some line) \<Rightarrow> dict_push d line entry
            | _ \<Rightarrow> d) [] bucket"

fun pair_correspondences ::
  "(string \<Rightarrow> string) \<Rightarrow> string \<Rightarrow> string \<Rightarrow> (string \<times> suppression_entry list) list
   \<Rightarrow> (string \<times> suppression_entry list) list \<Rightarrow> string list \<Rightarrow> CorrespondenceCache
   \<Rightarrow> ((suppression_key \<times> suppression_key) \<times> SuppressionCorrespondence) list \<times> CorrespondenceCache" where
  "pair_correspondences sha bs hs base_by_line head_by_line [] cache = ([], cache)"
| "pair_correspondences sha bs hs base_by_line head_by_line (line # rest) cache =
     (case (dict_list base_by_line line, dict_list head_by_line line) of
        ([(base_key, base_item)], [(head_key, head_item)]) \<Rightarrow>
          (let (c, cache1) = suppression_occurrence_continuity sha base_item head_item bs hs cache;
               (more, cache2) = pair_correspondences sha bs hs base_by_line head_by_line rest cache1
           in (((base_key, head_key), c) # more, cache2))
      | _ \<Rightarrow> pair_correspondences sha bs hs base_by_line head_by_line rest cache)"

text \<open>The dictionary of correspondences; two lines never give the same pair of keys.\<close>

definition suppression_pair_evidence ::
  "(string \<Rightarrow> string) \<Rightarrow> suppression_entry list \<Rightarrow> suppression_entry list \<Rightarrow> sources \<Rightarrow> sources
   \<Rightarrow> CorrespondenceCache
   \<Rightarrow> ((suppression_key \<times> suppression_key) \<times> SuppressionCorrespondence) list \<times> CorrespondenceCache" where
  "suppression_pair_evidence sha base_bucket head_bucket base_sources head_sources cache =
     (let bs = source_at base_sources (so_path (snd (hd base_bucket)));
          hs = source_at head_sources (so_path (snd (hd head_bucket)));
          base_by_line = suppression_entries_by_line base_bucket
            (suppression_physical_lines base_bucket (physical_lines bs));
          head_by_line = suppression_entries_by_line head_bucket
            (suppression_physical_lines head_bucket (physical_lines hs))
      in pair_correspondences sha bs hs base_by_line head_by_line
           (sorted_list_of_set (set (map fst base_by_line) \<inter> set (map fst head_by_line))) cache)"

text \<open>The loop over the zipped entries, then the surplus of the head.\<close>

fun fallback_loop ::
  "(string \<Rightarrow> string) \<Rightarrow> sources \<Rightarrow> sources \<Rightarrow> (suppression_entry \<times> suppression_entry) list \<Rightarrow> CorrespondenceCache
   \<Rightarrow> SuppressionPairing list \<times> SuppressionIntroduction list \<times> bool \<times> CorrespondenceCache" where
  "fallback_loop sha base_sources head_sources [] cache = ([], [], False, cache)"
| "fallback_loop sha base_sources head_sources (((base_key, base_item), (head_key, head_item)) # rest) cache =
     (let (c, cache1) = suppression_occurrence_continuity sha base_item head_item
             (source_at base_sources (so_path base_item)) (source_at head_sources (so_path head_item)) cache;
          (unchanged, introduced, unknown, cache2) = fallback_loop sha base_sources head_sources rest cache1
      in if sr_status c = CIntroduced
           then (unchanged, \<lparr>si_base_key = Some base_key, si_head_key = head_key, si_evidence = sr_evidence c\<rparr> # introduced,
                 unknown, cache2)
         else (\<lparr>sp_base_key = Some base_key, sp_head_key = head_key, sp_evidence = sr_evidence c\<rparr> # unchanged,
               introduced, sr_status c = CUnknown \<or> unknown, cache2))"

definition surplus_evidence :: "nat \<Rightarrow> nat \<Rightarrow> pydict" where
  "surplus_evidence base_count head_count =
     [(PStr ''algorithm'', PStr ''source-line-correspondence-v1''), (PStr ''base_count'', pint base_count),
      (PStr ''decision'', PStr ''ambiguous_surplus_candidate''), (PStr ''head_count'', pint head_count),
      (PStr ''status'', PStr ''unknown'')]"

definition suppression_fallback_pairs ::
  "(string \<Rightarrow> string) \<Rightarrow> suppression_entry list \<Rightarrow> suppression_entry list \<Rightarrow> sources \<Rightarrow> sources \<Rightarrow> CorrespondenceCache
   \<Rightarrow> SuppressionPairing list \<times> SuppressionIntroduction list \<times> bool \<times> CorrespondenceCache" where
  "suppression_fallback_pairs sha base_bucket head_bucket base_sources head_sources cache =
     (let n = min (length base_bucket) (length head_bucket);
          (unchanged, introduced, unknown, cache1) =
            fallback_loop sha base_sources head_sources (zip (take n base_bucket) (take n head_bucket)) cache;
          surplus = drop n head_bucket;
          evidence = surplus_evidence (length base_bucket) (length head_bucket)
      in if unknown
           then (unchanged @ map (\<lambda>(key, _). \<lparr>sp_base_key = None, sp_head_key = key, sp_evidence = evidence\<rparr>) surplus,
                 introduced, unknown, cache1)
         else (unchanged,
               introduced @ map (\<lambda>(key, _). \<lparr>si_base_key = None, si_head_key = key, si_evidence = []\<rparr>) surplus,
               unknown, cache1))"

definition pairing_of :: "(suppression_key \<times> suppression_key) \<times> SuppressionCorrespondence \<Rightarrow> SuppressionPairing" where
  "pairing_of c = \<lparr>sp_base_key = Some (fst (fst c)), sp_head_key = snd (fst c), sp_evidence = sr_evidence (snd c)\<rparr>"

definition introduction_of ::
  "(suppression_key \<times> suppression_key) \<times> SuppressionCorrespondence \<Rightarrow> SuppressionIntroduction" where
  "introduction_of c = \<lparr>si_base_key = Some (fst (fst c)), si_head_key = snd (fst c), si_evidence = sr_evidence (snd c)\<rparr>"

definition classify_changed_suppression_identity ::
  "(string \<Rightarrow> string) \<Rightarrow> suppression_entry list \<Rightarrow> suppression_entry list \<Rightarrow> sources \<Rightarrow> sources \<Rightarrow> CorrespondenceCache
   \<Rightarrow> SuppressionPairing list \<times> SuppressionIntroduction list \<times> bool \<times> CorrespondenceCache" where
  "classify_changed_suppression_identity sha base_bucket head_bucket base_sources head_sources cache =
     (let (correspondences, cache1) =
            suppression_pair_evidence sha base_bucket head_bucket base_sources head_sources cache;
          pairs = map pairing_of (filter (\<lambda>c. sr_status (snd c) \<noteq> CIntroduced) correspondences);
          introduced = map introduction_of (filter (\<lambda>c. sr_status (snd c) = CIntroduced) correspondences);
          matched_base = set (map (\<lambda>c. fst (fst c)) correspondences);
          matched_head = set (map (\<lambda>c. snd (fst c)) correspondences);
          (fallback_pairs, fallback_introduced, fallback_unknown, cache2) =
            suppression_fallback_pairs sha (filter (\<lambda>e. fst e \<notin> matched_base) base_bucket)
              (filter (\<lambda>e. fst e \<notin> matched_head) head_bucket) base_sources head_sources cache1;
          unknown = list_ex (\<lambda>c. sr_status (snd c) = CUnknown) correspondences
      in (pairs @ fallback_pairs, introduced @ fallback_introduced, unknown \<or> fallback_unknown, cache2))"

definition new_introduction :: "suppression_entry \<Rightarrow> SuppressionIntroduction" where
  "new_introduction entry = \<lparr>si_base_key = None, si_head_key = fst entry, si_evidence = []\<rparr>"

definition classify_suppression_identity ::
  "(string \<Rightarrow> string) \<Rightarrow> suppression_entry list \<Rightarrow> suppression_entry list \<Rightarrow> sources \<Rightarrow> sources \<Rightarrow> CorrespondenceCache
   \<Rightarrow> SuppressionPairing list \<times> SuppressionIntroduction list \<times> bool \<times> CorrespondenceCache" where
  "classify_suppression_identity sha base_bucket head_bucket base_sources head_sources cache =
     (if base_bucket = [] then ([], map new_introduction head_bucket, False, cache)
      else if head_bucket = [] then ([], [], False, cache)
      else if source_at base_sources (so_path (snd (hd base_bucket)))
              = source_at head_sources (so_path (snd (hd head_bucket)))
        then (let n = min (length base_bucket) (length head_bucket)
              in (map (\<lambda>(b, h). \<lparr>sp_base_key = Some (fst b), sp_head_key = fst h, sp_evidence = []\<rparr>)
                    (zip (take n base_bucket) (take n head_bucket)),
                  map new_introduction (drop n head_bucket), False, cache))
      else classify_changed_suppression_identity sha base_bucket head_bucket base_sources head_sources cache)"

section \<open>Classification\<close>

definition suppression_pairing_sort_key ::
  "SuppressionPairing \<Rightarrow> bool \<times> suppression_key \<times> suppression_key" where
  "suppression_pairing_sort_key p =
     (sp_base_key p = None, case sp_base_key p of None \<Rightarrow> sp_head_key p | Some k \<Rightarrow> k, sp_head_key p)"

fun classify_identities ::
  "(string \<Rightarrow> string) \<Rightarrow> (suppression_identity \<times> suppression_entry list) list
   \<Rightarrow> (suppression_identity \<times> suppression_entry list) list \<Rightarrow> sources \<Rightarrow> sources \<Rightarrow> suppression_identity list
   \<Rightarrow> CorrespondenceCache
   \<Rightarrow> SuppressionPairing list \<times> SuppressionIntroduction list \<times> bool \<times> CorrespondenceCache" where
  "classify_identities sha base_buckets head_buckets base_sources head_sources [] cache = ([], [], False, cache)"
| "classify_identities sha base_buckets head_buckets base_sources head_sources (identity # rest) cache =
     (let (pairs, introduced, unknown, cache1) =
            classify_suppression_identity sha (dict_list base_buckets identity) (dict_list head_buckets identity)
              base_sources head_sources cache;
          (more_pairs, more_introduced, more_unknown, cache2) =
            classify_identities sha base_buckets head_buckets base_sources head_sources rest cache1
      in (pairs @ more_pairs, introduced @ more_introduced, unknown \<or> more_unknown, cache2))"

definition classify_suppression_keys ::
  "(string \<Rightarrow> string) \<Rightarrow> suppression_entry list \<Rightarrow> suppression_entry list \<Rightarrow> sources \<Rightarrow> sources \<Rightarrow> CorrespondenceCache
   \<Rightarrow> SuppressionPairing list \<times> SuppressionIntroduction list \<times> bool \<times> CorrespondenceCache" where
  "classify_suppression_keys sha base_by_key head_by_key base_sources head_sources cache =
     (let base_buckets = suppression_identity_buckets base_by_key;
          head_buckets = suppression_identity_buckets head_by_key;
          (unchanged, introduced, unknown, cache1) =
            classify_identities sha base_buckets head_buckets base_sources head_sources
              (sorted_list_of_set (set (map fst base_buckets) \<union> set (map fst head_buckets))) cache
      in (sort_key suppression_pairing_sort_key unchanged, sort_key si_head_key introduced, unknown, cache1))"

text \<open>\<open>index[key]\<close>; the keys of pairings and introductions come from the index.\<close>

definition occurrence_at :: "suppression_entry list \<Rightarrow> suppression_key \<Rightarrow> SuppressionOccurrence" where
  "occurrence_at index key = the (map_of index key)"

definition suppression_delta_context ::
  "(string \<Rightarrow> string) \<Rightarrow> SuppressionOccurrence list \<Rightarrow> SuppressionOccurrence list \<Rightarrow> sources \<Rightarrow> sources
   \<Rightarrow> (string \<times> string) list \<Rightarrow> SuppressionDeltaContext" where
  "suppression_delta_context sha base_occurrences head_occurrences base_sources head_sources renames =
     (let (base_by_key, head_by_key) = suppression_indexes base_occurrences head_occurrences renames
      in \<lparr>dx_base_by_key = base_by_key, dx_head_by_key = head_by_key, dx_base_sources = base_sources,
          dx_head_sources = head_sources, dx_base_manifest_digest = source_manifest_digest sha base_sources,
          dx_head_manifest_digest = source_manifest_digest sha head_sources\<rparr>)"

definition introduced_suppression_finding ::
  "(string \<Rightarrow> string) \<Rightarrow> SuppressionDeltaContext \<Rightarrow> SuppressionIntroduction \<Rightarrow> SuppressionFinding" where
  "introduced_suppression_finding sha context introduction =
     (let head_item = occurrence_at (dx_head_by_key context) (si_head_key introduction);
          base_item = map_option (occurrence_at (dx_base_by_key context)) (si_base_key introduction)
      in \<lparr>sf_kind = so_kind head_item, sf_path = so_path head_item, sf_line = so_line head_item, sf_blocking = True,
          sf_evidence = suppression_evidence sha head_item base_item
            (case base_item of None \<Rightarrow> None | Some b \<Rightarrow> map_of (dx_base_sources context) (so_path b))
            (map_of (dx_head_sources context) (so_path head_item))
            (dx_base_manifest_digest context) (dx_head_manifest_digest context) (si_evidence introduction)\<rparr>)"

definition introduced_suppression_findings ::
  "(string \<Rightarrow> string) \<Rightarrow> SuppressionIntroduction list \<Rightarrow> SuppressionDeltaContext \<Rightarrow> SuppressionFinding list" where
  "introduced_suppression_findings sha introductions context =
     map (introduced_suppression_finding sha context) introductions"

text \<open>The finding for a pair that is quarantined, if it is.\<close>

definition quarantine_finding ::
  "(string \<Rightarrow> string) \<Rightarrow> SuppressionDeltaContext \<Rightarrow> SuppressionPairing \<Rightarrow> SuppressionFinding option" where
  "quarantine_finding sha context pair =
     (let head_item = occurrence_at (dx_head_by_key context) (sp_head_key pair);
          base_item = map_option (occurrence_at (dx_base_by_key context)) (sp_base_key pair);
          base_source = (case base_item of
                           Some b \<Rightarrow> map_of (dx_base_sources context) (so_path b)
                         | None \<Rightarrow> map_of (dx_base_sources context) (fst (sp_head_key pair)));
          head_source = source_at (dx_head_sources context) (so_path head_item)
      in if base_item \<noteq> None \<and> base_source = Some head_source then None
         else Some \<lparr>sf_kind = ''unchanged_suppression_on_changed_file'', sf_path = so_path head_item,
                sf_line = so_line head_item, sf_blocking = True,
                sf_evidence = suppression_evidence sha head_item base_item base_source (Some head_source)
                  (dx_base_manifest_digest context) (dx_head_manifest_digest context) (sp_evidence pair)\<rparr>)"

definition append_quarantined_suppressions ::
  "(string \<Rightarrow> string) \<Rightarrow> SuppressionFinding list \<Rightarrow> SuppressionPairing list \<Rightarrow> SuppressionDeltaContext
   \<Rightarrow> SuppressionFinding list \<times> bool" where
  "append_quarantined_suppressions sha findings unchanged_pairs context =
     (let quarantined = List.map_filter (quarantine_finding sha context) unchanged_pairs
      in (findings @ quarantined, quarantined \<noteq> []))"

definition suppression_status :: "bool \<Rightarrow> bool \<Rightarrow> differential_status" where
  "suppression_status quarantined introduced =
     (if quarantined then DUnknown else if introduced then DFail else DPass)"

definition suppression_classification_of ::
  "(string \<Rightarrow> string) \<Rightarrow> SuppressionDeltaContext \<Rightarrow> pydict list option \<Rightarrow> SuppressionClassification" where
  "suppression_classification_of sha context missing_base_findings =
     (let (unchanged_pairs, introductions, unknown, _) =
            classify_suppression_keys sha (dx_base_by_key context) (dx_head_by_key context)
              (dx_base_sources context) (dx_head_sources context) empty_cache;
          unchanged = map (\<lambda>p. occurrence_at (dx_head_by_key context) (sp_head_key p)) unchanged_pairs;
          introduced = map (\<lambda>i. occurrence_at (dx_head_by_key context) (si_head_key i)) introductions;
          (findings, quarantined) = append_quarantined_suppressions sha
            (introduced_suppression_findings sha introductions context) unchanged_pairs context
      in \<lparr>sl_status = suppression_status quarantined (introduced \<noteq> []),
          sl_findings = findings, sl_introduced = introduced, sl_unchanged = unchanged,
          sl_missing_base_disposition =
            (if introduced \<noteq> [] \<and> missing_base_findings \<noteq> None \<and> missing_base_findings \<noteq> Some []
             then ''unknown'' else ''ordinary''),
          sl_reason = (if unknown then ''suppression_correspondence_unknown'' else [])\<rparr>)"

definition suppression_manifest_error :: "string \<Rightarrow> SuppressionClassification" where
  "suppression_manifest_error name =
     \<lparr>sl_status = DUnknown, sl_findings = [], sl_introduced = [], sl_unchanged = [],
      sl_missing_base_disposition = ''ordinary'', sl_reason = ''suppression_manifest_error:'' @ name\<rparr>"

definition classify_suppression_delta ::
  "(string \<Rightarrow> string) \<Rightarrow> tokenizer \<Rightarrow> sources \<Rightarrow> sources \<Rightarrow> (string \<times> string) list option \<Rightarrow> pydict list option
   \<Rightarrow> pydict option \<Rightarrow> suppression_error + SuppressionClassification" where
  "classify_suppression_delta sha tok base_sources head_sources rename_facts missing_base_findings waiver =
     (if waiver \<noteq> None then Inl (UnsupportedWaiverInput ''C14 has no authenticated waiver ingestion path'')
      else (let base = python_sources base_sources; head = python_sources head_sources
            in Inr (case suppression_occurrences tok base of
                      Inl e \<Rightarrow> suppression_manifest_error e
                    | Inr base_occurrences \<Rightarrow>
                        (case suppression_occurrences tok head of
                           Inl e \<Rightarrow> suppression_manifest_error e
                         | Inr head_occurrences \<Rightarrow>
                             suppression_classification_of sha
                               (suppression_delta_context sha base_occurrences head_occurrences base head
                                  (case rename_facts of None \<Rightarrow> [] | Some r \<Rightarrow> r)) missing_base_findings))))"

end
