(* ===== verification/Suppression_Gate.thy ===== *)
theory Suppression_Gate
  imports Suppression_Delta
begin

text \<open>
  What the suppression delta promises: every suppression comment of the head revision is classified once, the gate
  passes exactly on unchanged files, an occurrence is taken over only on a unique optimal line match, and the
  work for a pair of sources is bounded.
\<close>

section \<open>The index\<close>

definition indexed_ok ::
  "(string \<times> string) list \<Rightarrow> SuppressionOccurrence list \<Rightarrow> (suppression_identity \<times> nat) list \<times> suppression_entry list \<Rightarrow> bool" where
  "indexed_ok rr occs s =
     ((\<forall>idn. (case map_of (fst s) idn of None \<Rightarrow> 0 | Some n \<Rightarrow> n) = length (filter (\<lambda>x. occurrence_identity rr x = idn) occs))
      \<and> map snd (snd s) = occs \<and> distinct (map fst (snd s))
      \<and> (\<forall>e \<in> set (snd s). \<exists>n < length (filter (\<lambda>y. occurrence_identity rr y = occurrence_identity rr (snd e)) occs).
           fst e = suppression_key (snd e) rr n))"

lemma index_fresh:
  assumes "indexed_ok rr xs s"
  shows "suppression_key x rr (length (filter (\<lambda>y. occurrence_identity rr y = occurrence_identity rr x) xs)) \<notin> fst ` set (snd s)"
proof
  assume "suppression_key x rr (length (filter (\<lambda>y. occurrence_identity rr y = occurrence_identity rr x) xs)) \<in> fst ` set (snd s)"
  then obtain e where e: "e \<in> set (snd s)"
    "fst e = suppression_key x rr (length (filter (\<lambda>y. occurrence_identity rr y = occurrence_identity rr x) xs))" by auto
  from assms e(1) obtain m where "m < length (filter (\<lambda>z. occurrence_identity rr z = occurrence_identity rr (snd e)) xs)"
    "fst e = suppression_key (snd e) rr m" unfolding indexed_ok_def by blast
  with e(2) show False by (auto simp: suppression_key_def occurrence_identity_def)
qed

lemma indexed_ok_step:
  assumes "indexed_ok rr xs s"
  shows "indexed_ok rr (xs @ [x]) (index_step rr s x)"
proof -
  let ?idn = "occurrence_identity rr x"
  let ?n = "length (filter (\<lambda>y. occurrence_identity rr y = ?idn) xs)"
  note ok = assms [unfolded indexed_ok_def]
  have counts: "(case map_of (fst s) idn of None \<Rightarrow> 0 | Some n \<Rightarrow> n) = length (filter (\<lambda>x. occurrence_identity rr x = idn) xs)"
    for idn using ok by blast
  have step: "index_step rr s x = (AList.update ?idn (?n + 1) (fst s), snd s @ [(suppression_key x rr ?n, x)])"
    by (simp add: index_step_def Let_def split_beta counts [of ?idn] update_fresh [OF index_fresh [OF assms]])
  have "(case map_of (AList.update ?idn (?n + 1) (fst s)) idn of None \<Rightarrow> 0 | Some n \<Rightarrow> n)
      = length (filter (\<lambda>x. occurrence_identity rr x = idn) (xs @ [x]))" for idn
    using counts [of idn] by (simp add: update_conv')
  moreover have "\<exists>n < length (filter (\<lambda>z. occurrence_identity rr z = occurrence_identity rr (snd e)) (xs @ [x])).
      fst e = suppression_key (snd e) rr n" if "e \<in> set (snd s @ [(suppression_key x rr ?n, x)])" for e
  proof (cases "e \<in> set (snd s)")
    case True
    with ok obtain n where "n < length (filter (\<lambda>z. occurrence_identity rr z = occurrence_identity rr (snd e)) xs)"
      "fst e = suppression_key (snd e) rr n" by blast
    then show ?thesis by (intro exI [of _ n]) auto
  next
    case False
    with that show ?thesis by (auto intro!: exI [of _ ?n])
  qed
  moreover have "map snd (snd s) = xs" "distinct (map fst (snd s))" using ok by blast+
  ultimately show ?thesis
    using index_fresh [OF assms, of x] unfolding step indexed_ok_def fst_conv snd_conv by auto
qed

lemma index_ok: "indexed_ok rr occs (foldl (index_step rr) ([], []) occs)"
  by (induction occs rule: rev_induct) (simp add: indexed_ok_def, simp add: indexed_ok_step)

lemma index_occurrences: "map snd (suppression_occurrence_index occs rr) = occs"
  and index_distinct: "distinct (map fst (suppression_occurrence_index occs rr))"
  using index_ok [of rr occs] by (simp_all add: indexed_ok_def suppression_occurrence_index_def)

lemma index_identity:
  "(k, x) \<in> set (suppression_occurrence_index occs rr) \<Longrightarrow> identity_of_key k = occurrence_identity rr x"
  using index_ok [of rr occs]
  by (fastforce simp: indexed_ok_def suppression_occurrence_index_def suppression_key_def occurrence_identity_def)

lemma index_entry:
  "e \<in> set (suppression_occurrence_index occs rr) \<Longrightarrow> identity_of_key (fst e) = occurrence_identity rr (snd e)"
  using index_identity [of "fst e" "snd e"] by simp

lemma occurrence_at_index:
  "(k, x) \<in> set (suppression_occurrence_index occs rr) \<Longrightarrow> occurrence_at (suppression_occurrence_index occs rr) k = x"
  by (simp add: occurrence_at_def index_distinct)

lemma index_read_back:
  "map (occurrence_at (suppression_occurrence_index occs rr)) (map fst (suppression_occurrence_index occs rr)) = occs"
proof -
  have "map (occurrence_at (suppression_occurrence_index occs rr)) (map fst (suppression_occurrence_index occs rr))
      = map snd (suppression_occurrence_index occs rr)"
    by (auto intro!: map_cong simp: occurrence_at_index)
  then show ?thesis by (simp only: index_occurrences)
qed

lemma bucket_entries:
  "dict_list (suppression_identity_buckets index) idn =
     filter (\<lambda>e. identity_of_key (fst e) = idn) (sort_key fst index)"
  unfolding suppression_identity_buckets_def
  by (subst dict_list_group [where f = "\<lambda>e. identity_of_key (fst e)"]) (simp add: dict_list_def)

lemma bucket_distinct:
  assumes "distinct (map fst index)"
  shows "distinct (map fst (dict_list (suppression_identity_buckets index) idn))"
proof -
  have "mset (map fst (sort_key fst index)) = mset (map fst index)" by simp
  then have "distinct (map fst (sort_key fst index))" using assms mset_eq_imp_distinct_iff by blast
  then show ?thesis by (simp add: bucket_entries distinct_map_filter)
qed

lemma bucket_keys:
  "set (map fst (suppression_identity_buckets index)) = (\<lambda>e. identity_of_key (fst e)) ` set index"
  unfolding suppression_identity_buckets_def
  using keys_group [where f = "\<lambda>e. identity_of_key (fst e)" and d = "[]" and xs = "sort_key fst index"] by simp

section \<open>Every head occurrence is classified once\<close>

type_synonym pairing_result = "SuppressionPairing list \<times> SuppressionIntroduction list \<times> bool \<times> CorrespondenceCache"

definition classified_heads :: "pairing_result \<Rightarrow> suppression_key multiset" where
  "classified_heads r = mset (map sp_head_key (fst r)) + mset (map si_head_key (fst (snd r)))"

text \<open>What the three levels of pairing promise: each head key of the bucket is classified exactly once, and base keys
  are keys of the base bucket.\<close>

locale pairing =
  fixes classify :: "suppression_entry list \<Rightarrow> suppression_entry list \<Rightarrow> CorrespondenceCache \<Rightarrow> pairing_result"
  assumes heads: "distinct (map fst hb) \<Longrightarrow> classified_heads (classify bb hb c) = mset (map fst hb)"
    and bases: "p \<in> set (fst (classify bb hb c)) \<Longrightarrow> sp_base_key p = Some k \<Longrightarrow> k \<in> fst ` set bb"
begin

lemma pairing_keys:
  assumes "distinct (map fst hb)" and "p \<in> set (fst (classify bb hb c))"
  shows "sp_head_key p \<in> fst ` set hb"
proof -
  have "sp_head_key p \<in># classified_heads (classify bb hb c)" using assms(2) by (simp add: classified_heads_def)
  then show ?thesis by (simp add: heads [OF assms(1)])
qed

lemma none_without_heads: "fst (classify bb [] c) = [] \<and> fst (snd (classify bb [] c)) = []"
  using heads [of "[]" bb c] by (simp add: classified_heads_def)

lemma all_paired:
  assumes "distinct (map fst hb)" and "fst (snd (classify bb hb c)) = []"
  shows "mset (map sp_head_key (fst (classify bb hb c))) = mset (map fst hb)"
  using heads [OF assms(1), of bb c] assms(2) by (simp add: classified_heads_def)

end

lemma fallback_loop_heads:
  "classified_heads (fallback_loop sha bs hs zs c) = mset (map (fst \<circ> snd) zs)"
  by (induction sha bs hs zs c rule: fallback_loop.induct)
    (auto simp: classified_heads_def Let_def split: prod.splits)

lemma fallback_loop_bases:
  "p \<in> set (fst (fallback_loop sha bs hs zs c)) \<Longrightarrow> sp_base_key p = Some k \<Longrightarrow> k \<in> (fst \<circ> fst) ` set zs"
  by (induction sha bs hs zs c rule: fallback_loop.induct)
    (auto simp: Let_def split: prod.splits if_splits)

lemma mset_zip_snd:
  "length xs = length ys \<Longrightarrow> mset (map (fst \<circ> snd) (zip xs ys)) = mset (map fst ys)"
  by (metis map_map map_snd_zip)

lemma fallback_heads: "classified_heads (suppression_fallback_pairs sha bb hb bs hs c) = mset (map fst hb)"
proof -
  let ?n = "min (length bb) (length hb)"
  obtain us xs u c1 where l: "fallback_loop sha bs hs (zip (take ?n bb) (take ?n hb)) c = (us, xs, u, c1)"
    by (cases "fallback_loop sha bs hs (zip (take ?n bb) (take ?n hb)) c")
  have "mset (map sp_head_key us) + mset (map si_head_key xs) = mset (map fst (take ?n hb))"
    using fallback_loop_heads [of sha bs hs "zip (take ?n bb) (take ?n hb)" c]
    unfolding l by (simp add: classified_heads_def mset_zip_snd [simplified])
  moreover have "mset (map fst hb) = mset (map fst (take ?n hb)) + mset (map fst (drop ?n hb))"
    by (metis append_take_drop_id map_append mset_append)
  moreover have "image_mset (sp_head_key \<circ> (\<lambda>(k, _). \<lparr>sp_base_key = None, sp_head_key = k, sp_evidence = e\<rparr>)) M
      = image_mset fst M" for e and M :: "suppression_entry multiset"
    by (intro image_mset_cong) (auto split: prod.splits)
  moreover have "image_mset (si_head_key \<circ> (\<lambda>(k, _). \<lparr>si_base_key = None, si_head_key = k, si_evidence = e\<rparr>)) M
      = image_mset fst M" for e and M :: "suppression_entry multiset"
    by (intro image_mset_cong) (auto split: prod.splits)
  ultimately show ?thesis
    by (simp add: suppression_fallback_pairs_def Let_def l classified_heads_def multiset.map_comp)
qed

lemma fallback_bases:
  assumes "p \<in> set (fst (suppression_fallback_pairs sha bb hb bs hs c))" and "sp_base_key p = Some k"
  shows "k \<in> fst ` set bb"
proof -
  let ?zs = "zip (take (min (length bb) (length hb)) bb) (take (min (length bb) (length hb)) hb)"
  have "p \<in> set (fst (fallback_loop sha bs hs ?zs c))"
    using assms by (auto simp: suppression_fallback_pairs_def Let_def split: prod.splits if_splits)
  then have "k \<in> (fst \<circ> fst) ` set ?zs" using assms(2) by (rule fallback_loop_bases)
  then show ?thesis by (auto dest!: set_zip_leftD in_set_takeD)
qed

interpretation fallback: pairing "\<lambda>bb hb c. suppression_fallback_pairs sha bb hb bs hs c"
  by unfold_locales (rule fallback_heads, erule fallback_bases, assumption)

text \<open>The entries found on one physical line.\<close>

lemma entries_by_line:
  "dict_list (suppression_entries_by_line bucket physical) line =
     filter (\<lambda>e. map_of physical (fst e) = Some (Some line)) bucket"
proof -
  have "dict_list (foldl (\<lambda>d e. case map_of physical (fst e) of Some (Some l) \<Rightarrow> dict_push d l e | _ \<Rightarrow> d) d bucket) line
      = dict_list d line @ filter (\<lambda>e. map_of physical (fst e) = Some (Some line)) bucket" for d
    by (induction bucket arbitrary: d) (auto simp: dict_list_push split: option.splits)
  from this [of "[]"] show ?thesis by (simp add: suppression_entries_by_line_def dict_list_def)
qed

lemma pair_correspondence_keys:
  assumes "((bk, hk), r) \<in> set (fst (pair_correspondences sha bs hs bl hl lines c))"
  shows "\<exists>l \<in> set lines. bk \<in> fst ` set (dict_list bl l) \<and> hk \<in> fst ` set (dict_list hl l)"
  using assms
  by (induction sha bs hs bl hl lines c rule: pair_correspondences.induct)
    (fastforce simp: Let_def split: prod.splits list.splits)+

lemma pair_correspondences_distinct:
  assumes "distinct lines" and "\<And>l l' k. k \<in> fst ` set (dict_list hl l) \<Longrightarrow> k \<in> fst ` set (dict_list hl l') \<Longrightarrow> l = l'"
  shows "distinct (map (\<lambda>c. snd (fst c)) (fst (pair_correspondences sha bs hs bl hl lines c)))"
  using assms(1)
proof (induction lines arbitrary: c)
  case (Cons line rest)
  show ?case
  proof (cases "\<exists>bk b hk h. dict_list bl line = [(bk, b)] \<and> dict_list hl line = [(hk, h)]")
    case True
    then obtain bk b hk h where e: "dict_list bl line = [(bk, b)]" "dict_list hl line = [(hk, h)]" by blast
    obtain r c1 where r: "suppression_occurrence_continuity sha b h bs hs c = (r, c1)" by fastforce
    let ?more = "fst (pair_correspondences sha bs hs bl hl rest c1)"
    have "distinct (map (\<lambda>c. snd (fst c)) ?more)"
      using Cons.prems by (intro Cons.IH) simp
    moreover have "hk \<notin> (\<lambda>c. snd (fst c)) ` set ?more"
    proof
      assume "hk \<in> (\<lambda>c. snd (fst c)) ` set ?more"
      then obtain bk' r' where "((bk', hk), r') \<in> set ?more" by force
      from pair_correspondence_keys [OF this] obtain l where "l \<in> set rest" "hk \<in> fst ` set (dict_list hl l)" by blast
      then show False using Cons.prems assms(2) [of hk l line] e(2) by auto
    qed
    ultimately show ?thesis by (simp add: e r Let_def split_beta)
  qed (use Cons in \<open>auto split: list.splits\<close>)
qed simp

lemma pair_evidence_keys:
  assumes "((bk, hk), r) \<in> set (fst (suppression_pair_evidence sha bb hb bs hs c))"
  shows "bk \<in> fst ` set bb \<and> hk \<in> fst ` set hb"
  using pair_correspondence_keys [OF assms [unfolded suppression_pair_evidence_def Let_def]]
  by (auto simp: entries_by_line)

lemma pair_evidence_distinct: "distinct (map (\<lambda>c. snd (fst c)) (fst (suppression_pair_evidence sha bb hb bs hs c)))"
  unfolding suppression_pair_evidence_def Let_def
  by (rule pair_correspondences_distinct) (auto simp: entries_by_line)

lemma changed_heads:
  assumes "distinct (map fst hb)"
  shows "classified_heads (classify_changed_suppression_identity sha bb hb bs hs c) = mset (map fst hb)"
proof -
  obtain cs c1 where e: "suppression_pair_evidence sha bb hb bs hs c = (cs, c1)" by fastforce
  define keys where "keys = map (\<lambda>c. snd (fst c)) cs"
  let ?rb = "filter (\<lambda>e. fst e \<notin> set (map (\<lambda>c. fst (fst c)) cs)) bb" and ?rh = "filter (\<lambda>e. fst e \<notin> set keys) hb"
  obtain ps xs u c2 where f: "suppression_fallback_pairs sha ?rb ?rh bs hs c1 = (ps, xs, u, c2)"
    by (cases "suppression_fallback_pairs sha ?rb ?rh bs hs c1")
  have rest: "mset (map sp_head_key ps) + mset (map si_head_key xs) = mset (map fst ?rh)"
    using fallback_heads [of sha ?rb ?rh bs hs c1] unfolding f by (simp add: classified_heads_def)
  have "set keys \<subseteq> fst ` set hb"
    using pair_evidence_keys [of _ _ _ sha bb hb bs hs c] by (fastforce simp: e keys_def)
  then have "set keys = set (map fst (filter (\<lambda>e. fst e \<in> set keys) hb))" by (rule set_filter_image)
  moreover have "distinct keys" using pair_evidence_distinct [of sha bb hb bs hs c] by (simp add: e keys_def)
  ultimately have "mset keys = mset (map fst (filter (\<lambda>e. fst e \<in> set keys) hb))"
    using assms distinct_map_filter set_eq_iff_mset_eq_distinct by blast
  then have all: "mset keys + mset (map fst ?rh) = mset (map fst hb)"
    using mset_filter_split [of fst "\<lambda>e. fst e \<in> set keys" hb] by (simp add: add.commute)
  have heads: "mset (map sp_head_key (map pairing_of (filter (\<lambda>c. sr_status (snd c) \<noteq> CIntroduced) cs)))
      + mset (map si_head_key (map introduction_of (filter (\<lambda>c. sr_status (snd c) = CIntroduced) cs))) = mset keys"
    using mset_filter_split [of "\<lambda>c. snd (fst c)" "\<lambda>c. sr_status (snd c) = CIntroduced" cs]
    by (simp add: keys_def pairing_of_def introduction_of_def comp_def)
  show ?thesis
    unfolding classify_changed_suppression_identity_def Let_def e prod.case keys_def [symmetric] f all [symmetric]
      rest [symmetric] heads [symmetric] classified_heads_def by simp
qed

lemma changed_bases:
  assumes "p \<in> set (fst (classify_changed_suppression_identity sha bb hb bs hs c))" and "sp_base_key p = Some k"
  shows "k \<in> fst ` set bb"
proof -
  obtain cs c1 where e: "suppression_pair_evidence sha bb hb bs hs c = (cs, c1)" by fastforce
  from assms(1) consider x where "x \<in> set cs" "p = pairing_of x"
    | "p \<in> set (fst (suppression_fallback_pairs sha (filter (\<lambda>e. fst e \<notin> set (map (\<lambda>c. fst (fst c)) cs)) bb)
        (filter (\<lambda>e. fst e \<notin> set (map (\<lambda>c. snd (fst c)) cs)) hb) bs hs c1))"
    by (auto simp: classify_changed_suppression_identity_def Let_def e split: prod.splits)
  then show ?thesis
  proof cases
    case 1
    then have "((fst (fst x), snd (fst x)), snd x) \<in> set (fst (suppression_pair_evidence sha bb hb bs hs c))"
      by (simp add: e)
    from pair_evidence_keys [OF this] 1 assms(2) show ?thesis by (simp add: pairing_of_def)
  next
    case 2
    from fallback_bases [OF 2 assms(2)] show ?thesis by auto
  qed
qed

interpretation changed: pairing "\<lambda>bb hb c. classify_changed_suppression_identity sha bb hb bs hs c"
  by unfold_locales (erule changed_heads, erule changed_bases, assumption)

lemma paired_heads:
  "map (\<lambda>p. fst (snd p)) (zip (take (min (length bb) (length hb)) bb) (take (min (length bb) (length hb)) hb))
     = map fst (take (min (length bb) (length hb)) hb)"
  by (simp flip: map_map [of fst snd, unfolded comp_def])

lemma identity_heads:
  assumes "distinct (map fst hb)"
  shows "classified_heads (classify_suppression_identity sha bb hb bs hs c) = mset (map fst hb)"
proof -
  let ?n = "min (length bb) (length hb)"
  have "mset (map fst (take ?n hb)) + mset (map fst (drop ?n hb)) = mset (map fst hb)"
    by (metis append_take_drop_id map_append mset_append)
  with changed_heads [OF assms, of sha bb bs hs c] show ?thesis
    unfolding classify_suppression_identity_def Let_def
    by (simp add: classified_heads_def new_introduction_def comp_def split_beta paired_heads flip: mset_map)
qed

lemma identity_bases:
  assumes "p \<in> set (fst (classify_suppression_identity sha bb hb bs hs c))" and "sp_base_key p = Some k"
  shows "k \<in> fst ` set bb"
  using assms changed_bases [of p sha bb hb bs hs c k]
  by (auto simp: classify_suppression_identity_def Let_def split: if_splits
      dest!: set_zip_leftD in_set_takeD intro: rev_image_eqI)

interpretation identity: pairing "\<lambda>bb hb c. classify_suppression_identity sha bb hb bs hs c"
  by unfold_locales (erule identity_heads, erule identity_bases, assumption)

lemma classify_identities_Cons:
  fixes sha bbs hbs bs hs c
  defines "r idn \<equiv> classify_suppression_identity sha (dict_list bbs idn) (dict_list hbs idn) bs hs c"
  shows "fst (classify_identities sha bbs hbs bs hs (idn # idns) c)
       = fst (r idn) @ fst (classify_identities sha bbs hbs bs hs idns (snd (snd (snd (r idn)))))"
    and "fst (snd (classify_identities sha bbs hbs bs hs (idn # idns) c))
       = fst (snd (r idn)) @ fst (snd (classify_identities sha bbs hbs bs hs idns (snd (snd (snd (r idn))))))"
  by (simp_all add: r_def Let_def split_beta)

declare classify_identities.simps(2) [simp del]

lemma identities_heads:
  assumes "\<forall>idn \<in> set idns. distinct (map fst (dict_list hbs idn))"
  shows "classified_heads (classify_identities sha bbs hbs bs hs idns c)
       = (\<Sum>idn\<leftarrow>idns. mset (map fst (dict_list hbs idn)))"
  using assms
proof (induction idns arbitrary: c)
  case (Cons idn idns)
  let ?r = "classify_suppression_identity sha (dict_list bbs idn) (dict_list hbs idn) bs hs c"
  have "classified_heads (classify_identities sha bbs hbs bs hs (idn # idns) c)
      = classified_heads ?r + classified_heads (classify_identities sha bbs hbs bs hs idns (snd (snd (snd ?r))))"
    by (simp add: classified_heads_def classify_identities_Cons)
  with Cons identity.heads show ?case by simp
qed (simp add: classified_heads_def)

text \<open>Every pairing and introduction comes from the classification of one identity.\<close>

lemma identities_origin:
  "p \<in> set (fst (classify_identities sha bbs hbs bs hs idns c)) \<Longrightarrow>
     \<exists>idn \<in> set idns. \<exists>c'. p \<in> set (fst (classify_suppression_identity sha (dict_list bbs idn) (dict_list hbs idn) bs hs c'))"
  by (induction idns arbitrary: c) (fastforce simp: classify_identities_Cons)+

lemma identities_none_introduced:
  "fst (snd (classify_identities sha bbs hbs bs hs idns c)) = [] \<Longrightarrow> idn \<in> set idns \<Longrightarrow>
     \<exists>c'. fst (snd (classify_suppression_identity sha (dict_list bbs idn) (dict_list hbs idn) bs hs c')) = []"
  by (induction idns arbitrary: c) (auto simp: classify_identities_Cons)

lemma identities_nothing_introduced:
  "\<forall>idn \<in> set idns. \<forall>c. fst (snd (classify_suppression_identity sha (dict_list bbs idn) (dict_list hbs idn) bs hs c)) = []
     \<Longrightarrow> fst (snd (classify_identities sha bbs hbs bs hs idns c)) = []"
  by (induction idns arbitrary: c) (auto simp: classify_identities_Cons)

abbreviation identities_of :: "suppression_entry list \<Rightarrow> suppression_entry list \<Rightarrow> suppression_identity list" where
  "identities_of bi hi \<equiv> sorted_list_of_set (set (map fst (suppression_identity_buckets bi))
     \<union> set (map fst (suppression_identity_buckets hi)))"

lemma sort_key_Nil_iff [simp]: "sort_key f xs = [] \<longleftrightarrow> xs = []"
  by (metis length_0_conv length_sort)

lemma classify_keys_parts:
  fixes sha bi hi bs hs c
  defines "r \<equiv> classify_identities sha (suppression_identity_buckets bi) (suppression_identity_buckets hi) bs hs
     (identities_of bi hi) c"
  shows "set (fst (classify_suppression_keys sha bi hi bs hs c)) = set (fst r)"
    and "fst (snd (classify_suppression_keys sha bi hi bs hs c)) = [] \<longleftrightarrow> fst (snd r) = []"
  by (simp_all add: classify_suppression_keys_def r_def Let_def split_beta)

lemma keys_heads:
  assumes "distinct (map fst head_index)"
  shows "classified_heads (classify_suppression_keys sha base_index head_index bs hs c) = mset (map fst head_index)"
proof -
  let ?bb = "suppression_identity_buckets base_index" and ?hb = "suppression_identity_buckets head_index"
  let ?ids = "sorted_list_of_set (set (map fst ?bb) \<union> set (map fst ?hb))"
  have d: "distinct (map fst (dict_list ?hb idn))" for idn using assms by (rule bucket_distinct)
  have "\<forall>e \<in> set (sort_key fst head_index). identity_of_key (fst e) \<in> set ?ids"
    using bucket_keys [of head_index] by auto
  then have "mset (sort_key fst head_index)
      = (\<Sum>idn\<leftarrow>?ids. mset (filter (\<lambda>e. identity_of_key (fst e) = idn) (sort_key fst head_index)))"
    by (intro mset_partition) auto
  then have "mset (map fst head_index) = image_mset fst (\<Sum>idn\<leftarrow>?ids. mset (dict_list ?hb idn))"
    by (simp add: bucket_entries)
  also have "\<dots> = (\<Sum>idn\<leftarrow>?ids. mset (map fst (dict_list ?hb idn)))"
    by (simp add: image_mset_sum_list)
  also have "\<dots> = classified_heads (classify_identities sha ?bb ?hb bs hs ?ids c)"
    using d by (intro identities_heads [symmetric]) blast
  finally show ?thesis
    by (simp add: classify_suppression_keys_def Let_def classified_heads_def split: prod.splits)
qed

text \<open>The context of a run: its keys and what the pairs of one run are.\<close>

lemma pairs_share_identity:
  assumes "distinct (map fst hi)" and "p \<in> set (fst (classify_suppression_keys sha bi hi bs hs c))"
    and "sp_base_key p = Some k"
  shows "k \<in> fst ` set bi \<and> identity_of_key k = identity_of_key (sp_head_key p)"
proof -
  let ?bb = "suppression_identity_buckets bi" and ?hb = "suppression_identity_buckets hi"
  from identities_origin [OF assms(2) [unfolded classify_keys_parts]] obtain idn c'
    where p: "p \<in> set (fst (classify_suppression_identity sha (dict_list ?bb idn) (dict_list ?hb idn) bs hs c'))" by blast
  have "k \<in> fst ` set (dict_list ?bb idn)" using p assms(3) by (rule identity.bases)
  moreover have "sp_head_key p \<in> fst ` set (dict_list ?hb idn)"
    using bucket_distinct [OF assms(1)] p by (rule identity.pairing_keys)
  ultimately show ?thesis by (auto simp: bucket_entries)
qed

lemma pairs_in_index:
  assumes "distinct (map fst hi)"
  shows "sp_head_key ` set (fst (classify_suppression_keys sha bi hi bs hs c))
       \<union> si_head_key ` set (fst (snd (classify_suppression_keys sha bi hi bs hs c))) = fst ` set hi"
proof -
  have "set_mset (classified_heads (classify_suppression_keys sha bi hi bs hs c)) = set_mset (mset (map fst hi))"
    by (simp only: keys_heads [OF assms])
  then show ?thesis by (simp add: classified_heads_def)
qed

lemma pair_in_index:
  assumes "distinct (map fst hi)" and "p \<in> set (fst (classify_suppression_keys sha bi hi bs hs c))"
  shows "\<exists>x. (sp_head_key p, x) \<in> set hi"
proof -
  have "sp_head_key p \<in> fst ` set hi" unfolding pairs_in_index [OF assms(1), of sha bi bs hs c, symmetric]
    using assms(2) by (intro UnI1 imageI)
  then show ?thesis by (metis imageE prod.collapse)
qed

lemma index_in_pairs:
  assumes "distinct (map fst hi)" and "fst (snd (classify_suppression_keys sha bi hi bs hs c)) = []" and "(k, x) \<in> set hi"
  shows "\<exists>p \<in> set (fst (classify_suppression_keys sha bi hi bs hs c)). sp_head_key p = k"
proof -
  have "k \<in> fst ` set hi" using assms(3) by (rule image_eqI [rotated]) simp
  then have "k \<in> sp_head_key ` set (fst (classify_suppression_keys sha bi hi bs hs c))"
    using pairs_in_index [OF assms(1), of sha bi bs hs c] assms(2) by simp
  then show ?thesis by (metis imageE)
qed

section \<open>Occurrences of a source\<close>

definition source_occurrences :: "tokenizer \<Rightarrow> string \<Rightarrow> string \<Rightarrow> SuppressionOccurrence list" where
  "source_occurrences tok path source =
     (case tokenize_comments tok path source of Inl _ \<Rightarrow> [] | Inr occurrences \<Rightarrow> occurrences)"

lemma occurrences_in_concat:
  "occurrences_in tok ss = Inr os \<Longrightarrow> os = concat (map (\<lambda>(p, s). source_occurrences tok p s) ss)"
  by (induction ss arbitrary: os) (auto simp: source_occurrences_def map_sum_Inr_iff split: sum.splits)

lemma source_occurrences_path: "x \<in> set (source_occurrences tok p s) \<Longrightarrow> so_path x = p"
  by (cases "tok s") (auto simp: source_occurrences_def tokenize_comments_def set_map_filter comment_occurrence_def Let_def)

lemma map_filter_relocate:
  "List.map_filter (comment_occurrence q) ts = map (so_path_update (\<lambda>_. q)) (List.map_filter (comment_occurrence p) ts)"
  by (induction ts) (auto simp: List.map_filter_simps comment_occurrence_def Let_def split: option.splits)

lemma source_occurrences_relocate:
  "source_occurrences tok q s = map (so_path_update (\<lambda>_. q)) (source_occurrences tok p s)"
  by (cases "tok s") (simp_all add: source_occurrences_def tokenize_comments_def map_filter_relocate [of q _ p])

text \<open>The number of occurrences of a family and token in one source; it does not depend on the path.\<close>

definition occurrence_count :: "tokenizer \<Rightarrow> string \<Rightarrow> string \<Rightarrow> string \<Rightarrow> nat" where
  "occurrence_count tok source family token =
     length (filter (\<lambda>x. so_family x = family \<and> so_token x = token) (source_occurrences tok [] source))"

lemma occurrence_count_path:
  "length (filter (\<lambda>x. so_family x = f \<and> so_token x = t) (source_occurrences tok p s)) = occurrence_count tok s f t"
  by (simp add: occurrence_count_def source_occurrences_relocate [of tok p s "[]"] filter_map comp_def)

text \<open>The occurrences of a run, by file.\<close>

lemma occurrences_in_file:
  assumes "suppression_occurrences tok ss = Inr os" and "distinct (map fst ss)" and "map_of ss p = Some s"
  shows "filter (\<lambda>x. so_path x = p \<and> Q x) os = filter Q (source_occurrences tok p s)"
proof -
  have "os = concat (map (\<lambda>(p, s). source_occurrences tok p s) (sort_key fst ss))"
    using assms(1) unfolding suppression_occurrences_def by (rule occurrences_in_concat)
  moreover have "mset (map fst (sort_key fst ss)) = mset (map fst ss)" by simp
  then have "distinct (map fst (sort_key fst ss))" using assms(2) mset_eq_imp_distinct_iff by blast
  then have "filter (\<lambda>x. so_path x = p \<and> Q x) (concat (map (\<lambda>(p, s). source_occurrences tok p s) (sort_key fst ss)))
      = filter (\<lambda>x. so_path x = p \<and> Q x) (source_occurrences tok p s)"
    using assms(3) by (intro filter_concat_single) (auto dest: source_occurrences_path map_of_SomeD)
  moreover have "filter (\<lambda>x. so_path x = p \<and> Q x) (source_occurrences tok p s) = filter Q (source_occurrences tok p s)"
    by (rule filter_cong) (auto dest: source_occurrences_path)
  ultimately show ?thesis by simp
qed

lemma occurrence_has_source:
  assumes "suppression_occurrences tok ss = Inr os" and "distinct (map fst ss)" and "x \<in> set os"
  obtains s where "map_of ss (so_path x) = Some s" and "x \<in> set (source_occurrences tok (so_path x) s)"
proof -
  have "os = concat (map (\<lambda>(p, s). source_occurrences tok p s) (sort_key fst ss))"
    using assms(1) unfolding suppression_occurrences_def by (rule occurrences_in_concat)
  then obtain p s where s: "(p, s) \<in> set ss" "x \<in> set (source_occurrences tok p s)" using assms(3) by auto
  then have "so_path x = p" by (simp add: source_occurrences_path)
  with s assms(2) show thesis by (intro that [of s]) auto
qed

text \<open>A suppression delta accounts for every suppression comment of the head revision: the introduced and the
  unchanged occurrences together are the occurrences found in the head sources, each exactly once.\<close>

theorem suppression_delta_conserves:
  assumes "classify_suppression_delta sha tok base head renames missing None = Inr r"
    and "suppression_occurrences tok (python_sources base) = Inr bo"
    and "suppression_occurrences tok (python_sources head) = Inr ho"
  shows "mset (sl_introduced r) + mset (sl_unchanged r) = mset ho"
proof -
  define rr where "rr = reversed_renames (case renames of None \<Rightarrow> [] | Some d \<Rightarrow> d)"
  define index where "index = suppression_occurrence_index ho rr"
  define keys where "keys = classify_suppression_keys sha (suppression_occurrence_index bo []) index
    (python_sources base) (python_sources head) empty_cache"
  have r: "sl_introduced r = map (occurrence_at index) (map si_head_key (fst (snd keys)))"
    "sl_unchanged r = map (occurrence_at index) (map sp_head_key (fst keys))"
    using assms by (auto simp: classify_suppression_delta_def suppression_classification_of_def Let_def
        suppression_delta_context_def suppression_indexes_def index_def keys_def rr_def split: prod.splits)
  have "mset (sl_introduced r) + mset (sl_unchanged r) = image_mset (occurrence_at index) (classified_heads keys)"
    by (simp add: r classified_heads_def add.commute multiset.map_comp)
  also have "\<dots> = mset (map (occurrence_at index) (map fst index))"
    by (simp add: keys_def keys_heads index_distinct index_def multiset.map_comp)
  also have "\<dots> = mset ho" by (simp only: index_def index_read_back)
  finally show ?thesis .
qed

section \<open>The gate\<close>

abbreviation base_bucket_of :: "SuppressionOccurrence list \<Rightarrow> suppression_identity \<Rightarrow> suppression_entry list" where
  "base_bucket_of bo idn \<equiv> dict_list (suppression_identity_buckets (suppression_occurrence_index bo [])) idn"

abbreviation head_bucket_of ::
  "SuppressionOccurrence list \<Rightarrow> (string \<times> string) list \<Rightarrow> suppression_identity \<Rightarrow> suppression_entry list" where
  "head_bucket_of ho rr idn \<equiv> dict_list (suppression_identity_buckets (suppression_occurrence_index ho rr)) idn"

lemma head_bucket_entry:
  "e \<in> set (head_bucket_of ho rr idn) \<longleftrightarrow>
     e \<in> set (suppression_occurrence_index ho rr) \<and> occurrence_identity rr (snd e) = idn"
  by (simp add: bucket_entries index_entry cong: conj_cong)

lemma index_snd: "set ho = snd ` set (suppression_occurrence_index ho rr)"
  by (metis index_occurrences list.set_map)

lemma head_bucket_length:
  "length (head_bucket_of ho rr idn) = length (filter (\<lambda>x. occurrence_identity rr x = idn) ho)"
proof -
  let ?index = "suppression_occurrence_index ho rr"
  have "length (head_bucket_of ho rr idn) = size (filter_mset (\<lambda>e. identity_of_key (fst e) = idn) (mset ?index))"
    by (simp add: bucket_entries flip: size_mset)
  also have "filter_mset (\<lambda>e. identity_of_key (fst e) = idn) (mset ?index)
      = filter_mset (\<lambda>e. occurrence_identity rr (snd e) = idn) (mset ?index)"
    by (rule filter_mset_cong) (simp_all add: index_entry)
  also have "size \<dots> = length (filter (\<lambda>x. occurrence_identity rr x = idn) (map snd ?index))"
    by (simp add: filter_map comp_def flip: size_mset)
  finally show ?thesis by (simp only: index_occurrences)
qed

lemma head_bucket_nonempty:
  assumes "x \<in> set ho" and "occurrence_identity rr x = idn"
  shows "head_bucket_of ho rr idn \<noteq> []"
proof -
  from assms(1) obtain e where "e \<in> set (suppression_occurrence_index ho rr)" "snd e = x"
    using index_snd [of ho rr] by auto
  with assms(2) have "e \<in> set (head_bucket_of ho rr idn)" by (simp only: head_bucket_entry)
  then show ?thesis by force
qed

lemma origin_Nil [simp]: "occurrence_origin [] p = p"
  by (simp add: occurrence_origin_def)

lemma identity_parts:
  "occurrence_identity rr x = (p, f, t) \<longleftrightarrow>
     occurrence_origin rr (so_path x) = p \<and> so_family x = f \<and> so_token x = t"
  by (auto simp: occurrence_identity_def)

lemma base_bucket_length:
  assumes "suppression_occurrences tok base = Inr bo" and "distinct (map fst base)" and "map_of base p = Some s"
  shows "length (base_bucket_of bo (p, f, t)) = occurrence_count tok s f t"
  using occurrences_in_file [OF assms, of "\<lambda>x. so_family x = f \<and> so_token x = t"]
  by (simp add: head_bucket_length identity_parts occurrence_count_path)

text \<open>The condition of the gate: every file with a suppression is the base file it comes from, unchanged.\<close>

definition unchanged_files :: "sources \<Rightarrow> sources \<Rightarrow> (string \<times> string) list \<Rightarrow> SuppressionOccurrence list \<Rightarrow> bool" where
  "unchanged_files base head rr ho =
     (\<forall>x \<in> set ho. map_of base (occurrence_origin rr (so_path x)) = map_of head (so_path x))"

definition separate_origins :: "(string \<times> string) list \<Rightarrow> SuppressionOccurrence list \<Rightarrow> bool" where
  "separate_origins rr ho = inj_on (occurrence_origin rr) (so_path ` set ho)"

lemma unchanged_files_source:
  "unchanged_files base head rr ho \<Longrightarrow> x \<in> set ho \<Longrightarrow> occurrence_identity rr x = idn
     \<Longrightarrow> map_of head (so_path x) = map_of base (fst idn)"
  by (auto simp: unchanged_files_def occurrence_identity_def)

text \<open>In unchanged files an identity is classified by counting.\<close>

lemma unchanged_identity:
  assumes bo: "suppression_occurrences tok base = Inr bo" "distinct (map fst base)"
    and ho: "suppression_occurrences tok head = Inr ho" "distinct (map fst head)"
    and unchanged: "unchanged_files base head rr ho"
    and x: "x \<in> set ho" "occurrence_identity rr x = idn"
  obtains s where "map_of base (fst idn) = Some s" "map_of head (so_path x) = Some s"
    "0 < occurrence_count tok s (so_family x) (so_token x)"
    "length (base_bucket_of bo idn) = occurrence_count tok s (so_family x) (so_token x)"
    "source_at base (so_path (snd (hd (base_bucket_of bo idn)))) = source_at head (so_path (snd (hd (head_bucket_of ho rr idn))))"
    "base_bucket_of bo idn \<noteq> []" "head_bucket_of ho rr idn \<noteq> []"
proof -
  from ho x(1) obtain s where s: "map_of head (so_path x) = Some s" "x \<in> set (source_occurrences tok (so_path x) s)"
    by (rule occurrence_has_source)
  obtain p where idn: "idn = (p, so_family x, so_token x)" "p = occurrence_origin rr (so_path x)"
    using x(2) by (simp add: occurrence_identity_def)
  have base: "map_of base p = Some s" using unchanged x(1) s(1) by (simp add: unchanged_files_def idn)
  have count: "0 < occurrence_count tok s (so_family x) (so_token x)"
    using s(2) by (auto simp: filter_empty_conv simp flip: occurrence_count_path [of _ _ _ "so_path x"])
  have len: "length (base_bucket_of bo idn) = occurrence_count tok s (so_family x) (so_token x)"
    unfolding idn(1) by (rule base_bucket_length [OF bo base])
  with count have bne: "base_bucket_of bo idn \<noteq> []" by auto
  have hne: "head_bucket_of ho rr idn \<noteq> []" using x by (rule head_bucket_nonempty)
  have "hd (base_bucket_of bo idn) \<in> set (base_bucket_of bo idn)" using bne by simp
  then have "so_path (snd (hd (base_bucket_of bo idn))) = p"
    by (simp add: head_bucket_entry idn(1) identity_parts)
  then have "source_at base (so_path (snd (hd (base_bucket_of bo idn)))) = s" by (simp add: source_at_def base)
  moreover have "hd (head_bucket_of ho rr idn) \<in> set (head_bucket_of ho rr idn)" using hne by simp
  then have h: "snd (hd (head_bucket_of ho rr idn)) \<in> set ho"
    "occurrence_identity rr (snd (hd (head_bucket_of ho rr idn))) = idn"
    using index_snd [of ho rr] by (simp_all add: head_bucket_entry)
  then have "map_of head (so_path (snd (hd (head_bucket_of ho rr idn)))) = Some s"
    using unchanged_files_source [OF unchanged h] base by (simp add: idn(1))
  then have "source_at head (so_path (snd (hd (head_bucket_of ho rr idn)))) = s" by (simp add: source_at_def)
  ultimately show thesis
    using bne hne base s(1) count len by (intro that [of s]) (simp_all add: idn(1))
qed

lemma equal_sources_classified:
  assumes "source_at bs (so_path (snd (hd bb))) = source_at hs (so_path (snd (hd hb)))" "bb \<noteq> []" "hb \<noteq> []"
  shows "fst (snd (classify_suppression_identity sha bb hb bs hs c)) = [] \<longleftrightarrow> length hb \<le> length bb"
    and "p \<in> set (fst (classify_suppression_identity sha bb hb bs hs c)) \<Longrightarrow> sp_base_key p \<noteq> None"
  using assms by (auto simp: classify_suppression_identity_def Let_def)

lemma unchanged_classified:
  assumes "suppression_occurrences tok base = Inr bo" "distinct (map fst base)"
    and "suppression_occurrences tok head = Inr ho" "distinct (map fst head)"
    and "unchanged_files base head rr ho" and "x \<in> set ho" "occurrence_identity rr x = idn"
  shows "fst (snd (classify_suppression_identity sha (base_bucket_of bo idn) (head_bucket_of ho rr idn) base head c)) = []
       \<longleftrightarrow> length (head_bucket_of ho rr idn) \<le> length (base_bucket_of bo idn)"
    and "p \<in> set (fst (classify_suppression_identity sha (base_bucket_of bo idn) (head_bucket_of ho rr idn) base head c))
       \<Longrightarrow> sp_base_key p \<noteq> None"
  by (rule unchanged_identity [OF assms], erule (2) equal_sources_classified(1))
    (rule unchanged_identity [OF assms], erule (3) equal_sources_classified(2))

lemma same_file_count:
  assumes "suppression_occurrences tok head = Inr ho" and "distinct (map fst head)" and "map_of head q = Some s"
  shows "length (filter (\<lambda>y. so_path y = q \<and> so_family y = f \<and> so_token y = t) ho) = occurrence_count tok s f t"
  using occurrences_in_file [OF assms, of "\<lambda>x. so_family x = f \<and> so_token x = t"] by (simp add: occurrence_count_path)

text \<open>With separate origins the head bucket is no longer than the base bucket; otherwise some bucket is.\<close>

lemma separate_bucket_length:
  assumes bo: "suppression_occurrences tok base = Inr bo" "distinct (map fst base)"
    and ho: "suppression_occurrences tok head = Inr ho" "distinct (map fst head)"
    and "unchanged_files base head rr ho" and "separate_origins rr ho"
    and x: "x \<in> set ho" "occurrence_identity rr x = idn"
  shows "length (head_bucket_of ho rr idn) = length (base_bucket_of bo idn)"
proof -
  from unchanged_identity [OF assms(1-5) x] obtain s where s: "map_of head (so_path x) = Some s"
    "length (base_bucket_of bo idn) = occurrence_count tok s (so_family x) (so_token x)" by metis
  have "filter (\<lambda>y. occurrence_identity rr y = idn) ho
      = filter (\<lambda>y. so_path y = so_path x \<and> so_family y = so_family x \<and> so_token y = so_token x) ho"
    using assms(6) x by (intro filter_cong) (auto simp: separate_origins_def occurrence_identity_def inj_on_def)
  with s same_file_count [OF ho s(1)] show ?thesis by (simp add: head_bucket_length)
qed

lemma shared_bucket_length:
  assumes bo: "suppression_occurrences tok base = Inr bo" "distinct (map fst base)"
    and ho: "suppression_occurrences tok head = Inr ho" "distinct (map fst head)"
    and unchanged: "unchanged_files base head rr ho" and x: "x \<in> set ho" and y: "y \<in> set ho"
    and shared: "occurrence_origin rr (so_path x) = occurrence_origin rr (so_path y)" "so_path x \<noteq> so_path y"
  shows "length (base_bucket_of bo (occurrence_identity rr x)) < length (head_bucket_of ho rr (occurrence_identity rr x))"
proof -
  let ?idn = "occurrence_identity rr x" and ?f = "so_family x" and ?t = "so_token x"
  from unchanged_identity [OF assms(1-6) refl] obtain s where s: "map_of head (so_path x) = Some s"
    "map_of base (fst ?idn) = Some s" "0 < occurrence_count tok s ?f ?t"
    "length (base_bucket_of bo ?idn) = occurrence_count tok s ?f ?t" by metis
  have "map_of head (so_path y) = Some s"
    using unchanged y shared s(2) by (simp add: unchanged_files_def occurrence_identity_def)
  note counts = same_file_count [OF ho s(1), of ?f ?t] same_file_count [OF ho this, of ?f ?t]
  let ?P = "\<lambda>q z. so_path z = q \<and> so_family z = ?f \<and> so_token z = ?t"
  have "length (filter (\<lambda>z. occurrence_identity rr z = ?idn) zs)
      \<ge> length (filter (?P (so_path x)) zs) + length (filter (?P (so_path y)) zs)" for zs
    using shared by (induction zs) (auto simp: occurrence_identity_def)
  from this [of ho] counts s(3,4) show ?thesis by (simp add: head_bucket_length)
qed

text \<open>The classification of a run without errors, and when it passes.\<close>

abbreviation run_keys ::
  "(string \<Rightarrow> string) \<Rightarrow> SuppressionOccurrence list \<Rightarrow> SuppressionOccurrence list \<Rightarrow> (string \<times> string) list
   \<Rightarrow> sources \<Rightarrow> sources \<Rightarrow> pairing_result" where
  "run_keys sha bo ho rr base head \<equiv>
     classify_suppression_keys sha (suppression_occurrence_index bo []) (suppression_occurrence_index ho rr) base head empty_cache"

definition settled :: "SuppressionOccurrence list \<Rightarrow> SuppressionOccurrence list \<Rightarrow> (string \<times> string) list
   \<Rightarrow> sources \<Rightarrow> sources \<Rightarrow> SuppressionPairing \<Rightarrow> bool" where
  "settled bo ho rr base head p =
     (\<exists>k. sp_base_key p = Some k
        \<and> map_of base (so_path (occurrence_at (suppression_occurrence_index bo []) k))
          = Some (source_at head (so_path (occurrence_at (suppression_occurrence_index ho rr) (sp_head_key p)))))"

lemma quarantine_iff:
  assumes "dx_base_by_key x = suppression_occurrence_index bo []" "dx_head_by_key x = suppression_occurrence_index ho rr"
    "dx_base_sources x = base" "dx_head_sources x = head"
  shows "quarantine_finding sha x p = None \<longleftrightarrow> settled bo ho rr base head p"
  using assms by (auto simp: quarantine_finding_def settled_def Let_def split: option.splits)

lemma passing_run:
  assumes "r = suppression_classification_of sha
      (suppression_delta_context sha bo ho base head (case renames of None \<Rightarrow> [] | Some d \<Rightarrow> d)) missing"
    and "rr = reversed_renames (case renames of None \<Rightarrow> [] | Some d \<Rightarrow> d)"
  shows "(sl_status r = DPass \<longleftrightarrow> sl_findings r = [])
     \<and> (sl_findings r = [] \<longleftrightarrow> fst (snd (run_keys sha bo ho rr base head)) = []
          \<and> (\<forall>p \<in> set (fst (run_keys sha bo ho rr base head)). settled bo ho rr base head p))"
proof -
  define x where "x = suppression_delta_context sha bo ho base head (case renames of None \<Rightarrow> [] | Some d \<Rightarrow> d)"
  have x: "dx_base_by_key x = suppression_occurrence_index bo []" "dx_head_by_key x = suppression_occurrence_index ho rr"
    "dx_base_sources x = base" "dx_head_sources x = head"
    by (simp_all add: x_def suppression_delta_context_def suppression_indexes_def Let_def assms(2))
  have "List.map_filter (quarantine_finding sha x) ps = [] \<longleftrightarrow> (\<forall>p \<in> set ps. settled bo ho rr base head p)" for ps
    unfolding quarantine_iff [OF x, of sha, symmetric]
    by (induction ps) (auto simp: List.map_filter_simps split: option.splits)
  then show ?thesis
    by (auto simp: assms(1) x_def [symmetric] suppression_classification_of_def x Let_def append_quarantined_suppressions_def
        suppression_status_def introduced_suppression_findings_def split: prod.splits)
qed

lemma paired_occurrence:
  assumes "p \<in> set (fst (run_keys sha bo ho rr base head))" and "sp_base_key p = Some k"
    and x: "(sp_head_key p, x) \<in> set (suppression_occurrence_index ho rr)"
  shows "so_path (occurrence_at (suppression_occurrence_index bo []) k) = occurrence_origin rr (so_path x)"
proof -
  have "k \<in> fst ` set (suppression_occurrence_index bo [])" and idn: "identity_of_key k = identity_of_key (sp_head_key p)"
    using pairs_share_identity [OF index_distinct assms(1,2)] by simp_all
  then obtain b where b: "(k, b) \<in> set (suppression_occurrence_index bo [])" by force
  have "occurrence_identity [] b = occurrence_identity rr x"
    using index_identity [OF b] index_identity [OF x] idn by simp
  then show ?thesis by (simp add: occurrence_at_index [OF b] occurrence_identity_def)
qed

lemma settled_source:
  assumes "p \<in> set (fst (run_keys sha bo ho rr base head))" and "settled bo ho rr base head p"
    and "(sp_head_key p, x) \<in> set (suppression_occurrence_index ho rr)"
  shows "map_of base (occurrence_origin rr (so_path x)) = Some (source_at head (so_path x))"
  using assms(2) paired_occurrence [OF assms(1) _ assms(3)]
  by (auto simp: settled_def occurrence_at_index [OF assms(3)])

lemma passing_unchanged:
  assumes ho: "suppression_occurrences tok head = Inr ho" "distinct (map fst head)"
    and "fst (snd (run_keys sha bo ho rr base head)) = []"
    and "\<forall>p \<in> set (fst (run_keys sha bo ho rr base head)). settled bo ho rr base head p"
  shows "unchanged_files base head rr ho"
  unfolding unchanged_files_def
proof
  fix x
  assume x: "x \<in> set ho"
  then obtain k where k: "(k, x) \<in> set (suppression_occurrence_index ho rr)" using index_snd [of ho rr] by force
  from index_in_pairs [OF index_distinct assms(3) k] obtain p
    where p: "p \<in> set (fst (run_keys sha bo ho rr base head))" "sp_head_key p = k" by blast
  then have "(sp_head_key p, x) \<in> set (suppression_occurrence_index ho rr)" using k by simp
  from settled_source [OF p(1) _ this] assms(4) p(1)
  have "map_of base (occurrence_origin rr (so_path x)) = Some (source_at head (so_path x))" by blast
  moreover from ho x obtain s where "map_of head (so_path x) = Some s" by (rule occurrence_has_source)
  ultimately show "map_of base (occurrence_origin rr (so_path x)) = map_of head (so_path x)" by (simp add: source_at_def)
qed

lemma passing_separate:
  assumes bo: "suppression_occurrences tok base = Inr bo" "distinct (map fst base)"
    and ho: "suppression_occurrences tok head = Inr ho" "distinct (map fst head)"
    and unchanged: "unchanged_files base head rr ho"
    and none: "fst (snd (run_keys sha bo ho rr base head)) = []"
  shows "separate_origins rr ho"
  unfolding separate_origins_def
proof (rule inj_onI, clarify, rule ccontr)
  fix x y
  assume xy: "x \<in> set ho" "y \<in> set ho" "occurrence_origin rr (so_path x) = occurrence_origin rr (so_path y)"
    "so_path x \<noteq> so_path y"
  let ?idn = "occurrence_identity rr x"
  let ?hb = "suppression_identity_buckets (suppression_occurrence_index ho rr)"
  obtain e where "e \<in> set (suppression_occurrence_index ho rr)" "snd e = x" using xy(1) index_snd [of ho rr] by auto
  then have "?idn \<in> set (map fst ?hb)" using bucket_keys index_entry by (metis image_eqI)
  then have "?idn \<in> set (identities_of (suppression_occurrence_index bo []) (suppression_occurrence_index ho rr))" by simp
  then obtain c where "fst (snd (classify_suppression_identity sha (base_bucket_of bo ?idn) (head_bucket_of ho rr ?idn)
      base head c)) = []" using identities_none_introduced [OF none [unfolded classify_keys_parts]] by blast
  then have "length (head_bucket_of ho rr ?idn) \<le> length (base_bucket_of bo ?idn)"
    by (simp only: unchanged_classified [OF bo ho unchanged xy(1) refl])
  with shared_bucket_length [OF bo ho unchanged xy] show False by simp
qed

lemma unchanged_passes:
  assumes bo: "suppression_occurrences tok base = Inr bo" "distinct (map fst base)"
    and ho: "suppression_occurrences tok head = Inr ho" "distinct (map fst head)"
    and unchanged: "unchanged_files base head rr ho" and separate: "separate_origins rr ho"
  shows "fst (snd (run_keys sha bo ho rr base head)) = []
     \<and> (\<forall>p \<in> set (fst (run_keys sha bo ho rr base head)). settled bo ho rr base head p)"
proof -
  have cls: "fst (snd (classify_suppression_identity sha (base_bucket_of bo idn) (head_bucket_of ho rr idn) base head c)) = []
      \<and> (\<forall>p \<in> set (fst (classify_suppression_identity sha (base_bucket_of bo idn) (head_bucket_of ho rr idn) base head c)).
           sp_base_key p \<noteq> None)" for idn c
  proof (cases "head_bucket_of ho rr idn = []")
    case True
    then show ?thesis using identity.none_without_heads [of sha "base_bucket_of bo idn"] by (simp only: True) simp
  next
    case False
    then obtain e where "e \<in> set (head_bucket_of ho rr idn)" by (meson hd_in_set)
    then have x: "snd e \<in> set ho" "occurrence_identity rr (snd e) = idn"
      using index_snd [of ho rr] by (simp_all add: head_bucket_entry)
    from unchanged_classified [OF bo ho unchanged x, where sha = sha and c = c] separate_bucket_length [OF bo ho unchanged separate x]
    show ?thesis by (simp only: order_refl) blast
  qed
  then have none: "fst (snd (run_keys sha bo ho rr base head)) = []"
    unfolding classify_keys_parts by (intro identities_nothing_introduced) blast
  have "settled bo ho rr base head p" if p: "p \<in> set (fst (run_keys sha bo ho rr base head))" for p
  proof -
    obtain k where k: "sp_base_key p = Some k"
      using identities_origin [OF p [unfolded classify_keys_parts]] cls by blast
    from pair_in_index [OF index_distinct p] obtain x
      where x: "(sp_head_key p, x) \<in> set (suppression_occurrence_index ho rr)" by blast
    then have xo: "x \<in> set ho" using index_snd [of ho rr] by (metis image_eqI snd_conv)
    moreover from ho xo obtain s where "map_of head (so_path x) = Some s" by (rule occurrence_has_source)
    ultimately show ?thesis
      using unchanged k paired_occurrence [OF p k x] occurrence_at_index [OF x]
      by (auto simp: settled_def unchanged_files_def source_at_def)
  qed
  with none show ?thesis by blast
qed

lemma clean_run_passes_iff:
  assumes "distinct (map fst base)" and "distinct (map fst head)"
    and "suppression_occurrences tok (python_sources base) = Inr bo"
    and "suppression_occurrences tok (python_sources head) = Inr ho"
    and r: "r = suppression_classification_of sha (suppression_delta_context sha bo ho (python_sources base) (python_sources head)
      (case renames of None \<Rightarrow> [] | Some d \<Rightarrow> d)) missing"
    and rr: "rr = reversed_renames (case renames of None \<Rightarrow> [] | Some d \<Rightarrow> d)"
  shows "(sl_status r = DPass \<longleftrightarrow> sl_findings r = [])
     \<and> (sl_status r = DPass \<longleftrightarrow> unchanged_files (python_sources base) (python_sources head) rr ho \<and> separate_origins rr ho)"
proof -
  have d: "distinct (map fst (python_sources ss))" if "distinct (map fst ss)" for ss
    using that by (simp add: python_sources_def distinct_map_filter)
  note run = passing_run [OF r rr]
  note bo = assms(3) d [OF assms(1)] and ho = assms(4) d [OF assms(2)]
  have "sl_findings r = [] \<longleftrightarrow> unchanged_files (python_sources base) (python_sources head) rr ho \<and> separate_origins rr ho"
    using run passing_unchanged [OF ho] passing_separate [OF bo ho] unchanged_passes [OF bo ho] by meson
  with run show ?thesis by blast
qed

text \<open>C17: The suppression gate passes exactly when both revisions can be tokenized, every head file with a suppression
  comment is byte-identical to the base file it comes from (through the exact renames) and no two of these files
  come from the same base file; then it reports no finding.\<close>

theorem suppression_gate_exact:
  assumes "distinct (map fst base)" and "distinct (map fst head)"
    and "classify_suppression_delta sha tok base head renames missing waiver = Inr r"
    and "rr = reversed_renames (case renames of None \<Rightarrow> [] | Some d \<Rightarrow> d)"
  shows "(sl_status r = DPass \<longrightarrow> sl_findings r = [])
     \<and> (sl_status r = DPass \<longleftrightarrow>
          (\<exists>bo ho. suppression_occurrences tok (python_sources base) = Inr bo
             \<and> suppression_occurrences tok (python_sources head) = Inr ho
             \<and> (\<forall>x \<in> set ho. map_of (python_sources base) (occurrence_origin rr (so_path x))
                  = map_of (python_sources head) (so_path x))
             \<and> inj_on (occurrence_origin rr) (so_path ` set ho)))"
proof (cases "\<exists>bo ho. suppression_occurrences tok (python_sources base) = Inr bo
    \<and> suppression_occurrences tok (python_sources head) = Inr ho")
  case True
  then obtain bo ho where run: "suppression_occurrences tok (python_sources base) = Inr bo"
    "suppression_occurrences tok (python_sources head) = Inr ho" by blast
  with assms(3) have "r = suppression_classification_of sha
      (suppression_delta_context sha bo ho (python_sources base) (python_sources head)
        (case renames of None \<Rightarrow> [] | Some d \<Rightarrow> d)) missing"
    by (simp add: classify_suppression_delta_def Let_def split: if_splits)
  from clean_run_passes_iff [OF assms(1,2) run this assms(4)] run show ?thesis
    by (auto simp: unchanged_files_def separate_origins_def)
next
  case False
  then obtain e where "r = suppression_manifest_error e"
    using assms(3) by (auto simp: classify_suppression_delta_def Let_def split: if_splits sum.splits)
  with False show ?thesis by (auto simp: suppression_manifest_error_def)
qed

section \<open>Correspondence and its budget\<close>

text \<open>What holds of the cache across one decision holds across the whole classification.\<close>

locale cache_invariant =
  fixes sha :: "string \<Rightarrow> string" and Q :: "CorrespondenceCache \<Rightarrow> bool"
  assumes step: "Q c \<Longrightarrow> Q (snd (suppression_occurrence_continuity sha b h bs hs c))"
begin

lemma pair_step: "Q c \<Longrightarrow> Q (snd (pair_correspondences sha bs hs bl hl lines c))"
  by (induction lines arbitrary: c)
    (simp_all add: Let_def split_beta step split: list.split)

lemma fallback_loop_step: "Q c \<Longrightarrow> Q (snd (snd (snd (fallback_loop sha bs hs zs c))))"
  by (induction zs arbitrary: c) (auto simp: Let_def split_beta step)

lemma fallback_step: "Q c \<Longrightarrow> Q (snd (snd (snd (suppression_fallback_pairs sha bb hb bs hs c))))"
  using fallback_loop_step by (simp add: suppression_fallback_pairs_def Let_def split_beta)

lemma changed_step: "Q c \<Longrightarrow> Q (snd (snd (snd (classify_changed_suppression_identity sha bb hb bs hs c))))"
  unfolding classify_changed_suppression_identity_def suppression_pair_evidence_def Let_def
  using pair_step fallback_step by (simp add: split_beta)

lemma identity_step: "Q c \<Longrightarrow> Q (snd (snd (snd (classify_suppression_identity sha bb hb bs hs c))))"
  using changed_step by (simp add: classify_suppression_identity_def Let_def)

lemma identities_step: "Q c \<Longrightarrow> Q (snd (snd (snd (classify_identities sha bbs hbs bs hs idns c))))"
  by (induction idns arbitrary: c) (simp_all add: classify_identities.simps Let_def split_beta identity_step)

lemma keys_step: "Q c \<Longrightarrow> Q (snd (snd (snd (classify_suppression_keys sha bi hi bs hs c))))"
  using identities_step by (simp add: classify_suppression_keys_def Let_def split_beta)

end

text \<open>The tables are correct, and every table computed for a pair of sources was reserved in its budget.\<close>

definition cells_of :: "string \<times> string \<Rightarrow> nat" where
  "cells_of key = (length (physical_lines (fst key)) + 1) * (length (physical_lines (snd key)) + 1)"

definition tables_for :: "CorrespondenceCache \<Rightarrow> string \<times> string \<Rightarrow> nat" where
  "tables_for c key = length (filter (\<lambda>e. (fst (fst e), fst (snd (fst e))) = key) (cc_forbidden (sc_costs c)))"

definition used_cells :: "CorrespondenceCache \<Rightarrow> string \<times> string \<Rightarrow> nat" where
  "used_cells c key = (case map_of (sc_forbidden_cells c) key of None \<Rightarrow> 0 | Some n \<Rightarrow> n)"

definition budget_ok :: "CorrespondenceCache \<Rightarrow> bool" where
  "budget_ok c = (\<forall>key. used_cells c key = tables_for c key * cells_of key
     \<and> int (used_cells c key) \<le> MAX_AGGREGATE_CORRESPONDENCE_CELLS)"

lemma budget_at:
  "budget_ok c \<Longrightarrow> used_cells c key = tables_for c key * cells_of key
     \<and> int (used_cells c key) \<le> MAX_AGGREGATE_CORRESPONDENCE_CELLS"
  unfolding budget_ok_def by (erule spec)

lemma context_cells: "continuity_context b h (Some bs) (Some hs) = Inr x \<Longrightarrow> cx_cells x = cells_of (bs, hs)"
  by (auto simp: continuity_context_def Let_def cells_of_def split: if_splits)

text \<open>The three outcomes of a decision on different sources, with the cache it leaves.\<close>

lemma continuity_cache_cases:
  assumes "suppression_occurrence_continuity sha b h bs hs c = (r, c')"
  obtains (same) "c' = c" "sr_status r = CUnchanged \<longrightarrow> bs = hs"
  | (computed) x cache where "bs \<noteq> hs"
      "continuity_context (suppression_differential_finding b) (suppression_differential_finding h) (Some bs) (Some hs) = Inr x"
      "reserve_forbidden_correspondence c (bs, hs) x = (True, cache)"
      "c' = cache\<lparr>sc_costs := snd (continuity_cost_evidence x (bs, hs) (sc_costs cache))\<rparr>"
  using assms
  by (auto simp: suppression_occurrence_continuity_def suppression_correspondence_def Let_def split_beta
      reserve_forbidden_correspondence_def split: if_splits sum.splits prod.splits)

lemma cost_evidence_forbidden:
  fixes x bs hs c
  defines "key \<equiv> (bs, hs, nat (cx_base_index x), nat (cx_head_index x))"
  shows "\<exists>v. cc_forbidden (snd (continuity_cost_evidence x (bs, hs) c)) =
     (if key \<in> set (map fst (cc_forbidden c)) then cc_forbidden c else cc_forbidden c @ [(key, v)])"
proof (cases "map_of (cc_forbidden c) key")
  case None
  then have "key \<notin> fst ` set (cc_forbidden c)" by (simp add: map_of_eq_None_iff)
  with None show ?thesis
    by (auto simp: continuity_cost_evidence_def Let_def split_beta memo_get_def update_fresh key_def)
next
  case (Some v)
  then have "key \<in> fst ` set (cc_forbidden c)" by (metis domI dom_map_of_conv_image_fst)
  with Some show ?thesis
    by (auto simp: continuity_cost_evidence_def Let_def split_beta memo_get_def key_def)
qed

lemma budget_step:
  assumes "budget_ok c"
  shows "budget_ok (snd (suppression_occurrence_continuity sha b h bs hs c))"
proof -
  obtain r c' where rc: "suppression_occurrence_continuity sha b h bs hs c = (r, c')" by fastforce
  from rc have "budget_ok c'"
  proof (cases rule: continuity_cache_cases)
    case same
    then show ?thesis using assms by simp
  next
    case (computed x cache)
    let ?key = "(bs, hs, nat (cx_base_index x), nat (cx_head_index x))"
    show ?thesis
    proof (cases "?key \<in> set (map fst (cc_forbidden (sc_costs c)))")
      case True
      with computed(3) have "cache = c" by (simp add: reserve_forbidden_correspondence_def)
      with True cost_evidence_forbidden [of x bs hs "sc_costs c"] computed(4)
      have "used_cells c' = used_cells c" "tables_for c' = tables_for c"
        by (auto simp: used_cells_def tables_for_def fun_eq_iff)
      with assms show ?thesis unfolding budget_ok_def by metis
    next
      case False
      with computed(3) have cache: "cache = c\<lparr>sc_forbidden_cells :=
          AList.update (bs, hs) (used_cells c (bs, hs) + cx_cells x) (sc_forbidden_cells c)\<rparr>"
        and le: "int (used_cells c (bs, hs) + cx_cells x) \<le> MAX_AGGREGATE_CORRESPONDENCE_CELLS"
        by (auto simp: reserve_forbidden_correspondence_def used_cells_def Let_def split: if_splits)
      from False cost_evidence_forbidden [of x bs hs "sc_costs c"] obtain v
        where v: "cc_forbidden (sc_costs c') = cc_forbidden (sc_costs c) @ [(?key, v)]"
        by (auto simp: computed(4) cache)
      have "used_cells c' key = (if key = (bs, hs) then used_cells c key + cx_cells x else used_cells c key)" for key
        by (simp add: computed(4) cache used_cells_def update_conv')
      moreover have "tables_for c' key = tables_for c key + (if key = (bs, hs) then 1 else 0)" for key
        by (simp add: tables_for_def v)
      ultimately have "used_cells c' key = tables_for c' key * cells_of key
          \<and> int (used_cells c' key) \<le> MAX_AGGREGATE_CORRESPONDENCE_CELLS" for key
        using budget_at [OF assms, of key] le context_cells [OF computed(2)] by (cases "key = (bs, hs)") (simp_all del: of_nat_mult)
      then show ?thesis unfolding budget_ok_def by blast
    qed
  qed
  with rc show ?thesis by simp
qed

lemma tables_step:
  assumes "caches_ok (sc_costs c)"
  shows "caches_ok (sc_costs (snd (suppression_occurrence_continuity sha b h bs hs c)))"
proof -
  obtain r c' where rc: "suppression_occurrence_continuity sha b h bs hs c = (r, c')" by fastforce
  from rc have "caches_ok (sc_costs c')"
  proof (cases rule: continuity_cache_cases)
    case (computed x cache)
    then have "sc_costs cache = sc_costs c"
      by (auto simp: reserve_forbidden_correspondence_def Let_def split: if_splits)
    with cost_evidence_cached [OF computed(2) assms] computed(4) show ?thesis by simp
  qed (use assms in simp)
  with rc show ?thesis by simp
qed

interpretation budget: cache_invariant sha budget_ok
  by unfold_locales (rule budget_step)

interpretation tables: cache_invariant sha "\<lambda>c. caches_ok (sc_costs c)"
  by unfold_locales (rule tables_step)

lemma empty_cache_ok [simp]: "budget_ok empty_cache" "caches_ok (sc_costs empty_cache)"
  by (simp_all add: budget_ok_def used_cells_def tables_for_def empty_cache_def empty_caches_def
      MAX_AGGREGATE_CORRESPONDENCE_CELLS_def caches_ok_def)

text \<open>C25: A suppression delta computes at most 4,000,000 cells of forbidden-pair tables for a pair of sources, whatever the
  number of suppressions in them: the number of tables it keeps times their size is within the bound.\<close>

theorem suppression_work_is_bounded:
  "int (length (filter (\<lambda>e. (fst (fst e), fst (snd (fst e))) = (bsrc, hsrc))
        (cc_forbidden (sc_costs (snd (snd (snd (classify_suppression_keys sha bi hi base head empty_cache)))))))
      * ((length (physical_lines bsrc) + 1) * (length (physical_lines hsrc) + 1))) \<le> 4000000"
proof -
  let ?c = "snd (snd (snd (classify_suppression_keys sha bi hi base head empty_cache)))"
  have "budget_ok ?c" by (rule budget.keys_step) simp
  then have "int (tables_for ?c (bsrc, hsrc) * cells_of (bsrc, hsrc)) \<le> MAX_AGGREGATE_CORRESPONDENCE_CELLS"
    unfolding budget_ok_def by metis
  then show ?thesis by (simp only: tables_for_def cells_of_def fst_conv snd_conv MAX_AGGREGATE_CORRESPONDENCE_CELLS_def)
qed

text \<open>The line of an occurrence is continued: it is unique in both sources and on every optimal alignment, and the budget
  for the pair of sources is not used up.\<close>

definition budget_left :: "CorrespondenceCache \<Rightarrow> string \<Rightarrow> string \<Rightarrow> nat \<Rightarrow> nat \<Rightarrow> bool" where
  "budget_left c bsrc hsrc i j =
     ((bsrc, hsrc, i, j) \<in> set (map fst (cc_forbidden (sc_costs c)))
      \<or> int (used_cells c (bsrc, hsrc) + cells_of (bsrc, hsrc)) \<le> MAX_AGGREGATE_CORRESPONDENCE_CELLS)"

definition line_continued :: "CorrespondenceCache \<Rightarrow> string \<Rightarrow> string \<Rightarrow> nat \<Rightarrow> nat \<Rightarrow> bool" where
  "line_continued c bsrc hsrc i j =
     (let bl = physical_lines bsrc; hl = physical_lines hsrc
      in i < length bl \<and> j < length hl \<and> continuity_within_bounds bsrc hsrc bl hl (cells_of (bsrc, hsrc))
         \<and> bl ! i = hl ! j \<and> count_list bl (bl ! i) = 1 \<and> count_list hl (hl ! j) = 1
         \<and> (\<forall>P. optimal bl hl P \<longrightarrow> (i, j) \<in> set P) \<and> budget_left c bsrc hsrc i j)"

lemma reserve_budget:
  "continuity_context b h (Some bs) (Some hs) = Inr x \<Longrightarrow>
   fst (reserve_forbidden_correspondence c (bs, hs) x) \<longleftrightarrow> budget_left c bs hs (nat (cx_base_index x)) (nat (cx_head_index x))"
  using context_cells [of b h bs hs x]
  by (auto simp: reserve_forbidden_correspondence_def budget_left_def used_cells_def Let_def)

lemma reserve_costs: "sc_costs (snd (reserve_forbidden_correspondence c key x)) = sc_costs c"
  by (simp add: reserve_forbidden_correspondence_def Let_def)

lemma continuity_context_iff:
  "(\<exists>x. continuity_context b h (Some bs) (Some hs) = Inr x) \<longleftrightarrow>
     (\<exists>i j. df_line b = int (Suc i) \<and> df_line h = int (Suc j)
        \<and> i < length (physical_lines bs) \<and> j < length (physical_lines hs)
        \<and> continuity_within_bounds bs hs (physical_lines bs) (physical_lines hs) (cells_of (bs, hs)))" (is "?L \<longleftrightarrow> ?R")
proof
  assume ?L
  then obtain x where x: "continuity_context b h (Some bs) (Some hs) = Inr x" by blast
  then have "continuity_within_bounds bs hs (physical_lines bs) (physical_lines hs) (cells_of (bs, hs))"
    by (auto simp: continuity_context_def Let_def cells_of_def split: if_splits)
  with x show ?R by (auto elim!: continuity_context_Inr)
next
  assume ?R
  then show ?L by (auto simp: continuity_context_def Let_def cells_of_def continuity_anchor_is_valid_def)
qed

text \<open>C24: For different sources, a suppression is taken over as unchanged exactly when its physical line is the same and
  unique in both, both sources are within the size bounds, every optimal alignment of the two sources matches the
  two lines, and the aggregate budget admits the comparison. The caches do not influence the answer otherwise.\<close>

theorem suppression_unchanged_exact:
  assumes "caches_ok (sc_costs c)" and "bsrc \<noteq> hsrc"
  shows "sr_status (fst (suppression_occurrence_continuity sha b h bsrc hsrc c)) = CUnchanged \<longleftrightarrow>
     (\<exists>i j. so_line b = int (Suc i) \<and> so_line h = int (Suc j) \<and> line_continued c bsrc hsrc i j)"
proof (cases "continuity_context (suppression_differential_finding b) (suppression_differential_finding h) (Some bsrc) (Some hsrc)")
  case (Inl r)
  then have "\<not> (\<exists>i j. so_line b = int (Suc i) \<and> so_line h = int (Suc j) \<and> line_continued c bsrc hsrc i j)"
    using continuity_context_iff [of "suppression_differential_finding b" "suppression_differential_finding h" bsrc hsrc]
    by (auto simp: suppression_differential_finding_def line_continued_def Let_def)
  moreover have "sr_status (fst (suppression_occurrence_continuity sha b h bsrc hsrc c)) = CUnknown"
    using assms(2) by (cases r) (simp add: suppression_occurrence_continuity_def Let_def Inl suppression_correspondence_def)
  ultimately show ?thesis by simp
next
  case (Inr x)
  from Inr show ?thesis
  proof (rule continuity_context_Inr)
    fix bs hs i j
    assume "Some bsrc = Some bs" "Some hsrc = Some hs"
    moreover assume x: "cx_base_lines x = physical_lines bs" "cx_head_lines x = physical_lines hs"
      "cx_base_index x = int i" "cx_head_index x = int j"
      "df_line (suppression_differential_finding b) = int (Suc i)" "df_line (suppression_differential_finding h) = int (Suc j)"
      "i < length (physical_lines bs)" "j < length (physical_lines hs)"
    ultimately have s: "bs = bsrc" "hs = hsrc" "so_line b = int (Suc i)" "so_line h = int (Suc j)"
      by (simp_all add: suppression_differential_finding_def)
    let ?bl = "physical_lines bsrc" and ?hl = "physical_lines hsrc"
    have bounds: "continuity_within_bounds bsrc hsrc ?bl ?hl (cells_of (bsrc, hsrc))"
      using Inr by (auto simp: continuity_context_def Let_def cells_of_def split: if_splits)
    have decide: "sr_status (fst (suppression_occurrence_continuity sha b h bsrc hsrc c)) = CUnchanged \<longleftrightarrow>
        ?bl ! i = ?hl ! j \<and> count_list ?bl (?bl ! i) = 1 \<and> count_list ?hl (?hl ! j) = 1 \<and> budget_left c bsrc hsrc i j
        \<and> line_cost (?bl ! i) (?hl ! j) = 0 \<and> forced_cost ?bl ?hl i j = global_cost ?bl ?hl
        \<and> global_cost ?bl ?hl < forbidden_cost ?bl ?hl i j"
      using cost_evidence_cached [OF Inr assms(1)] reserve_budget [OF Inr, of c]
      by (simp add: suppression_occurrence_continuity_def Let_def Inr assms(2) x s suppression_correspondence_def split_beta
          reserve_costs split: prod.split bool.split) (auto simp: reserve_costs x s dest: arg_cong [of _ _ snd])
    have "forced_cost ?bl ?hl i j = global_cost ?bl ?hl" if "\<forall>P. optimal ?bl ?hl P \<longrightarrow> (i, j) \<in> set P"
      using that optimal_exists [of ?bl ?hl] forced_optimal_iff [OF x(7,8)] by (auto simp: s)
    with decide bounds x(7,8) show ?thesis
      by (auto simp: s line_continued_def Let_def line_cost_def forbidden_optimal_iff)
  qed
qed

section \<open>Examples\<close>

text \<open>A tokenizer that takes the text from the first number sign of a line as its comment.\<close>

definition demo_tokenizer :: tokenizer where
  "demo_tokenizer source = Inr (filter (\<lambda>t. snd t \<noteq> [])
     (map (\<lambda>(i, l). (int i, dropWhile (\<lambda>c. c \<noteq> CHR ''#'') l)) (enumerate 1 (physical_lines source))))"

definition demo_old :: string where
  "demo_old = ''x = f(1)  # NOQA:  E501''"

definition demo_new :: string where
  "demo_new = demo_old @ [CHR 0x0A] @ ''y = g(2)  # type: ignore[arg-type]''"

definition demo_noqa :: "string \<Rightarrow> SuppressionOccurrence" where
  "demo_noqa path = \<lparr>so_path = path, so_line = 1, so_family = ''ruff-noqa'',
     so_kind = ''introduced_inline_suppression'', so_token = ''# noqa: e501''\<rparr>"

definition demo_ignore :: SuppressionOccurrence where
  "demo_ignore = \<lparr>so_path = ''a.py'', so_line = 2, so_family = ''type-ignore'',
     so_kind = ''introduced_inline_suppression'', so_token = ''# type: ignore[arg-type]''\<rparr>"

lemma demo_sources [simp]:
  "python_sources [(''a.py'', t)] = [(''a.py'', t)]" "python_sources [(''b.py'', t)] = [(''b.py'', t)]"
  by (simp_all add: python_sources_def path_suffix_def path_name_def)

lemma demo_old_a: "suppression_occurrences demo_tokenizer [(''a.py'', demo_old)] = Inr [demo_noqa ''a.py'']"
  by code_simp

lemma demo_old_b: "suppression_occurrences demo_tokenizer [(''b.py'', demo_old)] = Inr [demo_noqa ''b.py'']"
  by code_simp

lemma demo_new_a: "suppression_occurrences demo_tokenizer [(''a.py'', demo_new)] = Inr [demo_noqa ''a.py'', demo_ignore]"
  by code_simp

theorem suppression_gate_exact_witness:
  "\<exists>r. classify_suppression_delta (\<lambda>s. s) demo_tokenizer [(''a.py'', demo_old)] [(''b.py'', demo_old)]
          (Some [(''a.py'', ''b.py'')]) None None = Inr r
     \<and> sl_status r = DPass \<and> sl_findings r = []"
proof -
  obtain r where r: "classify_suppression_delta (\<lambda>s. s) demo_tokenizer [(''a.py'', demo_old)] [(''b.py'', demo_old)]
      (Some [(''a.py'', ''b.py'')]) None None = Inr r" by (simp add: classify_suppression_delta_def Let_def)
  have "occurrence_origin (reversed_renames [(''a.py'', ''b.py'')]) ''b.py'' = ''a.py''" by code_simp
  with suppression_gate_exact [OF _ _ r refl] r show ?thesis
    by (auto simp: demo_old_a demo_old_b demo_noqa_def)
qed

theorem suppression_delta_conserves_witness:
  "\<exists>r. classify_suppression_delta (\<lambda>s. s) demo_tokenizer [(''a.py'', demo_old)] [(''a.py'', demo_new)] None None None = Inr r
     \<and> mset (sl_introduced r) + mset (sl_unchanged r) = {#demo_noqa ''a.py'', demo_ignore#}"
proof -
  obtain r where r: "classify_suppression_delta (\<lambda>s. s) demo_tokenizer [(''a.py'', demo_old)] [(''a.py'', demo_new)]
      None None None = Inr r" by (simp add: classify_suppression_delta_def Let_def)
  from suppression_delta_conserves [OF r] r show ?thesis by (simp add: demo_old_a demo_new_a)
qed

theorem suppression_unchanged_exact_witness:
  "line_continued empty_cache ''x'' [CHR ''x'', CHR 0x0A, CHR ''y''] 0 0"
proof -
  have "sr_status (fst (suppression_occurrence_continuity (\<lambda>s. []) (demo_noqa ''a.py'') (demo_noqa ''a.py'')
      ''x'' [CHR ''x'', CHR 0x0A, CHR ''y''] empty_cache)) = CUnchanged" by code_simp
  then show ?thesis
    using suppression_unchanged_exact [OF empty_cache_ok(2), of "''x''" "[CHR ''x'', CHR 0x0A, CHR ''y'']" "\<lambda>s. []"
        "demo_noqa ''a.py''" "demo_noqa ''a.py''"] by (auto simp: demo_noqa_def)
qed

end
