(* ===== verification/Suppression_Catalog.thy ===== *)
theory Suppression_Catalog
  imports Py_Json
begin

text \<open>
  Activation of the suppression catalog (\<^verbatim>\<open>run/differential.py\<close>, last part): the review profile is active only
  when the catalog that is installed, the digests recorded for it and the policy for the analyzer versions agree.

  Parameters of the model: \<open>sha\<close>, the hexadecimal SHA-256 of a byte string; \<open>loads\<close>, the JSON reader, \<open>None\<close> for
  text it rejects; and the installed files, as a record: the bytes of the catalog and of the consumer matrix,
  \<open>None\<close> when they cannot be read, and the decoded package manifest, \<open>None\<close> when it cannot be read or parsed.
\<close>

section \<open>Data\<close>

datatype activation_status = ActivationPass | ActivationUnknown

record CatalogActivation =
  ca_status :: activation_status
  ca_profile_activated :: bool
  ca_digest :: "string option"
  ca_reason :: string

record SuppressionCatalogResource =
  cat_digest :: string
  cat_canonical_bytes :: string

record SuppressionCatalogContract =
  con_digest :: string
  con_document :: pyval

record installed_package =
  ip_catalog :: "string option"
  ip_matrix :: "string option"
  ip_manifest :: "pyval option"

text \<open>Exceptions the functions do not catch.\<close>

datatype catalog_error = AttributeError | UnhashableType

definition FROZEN_SUPPRESSION_CATALOG_DIGEST :: string where
  "FROZEN_SUPPRESSION_CATALOG_DIGEST = ''sha256:3cc769700bc97d6a13b1a9c3554b66453aa319cf229795e7cede4d917ff13f3b''"

definition PR_RANGE_V1_SUPPRESSION_CATALOG_DIGEST :: string where
  "PR_RANGE_V1_SUPPRESSION_CATALOG_DIGEST = FROZEN_SUPPRESSION_CATALOG_DIGEST"

definition SUPPRESSION_CATALOG_RESOURCE :: string where
  "SUPPRESSION_CATALOG_RESOURCE = ''resources/contracts/pr-range-v1-suppression-catalog.json''"

definition unknown_activation :: "string \<Rightarrow> CatalogActivation" where
  "unknown_activation reason =
     \<lparr>ca_status = ActivationUnknown, ca_profile_activated = False, ca_digest = None, ca_reason = reason\<rparr>"

text \<open>\<open>value[key]\<close> with a string key; \<open>None\<close> stands for the \<open>KeyError\<close> or \<open>TypeError\<close> it raises otherwise.\<close>

fun item_of :: "pyval \<Rightarrow> string \<Rightarrow> pyval option" where
  "item_of (PDict d) k = map_of d (PStr k)"
| "item_of _ k = None"

section \<open>Digests\<close>

definition activate_suppression_catalog :: "string \<Rightarrow> string \<Rightarrow> string \<Rightarrow> string \<Rightarrow> CatalogActivation" where
  "activate_suppression_catalog checkpoint_digest resource_digest package_digest profile_digest =
     (if card {checkpoint_digest, resource_digest, package_digest, profile_digest} \<noteq> 1
        then unknown_activation ''suppression_catalog_identity_mismatch''
      else \<lparr>ca_status = ActivationPass, ca_profile_activated = True, ca_digest = Some resource_digest, ca_reason = []\<rparr>)"

definition authenticated_package_catalog_digest :: "pyval option \<Rightarrow> string option" where
  "authenticated_package_catalog_digest manifest =
     (case manifest of
        None \<Rightarrow> None
      | Some m \<Rightarrow>
          (case Option.bind (item_of m ''authenticated_resources'') (\<lambda>r. item_of r SUPPRESSION_CATALOG_RESOURCE) of
             None \<Rightarrow> None
           | Some entry \<Rightarrow>
               (if item_of entry ''checkpoint_contract'' = Some (PStr ''suppression_catalog_contract'')
                then (case item_of entry ''digest'' of Some (PStr digest) \<Rightarrow> Some digest | _ \<Rightarrow> None)
                else None)))"

definition required_bindings :: "string list" where
  "required_bindings = [''checkpoint'', ''resource'', ''package'', ''profile'', ''report'', ''static_envelope'']"

definition activate_bound_suppression_catalog :: "string \<Rightarrow> pyval \<Rightarrow> string option \<Rightarrow> CatalogActivation" where
  "activate_bound_suppression_catalog resource_digest matrix_bindings package_digest =
     (case matrix_bindings of
        PDict d \<Rightarrow>
          (if fst ` set d \<noteq> PStr ` set required_bindings
             then unknown_activation ''suppression_catalog_identity_bindings_invalid''
           else if \<not> list_all (\<lambda>name. map_of d (PStr name) = Some (PStr resource_digest)) required_bindings
             then unknown_activation ''suppression_catalog_identity_mismatch''
           else (case package_digest of
                   None \<Rightarrow> unknown_activation ''suppression_catalog_package_binding_unavailable''
                 | Some package \<Rightarrow>
                     activate_suppression_catalog FROZEN_SUPPRESSION_CATALOG_DIGEST resource_digest package
                       PR_RANGE_V1_SUPPRESSION_CATALOG_DIGEST))
      | _ \<Rightarrow> unknown_activation ''suppression_catalog_identity_bindings_invalid'')"

section \<open>Analyzer policy\<close>

text \<open>\<open>next(item for item in families if item.get("id") == "nosemgrep")\<close>: \<open>None\<close> when there is none.\<close>

fun next_family :: "pyval list \<Rightarrow> catalog_error + pyval option" where
  "next_family [] = Inr None"
| "next_family (PDict d # items) =
     (if map_of d (PStr ''id'') = Some (PStr ''nosemgrep'') then Inr (Some (PDict d)) else next_family items)"
| "next_family (_ # items) = Inl AttributeError"

text \<open>The items of a value, as iteration gives them; \<open>None\<close> for a value that cannot be iterated.\<close>

fun iterated :: "pyval \<Rightarrow> pyval list option" where
  "iterated (PList xs) = Some xs"
| "iterated (PDict d) = Some (map fst d)"
| "iterated (PStr s) = Some (map (\<lambda>c. PStr [c]) s)"
| "iterated _ = None"

definition catalog_policies :: "(string \<Rightarrow> pyval option) \<Rightarrow> string \<Rightarrow> catalog_error + pyval option" where
  "catalog_policies loads catalog =
     (case Option.bind (Option.bind (loads catalog) (\<lambda>document. item_of document ''families'')) iterated of
        None \<Rightarrow> Inr None
      | Some families \<Rightarrow>
          map_sum id (\<lambda>family. Option.bind family (\<lambda>f. item_of f ''platform_version_policies'')) (next_family families))"

text \<open>\<open>re.fullmatch(r"[0-9]+\.[0-9]+\.[0-9]+", version)\<close>\<close>

definition is_version :: "string \<Rightarrow> bool" where
  "is_version v =
     (let parts = py_split_char (CHR ''.'') v
      in length parts = 3 \<and> list_all (\<lambda>p. p \<noteq> [] \<and> list_all is_digit p) parts)"

definition admitted_platforms :: "string list" where
  "admitted_platforms = [''linux-x86_64'', ''darwin-arm64'']"

definition policy_keys :: "string list" where
  "policy_keys = [''help_schema_digest'', ''parser_catalog_digest'', ''platform'', ''tool_version'']"

fun sha256_text :: "pyval option \<Rightarrow> bool" where
  "sha256_text (Some (PStr s)) = is_sha256 s"
| "sha256_text _ = False"

text \<open>The loop over the policies: \<open>None\<close> is the early \<open>return False\<close>.\<close>

fun admit_policies :: "pyval list \<Rightarrow> (string \<times> string) list \<Rightarrow> catalog_error + (string \<times> string) list option" where
  "admit_policies [] admitted = Inr (Some admitted)"
| "admit_policies (PDict d # policies) admitted =
     (if fst ` set d \<noteq> PStr ` set policy_keys then Inr None
      else (case (map_of d (PStr ''platform''), map_of d (PStr ''tool_version'')) of
              (Some (PStr platform), version) \<Rightarrow>
                (case version of
                   Some (PStr v) \<Rightarrow>
                     (if platform \<notin> set admitted_platforms \<or> map_of admitted platform \<noteq> None \<or> \<not> is_version v
                         \<or> \<not> sha256_text (map_of d (PStr ''parser_catalog_digest''))
                         \<or> \<not> sha256_text (map_of d (PStr ''help_schema_digest''))
                      then Inr None else admit_policies policies (AList.update platform v admitted))
                 | _ \<Rightarrow> Inr None)
            | (Some (PList _), _) \<Rightarrow> Inl UnhashableType
            | (Some (PDict _), _) \<Rightarrow> Inl UnhashableType
            | _ \<Rightarrow> Inr None))"
| "admit_policies (_ # policies) admitted = Inr None"

definition semgrep_suppression_policy_admitted ::
  "(string \<Rightarrow> pyval option) \<Rightarrow> string \<Rightarrow> string \<Rightarrow> (string \<times> string) list \<Rightarrow> catalog_error + bool" where
  "semgrep_suppression_policy_admitted loads catalog platform_id analyzer_versions =
     (if platform_id \<notin> set admitted_platforms then Inr False
      else (case (map_of analyzer_versions ''semgrep-clean'', map_of analyzer_versions ''semgrep-bugs'') of
              (Some clean, Some bugs) \<Rightarrow>
                (if clean \<noteq> bugs then Inr False
                 else (case catalog_policies loads catalog of
                         Inl e \<Rightarrow> Inl e
                       | Inr (Some (PList policies)) \<Rightarrow>
                           (if length policies \<noteq> 2 then Inr False
                            else map_sum id (\<lambda>result. case result of
                                     None \<Rightarrow> False
                                   | Some admitted \<Rightarrow>
                                       map_of admitted ''linux-x86_64'' = Some ''1.144.0''
                                       \<and> map_of admitted ''darwin-arm64'' = Some ''1.175.0''
                                       \<and> map_of admitted platform_id = Some clean)
                                   (admit_policies policies []))
                       | Inr _ \<Rightarrow> Inr False))
            | _ \<Rightarrow> Inr False))"

section \<open>Activation\<close>

text \<open>The resource and the checkpoint contract; \<open>None\<close> for an unreadable or invalid resource.\<close>

definition load_suppression_catalog_and_checkpoint ::
  "(string \<Rightarrow> string) \<Rightarrow> (string \<Rightarrow> pyval option) \<Rightarrow> string option
   \<Rightarrow> (SuppressionCatalogResource \<times> SuppressionCatalogContract) option" where
  "load_suppression_catalog_and_checkpoint sha loads resource =
     Option.bind resource (\<lambda>resource_bytes.
       map_option (\<lambda>document.
         (\<lparr>cat_digest = ''sha256:'' @ sha resource_bytes, cat_canonical_bytes = resource_bytes\<rparr>,
          \<lparr>con_digest = FROZEN_SUPPRESSION_CATALOG_DIGEST, con_document = document\<rparr>)) (loads resource_bytes))"

definition default_versions :: "(string \<times> string) list" where
  "default_versions = [(''semgrep-clean'', ''1.144.0''), (''semgrep-bugs'', ''1.144.0'')]"

text \<open>\<open>analyzer_versions or {...}\<close>\<close>

definition effective_versions :: "(string \<times> string) list option \<Rightarrow> (string \<times> string) list" where
  "effective_versions analyzer_versions =
     (case analyzer_versions of None \<Rightarrow> default_versions | Some v \<Rightarrow> (if v = [] then default_versions else v))"

definition activate_packaged_suppression_catalog ::
  "(string \<Rightarrow> string) \<Rightarrow> (string \<Rightarrow> pyval option) \<Rightarrow> installed_package \<Rightarrow> string \<Rightarrow> (string \<times> string) list option
   \<Rightarrow> catalog_error + CatalogActivation" where
  "activate_packaged_suppression_catalog sha loads package platform_id analyzer_versions =
     (case (load_suppression_catalog_and_checkpoint sha loads (ip_catalog package),
            Option.bind (Option.bind (ip_matrix package) loads)
              (\<lambda>matrix. item_of matrix ''suppression_catalog_identity_bindings'')) of
        (Some (resource, checkpoint), Some bindings) \<Rightarrow>
          (if con_digest checkpoint \<noteq> FROZEN_SUPPRESSION_CATALOG_DIGEST
             then Inr (unknown_activation ''suppression_catalog_checkpoint_binding_mismatch'')
           else (case semgrep_suppression_policy_admitted loads (cat_canonical_bytes resource) platform_id
                        (effective_versions analyzer_versions) of
                   Inl e \<Rightarrow> Inl e
                 | Inr admitted \<Rightarrow>
                     Inr (if \<not> admitted then unknown_activation ''suppression_catalog_semgrep_policy_mismatch''
                          else activate_bound_suppression_catalog (cat_digest resource) bindings
                                 (authenticated_package_catalog_digest (ip_manifest package)))))
      | _ \<Rightarrow> Inr (unknown_activation ''suppression_catalog_resource_unavailable''))"

section \<open>Properties\<close>

lemma activate_iff:
  "ca_status (activate_suppression_catalog c r p f) = ActivationPass \<longleftrightarrow> c = r \<and> p = r \<and> f = r"
proof -
  have "card {c, r, p, f} = 1 \<longleftrightarrow> c = r \<and> p = r \<and> f = r" by (auto simp: card_1_singleton_iff)
  then show ?thesis by (simp add: activate_suppression_catalog_def unknown_activation_def)
qed

lemma activate_bound_iff:
  "ca_status (activate_bound_suppression_catalog r bindings package) = ActivationPass \<longleftrightarrow>
     r = FROZEN_SUPPRESSION_CATALOG_DIGEST \<and> package = Some r
     \<and> (\<exists>d. bindings = PDict d \<and> fst ` set d = PStr ` set required_bindings
          \<and> (\<forall>name \<in> set required_bindings. map_of d (PStr name) = Some (PStr r)))"
  by (cases bindings; cases package)
    (auto simp: activate_bound_suppression_catalog_def unknown_activation_def activate_iff
      PR_RANGE_V1_SUPPRESSION_CATALOG_DIGEST_def list_all_iff)

lemma activation_consistent:
  "ca_profile_activated (activate_bound_suppression_catalog r bindings package)
     = (ca_status (activate_bound_suppression_catalog r bindings package) = ActivationPass)"
  by (auto simp: activate_bound_suppression_catalog_def activate_suppression_catalog_def unknown_activation_def
      split: pyval.splits option.splits)

text \<open>C22: The packaged suppression catalog is activated exactly when the installed catalog can be read, the policy for the
  platform and the analyzer versions admits it, the digest of its raw bytes is the frozen digest, all six identity bindings
  of the consumer matrix are that digest, and the package manifest records it; every other answer leaves the
  profile inactive.\<close>

theorem catalog_activation_exact:
  assumes "activate_packaged_suppression_catalog sha loads package platform_id versions = Inr a"
  shows "(ca_profile_activated a \<longleftrightarrow> ca_status a = ActivationPass)
     \<and> (ca_status a = ActivationPass \<longleftrightarrow>
          (\<exists>raw document matrix d. ip_catalog package = Some raw \<and> loads raw = Some document
             \<and> semgrep_suppression_policy_admitted loads raw platform_id (effective_versions versions) = Inr True
             \<and> ''sha256:'' @ sha raw = FROZEN_SUPPRESSION_CATALOG_DIGEST
             \<and> Option.bind (ip_matrix package) loads = Some matrix
             \<and> item_of matrix ''suppression_catalog_identity_bindings'' = Some (PDict d)
             \<and> fst ` set d = PStr ` set required_bindings
             \<and> (\<forall>name \<in> set required_bindings. map_of d (PStr name) = Some (PStr FROZEN_SUPPRESSION_CATALOG_DIGEST))
             \<and> authenticated_package_catalog_digest (ip_manifest package) = Some FROZEN_SUPPRESSION_CATALOG_DIGEST))"
proof (cases "\<exists>raw document bindings. ip_catalog package = Some raw \<and> loads raw = Some document
    \<and> Option.bind (Option.bind (ip_matrix package) loads) (\<lambda>m. item_of m ''suppression_catalog_identity_bindings'') = Some bindings
    \<and> semgrep_suppression_policy_admitted loads raw platform_id (effective_versions versions) = Inr True")
  case True
  then obtain raw document bindings where b: "ip_catalog package = Some raw" "loads raw = Some document"
    "Option.bind (Option.bind (ip_matrix package) loads) (\<lambda>m. item_of m ''suppression_catalog_identity_bindings'') = Some bindings"
    "semgrep_suppression_policy_admitted loads raw platform_id (effective_versions versions) = Inr True" by blast
  then obtain matrix where m: "Option.bind (ip_matrix package) loads = Some matrix"
    "item_of matrix ''suppression_catalog_identity_bindings'' = Some bindings" by (auto simp: bind_eq_Some_conv)
  have a: "a = activate_bound_suppression_catalog (''sha256:'' @ sha raw) bindings
      (authenticated_package_catalog_digest (ip_manifest package))"
    using assms b by (simp add: activate_packaged_suppression_catalog_def load_suppression_catalog_and_checkpoint_def)
  show ?thesis
    unfolding a activation_consistent activate_bound_iff using b m by auto
next
  case False
  then have "a \<in> range unknown_activation"
    using assms by (auto simp: activate_packaged_suppression_catalog_def load_suppression_catalog_and_checkpoint_def
        bind_eq_Some_conv split: option.splits sum.splits if_splits)
  with False show ?thesis by (auto simp: unknown_activation_def bind_eq_Some_conv)
qed

text \<open>An installed package on which the activation passes.\<close>

definition demo_policy :: "string \<Rightarrow> string \<Rightarrow> pyval" where
  "demo_policy platform version =
     (let digest = PStr FROZEN_SUPPRESSION_CATALOG_DIGEST
      in PDict [(PStr ''help_schema_digest'', digest), (PStr ''parser_catalog_digest'', digest),
                (PStr ''platform'', PStr platform), (PStr ''tool_version'', PStr version)])"

definition demo_catalog :: pyval where
  "demo_catalog = PDict [(PStr ''families'', PList [PDict [(PStr ''id'', PStr ''nosemgrep''),
     (PStr ''platform_version_policies'',
        PList [demo_policy ''linux-x86_64'' ''1.144.0'', demo_policy ''darwin-arm64'' ''1.175.0''])]])]"

definition demo_bindings :: pydict where
  "demo_bindings = map (\<lambda>name. (PStr name, PStr FROZEN_SUPPRESSION_CATALOG_DIGEST)) required_bindings"

definition demo_manifest :: pyval where
  "demo_manifest = PDict [(PStr ''authenticated_resources'', PDict [(PStr SUPPRESSION_CATALOG_RESOURCE,
     PDict [(PStr ''checkpoint_contract'', PStr ''suppression_catalog_contract''),
            (PStr ''digest'', PStr FROZEN_SUPPRESSION_CATALOG_DIGEST)])])]"

definition demo_loads :: "string \<Rightarrow> pyval option" where
  "demo_loads t = (if t = ''catalog'' then Some demo_catalog
     else if t = ''matrix'' then Some (PDict [(PStr ''suppression_catalog_identity_bindings'', PDict demo_bindings)])
     else None)"

definition demo_package :: installed_package where
  "demo_package = \<lparr>ip_catalog = Some ''catalog'', ip_matrix = Some ''matrix'', ip_manifest = Some demo_manifest\<rparr>"

lemma demo_admitted:
  "semgrep_suppression_policy_admitted demo_loads ''catalog'' ''linux-x86_64'' default_versions = Inr True"
  by code_simp

theorem catalog_activation_exact_witness:
  "\<exists>a. activate_packaged_suppression_catalog (\<lambda>_. drop 7 FROZEN_SUPPRESSION_CATALOG_DIGEST) demo_loads demo_package
        ''linux-x86_64'' None = Inr a \<and> ca_profile_activated a \<and> ca_status a = ActivationPass"
proof -
  obtain a where a: "activate_packaged_suppression_catalog (\<lambda>_. drop 7 FROZEN_SUPPRESSION_CATALOG_DIGEST) demo_loads
      demo_package ''linux-x86_64'' None = Inr a"
    by (simp add: activate_packaged_suppression_catalog_def load_suppression_catalog_and_checkpoint_def demo_package_def
        demo_loads_def demo_admitted effective_versions_def)
  have "authenticated_package_catalog_digest (Some demo_manifest) = Some FROZEN_SUPPRESSION_CATALOG_DIGEST"
    by (simp add: authenticated_package_catalog_digest_def demo_manifest_def)
  moreover have "''sha256:'' @ drop 7 FROZEN_SUPPRESSION_CATALOG_DIGEST = FROZEN_SUPPRESSION_CATALOG_DIGEST"
    by (simp add: FROZEN_SUPPRESSION_CATALOG_DIGEST_def)
  moreover have "map_of demo_bindings (PStr name) = Some (PStr FROZEN_SUPPRESSION_CATALOG_DIGEST)"
    if "name \<in> set required_bindings" for name
    using that by (auto simp: demo_bindings_def required_bindings_def)
  moreover have "fst ` set demo_bindings = PStr ` set required_bindings"
    by (simp add: demo_bindings_def image_image)
  ultimately have "ca_status a = ActivationPass"
    using catalog_activation_exact [OF a] demo_admitted
    by (simp add: demo_package_def demo_loads_def effective_versions_def)
  then show ?thesis using catalog_activation_exact [OF a] a by simp
qed

end
