(* ===== verification/Py_Unicode.thy ===== *)
theory Py_Unicode
  imports Prelude
begin

text \<open>
  Text beyond Latin-1, where the program needs it: a decoded text is a list of code points, and
  \<open>bytes.decode("utf-8")\<close>, \<open>str.encode()\<close>, the UTF-16 width and \<open>str.splitlines()\<close> are functions on it.
  The decoder is strict: overlong forms, surrogates and values above 10FFFF are errors, as in Python.

  The codec is stated as a locale: what one side writes the other reads, and a text that decodes is written back
  unchanged. Prefixes of a text are then prefixes of its bytes.
\<close>

section \<open>UTF-8\<close>

type_synonym codepoints = "nat list"

definition scalar :: "nat \<Rightarrow> bool" where
  "scalar c = (c < 55296 \<or> (57344 \<le> c \<and> c < 1114112))"

definition utf8_char :: "nat \<Rightarrow> string" where
  "utf8_char c =
     (if c < 128 then [char_of c]
      else if c < 2048 then [char_of (192 + c div 64), char_of (128 + c mod 64)]
      else if c < 65536
        then [char_of (224 + c div 4096), char_of (128 + c div 64 mod 64), char_of (128 + c mod 64)]
      else [char_of (240 + c div 262144), char_of (128 + c div 4096 mod 64), char_of (128 + c div 64 mod 64),
            char_of (128 + c mod 64)])"

definition utf8_encode :: "codepoints \<Rightarrow> string" where
  "utf8_encode cs = concat (map utf8_char cs)"

definition continuation :: "char \<Rightarrow> bool" where
  "continuation b = (128 \<le> (of_char b :: nat) \<and> (of_char b :: nat) < 192)"

definition low6 :: "char \<Rightarrow> nat" where
  "low6 b = of_char b mod 64"

text \<open>One character and the bytes after it.\<close>

fun utf8_next :: "string \<Rightarrow> (nat \<times> string) option" where
  "utf8_next [] = None"
| "utf8_next (a # s) =
     (let n = (of_char a :: nat)
      in if n < 128 then Some (n, s)
         else if n < 192 then None
         else if n < 224 then
           (case s of
              b # r \<Rightarrow> (let v = (n - 192) * 64 + low6 b
                        in if continuation b \<and> 128 \<le> v then Some (v, r) else None)
            | _ \<Rightarrow> None)
         else if n < 240 then
           (case s of
              b # c # r \<Rightarrow> (let v = ((n - 224) * 64 + low6 b) * 64 + low6 c
                            in if continuation b \<and> continuation c \<and> 2048 \<le> v \<and> scalar v then Some (v, r) else None)
            | _ \<Rightarrow> None)
         else if n < 248 then
           (case s of
              b # c # d # r \<Rightarrow> (let v = (((n - 240) * 64 + low6 b) * 64 + low6 c) * 64 + low6 d
                                in if continuation b \<and> continuation c \<and> continuation d \<and> 65536 \<le> v \<and> scalar v
                                   then Some (v, r) else None)
            | _ \<Rightarrow> None)
         else None)"

lemma utf8_next_shorter [termination_simp]: "utf8_next s = Some (c, r) \<Longrightarrow> length r < length s"
  by (cases s) (auto simp: Let_def split: if_splits list.splits)

function utf8_decode :: "string \<Rightarrow> codepoints option" where
  "utf8_decode s =
     (if s = [] then Some []
      else (case utf8_next s of
              None \<Rightarrow> None
            | Some (c, r) \<Rightarrow> map_option (\<lambda>cs. c # cs) (utf8_decode r)))"
  by pat_completeness auto
termination
  by (relation "measure length") (auto dest: utf8_next_shorter)

declare utf8_decode.simps [simp del]

lemma utf8_decode_Nil [simp]: "utf8_decode [] = Some []"
  by (simp add: utf8_decode.simps)

text \<open>Continuation bytes carry six bits.\<close>

lemma continuation_char [simp]: "n < 64 \<Longrightarrow> continuation (char_of (128 + n))" for n :: nat
  by (simp add: continuation_def)

lemma low6_char [simp]: "n < 64 \<Longrightarrow> low6 (char_of (128 + n)) = n" for n :: nat
  using mod_mult_self3 [of 2 64 n] by (simp add: low6_def)

lemma char_of_low6: "continuation b \<Longrightarrow> char_of (128 + low6 b) = b"
proof -
  assume b: "continuation b"
  then obtain m where m: "(of_char b :: nat) = 128 + m" "m < 64"
    by (auto simp: continuation_def dest: le_Suc_ex)
  then have "low6 b = m" using mod_mult_self3 [of 2 64 m] by (simp add: low6_def)
  then have "128 + low6 b = (of_char b :: nat)" using m by simp
  then show ?thesis by (simp only: char_of_char)
qed

lemma low6_less [simp]: "low6 b < 64"
  by (simp add: low6_def)

lemma utf8_next_char:
  assumes "scalar c"
  shows "utf8_next (utf8_char c @ r) = Some (c, r)"
proof -
  have b: "c < 1114112" using assms by (auto simp: scalar_def)
  consider "c < 128" | "128 \<le> c" "c < 2048" | "2048 \<le> c" "c < 65536" | "65536 \<le> c" by linarith
  then show ?thesis
  proof cases
    case 1
    then show ?thesis by (simp add: utf8_char_def)
  next
    case 2
    have "c div 64 < 32" using 2 by (simp add: div_less_iff_less_mult)
    then show ?thesis using 2 by (simp add: utf8_char_def Let_def)
  next
    case 3
    have d: "c div 4096 < 16" using 3 by (simp add: div_less_iff_less_mult)
    have v: "(c div 4096 * 64 + c div 64 mod 64) * 64 + c mod 64 = c"
      by (simp add: div_mult2_eq [of c 64 64, simplified] mod_mult2_eq)
    show ?thesis using 3 d assms by (simp add: utf8_char_def v Let_def del: distrib_right_numeral)
  next
    case 4
    have d: "c div 262144 < 8" using b by (simp add: div_less_iff_less_mult)
    have v: "((c div 262144 * 64 + c div 4096 mod 64) * 64 + c div 64 mod 64) * 64 + c mod 64 = c"
      by (simp add: div_mult2_eq [of c 64 64, simplified] div_mult2_eq [of c 4096 64, simplified])
    show ?thesis using 4 d assms by (simp add: utf8_char_def v Let_def del: distrib_right_numeral)
  qed
qed

lemma base64_split:
  "x < 64 \<Longrightarrow> (a * 64 + x) div 64 = a" "x < 64 \<Longrightarrow> (a * 64 + x) mod 64 = x" for a x :: nat
  by simp_all

lemma utf8_next_sound:
  assumes "utf8_next s = Some (c, r)"
  shows "s = utf8_char c @ r \<and> scalar c"
proof (cases s)
  case (Cons a t)
  let ?n = "of_char a :: nat"
  consider "?n < 128" "c = ?n" "r = t"
    | b where "192 \<le> ?n" "?n < 224" "t = b # r" "continuation b" "c = (?n - 192) * 64 + low6 b" "128 \<le> c"
    | b d where "224 \<le> ?n" "?n < 240" "t = b # d # r" "continuation b" "continuation d"
        "c = ((?n - 224) * 64 + low6 b) * 64 + low6 d" "2048 \<le> c" "scalar c"
    | b d e where "240 \<le> ?n" "?n < 248" "t = b # d # e # r" "continuation b" "continuation d" "continuation e"
        "c = (((?n - 240) * 64 + low6 b) * 64 + low6 d) * 64 + low6 e" "65536 \<le> c" "scalar c"
    using assms by (auto simp: Cons Let_def split: if_splits list.splits)
  then show ?thesis
  proof cases
    case 1
    then show ?thesis by (simp add: Cons utf8_char_def scalar_def)
  next
    case (2 b)
    then have "?n - 192 < 32" by simp
    with 2 have "c < 2048" using low6_less [of b] by linarith
    with 2 show ?thesis by (simp add: Cons utf8_char_def scalar_def base64_split char_of_low6)
  next
    case (3 b d)
    define h where "h = (?n - 224) * 64 + low6 b"
    have h: "h div 64 = ?n - 224" "h mod 64 = low6 b" by (simp_all add: h_def base64_split)
    have c: "c div 64 = h" "c mod 64 = low6 d" using 3(6) by (simp_all add: h_def [symmetric] base64_split)
    then have "c div 4096 = h div 64" by (simp add: div_mult2_eq [of c 64 64, simplified])
    note c = c this
    have "?n - 224 < 16" using 3 by simp
    then have "h < 1024" using low6_less [of b] unfolding h_def by linarith
    then have "c < 65536" using 3(6) low6_less [of d] unfolding h_def [symmetric] by linarith
    with 3 h c show ?thesis by (simp add: Cons utf8_char_def char_of_low6)
  next
    case (4 b d e)
    define g where "g = (?n - 240) * 64 + low6 b"
    define h where "h = g * 64 + low6 d"
    have g: "g div 64 = ?n - 240" "g mod 64 = low6 b" by (simp_all add: g_def base64_split)
    have h: "h div 64 = g" "h mod 64 = low6 d" by (simp_all add: h_def base64_split)
    have c: "c div 64 = h" "c mod 64 = low6 e" using 4(7) by (simp_all add: g_def [symmetric] h_def [symmetric] base64_split)
    have "c div 4096 = g" using c(1) h(1) by (simp add: div_mult2_eq [of c 64 64, simplified])
    moreover from this have "c div 262144 = g div 64" by (simp add: div_mult2_eq [of c 4096 64, simplified])
    ultimately show ?thesis using 4 g h c by (simp add: Cons utf8_char_def char_of_low6)
  qed
qed (use assms in simp)

section \<open>The codec\<close>

text \<open>What a codec of texts promises its clients.\<close>

locale codec =
  fixes encode :: "codepoints \<Rightarrow> string" and decode :: "string \<Rightarrow> codepoints option"
  assumes decode_encode: "list_all scalar cs \<Longrightarrow> decode (encode cs) = Some cs"
    and encode_decode: "decode bs = Some cs \<Longrightarrow> encode cs = bs \<and> list_all scalar cs"
    and encode_append: "encode (us @ vs) = encode us @ encode vs"
begin

lemma decode_unique: "decode a = Some cs \<Longrightarrow> decode b = Some cs \<Longrightarrow> a = b"
  using encode_decode by blast

lemma encode_inject: "list_all scalar us \<Longrightarrow> list_all scalar vs \<Longrightarrow> encode us = encode vs \<longleftrightarrow> us = vs"
  using decode_encode by (metis option.inject)

lemma encode_prefix: "take (length (encode (take n cs))) (encode cs) = encode (take n cs)"
  using encode_append [of "take n cs" "drop n cs"] by simp

lemma prefix_length_mono: "m \<le> n \<Longrightarrow> length (encode (take m cs)) \<le> length (encode (take n cs))"
proof -
  assume "m \<le> n"
  then have "take n cs = take m cs @ take (n - m) (drop m cs)" by (simp flip: take_add)
  then show ?thesis by (simp add: encode_append)
qed

lemma prefix_length_le: "length (encode (take n cs)) \<le> length (encode cs)"
  using encode_append [of "take n cs" "drop n cs"] by simp

end

lemma utf8_char_nonempty [simp]: "utf8_char c \<noteq> []"
  by (simp add: utf8_char_def)

lemma utf8_decode_encode: "list_all scalar cs \<Longrightarrow> utf8_decode (utf8_encode cs) = Some cs"
  by (induction cs) (simp_all add: utf8_encode_def utf8_decode.simps [of "utf8_char _ @ _"] utf8_next_char)

lemma utf8_encode_decode: "utf8_decode bs = Some cs \<Longrightarrow> utf8_encode cs = bs \<and> list_all scalar cs"
proof (induction bs arbitrary: cs rule: utf8_decode.induct)
  case (1 s)
  show ?case
  proof (cases "s = []")
    case False
    with "1.prems" obtain c r ds where n: "utf8_next s = Some (c, r)" "utf8_decode r = Some ds" "cs = c # ds"
      by (auto simp: utf8_decode.simps [of s] split: option.splits prod.splits)
    from "1.IH" [OF False n(1) refl n(2)] utf8_next_sound [OF n(1)] n(3) show ?thesis by (simp add: utf8_encode_def)
  qed (use "1.prems" in \<open>simp add: utf8_encode_def\<close>)
qed

interpretation utf8: codec utf8_encode utf8_decode
  by unfold_locales (rule utf8_decode_encode, assumption, erule utf8_encode_decode, simp add: utf8_encode_def)

section \<open>Lines and UTF-16\<close>

definition text_linebreak :: "nat \<Rightarrow> bool" where
  "text_linebreak n = ((10 \<le> n \<and> n \<le> 13) \<or> (28 \<le> n \<and> n \<le> 30) \<or> n = 133 \<or> n = 8232 \<or> n = 8233)"

fun text_lines_acc :: "codepoints \<Rightarrow> codepoints \<Rightarrow> codepoints list" where
  "text_lines_acc acc [] = (if acc = [] then [] else [rev acc])"
| "text_lines_acc acc (x # xs) =
     (if text_linebreak x
      then rev acc # text_lines_acc [] (if x = 13 \<and> xs \<noteq> [] \<and> hd xs = 10 then tl xs else xs)
      else text_lines_acc (x # acc) xs)"

text \<open>\<open>text.splitlines()\<close>\<close>

definition text_lines :: "codepoints \<Rightarrow> codepoints list" where
  "text_lines cs = text_lines_acc [] cs"

text \<open>\<open>len(character.encode("utf-16-le")) // 2\<close>\<close>

definition utf16_width :: "nat \<Rightarrow> nat" where
  "utf16_width c = (if c < 65536 then 1 else 2)"

definition utf16_length :: "codepoints \<Rightarrow> nat" where
  "utf16_length cs = sum_list (map utf16_width cs)"

lemma list_all_tl: "list_all P xs \<Longrightarrow> list_all P (tl xs)"
  by (cases xs) auto

lemma text_lines_scalar: "list_all scalar cs \<Longrightarrow> list_all (list_all scalar) (text_lines cs)"
proof -
  have "list_all scalar cs \<Longrightarrow> list_all scalar acc \<Longrightarrow> list_all (list_all scalar) (text_lines_acc acc cs)" for acc
    by (induction acc cs rule: text_lines_acc.induct) (simp_all add: list_all_tl)
  then show "list_all scalar cs \<Longrightarrow> list_all (list_all scalar) (text_lines cs)" by (simp add: text_lines_def)
qed

end
