(* ===== verification/Source_Location.thy ===== *)
theory Source_Location
  imports Py_Unicode Line_Correspondence
begin

text \<open>
  Finding locations (\<^verbatim>\<open>run/differential.py\<close>, first part): conversion of the row and column an analyzer reports,
  in code points or UTF-16 code units, to columns in UTF-8 bytes, and the whole-line fallback.

  A source is its bytes; a row, line or column is an integer, as in the source. An \<open>icontract\<close> precondition that
  fails is an error value.
\<close>

section \<open>Data\<close>

record SourceSpan =
  ss_kind :: string
  ss_schema :: string
  ss_path :: string
  ss_start_line :: int
  ss_start_column :: int
  ss_end_line :: int
  ss_end_column :: int
  ss_precision :: string
  ss_coordinate_system :: string

record LocatedFinding =
  lf_analyzer :: string
  lf_location :: SourceSpan

record ContinuityResult =
  cr_status :: string
  cr_reason :: string

record DifferentialSnapshotSelection =
  sn_baseline_commit :: string
  sn_target_tip_commit :: string
  sn_head_commit :: string

datatype location_error = UnicodeDecodeError | CoordinateError string | ViolationError string | MissingKey string

definition source_span :: "string \<Rightarrow> int \<Rightarrow> int \<Rightarrow> int \<Rightarrow> int \<Rightarrow> string \<Rightarrow> SourceSpan" where
  "source_span path start_line start_column end_line end_column precision =
     \<lparr>ss_kind = ''source_span'', ss_schema = ''source-span-v1'', ss_path = path, ss_start_line = start_line,
      ss_start_column = start_column, ss_end_line = end_line, ss_end_column = end_column,
      ss_precision = precision, ss_coordinate_system = ''utf8-byte-half-open''\<rparr>"

section \<open>Operations\<close>

definition line_fallback_location :: "string \<Rightarrow> string \<Rightarrow> int \<Rightarrow> location_error + SourceSpan" where
  "line_fallback_location path source line =
     (if \<not> line \<ge> 1 then Inl (ViolationError ''line numbers are one-based'')
      else (let lines = physical_lines source;
                payload = (if line \<le> int (length lines) then lines ! nat (line - 1) else [])
            in case utf8_decode payload of
                 None \<Rightarrow> Inl UnicodeDecodeError
               | Some _ \<Rightarrow> Inr (source_span path line 0 line (int (length payload)) ''line'')))"

text \<open>The loop of \<open>_utf16_prefix_to_utf8_column\<close>: the characters taken and the code units consumed.\<close>

fun utf16_prefix_loop :: "int \<Rightarrow> int \<Rightarrow> codepoints \<Rightarrow> codepoints \<times> int" where
  "utf16_prefix_loop units consumed [] = ([], consumed)"
| "utf16_prefix_loop units consumed (character # rest) =
     (let width = int (utf16_width character)
      in if consumed + width > units then ([], consumed)
         else if consumed + width = units then ([character], consumed + width)
         else (let (characters, used) = utf16_prefix_loop units (consumed + width) rest
               in (character # characters, used)))"

definition utf16_prefix_to_utf8_column :: "codepoints \<Rightarrow> int \<Rightarrow> location_error + int" where
  "utf16_prefix_to_utf8_column line units =
     (let (characters, consumed) = utf16_prefix_loop units 0 line
      in if consumed \<noteq> units
           then Inl (CoordinateError ''coordinate splits a UTF-16 surrogate pair or exceeds the line'')
         else Inr (int (length (utf8_encode characters))))"

definition convert_exact_location ::
  "string \<Rightarrow> string \<Rightarrow> string \<Rightarrow> int \<times> int \<Rightarrow> int \<times> int \<Rightarrow> location_error + SourceSpan" where
  "convert_exact_location path source coordinate_system start stop =
     (case utf8_decode source of
        None \<Rightarrow> Inl UnicodeDecodeError
      | Some text \<Rightarrow>
          (let text_lines = text_lines text; (start_row, start_column) = start; (end_row, end_column) = stop
           in if \<not> (0 \<le> start_row \<and> start_row < int (length text_lines))
                 \<or> \<not> (0 \<le> end_row \<and> end_row < int (length text_lines))
                 \<or> start_column < 0 \<or> end_column < 0
                 \<or> (end_row, end_column) < (start_row, start_column)
                then Inl (CoordinateError ''source coordinate is outside the decoded source'')
              else (let start_text = text_lines ! nat start_row; end_text = text_lines ! nat end_row
                    in if coordinate_system = ''utf16-code-units''
                       then (case utf16_prefix_to_utf8_column start_text start_column of
                               Inl e \<Rightarrow> Inl e
                             | Inr canonical_start \<Rightarrow>
                                 (case utf16_prefix_to_utf8_column end_text end_column of
                                    Inl e \<Rightarrow> Inl e
                                  | Inr canonical_end \<Rightarrow>
                                      Inr (source_span path (start_row + 1) canonical_start (end_row + 1) canonical_end
                                             ''exact'')))
                       else if start_column > int (length start_text) \<or> end_column > int (length end_text)
                         then Inl (CoordinateError ''source column is outside the decoded line'')
                       else Inr (source_span path
                              (start_row + 1) (int (length (utf8_encode (take (nat start_column) start_text))))
                              (end_row + 1) (int (length (utf8_encode (take (nat end_column) end_text))))
                              ''exact''))))"

text \<open>\<open>raw[k]\<close> of the adapter record: a missing key is not caught by \<open>normalize_location\<close>.\<close>

definition normalize_location ::
  "string \<Rightarrow> string \<Rightarrow> string \<Rightarrow> (string \<times> int) list \<Rightarrow> location_error + (LocatedFinding + ContinuityResult)" where
  "normalize_location analyzer path source raw =
     (case map_of raw ''row'' of None \<Rightarrow> Inl (MissingKey ''row'') | Some row \<Rightarrow>
      case map_of raw ''column'' of None \<Rightarrow> Inl (MissingKey ''column'') | Some column \<Rightarrow>
      case map_of raw ''end_row'' of None \<Rightarrow> Inl (MissingKey ''end_row'') | Some end_row \<Rightarrow>
      case map_of raw ''end_column'' of None \<Rightarrow> Inl (MissingKey ''end_column'') | Some end_column \<Rightarrow>
        Inr (case convert_exact_location path source ''unicode-code-points'' (row - 1, column) (end_row - 1, end_column) of
               Inl _ \<Rightarrow> Inr \<lparr>cr_status = ''UNKNOWN'', cr_reason = ''invalid_source_coordinate''\<rparr>
             | Inr location \<Rightarrow> Inl \<lparr>lf_analyzer = analyzer, lf_location = location\<rparr>))"

definition source_continuity :: "(string \<times> string) list \<Rightarrow> ContinuityResult" where
  "source_continuity location =
     (if map_of location ''kind'' \<noteq> Some ''source_span''
        then \<lparr>cr_status = ''UNKNOWN'', cr_reason = ''non_source_location''\<rparr>
      else \<lparr>cr_status = ''PASS'', cr_reason = []\<rparr>)"

definition select_differential_snapshots :: "string \<Rightarrow> string \<Rightarrow> string \<Rightarrow> DifferentialSnapshotSelection" where
  "select_differential_snapshots merge_base base_tip head =
     \<lparr>sn_baseline_commit = merge_base, sn_target_tip_commit = base_tip, sn_head_commit = head\<rparr>"

section \<open>Columns\<close>

lemma utf16_width_pos [simp]: "0 < utf16_width c"
  by (simp add: utf16_width_def)

lemma utf16_length_simps [simp]:
  "utf16_length [] = 0" "utf16_length (c # cs) = utf16_width c + utf16_length cs"
  by (simp_all add: utf16_length_def)

lemma utf16_length_0 [simp]: "utf16_length cs = 0 \<longleftrightarrow> cs = []"
  by (cases cs) auto

lemma utf16_take_inject:
  "m \<le> length cs \<Longrightarrow> n \<le> length cs \<Longrightarrow> utf16_length (take m cs) = utf16_length (take n cs) \<longleftrightarrow> m = n"
proof (induction cs arbitrary: m n)
  case (Cons c cs)
  then show ?case by (cases m; cases n) auto
qed simp

lemma utf16_take_mono: "m \<le> n \<Longrightarrow> utf16_length (take m cs) \<le> utf16_length (take n cs)"
  by (induction cs arbitrary: m n) (auto simp: take_Cons split: nat.splits)

text \<open>The loop stops after the longest prefix within the units.\<close>

lemma utf16_loop:
  assumes "utf16_prefix_loop units consumed line = (characters, used)" and "consumed \<le> units"
  shows "\<exists>k \<le> length line. characters = take k line \<and> used = consumed + int (utf16_length (take k line))
    \<and> used \<le> units \<and> (used < units \<longrightarrow> k = length line \<or> units < used + int (utf16_width (line ! k)))"
  using assms
proof (induction units consumed line arbitrary: characters used rule: utf16_prefix_loop.induct)
  case (2 units consumed c rest)
  let ?w = "int (utf16_width c)"
  consider "consumed + ?w > units" | "consumed + ?w = units" | "consumed + ?w < units" by linarith
  then show ?case
  proof cases
    case 3
    obtain p n where l: "utf16_prefix_loop units (consumed + ?w) rest = (p, n)" by fastforce
    from "2.IH" [OF refl _ _ l] 3 obtain k where "k \<le> length rest" "p = take k rest"
      "n = consumed + ?w + int (utf16_length (take k rest))" "n \<le> units"
      "n < units \<longrightarrow> k = length rest \<or> units < n + int (utf16_width (rest ! k))" by auto
    with 3 l "2.prems"(1) show ?thesis by (intro exI [of _ "Suc k"]) (auto simp: Let_def)
  qed (use "2.prems" in \<open>auto simp: Let_def intro: exI [of _ 0] exI [of _ 1]\<close>)
qed simp

lemma utf16_length_append [simp]: "utf16_length (us @ vs) = utf16_length us + utf16_length vs"
  by (simp add: utf16_length_def)

lemma utf16_column_iff:
  assumes "0 \<le> units"
  shows "utf16_prefix_to_utf8_column line units = Inr n \<longleftrightarrow>
     (\<exists>k \<le> length line. int (utf16_length (take k line)) = units \<and> n = int (length (utf8_encode (take k line))))"
    (is "?L \<longleftrightarrow> ?R")
proof -
  obtain characters used where l: "utf16_prefix_loop units 0 line = (characters, used)" by fastforce
  from utf16_loop [OF l assms] obtain k where k: "k \<le> length line" "characters = take k line"
    "used = int (utf16_length (take k line))" "used \<le> units"
    "used < units \<Longrightarrow> k = length line \<or> units < used + int (utf16_width (line ! k))" by auto
  have used: "used = units" if m: "m \<le> length line" "int (utf16_length (take m line)) = units" for m
  proof (rule ccontr)
    assume "used \<noteq> units"
    with k(4) have less: "used < units" by simp
    then have "k < m" using utf16_take_mono [of m k line] m(2) k(3) by (cases "k < m") auto
    with m(1) have "k < length line" by simp
    with k(5) [OF less] have "units < int (utf16_length (take (Suc k) line))" by (simp add: take_Suc_conv_app_nth k(3))
    also have "\<dots> \<le> units" using utf16_take_mono [of "Suc k" m line] \<open>k < m\<close> m(2) by simp
    finally show False by simp
  qed
  have "?L \<longleftrightarrow> used = units \<and> n = int (length (utf8_encode (take k line)))"
    by (auto simp: utf16_prefix_to_utf8_column_def l k(2))
  also have "\<dots> \<longleftrightarrow> ?R" using used k(1,3) utf16_take_inject [of _ line k] by (metis of_nat_eq_iff)
  finally show ?thesis .
qed

text \<open>A column of a line in the units of the adapter: the code points before it.\<close>

definition column_at :: "string \<Rightarrow> codepoints \<Rightarrow> int \<Rightarrow> nat \<Rightarrow> bool" where
  "column_at coordinate_system line column k =
     (k \<le> length line
      \<and> column = (if coordinate_system = ''utf16-code-units'' then int (utf16_length (take k line)) else int k))"

lemma column_at_mono: "column_at cs line c k \<Longrightarrow> column_at cs line d l \<Longrightarrow> c \<le> d \<Longrightarrow> k \<le> l"
  using utf16_take_mono [of l k line] utf16_take_inject [of l line k]
  by (auto simp: column_at_def split: if_splits) (metis le_antisym nat_le_linear)

definition valid_rows :: "codepoints list \<Rightarrow> int \<times> int \<Rightarrow> int \<times> int \<Rightarrow> bool" where
  "valid_rows lines start stop =
     (0 \<le> fst start \<and> fst start < int (length lines) \<and> 0 \<le> fst stop \<and> fst stop < int (length lines)
      \<and> 0 \<le> snd start \<and> 0 \<le> snd stop \<and> start \<le> stop)"

lemma convert_exact_iff:
  "convert_exact_location path source cs start stop = Inr sp \<longleftrightarrow>
     (\<exists>cps k l. utf8_decode source = Some cps \<and> valid_rows (text_lines cps) start stop
        \<and> column_at cs (text_lines cps ! nat (fst start)) (snd start) k
        \<and> column_at cs (text_lines cps ! nat (fst stop)) (snd stop) l
        \<and> sp = source_span path
            (fst start + 1) (int (length (utf8_encode (take k (text_lines cps ! nat (fst start))))))
            (fst stop + 1) (int (length (utf8_encode (take l (text_lines cps ! nat (fst stop)))))) ''exact'')"
    (is "?L \<longleftrightarrow> ?R")
proof (cases "\<exists>cps. utf8_decode source = Some cps \<and> valid_rows (text_lines cps) start stop")
  case True
  then obtain cps where cps: "utf8_decode source = Some cps" and v: "valid_rows (text_lines cps) start stop" by blast
  let ?s = "text_lines cps ! nat (fst start)" and ?e = "text_lines cps ! nat (fst stop)"
  have rows: "\<not> (stop < start)" "0 \<le> snd start" "0 \<le> snd stop" using v by (auto simp: valid_rows_def not_less)
  have guard: "\<not> (\<not> (0 \<le> fst start \<and> fst start < int (length (text_lines cps)))
      \<or> \<not> (0 \<le> fst stop \<and> fst stop < int (length (text_lines cps))) \<or> snd start < 0 \<or> snd stop < 0
      \<or> (fst stop, snd stop) < (fst start, snd start))" using v rows(1) by (auto simp: valid_rows_def)
  show ?thesis
  proof (cases "cs = ''utf16-code-units''")
    case True
    have "?L \<longleftrightarrow> (\<exists>a b. utf16_prefix_to_utf8_column ?s (snd start) = Inr a \<and> utf16_prefix_to_utf8_column ?e (snd stop) = Inr b
        \<and> sp = source_span path (fst start + 1) a (fst stop + 1) b ''exact'')"
      unfolding convert_exact_location_def cps Let_def split_beta using guard True by (auto split: sum.splits)
    also have "\<dots> \<longleftrightarrow> ?R"
      unfolding utf16_column_iff [OF rows(2)] utf16_column_iff [OF rows(3)] using cps v True
      by (simp add: column_at_def) metis
    finally show ?thesis .
  next
    case False
    have "?L \<longleftrightarrow> snd start \<le> int (length ?s) \<and> snd stop \<le> int (length ?e) \<and> sp = source_span path
        (fst start + 1) (int (length (utf8_encode (take (nat (snd start)) ?s))))
        (fst stop + 1) (int (length (utf8_encode (take (nat (snd stop)) ?e)))) ''exact''"
      unfolding convert_exact_location_def cps Let_def split_beta using guard False by auto
    also have "\<dots> \<longleftrightarrow> ?R"
      using cps v False rows(2,3) by (auto simp: column_at_def nat_le_iff intro!: exI [of _ "nat _"])
    finally show ?thesis .
  qed
next
  case False
  then have "\<not> ?L"
    by (cases start; cases stop)
      (auto simp: convert_exact_location_def valid_rows_def Let_def not_less split: option.splits if_splits)
  with False show ?thesis by blast
qed

section \<open>Properties\<close>

lemma line_scalar:
  assumes "utf8_decode source = Some cps" and "0 \<le> r" and "r < int (length (text_lines cps))"
  shows "list_all scalar (text_lines cps ! nat r)"
proof -
  have "list_all scalar cps" using utf8.encode_decode [OF assms(1)] by simp
  then have "list_all (list_all scalar) (text_lines cps)" by (rule text_lines_scalar)
  moreover have "nat r < length (text_lines cps)" using assms(2,3) by (simp add: nat_less_iff)
  ultimately show ?thesis by (simp add: list_all_length)
qed

lemma column_decodes:
  assumes "list_all scalar line"
  shows "utf8_decode (take (length (utf8_encode (take k line))) (utf8_encode line)) = Some (take k line)"
proof -
  have "list_all scalar (take k line)" using assms by (auto simp: list_all_iff dest: in_set_takeD)
  then show ?thesis by (simp add: utf8.encode_prefix utf8.decode_encode)
qed

text \<open>C26: Exact location conversion returns a span exactly when the source is UTF-8, both rows are rows of the text, the end is
  not before the start, and both columns stand at a code point of their line, counted in code points or in UTF-16
  code units. The columns of the span are then the bytes before that code point: the bytes of the line up to the
  column decode to the text before it. The span never ends before it starts.\<close>

theorem convert_exact_location_exact:
  "(convert_exact_location path source cs (start_row, start_column) (end_row, end_column) = Inr sp \<longleftrightarrow>
     (\<exists>cps k l. utf8_decode source = Some cps
        \<and> valid_rows (text_lines cps) (start_row, start_column) (end_row, end_column)
        \<and> column_at cs (text_lines cps ! nat start_row) start_column k
        \<and> column_at cs (text_lines cps ! nat end_row) end_column l
        \<and> sp = source_span path
            (start_row + 1) (int (length (utf8_encode (take k (text_lines cps ! nat start_row)))))
            (end_row + 1) (int (length (utf8_encode (take l (text_lines cps ! nat end_row))))) ''exact''
        \<and> utf8_decode (take (nat (ss_start_column sp)) (utf8_encode (text_lines cps ! nat start_row)))
            = Some (take k (text_lines cps ! nat start_row))
        \<and> utf8_decode (take (nat (ss_end_column sp)) (utf8_encode (text_lines cps ! nat end_row)))
            = Some (take l (text_lines cps ! nat end_row))
        \<and> (ss_start_line sp, ss_start_column sp) \<le> (ss_end_line sp, ss_end_column sp)))" (is "?L \<longleftrightarrow> ?R")
proof
  assume ?L
  then obtain cps k l where d: "utf8_decode source = Some cps"
    "valid_rows (text_lines cps) (start_row, start_column) (end_row, end_column)"
    "column_at cs (text_lines cps ! nat start_row) start_column k" "column_at cs (text_lines cps ! nat end_row) end_column l"
    "sp = source_span path (start_row + 1) (int (length (utf8_encode (take k (text_lines cps ! nat start_row)))))
       (end_row + 1) (int (length (utf8_encode (take l (text_lines cps ! nat end_row))))) ''exact''"
    by (auto simp: convert_exact_iff)
  have rows: "0 \<le> start_row" "start_row < int (length (text_lines cps))" "0 \<le> end_row" "end_row < int (length (text_lines cps))"
    using d(2) by (simp_all add: valid_rows_def)
  note columns = column_decodes [OF line_scalar [OF d(1) rows(1,2)], of k] column_decodes [OF line_scalar [OF d(1) rows(3,4)], of l]
  have "(ss_start_line sp, ss_start_column sp) \<le> (ss_end_line sp, ss_end_column sp)"
  proof (cases "start_row = end_row")
    case True
    then have "k \<le> l" using d(2,3,4) by (auto simp: valid_rows_def intro: column_at_mono)
    with True show ?thesis using utf8.prefix_length_mono by (auto simp: d(5) source_span_def)
  next
    case False
    with d(2) have "start_row < end_row" by (auto simp: valid_rows_def)
    then show ?thesis by (auto simp: d(5) source_span_def)
  qed
  with d columns show ?R by (auto simp: source_span_def)
qed (auto simp: convert_exact_iff)

text \<open>Rows are counted differently by the two conversions. \<open>convert_exact_location\<close> splits the decoded text with
  \<open>str.splitlines\<close>, which also breaks at form feeds and other separators, while analyzers and the line fallback
  count physical lines. In a source with a form feed in line 1, an exact finding on all five characters of line 2 is
  rejected as an invalid coordinate, although the line fallback finds those five bytes there.\<close>

theorem form_feed_shifts_rows:
  "normalize_location ''ruff'' ''a.py'' (''x'' @ [CHR 0x0C, CHR ''y'', CHR 0x0A] @ ''z = 1'')
     [(''row'', 2), (''column'', 0), (''end_row'', 2), (''end_column'', 5)]
   = Inr (Inr \<lparr>cr_status = ''UNKNOWN'', cr_reason = ''invalid_source_coordinate''\<rparr>)
   \<and> line_fallback_location ''a.py'' (''x'' @ [CHR 0x0C, CHR ''y'', CHR 0x0A] @ ''z = 1'') 2
   = Inr (source_span ''a.py'' 2 0 2 5 ''line'')"
  by code_simp

end
