(* ===== verification/House_Rules.thy ===== *)
theory House_Rules
  imports Prelude
begin

text \<open>
  The house-rules skill file (\<^verbatim>\<open>rules/updater.py\<close>): the default content, the Cursor rendering, the files it is
  synchronised to, and the update from recent ledger runs.

  Parameters of the model: the files below the working directory are a dictionary from relative paths to contents; the
  date stamp is a string; the default \<open>DO\<close> and \<open>DON'T\<close> rules are arguments (one of them has a character outside
  Latin-1). A run is its creation instant and its findings. A failing \<open>icontract\<close> condition is an error value.
\<close>

section \<open>Data\<close>

datatype rules_error = ViolationError string | RulesValueError string

datatype SupportedIde = CLAUDE | CODEX | CURSOR | VIBE

record rules_run =
  rn_created_at :: int
  rn_findings_json :: "pydict list"

definition MAX_SKILL_LINES :: nat where
  "MAX_SKILL_LINES = 40"

definition CURSOR_RULES_PATH :: string where
  "CURSOR_RULES_PATH = ''.cursor/rules/house_rules.mdc''"

definition TITLE_PREFIX :: string where
  "TITLE_PREFIX = ''# House Rules - AI Coding Context''"

definition MODULE_LABEL :: string where
  "MODULE_LABEL = ''nold-ai/specfact-code-review''"

definition TOP_VIOLATIONS_HEADER :: string where
  "TOP_VIOLATIONS_HEADER = ''## TOP VIOLATIONS (auto-updated by specfact code review rules update)''"

definition TOP_VIOLATIONS_MARKER :: string where
  "TOP_VIOLATIONS_MARKER = ''<!-- auto-managed: do not edit manually -->''"

definition DEFAULT_DESCRIPTION :: string where
  "DEFAULT_DESCRIPTION = ''CLI-grounded SpecFact code review workflow and house rules for AI coding sessions''"

definition IDE_SKILL_PATHS :: "(SupportedIde \<times> string) list" where
  "IDE_SKILL_PATHS =
     [(CLAUDE, ''.claude/skills/specfact-code-review/SKILL.md''), (CODEX, ''.codex/skills/specfact-code-review/SKILL.md''),
      (VIBE, ''.vibe/skills/specfact-code-review/SKILL.md'')]"

definition newline :: string where
  "newline = [CHR 0x0A]"

text \<open>\<open>s.rstrip("\n")\<close> and \<open>s.lstrip("\n")\<close>\<close>

definition rstrip_newlines :: "string \<Rightarrow> string" where
  "rstrip_newlines s = rev (dropWhile (\<lambda>c. c = CHR 0x0A) (rev s))"

definition lstrip_newlines :: "string \<Rightarrow> string" where
  "lstrip_newlines s = dropWhile (\<lambda>c. c = CHR 0x0A) s"

section \<open>Cursor rendering\<close>

text \<open>\<open>s.partition(sep)\<close>: \<open>None\<close> when the separator does not occur.\<close>

fun partition_at :: "string \<Rightarrow> string \<Rightarrow> (string \<times> string) option" where
  "partition_at sep [] = (if sep = [] then Some ([], []) else None)"
| "partition_at sep (c # cs) =
     (if py_startswith (c # cs) sep then Some ([], drop (length sep) (c # cs))
      else map_option (\<lambda>(a, b). (c # a, b)) (partition_at sep cs))"

text \<open>The group of \<open>description:\s*(.+)$\<close> in the text after the colon. The white space may run over line ends; when nothing
  follows it, the match gives back one character that is not a line feed.\<close>

definition description_group :: "string \<Rightarrow> string option" where
  "description_group after =
     (let ws = takeWhile py_is_space after; rest = dropWhile py_is_space after
      in if rest \<noteq> [] then Some (takeWhile (\<lambda>c. c \<noteq> CHR 0x0A) rest)
         else (case rev (filter (\<lambda>c. c \<noteq> CHR 0x0A) ws) of [] \<Rightarrow> None | c # _ \<Rightarrow> Some [c]))"

text \<open>\<open>re.search(..., flags=re.MULTILINE)\<close>: the first line start with a match.\<close>

fun find_description :: "bool \<Rightarrow> string \<Rightarrow> string option" where
  "find_description line_start [] = None"
| "find_description line_start (c # cs) =
     (case (if line_start \<and> py_startswith (c # cs) ''description:'' then description_group (drop 12 (c # cs)) else None) of
        Some d \<Rightarrow> Some d
      | None \<Rightarrow> find_description (c = CHR 0x0A) cs)"

definition cursor_rule_parts :: "string \<Rightarrow> string \<times> string" where
  "cursor_rule_parts content =
     (if \<not> py_startswith content (''---'' @ newline) then (content, DEFAULT_DESCRIPTION)
      else (case partition_at (newline @ ''---'' @ newline) content of
              None \<Rightarrow> (content, DEFAULT_DESCRIPTION)
            | Some (front_matter, remainder) \<Rightarrow>
                (if remainder = [] then (content, DEFAULT_DESCRIPTION)
                 else (lstrip_newlines remainder,
                       case find_description True front_matter of
                         None \<Rightarrow> DEFAULT_DESCRIPTION | Some d \<Rightarrow> py_strip d))))"

definition render_cursor_rule :: "string \<Rightarrow> rules_error + string" where
  "render_cursor_rule content =
     (if \<not> non_blank content then Inl (ViolationError ''content must not be empty'')
      else (let (body, description) = cursor_rule_parts content
            in Inr (py_join newline
                 [''---'', ''description: '' @ description, ''alwaysApply: true'', ''---'', [], rstrip_newlines body]
                 @ newline)))"

definition target_path_for_ide :: "SupportedIde \<Rightarrow> string" where
  "target_path_for_ide ide =
     (if ide = CURSOR then CURSOR_RULES_PATH
      else (case map_of IDE_SKILL_PATHS ide of Some p \<Rightarrow> p | None \<Rightarrow> []))"

definition resolve_sync_targets :: "(string \<times> string) list \<Rightarrow> SupportedIde option \<Rightarrow> string list" where
  "resolve_sync_targets fs ide =
     (case ide of
        Some i \<Rightarrow> [target_path_for_ide i]
      | None \<Rightarrow> filter (\<lambda>p. map_of fs p \<noteq> None) (CURSOR_RULES_PATH # map snd IDE_SKILL_PATHS))"

fun sync_targets ::
  "string \<Rightarrow> string list \<Rightarrow> (string \<times> string) list \<Rightarrow> rules_error + (string list \<times> (string \<times> string) list)" where
  "sync_targets content [] fs = Inr ([], fs)"
| "sync_targets content (path # paths) fs =
     (case (if path = CURSOR_RULES_PATH then render_cursor_rule content else Inr content) of
        Inl e \<Rightarrow> Inl e
      | Inr rendered \<Rightarrow>
          map_sum id (\<lambda>(written, fs'). (path # written, fs')) (sync_targets content paths (AList.update path rendered fs)))"

definition sync_skill_to_ide ::
  "string \<Rightarrow> (string \<times> string) list \<Rightarrow> SupportedIde option \<Rightarrow> rules_error + (string list \<times> (string \<times> string) list)" where
  "sync_skill_to_ide content fs ide = sync_targets content (resolve_sync_targets fs ide) fs"

section \<open>Default content\<close>

definition updated_line :: "string \<Rightarrow> string" where
  "updated_line stamp = ''Updated: '' @ stamp @ '' | Module: '' @ MODULE_LABEL"

definition checked_skill :: "string \<Rightarrow> rules_error + string" where
  "checked_skill result =
     (if length (py_splitlines result) \<le> MAX_SKILL_LINES then Inr result
      else Inl (ViolationError ''house-rules skill must stay within 40 lines''))"

definition default_skill_lines :: "string list \<Rightarrow> string list \<Rightarrow> string \<Rightarrow> string list" where
  "default_skill_lines do_rules dont_rules stamp =
     [''---'', ''name: specfact-code-review'', ''description: '' @ DEFAULT_DESCRIPTION, ''allowed-tools: []'', ''---'',
      TITLE_PREFIX @ '' (v1)'', updated_line stamp, ''## DO'']
     @ do_rules @ [''## DON'' @ [CHR 0x27] @ ''T''] @ dont_rules @ [TOP_VIOLATIONS_HEADER, TOP_VIOLATIONS_MARKER]"

definition default_skill_content :: "string list \<Rightarrow> string list \<Rightarrow> string \<Rightarrow> rules_error + string" where
  "default_skill_content do_rules dont_rules stamp =
     checked_skill (py_join newline (default_skill_lines do_rules dont_rules stamp) @ newline)"

section \<open>Update\<close>

fun find_index :: "(string \<Rightarrow> bool) \<Rightarrow> string list \<Rightarrow> rules_error + nat" where
  "find_index p [] = Inl (RulesValueError ''Skill file is missing a required section.'')"
| "find_index p (l # ls) = (if p l then Inr 0 else map_sum id Suc (find_index p ls))"

text \<open>The digits of the first \<open>(v123)\<close>.\<close>

fun version_digits :: "string \<Rightarrow> string option" where
  "version_digits [] = None"
| "version_digits (c # cs) =
     (let ds = takeWhile is_digit (drop 2 (c # cs))
      in if py_startswith (c # cs) ''(v'' \<and> ds \<noteq> [] \<and> take 1 (drop (length ds) (drop 2 (c # cs))) = '')''
         then Some ds else version_digits cs)"

definition next_version :: "string \<Rightarrow> rules_error + int" where
  "next_version title_line =
     (case version_digits title_line of
        None \<Rightarrow> Inr 2
      | Some ds \<Rightarrow> (case py_int ds of None \<Rightarrow> Inl (RulesValueError ''Exceeds the limit for integer string conversion'')
                                      | Some n \<Rightarrow> Inr (n + 1)))"

definition rules_of :: "rules_run list \<Rightarrow> string list" where
  "rules_of runs =
     concat (map (\<lambda>run. List.map_filter (\<lambda>f. case dget f ''rule'' of
        PStr r \<Rightarrow> (if non_blank r then Some r else None) | _ \<Rightarrow> None) (rn_findings_json run)) runs)"

text \<open>\<open>Counter(...)\<close>, a dictionary in the order of first occurrence.\<close>

definition count_rules :: "rules_run list \<Rightarrow> (string \<times> nat) list" where
  "count_rules runs =
     foldl (\<lambda>d r. AList.update r (case map_of d r of None \<Rightarrow> 1 | Some n \<Rightarrow> n + 1) d) [] (rules_of runs)"

definition count_of :: "(string \<times> nat) list \<Rightarrow> string \<Rightarrow> nat" where
  "count_of d r = (case map_of d r of None \<Rightarrow> 0 | Some n \<Rightarrow> n)"

definition parse_existing_rules :: "string list \<Rightarrow> string list" where
  "parse_existing_rules lines =
     filter (\<lambda>r. r \<noteq> []) (map (\<lambda>l. takeWhile (\<lambda>c. c \<noteq> CHR '' '') (drop 2 l)) (filter (\<lambda>l. py_startswith l ''- '') lines))"

text \<open>\<open>xs[-n:]\<close>\<close>

definition last_n :: "nat \<Rightarrow> 'a list \<Rightarrow> 'a list" where
  "last_n n xs = drop (length xs - n) xs"

definition recent_runs :: "rules_run list \<Rightarrow> rules_run list" where
  "recent_runs runs = last_n 20 (sort_key rn_created_at runs)"

definition candidate_counts :: "rules_run list \<Rightarrow> string list \<Rightarrow> (string \<times> nat) list" where
  "candidate_counts runs existing_rules =
     (let counts = count_rules (recent_runs runs); ten = count_rules (last_n 10 (recent_runs runs))
      in foldl (\<lambda>d rule. if count_of ten rule > 0 \<and> map_of d rule = None
                        then AList.update rule (count_of counts rule) d else d)
           (filter (\<lambda>(rule, count). count \<ge> 3) counts) existing_rules)"

definition ranked_rule_counts :: "rules_run list \<Rightarrow> string list \<Rightarrow> (string \<times> nat) list" where
  "ranked_rule_counts runs existing_rules =
     sort_key (\<lambda>(rule, count). (- int count, rule)) (candidate_counts runs existing_rules)"

definition rule_line :: "string \<times> nat \<Rightarrow> string" where
  "rule_line rc = ''- '' @ fst rc @ '' ('' @ show_nat (snd rc) @ '' hits in last 20 runs)''"

definition materialize_lines :: "string list \<Rightarrow> (string \<times> nat) list \<Rightarrow> string list" where
  "materialize_lines prefix_lines ranked_rules = prefix_lines @ map rule_line ranked_rules"

function render_with_budget :: "string list \<Rightarrow> (string \<times> nat) list \<Rightarrow> string list" where
  "render_with_budget prefix_lines kept_rules =
     (if length (materialize_lines prefix_lines kept_rules) > MAX_SKILL_LINES \<and> kept_rules \<noteq> []
      then render_with_budget prefix_lines (butlast kept_rules)
      else materialize_lines prefix_lines kept_rules)"
  by pat_completeness auto
termination
  by (relation "measure (\<lambda>(p, k). length k)") auto

declare render_with_budget.simps [simp del]

definition render_lines ::
  "string list \<Rightarrow> rules_run list \<Rightarrow> string \<Rightarrow> rules_error + string list" where
  "render_lines lines runs stamp =
     (case find_index (\<lambda>l. py_startswith l TITLE_PREFIX) lines of Inl e \<Rightarrow> Inl e | Inr title_index \<Rightarrow>
      case find_index (\<lambda>l. py_startswith l ''Updated: '') lines of Inl e \<Rightarrow> Inl e | Inr updated_index \<Rightarrow>
      case find_index (\<lambda>l. l = TOP_VIOLATIONS_HEADER) lines of Inl e \<Rightarrow> Inl e | Inr top_header_index \<Rightarrow>
        (let marker_index = top_header_index + 1
         in if marker_index \<ge> length lines \<or> lines ! marker_index \<noteq> TOP_VIOLATIONS_MARKER
              then Inl (RulesValueError ''Skill file is missing the auto-managed TOP VIOLATIONS marker.'')
            else (case next_version (lines ! title_index) of
                    Inl e \<Rightarrow> Inl e
                  | Inr version \<Rightarrow>
                      (let current = (lines[title_index := TITLE_PREFIX @ '' (v'' @ show_int version @ '')''])
                                       [updated_index := updated_line stamp];
                           existing_rules = parse_existing_rules (drop (marker_index + 1) current)
                       in Inr (render_with_budget (take (marker_index + 1) current)
                                (ranked_rule_counts runs existing_rules))))))"

definition render_updated_skill :: "string \<Rightarrow> rules_run list \<Rightarrow> string \<Rightarrow> rules_error + string" where
  "render_updated_skill content runs stamp =
     (if \<not> py_contains content TOP_VIOLATIONS_HEADER
        then Inl (ViolationError ''content must contain the TOP VIOLATIONS section'')
      else if \<not> py_contains content TOP_VIOLATIONS_MARKER
        then Inl (ViolationError ''content must contain the auto-managed marker'')
      else (case render_lines (py_splitlines (rstrip_newlines content)) runs stamp of
              Inl e \<Rightarrow> Inl e
            | Inr lines \<Rightarrow> checked_skill (py_join newline lines @ newline)))"

text \<open>\<open>update_house_rules\<close>: the file must exist; it is written only when rendering succeeds.\<close>

definition update_house_rules ::
  "(string \<times> string) list \<Rightarrow> string \<Rightarrow> rules_run list \<Rightarrow> string \<Rightarrow> rules_error + (string \<times> (string \<times> string) list)" where
  "update_house_rules fs skill_path runs stamp =
     (case map_of fs skill_path of
        None \<Rightarrow> Inl (ViolationError ''skill_path must exist before update'')
      | Some content \<Rightarrow>
          map_sum id (\<lambda>updated. (updated, AList.update skill_path updated fs)) (render_updated_skill content runs stamp))"

section \<open>Counting\<close>

lemma count_rules_count: "count_of (count_rules runs) r = count_list (rules_of runs) r"
proof -
  have "count_of (foldl (\<lambda>d r. AList.update r (case map_of d r of None \<Rightarrow> 1 | Some n \<Rightarrow> n + 1) d) d xs) r
      = count_of d r + count_list xs r" for d xs
    by (induction xs arbitrary: d) (auto simp: count_of_def update_conv' split: option.splits)
  from this [of "[]"] show ?thesis by (simp add: count_rules_def count_of_def)
qed

lemma count_rules_distinct: "distinct (map fst (count_rules runs))"
proof -
  have "distinct (map fst d) \<Longrightarrow>
      distinct (map fst (foldl (\<lambda>d r. AList.update r (case map_of d r of None \<Rightarrow> 1 | Some n \<Rightarrow> n + 1) d) d xs))" for d xs
    by (induction xs arbitrary: d) (auto simp: distinct_update)
  from this [of "[]"] show ?thesis by (simp add: count_rules_def)
qed

lemma count_rules_keys: "fst ` set (count_rules runs) = set (rules_of runs)"
proof -
  have "fst ` set (foldl (\<lambda>d r. AList.update r (case map_of d r of None \<Rightarrow> 1 | Some n \<Rightarrow> n + 1) d) d xs) = fst ` set d \<union> set xs"
    for d :: "(string \<times> nat) list" and xs
    by (induction xs arbitrary: d) (auto simp: dom_update)
  from this [of "[]"] show ?thesis by (simp add: count_rules_def)
qed

lemma count_rules_positive:
  assumes "(r, n) \<in> set (count_rules runs)"
  shows "n = count_list (rules_of runs) r \<and> 0 < n"
proof -
  have "map_of (count_rules runs) r = Some n" using assms count_rules_distinct by simp
  then have "n = count_list (rules_of runs) r" using count_rules_count [of runs r] by (simp add: count_of_def)
  moreover have "r \<in> set (rules_of runs)" using assms count_rules_keys [of runs] by force
  ultimately show ?thesis using count_list_0_iff [of "rules_of runs" r] by simp
qed

lemma count_rules_entry: "0 < count_list (rules_of runs) r \<Longrightarrow> (r, count_list (rules_of runs) r) \<in> set (count_rules runs)"
  using count_rules_count [of runs r] by (auto simp: count_of_def split: option.splits dest: map_of_SomeD)

text \<open>The budget cuts the ranking from its end.\<close>

lemma render_with_budget_take:
  "render_with_budget prefix ranked = prefix @ map rule_line (take (MAX_SKILL_LINES - length prefix) ranked)"
proof (induction prefix ranked rule: render_with_budget.induct)
  case (1 prefix ranked)
  show ?case
  proof (cases "length (materialize_lines prefix ranked) > MAX_SKILL_LINES \<and> ranked \<noteq> []")
    case True
    then have "MAX_SKILL_LINES - length prefix < length ranked" by (cases ranked) (auto simp: materialize_lines_def)
    then have "take (MAX_SKILL_LINES - length prefix) (butlast ranked) = take (MAX_SKILL_LINES - length prefix) ranked"
      by (rule take_butlast)
    with 1 [OF True] True show ?thesis by (subst render_with_budget.simps) simp
  next
    case False
    then have "take (MAX_SKILL_LINES - length prefix) ranked = ranked" by (auto simp: materialize_lines_def)
    with False show ?thesis by (subst render_with_budget.simps) (auto simp: materialize_lines_def)
  qed
qed

section \<open>Candidates\<close>

lemma candidate_map:
  fixes runs ex
  defines "c \<equiv> count_list (rules_of (recent_runs runs))" and "t \<equiv> count_list (rules_of (last_n 10 (recent_runs runs)))"
  shows "map_of (candidate_counts runs ex) r = (if 3 \<le> c r \<or> (r \<in> set ex \<and> 0 < t r) then Some (c r) else None)"
    and "distinct (map fst (candidate_counts runs ex))"
proof -
  let ?step = "\<lambda>d rule. if count_of (count_rules (last_n 10 (recent_runs runs))) rule > 0 \<and> map_of d rule = None
      then AList.update rule (count_of (count_rules (recent_runs runs)) rule) d else d"
  let ?start = "filter (\<lambda>(rule, count). count \<ge> 3) (count_rules (recent_runs runs))"
  have base: "map_of ?start r = (if 3 \<le> c r then Some (c r) else None)" for r
  proof (cases "3 \<le> c r")
    case True
    then have "(r, c r) \<in> set ?start" using count_rules_entry [of "recent_runs runs" r] by (auto simp: c_def)
    moreover have "distinct (map fst ?start)" using count_rules_distinct by (simp add: distinct_map_filter)
    ultimately show ?thesis using True by simp
  next
    case False
    then have "r \<notin> fst ` set ?start" using count_rules_positive [of r _ "recent_runs runs"] by (auto simp: c_def)
    with False show ?thesis by (simp add: map_of_eq_None_iff)
  qed
  have fold: "map_of (foldl ?step d ex) r = (case map_of d r of Some n \<Rightarrow> Some n
      | None \<Rightarrow> if r \<in> set ex \<and> 0 < t r then Some (c r) else None)" for d
    by (induction ex arbitrary: d) (auto simp: update_conv' count_rules_count c_def t_def split: option.splits)
  show "map_of (candidate_counts runs ex) r = (if 3 \<le> c r \<or> (r \<in> set ex \<and> 0 < t r) then Some (c r) else None)"
    unfolding candidate_counts_def Let_def fold base by simp
  have "distinct (map fst d) \<Longrightarrow> distinct (map fst (foldl ?step d ex))" for d
    by (induction ex arbitrary: d) (auto simp: distinct_update)
  then show "distinct (map fst (candidate_counts runs ex))"
    unfolding candidate_counts_def Let_def using count_rules_distinct by (simp add: distinct_map_filter)
qed

lemma ranked_facts:
  fixes runs ex
  defines "c \<equiv> count_list (rules_of (recent_runs runs))" and "t \<equiv> count_list (rules_of (last_n 10 (recent_runs runs)))"
  shows "(r, n) \<in> set (ranked_rule_counts runs ex) \<longleftrightarrow> n = c r \<and> (3 \<le> c r \<or> (r \<in> set ex \<and> 0 < t r))"
    and "distinct (map fst (ranked_rule_counts runs ex))"
    and "sorted (map (\<lambda>(rule, count). (- int count, rule)) (ranked_rule_counts runs ex))"
proof -
  have "(r, n) \<in> set (ranked_rule_counts runs ex) \<longleftrightarrow> map_of (candidate_counts runs ex) r = Some n"
    using candidate_map(2) [of runs ex] by (simp add: ranked_rule_counts_def)
  then show "(r, n) \<in> set (ranked_rule_counts runs ex) \<longleftrightarrow> n = c r \<and> (3 \<le> c r \<or> (r \<in> set ex \<and> 0 < t r))"
    by (auto simp: candidate_map(1) c_def t_def split: if_splits)
  have "mset (map fst (ranked_rule_counts runs ex)) = mset (map fst (candidate_counts runs ex))"
    by (simp add: ranked_rule_counts_def)
  then show "distinct (map fst (ranked_rule_counts runs ex))"
    using candidate_map(2) [of runs ex] mset_eq_imp_distinct_iff by blast
  show "sorted (map (\<lambda>(rule, count). (- int count, rule)) (ranked_rule_counts runs ex))"
    by (simp add: ranked_rule_counts_def)
qed

lemma find_index_Inr:
  "find_index p lines = Inr i \<longleftrightarrow> i < length lines \<and> p (lines ! i) \<and> (\<forall>j < i. \<not> p (lines ! j))"
proof (induction lines arbitrary: i)
  case (Cons l ls)
  show ?case
  proof (cases i)
    case (Suc k)
    then show ?thesis using Cons [of k] by (auto simp: map_sum_Inr_iff less_Suc_eq_0_disj)
  qed (auto simp: map_sum_Inr_iff)
qed simp

text \<open>The lines kept above the rule list: all of them but the title and the stamp are untouched.\<close>

definition kept_lines :: "string list \<Rightarrow> nat \<Rightarrow> nat \<Rightarrow> nat \<Rightarrow> int \<Rightarrow> string \<Rightarrow> string list" where
  "kept_lines lines title updated header version stamp =
     take (header + 2) ((lines[title := TITLE_PREFIX @ '' (v'' @ show_int version @ '')''])[updated := updated_line stamp])"

text \<open>Replacing a line that is not a list item by another such line leaves the listed rules alone.\<close>

lemma parse_existing_update:
  assumes "\<not> py_startswith (lines ! i) ''- ''" and "\<not> py_startswith l ''- ''"
  shows "parse_existing_rules (drop n (lines[i := l])) = parse_existing_rules (drop n lines)"
proof -
  have "filter (\<lambda>l. py_startswith l ''- '') (xs[k := l]) = filter (\<lambda>l. py_startswith l ''- '') xs"
    if "k < length xs \<Longrightarrow> \<not> py_startswith (xs ! k) ''- ''" for xs k
    using that assms(2) by (induction xs arbitrary: k) (auto split: nat.split)
  from this [of "i - n" "drop n lines"] show ?thesis
    using assms(1) by (cases "i < n") (simp_all add: parse_existing_rules_def drop_update_swap)
qed


text \<open>A skill file whose curated part fills the 40 lines, as the bundled \<^verbatim>\<open>SKILL.md\<close> does (marker in line 40), never lists
  a violation: whatever the runs, the update ends with the marker.\<close>

theorem full_skill_lists_no_rules:
  assumes "render_lines lines runs stamp = Inr out" and "find_index (\<lambda>l. l = TOP_VIOLATIONS_HEADER) lines = Inr 38"
  shows "length out = 40 \<and> last out = TOP_VIOLATIONS_MARKER"
proof -
  from assms obtain title updated version where i: "find_index (\<lambda>l. py_startswith l TITLE_PREFIX) lines = Inr title"
    "find_index (\<lambda>l. py_startswith l ''Updated: '') lines = Inr updated" "39 < length lines"
    "lines ! 39 = TOP_VIOLATIONS_MARKER"
    "out = render_with_budget (kept_lines lines title updated 38 version stamp) (ranked_rule_counts runs
       (parse_existing_rules (drop 40 ((lines[title := TITLE_PREFIX @ '' (v'' @ show_int version @ '')''])[updated := updated_line stamp]))))"
    by (auto simp: render_lines_def Let_def kept_lines_def split: sum.splits if_splits)
  have k: "length (kept_lines lines title updated 38 version stamp) = 40" using i(3) by (simp add: kept_lines_def)
  then have out: "out = kept_lines lines title updated 38 version stamp"
    by (simp add: i(5) render_with_budget_take MAX_SKILL_LINES_def)
  have "title \<noteq> 39" "updated \<noteq> 39"
    using i(1,2,4) by (auto simp: find_index_Inr TOP_VIOLATIONS_MARKER_def TITLE_PREFIX_def)
  with i(3,4) have "out ! 39 = TOP_VIOLATIONS_MARKER" by (simp add: out kept_lines_def)
  moreover have "last out = out ! 39" using k by (subst last_conv_nth) (auto simp: out)
  ultimately show ?thesis using k by (simp add: out)
qed

text \<open>Rule names without spaces are read back from the file.\<close>

lemma parse_rule_lines:
  assumes "\<forall>(r, n) \<in> set rs. r \<noteq> [] \<and> CHR '' '' \<notin> set r"
  shows "parse_existing_rules (map rule_line rs) = map fst rs"
proof -
  have "takeWhile (\<lambda>c. c \<noteq> CHR '' '') (r @ CHR '' '' # s) = r" if "CHR '' '' \<notin> set r" for r s
    using that by (induction r) auto
  with assms show ?thesis
    by (induction rs) (auto simp: parse_existing_rules_def rule_line_def)
qed

section \<open>Examples\<close>

definition demo_run :: "int \<Rightarrow> string \<Rightarrow> rules_run" where
  "demo_run t rule = \<lparr>rn_created_at = t, rn_findings_json = [[(PStr ''rule'', PStr rule)]]\<rparr>"

definition demo_skill :: "nat \<Rightarrow> string list" where
  "demo_skill n = [TITLE_PREFIX @ '' (v7)'', ''Updated: 2026-01-01''] @ replicate n ''- Keep functions small''
     @ [TOP_VIOLATIONS_HEADER, TOP_VIOLATIONS_MARKER, ''- E501 (4 hits in last 20 runs)'']"

lemma demo_update:
  "render_lines (demo_skill 1) [demo_run 3 ''C901'', demo_run 2 ''C901'', demo_run 1 ''C901'', demo_run 4 ''E501''] ''2026-02-02''
   = Inr [TITLE_PREFIX @ '' (v8)'', ''Updated: 2026-02-02 | Module: nold-ai/specfact-code-review'', ''- Keep functions small'',
          TOP_VIOLATIONS_HEADER, TOP_VIOLATIONS_MARKER, ''- C901 (3 hits in last 20 runs)'', ''- E501 (1 hits in last 20 runs)'']"
  by code_simp


theorem full_skill_lists_no_rules_witness:
  "\<exists>out. render_lines (demo_skill 36) [demo_run 1 ''C901'', demo_run 2 ''C901'', demo_run 3 ''C901''] ''2026-02-02'' = Inr out
     \<and> last out = TOP_VIOLATIONS_MARKER"
proof -
  have header: "find_index (\<lambda>l. l = TOP_VIOLATIONS_HEADER) (demo_skill 36) = Inr 38" by code_simp
  have "\<not> isl (render_lines (demo_skill 36) [demo_run 1 ''C901'', demo_run 2 ''C901'', demo_run 3 ''C901''] ''2026-02-02'')"
    by code_simp
  then obtain out where out: "render_lines (demo_skill 36) [demo_run 1 ''C901'', demo_run 2 ''C901'', demo_run 3 ''C901'']
      ''2026-02-02'' = Inr out" by (metis sum.collapse(2))
  from full_skill_lists_no_rules [OF out header] out show ?thesis by simp
qed

end
