(* ===== verification/Cleanup_Forecast.thy ===== *)
theory Cleanup_Forecast
  imports Review_Report Py_Float
begin

text \<open>
  The cleanup forecast (\<^verbatim>\<open>run/forecast.py\<close>): reviewed lines of code, deletion estimates per guidance kind
  and the figures per thousand lines.

  Reading a file is a parameter: a path gives a text, an operating-system error or undecodable bytes. Floats are those
  of \<open>Py_Float\<close>; an integer that enters a float operation is rounded first.
\<close>

section \<open>Paths and lines of code\<close>

datatype file_read = FileText string | FileOSError | FileUndecodable

text \<open>\<open>PurePosixPath.parts\<close>, \<open>name\<close>, \<open>suffix\<close> and \<open>stem\<close>\<close>

definition pure_root :: "string \<Rightarrow> string list" where
  "pure_root s =
     (let slashes = length (takeWhile (\<lambda>c. c = CHR ''/'') s)
      in if slashes = 0 then [] else if slashes = 2 then [''//''] else [''/''])"

definition pure_parts :: "string \<Rightarrow> string list" where
  "pure_parts s = pure_root s @ filter (\<lambda>p. p \<noteq> [] \<and> p \<noteq> ''.'') (py_split_char (CHR ''/'') s)"

definition pure_name :: "string \<Rightarrow> string" where
  "pure_name s = (if length (pure_parts s) = length (pure_root s) then [] else last (pure_parts s))"

definition pure_suffix :: "string \<Rightarrow> string" where
  "pure_suffix s =
     (let name = pure_name s; tail = takeWhile (\<lambda>c. c \<noteq> CHR ''.'') (rev name)
      in if tail = [] \<or> length name \<le> length tail + 1 then [] else CHR ''.'' # rev tail)"

definition pure_stem :: "string \<Rightarrow> string" where
  "pure_stem s = take (length (pure_name s) - length (pure_suffix s)) (pure_name s)"

definition py_endswith :: "string \<Rightarrow> string \<Rightarrow> bool" where
  "py_endswith s suffix = py_startswith (rev s) (rev suffix)"

definition test_part :: "string \<Rightarrow> bool" where
  "test_part part =
     (let normalized = map (\<lambda>c. if c = CHR ''-'' then CHR ''_'' else c) (py_lower part)
      in normalized \<in> {''test'', ''tests''}
         \<or> py_startswith normalized ''test_'' \<or> py_startswith normalized ''tests_''
         \<or> py_endswith normalized ''_test'' \<or> py_endswith normalized ''_tests'')"

definition is_test_path :: "string \<Rightarrow> bool" where
  "is_test_path path =
     (let name = py_lower (pure_name path); stem = py_lower (pure_stem path)
      in py_startswith name ''test_'' \<or> py_endswith stem ''_test''
         \<or> py_endswith name ''.spec.py'' \<or> py_endswith name ''.spec.pyi''
         \<or> list_ex test_part (butlast (pure_parts path)))"

definition count_python_loc :: "string \<Rightarrow> int" where
  "count_python_loc txt =
     int (length (filter (\<lambda>l. non_blank l \<and> \<not> py_startswith (py_lstrip l) ''#'') (py_splitlines txt)))"

fun reviewed_loc_loop :: "(string \<Rightarrow> file_read) \<Rightarrow> string list \<Rightarrow> int \<Rightarrow> int \<Rightarrow> int \<times> int" where
  "reviewed_loc_loop read [] production tests = (production, tests)"
| "reviewed_loc_loop read (path # paths) production tests =
     (if pure_suffix path \<notin> {''.py'', ''.pyi''} then reviewed_loc_loop read paths production tests
      else (case read path of
              FileText txt \<Rightarrow>
                (if is_test_path path then reviewed_loc_loop read paths production (tests + count_python_loc txt)
                 else reviewed_loc_loop read paths (production + count_python_loc txt) tests)
            | _ \<Rightarrow> reviewed_loc_loop read paths production tests))"

definition reviewed_loc_for_files :: "(string \<Rightarrow> file_read) \<Rightarrow> string list \<Rightarrow> validation_errors + ReviewedLoc" where
  "reviewed_loc_for_files read files =
     (let (production, tests) = reviewed_loc_loop read files 0 0
      in make_reviewed_loc \<lparr>rl_production = production, rl_tests = tests, rl_total = production + tests\<rparr>)"

section \<open>Totals\<close>

fun cleanup_forecast_weight :: "guidance_kind \<Rightarrow> rat" where
  "cleanup_forecast_weight SafeMechanical = 1"
| "cleanup_forecast_weight NeedsTests = double_round (6 / 10)"
| "cleanup_forecast_weight DesignJudgment = 1 / 4"
| "cleanup_forecast_weight Preserve = 0"

definition make_guidance_kind_forecast :: "GuidanceKindForecast \<Rightarrow> validation_errors + GuidanceKindForecast" where
  "make_guidance_kind_forecast g =
     (let errs = check_fail (gf_count g < 0) ''greater_than_equal''
               @ check_fail (gf_estimated_deletion_lines g < 0) ''greater_than_equal''
               @ check_fail (gf_weight g < 0) ''greater_than_equal''
      in if errs \<noteq> [] then Inl errs else Inr g)"

definition make_ai_bloat_index :: "AiBloatIndex \<Rightarrow> validation_errors + AiBloatIndex" where
  "make_ai_bloat_index a =
     (let errs = check_fail (ai_findings_per_kloc a < 0) ''greater_than_equal''
               @ check_fail (ai_weighted_bloat_points_per_kloc a < 0) ''greater_than_equal''
               @ check_fail (ai_cleanup_yield_loc_per_kloc a < 0) ''greater_than_equal''
      in if errs \<noteq> [] then Inl errs else Inr a)"

definition make_cleanup_forecast :: "CleanupForecast \<Rightarrow> validation_errors + CleanupForecast" where
  "make_cleanup_forecast c =
     (let errs = check_fail (cf_preview_evidence_count c < 0) ''greater_than_equal''
               @ check_fail (cf_mutation_evidence_count c < 0) ''greater_than_equal''
      in if errs \<noteq> [] then Inl errs else Inr c)"

record CleanupForecastTotals =
  ft_by_guidance_kind :: "(string \<times> GuidanceKindForecast) list"
  ft_by_action_status :: "(string \<times> int) list"
  ft_low :: int
  ft_expected :: rat
  ft_high :: int
  ft_weighted_points :: rat

text \<open>\<open>finding.guidance_kind or "design_judgment"\<close> and \<open>finding.estimated_deletion_lines or 0\<close>\<close>

definition forecast_kind :: "ReviewFinding \<Rightarrow> guidance_kind" where
  "forecast_kind f = (case rf_guidance_kind f of None \<Rightarrow> DesignJudgment | Some k \<Rightarrow> k)"

definition deletion_lines :: "ReviewFinding \<Rightarrow> int" where
  "deletion_lines f = (case rf_estimated_deletion_lines f of None \<Rightarrow> 0 | Some n \<Rightarrow> n)"

text \<open>The default argument of \<open>totals.by_guidance_kind.get(...)\<close>\<close>

definition entry_or_zero :: "GuidanceKindForecast option \<Rightarrow> guidance_kind \<Rightarrow> GuidanceKindForecast" where
  "entry_or_zero entry kind =
     (case entry of
        None \<Rightarrow> \<lparr>gf_count = 0, gf_estimated_deletion_lines = 0, gf_weight = cleanup_forecast_weight kind\<rparr>
      | Some g \<Rightarrow> g)"

definition add_cleanup_forecast_finding ::
  "CleanupForecastTotals \<Rightarrow> ReviewFinding \<Rightarrow> validation_errors + CleanupForecastTotals" where
  "add_cleanup_forecast_finding t f =
     (let kind = forecast_kind f; n = deletion_lines f; weight = cleanup_forecast_weight kind;
          current = entry_or_zero (map_of (ft_by_guidance_kind t) (guidance_kind_text kind)) kind
      in case make_guidance_kind_forecast \<lparr>gf_count = gf_count current + 1,
               gf_estimated_deletion_lines = gf_estimated_deletion_lines current + n, gf_weight = weight\<rparr> of
           Inl e \<Rightarrow> Inl e
         | Inr g \<Rightarrow> Inr \<lparr>ft_by_guidance_kind = AList.update (guidance_kind_text kind) g (ft_by_guidance_kind t),
             ft_by_action_status = count_opt (ft_by_action_status t) (map_option action_status_text (rf_action_status f)),
             ft_low = (if kind = SafeMechanical then ft_low t + n else ft_low t),
             ft_expected = double_round (ft_expected t + double_round (double_round (of_int n) * weight)),
             ft_high = (if kind \<noteq> Preserve then ft_high t + n else ft_high t),
             ft_weighted_points = double_round (ft_weighted_points t + weight)\<rparr>)"

fun add_cleanup_forecast_findings ::
  "CleanupForecastTotals \<Rightarrow> ReviewFinding list \<Rightarrow> validation_errors + CleanupForecastTotals" where
  "add_cleanup_forecast_findings t [] = Inr t"
| "add_cleanup_forecast_findings t (f # fs) =
     (case add_cleanup_forecast_finding t f of Inl e \<Rightarrow> Inl e | Inr t' \<Rightarrow> add_cleanup_forecast_findings t' fs)"

definition empty_totals :: CleanupForecastTotals where
  "empty_totals = \<lparr>ft_by_guidance_kind = [], ft_by_action_status = [], ft_low = 0, ft_expected = 0, ft_high = 0,
     ft_weighted_points = 0\<rparr>"

definition cleanup_forecast_totals :: "ReviewFinding list \<Rightarrow> validation_errors + CleanupForecastTotals" where
  "cleanup_forecast_totals guided = add_cleanup_forecast_findings empty_totals guided"

section \<open>The forecast\<close>

definition guided_findings :: "ReviewFinding list \<Rightarrow> ReviewFinding list" where
  "guided_findings findings = filter (\<lambda>f. rf_guidance_kind f \<noteq> None) findings"

definition has_preview_evidence :: "ReviewFinding \<Rightarrow> bool" where
  "has_preview_evidence f =
     (case rf_remediation_packet f of
        None \<Rightarrow> False
      | Some p \<Rightarrow> (case rp_patch_forecast_refs p of None \<Rightarrow> False | Some refs \<Rightarrow> refs \<noteq> []))"

definition has_mutation_evidence :: "ReviewFinding \<Rightarrow> bool" where
  "has_mutation_evidence f =
     (case rf_signal_trace f of None \<Rightarrow> False | Some trace \<Rightarrow> list_ex (\<lambda>s. st_source s = ''mutation'') trace)"

text \<open>\<open>max(reviewed_loc.total / 1000.0, 0.001)\<close> and \<open>round(n / kloc, 3)\<close>\<close>

definition kloc_of :: "int \<Rightarrow> rat" where
  "kloc_of loc = max (double_round (double_round (of_int loc) / 1000)) (double_round (1 / 1000))"

definition per_kloc :: "rat \<Rightarrow> rat \<Rightarrow> rat" where
  "per_kloc x kloc = py_round3 (double_round (x / kloc))"

definition build_cleanup_forecast ::
  "(string \<Rightarrow> file_read) \<Rightarrow> ReviewFinding list \<Rightarrow> string list \<Rightarrow> validation_errors + CleanupForecast" where
  "build_cleanup_forecast read findings files =
     (case reviewed_loc_for_files read files of Inl e \<Rightarrow> Inl e | Inr loc \<Rightarrow>
        (let guided = guided_findings findings
         in case cleanup_forecast_totals guided of Inl e \<Rightarrow> Inl e | Inr totals \<Rightarrow>
        (let kloc = kloc_of (rl_total loc); expected_lines = round_half_even (ft_expected totals)
         in case make_deletion_estimate \<lparr>de_low = ft_low totals, de_expected = expected_lines, de_high = ft_high totals\<rparr> of
              Inl e \<Rightarrow> Inl e | Inr estimate \<Rightarrow>
            case make_ai_bloat_index
                   \<lparr>ai_findings_per_kloc = per_kloc (double_round (of_nat (length guided))) kloc,
                    ai_weighted_bloat_points_per_kloc = per_kloc (ft_weighted_points totals) kloc,
                    ai_cleanup_yield_loc_per_kloc = per_kloc (double_round (of_int expected_lines)) kloc\<rparr> of
              Inl e \<Rightarrow> Inl e | Inr index \<Rightarrow>
            make_cleanup_forecast
              \<lparr>cf_reviewed_loc = loc, cf_estimated_deletion_lines = estimate, cf_ai_bloat_index = index,
               cf_by_guidance_kind = ft_by_guidance_kind totals, cf_by_action_status = ft_by_action_status totals,
               cf_preview_evidence_count = int (length (filter has_preview_evidence guided)),
               cf_mutation_evidence_count = int (length (filter has_mutation_evidence guided))\<rparr>)))"

section \<open>Totals of a list of findings\<close>

definition lines_where :: "(guidance_kind \<Rightarrow> bool) \<Rightarrow> ReviewFinding list \<Rightarrow> int" where
  "lines_where p fs = sum_list (map deletion_lines (filter (\<lambda>f. p (forecast_kind f)) fs))"

definition kind_entry :: "ReviewFinding list \<Rightarrow> guidance_kind \<Rightarrow> GuidanceKindForecast option" where
  "kind_entry fs k =
     (let n = length (filter (\<lambda>f. forecast_kind f = k) fs)
      in if n = 0 then None
         else Some \<lparr>gf_count = int n, gf_estimated_deletion_lines = lines_where (\<lambda>k'. k' = k) fs,
                    gf_weight = cleanup_forecast_weight k\<rparr>)"

text \<open>What the totals say about the findings added so far.\<close>

definition totals_of :: "ReviewFinding list \<Rightarrow> CleanupForecastTotals \<Rightarrow> bool" where
  "totals_of fs t \<longleftrightarrow>
     ft_low t = lines_where (\<lambda>k. k = SafeMechanical) fs \<and> ft_high t = lines_where (\<lambda>k. k \<noteq> Preserve) fs
     \<and> of_int (ft_low t) \<le> ft_expected t \<and> ft_expected t \<le> of_int (ft_high t) \<and> 0 \<le> ft_weighted_points t
     \<and> (\<forall>k. map_of (ft_by_guidance_kind t) (guidance_kind_text k) = kind_entry fs k)"

lemma lines_where_simps [simp]:
  "lines_where p [] = 0"
  "lines_where p (fs @ [f]) = lines_where p fs + (if p (forecast_kind f) then deletion_lines f else 0)"
  by (simp_all add: lines_where_def)

lemma lines_where_nonneg: "\<forall>f \<in> set fs. 0 \<le> deletion_lines f \<Longrightarrow> 0 \<le> lines_where p fs"
  unfolding lines_where_def by (intro sum_list_nonneg) auto

lemma lines_where_le: "\<forall>f \<in> set fs. 0 \<le> deletion_lines f \<Longrightarrow> lines_where p (take n fs) \<le> lines_where p fs"
proof -
  assume nn: "\<forall>f \<in> set fs. 0 \<le> deletion_lines f"
  have "lines_where p fs = lines_where p (take n fs) + lines_where p (drop n fs)"
    by (simp add: lines_where_def flip: sum_list_append map_append filter_append)
  with nn lines_where_nonneg [of "drop n fs" p] show ?thesis by (auto dest: in_set_dropD)
qed

lemma guidance_kind_text_inject [simp]: "guidance_kind_text k = guidance_kind_text k' \<longleftrightarrow> k = k'"
  by (cases k; cases k') simp_all

lemma cleanup_weight_range: "0 \<le> cleanup_forecast_weight k" "cleanup_forecast_weight k \<le> 1"
proof -
  have "double_round (6 / 10) \<le> double_round (of_int 1)" by (rule double_round_mono) simp_all
  then have "double_round (6 / 10) \<le> 1" using double_round_of_int [of 1] by simp
  then show "0 \<le> cleanup_forecast_weight k" "cleanup_forecast_weight k \<le> 1"
    by (cases k; simp add: double_round_nonneg)+
qed

text \<open>A float operation on values between two representable integers stays between them.\<close>

lemma double_round_sandwich:
  assumes "of_int a \<le> x" and "x \<le> of_int b" and "0 \<le> a" and "b < 2 ^ 53"
  shows "of_int a \<le> double_round x" and "double_round x \<le> of_int b"
proof -
  have ab: "a \<le> b" using assms(1,2) by (metis of_int_le_iff order_trans)
  have "(0::rat) \<le> of_int a" using assms(3) by simp
  then have "0 \<le> x" using assms(1) by linarith
  then show "of_int a \<le> double_round x" "double_round x \<le> of_int b"
    using double_round_mono [of "of_int a" x] double_round_mono [of x "of_int b"]
      double_round_of_int [of a] double_round_of_int [of b] assms ab by simp_all
qed

lemma weighted_lines:
  fixes k n
  assumes "0 \<le> n" and small: "k \<noteq> Preserve \<Longrightarrow> n < 2 ^ 53"
  defines "p \<equiv> double_round (double_round (of_int n) * cleanup_forecast_weight k)"
  shows "of_int (if k = SafeMechanical then n else 0) \<le> p" and "p \<le> of_int (if k \<noteq> Preserve then n else 0)"
proof -
  have "of_int n * cleanup_forecast_weight k \<le> of_int n * 1" "0 \<le> of_int n * cleanup_forecast_weight k"
    using cleanup_weight_range [of k] assms(1) by (intro mult_left_mono mult_nonneg_nonneg; simp)+
  then show "of_int (if k = SafeMechanical then n else 0) \<le> p" "p \<le> of_int (if k \<noteq> Preserve then n else 0)"
    unfolding p_def
    using assms(1) small double_round_sandwich [of 0 "of_int n * cleanup_forecast_weight k" n]
    by (cases k; simp add: double_round_of_int double_round_def [of 0])+
qed

lemma kind_entry_snoc:
  "kind_entry (fs @ [f]) k =
     (if forecast_kind f \<noteq> k then kind_entry fs k
      else (let g = entry_or_zero (kind_entry fs k) k
            in Some \<lparr>gf_count = gf_count g + 1, gf_estimated_deletion_lines = gf_estimated_deletion_lines g + deletion_lines f,
                 gf_weight = cleanup_forecast_weight k\<rparr>))"
proof -
  have "length (filter (\<lambda>f. forecast_kind f = k) fs) = 0 \<Longrightarrow> lines_where (\<lambda>k'. k' = k) fs = 0"
    by (simp add: lines_where_def)
  then show ?thesis by (auto simp: kind_entry_def entry_or_zero_def Let_def)
qed

lemma add_finding_totals:
  assumes t: "totals_of fs t" and nn: "\<forall>g \<in> set (fs @ [f]). 0 \<le> deletion_lines g"
    and bound: "lines_where (\<lambda>k. k \<noteq> Preserve) (fs @ [f]) < 2 ^ 53"
  shows "\<exists>t'. add_cleanup_forecast_finding t f = Inr t' \<and> totals_of (fs @ [f]) t'"
proof -
  let ?k = "forecast_kind f" and ?n = "deletion_lines f"
  let ?p = "double_round (double_round (of_int ?n) * cleanup_forecast_weight ?k)"
  let ?low = "lines_where (\<lambda>k. k = SafeMechanical) (fs @ [f])" and ?high = "lines_where (\<lambda>k. k \<noteq> Preserve) (fs @ [f])"
  have n: "0 \<le> ?n" using nn by simp
  have small: "?n < 2 ^ 53" if "?k \<noteq> Preserve"
    using that nn bound lines_where_nonneg [of fs "\<lambda>k. k \<noteq> Preserve"] by simp
  note w = weighted_lines [OF n small, of ?k]
  have e: "of_int ?low \<le> ft_expected t + ?p" "ft_expected t + ?p \<le> of_int ?high"
    using t w by (auto simp: totals_of_def split: if_splits)
  have "0 \<le> ?low" using nn by (intro lines_where_nonneg)
  note e' = double_round_sandwich [OF e this bound]
  have wp: "0 \<le> double_round (ft_weighted_points t + cleanup_forecast_weight ?k)"
    using t cleanup_weight_range(1) [of ?k] by (intro double_round_nonneg) (simp add: totals_of_def)
  have pos: "0 \<le> gf_count g" "0 \<le> gf_estimated_deletion_lines g" if "kind_entry fs k = Some g" for g k
    using that nn lines_where_nonneg [of fs "\<lambda>k'. k' = k"] by (auto simp: kind_entry_def Let_def split: if_splits)
  have "make_guidance_kind_forecast \<lparr>gf_count = gf_count g + 1, gf_estimated_deletion_lines = gf_estimated_deletion_lines g + ?n,
      gf_weight = cleanup_forecast_weight ?k\<rparr> = Inr \<lparr>gf_count = gf_count g + 1,
      gf_estimated_deletion_lines = gf_estimated_deletion_lines g + ?n, gf_weight = cleanup_forecast_weight ?k\<rparr>"
    if "g = entry_or_zero (kind_entry fs ?k) ?k" for g
    using that n pos [of ?k] cleanup_weight_range(1) [of ?k]
    by (auto simp: make_guidance_kind_forecast_def check_fail_def entry_or_zero_def split: option.splits)
  then show ?thesis
    using t e' wp
    by (auto simp: add_cleanup_forecast_finding_def totals_of_def Let_def kind_entry_snoc update_conv')
qed

lemma add_findings_totals:
  assumes "totals_of done_fs t" and "\<forall>g \<in> set (done_fs @ fs). 0 \<le> deletion_lines g"
    and "lines_where (\<lambda>k. k \<noteq> Preserve) (done_fs @ fs) < 2 ^ 53"
  shows "\<exists>t'. add_cleanup_forecast_findings t fs = Inr t' \<and> totals_of (done_fs @ fs) t'"
  using assms
proof (induction fs arbitrary: done_fs t)
  case (Cons f fs)
  have "lines_where (\<lambda>k. k \<noteq> Preserve) (done_fs @ [f]) < 2 ^ 53"
    using lines_where_le [OF Cons.prems(2), of "\<lambda>k. k \<noteq> Preserve" "length done_fs + 1"] Cons.prems(3) by simp
  then obtain t' where t': "add_cleanup_forecast_finding t f = Inr t'" "totals_of (done_fs @ [f]) t'"
    using add_finding_totals [OF Cons.prems(1), of f] Cons.prems(2) by auto
  with Cons.IH [of "done_fs @ [f]" t'] Cons.prems show ?case by simp
qed simp

lemma empty_totals_of: "totals_of [] empty_totals"
  by (simp add: totals_of_def empty_totals_def kind_entry_def)

section \<open>Reviewed lines\<close>

text \<open>The lines a file adds to the count: none when it is no Python file or cannot be read.\<close>

definition python_loc :: "(string \<Rightarrow> file_read) \<Rightarrow> string \<Rightarrow> int" where
  "python_loc read path =
     (if pure_suffix path \<notin> {''.py'', ''.pyi''} then 0
      else (case read path of FileText txt \<Rightarrow> count_python_loc txt | _ \<Rightarrow> 0))"

lemma python_loc_nonneg: "0 \<le> python_loc read path"
  by (simp add: python_loc_def count_python_loc_def split: file_read.split)

lemma reviewed_loc_loop_sums:
  "reviewed_loc_loop read files production tests =
     (production + sum_list (map (python_loc read) (filter (\<lambda>p. \<not> is_test_path p) files)),
      tests + sum_list (map (python_loc read) (filter is_test_path files)))"
  by (induction read files production tests rule: reviewed_loc_loop.induct)
    (auto simp: python_loc_def split: file_read.split)

lemma reviewed_loc_counts:
  "\<exists>loc. reviewed_loc_for_files read files = Inr loc
     \<and> rl_tests loc = sum_list (map (python_loc read) (filter is_test_path files))
     \<and> rl_total loc = sum_list (map (python_loc read) files) \<and> 0 \<le> rl_total loc"
proof -
  have nn: "0 \<le> sum_list (map (python_loc read) xs)" for xs
    by (intro sum_list_nonneg) (auto simp: python_loc_nonneg)
  have "sum_list (map (python_loc read) files) = sum_list (map (python_loc read) (filter (\<lambda>p. \<not> is_test_path p) files))
      + sum_list (map (python_loc read) (filter is_test_path files))"
    by (induction files) auto
  then show ?thesis
    using nn [of files] nn [of "filter is_test_path files"] nn [of "filter (\<lambda>p. \<not> is_test_path p) files"]
    by (simp add: reviewed_loc_for_files_def reviewed_loc_loop_sums make_reviewed_loc_def check_fail_def)
qed

lemma per_kloc_nonneg: "0 \<le> x \<Longrightarrow> 0 \<le> per_kloc x (kloc_of loc)"
proof -
  assume "0 \<le> x"
  moreover have "0 \<le> kloc_of loc" by (simp add: kloc_of_def double_round_nonneg le_max_iff_disj)
  ultimately show ?thesis by (simp add: per_kloc_def py_round3_nonneg double_round_nonneg)
qed

lemma wf_finding_lines: "wf_finding f \<Longrightarrow> 0 \<le> deletion_lines f"
  by (auto simp: wf_finding_def finding_field_errors_def check_fail_def below_if_present_def deletion_lines_def
      split: if_splits option.splits)

lemma forecast_returns:
  assumes "\<forall>f \<in> set findings. wf_finding f"
    and "lines_where (\<lambda>k. k \<noteq> Preserve) (guided_findings findings) < 2 ^ 53"
  shows "\<exists>fc. build_cleanup_forecast read findings files = Inr fc
     \<and> (let est = cf_estimated_deletion_lines fc; guided = guided_findings findings; loc = cf_reviewed_loc fc
        in de_low est = lines_where (\<lambda>k. k = SafeMechanical) guided
           \<and> de_high est = lines_where (\<lambda>k. k \<noteq> Preserve) guided
           \<and> de_low est \<le> de_expected est \<and> de_expected est \<le> de_high est
           \<and> (\<forall>k. map_of (cf_by_guidance_kind fc) (guidance_kind_text k) = kind_entry guided k)
           \<and> rl_tests loc = sum_list (map (python_loc read) (filter is_test_path files))
           \<and> rl_total loc = sum_list (map (python_loc read) files))"
proof -
  let ?guided = "guided_findings findings"
  have nn: "\<forall>f \<in> set ([] @ ?guided). 0 \<le> deletion_lines f"
    using assms(1) wf_finding_lines by (auto simp: guided_findings_def)
  obtain t where t: "cleanup_forecast_totals ?guided = Inr t" "totals_of ?guided t"
    using add_findings_totals [OF empty_totals_of nn] assms(2) by (auto simp: cleanup_forecast_totals_def)
  obtain loc where loc: "reviewed_loc_for_files read files = Inr loc"
      "rl_tests loc = sum_list (map (python_loc read) (filter is_test_path files))"
      "rl_total loc = sum_list (map (python_loc read) files)" "0 \<le> rl_total loc"
    using reviewed_loc_counts by blast
  let ?e = "round_half_even (ft_expected t)"
  have "ft_low t \<le> ?e" "?e \<le> ft_high t"
    using t(2) round_half_even_mono [of "of_int (ft_low t)" "ft_expected t"]
      round_half_even_mono [of "ft_expected t" "of_int (ft_high t)"] by (simp_all add: totals_of_def)
  moreover have "0 \<le> ft_low t" using t(2) nn lines_where_nonneg [of ?guided] by (simp add: totals_of_def)
  moreover have "0 \<le> ft_weighted_points t" using t(2) by (simp add: totals_of_def)
  ultimately show ?thesis
    using t loc(2,3)
    by (simp add: build_cleanup_forecast_def loc(1) make_deletion_estimate_def make_ai_bloat_index_def
        make_cleanup_forecast_def check_fail_def Let_def per_kloc_nonneg double_round_nonneg totals_of_def not_less)
qed

text \<open>Example findings.\<close>

definition demo_simplification :: "guidance_kind \<Rightarrow> int \<Rightarrow> ReviewFinding" where
  "demo_simplification kind n =
     \<lparr>rf_category = Kiss, rf_severity = SevInfo, rf_tool = ''radon'', rf_rule = ''r'', rf_file = ''a.py'',
      rf_line = 3, rf_message = ''m'', rf_fixable = True, rf_status = Open, rf_differential_state = None,
      rf_autofix_available = Some True, rf_blocking = Some False, rf_execution_state = None, rf_evidence_outcome = None,
      rf_evidence_refs = None, rf_confidence = None, rf_rewrite_hint = None, rf_canonical_pattern = None, rf_intent_key = None,
      rf_estimated_deletion_lines = Some n, rf_related_locations = None, rf_guidance_kind = Some kind,
      rf_recommended_action = Some Inline, rf_clean_code_principle = Some PrKiss, rf_rationale = Some ''w'',
      rf_safety_checks = Some [''c''], rf_preserve_reason = Some ''p'', rf_action_status = None,
      rf_before_ref = None, rf_after_ref = None, rf_improvement = None, rf_signal_trace = None,
      rf_preserve_reasons = None, rf_remediation_packet = None\<rparr>"

definition demo_guided :: "ReviewFinding list" where
  "demo_guided = [demo_simplification SafeMechanical 4, demo_simplification NeedsTests 5, demo_simplification Preserve 9]"

lemma demo_guided_ok:
  "\<forall>f \<in> set demo_guided. wf_finding f" "lines_where (\<lambda>k. k \<noteq> Preserve) (guided_findings demo_guided) < 2 ^ 53"
  by code_simp+

text \<open>The forecast of constructed findings never fails. Its estimate is ordered although the expected
  figure is a sum of floats: low is the sum over the safe mechanical findings, high the sum over all but the preserved
  ones, and the rounded expectation lies between, as long as the lines in question have 53 bits. Each guidance kind
  has its count and lines, and the reviewed lines are those of the readable Python files.\<close>

theorem cleanup_forecast_estimates:
  assumes "\<forall>f \<in> set findings. wf_finding f"
    and "lines_where (\<lambda>k. k \<noteq> Preserve) (guided_findings findings) < 2 ^ 53"
  shows "\<exists>fc. build_cleanup_forecast read findings files = Inr fc
     \<and> (let est = cf_estimated_deletion_lines fc; guided = guided_findings findings; loc = cf_reviewed_loc fc
        in de_low est = lines_where (\<lambda>k. k = SafeMechanical) guided
           \<and> de_high est = lines_where (\<lambda>k. k \<noteq> Preserve) guided
           \<and> de_low est \<le> de_expected est \<and> de_expected est \<le> de_high est
           \<and> (\<forall>k. map_of (cf_by_guidance_kind fc) (guidance_kind_text k) = kind_entry guided k)
           \<and> rl_tests loc = sum_list (map (python_loc read) (filter is_test_path files))
           \<and> rl_total loc = sum_list (map (python_loc read) files))"
  using assms by (rule forecast_returns)

theorem cleanup_forecast_estimates_witness:
  "\<exists>fc. build_cleanup_forecast (\<lambda>p. FileText ''x = 1'') demo_guided [''a.py'', ''tests/b.py''] = Inr fc
     \<and> de_low (cf_estimated_deletion_lines fc) = 4 \<and> de_high (cf_estimated_deletion_lines fc) = 9
     \<and> rl_total (cf_reviewed_loc fc) = 2"
proof -
  have "lines_where (\<lambda>k. k = SafeMechanical) (guided_findings demo_guided) = 4"
    "lines_where (\<lambda>k. k \<noteq> Preserve) (guided_findings demo_guided) = 9"
    "sum_list (map (python_loc (\<lambda>p. FileText ''x = 1'')) [''a.py'', ''tests/b.py'']) = 2" by code_simp+
  with cleanup_forecast_estimates [OF demo_guided_ok, of "\<lambda>p. FileText ''x = 1''" "[''a.py'', ''tests/b.py'']"]
  show ?thesis by (auto simp: Let_def)
qed

end
