(* ===== verification/Cleanup_Evidence.thy ===== *)
theory Cleanup_Evidence
  imports Cleanup_Forecast
begin

text \<open>
  Preview and mutation evidence for simplification findings (\<^verbatim>\<open>run/cleanup_evidence.py\<close>).

  Parameters of the model: reading a file, the temporary file of a preview and the function that applies fixes. A
  preview runs that function on a report about the temporary file and reads the file back. A finding is rebuilt from its
  fields with \<open>make_finding\<close>; \<open>model_copy\<close> is a record update without validation.
\<close>

section \<open>Model\<close>

datatype cleanup_error =
    CleanupValidation validation_errors | CleanupReport report_error | CleanupUndecodable | CleanupFixer string

fun recommended_action_text :: "recommended_action \<Rightarrow> string" where
  "recommended_action_text Remove = ''remove''"
| "recommended_action_text Inline = ''inline''"
| "recommended_action_text Collapse = ''collapse''"
| "recommended_action_text Deduplicate = ''deduplicate''"
| "recommended_action_text MakeRequired = ''make_required''"
| "recommended_action_text Keep = ''keep''"
| "recommended_action_text Inspect = ''inspect''"

record preview_env =
  pv_read :: "string \<Rightarrow> file_read"
  pv_path :: "ReviewFinding \<Rightarrow> string"
  pv_writable :: "string \<Rightarrow> string \<Rightarrow> bool"
  pv_now :: int
  pv_apply :: "ReviewReport \<Rightarrow> string \<Rightarrow> string + (ReviewFinding list \<times> file_read)"

text \<open>\<open>report.model_copy(update=...)\<close> with a fresh forecast\<close>

definition with_refreshed_cleanup_forecast ::
  "(string \<Rightarrow> file_read) \<Rightarrow> ReviewReport \<Rightarrow> string list \<Rightarrow> cleanup_error + ReviewReport" where
  "with_refreshed_cleanup_forecast read report files =
     (case build_cleanup_forecast read (rr_findings report) files of
        Inl e \<Rightarrow> Inl (CleanupValidation e)
      | Inr fc \<Rightarrow> Inr (report\<lparr>rr_cleanup_forecast := Some fc,
          rr_schema_version := (if schema_version_at_least (rr_schema_version report) 3 then rr_schema_version report
                                else ''1.3'')\<rparr>))"

definition finding_ref :: "ReviewFinding \<Rightarrow> EvidenceRef" where
  "finding_ref f = \<lparr>er_path = Some (rf_file f), er_start_line = Some (rf_line f), er_end_line = None,
     er_artifact_id = None, er_description = None\<rparr>"

definition trace_of :: "ReviewFinding \<Rightarrow> SignalTraceEntry list" where
  "trace_of f = (case rf_signal_trace f of None \<Rightarrow> [] | Some t \<Rightarrow> t)"

text \<open>\<open>SignalTraceEntry(...)\<close> with an \<open>EvidenceRef\<close> on the finding\<close>

definition make_signal :: "ReviewFinding \<Rightarrow> SignalTraceEntry \<Rightarrow> validation_errors + SignalTraceEntry" where
  "make_signal f entry =
     (case make_evidence_ref (finding_ref f) of
        Inl e \<Rightarrow> Inl e
      | Inr ref \<Rightarrow> make_signal_trace_entry (entry\<lparr>st_evidence_refs := Some [ref]\<rparr>))"

definition mutation_entry :: "bool \<Rightarrow> ReviewFinding \<Rightarrow> SignalTraceEntry" where
  "mutation_entry available f =
     \<lparr>st_tool = ''mutmut'', st_source = ''mutation'', st_fired = False, st_score = None,
      st_value = Some (SvStr (if available then ''inconclusive: mutation scaffolding only''
                              else ''inconclusive: mutmut unavailable'')),
      st_evidence_refs = Some [finding_ref f],
      st_explanation = (if available
        then ''Mutation tooling was available, but candidate-scoped execution is not configured yet.''
        else ''Mutation proof was requested, but mutmut is not installed.'')\<rparr>"

definition with_mutation_signal :: "bool \<Rightarrow> ReviewFinding \<Rightarrow> validation_errors + ReviewFinding" where
  "with_mutation_signal available f =
     (if \<not> is_safe_mechanical_simplification f then Inr f
      else (case make_signal f (mutation_entry available f) of
              Inl e \<Rightarrow> Inl e
            | Inr entry \<Rightarrow> make_finding (f\<lparr>rf_signal_trace := Some (trace_of f @ [entry])\<rparr>)))"

fun map_findings :: "(ReviewFinding \<Rightarrow> validation_errors + ReviewFinding) \<Rightarrow> ReviewFinding list
    \<Rightarrow> validation_errors + ReviewFinding list" where
  "map_findings g [] = Inr []"
| "map_findings g (f # fs) =
     (case g f of Inl e \<Rightarrow> Inl e | Inr f' \<Rightarrow> map_sum id (\<lambda>fs'. f' # fs') (map_findings g fs))"

definition with_mutation_evidence ::
  "(string \<Rightarrow> file_read) \<Rightarrow> bool \<Rightarrow> ReviewReport \<Rightarrow> string list \<Rightarrow> cleanup_error + ReviewReport" where
  "with_mutation_evidence read available report files =
     (case map_findings (with_mutation_signal available) (rr_findings report) of
        Inl e \<Rightarrow> Inl (CleanupValidation e)
      | Inr findings \<Rightarrow> with_refreshed_cleanup_forecast read (report\<lparr>rr_findings := findings\<rparr>) files)"

section \<open>Previews\<close>

definition fixable_simplifications_by_stable_line_order :: "ReviewFinding list \<Rightarrow> ReviewFinding list" where
  "fixable_simplifications_by_stable_line_order findings =
     sort_key (\<lambda>f. (rf_file f, - rf_line f, rf_rule f)) (filter is_safe_mechanical_simplification findings)"

definition report_for_preview :: "int \<Rightarrow> ReviewFinding \<Rightarrow> report_error + ReviewReport" where
  "report_for_preview now f = make_report
     \<lparr>rr_schema_version = ''1.0'', rr_run_id = ''preview'', rr_timestamp = now, rr_overall_verdict = None,
      rr_ci_exit_code = None, rr_assurance_status = None, rr_has_unknown_required_evidence = None,
      rr_scope_evidence = None, rr_analyzer_evidence = None, rr_suppression_catalog_digest = None, rr_score = 85,
      rr_reward_delta = None, rr_findings = [f], rr_summary = ''Preview simplification fix.'',
      rr_simplification_summary = None, rr_cleanup_forecast = None, rr_enforcement_mode = None,
      rr_enforcement_summary = None, rr_requirements_evidence = None, rr_house_rules_updates = []\<rparr>"

definition line_delta :: "string \<Rightarrow> string \<Rightarrow> int \<times> int" where
  "line_delta before after =
     (let b = int (length (py_splitlines before)); a = int (length (py_splitlines after))
      in (max 0 (a - b), max 0 (b - a)))"

text \<open>\<open>finding.safety_checks or [...]\<close>\<close>

definition packet_checks :: "ReviewFinding \<Rightarrow> string list" where
  "packet_checks f =
     (case rf_safety_checks f of
        Some (c # cs) \<Rightarrow> c # cs | _ \<Rightarrow> [''inspect the surrounding behavior before editing''])"

definition packet_with_patch_ref :: "ReviewFinding \<Rightarrow> string \<Rightarrow> validation_errors + RemediationPacket" where
  "packet_with_patch_ref f patch_ref =
     (case rf_remediation_packet f of
        None \<Rightarrow> make_remediation_packet
          \<lparr>rp_issue = rf_message f,
           rp_recommended_action = (case rf_recommended_action f of None \<Rightarrow> ''inspect'' | Some a \<Rightarrow> recommended_action_text a),
           rp_possible_keep_reason = rf_preserve_reason f,
           rp_safety_checks = packet_checks f,
           rp_validation_plan = [''run targeted tests'', ''rerun simplify review''],
           rp_safe_to_autofix = (is_safe_mechanical_simplification f \<and> rf_fixable f),
           rp_patch_forecast_refs = Some [patch_ref]\<rparr>
      | Some packet \<Rightarrow>
          (let refs = (case rp_patch_forecast_refs packet of None \<Rightarrow> [] | Some rs \<Rightarrow> rs)
           in Inr (packet\<lparr>rp_patch_forecast_refs :=
                Some (if patch_ref \<in> set refs then refs else refs @ [patch_ref])\<rparr>)))"

definition patch_ref_of :: "ReviewFinding \<Rightarrow> string" where
  "patch_ref_of f = ''preview:'' @ rf_file f @ '':'' @ show_int (rf_line f)"

definition preview_entry :: "ReviewFinding \<Rightarrow> int \<Rightarrow> int \<Rightarrow> SignalTraceEntry" where
  "preview_entry f added removed =
     \<lparr>st_tool = ''specfact'', st_source = ''preview_fixes'', st_fired = True, st_score = Some 1,
      st_value = Some (SvStr (''added='' @ show_int added @ ''; removed='' @ show_int removed @ ''; net=''
        @ show_int (added - removed))),
      st_evidence_refs = Some [finding_ref f],
      st_explanation = ''Non-mutating preview computed a safe-mechanical patch forecast.''\<rparr>"

definition with_patch_preview :: "ReviewFinding \<Rightarrow> int \<Rightarrow> int \<Rightarrow> validation_errors + ReviewFinding" where
  "with_patch_preview f added removed =
     (case make_signal f (preview_entry f added removed) of Inl e \<Rightarrow> Inl e | Inr entry \<Rightarrow>
      case packet_with_patch_ref f (patch_ref_of f) of Inl e \<Rightarrow> Inl e | Inr packet \<Rightarrow>
        make_finding (f\<lparr>rf_signal_trace := Some (trace_of f @ [entry]), rf_remediation_packet := Some packet\<rparr>))"

definition preview_single_simplification :: "preview_env \<Rightarrow> ReviewFinding \<Rightarrow> cleanup_error + ReviewFinding option" where
  "preview_single_simplification env f =
     (case pv_read env (rf_file f) of
        FileOSError \<Rightarrow> Inr None
      | FileUndecodable \<Rightarrow> Inl CleanupUndecodable
      | FileText before \<Rightarrow>
          (if \<not> pv_writable env (pv_path env f) before then Inr None
           else (case report_for_preview (pv_now env) (f\<lparr>rf_file := pv_path env f\<rparr>) of
                   Inl e \<Rightarrow> Inl (CleanupReport e)
                 | Inr report \<Rightarrow>
                     (case pv_apply env report before of
                        Inl e \<Rightarrow> Inl (CleanupFixer e)
                      | Inr (applied, preview_file) \<Rightarrow>
                          (if applied = [] then Inr None
                           else (case preview_file of
                                   FileOSError \<Rightarrow> Inr None
                                 | FileUndecodable \<Rightarrow> Inl CleanupUndecodable
                                 | FileText after \<Rightarrow>
                                     (let (added, removed) = line_delta before after
                                      in map_sum CleanupValidation Some (with_patch_preview f added removed))))))))"

fun preview_loop :: "preview_env \<Rightarrow> ReviewFinding list \<Rightarrow> cleanup_error + ReviewFinding list" where
  "preview_loop env [] = Inr []"
| "preview_loop env (f # fs) =
     (case preview_single_simplification env f of
        Inl e \<Rightarrow> Inl e
      | Inr None \<Rightarrow> preview_loop env fs
      | Inr (Some g) \<Rightarrow> map_sum id (\<lambda>gs. g # gs) (preview_loop env fs))"

definition preview_simplification_fixes :: "preview_env \<Rightarrow> ReviewReport \<Rightarrow> cleanup_error + ReviewFinding list" where
  "preview_simplification_fixes env report =
     preview_loop env (fixable_simplifications_by_stable_line_order (rr_findings report))"

definition finding_key :: "ReviewFinding \<Rightarrow> string \<times> int \<times> string" where
  "finding_key f = (rf_file f, rf_line f, rf_rule f)"

text \<open>The dictionary of replacements: a later preview with the same key overwrites an earlier one.\<close>

definition replacements_of :: "ReviewFinding list \<Rightarrow> ((string \<times> int \<times> string) \<times> ReviewFinding) list" where
  "replacements_of previewed = foldl (\<lambda>d f. AList.update (finding_key f) f d) [] previewed"

definition replaced_finding ::
  "((string \<times> int \<times> string) \<times> ReviewFinding) list \<Rightarrow> ReviewFinding \<Rightarrow> ReviewFinding" where
  "replaced_finding d f = (case map_of d (finding_key f) of None \<Rightarrow> f | Some g \<Rightarrow> g)"

definition with_previewed_simplification_findings ::
  "preview_env \<Rightarrow> ReviewReport \<Rightarrow> string list \<Rightarrow> cleanup_error + ReviewReport" where
  "with_previewed_simplification_findings env report files =
     (case preview_simplification_fixes env report of
        Inl e \<Rightarrow> Inl e
      | Inr previewed \<Rightarrow>
          (if previewed = [] then with_refreshed_cleanup_forecast (pv_read env) report files
           else with_refreshed_cleanup_forecast (pv_read env)
             (report\<lparr>rr_findings := map (replaced_finding (replacements_of previewed)) (rr_findings report)\<rparr>) files))"

section \<open>Adding evidence to a constructed finding\<close>

lemma wf_finding_place: "wf_finding f \<Longrightarrow> non_blank (rf_file f) \<and> 1 \<le> rf_line f \<and> non_blank (rf_message f)"
  by (auto simp: wf_finding_def finding_field_errors_def text_field_error_def blank_if_present_def check_fail_def
      split: if_splits)

lemma wf_finding_evidence:
  assumes "wf_finding f" and "trace \<noteq> []"
  shows "wf_finding (f\<lparr>rf_signal_trace := Some trace\<rparr>)" and "wf_finding (f\<lparr>rf_remediation_packet := Some packet\<rparr>)"
  using assms
  by (auto simp: wf_finding_def finding_field_errors_def evidence_list_error_def check_fail_def expected_blocking_def
      validate_guided_metadata_def any_guided_field_def split: if_splits option.splits)

lemma make_signal_ok:
  assumes "wf_finding f" and "non_blank (st_tool e)" "non_blank (st_source e)" "non_blank (st_explanation e)"
  shows "make_signal f e = Inr (e\<lparr>st_evidence_refs := Some [finding_ref f]\<rparr>)"
  using assms wf_finding_place [OF assms(1)]
  by (simp add: make_signal_def make_evidence_ref_def finding_ref_def evidence_ref_field_errors_def blank_if_present_def
      below_if_present_def check_fail_def evidence_ref_validate_invariants_def make_signal_trace_entry_def)

lemma entry_texts:
  "non_blank (st_tool (mutation_entry av f))" "non_blank (st_source (mutation_entry av f))"
  "non_blank (st_explanation (mutation_entry av f))" "non_blank (st_tool (preview_entry f a r))"
  "non_blank (st_source (preview_entry f a r))" "non_blank (st_explanation (preview_entry f a r))"
  by (simp_all add: mutation_entry_def preview_entry_def; code_simp)+

definition with_signal :: "ReviewFinding \<Rightarrow> SignalTraceEntry \<Rightarrow> ReviewFinding" where
  "with_signal f e = f\<lparr>rf_signal_trace := Some (trace_of f @ [e])\<rparr>"

lemma with_mutation_signal_ok:
  assumes "wf_finding f"
  shows "with_mutation_signal av f =
    Inr (if is_safe_mechanical_simplification f then with_signal f (mutation_entry av f) else f)"
proof -
  have "make_signal f (mutation_entry av f) = Inr (mutation_entry av f)"
    using make_signal_ok [OF assms entry_texts(1-3)] by (simp add: mutation_entry_def)
  then show ?thesis
    using wf_finding_evidence(1) [OF assms, of "trace_of f @ [mutation_entry av f]"]
    by (simp add: with_mutation_signal_def with_signal_def make_finding_of_wf)
qed

lemma map_findings_ok: "\<forall>f \<in> set fs. g f = Inr (h f) \<Longrightarrow> map_findings g fs = Inr (map h fs)"
  by (induction fs) auto

section \<open>The forecast sees only its own fields\<close>

lemma guided_map:
  assumes "\<forall>f \<in> set fs. rf_guidance_kind (m f) = rf_guidance_kind f"
  shows "guided_findings (map m fs) = map m (guided_findings fs)"
  using assms by (induction fs) (auto simp: guided_findings_def)

lemma add_findings_map:
  assumes "\<forall>f \<in> set fs. rf_guidance_kind (m f) = rf_guidance_kind f
      \<and> rf_estimated_deletion_lines (m f) = rf_estimated_deletion_lines f \<and> rf_action_status (m f) = rf_action_status f"
  shows "add_cleanup_forecast_findings t (map m fs) = add_cleanup_forecast_findings t fs"
  using assms
proof (induction fs arbitrary: t)
  case (Cons f fs)
  then have same: "forecast_kind (m f) = forecast_kind f" "deletion_lines (m f) = deletion_lines f"
    "rf_action_status (m f) = rf_action_status f"
    by (simp_all add: forecast_kind_def deletion_lines_def)
  then have "add_cleanup_forecast_finding t (m f) = add_cleanup_forecast_finding t f" for t
    by (simp only: add_cleanup_forecast_finding_def)
  with Cons show ?case by (simp split: sum.split)
qed simp

lemma build_forecast_map:
  assumes m: "\<forall>f \<in> set findings. rf_guidance_kind (m f) = rf_guidance_kind f
      \<and> rf_estimated_deletion_lines (m f) = rf_estimated_deletion_lines f \<and> rf_action_status (m f) = rf_action_status f"
    and fc: "build_cleanup_forecast read findings files = Inr fc"
  shows "build_cleanup_forecast read (map m findings) files = Inr (fc\<lparr>
      cf_preview_evidence_count := int (length (filter has_preview_evidence (map m (guided_findings findings)))),
      cf_mutation_evidence_count := int (length (filter has_mutation_evidence (map m (guided_findings findings))))\<rparr>)"
proof -
  have g: "guided_findings (map m findings) = map m (guided_findings findings)" using m by (simp add: guided_map)
  have t: "cleanup_forecast_totals (map m (guided_findings findings)) = cleanup_forecast_totals (guided_findings findings)"
    using m unfolding cleanup_forecast_totals_def by (intro add_findings_map) (auto simp: guided_findings_def)
  from fc obtain loc totals est index where parts: "reviewed_loc_for_files read files = Inr loc"
      "cleanup_forecast_totals (guided_findings findings) = Inr totals"
      "make_deletion_estimate \<lparr>de_low = ft_low totals, de_expected = round_half_even (ft_expected totals),
         de_high = ft_high totals\<rparr> = Inr est"
      "make_ai_bloat_index \<lparr>ai_findings_per_kloc = per_kloc (double_round (of_nat (length (guided_findings findings))))
           (kloc_of (rl_total loc)),
         ai_weighted_bloat_points_per_kloc = per_kloc (ft_weighted_points totals) (kloc_of (rl_total loc)),
         ai_cleanup_yield_loc_per_kloc = per_kloc (double_round (of_int (round_half_even (ft_expected totals))))
           (kloc_of (rl_total loc))\<rparr> = Inr index"
    by (auto simp: build_cleanup_forecast_def Let_def split: sum.splits)
  show ?thesis
    using fc unfolding build_cleanup_forecast_def Let_def g t
    by (simp add: parts make_cleanup_forecast_def check_fail_def) auto
qed

lemma safe_is_guided: "is_safe_mechanical_simplification f \<Longrightarrow> rf_guidance_kind f \<noteq> None"
  by (simp add: is_safe_mechanical_simplification_def)

section \<open>Mutation evidence\<close>

definition mutated :: "bool \<Rightarrow> ReviewFinding \<Rightarrow> ReviewFinding" where
  "mutated av f = (if is_safe_mechanical_simplification f then with_signal f (mutation_entry av f) else f)"

lemma mutated_evidence:
  "has_mutation_evidence (mutated av f) \<longleftrightarrow> is_safe_mechanical_simplification f \<or> has_mutation_evidence f"
  "has_preview_evidence (mutated av f) = has_preview_evidence f"
  by (auto simp: mutated_def with_signal_def has_mutation_evidence_def has_preview_evidence_def trace_of_def mutation_entry_def
      split: option.splits)

text \<open>Adding mutation evidence to a report with constructed findings succeeds whether or not the
  mutation tool is installed. Exactly the open safe mechanical findings get one more signal, an inconclusive one; the forecast keeps
  every figure but the mutation count, which then counts these findings as well, and nothing else of the report changes.\<close>

theorem mutation_evidence_exact:
  assumes "\<forall>f \<in> set (rr_findings report). wf_finding f"
    and "lines_where (\<lambda>k. k \<noteq> Preserve) (guided_findings (rr_findings report)) < 2 ^ 53"
  shows "\<exists>fc. build_cleanup_forecast read (rr_findings report) files = Inr fc
     \<and> with_mutation_evidence read available report files = Inr (report\<lparr>
         rr_findings := map (mutated available) (rr_findings report),
         rr_cleanup_forecast := Some (fc\<lparr>cf_mutation_evidence_count := int (length
           (filter (\<lambda>f. is_safe_mechanical_simplification f \<or> has_mutation_evidence f) (guided_findings (rr_findings report))))\<rparr>),
         rr_schema_version := (if schema_version_at_least (rr_schema_version report) 3 then rr_schema_version report
           else ''1.3'')\<rparr>)"
proof -
  let ?fs = "rr_findings report"
  obtain fc where fc: "build_cleanup_forecast read ?fs files = Inr fc"
    using forecast_returns [OF assms] by blast
  have m: "map_findings (with_mutation_signal available) ?fs = Inr (map (mutated available) ?fs)"
    using assms(1) by (intro map_findings_ok) (simp add: with_mutation_signal_ok mutated_def)
  have "cf_preview_evidence_count fc = int (length (filter has_preview_evidence (guided_findings ?fs)))"
    using fc by (auto simp: build_cleanup_forecast_def Let_def make_cleanup_forecast_def split: sum.splits if_splits)
  moreover have "\<forall>f \<in> set ?fs. rf_guidance_kind (mutated available f) = rf_guidance_kind f
      \<and> rf_estimated_deletion_lines (mutated available f) = rf_estimated_deletion_lines f
      \<and> rf_action_status (mutated available f) = rf_action_status f"
    by (simp add: mutated_def with_signal_def)
  ultimately have "build_cleanup_forecast read (map (mutated available) ?fs) files = Inr (fc\<lparr>cf_mutation_evidence_count := int (length
      (filter (\<lambda>f. is_safe_mechanical_simplification f \<or> has_mutation_evidence f) (guided_findings ?fs)))\<rparr>)"
    using build_forecast_map [OF _ fc, of "mutated available"] by (simp add: mutated_evidence filter_map comp_def)
  with fc m show ?thesis by (simp add: with_mutation_evidence_def with_refreshed_cleanup_forecast_def)
qed

section \<open>Preview evidence\<close>

text \<open>A previewed finding: one more signal and a packet that refers to the patch.\<close>

definition previewed_from :: "ReviewFinding \<Rightarrow> ReviewFinding \<Rightarrow> bool" where
  "previewed_from f g \<longleftrightarrow> (\<exists>entry packet refs. g = (with_signal f entry)\<lparr>rf_remediation_packet := Some packet\<rparr>
     \<and> st_source entry = ''preview_fixes'' \<and> rp_patch_forecast_refs packet = Some refs \<and> patch_ref_of f \<in> set refs)"

lemma recommended_action_non_blank: "non_blank (recommended_action_text a)"
  by (cases a) (simp_all, code_simp+)

lemma wf_finding_packet:
  assumes "wf_finding f"
  shows "\<exists>packet refs. packet_with_patch_ref f (patch_ref_of f) = Inr packet \<and> rp_patch_forecast_refs packet = Some refs
     \<and> patch_ref_of f \<in> set refs"
proof (cases "rf_remediation_packet f")
  case None
  have ref: "non_blank (patch_ref_of f)"
    by (simp add: patch_ref_of_def non_blank_char [of "CHR ''p''"] py_is_space_def)
  have texts: "non_blank ''inspect the surrounding behavior before editing''" "non_blank ''run targeted tests''"
    "non_blank ''rerun simplify review''" by code_simp+
  have "\<forall>c \<in> set cs. non_blank c" if "rf_safety_checks f = Some cs" for cs
    using assms that
    by (auto simp: wf_finding_def finding_field_errors_def safety_checks_error_def split: if_splits)
  then have checks: "packet_checks f \<noteq> []" "\<forall>c \<in> set (packet_checks f). non_blank c"
    using texts(1) by (auto simp: packet_checks_def split: option.splits list.splits)
  have reason: "\<not> blank_if_present (rf_preserve_reason f)"
    using assms by (auto simp: wf_finding_def finding_field_errors_def text_field_error_def check_fail_def split: if_splits)
  have action: "non_blank (case rf_recommended_action f of None \<Rightarrow> ''inspect'' | Some a \<Rightarrow> recommended_action_text a)"
    by (simp add: recommended_action_non_blank split: option.split) code_simp
  show ?thesis
    using None ref checks reason texts action wf_finding_place [OF assms]
    by (simp add: packet_with_patch_ref_def make_remediation_packet_def entries_error_def check_fail_def)
qed (auto simp: packet_with_patch_ref_def Let_def)

lemma with_patch_preview_ok:
  assumes "wf_finding f"
  shows "\<exists>g. with_patch_preview f added removed = Inr g \<and> previewed_from f g"
proof -
  let ?e = "preview_entry f added removed"
  obtain packet refs where packet: "packet_with_patch_ref f (patch_ref_of f) = Inr packet"
      "rp_patch_forecast_refs packet = Some refs" "patch_ref_of f \<in> set refs"
    using wf_finding_packet [OF assms] by blast
  have sig: "make_signal f ?e = Inr ?e"
    using make_signal_ok [OF assms entry_texts(4-6)] by (simp add: preview_entry_def)
  have "wf_finding ((with_signal f ?e)\<lparr>rf_remediation_packet := Some packet\<rparr>)"
    using wf_finding_evidence [OF assms] wf_finding_evidence(2) [of "with_signal f ?e" "[?e]"] by (simp add: with_signal_def)
  from make_finding_of_wf [OF this] have "with_patch_preview f added removed
      = Inr ((with_signal f ?e)\<lparr>rf_remediation_packet := Some packet\<rparr>)"
    by (simp add: with_patch_preview_def sig packet(1) with_signal_def)
  moreover have "st_source ?e = ''preview_fixes''" by (simp add: preview_entry_def)
  ultimately show ?thesis using packet(2,3) unfolding previewed_from_def by blast
qed

lemma report_for_preview_ok: "\<exists>r. report_for_preview now f = Inr r"
proof -
  have nb: "non_blank ''1.0''" "non_blank ''preview''" "non_blank ''Preview simplification fix.''" by code_simp+
  show ?thesis
    by (simp add: report_for_preview_def make_report_def report_field_errors_def check_fail_def nb derive_governance_fields_def
        derive_authoritative_governance_def prepare_governance_def Let_def)
qed

text \<open>The environment of a preview that meets neither undecodable text nor a failing fixer.\<close>

definition preview_env_ok :: "preview_env \<Rightarrow> ReviewFinding list \<Rightarrow> bool" where
  "preview_env_ok env fs \<longleftrightarrow> (\<forall>f \<in> set fs. pv_read env (rf_file f) \<noteq> FileUndecodable)
     \<and> (\<forall>report before. case pv_apply env report before of Inl e \<Rightarrow> False | Inr (_, file) \<Rightarrow> file \<noteq> FileUndecodable)"

lemma preview_single_from:
  assumes "wf_finding f" and "preview_single_simplification env f = Inr (Some g)"
  shows "previewed_from f g"
proof -
  from assms(2) obtain a r where "with_patch_preview f a r = Inr g"
    by (auto simp: preview_single_simplification_def map_sum_Inr_iff split: file_read.splits if_splits sum.splits prod.splits)
  with with_patch_preview_ok [OF assms(1), of a r] show ?thesis by auto
qed

lemma preview_single_returns:
  assumes "wf_finding f" and "preview_env_ok env fs" and "f \<in> set fs"
  shows "\<exists>g. preview_single_simplification env f = Inr g"
proof -
  obtain r where r: "report_for_preview (pv_now env) (f\<lparr>rf_file := pv_path env f\<rparr>) = Inr r"
    using report_for_preview_ok by blast
  have readable: "pv_read env (rf_file f) \<noteq> FileUndecodable" using assms(2,3) by (simp add: preview_env_ok_def)
  show ?thesis
  proof (cases "pv_read env (rf_file f)")
    case (FileText before)
    have "case pv_apply env r before of Inl e \<Rightarrow> False | Inr (_, file) \<Rightarrow> file \<noteq> FileUndecodable"
      using assms(2) by (simp add: preview_env_ok_def)
    then obtain applied result where app: "pv_apply env r before = Inr (applied, result)" "result \<noteq> FileUndecodable"
      by (auto split: sum.splits)
    show ?thesis
    proof (cases result)
      case (FileText after)
      obtain a b where "line_delta before after = (a, b)" by (cases "line_delta before after")
      with with_patch_preview_ok [OF assms(1), of a b] show ?thesis
        using \<open>pv_read env (rf_file f) = FileText before\<close> app FileText
        by (auto simp: preview_single_simplification_def r)
    qed (use \<open>pv_read env (rf_file f) = FileText before\<close> app in \<open>simp_all add: preview_single_simplification_def r\<close>)
  qed (use readable in \<open>simp_all add: preview_single_simplification_def\<close>)
qed

lemma preview_loop_members:
  assumes "preview_loop env fs = Inr gs" and "g \<in> set gs"
  shows "\<exists>f \<in> set fs. preview_single_simplification env f = Inr (Some g)"
  using assms
  by (induction fs arbitrary: gs) (auto simp: map_sum_Inr_iff split: sum.splits option.splits)

lemma preview_loop_returns:
  assumes "\<forall>f \<in> set fs. \<exists>g. preview_single_simplification env f = Inr g"
  shows "\<exists>gs. preview_loop env fs = Inr gs"
  using assms by (induction fs) (auto simp: map_sum_Inr_iff split: option.split)

lemma replacements_lookup:
  assumes "map_of (replacements_of gs) k = Some g"
  shows "g \<in> set gs \<and> finding_key g = k"
proof -
  have "(g \<in> set gs \<and> finding_key g = k) \<or> map_of d k = Some g"
    if "map_of (foldl (\<lambda>d f. AList.update (finding_key f) f d) d gs) k = Some g" for d
    using that
  proof (induction gs arbitrary: d)
    case (Cons a gs)
    from Cons.IH [of "AList.update (finding_key a) a d"] Cons.prems show ?case
      by (auto simp: update_conv' split: if_splits)
  qed simp
  from this [of "[]"] assms show ?thesis by (simp add: replacements_of_def)
qed

lemma previewed_from_key: "previewed_from f g \<Longrightarrow> finding_key g = finding_key f"
  by (auto simp: previewed_from_def finding_key_def with_signal_def)

text \<open>Previewing the fixes of a report whose findings have distinct places returns when every source is
  decodable and the fixer does not raise. Each finding is kept in its position: it is either untouched, or an open safe
  mechanical finding that got a preview signal and a reference to its patch. Apart from the findings only the
  forecast and the schema version change.\<close>

theorem preview_keeps_findings:
  assumes wf: "\<forall>f \<in> set (rr_findings report). wf_finding f" and keys: "distinct (map finding_key (rr_findings report))"
    and env: "preview_env_ok env (rr_findings report)"
    and lines: "lines_where (\<lambda>k. k \<noteq> Preserve) (guided_findings (rr_findings report)) < 2 ^ 53"
  shows "\<exists>findings fc version. with_previewed_simplification_findings env report files = Inr (report\<lparr>rr_findings := findings,
        rr_cleanup_forecast := Some fc, rr_schema_version := version\<rparr>)
     \<and> list_all2 (\<lambda>f g. g = f \<or> (is_safe_mechanical_simplification f \<and> previewed_from f g)) (rr_findings report) findings"
proof -
  let ?fs = "rr_findings report" and ?safe = "fixable_simplifications_by_stable_line_order (rr_findings report)"
  have safe: "f \<in> set ?safe \<longleftrightarrow> f \<in> set ?fs \<and> is_safe_mechanical_simplification f" for f
    by (auto simp: fixable_simplifications_by_stable_line_order_def)
  obtain gs where gs: "preview_loop env ?safe = Inr gs"
    using preview_loop_returns [of ?safe env] preview_single_returns [OF _ env] wf safe by blast
  let ?m = "replaced_finding (replacements_of gs)"
  have m: "?m f = f \<or> (is_safe_mechanical_simplification f \<and> previewed_from f (?m f))" if "f \<in> set ?fs" for f
  proof (cases "map_of (replacements_of gs) (finding_key f)")
    case (Some g)
    then have g: "g \<in> set gs" "finding_key g = finding_key f" by (simp_all add: replacements_lookup)
    from preview_loop_members [OF gs g(1)] obtain h where h: "h \<in> set ?fs" "is_safe_mechanical_simplification h"
        "preview_single_simplification env h = Inr (Some g)" using safe by auto
    then have from_h: "previewed_from h g" using wf by (auto intro: preview_single_from)
    have "h = f" using keys h(1) that previewed_from_key [OF from_h] g(2) by (simp add: distinct_map inj_on_def)
    with from_h h(2) Some show ?thesis by (simp add: replaced_finding_def)
  qed (simp add: replaced_finding_def)
  have same: "\<forall>f \<in> set ?fs. rf_guidance_kind (?m f) = rf_guidance_kind f
      \<and> rf_estimated_deletion_lines (?m f) = rf_estimated_deletion_lines f \<and> rf_action_status (?m f) = rf_action_status f"
  proof
    fix f assume "f \<in> set ?fs"
    from m [OF this] show "rf_guidance_kind (?m f) = rf_guidance_kind f
        \<and> rf_estimated_deletion_lines (?m f) = rf_estimated_deletion_lines f \<and> rf_action_status (?m f) = rf_action_status f"
      by (auto simp: previewed_from_def with_signal_def)
  qed
  obtain fc where fc: "build_cleanup_forecast (pv_read env) ?fs files = Inr fc" using forecast_returns [OF wf lines] by blast
  have all2: "list_all2 (\<lambda>f g. g = f \<or> (is_safe_mechanical_simplification f \<and> previewed_from f g)) ?fs (map ?m ?fs)"
    using m by (simp add: list_all2_conv_all_nth)
  have "map ?m ?fs = ?fs" if "gs = []" using that by (auto simp: replaced_finding_def replacements_of_def intro: map_idI)
  then have "with_previewed_simplification_findings env report files
      = with_refreshed_cleanup_forecast (pv_read env) (report\<lparr>rr_findings := map ?m ?fs\<rparr>) files"
    by (simp add: with_previewed_simplification_findings_def preview_simplification_fixes_def gs)
  then show ?thesis using build_forecast_map [OF same fc] all2 by (fastforce simp: with_refreshed_cleanup_forecast_def)
qed

text \<open>A preserved finding at the same place and rule as a previewed one is overwritten by the preview:
  afterwards the report has the previewed finding twice.\<close>

theorem preview_overwrites_preserved:
  assumes "rr_findings report = [f, p]" and "is_safe_mechanical_simplification f" and "\<not> is_safe_mechanical_simplification p"
    and "finding_key p = finding_key f" and "wf_finding f"
    and "preview_single_simplification env f = Inr (Some g)"
    and "with_previewed_simplification_findings env report files = Inr r"
  shows "rr_findings r = [g, g]"
proof -
  have "finding_key g = finding_key f" using preview_single_from [OF assms(5,6)] by (rule previewed_from_key)
  then show ?thesis
    using assms(1-4,6,7)
    by (auto simp: with_previewed_simplification_findings_def preview_simplification_fixes_def replaced_finding_def
        fixable_simplifications_by_stable_line_order_def replacements_of_def with_refreshed_cleanup_forecast_def
        split: sum.splits)
qed

section \<open>Examples\<close>

definition demo_report_of :: "ReviewFinding list \<Rightarrow> ReviewReport" where
  "demo_report_of fs = sample_report\<lparr>rr_findings := fs\<rparr>"

definition demo_previews :: preview_env where
  "demo_previews = \<lparr>pv_read = (\<lambda>p. FileText ''x = 1''), pv_path = (\<lambda>f. ''/tmp/a.py''), pv_writable = (\<lambda>p t. True), pv_now = 0,
     pv_apply = (\<lambda>r t. Inr (rr_findings r, FileText []))\<rparr>"

lemma demo_report_findings [simp]: "rr_findings (demo_report_of fs) = fs"
  by (simp add: demo_report_of_def)

theorem mutation_evidence_exact_witness:
  "\<exists>fc. with_mutation_evidence (\<lambda>p. FileText ''x = 1'') False (demo_report_of demo_guided) [''a.py'']
     = Inr ((demo_report_of (map (mutated False) demo_guided))\<lparr>rr_cleanup_forecast := Some (fc\<lparr>cf_mutation_evidence_count := 1\<rparr>),
         rr_schema_version := ''1.3''\<rparr>)"
proof -
  have n: "length (filter (\<lambda>f. is_safe_mechanical_simplification f \<or> has_mutation_evidence f) (guided_findings demo_guided)) = 1"
    "\<not> schema_version_at_least (rr_schema_version (demo_report_of demo_guided)) 3" by code_simp+
  show ?thesis
    using mutation_evidence_exact [of "demo_report_of demo_guided" "\<lambda>p. FileText ''x = 1''" "[''a.py'']" False] demo_guided_ok n
    by (auto simp: demo_report_of_def)
qed

lemma demo_previews_ok: "preview_env_ok demo_previews fs"
  by (simp add: preview_env_ok_def demo_previews_def)

theorem preview_keeps_findings_witness:
  "\<exists>r. with_previewed_simplification_findings demo_previews (demo_report_of [demo_simplification SafeMechanical 4]) [''a.py''] = Inr r
     \<and> length (rr_findings r) = 1"
proof -
  let ?fs = "[demo_simplification SafeMechanical 4]"
  have "\<forall>f \<in> set ?fs. wf_finding f" "lines_where (\<lambda>k. k \<noteq> Preserve) (guided_findings ?fs) < 2 ^ 53" by code_simp+
  with preview_keeps_findings [of "demo_report_of ?fs" demo_previews "[''a.py'']"] demo_previews_ok [of ?fs]
  obtain findings fc version where r: "with_previewed_simplification_findings demo_previews (demo_report_of ?fs) [''a.py'']
      = Inr ((demo_report_of ?fs)\<lparr>rr_findings := findings, rr_cleanup_forecast := Some fc, rr_schema_version := version\<rparr>)"
      "list_all2 (\<lambda>f g. g = f \<or> (is_safe_mechanical_simplification f \<and> previewed_from f g)) ?fs findings" by auto
  then show ?thesis by (auto dest: list_all2_lengthD)
qed

theorem preview_overwrites_preserved_witness:
  "\<exists>g r. with_previewed_simplification_findings demo_previews
        (demo_report_of [demo_simplification SafeMechanical 4, demo_simplification Preserve 9]) [] = Inr r
     \<and> rr_findings r = [g, g] \<and> rf_guidance_kind g = Some SafeMechanical"
proof -
  let ?f = "demo_simplification SafeMechanical 4" and ?p = "demo_simplification Preserve 9"
  have wf: "wf_finding ?f" "wf_finding ?p" "is_safe_mechanical_simplification ?f" "\<not> is_safe_mechanical_simplification ?p"
    "finding_key ?p = finding_key ?f" by code_simp+
  have run: "\<not> isl (with_previewed_simplification_findings demo_previews (demo_report_of [?f, ?p]) [])" by code_simp
  have single: "case preview_single_simplification demo_previews ?f of Inr (Some g) \<Rightarrow> True | _ \<Rightarrow> False" by code_simp
  obtain r where r: "with_previewed_simplification_findings demo_previews (demo_report_of [?f, ?p]) [] = Inr r"
    using run by (metis sum.collapse(2))
  obtain g where g: "preview_single_simplification demo_previews ?f = Inr (Some g)"
    using single by (auto split: sum.splits option.splits)
  have "rr_findings r = [g, g]"
    using preview_overwrites_preserved [OF _ wf(3,4,5,1) g r] by simp
  moreover have "rf_guidance_kind g = Some SafeMechanical"
    using preview_single_from [OF wf(1) g] by (auto simp: previewed_from_def with_signal_def demo_simplification_def)
  ultimately show ?thesis using r by blast
qed

end
