(* ===== verification/Range_Review.thy ===== *)
theory Range_Review
  imports Review_Report Suppression_Gate Suppression_Catalog
begin

text \<open>
  The range review of \<^verbatim>\<open>run/runner.py\<close>: the base and the head findings of every analyzer of the
  profile are classified by the differential, the classification is mapped back to the findings of the analyzers, the
  suppression delta is merged into the evidence of the analyzers it concerns, and the profile is aggregated. An
  analyzer's evidence is the dictionary the runner keeps for it. Running the analyzers is not part of the model: a
  snapshot result is an argument.
\<close>

section \<open>The profile\<close>

record AnalyzerProfile =
  ap_id :: string
  ap_required_ids :: "string list"
  ap_conditional_ids :: "string list"

definition all_ids :: "AnalyzerProfile \<Rightarrow> string list" where
  "all_ids profile = ap_required_ids profile @ ap_conditional_ids profile"

definition default_pr_range_profile :: AnalyzerProfile where
  "default_pr_range_profile =
     \<lparr>ap_id = ''pr-range-v1'', ap_required_ids = PR_RANGE_REQUIRED_ANALYZERS,
      ap_conditional_ids = PR_RANGE_CONDITIONAL_ANALYZERS\<rparr>"

definition C14_ANALYZER_VERSIONS :: "(string \<times> string) list" where
  "C14_ANALYZER_VERSIONS =
     [(''ai-bloat-ast'', ''module-release-bound''), (''ast-clean-code'', ''module-release-bound''),
      (''basedpyright'', ''1.39.10''), (''contracts'', ''crosshair-tool-0.0.109+icontract-2.7.1''),
      (''pylint'', ''4.0.7''), (''radon'', ''6.0.1''), (''ruff'', ''0.15.12''), (''semgrep-clean'', ''1.144.0''),
      (''semgrep-bugs'', ''1.144.0''),
      (''targeted-pytest-coverage'', ''pytest-9.0.3+pytest-cov-7.1.0+coverage-7.15.4'')]"

text \<open>\<open>_C14_ANALYZER_VERSIONS[member]\<close>; it is only read with the identifiers of the profile, which all have an entry.\<close>

definition c14_version :: "string \<Rightarrow> string" where
  "c14_version member = (case map_of C14_ANALYZER_VERSIONS member of None \<Rightarrow> [] | Some v \<Rightarrow> v)"

record AnalyzerEvidence =
  ae_id :: string
  ae_execution_state :: string
  ae_evidence_outcome :: string
  ae_version :: string
  ae_diagnostic :: string

record ProfileEvidenceReport =
  pv_analyzer_evidence :: "AnalyzerEvidence list"
  pv_assurance_status :: string
  pv_overall_verdict :: string
  pv_has_unknown_required_evidence :: bool

definition has_required_unknown_reasons :: "pyval \<Rightarrow> bool" where
  "has_required_unknown_reasons raw =
     (case raw of PList reasons \<Rightarrow> reasons \<noteq> [] \<or> (\<exists>r \<in> set reasons. \<not> is_pstr r \<or> r = PStr []) | _ \<Rightarrow> True)"

text \<open>\<open>expected_versions or _C14_ANALYZER_VERSIONS\<close>\<close>

definition versions_or_default :: "(string \<times> string) list option \<Rightarrow> (string \<times> string) list" where
  "versions_or_default versions =
     (case versions of None \<Rightarrow> C14_ANALYZER_VERSIONS | Some v \<Rightarrow> (if v = [] then C14_ANALYZER_VERSIONS else v))"

definition valid_expected_versions :: "(string \<times> string) list \<Rightarrow> bool" where
  "valid_expected_versions expected =
     (set (map fst expected) = set (all_ids default_pr_range_profile) \<and> list_all (\<lambda>(m, v). v \<noteq> []) expected)"

text \<open>The body of the loop: the recorded evidence of one member and whether it leaves required evidence unknown.\<close>

definition aggregate_member ::
  "(string \<times> pydict) list \<Rightarrow> (string \<times> string) list \<Rightarrow> string \<Rightarrow> AnalyzerEvidence \<times> bool" where
  "aggregate_member evidence expected member =
     (let raw = (case map_of evidence member of None \<Rightarrow> [] | Some d \<Rightarrow> d);
          execution = py_str (dget_or raw ''execution_state'' (PStr ''error''));
          version = py_str (dget_or raw ''version'' (PStr []));
          outcome = (if execution = ''error'' \<or> \<not> valid_expected_versions expected
                        \<or> map_of expected member \<noteq> Some version then ''UNKNOWN''
                     else py_str (dget_or raw ''evidence_outcome'' (PStr ''UNKNOWN'')))
      in (\<lparr>ae_id = member, ae_execution_state = execution, ae_evidence_outcome = outcome, ae_version = version,
           ae_diagnostic = py_str (dget_or raw ''diagnostic'' (PStr []))\<rparr>,
          outcome = ''UNKNOWN'' \<or> has_required_unknown_reasons (dget_or raw ''required_unknown_reasons'' (PList []))))"

definition aggregate_profile_evidence ::
  "(string \<times> pydict) list \<Rightarrow> (string \<times> string) list option \<Rightarrow> ProfileEvidenceReport" where
  "aggregate_profile_evidence evidence versions =
     (let expected = versions_or_default versions;
          results = map (aggregate_member evidence expected) (all_ids default_pr_range_profile);
          members = map fst results;
          required_unknown = list_ex snd results;
          known_fail = list_ex (\<lambda>m. ae_evidence_outcome m = ''FAIL'') members;
          assurance = (if known_fail then ''FAIL'' else if required_unknown then ''UNKNOWN'' else ''PASS'')
      in \<lparr>pv_analyzer_evidence = members, pv_assurance_status = assurance,
          pv_overall_verdict = (if assurance = ''PASS'' then ''PASS'' else ''FAIL''),
          pv_has_unknown_required_evidence = required_unknown\<rparr>)"

section \<open>Findings and their classification\<close>

fun severity_name :: "severity \<Rightarrow> string" where
  "severity_name SevError = ''error''"
| "severity_name SevWarning = ''warning''"
| "severity_name SevInfo = ''info''"

fun outcome_of_status :: "differential_status \<Rightarrow> string" where
  "outcome_of_status DPass = ''PASS''"
| "outcome_of_status DFail = ''FAIL''"
| "outcome_of_status DUnknown = ''UNKNOWN''"

definition differential_finding_projection :: "ReviewFinding \<Rightarrow> pydict" where
  "differential_finding_projection f =
     [(PStr ''analyzer'', PStr (rf_tool f)), (PStr ''blocking'', PBool (is_blocking f)),
      (PStr ''line'', PInt (rf_line f)), (PStr ''message'', PStr (rf_message f)), (PStr ''path'', PStr (rf_file f)),
      (PStr ''rule'', PStr (rf_rule f)), (PStr ''severity'', PStr (severity_name (rf_severity f)))]"

type_synonym differential_key = "string \<times> string \<times> string \<times> int \<times> string \<times> string \<times> bool"

text \<open>\<open>_differential_finding_key\<close> of an analyzer's finding and of a finding of the differential.\<close>

definition review_finding_key :: "ReviewFinding \<Rightarrow> differential_key" where
  "review_finding_key f =
     (rf_tool f, rf_rule f, rf_file f, rf_line f, py_join '' '' (py_words (rf_message f)),
      severity_name (rf_severity f), is_blocking f)"

definition differential_finding_key :: "DifferentialFinding \<Rightarrow> differential_key" where
  "differential_finding_key f =
     (df_analyzer f, df_rule f, df_path f, df_line f, py_join '' '' (py_words (df_message f)),
      df_severity f, df_blocking f)"

type_synonym candidates = "(differential_key \<times> ReviewFinding list) list"

definition findings_by_key :: "ReviewFinding list \<Rightarrow> candidates" where
  "findings_by_key findings = foldl (\<lambda>d f. dict_push d (review_finding_key f) f) [] findings"

text \<open>\<open>candidates.pop(0)\<close> on the list of a key; \<open>None\<close> when it is missing or empty.\<close>

definition pop_candidate :: "candidates \<Rightarrow> differential_key \<Rightarrow> (ReviewFinding \<times> candidates) option" where
  "pop_candidate d k = (case dict_list d k of [] \<Rightarrow> None | f # fs \<Rightarrow> Some (f, AList.update k fs d))"

text \<open>\<open>model_validate({**original.model_dump(), **updates})\<close>; its errors are value errors.\<close>

definition state_updates :: "differential_state \<Rightarrow> ReviewFinding \<Rightarrow> ReviewFinding" where
  "state_updates state f =
     (let g = f\<lparr>rf_differential_state := Some state\<rparr>
      in if state = DsFixed then g\<lparr>rf_blocking := Some False, rf_status := Fixed\<rparr> else g)"

definition mapping_error :: py_error where
  "mapping_error = ValueError ''differential finding cannot be mapped to analyzer evidence''"

definition revalidated :: "ReviewFinding \<Rightarrow> py_error + ReviewFinding" where
  "revalidated f = map_sum (\<lambda>errors. ValueError (py_join ''; '' errors)) id (make_finding f)"

text \<open>One state of the loop: each finding of the differential takes the first finding with its key, from the preferred
  side or else from the other.\<close>

fun classified_in_state ::
  "differential_state \<Rightarrow> DifferentialFinding list \<Rightarrow> candidates \<times> candidates
   \<Rightarrow> py_error + (ReviewFinding list \<times> candidates \<times> candidates)" where
  "classified_in_state state [] sides = Inr ([], sides)"
| "classified_in_state state (x # xs) (preferred, fallback) =
     (case (case pop_candidate preferred (differential_finding_key x) of
              Some (f, p) \<Rightarrow> Some (f, p, fallback)
            | None \<Rightarrow> map_option (\<lambda>(f, q). (f, preferred, q)) (pop_candidate fallback (differential_finding_key x))) of
        None \<Rightarrow> Inl mapping_error
      | Some (original, sides) \<Rightarrow>
          (case revalidated (state_updates state original) of
             Inl e \<Rightarrow> Inl e
           | Inr g \<Rightarrow> map_sum id (\<lambda>(gs, rest). (g # gs, rest)) (classified_in_state state xs sides)))"

definition classified_findings ::
  "DifferentialClassification \<Rightarrow> ReviewFinding list \<Rightarrow> ReviewFinding list \<Rightarrow> py_error + ReviewFinding list" where
  "classified_findings c base head =
     (case classified_in_state DsIntroduced (dc_introduced c) (findings_by_key head, findings_by_key base) of
        Inl e \<Rightarrow> Inl e
      | Inr (introduced, h1, b1) \<Rightarrow>
          (case classified_in_state DsUnchanged (dc_unchanged c) (h1, b1) of
             Inl e \<Rightarrow> Inl e
           | Inr (unchanged, h2, b2) \<Rightarrow>
               (case classified_in_state DsFixed (dc_fixed c) (b2, h2) of
                  Inl e \<Rightarrow> Inl e
                | Inr (fixed, b3, h3) \<Rightarrow>
                    map_sum id (\<lambda>(unknown, _). introduced @ unchanged @ fixed @ unknown)
                      (classified_in_state DsUnknown (dc_unknown c) (h3, b3)))))"

section \<open>One member\<close>

record ExactRename =
  xr_old_path :: string
  xr_new_path :: string
  xr_disposition :: string

record scope_resolution =
  sr_base_contents :: sources
  sr_head_contents :: sources
  sr_exact_renames :: "ExactRename list"
  sr_path_statuses :: "(string \<times> string) list"

record RangeDifferentialContext =
  rc_base_sources :: sources
  rc_head_sources :: sources
  rc_rename_facts :: "(string \<times> string) list"
  rc_rename_ambiguities :: "(string \<times> string list) list option"
  rc_added_paths :: "string list"
  rc_deleted_paths :: "string list"

definition range_differential_context :: "scope_resolution \<Rightarrow> RangeDifferentialContext" where
  "range_differential_context resolution =
     (let renames = sr_exact_renames resolution;
          ambiguities = dict_of (map (\<lambda>x. (xr_old_path x, [xr_new_path x]))
            (filter (\<lambda>x. xr_disposition x = ''ambiguous'') renames));
          with_status = (\<lambda>s. sort (map fst (filter (\<lambda>(p, st). st = s) (sr_path_statuses resolution))))
      in \<lparr>rc_base_sources = sr_base_contents resolution, rc_head_sources = sr_head_contents resolution,
          rc_rename_facts = dict_of (map (\<lambda>x. (xr_old_path x, xr_new_path x))
            (filter (\<lambda>x. xr_disposition x = ''exact_rename'') renames)),
          rc_rename_ambiguities = (if ambiguities = [] then None else Some ambiguities),
          rc_added_paths = with_status ''A'', rc_deleted_paths = with_status ''D''\<rparr>)"

definition outcome_of :: "pydict \<Rightarrow> string" where
  "outcome_of evidence = py_str (dget_or evidence ''evidence_outcome'' (PStr ''UNKNOWN''))"

definition member_snapshot_is_consistent :: "pydict \<Rightarrow> ReviewFinding list \<Rightarrow> bool" where
  "member_snapshot_is_consistent evidence findings =
     (let outcome = outcome_of evidence
      in if outcome = ''UNKNOWN'' then False
         else if outcome = ''NOT_APPLICABLE'' then findings = []
         else outcome = (if list_ex is_blocking findings then ''FAIL'' else ''PASS''))"

definition unknown_range_member :: "string \<Rightarrow> string \<Rightarrow> pydict \<Rightarrow> pydict \<Rightarrow> pydict" where
  "unknown_range_member member reason base head =
     [(PStr ''execution_state'', PStr ''error''), (PStr ''evidence_outcome'', PStr ''UNKNOWN''),
      (PStr ''version'', PStr (c14_version member)), (PStr ''diagnostic'', PStr reason),
      (PStr ''disposition'', PStr ''unknown''), (PStr ''base'', PDict base), (PStr ''head'', PDict head)]"

definition not_applicable_range_member :: "string \<Rightarrow> pydict \<Rightarrow> pydict \<Rightarrow> pydict" where
  "not_applicable_range_member member base head =
     [(PStr ''execution_state'', PStr ''not_applicable''), (PStr ''evidence_outcome'', PStr ''NOT_APPLICABLE''),
      (PStr ''version'', PStr (c14_version member)), (PStr ''diagnostic'', PStr []),
      (PStr ''disposition'', PStr ''not_applicable''), (PStr ''base'', PDict base), (PStr ''head'', PDict head)]"

definition incomplete_snapshot_findings :: "ReviewFinding list \<Rightarrow> ReviewFinding list \<Rightarrow> ReviewFinding list" where
  "incomplete_snapshot_findings base_findings head_findings =
     map (\<lambda>f. f\<lparr>rf_differential_state := Some DsUnknown\<rparr>)
       (head_findings @ filter (\<lambda>f. rf_category f = ToolError) base_findings)"

definition range_request ::
  "RangeDifferentialContext \<Rightarrow> ReviewFinding list \<Rightarrow> ReviewFinding list \<Rightarrow> FindingClassificationRequest" where
  "range_request context base_findings head_findings =
     \<lparr>fr_base_findings = map differential_finding_projection base_findings,
      fr_head_findings = map differential_finding_projection head_findings,
      fr_base_sources = rc_base_sources context, fr_head_sources = rc_head_sources context,
      fr_base_analysis_status = ''pass'', fr_rename_facts = Some (rc_rename_facts context),
      fr_rename_ambiguities = rc_rename_ambiguities context, fr_deleted_paths = rc_deleted_paths context,
      fr_added_paths = rc_added_paths context, fr_source_size_override = None\<rparr>"

definition classified_range_member :: "string \<Rightarrow> DifferentialClassification \<Rightarrow> pydict \<Rightarrow> pydict \<Rightarrow> pydict" where
  "classified_range_member member c base head =
     (let size = (\<lambda>xs. PInt (int (length xs)))
      in [(PStr ''execution_state'', PStr ''ran''), (PStr ''evidence_outcome'', PStr (outcome_of_status (dc_status c))),
          (PStr ''version'', PStr (c14_version member)), (PStr ''diagnostic'', PStr (dc_reason c)),
          (PStr ''disposition'', PStr (if dc_status c \<noteq> DUnknown then ''differential_complete'' else ''unknown'')),
          (PStr ''differential_counts'', PDict
             [(PStr ''fixed'', size (dc_fixed c)), (PStr ''introduced'', size (dc_introduced c)),
              (PStr ''unchanged'', size (dc_unchanged c)), (PStr ''unknown'', size (dc_unknown c))]),
          (PStr ''differential_evidence_digest'', PStr (dc_evidence_digest c)),
          (PStr ''base'', PDict base), (PStr ''head'', PDict head)])"

definition both_not_applicable :: "pydict \<Rightarrow> pydict \<Rightarrow> bool" where
  "both_not_applicable base head = ({outcome_of base, outcome_of head} = {''NOT_APPLICABLE''})"

definition classify_range_member ::
  "(string \<Rightarrow> string) \<Rightarrow> string \<Rightarrow> RangeDifferentialContext \<Rightarrow> pydict \<Rightarrow> pydict \<Rightarrow> ReviewFinding list \<Rightarrow> ReviewFinding list
   \<Rightarrow> py_error + (pydict \<times> ReviewFinding list)" where
  "classify_range_member sha member context base_evidence head_evidence base_findings head_findings =
     (if both_not_applicable base_evidence head_evidence
        then Inr (not_applicable_range_member member base_evidence head_evidence, [])
      else if \<not> member_snapshot_is_consistent base_evidence base_findings
              \<or> \<not> member_snapshot_is_consistent head_evidence head_findings
        then Inr (unknown_range_member member ''snapshot_member_incomplete'' base_evidence head_evidence,
                  incomplete_snapshot_findings base_findings head_findings)
      else (case classify_findings sha (range_request context base_findings head_findings) of
              Inl e \<Rightarrow> Inl e
            | Inr c \<Rightarrow>
                Inr (case classified_findings c base_findings head_findings of
                       Inl _ \<Rightarrow> (unknown_range_member member ''differential_finding_mapping_failed''
                                  base_evidence head_evidence, [])
                     | Inr fs \<Rightarrow> (classified_range_member member c base_evidence head_evidence, fs))))"

section \<open>Suppressions\<close>

text \<open>What merging the suppression delta may raise: a validation error or a missing key.\<close>

type_synonym range_state = "(string \<times> pydict) list \<times> (string \<times> ReviewFinding list) list"

fun try_fold :: "('a \<Rightarrow> 's \<Rightarrow> 'e + 's) \<Rightarrow> 'a list \<Rightarrow> 's \<Rightarrow> 'e + 's" where
  "try_fold f [] s = Inr s"
| "try_fold f (x # xs) s = (case f x s of Inl e \<Rightarrow> Inl e | Inr s1 \<Rightarrow> try_fold f xs s1)"

definition QUARANTINED :: string where
  "QUARANTINED = ''unchanged_suppression_on_changed_file''"

definition suppression_categories :: "(string \<times> category) list" where
  "suppression_categories =
     [(''basedpyright'', TypeSafety), (''contracts'', Contracts), (''pylint'', CleanCode), (''ruff'', Style),
      (''semgrep'', Security), (''semgrep-bugs'', Security), (''targeted-pytest-coverage'', Testing)]"

definition suppression_finding_category :: "string \<Rightarrow> report_error + category" where
  "suppression_finding_category member =
     (case map_of suppression_categories member of None \<Rightarrow> Inl (Raised (KeyError member)) | Some c \<Rightarrow> Inr c)"

definition or_absent :: "string \<Rightarrow> string" where
  "or_absent digest = (if digest = [] then ''absent'' else digest)"

text \<open>The references in the order the function appends them.\<close>

definition suppression_refs :: "SuppressionFinding \<Rightarrow> EvidenceRef list" where
  "suppression_refs f =
     (let evidence = sf_evidence f; transition = sv_transition evidence
      in [\<lparr>er_path = Some (sf_path f), er_start_line = Some (sf_line f), er_end_line = Some (sf_line f),
           er_artifact_id = Some (sv_occurrence_digest evidence),
           er_description = Some (sv_family evidence @ ''; base='' @ or_absent (sv_base_blob_digest evidence)
             @ ''; head='' @ or_absent (sv_head_blob_digest evidence)
             @ ''; change='' @ sv_changed_hunk_digest evidence)\<rparr>]
         @ (if te_base_occurrence_digest transition = [] then []
            else [\<lparr>er_path = Some (te_base_path transition), er_start_line = Some (te_base_line transition),
                   er_end_line = Some (te_base_line transition),
                   er_artifact_id = Some (te_base_occurrence_digest transition),
                   er_description = Some ''Baseline suppression occurrence matched to the head transition.''\<rparr>])
         @ (if te_correspondence_digest transition = [] then []
            else [\<lparr>er_path = None, er_start_line = None, er_end_line = None,
                   er_artifact_id = Some (te_correspondence_digest transition),
                   er_description = Some (json_dumps (PDict (te_correspondence_evidence transition)))\<rparr>]))"

fun validated_refs :: "EvidenceRef list \<Rightarrow> report_error + EvidenceRef list" where
  "validated_refs [] = Inr []"
| "validated_refs (r # rs) =
     (case make_evidence_ref r of
        Inl errors \<Rightarrow> Inl (ValidationErrors errors)
      | Inr v \<Rightarrow> map_sum id (\<lambda>vs. v # vs) (validated_refs rs))"

definition suppression_evidence_refs :: "SuppressionFinding \<Rightarrow> report_error + EvidenceRef list" where
  "suppression_evidence_refs f = validated_refs (suppression_refs f)"

text \<open>\<open>ReviewFinding(...)\<close> with the default values of the fields that are not given.\<close>

definition plain_finding ::
  "category \<Rightarrow> severity \<Rightarrow> string \<Rightarrow> string \<Rightarrow> string \<Rightarrow> int \<Rightarrow> string \<Rightarrow> bool \<Rightarrow> ReviewFinding" where
  "plain_finding category severity tool rule path line message fixable =
     \<lparr>rf_category = category, rf_severity = severity, rf_tool = tool, rf_rule = rule, rf_file = path, rf_line = line,
      rf_message = message, rf_fixable = fixable, rf_status = Open, rf_differential_state = None,
      rf_autofix_available = None, rf_blocking = None, rf_execution_state = None, rf_evidence_outcome = None,
      rf_evidence_refs = None, rf_confidence = None, rf_rewrite_hint = None, rf_canonical_pattern = None,
      rf_intent_key = None, rf_estimated_deletion_lines = None, rf_related_locations = None, rf_guidance_kind = None,
      rf_recommended_action = None, rf_clean_code_principle = None, rf_rationale = None, rf_safety_checks = None,
      rf_preserve_reason = None, rf_action_status = None, rf_before_ref = None, rf_after_ref = None,
      rf_improvement = None, rf_signal_trace = None, rf_preserve_reasons = None, rf_remediation_packet = None\<rparr>"

definition suppression_review_finding :: "SuppressionFinding \<Rightarrow> string \<Rightarrow> report_error + ReviewFinding" where
  "suppression_review_finding f member =
     (case suppression_finding_category member of
        Inl e \<Rightarrow> Inl e
      | Inr category \<Rightarrow>
          (case suppression_evidence_refs f of
             Inl e \<Rightarrow> Inl e
           | Inr refs \<Rightarrow>
               (let (state, name) = (if sf_kind f = QUARANTINED then (DsUnknown, ''unknown'')
                                     else (DsIntroduced, ''introduced''));
                    message = ''C14 suppression control requires '' @ name @ '' disposition for '' @ member @ ''.''
                in map_sum ValidationErrors id
                     (make_finding ((plain_finding category SevError member (sf_kind f) (sf_path f) (sf_line f)
                        message False)
                        \<lparr>rf_differential_state := Some state, rf_blocking := Some (sf_blocking f),
                         rf_evidence_refs := Some refs\<rparr>)))))"

section \<open>Merging outcomes\<close>

definition normalized_unknown_reasons :: "pyval \<Rightarrow> string list" where
  "normalized_unknown_reasons raw =
     (case raw of
        PList reasons \<Rightarrow> [s. PStr s \<leftarrow> reasons, s \<noteq> []]
      | _ \<Rightarrow> [''invalid_required_unknown_reasons''])"

definition preexisting_unknown_reason :: "string \<Rightarrow> string \<Rightarrow> string" where
  "preexisting_unknown_reason outcome diagnostic =
     (if outcome = ''UNKNOWN'' then (if diagnostic = [] then ''preexisting_member_unknown'' else diagnostic)
      else if outcome \<notin> {''PASS'', ''FAIL'', ''NOT_APPLICABLE''} then ''untrusted_preexisting_member_outcome''
      else [])"

definition sorted_set :: "string list \<Rightarrow> string list" where
  "sorted_set xs = sorted_list_of_set (set xs)"

definition merge_member_outcome :: "pydict \<Rightarrow> string \<Rightarrow> string \<Rightarrow> pydict" where
  "merge_member_outcome evidence outcome reason =
     (let existing_outcome = outcome_of evidence;
          existing_diagnostic = py_str (dget_or evidence ''diagnostic'' (PStr []));
          diagnostics = filter (\<lambda>v. v \<noteq> []) [existing_diagnostic, reason];
          existing_unknown_reason = preexisting_unknown_reason existing_outcome existing_diagnostic;
          unknown_reasons = normalized_unknown_reasons (dget_or evidence ''required_unknown_reasons'' (PList []))
            @ (if existing_unknown_reason = [] then [] else [existing_unknown_reason])
            @ (if outcome = ''UNKNOWN'' then [reason] else []);
          merged_outcome = (if ''FAIL'' \<in> {existing_outcome, outcome} then ''FAIL'' else ''UNKNOWN'');
          merged = dset (dset (dset evidence ''evidence_outcome'' (PStr merged_outcome))
            ''diagnostic'' (PStr (py_join '';'' (sorted_set diagnostics))))
            ''disposition'' (PStr (if merged_outcome = ''FAIL'' then ''introduced'' else ''unknown''))
      in if unknown_reasons = [] then merged
         else dset merged ''required_unknown_reasons'' (PList (map PStr (sorted_set unknown_reasons))))"

definition reclassify_missing_base_findings :: "ReviewFinding list \<Rightarrow> string \<Rightarrow> report_error + ReviewFinding list" where
  "reclassify_missing_base_findings findings path =
     map_sum id rev (try_fold (\<lambda>f done_so_far.
       if rf_file f = path \<and> rf_differential_state f = Some DsFixed
       then map_sum ValidationErrors (\<lambda>g. g # done_so_far)
              (make_finding (f\<lparr>rf_blocking := None, rf_differential_state := Some DsUnknown, rf_status := Open\<rparr>))
       else Inr (f # done_so_far)) findings [])"

text \<open>The body of the inner loop of \<open>_apply_suppression_delta\<close>.\<close>

definition apply_suppression_finding ::
  "SuppressionClassification \<Rightarrow> SuppressionFinding \<Rightarrow> string \<Rightarrow> range_state \<Rightarrow> report_error + range_state" where
  "apply_suppression_finding suppression f member st =
     (let (combined, findings_by_member) = st
      in case map_of combined member of
           None \<Rightarrow> Inr st
         | Some evidence \<Rightarrow>
             (if dget evidence ''evidence_outcome'' = PStr ''NOT_APPLICABLE'' then Inr st
              else (case suppression_review_finding f member of
                      Inl e \<Rightarrow> Inl e
                    | Inr g \<Rightarrow>
                        (let state = (if sf_kind f = QUARANTINED then ''UNKNOWN'' else ''FAIL'');
                             fs = dict_push findings_by_member member g;
                             merged = AList.update member (merge_member_outcome evidence state (sf_kind f)) combined
                         in if sl_missing_base_disposition suppression = ''unknown''
                            then map_sum id (\<lambda>gs. (merged, AList.update member gs fs))
                                   (reclassify_missing_base_findings (dict_list fs member) (sf_path f))
                            else Inr (merged, fs)))))"

definition apply_suppression_delta :: "SuppressionClassification \<Rightarrow> range_state \<Rightarrow> report_error + range_state" where
  "apply_suppression_delta suppression st =
     (if sl_status suppression = DUnknown \<and> sl_findings suppression = []
      then Inr (map (\<lambda>(member, evidence).
             (member, if member \<in> set (all_ids default_pr_range_profile)
                      then merge_member_outcome evidence ''UNKNOWN''
                             (if sl_reason suppression = [] then ''suppression_manifest_unknown''
                              else sl_reason suppression)
                      else evidence)) (fst st), snd st)
      else try_fold (\<lambda>f. try_fold (apply_suppression_finding suppression f) (sv_analyzers (sf_evidence f)))
             (sl_findings suppression) st)"

section \<open>The range\<close>

record CapsuleSnapshotResult =
  cs_evidence :: "(string \<times> pydict) list"
  cs_findings_by_member :: "(string \<times> ReviewFinding list) list"

text \<open>The loop over the members of the profile; a snapshot without evidence for a member is a \<open>KeyError\<close>.\<close>

fun classify_members ::
  "(string \<Rightarrow> string) \<Rightarrow> RangeDifferentialContext \<Rightarrow> CapsuleSnapshotResult \<Rightarrow> CapsuleSnapshotResult \<Rightarrow> string list
   \<Rightarrow> py_error + (string \<times> pydict \<times> ReviewFinding list) list" where
  "classify_members sha context base head [] = Inr []"
| "classify_members sha context base head (member # members) =
     (case (map_of (cs_evidence base) member, map_of (cs_evidence head) member) of
        (Some base_evidence, Some head_evidence) \<Rightarrow>
          (case classify_range_member sha member context base_evidence head_evidence
                  (dict_list (cs_findings_by_member base) member) (dict_list (cs_findings_by_member head) member) of
             Inl e \<Rightarrow> Inl e
           | Inr r \<Rightarrow> map_sum id (\<lambda>rs. (member, r) # rs) (classify_members sha context base head members))
      | _ \<Rightarrow> Inl (KeyError member))"

definition range_suppressions ::
  "(string \<Rightarrow> string) \<Rightarrow> tokenizer \<Rightarrow> RangeDifferentialContext \<Rightarrow> CapsuleSnapshotResult
   \<Rightarrow> suppression_error + SuppressionClassification" where
  "range_suppressions sha tok context base =
     classify_suppression_delta sha tok (rc_base_sources context) (rc_head_sources context)
       (Some (rc_rename_facts context))
       (Some (map differential_finding_projection (concat (map snd (cs_findings_by_member base))))) None"

definition classify_range_findings ::
  "(string \<Rightarrow> string) \<Rightarrow> tokenizer \<Rightarrow> scope_resolution \<Rightarrow> CapsuleSnapshotResult \<Rightarrow> CapsuleSnapshotResult
   \<Rightarrow> report_error + range_state" where
  "classify_range_findings sha tok resolution base head =
     (let context = range_differential_context resolution
      in case classify_members sha context base head (all_ids default_pr_range_profile) of
           Inl e \<Rightarrow> Inl (Raised e)
         | Inr members \<Rightarrow>
             (case range_suppressions sha tok context base of
                Inl (UnsupportedWaiverInput e) \<Rightarrow> Inl (Raised (ValueError e))
              | Inr suppression \<Rightarrow>
                  apply_suppression_delta suppression
                    (map (\<lambda>(m, ev, fs). (m, ev)) members, map (\<lambda>(m, ev, fs). (m, fs)) members)))"

end
