(* ===== verification/Range_Gate.thy ===== *)
theory Range_Gate
  imports Range_Review
begin

text \<open>
  What the range review promises: the mapping back to analyzer findings always succeeds and keeps every head finding,
  and the aggregated profile passes exactly when every member passes and no suppression concerns a live member.
\<close>

section \<open>Words\<close>

lemma words_acc_append:
  "list_all (\<lambda>c. \<not> py_is_space c) w \<Longrightarrow> py_words_acc acc (w @ rest) = py_words_acc (rev w @ acc) rest"
  by (induction w arbitrary: acc) auto

lemma words_acc_parts:
  "list_all (\<lambda>c. \<not> py_is_space c) acc \<Longrightarrow>
   list_all (\<lambda>w. w \<noteq> [] \<and> list_all (\<lambda>c. \<not> py_is_space c) w) (py_words_acc acc s)"
  by (induction s arbitrary: acc) auto

lemma words_join:
  "list_all (\<lambda>w. w \<noteq> [] \<and> list_all (\<lambda>c. \<not> py_is_space c) w) ws \<Longrightarrow> py_words_acc [] (py_join '' '' ws) = ws"
proof (induction ws)
  case (Cons w ws)
  show ?case
  proof (cases ws)
    case Nil
    then show ?thesis using Cons.prems words_acc_append [of w "[]" "[]"] by simp
  next
    case (Cons v vs)
    have "py_is_space (CHR '' '')" by (simp add: py_is_space_def)
    then show ?thesis using Cons.IH Cons.prems Cons by (simp add: words_acc_append)
  qed
qed simp

lemma words_of_words: "py_words (py_join '' '' (py_words s)) = py_words s"
  using words_acc_parts [of "[]" s] by (simp add: py_words_def words_join)

section \<open>Mapping the classification back\<close>

definition differential_view :: "ReviewFinding \<Rightarrow> DifferentialFinding" where
  "differential_view f =
     \<lparr>df_analyzer = rf_tool f, df_rule = rf_rule f, df_severity = severity_name (rf_severity f), df_path = rf_file f,
      df_line = rf_line f, df_message = py_join '' '' (py_words (rf_message f)), df_blocking = is_blocking f\<rparr>"

lemma view_key [simp]: "differential_finding_key (differential_view f) = review_finding_key f"
  by (simp add: differential_view_def differential_finding_key_def review_finding_key_def words_of_words)

lemma projection_view: "finding_of (differential_finding_projection f) = Inr (differential_view f)"
  by (simp add: finding_of_def differential_finding_projection_def differential_view_def dget_or_def py_str_def Let_def)

lemma projections_view: "findings_of (map differential_finding_projection fs) = Inr (map differential_view fs)"
  by (induction fs) (simp_all add: projection_view)

lemma state_updates_valid: "wf_finding f \<Longrightarrow> revalidated (state_updates state f) = Inr (state_updates state f)"
  by (cases "rf_guidance_kind f"; cases "state = DsFixed")
    (auto simp: wf_finding_def revalidated_def state_updates_def make_finding_def Let_def finding_field_errors_def
      validate_guided_metadata_def any_guided_field_def derive_c14_lifecycle_fields_def expected_blocking_def
      split: if_splits)

definition key_count :: "differential_key \<Rightarrow> DifferentialFinding list \<Rightarrow> nat" where
  "key_count k xs = length (filter (\<lambda>x. differential_finding_key x = k) xs)"

lemma key_count_simps [simp]:
  "key_count k [] = 0" "key_count k (x # xs) = (if differential_finding_key x = k then Suc (key_count k xs) else key_count k xs)"
  by (simp_all add: key_count_def)

lemma key_count_mset: "key_count k xs = size (filter_mset (\<lambda>x. differential_finding_key x = k) (mset xs))"
  by (simp add: key_count_def flip: mset_filter)

definition keyed_findings :: "candidates \<Rightarrow> bool" where
  "keyed_findings d = (\<forall>k. \<forall>f \<in> set (dict_list d k). review_finding_key f = k \<and> wf_finding f)"

lemma keyed_head: "keyed_findings d \<Longrightarrow> dict_list d k = f # fs \<Longrightarrow> review_finding_key f = k \<and> wf_finding f"
  unfolding keyed_findings_def by (metis list.set_intros(1))

lemma dict_list_update: "dict_list (AList.update k v d) k' = (if k' = k then v else dict_list d k')"
  by (simp add: dict_list_def update_conv')

lemma keyed_update: "keyed_findings d \<Longrightarrow> set v \<subseteq> set (dict_list d k) \<Longrightarrow> keyed_findings (AList.update k v d)"
  by (auto simp: keyed_findings_def dict_list_update)

lemma classified_in_state_exact:
  assumes "keyed_findings P" and "keyed_findings Q"
    and "\<And>k. key_count k xs \<le> length (dict_list P k) + length (dict_list Q k)"
  shows "\<exists>originals P' Q'. classified_in_state state xs (P, Q) = Inr (map (state_updates state) originals, P', Q')
    \<and> keyed_findings P' \<and> keyed_findings Q'
    \<and> (\<forall>k. filter (\<lambda>f. review_finding_key f = k) originals = take (key_count k xs) (dict_list P k @ dict_list Q k))
    \<and> (\<forall>k. dict_list P' k = drop (key_count k xs) (dict_list P k))
    \<and> (\<forall>k. dict_list Q' k = drop (key_count k xs - length (dict_list P k)) (dict_list Q k))"
  using assms
proof (induction xs arbitrary: P Q)
  case Nil
  then show ?case by (intro exI [of _ "[]"] exI [of _ P] exI [of _ Q]) simp
next
  case (Cons x xs)
  let ?k = "differential_finding_key x"
  show ?case
  proof (cases "dict_list P ?k")
    case Nil
    then obtain f fs where q: "dict_list Q ?k = f # fs"
      using Cons.prems(3) [of ?k] by (cases "dict_list Q ?k") auto
    let ?Q = "AList.update ?k fs Q"
    have f: "review_finding_key f = ?k" "wf_finding f" using keyed_head [OF Cons.prems(2) q] by auto
    have kQ: "keyed_findings ?Q" using Cons.prems(2) q by (auto intro: keyed_update)
    have le: "key_count k xs \<le> length (dict_list P k) + length (dict_list ?Q k)" for k
      using Cons.prems(3) [of k] Nil q by (auto simp: dict_list_update split: if_splits)
    obtain originals P' Q' where ih: "classified_in_state state xs (P, ?Q) = Inr (map (state_updates state) originals, P', Q')"
      "keyed_findings P'" "keyed_findings Q'"
      "\<And>k. filter (\<lambda>f. review_finding_key f = k) originals = take (key_count k xs) (dict_list P k @ dict_list ?Q k)"
      "\<And>k. dict_list P' k = drop (key_count k xs) (dict_list P k)"
      "\<And>k. dict_list Q' k = drop (key_count k xs - length (dict_list P k)) (dict_list ?Q k)"
      using Cons.IH [OF Cons.prems(1) kQ le] by blast
    have "classified_in_state state (x # xs) (P, Q) = Inr (map (state_updates state) (f # originals), P', Q')"
      using Nil q f by (simp add: pop_candidate_def state_updates_valid ih(1))
    moreover have "filter (\<lambda>g. review_finding_key g = k) (f # originals)
        = take (key_count k (x # xs)) (dict_list P k @ dict_list Q k)" for k
      using ih(4) [of k] f Nil q by (cases "k = ?k") (auto simp: dict_list_update)
    moreover have "dict_list P' k = drop (key_count k (x # xs)) (dict_list P k)" for k
      using ih(5) [of k] Nil by (cases "k = ?k") auto
    moreover have "dict_list Q' k = drop (key_count k (x # xs) - length (dict_list P k)) (dict_list Q k)" for k
      using ih(6) [of k] Nil q by (cases "k = ?k") (auto simp: dict_list_update)
    ultimately show ?thesis using ih(2,3) by blast
  next
    case p: (Cons f fs)
    let ?P = "AList.update ?k fs P"
    have f: "review_finding_key f = ?k" "wf_finding f" using keyed_head [OF Cons.prems(1) p] by auto
    have kP: "keyed_findings ?P" using Cons.prems(1) p by (auto intro: keyed_update)
    have le: "key_count k xs \<le> length (dict_list ?P k) + length (dict_list Q k)" for k
      using Cons.prems(3) [of k] p by (auto simp: dict_list_update split: if_splits)
    obtain originals P' Q' where ih: "classified_in_state state xs (?P, Q) = Inr (map (state_updates state) originals, P', Q')"
      "keyed_findings P'" "keyed_findings Q'"
      "\<And>k. filter (\<lambda>f. review_finding_key f = k) originals = take (key_count k xs) (dict_list ?P k @ dict_list Q k)"
      "\<And>k. dict_list P' k = drop (key_count k xs) (dict_list ?P k)"
      "\<And>k. dict_list Q' k = drop (key_count k xs - length (dict_list ?P k)) (dict_list Q k)"
      using Cons.IH [OF kP Cons.prems(2) le] by blast
    have "classified_in_state state (x # xs) (P, Q) = Inr (map (state_updates state) (f # originals), P', Q')"
      using p f by (simp add: pop_candidate_def state_updates_valid ih(1))
    moreover have "filter (\<lambda>g. review_finding_key g = k) (f # originals)
        = take (key_count k (x # xs)) (dict_list P k @ dict_list Q k)" for k
      using ih(4) [of k] f p by (cases "k = ?k") (auto simp: dict_list_update)
    moreover have "dict_list P' k = drop (key_count k (x # xs)) (dict_list P k)" for k
      using ih(5) [of k] p by (cases "k = ?k") (auto simp: dict_list_update)
    moreover have "dict_list Q' k = drop (key_count k (x # xs) - length (dict_list P k)) (dict_list Q k)" for k
      using ih(6) [of k] p by (cases "k = ?k") (auto simp: dict_list_update)
    ultimately show ?thesis using ih(2,3) by blast
  qed
qed

lemma classified_in_state_preferred:
  assumes "keyed_findings P" and "keyed_findings Q" and le: "\<And>k. key_count k xs \<le> length (dict_list P k)"
  obtains originals P' Q' where
    "classified_in_state state xs (P, Q) = Inr (map (state_updates state) originals, P', Q')"
    "keyed_findings P'" "keyed_findings Q'"
    "\<And>k. filter (\<lambda>f. review_finding_key f = k) originals = take (key_count k xs) (dict_list P k)"
    "\<And>k. dict_list P' k = drop (key_count k xs) (dict_list P k)" "\<And>k. dict_list Q' k = dict_list Q k"
proof -
  obtain originals P' Q' where *:
    "classified_in_state state xs (P, Q) = Inr (map (state_updates state) originals, P', Q')"
    "keyed_findings P'" "keyed_findings Q'"
    "\<And>k. filter (\<lambda>f. review_finding_key f = k) originals = take (key_count k xs) (dict_list P k @ dict_list Q k)"
    "\<And>k. dict_list P' k = drop (key_count k xs) (dict_list P k)"
    "\<And>k. dict_list Q' k = drop (key_count k xs - length (dict_list P k)) (dict_list Q k)"
    using classified_in_state_exact [OF assms(1,2) trans_le_add1 [OF le], of state] by blast
  show ?thesis by (rule that [OF *(1,2,3) _ *(5)]) (use le * in simp_all)
qed

lemma keyed_by_key:
  "list_all wf_finding fs \<Longrightarrow> keyed_findings (findings_by_key fs)"
  unfolding keyed_findings_def findings_by_key_def dict_list_group by (auto simp: list_all_iff)

lemma by_key_list: "dict_list (findings_by_key fs) k = filter (\<lambda>f. review_finding_key f = k) fs"
  by (simp add: findings_by_key_def dict_list_group)

lemma key_count_views: "key_count k (map differential_view fs) = length (filter (\<lambda>f. review_finding_key f = k) fs)"
  by (induction fs) auto

text \<open>Multisets that agree key by key.\<close>

lemma subseteq_by_key:
  assumes "\<And>k. filter_mset (\<lambda>x. g x = k) X \<subseteq># filter_mset (\<lambda>x. g x = k) Y"
  shows "X \<subseteq># Y"
proof (rule mset_subset_eqI)
  fix a
  have "count (filter_mset (\<lambda>x. g x = g a) X) a \<le> count (filter_mset (\<lambda>x. g x = g a) Y) a"
    using assms [of "g a"] by (rule mset_subset_eq_count)
  then show "count X a \<le> count Y a" by simp
qed

lemma mset_take_drop: "mset (take n xs) + mset (drop n xs) = mset xs"
  by (metis append_take_drop_id mset_append)

lemma mset_take_take: "mset (take a xs) + mset (take b (drop a xs)) = mset (take (a + b) xs)"
  by (simp add: take_add)

lemma filter_diff_mset: "filter_mset P (A - B) = filter_mset P A - filter_mset P B"
  by (rule multiset_eqI) simp

lemma mset_drop_diff: "mset xs - mset (take n xs) = mset (drop n xs)"
  by (metis add_diff_cancel_left' mset_take_drop)

text \<open>The accounting of the differential for a request whose base analysis passed, early answers included.\<close>

lemma values_account:
  assumes "fr_base_analysis_status req = ''pass''" and "c = classify_values sha req bs hs"
  obtains U W where "mset (dc_unknown c) = U + W" "mset (dc_introduced c) + mset (dc_unchanged c) + U = mset hs"
    "mset (dc_fixed c) + W \<subseteq># mset bs"
proof (cases "early_classification sha req bs hs initial_state")
  case None
  then have "c = final_classification sha (classified_state sha req bs hs)"
    using assms(2) by (simp add: classify_values_def classified_state_def split_beta)
  with accounted_all [of sha req bs hs] that show ?thesis by (auto simp: accounted_def)
next
  case (Some r)
  then have c: "dc_introduced c = []" "dc_unchanged c = []" "dc_fixed c = []"
    "dc_unknown c = (if hs \<noteq> [] then hs else bs)"
    using assms
    by (auto simp: classify_values_def early_classification_def classification_with_reason_def initial_state_def Let_def
        split: if_splits)
  show ?thesis
    by (rule that [of "mset hs" "if hs = [] then mset bs else {#}"]) (simp_all add: c)
qed

definition tagged :: "differential_state \<Rightarrow> ReviewFinding multiset \<Rightarrow> DifferentialFinding list \<Rightarrow> bool" where
  "tagged state M xs = (image_mset review_finding_key M = image_mset differential_finding_key (mset xs))"

lemma count_image_list: "count (image_mset h (mset ys)) k = length (filter (\<lambda>y. h y = k) ys)"
  by (induction ys) auto

lemma taggedI:
  assumes "\<And>k. length (filter (\<lambda>f. review_finding_key f = k) fs) = key_count k xs"
  shows "tagged state (mset fs) xs"
  unfolding tagged_def
  using assms by (intro multiset_eqI) (simp add: count_image_list key_count_def)

text \<open>The classified findings are the head findings, each once, and base findings, each at most once.\<close>

definition mapped_back ::
  "DifferentialClassification \<Rightarrow> ReviewFinding list \<Rightarrow> ReviewFinding list \<Rightarrow> ReviewFinding list \<Rightarrow> bool" where
  "mapped_back c base head fs =
     (\<exists>I C F U W. mset fs = image_mset (state_updates DsIntroduced) I + image_mset (state_updates DsUnchanged) C
          + image_mset (state_updates DsFixed) F + image_mset (state_updates DsUnknown) (U + W)
        \<and> I + C + U = mset head \<and> F + W \<subseteq># mset base
        \<and> tagged DsIntroduced I (dc_introduced c) \<and> tagged DsUnchanged C (dc_unchanged c)
        \<and> tagged DsFixed F (dc_fixed c) \<and> tagged DsUnknown (U + W) (dc_unknown c))"

lemma classified_findings_runs:
  fixes base head :: "ReviewFinding list"
  defines "H \<equiv> \<lambda>k. filter (\<lambda>f. review_finding_key f = k) head"
    and "B \<equiv> \<lambda>k. filter (\<lambda>f. review_finding_key f = k) base"
  assumes wf: "list_all wf_finding base" "list_all wf_finding head"
    and nh: "\<And>k. key_count k (dc_introduced c) + key_count k (dc_unchanged c) + u k = length (H k)"
    and nb: "\<And>k. key_count k (dc_fixed c) + w k \<le> length (B k)"
    and nu: "\<And>k. key_count k (dc_unknown c) = u k + w k"
  obtains oi oc ox ou where
    "classified_findings c base head = Inr (map (state_updates DsIntroduced) oi
       @ map (state_updates DsUnchanged) oc @ map (state_updates DsFixed) ox @ map (state_updates DsUnknown) ou)"
    "\<And>k. filter (\<lambda>f. review_finding_key f = k) oi = take (key_count k (dc_introduced c)) (H k)"
    "\<And>k. filter (\<lambda>f. review_finding_key f = k) oc
       = take (key_count k (dc_unchanged c)) (drop (key_count k (dc_introduced c)) (H k))"
    "\<And>k. filter (\<lambda>f. review_finding_key f = k) ox = take (key_count k (dc_fixed c)) (B k)"
    "\<And>k. filter (\<lambda>f. review_finding_key f = k) ou
       = drop (key_count k (dc_introduced c) + key_count k (dc_unchanged c)) (H k)
         @ take (w k) (drop (key_count k (dc_fixed c)) (B k))"
proof -
  let ?sel = "\<lambda>k. filter (\<lambda>f. review_finding_key f = k)"
  let ?i = "\<lambda>k. key_count k (dc_introduced c)" let ?c = "\<lambda>k. key_count k (dc_unchanged c)"
  let ?f = "\<lambda>k. key_count k (dc_fixed c)" let ?u = "\<lambda>k. key_count k (dc_unknown c)"
  have by_key: "dict_list (findings_by_key head) k = H k" "dict_list (findings_by_key base) k = B k" for k
    by (simp_all add: by_key_list H_def B_def)
  note keyed = keyed_by_key [OF wf(1)] keyed_by_key [OF wf(2)]
  have le1: "?i k \<le> length (H k)" for k using nh [of k] by (simp add: by_key)
  obtain oi h1 b1 where one:
    "classified_in_state DsIntroduced (dc_introduced c) (findings_by_key head, findings_by_key base)
       = Inr (map (state_updates DsIntroduced) oi, h1, b1)" "keyed_findings h1" "keyed_findings b1"
    "\<And>k. ?sel k oi = take (?i k) (H k)"
    "\<And>k. dict_list h1 k = drop (?i k) (H k)"
    "\<And>k. dict_list b1 k = B k"
    by (rule classified_in_state_preferred [OF keyed(2,1), of "dc_introduced c" DsIntroduced, unfolded by_key, OF le1])
      (rule that)
  have le2: "?c k \<le> length (dict_list h1 k)" for k using nh [of k] by (simp add: one(5) by_key)
  obtain oc h2 b2 where two: "classified_in_state DsUnchanged (dc_unchanged c) (h1, b1)
       = Inr (map (state_updates DsUnchanged) oc, h2, b2)" "keyed_findings h2" "keyed_findings b2"
    "\<And>k. ?sel k oc = take (?c k) (dict_list h1 k)" "\<And>k. dict_list h2 k = drop (?c k) (dict_list h1 k)"
    "\<And>k. dict_list b2 k = dict_list b1 k"
    by (rule classified_in_state_preferred [OF one(2,3) le2, where state = DsUnchanged]) (rule that)
  have le3: "?f k \<le> length (dict_list b2 k)" for k using nb [of k] by (simp add: one(6) two(6) by_key)
  obtain ox b3 h3 where three: "classified_in_state DsFixed (dc_fixed c) (b2, h2)
       = Inr (map (state_updates DsFixed) ox, b3, h3)" "keyed_findings b3" "keyed_findings h3"
    "\<And>k. ?sel k ox = take (?f k) (dict_list b2 k)" "\<And>k. dict_list b3 k = drop (?f k) (dict_list b2 k)"
    "\<And>k. dict_list h3 k = dict_list h2 k"
    by (rule classified_in_state_preferred [OF two(3,2) le3, where state = DsFixed]) (rule that)
  have h3: "dict_list h3 k = drop (?i k + ?c k) (H k)" and b3: "dict_list b3 k = drop (?f k) (B k)" for k
    by (simp_all add: one(5,6) two(5,6) three(5,6) by_key add.commute)
  have le4: "?u k \<le> length (dict_list h3 k) + length (dict_list b3 k)" for k
    using nh [of k] nb [of k] by (simp add: nu h3 b3)
  obtain ou h4 b4 where four: "classified_in_state DsUnknown (dc_unknown c) (h3, b3)
       = Inr (map (state_updates DsUnknown) ou, h4, b4)"
    "\<And>k. ?sel k ou = take (?u k) (dict_list h3 k @ dict_list b3 k)"
    using classified_in_state_exact [OF three(3,2) le4, of DsUnknown] by blast
  have ou: "?sel k ou = drop (?i k + ?c k) (H k) @ take (w k) (drop (?f k) (B k))" for k
  proof -
    have "length (dict_list h3 k) = u k" using nh [of k] by (simp add: h3)
    then have "take (?u k) (dict_list h3 k @ dict_list b3 k) = dict_list h3 k @ take (w k) (dict_list b3 k)"
      by (simp add: nu)
    then show ?thesis by (simp only: four(2) h3 b3)
  qed
  show ?thesis
    by (rule that [of oi oc ox ou])
      (simp_all add: classified_findings_def one two(1,4,6) three(1,4) four(1) ou)
qed

lemma tagged_take:
  assumes "\<And>k. filter (\<lambda>f. review_finding_key f = k) fs = take (key_count k xs) (L k)"
    and "\<And>k. key_count k xs \<le> length (L k)"
  shows "tagged state (mset fs) xs"
  by (rule taggedI) (use assms in \<open>simp del: split_paired_All\<close>)

lemma mapping_conserves:
  assumes "list_all wf_finding base" and "list_all wf_finding head"
    and unknown: "mset (dc_unknown c) = U + W"
    and heads: "mset (dc_introduced c) + mset (dc_unchanged c) + U = mset (map differential_view head)"
    and bases: "mset (dc_fixed c) + W \<subseteq># mset (map differential_view base)"
  shows "\<exists>fs. classified_findings c base head = Inr fs \<and> mapped_back c base head fs"
proof -
  let ?sel = "\<lambda>k. filter (\<lambda>f. review_finding_key f = k)"
  let ?H = "\<lambda>k. ?sel k head" let ?B = "\<lambda>k. ?sel k base"
  let ?i = "\<lambda>k. key_count k (dc_introduced c)" let ?c = "\<lambda>k. key_count k (dc_unchanged c)"
  let ?f = "\<lambda>k. key_count k (dc_fixed c)" let ?u = "\<lambda>k. key_count k (dc_unknown c)"
  let ?size = "\<lambda>k M. size (filter_mset (\<lambda>x. differential_finding_key x = k) M)"
  have nh: "?i k + ?c k + ?size k U = length (?H k)" for k
    using arg_cong [OF heads, of "?size k"] by (simp add: key_count_mset flip: key_count_views)
  have nb: "?f k + ?size k W \<le> length (?B k)" for k
  proof -
    have "?size k (mset (dc_fixed c) + W) \<le> ?size k (mset (map differential_view base))"
      using bases by (intro size_mset_mono multiset_filter_mono)
    then show ?thesis by (simp add: key_count_mset flip: key_count_views)
  qed
  have nu: "?u k = ?size k U + ?size k W" for k by (simp add: key_count_mset unknown)
  obtain oi oc ox ou where run:
    "classified_findings c base head = Inr (map (state_updates DsIntroduced) oi
       @ map (state_updates DsUnchanged) oc @ map (state_updates DsFixed) ox @ map (state_updates DsUnknown) ou)"
    and oi: "\<And>k. ?sel k oi = take (?i k) (?H k)" and oc: "\<And>k. ?sel k oc = take (?c k) (drop (?i k) (?H k))"
    and ox: "\<And>k. ?sel k ox = take (?f k) (?B k)"
    and ou: "\<And>k. ?sel k ou = drop (?i k + ?c k) (?H k) @ take (?size k W) (drop (?f k) (?B k))"
    by (rule classified_findings_runs [OF assms(1,2) nh nb nu]) (rule that)
  let ?I = "mset oi" let ?C = "mset oc" let ?F = "mset ox"
  let ?U = "mset head - (?I + ?C)" let ?W = "mset ou - ?U"
  have ic: "filter_mset (\<lambda>f. review_finding_key f = k) (?I + ?C) = mset (take (?i k + ?c k) (?H k))" for k
    by (simp add: oi oc mset_take_take flip: mset_filter)
  have fu: "filter_mset (\<lambda>f. review_finding_key f = k) ?U = mset (drop (?i k + ?c k) (?H k))" for k
    unfolding filter_diff_mset ic by (simp add: mset_drop_diff flip: mset_filter)
  have fw: "filter_mset (\<lambda>f. review_finding_key f = k) ?W = mset (take (?size k W) (drop (?f k) (?B k)))" for k
    unfolding filter_diff_mset [of _ "mset ou"] fu by (simp add: ou flip: mset_filter)
  have s1: "?I + ?C \<subseteq># mset head"
    by (rule subseteq_by_key [where g = review_finding_key]) (unfold ic, metis mset_filter mset_subset_eq_add_left mset_take_drop)
  have s2: "?U \<subseteq># mset ou"
    by (rule subseteq_by_key [where g = review_finding_key]) (unfold fu, simp add: ou flip: mset_filter)
  have s3: "?F + ?W \<subseteq># mset base"
  proof (rule subseteq_by_key [where g = review_finding_key])
    fix k
    have "filter_mset (\<lambda>f. review_finding_key f = k) (?F + ?W) = mset (take (?f k + ?size k W) (?B k))"
      unfolding filter_union_mset fw by (simp add: ox mset_take_take flip: mset_filter)
    then show "filter_mset (\<lambda>f. review_finding_key f = k) (?F + ?W) \<subseteq># filter_mset (\<lambda>f. review_finding_key f = k) (mset base)"
      by (metis mset_filter mset_subset_eq_add_left mset_take_drop)
  qed
  have le: "?i k \<le> length (?H k)" "?c k \<le> length (drop (?i k) (?H k))" "?f k \<le> length (?B k)" for k
    unfolding length_drop using nh [of k] nb [of k] by linarith+
  note t1 = tagged_take [OF oi le(1), of DsIntroduced] and t2 = tagged_take [OF oc le(2), of DsUnchanged]
    and t3 = tagged_take [OF ox le(3), of DsFixed]
  have t4: "tagged DsUnknown (mset ou) (dc_unknown c)"
  proof (rule taggedI)
    fix k
    show "length (?sel k ou) = ?u k" unfolding ou length_append length_take length_drop nu
      using nh [of k] nb [of k] by linarith
  qed
  have u: "?I + ?C + ?U = mset head" using s1 by (rule subset_mset.add_diff_inverse)
  have w: "?U + ?W = mset ou" using s2 by (rule subset_mset.add_diff_inverse)
  have "mapped_back c base head (map (state_updates DsIntroduced) oi @ map (state_updates DsUnchanged) oc
      @ map (state_updates DsFixed) ox @ map (state_updates DsUnknown) ou)"
    unfolding mapped_back_def
    by (rule exI [of _ ?I], rule exI [of _ ?C], rule exI [of _ ?F], rule exI [of _ ?U], rule exI [of _ ?W], intro conjI)
      (simp add: w add.assoc, rule u, rule s3, rule t1, rule t2, rule t3, simp only: w t4)
  with run show ?thesis by blast
qed

section \<open>One member\<close>

lemma range_request_values:
  obtains c where "classify_findings sha (range_request context bf hf) = Inr c"
    "c = classify_values sha (range_request context bf hf) (map differential_view bf) (map differential_view hf)"
  by (simp add: classify_findings_def range_request_def projections_view)

lemma consistent_member:
  assumes "list_all wf_finding bf" and "list_all wf_finding hf" and "\<not> both_not_applicable be he"
    and "member_snapshot_is_consistent be bf" and "member_snapshot_is_consistent he hf"
  obtains c fs where "classify_findings sha (range_request context bf hf) = Inr c"
    "classify_range_member sha m context be he bf hf = Inr (classified_range_member m c be he, fs)"
    "mapped_back c bf hf fs"
proof -
  let ?req = "range_request context bf hf"
  obtain c where c: "classify_findings sha ?req = Inr c"
    "c = classify_values sha ?req (map differential_view bf) (map differential_view hf)"
    by (rule range_request_values)
  obtain U W where "mset (dc_unknown c) = U + W"
    "mset (dc_introduced c) + mset (dc_unchanged c) + U = mset (map differential_view hf)"
    "mset (dc_fixed c) + W \<subseteq># mset (map differential_view bf)"
    by (rule values_account [OF _ c(2)]) (simp_all add: range_request_def)
  then obtain fs where fs: "classified_findings c bf hf = Inr fs" "mapped_back c bf hf fs"
    using mapping_conserves [OF assms(1,2)] by blast
  show ?thesis
    by (rule that [OF c(1) _ fs(2)]) (use assms c(1) fs(1) in \<open>simp add: classify_range_member_def\<close>)
qed

lemmas member_evidence_defs = not_applicable_range_member_def unknown_range_member_def classified_range_member_def

definition member_passes ::
  "(string \<Rightarrow> string) \<Rightarrow> RangeDifferentialContext \<Rightarrow> pydict \<Rightarrow> pydict \<Rightarrow> ReviewFinding list \<Rightarrow> ReviewFinding list \<Rightarrow> bool" where
  "member_passes sha context be he bf hf =
     (both_not_applicable be he
      \<or> member_snapshot_is_consistent be bf \<and> member_snapshot_is_consistent he hf
        \<and> (\<exists>c. classify_findings sha (range_request context bf hf) = Inr c \<and> dc_status c = DPass))"

text \<open>What the later steps rely on in the evidence of a classified member.\<close>

definition evidence_passes :: "string \<Rightarrow> pydict \<Rightarrow> bool" where
  "evidence_passes m ev =
     (py_str (dget_or ev ''execution_state'' (PStr ''error'')) \<noteq> ''error''
      \<and> py_str (dget_or ev ''version'' (PStr [])) = c14_version m
      \<and> outcome_of ev \<noteq> ''UNKNOWN'' \<and> outcome_of ev \<noteq> ''FAIL''
      \<and> \<not> has_required_unknown_reasons (dget_or ev ''required_unknown_reasons'' (PList [])))"

lemma outcome_neq [simp]: "outcome_of_status x = ''NOT_APPLICABLE'' \<longleftrightarrow> False"
  "outcome_of_status x = ''UNKNOWN'' \<longleftrightarrow> x = DUnknown" "outcome_of_status x = ''FAIL'' \<longleftrightarrow> x = DFail"
  by (cases x; simp)+

lemma classified_member:
  assumes "list_all wf_finding bf" and "list_all wf_finding hf"
    and run: "classify_range_member sha m context be he bf hf = Inr (ev, fs)"
  shows "evidence_passes m ev \<longleftrightarrow> member_passes sha context be he bf hf"
    and "dget ev ''evidence_outcome'' = PStr ''NOT_APPLICABLE'' \<longleftrightarrow> both_not_applicable be he"
proof -
  consider (na) "both_not_applicable be he"
    | (bad) "\<not> both_not_applicable be he"
        "\<not> (member_snapshot_is_consistent be bf \<and> member_snapshot_is_consistent he hf)"
    | (ok) "\<not> both_not_applicable be he" "member_snapshot_is_consistent be bf" "member_snapshot_is_consistent he hf"
    by blast
  then have "(evidence_passes m ev \<longleftrightarrow> member_passes sha context be he bf hf)
      \<and> (dget ev ''evidence_outcome'' = PStr ''NOT_APPLICABLE'' \<longleftrightarrow> both_not_applicable be he)"
  proof cases
    case na
    then have "ev = not_applicable_range_member m be he" using run by (simp add: classify_range_member_def)
    with na show ?thesis
      by (simp add: member_passes_def evidence_passes_def member_evidence_defs outcome_of_def dget_or_def dget_def py_str_def
          has_required_unknown_reasons_def)
  next
    case bad
    then have "ev = unknown_range_member m ''snapshot_member_incomplete'' be he"
      using run by (simp add: classify_range_member_def)
    with bad show ?thesis
      by (auto simp: member_passes_def evidence_passes_def member_evidence_defs outcome_of_def dget_or_def dget_def py_str_def)
  next
    case ok
    obtain c fs' where c: "classify_findings sha (range_request context bf hf) = Inr c"
      "classify_range_member sha m context be he bf hf = Inr (classified_range_member m c be he, fs')"
      by (rule consistent_member [OF assms(1,2) ok])
    have "ev = classified_range_member m c be he" using c(2) run by simp
    moreover have "dc_status c = DPass \<longleftrightarrow> dc_status c \<noteq> DUnknown \<and> dc_status c \<noteq> DFail" by (cases "dc_status c") simp_all
    ultimately show ?thesis using ok c(1)
      by (simp add: member_passes_def evidence_passes_def member_evidence_defs outcome_of_def dget_or_def dget_def py_str_def
          has_required_unknown_reasons_def Let_def)
  qed
  then show "evidence_passes m ev \<longleftrightarrow> member_passes sha context be he bf hf"
    and "dget ev ''evidence_outcome'' = PStr ''NOT_APPLICABLE'' \<longleftrightarrow> both_not_applicable be he" by blast+
qed

section \<open>Merging suppressions\<close>

lemma dget_dset: "dget (dset d k v) k' = (if k' = k then v else dget d k')"
  by (simp add: dget_def dset_def update_conv')

lemma dget_or_dset: "dget_or (dset d k v) k' v0 = (if k' = k then v else dget_or d k' v0)"
  by (simp add: dget_or_def dset_def update_conv')

definition spoiled :: "pydict \<Rightarrow> bool" where
  "spoiled ev = (dget ev ''evidence_outcome'' \<in> {PStr ''FAIL'', PStr ''UNKNOWN''})"

lemma merge_spoils: "spoiled (merge_member_outcome ev outcome reason)"
  by (simp add: spoiled_def merge_member_outcome_def Let_def dget_dset)

lemma spoiled_live: "spoiled ev \<Longrightarrow> dget ev ''evidence_outcome'' \<noteq> PStr ''NOT_APPLICABLE''"
  by (auto simp: spoiled_def)

lemma dget_dget_or: "dget d k \<noteq> PNone \<Longrightarrow> dget_or d k v0 = dget d k"
  by (simp add: dget_def dget_or_def split: option.splits)

lemma spoiled_fails: "spoiled ev \<Longrightarrow> \<not> evidence_passes m ev"
  using dget_dget_or [of ev "''evidence_outcome''" "PStr ''UNKNOWN''"]
  by (auto simp: spoiled_def evidence_passes_def outcome_of_def py_str_def)

lemma apply_finding_at:
  assumes "apply_suppression_finding r f m st = Inr st'"
  shows "map_of (fst st') m' = (case map_of (fst st) m' of
      None \<Rightarrow> None
    | Some ev \<Rightarrow> (if m' = m \<and> dget ev ''evidence_outcome'' \<noteq> PStr ''NOT_APPLICABLE''
                 then Some (merge_member_outcome ev (if sf_kind f = QUARANTINED then ''UNKNOWN'' else ''FAIL'') (sf_kind f))
                 else Some ev))"
  using assms
  by (cases st) (auto simp: apply_suppression_finding_def Let_def update_conv' map_sum_Inr_iff
      split: option.splits if_splits sum.splits)

lemma try_fold_append:
  "try_fold g (xs @ ys) s = (case try_fold g xs s of Inl e \<Rightarrow> Inl e | Inr s1 \<Rightarrow> try_fold g ys s1)"
  by (induction xs arbitrary: s) (auto split: sum.splits)

lemma try_fold_Pair: "try_fold (\<lambda>(f, m). g f m) (map (Pair f) ms) s = try_fold (g f) ms s"
  by (induction ms arbitrary: s) (auto split: sum.splits)

lemma try_fold_nested:
  "try_fold (\<lambda>f. try_fold (g f) (h f)) fs st = try_fold (\<lambda>(f, m). g f m) (concat (map (\<lambda>f. map (Pair f) (h f)) fs)) st"
  by (induction fs arbitrary: st) (auto simp: try_fold_append try_fold_Pair split: sum.splits)

lemma apply_findings_at:
  assumes "try_fold (\<lambda>(f, m). apply_suppression_finding r f m) ps st = Inr st'" and "map_of (fst st) m = Some ev"
  shows "\<exists>ev'. map_of (fst st') m = Some ev'
    \<and> (if m \<in> snd ` set ps \<and> dget ev ''evidence_outcome'' \<noteq> PStr ''NOT_APPLICABLE'' then spoiled ev' else ev' = ev)"
  using assms
proof (induction ps arbitrary: st ev)
  case (Cons p ps)
  obtain f m0 where p: "p = (f, m0)" by (cases p)
  obtain st1 where st1: "apply_suppression_finding r f m0 st = Inr st1"
    "try_fold (\<lambda>(f, m). apply_suppression_finding r f m) ps st1 = Inr st'"
    using Cons.prems(1) p by (auto split: sum.splits)
  show ?case
  proof (cases "m = m0 \<and> dget ev ''evidence_outcome'' \<noteq> PStr ''NOT_APPLICABLE''")
    case True
    then obtain ev1 where ev1: "map_of (fst st1) m = Some ev1" "spoiled ev1"
      using apply_finding_at [OF st1(1), of m] Cons.prems(2) merge_spoils by auto
    from Cons.IH [OF st1(2) ev1(1)] ev1(2) spoiled_live [OF ev1(2)] True p show ?thesis by (auto split: if_splits)
  next
    case False
    then have "map_of (fst st1) m = Some ev" using apply_finding_at [OF st1(1), of m] Cons.prems(2) by auto
    moreover have "(m \<in> snd ` set (p # ps) \<and> dget ev ''evidence_outcome'' \<noteq> PStr ''NOT_APPLICABLE'')
        = (m \<in> snd ` set ps \<and> dget ev ''evidence_outcome'' \<noteq> PStr ''NOT_APPLICABLE'')" using False p by auto
    ultimately show ?thesis using Cons.IH [OF st1(2)] by (simp only:)
  qed
qed simp

lemma map_of_map_pairs: "map_of d k = Some v \<Longrightarrow> map_of (map (\<lambda>(k, v). (k, g k v)) d) k = Some (g k v)"
  by (induction d) auto

lemma apply_delta_at:
  assumes "apply_suppression_delta r st = Inr st'" and "map_of (fst st) m = Some ev"
    and "m \<in> set (all_ids default_pr_range_profile)"
  obtains ev' where "map_of (fst st') m = Some ev'"
    "if sl_status r = DUnknown \<and> sl_findings r = []
        \<or> (\<exists>f \<in> set (sl_findings r). m \<in> set (sv_analyzers (sf_evidence f)))
          \<and> dget ev ''evidence_outcome'' \<noteq> PStr ''NOT_APPLICABLE''
     then spoiled ev' else ev' = ev"
proof (cases "sl_status r = DUnknown \<and> sl_findings r = []")
  case True
  let ?g = "\<lambda>k ev. if k \<in> set (all_ids default_pr_range_profile)
    then merge_member_outcome ev ''UNKNOWN'' (if sl_reason r = [] then ''suppression_manifest_unknown'' else sl_reason r) else ev"
  have "fst st' = map (\<lambda>(k, ev). (k, ?g k ev)) (fst st)" using assms(1) True by (auto simp: apply_suppression_delta_def)
  then have "map_of (fst st') m = Some (?g m ev)" using map_of_map_pairs [OF assms(2), of ?g] by simp
  with that True assms(3) merge_spoils show ?thesis by auto
next
  case False
  let ?ps = "concat (map (\<lambda>f. map (Pair f) (sv_analyzers (sf_evidence f))) (sl_findings r))"
  have "try_fold (\<lambda>(f, m). apply_suppression_finding r f m) ?ps st = Inr st'"
    using assms(1) False by (auto simp: apply_suppression_delta_def try_fold_nested)
  moreover have "m \<in> snd ` set ?ps \<longleftrightarrow> (\<exists>f \<in> set (sl_findings r). m \<in> set (sv_analyzers (sf_evidence f)))" by force
  ultimately show ?thesis using apply_findings_at [OF _ assms(2)] that False by (metis (no_types, lifting))
qed

section \<open>Aggregation\<close>

lemma profile_ids: "all_ids default_pr_range_profile = PR_RANGE_ANALYZERS"
  by (simp add: all_ids_def default_pr_range_profile_def PR_RANGE_ANALYZERS_def)

lemma default_versions_valid:
  "valid_expected_versions C14_ANALYZER_VERSIONS"
  "m \<in> set PR_RANGE_ANALYZERS \<Longrightarrow> map_of C14_ANALYZER_VERSIONS m = Some (c14_version m)"
  by (auto simp: valid_expected_versions_def profile_ids C14_ANALYZER_VERSIONS_def c14_version_def PR_RANGE_ANALYZERS_def
      PR_RANGE_REQUIRED_ANALYZERS_def PR_RANGE_CONDITIONAL_ANALYZERS_def)

lemma aggregate_passes_iff:
  assumes "\<And>m. m \<in> set PR_RANGE_ANALYZERS \<Longrightarrow> map_of evidence m \<noteq> None"
  shows "pv_assurance_status (aggregate_profile_evidence evidence None) = ''PASS'' \<longleftrightarrow>
     (\<forall>m \<in> set PR_RANGE_ANALYZERS. evidence_passes m (the (map_of evidence m)))"
proof -
  have "ae_evidence_outcome (fst (aggregate_member evidence C14_ANALYZER_VERSIONS m)) \<noteq> ''FAIL''
      \<and> \<not> snd (aggregate_member evidence C14_ANALYZER_VERSIONS m) \<longleftrightarrow> evidence_passes m (the (map_of evidence m))"
    if m: "m \<in> set PR_RANGE_ANALYZERS" for m
    using assms [OF m] default_versions_valid(1) default_versions_valid(2) [OF m]
    by (auto simp: aggregate_member_def evidence_passes_def outcome_of_def Let_def)
  then show ?thesis
    by (auto simp: aggregate_profile_evidence_def versions_or_default_def profile_ids Let_def list_ex_iff)
qed

lemma classify_members_at:
  assumes "classify_members sha context base head ms = Inr rs" and "m \<in> set ms"
  obtains be he ev fs where "map_of (cs_evidence base) m = Some be" "map_of (cs_evidence head) m = Some he"
    "classify_range_member sha m context be he (dict_list (cs_findings_by_member base) m)
       (dict_list (cs_findings_by_member head) m) = Inr (ev, fs)" "map_of rs m = Some (ev, fs)"
  using assms
proof (induction ms arbitrary: rs thesis)
  case (Cons m0 ms)
  from Cons.prems(2) obtain be he ev fs rs' where *: "map_of (cs_evidence base) m0 = Some be"
    "map_of (cs_evidence head) m0 = Some he"
    "classify_range_member sha m0 context be he (dict_list (cs_findings_by_member base) m0)
       (dict_list (cs_findings_by_member head) m0) = Inr (ev, fs)"
    "classify_members sha context base head ms = Inr rs'" "rs = (m0, ev, fs) # rs'"
    by (auto split: option.splits sum.splits simp: map_sum_Inr_iff)
  show ?case
  proof (cases "m = m0")
    case True
    with * Cons.prems(1) show ?thesis by auto
  next
    case False
    then have "m \<in> set ms" using Cons.prems(3) by simp
    with Cons.IH [OF _ *(4)] show ?thesis using Cons.prems(1) *(5) False by (metis map_of_Cons_code(2))
  qed
qed simp

lemma map_of_evidence: "map_of (map (\<lambda>(m, ev, fs). (m, ev)) rs) m = map_option fst (map_of rs m)"
  by (induction rs) auto

definition wf_snapshot :: "CapsuleSnapshotResult \<Rightarrow> bool" where
  "wf_snapshot s = list_all (\<lambda>(m, fs). list_all wf_finding fs) (cs_findings_by_member s)"

lemma wf_snapshot_list: "wf_snapshot s \<Longrightarrow> list_all wf_finding (dict_list (cs_findings_by_member s) m)"
  by (auto simp: wf_snapshot_def list_all_iff dict_list_def split: option.splits dest!: sym [THEN map_of_SomeD])

lemma range_run:
  assumes "classify_range_findings sha tok resolution base head = Inr (combined, findings)"
    and "context = range_differential_context resolution"
  obtains rs r where "classify_members sha context base head PR_RANGE_ANALYZERS = Inr rs"
    "range_suppressions sha tok context base = Inr r"
    "apply_suppression_delta r (map (\<lambda>(m, ev, fs). (m, ev)) rs, map (\<lambda>(m, ev, fs). (m, fs)) rs) = Inr (combined, findings)"
  using assms by (auto simp: classify_range_findings_def profile_ids Let_def split: sum.splits suppression_error.splits)

lemma range_member_outcome:
  assumes run: "classify_range_findings sha tok resolution base head = Inr (combined, findings)"
    and ctx: "context = range_differential_context resolution"
    and r: "range_suppressions sha tok context base = Inr r"
    and wf: "wf_snapshot base" "wf_snapshot head" and m: "m \<in> set PR_RANGE_ANALYZERS"
  obtains be he ev where "map_of (cs_evidence base) m = Some be" "map_of (cs_evidence head) m = Some he"
    "map_of combined m = Some ev"
    "evidence_passes m ev \<longleftrightarrow>
       member_passes sha context be he (dict_list (cs_findings_by_member base) m) (dict_list (cs_findings_by_member head) m)
       \<and> \<not> (sl_status r = DUnknown \<and> sl_findings r = [])
       \<and> ((\<exists>f \<in> set (sl_findings r). m \<in> set (sv_analyzers (sf_evidence f))) \<longrightarrow> both_not_applicable be he)"
proof -
  obtain rs where rs: "classify_members sha context base head PR_RANGE_ANALYZERS = Inr rs"
    "apply_suppression_delta r (map (\<lambda>(m, ev, fs). (m, ev)) rs, map (\<lambda>(m, ev, fs). (m, fs)) rs) = Inr (combined, findings)"
    using range_run [OF run ctx] r by (metis sum.inject(2))
  obtain be he ev fs where e: "map_of (cs_evidence base) m = Some be" "map_of (cs_evidence head) m = Some he"
    "classify_range_member sha m context be he (dict_list (cs_findings_by_member base) m)
       (dict_list (cs_findings_by_member head) m) = Inr (ev, fs)" "map_of rs m = Some (ev, fs)"
    by (rule classify_members_at [OF rs(1) m])
  note member = classified_member [OF wf_snapshot_list [OF wf(1)] wf_snapshot_list [OF wf(2)] e(3)]
  obtain ev' where ev': "map_of combined m = Some ev'" "if sl_status r = DUnknown \<and> sl_findings r = []
        \<or> (\<exists>f \<in> set (sl_findings r). m \<in> set (sv_analyzers (sf_evidence f)))
          \<and> dget ev ''evidence_outcome'' \<noteq> PStr ''NOT_APPLICABLE''
     then spoiled ev' else ev' = ev"
    by (rule apply_delta_at [OF rs(2), of m ev]) (use m e(4) in \<open>auto simp: map_of_evidence profile_ids\<close>)
  show ?thesis
    by (rule that [OF e(1,2) ev'(1)]) (use ev'(2) member spoiled_fails [of ev' m] in \<open>auto split: if_splits\<close>)
qed

lemma passing_values:
  assumes "dc_status (classify_values sha req bs hs) = DPass"
  shows "\<forall>h \<in> set hs. \<not> df_blocking h"
proof -
  let ?c = "classify_values sha req bs hs"
  have c: "?c = final_classification sha (classified_state sha req bs hs)"
    using assms classify_values_early [of sha req bs hs] by (intro classify_values_late) auto
  obtain U W where a: "mset (dc_unknown ?c) = U + W" "mset (dc_introduced ?c) + mset (dc_unchanged ?c) + U = mset hs"
    using accounted_all [of sha req bs hs] by (auto simp: c accounted_def)
  have "dc_unknown ?c = []" "\<forall>f \<in> set (dc_introduced ?c @ dc_unchanged ?c). \<not> df_blocking f"
    using assms by (simp_all add: c split: if_splits)
  moreover from this(1) a have "mset (dc_introduced ?c @ dc_unchanged ?c) = mset hs" by simp
  ultimately show ?thesis by (metis mset_eq_setD)
qed

lemma member_passes_clean:
  assumes "member_passes sha context be he bf hf" and "\<not> both_not_applicable be he"
  shows "\<not> list_ex is_blocking hf"
proof -
  obtain c where "classify_findings sha (range_request context bf hf) = Inr c" "dc_status c = DPass"
    using assms by (auto simp: member_passes_def)
  then have "\<forall>h \<in> set (map differential_view hf). \<not> df_blocking h"
    using range_request_values [of sha "context" bf hf] passing_values by (metis sum.inject(2))
  then show ?thesis by (auto simp: list_ex_iff differential_view_def)
qed

lemma empty_delta_passes:
  assumes "classify_suppression_delta sha tok base head renames missing None = Inr r"
    and "sl_findings r = []" and "sl_status r \<noteq> DUnknown"
  shows "sl_status r = DPass"
  using assms
  by (auto simp: classify_suppression_delta_def suppression_manifest_error_def suppression_classification_of_def
      append_quarantined_suppressions_def introduced_suppression_findings_def suppression_status_def Let_def split_beta
      split: sum.splits if_splits)

section \<open>The gate\<close>

text \<open>Every finding of the suppression delta is about an occurrence of the head sources, and names the analyzers of its family.\<close>

lemma finding_head:
  assumes "r = suppression_classification_of sha (suppression_delta_context sha bo ho base head renames) missing"
    and "f \<in> set (sl_findings r)"
  obtains x where "x \<in> set ho"
    "sv_analyzers (sf_evidence f) = (case map_of SUPPRESSION_ANALYZERS (so_family x) of None \<Rightarrow> [] | Some a \<Rightarrow> a)"
proof -
  define ctx where "ctx = suppression_delta_context sha bo ho base head renames"
  define hi where "hi = suppression_occurrence_index ho (reversed_renames renames)"
  have hi: "dx_head_by_key ctx = hi"
    by (simp add: ctx_def hi_def suppression_delta_context_def suppression_indexes_def Let_def)
  let ?keys = "classify_suppression_keys sha (dx_base_by_key ctx) hi (dx_base_sources ctx) (dx_head_sources ctx) empty_cache"
  have keys: "sp_head_key ` set (fst ?keys) \<union> si_head_key ` set (fst (snd ?keys)) = fst ` set hi"
    by (rule pairs_in_index) (simp add: hi_def index_distinct)
  have "f \<in> introduced_suppression_finding sha ctx ` set (fst (snd ?keys))
      \<or> (\<exists>p \<in> set (fst ?keys). quarantine_finding sha ctx p = Some f)"
    using assms by (auto simp: suppression_classification_of_def ctx_def [symmetric] hi Let_def
        append_quarantined_suppressions_def introduced_suppression_findings_def set_map_filter split: prod.splits)
  then obtain k where k: "k \<in> fst ` set hi"
    and f: "sv_analyzers (sf_evidence f) =
      (case map_of SUPPRESSION_ANALYZERS (so_family (occurrence_at hi k)) of None \<Rightarrow> [] | Some a \<Rightarrow> a)"
  proof
    assume "f \<in> introduced_suppression_finding sha ctx ` set (fst (snd ?keys))"
    then obtain i where i: "i \<in> set (fst (snd ?keys))" "f = introduced_suppression_finding sha ctx i" by blast
    have "si_head_key i \<in> fst ` set hi" unfolding keys [symmetric] using i(1) by (intro UnI2 imageI)
    then show ?thesis using i(2) by (intro that) (auto simp: introduced_suppression_finding_def suppression_evidence_def hi Let_def)
  next
    assume "\<exists>p \<in> set (fst ?keys). quarantine_finding sha ctx p = Some f"
    then obtain p where p: "p \<in> set (fst ?keys)" "quarantine_finding sha ctx p = Some f" by blast
    have "sp_head_key p \<in> fst ` set hi" unfolding keys [symmetric] using p(1) by (intro UnI1 imageI)
    then show ?thesis using p(2)
      by (intro that) (auto simp: quarantine_finding_def suppression_evidence_def hi Let_def split: if_splits)
  qed
  obtain x where x: "(k, x) \<in> set hi" using k by (metis imageE prod.collapse)
  have "x \<in> set ho" using x unfolding hi_def index_snd [of ho "reversed_renames renames"] by (metis image_eqI snd_conv)
  then show ?thesis using f occurrence_at_index [OF x [unfolded hi_def], folded hi_def] by (intro that) auto
qed

definition DIRECTED_ANALYZERS :: "string list" where
  "DIRECTED_ANALYZERS = [''ruff'', ''pylint'', ''basedpyright'', ''contracts'', ''semgrep-bugs'', ''targeted-pytest-coverage'']"

lemma find_member: "find P xs = Some y \<Longrightarrow> y \<in> set xs"
  by (induction xs) (auto split: if_splits)

lemma comment_family: "comment_occurrence p t = Some x \<Longrightarrow> so_family x \<in> fst ` set DIRECTIVE_PATTERNS"
  by (force simp: comment_occurrence_def directive_of_def Let_def dest: find_member)

lemma family_analyzers:
  assumes "suppression_occurrences tok ss = Inr os" and "x \<in> set os"
  shows "\<exists>m \<in> set DIRECTED_ANALYZERS.
    m \<in> set (case map_of SUPPRESSION_ANALYZERS (so_family x) of None \<Rightarrow> [] | Some a \<Rightarrow> a)"
proof -
  have "os = concat (map (\<lambda>(p, s). source_occurrences tok p s) (sort_key fst ss))"
    using assms(1) unfolding suppression_occurrences_def by (rule occurrences_in_concat)
  then obtain p s where "x \<in> set (source_occurrences tok p s)" using assms(2) by auto
  then have "\<exists>t. comment_occurrence p t = Some x"
    by (cases "tok s") (auto simp: source_occurrences_def tokenize_comments_def set_map_filter)
  then have "so_family x \<in> fst ` set DIRECTIVE_PATTERNS" by (auto dest: comment_family)
  then show ?thesis
    by (auto simp: DIRECTIVE_PATTERNS_def SUPPRESSION_ANALYZERS_def DIRECTED_ANALYZERS_def)
qed

lemma live_delta_passes:
  assumes "range_suppressions sha tok context base = Inr r"
    and "\<not> (sl_status r = DUnknown \<and> sl_findings r = [])"
    and "\<And>m f. m \<in> set DIRECTED_ANALYZERS \<Longrightarrow> f \<in> set (sl_findings r) \<Longrightarrow> m \<notin> set (sv_analyzers (sf_evidence f))"
    and "distinct (map fst (rc_base_sources context))" and "distinct (map fst (rc_head_sources context))"
  obtains bo ho where "suppression_occurrences tok (python_sources (rc_base_sources context)) = Inr bo"
    "suppression_occurrences tok (python_sources (rc_head_sources context)) = Inr ho"
    "unchanged_files (python_sources (rc_base_sources context)) (python_sources (rc_head_sources context))
       (reversed_renames (rc_rename_facts context)) ho"
proof -
  let ?b = "python_sources (rc_base_sources context)" and ?h = "python_sources (rc_head_sources context)"
  note r = assms(1) [unfolded range_suppressions_def classify_suppression_delta_def Let_def]
  obtain bo ho where o: "suppression_occurrences tok ?b = Inr bo" "suppression_occurrences tok ?h = Inr ho"
    using r assms(2) by (auto simp: suppression_manifest_error_def split: sum.splits)
  define missing where "missing = Some (map differential_finding_projection (concat (map snd (cs_findings_by_member base))))"
  have c: "r = suppression_classification_of sha (suppression_delta_context sha bo ho ?b ?h
      (case Some (rc_rename_facts context) of None \<Rightarrow> [] | Some d \<Rightarrow> d)) missing"
    using r o by (simp add: missing_def)
  have "sl_findings r = []"
  proof (rule ccontr)
    assume "sl_findings r \<noteq> []"
    then obtain f where f: "f \<in> set (sl_findings r)" by (cases "sl_findings r") auto
    obtain x where "x \<in> set ho"
      "sv_analyzers (sf_evidence f) = (case map_of SUPPRESSION_ANALYZERS (so_family x) of None \<Rightarrow> [] | Some a \<Rightarrow> a)"
      by (rule finding_head [OF c f])
    with family_analyzers [OF o(2)] assms(3) f show False by fastforce
  qed
  with clean_run_passes_iff [OF assms(4,5) o c refl] show ?thesis by (intro that [OF o]) auto
qed

lemma range_passes_iff:
  assumes run: "classify_range_findings sha tok resolution base head = Inr (combined, findings)"
    and ctx: "context = range_differential_context resolution"
    and r: "range_suppressions sha tok context base = Inr r"
    and wf: "wf_snapshot base" "wf_snapshot head"
  shows "pv_assurance_status (aggregate_profile_evidence combined None) = ''PASS'' \<longleftrightarrow>
     (\<forall>m \<in> set PR_RANGE_ANALYZERS. \<exists>be he. map_of (cs_evidence base) m = Some be \<and> map_of (cs_evidence head) m = Some he
        \<and> member_passes sha context be he (dict_list (cs_findings_by_member base) m) (dict_list (cs_findings_by_member head) m)
        \<and> ((\<exists>f \<in> set (sl_findings r). m \<in> set (sv_analyzers (sf_evidence f))) \<longrightarrow> both_not_applicable be he))
     \<and> \<not> (sl_status r = DUnknown \<and> sl_findings r = [])"
    (is "_ \<longleftrightarrow> (\<forall>m \<in> _. ?P m) \<and> ?Q")
proof -
  have at: "map_of combined m \<noteq> None \<and> (evidence_passes m (the (map_of combined m)) \<longleftrightarrow> ?P m \<and> ?Q)"
    if m: "m \<in> set PR_RANGE_ANALYZERS" for m
    by (rule range_member_outcome [OF run ctx r wf m]) auto
  have "PR_RANGE_ANALYZERS \<noteq> []" by (simp add: PR_RANGE_ANALYZERS_def PR_RANGE_REQUIRED_ANALYZERS_def)
  then obtain m0 where "m0 \<in> set PR_RANGE_ANALYZERS" by fastforce
  with at show ?thesis by (subst aggregate_passes_iff) auto
qed

section \<open>Properties\<close>

text \<open>C3: On complete snapshots mapping the differential back to the findings of the analyzers never fails and loses nothing.
  The result holds every head finding exactly once, marked introduced, unchanged or unknown, and base findings at most
  once each, marked fixed or unknown; the findings of each mark carry exactly the keys the differential put into that
  class.\<close>

theorem range_mapping_conserves:
  assumes "list_all wf_finding base_findings" and "list_all wf_finding head_findings"
    and "\<not> both_not_applicable base_evidence head_evidence"
    and "member_snapshot_is_consistent base_evidence base_findings"
    and "member_snapshot_is_consistent head_evidence head_findings"
  shows "\<exists>c fs I C F U W.
    classify_findings sha (range_request context base_findings head_findings) = Inr c
    \<and> classify_range_member sha member context base_evidence head_evidence base_findings head_findings
        = Inr (classified_range_member member c base_evidence head_evidence, fs)
    \<and> mset fs = image_mset (state_updates DsIntroduced) I + image_mset (state_updates DsUnchanged) C
        + image_mset (state_updates DsFixed) F + image_mset (state_updates DsUnknown) (U + W)
    \<and> I + C + U = mset head_findings \<and> F + W \<subseteq># mset base_findings
    \<and> image_mset review_finding_key I = image_mset differential_finding_key (mset (dc_introduced c))
    \<and> image_mset review_finding_key C = image_mset differential_finding_key (mset (dc_unchanged c))
    \<and> image_mset review_finding_key F = image_mset differential_finding_key (mset (dc_fixed c))
    \<and> image_mset review_finding_key (U + W) = image_mset differential_finding_key (mset (dc_unknown c))"
  by (rule consistent_member [OF assms]) (unfold mapped_back_def tagged_def, blast)

text \<open>C2: A range passes exactly when every member of the profile passes, where a member passes if it does not apply to either
  revision or if both snapshots are complete and the differential of its findings passes, no suppression concerns a
  member that applies, and the suppressions could be read.\<close>

theorem range_passes_exactly:
  assumes "classify_range_findings sha tok resolution base head = Inr (combined, findings)"
    and "context = range_differential_context resolution"
    and "range_suppressions sha tok context base = Inr r" and "wf_snapshot base" and "wf_snapshot head"
  shows "pv_assurance_status (aggregate_profile_evidence combined None) = ''PASS'' \<longleftrightarrow>
     (\<forall>m \<in> set PR_RANGE_ANALYZERS. \<exists>be he. map_of (cs_evidence base) m = Some be \<and> map_of (cs_evidence head) m = Some he
        \<and> member_passes sha context be he (dict_list (cs_findings_by_member base) m) (dict_list (cs_findings_by_member head) m)
        \<and> ((\<exists>f \<in> set (sl_findings r). m \<in> set (sv_analyzers (sf_evidence f))) \<longrightarrow> both_not_applicable be he))
     \<and> \<not> (sl_status r = DUnknown \<and> sl_findings r = [])"
  by (rule range_passes_iff [OF assms])

text \<open>C4: What a passing range means for the reviewed code. No member that applies has a blocking finding in the head revision.
  If the six analyzers that suppression comments address apply, every head file with a suppression comment is
  byte-identical to the base file it comes from.\<close>

theorem passing_range_is_clean:
  assumes "classify_range_findings sha tok resolution base head = Inr (combined, findings)"
    and "wf_snapshot base" and "wf_snapshot head"
    and "distinct (map fst (sr_base_contents resolution))" and "distinct (map fst (sr_head_contents resolution))"
    and "context = range_differential_context resolution"
    and "pv_assurance_status (aggregate_profile_evidence combined None) = ''PASS''"
  shows "(\<forall>m \<in> set PR_RANGE_ANALYZERS. \<exists>be he. map_of (cs_evidence base) m = Some be \<and> map_of (cs_evidence head) m = Some he
       \<and> (both_not_applicable be he \<or> \<not> list_ex is_blocking (dict_list (cs_findings_by_member head) m)))
   \<and> ((\<forall>m \<in> set DIRECTED_ANALYZERS. \<not> both_not_applicable (the (map_of (cs_evidence base) m)) (the (map_of (cs_evidence head) m)))
      \<longrightarrow> (\<exists>ho. suppression_occurrences tok (python_sources (sr_head_contents resolution)) = Inr ho
            \<and> (\<forall>x \<in> set ho.
                 map_of (python_sources (sr_base_contents resolution))
                   (occurrence_origin (reversed_renames (rc_rename_facts context)) (so_path x))
                 = map_of (python_sources (sr_head_contents resolution)) (so_path x))))"
    (is "(\<forall>m \<in> _. ?P m) \<and> (?live \<longrightarrow> ?same)")
proof (intro conjI impI)
  obtain r where r: "range_suppressions sha tok context base = Inr r"
    by (rule range_run [OF assms(1,6)])
  note pass = range_passes_iff [OF assms(1,6) r assms(2,3), THEN iffD1, OF assms(7)]
  show "\<forall>m \<in> set PR_RANGE_ANALYZERS. ?P m" using pass by (meson member_passes_clean)
  have sources: "rc_base_sources context = sr_base_contents resolution" "rc_head_sources context = sr_head_contents resolution"
    by (simp_all add: assms(6) range_differential_context_def Let_def)
  assume live: ?live
  have "set DIRECTED_ANALYZERS \<subseteq> set PR_RANGE_ANALYZERS"
    by (simp add: DIRECTED_ANALYZERS_def PR_RANGE_ANALYZERS_def PR_RANGE_REQUIRED_ANALYZERS_def PR_RANGE_CONDITIONAL_ANALYZERS_def)
  then have "m \<notin> set (sv_analyzers (sf_evidence f))" if "m \<in> set DIRECTED_ANALYZERS" "f \<in> set (sl_findings r)" for m f
    using pass live that by (metis option.sel subsetD)
  then obtain ho where "suppression_occurrences tok (python_sources (rc_head_sources context)) = Inr ho"
    "unchanged_files (python_sources (rc_base_sources context)) (python_sources (rc_head_sources context))
       (reversed_renames (rc_rename_facts context)) ho"
    using live_delta_passes [OF r] pass assms(4,5) by (metis sources)
  then show ?same by (auto simp: sources unchanged_files_def)
qed

section \<open>Instances\<close>

definition demo_snapshot :: "string list \<Rightarrow> CapsuleSnapshotResult" where
  "demo_snapshot skipped =
     \<lparr>cs_evidence = map (\<lambda>m. (m, [(PStr ''evidence_outcome'',
          PStr (if m \<in> set skipped then ''NOT_APPLICABLE'' else ''PASS''))])) PR_RANGE_ANALYZERS,
      cs_findings_by_member = []\<rparr>"

definition demo_resolution :: "string \<Rightarrow> string \<Rightarrow> scope_resolution" where
  "demo_resolution old new =
     \<lparr>sr_base_contents = [(''a.py'', old)], sr_head_contents = [(''a.py'', new)], sr_exact_renames = [], sr_path_statuses = []\<rparr>"

definition demo_comments :: tokenizer where
  "demo_comments source = Inr (if source = ''run(x)  # nosemgrep'' then [(1, ''# nosemgrep'')] else [])"

definition demo_range :: "string list \<Rightarrow> string \<Rightarrow> string \<Rightarrow> report_error + range_state" where
  "demo_range skipped old new =
     classify_range_findings (\<lambda>_. []) demo_comments (demo_resolution old new) (demo_snapshot skipped) (demo_snapshot skipped)"

definition demo_delta :: "string list \<Rightarrow> string \<Rightarrow> string \<Rightarrow> suppression_error + SuppressionClassification" where
  "demo_delta skipped old new =
     range_suppressions (\<lambda>_. []) demo_comments (range_differential_context (demo_resolution old new)) (demo_snapshot skipped)"

definition demo_assurance :: "report_error + range_state \<Rightarrow> string" where
  "demo_assurance result =
     (case result of Inl _ \<Rightarrow> [] | Inr (combined, _) \<Rightarrow> pv_assurance_status (aggregate_profile_evidence combined None))"

lemma demo_unchanged_passes: "demo_assurance (demo_range [] ''run(x)'' ''run(x)'') = ''PASS''"
  by code_simp

lemma demo_nosemgrep_passes:
  "demo_assurance (demo_range [''semgrep-bugs''] ''run(x)'' ''run(x)  # nosemgrep'') = ''PASS''"
  by code_simp

lemma demo_nosemgrep_delta:
  "(case demo_delta [''semgrep-bugs''] ''run(x)'' ''run(x)  # nosemgrep'' of Inl _ \<Rightarrow> False | Inr r \<Rightarrow> sl_status r = DFail)"
  by code_simp

lemma demo_assurance_passes:
  assumes "demo_assurance result = ''PASS''"
  obtains combined findings where "result = Inr (combined, findings)"
    "pv_assurance_status (aggregate_profile_evidence combined None) = ''PASS''"
  using assms by (auto simp: demo_assurance_def split: sum.splits prod.splits)

lemma demo_snapshot_wf [simp]: "wf_snapshot (demo_snapshot skipped)"
  by (simp add: wf_snapshot_def demo_snapshot_def)

text \<open>A suppression can be introduced without effect on the review. The directive family \<^verbatim>\<open>nosemgrep\<close> names the
  analyzers \<^verbatim>\<open>semgrep\<close> and \<^verbatim>\<open>semgrep-bugs\<close>, but the profile calls the first one
  \<^verbatim>\<open>semgrep-clean\<close>. When \<^verbatim>\<open>semgrep-bugs\<close> does not apply, which is the default, a range that
  introduces such a comment passes although the suppression delta fails.\<close>

theorem nosemgrep_is_unattributed:
  "\<exists>combined findings r.
     classify_range_findings (\<lambda>_. []) demo_comments (demo_resolution ''run(x)'' ''run(x)  # nosemgrep'')
       (demo_snapshot [''semgrep-bugs'']) (demo_snapshot [''semgrep-bugs'']) = Inr (combined, findings)
     \<and> range_suppressions (\<lambda>_. []) demo_comments
         (range_differential_context (demo_resolution ''run(x)'' ''run(x)  # nosemgrep'')) (demo_snapshot [''semgrep-bugs''])
         = Inr r
     \<and> sl_status r = DFail
     \<and> pv_assurance_status (aggregate_profile_evidence combined None) = ''PASS''"
  by (rule demo_assurance_passes [OF demo_nosemgrep_passes])
    (use demo_nosemgrep_delta in \<open>auto simp: demo_range_def demo_delta_def split: sum.splits\<close>)

definition demo_blocker :: ReviewFinding where
  "demo_blocker = (plain_finding Style SevError ''ruff'' ''E501'' ''a.py'' 1 ''line  too long'' True)
     \<lparr>rf_autofix_available := Some True, rf_blocking := Some True\<rparr>"

theorem range_mapping_conserves_witness:
  "\<exists>c fs I C F U W.
    classify_range_member (\<lambda>_. []) ''ruff'' (range_differential_context (demo_resolution ''a'' ''b''))
      [(PStr ''evidence_outcome'', PStr ''PASS'')] [(PStr ''evidence_outcome'', PStr ''FAIL'')] [] [demo_blocker]
        = Inr (classified_range_member ''ruff'' c [(PStr ''evidence_outcome'', PStr ''PASS'')]
                 [(PStr ''evidence_outcome'', PStr ''FAIL'')], fs)
    \<and> mset fs = image_mset (state_updates DsIntroduced) I + image_mset (state_updates DsUnchanged) C
        + image_mset (state_updates DsFixed) F + image_mset (state_updates DsUnknown) (U + W)
    \<and> I + C + U = {#demo_blocker#} \<and> F + W = {#}"
proof -
  let ?be = "[(PStr ''evidence_outcome'', PStr ''PASS'')]" and ?he = "[(PStr ''evidence_outcome'', PStr ''FAIL'')]"
  have wf: "list_all wf_finding [demo_blocker]" by code_simp
  have na: "\<not> both_not_applicable ?be ?he"
    by (auto simp: both_not_applicable_def outcome_of_def dget_or_def py_str_def)
  have "member_snapshot_is_consistent ?be []" "member_snapshot_is_consistent ?he [demo_blocker]" by code_simp+
  from range_mapping_conserves [OF _ wf na this, of "\<lambda>_. []" "range_differential_context (demo_resolution ''a'' ''b'')" "''ruff''"]
  show ?thesis by simp blast
qed

theorem range_passes_exactly_witness:
  "\<exists>combined findings r. demo_range [] ''run(x)'' ''run(x)'' = Inr (combined, findings)
     \<and> demo_delta [] ''run(x)'' ''run(x)'' = Inr r
     \<and> pv_assurance_status (aggregate_profile_evidence combined None) = ''PASS''
     \<and> \<not> (sl_status r = DUnknown \<and> sl_findings r = [])"
proof -
  obtain combined findings where run: "demo_range [] ''run(x)'' ''run(x)'' = Inr (combined, findings)"
    "pv_assurance_status (aggregate_profile_evidence combined None) = ''PASS''"
    by (rule demo_assurance_passes [OF demo_unchanged_passes])
  obtain r where r: "demo_delta [] ''run(x)'' ''run(x)'' = Inr r"
    using range_run [OF run(1) [unfolded demo_range_def] refl] unfolding demo_delta_def by metis
  from range_passes_exactly [OF run(1) [unfolded demo_range_def] refl r [unfolded demo_delta_def]] run r
  show ?thesis by auto
qed

theorem passing_range_is_clean_witness:
  "\<exists>combined findings ho. demo_range [] ''run(x)'' ''run(x)'' = Inr (combined, findings)
     \<and> pv_assurance_status (aggregate_profile_evidence combined None) = ''PASS''
     \<and> suppression_occurrences demo_comments (python_sources [(''a.py'', ''run(x)'')]) = Inr ho"
proof -
  obtain combined findings where run: "demo_range [] ''run(x)'' ''run(x)'' = Inr (combined, findings)"
    "pv_assurance_status (aggregate_profile_evidence combined None) = ''PASS''"
    by (rule demo_assurance_passes [OF demo_unchanged_passes])
  have live: "list_all (\<lambda>m. \<not> both_not_applicable (the (map_of (cs_evidence (demo_snapshot [])) m))
      (the (map_of (cs_evidence (demo_snapshot [])) m))) DIRECTED_ANALYZERS" by code_simp
  from passing_range_is_clean [OF run(1) [unfolded demo_range_def] _ _ _ _ refl run(2)] live run
  show ?thesis by (auto simp: demo_resolution_def list_all_iff)
qed

end
