(* ===== verification/Capsule_Report.thy ===== *)
theory Capsule_Report
  imports Range_Gate Cleanup_Forecast
begin

text \<open>
  The report of a capsule review (\<^verbatim>\<open>run/runner.py\<close>): the filters for noise, level and focus, the activation
  of the suppression catalog, the rules for native project tests, and the report built from the aggregated profile. The
  syntax tree of a reviewed file, the run identifier and the clock are parameters.
\<close>

section \<open>Options and filters\<close>

record ReviewOptions =
  op_no_tests :: bool
  op_include_noise :: bool
  op_bug_hunt :: bool
  op_review_level :: "string option"
  op_review_mode :: enforcement_mode
  op_focus :: "string option"

text \<open>The class definitions of a module, as \<open>ast.walk\<close> yields them; a decorator is a name, an attribute, a call of one,
  or something else.\<close>

datatype decorator = DecoratorName string | DecoratorAttribute string | DecoratorCall decorator | DecoratorOther

record class_def =
  cd_lineno :: int
  cd_decorators :: "(int \<times> decorator) list"

definition is_named_dataclass :: "decorator \<Rightarrow> bool" where
  "is_named_dataclass d =
     (case d of DecoratorName n \<Rightarrow> n = ''dataclass'' | DecoratorAttribute n \<Rightarrow> n = ''dataclass'' | _ \<Rightarrow> False)"

definition is_dataclass_decorator :: "decorator \<Rightarrow> bool" where
  "is_dataclass_decorator d = is_named_dataclass (case d of DecoratorCall f \<Rightarrow> f | _ \<Rightarrow> d)"

text \<open>\<open>None\<close> is a file that cannot be read or parsed.\<close>

definition line_targets_dataclass :: "(string \<Rightarrow> class_def list option) \<Rightarrow> string \<Rightarrow> int \<Rightarrow> bool" where
  "line_targets_dataclass classes path line =
     (case classes path of
        None \<Rightarrow> False
      | Some nodes \<Rightarrow> list_ex (\<lambda>node. (cd_lineno node = line \<or> list_ex (\<lambda>(l, _). l = line) (cd_decorators node))
                          \<and> list_ex (\<lambda>(_, d). is_dataclass_decorator d) (cd_decorators node)) nodes)"

definition runner_path_name :: "string \<Rightarrow> string" where
  "runner_path_name path = pure_name (map (\<lambda>c. if c = CHR 0x5C then CHR ''/'' else c) path)"

definition is_test_file :: "string \<Rightarrow> bool" where
  "is_test_file path = (''tests'' \<in> set (pure_parts path))"

definition GLOBAL_NOISE_RULES :: "(string \<times> string) list" where
  "GLOBAL_NOISE_RULES = [(''pylint'', ''R0801'')]"

definition TEST_NOISE_RULES :: "(string \<times> string) list" where
  "TEST_NOISE_RULES =
     [(''contract_runner'', ''MISSING_ICONTRACT''), (''basedpyright'', ''reportMissingImports''),
      (''basedpyright'', ''reportAttributeAccessIssue''), (''pylint'', ''W0212'')]"

definition PYLINT_CLI_WRAPPER_NOISE_RULES :: "string list" where
  "PYLINT_CLI_WRAPPER_NOISE_RULES = [''R0914'', ''R0917'']"

definition NOISE_MESSAGE_PREFIX :: string where
  "NOISE_MESSAGE_PREFIX = ''ValidationError: 1 validation error for LedgerState''"

definition is_pylint_structural_noise :: "(string \<Rightarrow> class_def list option) \<Rightarrow> ReviewFinding \<Rightarrow> bool" where
  "is_pylint_structural_noise classes f =
     (if rf_tool f \<noteq> ''pylint'' then False
      else if rf_rule f \<in> set PYLINT_CLI_WRAPPER_NOISE_RULES \<and> runner_path_name (rf_file f) = ''commands.py''
        then py_contains (rf_message f) ''argument'' \<or> py_contains (rf_message f) ''local variable''
      else rf_rule f = ''R0902'' \<and> py_contains (rf_message f) ''Too many instance attributes''
           \<and> line_targets_dataclass classes (rf_file f) (rf_line f))"

definition is_known_noise :: "(string \<Rightarrow> class_def list option) \<Rightarrow> ReviewFinding \<Rightarrow> bool" where
  "is_known_noise classes f =
     ((rf_tool f, rf_rule f) \<in> set GLOBAL_NOISE_RULES
      \<or> is_pylint_structural_noise classes f
      \<or> rf_tool f = ''crosshair'' \<and> py_startswith (rf_message f) NOISE_MESSAGE_PREFIX
      \<or> is_test_file (rf_file f) \<and> (rf_tool f, rf_rule f) \<in> set TEST_NOISE_RULES)"

definition suppress_known_noise :: "(string \<Rightarrow> class_def list option) \<Rightarrow> ReviewFinding list \<Rightarrow> ReviewFinding list" where
  "suppress_known_noise classes findings = filter (\<lambda>f. \<not> is_known_noise classes f) findings"

definition filter_findings_by_review_level :: "ReviewFinding list \<Rightarrow> string option \<Rightarrow> ReviewFinding list" where
  "filter_findings_by_review_level findings level =
     (case level of
        None \<Rightarrow> findings
      | Some l \<Rightarrow> (if l = ''error'' then filter (\<lambda>f. rf_severity f = SevError) findings
                  else filter (\<lambda>f. rf_severity f \<in> {SevError, SevWarning}) findings))"

definition belongs_to_simplification_queue :: "ReviewFinding \<Rightarrow> bool" where
  "belongs_to_simplification_queue f =
     (if rf_category f = ToolError then True
      else if rf_category f = AiBloat then True
      else rf_category f \<in> {Dry, Kiss} \<and> rf_confidence f = Some High \<and> simplification_metadata_is_deterministic f)"

definition filter_findings_by_focus :: "ReviewFinding list \<Rightarrow> string option \<Rightarrow> py_error + ReviewFinding list" where
  "filter_findings_by_focus findings focus =
     (case focus of
        None \<Rightarrow> Inr findings
      | Some f \<Rightarrow> (if f = ''simplify'' then Inr (filter belongs_to_simplification_queue findings)
                  else Inl (ValueError (''Unsupported review focus: '' @ f))))"

definition summary_for_findings :: "ReviewFinding list \<Rightarrow> string" where
  "summary_for_findings findings =
     (if findings = [] then ''Review completed with no findings.''
      else ''Review completed with '' @ show_nat (length findings) @ '' findings ('' @
             show_nat (length (filter is_blocking findings)) @ '' blocking).'')"

section \<open>Evidence of the report\<close>

datatype capsule_error = CatalogRaised catalog_error | ReportRaised report_error

definition is_activated :: "CatalogActivation \<Rightarrow> bool" where
  "is_activated a = (ca_status a = ActivationPass \<and> ca_profile_activated a)"

definition all_unknown :: "(string \<times> pydict) list \<Rightarrow> bool" where
  "all_unknown evidence =
     (set (map fst evidence) = set (all_ids default_pr_range_profile)
      \<and> list_all (\<lambda>(_, ev). dget ev ''evidence_outcome'' = PStr ''UNKNOWN'') evidence)"

definition inactive_member ::
  "(string \<times> pydict) list \<Rightarrow> (string \<times> string) list \<Rightarrow> string \<Rightarrow> string \<Rightarrow> string \<times> pydict" where
  "inactive_member evidence versions reason member =
     (member, dset (dset (dset (dset (case map_of evidence member of None \<Rightarrow> [] | Some ev \<Rightarrow> ev)
        ''execution_state'' (PStr ''error'')) ''evidence_outcome'' (PStr ''UNKNOWN''))
        ''version'' (PStr (case map_of versions member of None \<Rightarrow> [] | Some v \<Rightarrow> v)))
        ''diagnostic'' (PStr reason))"

definition activated_capsule_report_evidence ::
  "(string \<Rightarrow> string) \<Rightarrow> (string \<Rightarrow> pyval option) \<Rightarrow> installed_package \<Rightarrow> (string \<times> pydict) list \<Rightarrow> (string \<times> string) list option
   \<Rightarrow> string \<Rightarrow> capsule_error + (CatalogActivation \<times> (string \<times> pydict) list)" where
  "activated_capsule_report_evidence sha loads package evidence expected_versions platform_id =
     (let versions = versions_or_default expected_versions
      in case activate_packaged_suppression_catalog sha loads package platform_id (Some versions) of
           Inl e \<Rightarrow> Inl (CatalogRaised e)
         | Inr activation \<Rightarrow>
             (if is_activated activation \<and> ca_digest activation \<noteq> None then Inr (activation, evidence)
              else if all_unknown evidence then Inr (activation, evidence)
              else (case find (\<lambda>m. map_of versions m = None) (all_ids default_pr_range_profile) of
                      Some m \<Rightarrow> Inl (ReportRaised (Raised (KeyError m)))
                    | None \<Rightarrow> Inr (activation, map (inactive_member evidence versions
                        (if ca_reason activation = [] then ''suppression_catalog_activation_failed''
                         else ca_reason activation)) (all_ids default_pr_range_profile)))))"

fun capsule_evidence_list :: "(string \<times> pydict) list \<Rightarrow> string list \<Rightarrow> capsule_error + pydict list" where
  "capsule_evidence_list evidence [] = Inr []"
| "capsule_evidence_list evidence (member # members) =
     (case map_of evidence member of
        None \<Rightarrow> Inl (ReportRaised (Raised (KeyError member)))
      | Some ev \<Rightarrow> map_sum id (\<lambda>evs. dict_merge [(PStr ''id'', PStr member)] ev # evs)
                    (capsule_evidence_list evidence members))"

definition PYTEST_MEMBER :: string where
  "PYTEST_MEMBER = ''targeted-pytest-coverage''"

definition LOCAL_ASSURANCE_KINDS :: "string list" where
  "LOCAL_ASSURANCE_KINDS = [''worktree'', ''full'', ''explicit_files'']"

text \<open>The branch for the native platform: its project tests are not protected range evidence, and a complete review cannot
  do without them.\<close>

definition native_pytest_evidence ::
  "ReviewOptions \<Rightarrow> pydict \<Rightarrow> (string \<times> pydict) list \<Rightarrow> py_error + (pydict \<times> (string \<times> pydict) list)" where
  "native_pytest_evidence options scope_evidence evidence =
     (let original = (case map_of evidence PYTEST_MEMBER of None \<Rightarrow> [] | Some ev \<Rightarrow> ev);
          ran = (dget original ''execution_state'' = PStr ''ran'');
          pytest = (if ran then dset original ''result_provenance'' (PStr ''project-origin-v1'') else original);
          scope = (if ran then dset scope_evidence ''native_pytest_result_provenance'' (PStr ''project-origin-v1'')
                   else scope_evidence);
          skipped = (dget pytest ''execution_state'' = PStr ''not_applicable'');
          bypassed = (op_no_tests options \<and> dget pytest ''evidence_outcome'' = PStr ''PASS'')
      in map_sum id (\<lambda>local.
           let protected_range = (\<not> local \<and> dget pytest ''evidence_outcome'' \<noteq> PStr ''UNKNOWN'')
           in (scope, AList.update PYTEST_MEMBER
                (if skipped \<or> bypassed \<or> protected_range
                 then dset (dset (dset pytest ''execution_state'' (PStr ''error'')) ''evidence_outcome'' (PStr ''UNKNOWN''))
                        ''diagnostic'' (PStr (if protected_range
                           then ''native_project_origin_pytest_not_protected_range_evidence''
                           else ''native_pytest_required_for_complete_review''))
                 else pytest) evidence))
         (in_str_set (dget scope ''assurance_kind'') LOCAL_ASSURANCE_KINDS))"

section \<open>The report\<close>

definition capsule_findings ::
  "(string \<Rightarrow> class_def list option) \<Rightarrow> ReviewOptions \<Rightarrow> (string \<times> ReviewFinding list) list \<Rightarrow> py_error + ReviewFinding list" where
  "capsule_findings classes options findings_by_member =
     (let findings = concat (map (dict_list findings_by_member) (all_ids default_pr_range_profile));
          heard = (if op_include_noise options then findings else suppress_known_noise classes findings)
      in filter_findings_by_focus (filter_findings_by_review_level heard (op_review_level options)) (op_focus options))"

definition capsule_report_of ::
  "string \<Rightarrow> int \<Rightarrow> ReviewOptions \<Rightarrow> pydict \<Rightarrow> CatalogActivation \<Rightarrow> ProfileEvidenceReport \<Rightarrow> ReviewFinding list \<Rightarrow> pydict list
   \<Rightarrow> ReviewReport" where
  "capsule_report_of uuid now options scope_evidence activation profile findings evidence =
     \<lparr>rr_schema_version = ''1.6'', rr_run_id = ''review-capsule-'' @ uuid, rr_timestamp = now,
      rr_overall_verdict = None, rr_ci_exit_code = None,
      rr_assurance_status = assurance_of_text (pv_assurance_status profile),
      rr_has_unknown_required_evidence = Some (pv_has_unknown_required_evidence profile),
      rr_scope_evidence = Some scope_evidence, rr_analyzer_evidence = Some evidence,
      rr_suppression_catalog_digest = (if is_activated activation then ca_digest activation else None),
      rr_score = (if pv_assurance_status profile = ''PASS'' \<and> \<not> list_ex is_blocking findings then 100 else 0),
      rr_reward_delta = None, rr_findings = findings,
      rr_summary = (if pv_assurance_status profile \<noteq> ''UNKNOWN'' then summary_for_findings findings
                    else ''Analyzer capsule execution is incomplete; assurance is UNKNOWN.''),
      rr_simplification_summary = None, rr_cleanup_forecast = None,
      rr_enforcement_mode = Some (op_review_mode options), rr_enforcement_summary = None,
      rr_requirements_evidence = None, rr_house_rules_updates = []\<rparr>"

definition capsule_report ::
  "(string \<Rightarrow> string) \<Rightarrow> (string \<Rightarrow> pyval option) \<Rightarrow> installed_package \<Rightarrow> (string \<Rightarrow> class_def list option) \<Rightarrow> string \<Rightarrow> int
   \<Rightarrow> (string \<times> pydict) list \<Rightarrow> (string \<times> ReviewFinding list) list \<Rightarrow> ReviewOptions \<Rightarrow> pydict
   \<Rightarrow> (string \<times> string) list option \<Rightarrow> string \<Rightarrow> capsule_error + ReviewReport" where
  "capsule_report sha loads package classes uuid now evidence findings_by_member options scope_evidence
     expected_versions platform_id =
     (case activated_capsule_report_evidence sha loads package evidence expected_versions platform_id of
        Inl e \<Rightarrow> Inl e
      | Inr (activation, activated) \<Rightarrow>
          (case (if platform_id = ''darwin-arm64'' then native_pytest_evidence options scope_evidence activated
                 else Inr (scope_evidence, activated)) of
             Inl e \<Rightarrow> Inl (ReportRaised (Raised e))
           | Inr (scope, report_evidence) \<Rightarrow>
               (case capsule_findings classes options findings_by_member of
                  Inl e \<Rightarrow> Inl (ReportRaised (Raised e))
                | Inr findings \<Rightarrow>
                    (case capsule_evidence_list report_evidence (all_ids default_pr_range_profile) of
                       Inl e \<Rightarrow> Inl e
                     | Inr listed \<Rightarrow>
                         map_sum ReportRaised id (make_report (capsule_report_of uuid now options scope activation
                           (aggregate_profile_evidence report_evidence expected_versions) findings listed))))))"

text \<open>\<open>_unknown_capsule_report\<close>, for the selected backend and its environment.\<close>

definition unknown_capsule_report ::
  "(string \<Rightarrow> string) \<Rightarrow> (string \<Rightarrow> pyval option) \<Rightarrow> installed_package \<Rightarrow> (string \<Rightarrow> class_def list option) \<Rightarrow> string \<Rightarrow> int
   \<Rightarrow> string \<Rightarrow> string option \<Rightarrow> string \<Rightarrow> ReviewOptions \<Rightarrow> pydict \<Rightarrow> capsule_error + ReviewReport" where
  "unknown_capsule_report sha loads package classes uuid now kind environment_id reason options scope_evidence =
     (let members = all_ids default_pr_range_profile;
          versions = (if kind = ''darwin-arm64'' then map (\<lambda>m. (m, ''unavailable'')) members else C14_ANALYZER_VERSIONS);
          environment = (case environment_id of Some e \<Rightarrow> (if e = [] then ''unsupported-controller'' else e)
                         | None \<Rightarrow> ''unsupported-controller'');
          evidence = map (\<lambda>m. (m,
            [(PStr ''execution_state'', PStr ''error''), (PStr ''evidence_outcome'', PStr ''UNKNOWN''),
             (PStr ''version'', PStr (case map_of versions m of None \<Rightarrow> [] | Some v \<Rightarrow> v)),
             (PStr ''diagnostic'', PStr reason), (PStr ''environment_id'', PStr environment)])) members
      in capsule_report sha loads package classes uuid now evidence [] options scope_evidence (Some versions) kind)"

section \<open>Evidence dictionaries\<close>

text \<open>What the classification keeps of every evidence dictionary: its keys are distinct, it has no key for the identifier and
  its outcome is one of the four.\<close>

definition member_ok :: "pydict \<Rightarrow> bool" where
  "member_ok ev =
     (distinct (map fst ev) \<and> PStr ''id'' \<notin> fst ` set ev
      \<and> (\<exists>s \<in> set VALID_ANALYZER_OUTCOMES. dget ev ''evidence_outcome'' = PStr s))"

lemma distinct_dset: "distinct (map fst ev) \<Longrightarrow> distinct (map fst (dset ev k v))"
  by (simp add: dset_def distinct_update)

lemma member_ok_dset:
  assumes "member_ok ev" and "k \<noteq> ''id''" and "k = ''evidence_outcome'' \<Longrightarrow> \<exists>s \<in> set VALID_ANALYZER_OUTCOMES. v = PStr s"
  shows "member_ok (dset ev k v)"
proof -
  have "fst ` set (dset ev k v) = insert (PStr k) (fst ` set ev)" by (simp add: dset_def dom_update)
  with assms show ?thesis by (cases "k = ''evidence_outcome''") (auto simp: member_ok_def distinct_dset dget_dset)
qed

lemma member_ok_merge: "member_ok ev \<Longrightarrow> member_ok (merge_member_outcome ev outcome reason)"
  unfolding merge_member_outcome_def Let_def
  by (auto intro!: member_ok_dset simp: VALID_ANALYZER_OUTCOMES_def)

lemma member_ok_classified:
  assumes "classify_range_member sha m context be he bf hf = Inr (ev, fs)"
  shows "member_ok ev"
proof -
  have "outcome_of_status x \<in> set VALID_ANALYZER_OUTCOMES" for x
    by (cases x) (simp_all add: VALID_ANALYZER_OUTCOMES_def PASSING_ANALYZER_OUTCOMES_def)
  moreover have "''UNKNOWN'' \<in> set VALID_ANALYZER_OUTCOMES" "''NOT_APPLICABLE'' \<in> set VALID_ANALYZER_OUTCOMES"
    by (simp_all add: VALID_ANALYZER_OUTCOMES_def PASSING_ANALYZER_OUTCOMES_def)
  ultimately show ?thesis using assms
    by (auto simp: classify_range_member_def member_ok_def member_evidence_defs dget_def Let_def split: if_splits sum.splits)
qed

text \<open>The evidence of a whole profile.\<close>

definition profile_ok :: "(string \<times> pydict) list \<Rightarrow> bool" where
  "profile_ok evidence = (map fst evidence = PR_RANGE_ANALYZERS \<and> list_all (\<lambda>(_, ev). member_ok ev) evidence)"

lemma members_ok:
  assumes "classify_members sha context base head ms = Inr rs"
  shows "map fst rs = ms \<and> list_all (\<lambda>(_, ev, _). member_ok ev) rs"
  using assms
  by (induction ms arbitrary: rs) (auto split: option.splits sum.splits simp: map_sum_Inr_iff dest: member_ok_classified)

lemma keys_update_present: "k \<in> fst ` set d \<Longrightarrow> map fst (AList.update k v d) = map fst d"
  by (induction d) auto

lemma profile_ok_update: "profile_ok d \<Longrightarrow> map_of d m = Some ev \<Longrightarrow> member_ok ev' \<Longrightarrow> profile_ok (AList.update m ev' d)"
proof -
  assume a: "profile_ok d" "map_of d m = Some ev" "member_ok ev'"
  have "m \<in> fst ` set d" using a(2) by (metis map_of_eq_None_iff option.distinct(1))
  moreover have "set (AList.update m ev' d) \<subseteq> insert (m, ev') (set d)" by (induction d) auto
  ultimately show ?thesis using a by (auto simp: profile_ok_def keys_update_present list_all_iff)
qed

lemma profile_ok_member: "profile_ok d \<Longrightarrow> map_of d m = Some ev \<Longrightarrow> member_ok ev"
  by (auto simp: profile_ok_def list_all_iff dest!: map_of_SomeD)

lemma profile_ok_finding:
  "apply_suppression_finding r f m st = Inr st' \<Longrightarrow> profile_ok (fst st) \<Longrightarrow> profile_ok (fst st')"
  by (cases st) (auto simp: apply_suppression_finding_def Let_def map_sum_Inr_iff
      intro!: profile_ok_update member_ok_merge dest: profile_ok_member split: option.splits if_splits sum.splits)

lemma try_fold_invariant:
  "try_fold f xs s = Inr s' \<Longrightarrow> P s \<Longrightarrow> (\<And>x s s'. f x s = Inr s' \<Longrightarrow> P s \<Longrightarrow> P s') \<Longrightarrow> P s'"
  by (induction xs arbitrary: s) (auto split: sum.splits)

lemma profile_ok_delta:
  assumes "apply_suppression_delta r st = Inr st'" and "profile_ok (fst st)"
  shows "profile_ok (fst st')"
proof (cases "sl_status r = DUnknown \<and> sl_findings r = []")
  case True
  with assms show ?thesis
    by (force simp: apply_suppression_delta_def profile_ok_def list_all_iff o_def split_beta intro: member_ok_merge)
next
  case False
  then have "try_fold (\<lambda>(f, m). apply_suppression_finding r f m)
      (concat (map (\<lambda>f. map (Pair f) (sv_analyzers (sf_evidence f))) (sl_findings r))) st = Inr st'"
    using assms(1) by (auto simp: apply_suppression_delta_def try_fold_nested)
  from try_fold_invariant [OF this, of "\<lambda>s. profile_ok (fst s)"] assms(2) show ?thesis
    by (auto dest: profile_ok_finding)
qed

lemma profile_ok_range:
  assumes "classify_range_findings sha tok resolution base head = Inr (combined, findings)"
  shows "profile_ok combined"
proof -
  obtain rs r where rs: "classify_members sha (range_differential_context resolution) base head PR_RANGE_ANALYZERS = Inr rs"
    "apply_suppression_delta r (map (\<lambda>(m, ev, fs). (m, ev)) rs, map (\<lambda>(m, ev, fs). (m, fs)) rs) = Inr (combined, findings)"
    by (rule range_run [OF assms refl])
  have "profile_ok (map (\<lambda>(m, ev, fs). (m, ev)) rs)"
    using members_ok [OF rs(1)] by (auto simp: profile_ok_def list_all_iff o_def split_beta)
  then show ?thesis using profile_ok_delta [OF rs(2)] by simp
qed

section \<open>Governance of the report\<close>

lemma dict_merge_fresh:
  "distinct (map fst b) \<Longrightarrow> fst ` set a \<inter> fst ` set b = {} \<Longrightarrow> dict_merge a b = a @ b"
proof (induction b arbitrary: a)
  case (Cons p b)
  obtain k v where p: "p = (k, v)" by (cases p)
  have "k \<notin> fst ` set a" using Cons.prems(2) p by auto
  then have "dict_merge a (p # b) = dict_merge (a @ [(k, v)]) b" by (simp add: dict_merge_def p update_fresh)
  also have "\<dots> = (a @ [(k, v)]) @ b" using Cons.prems p by (intro Cons.IH) auto
  finally show ?case by (simp add: p)
qed (simp add: dict_merge_def)

lemma profile_ids_distinct: "distinct PR_RANGE_ANALYZERS"
  by (simp add: PR_RANGE_ANALYZERS_def PR_RANGE_REQUIRED_ANALYZERS_def PR_RANGE_CONDITIONAL_ANALYZERS_def)

lemma listed_evidence:
  assumes "profile_ok evidence" and "set ms \<subseteq> set PR_RANGE_ANALYZERS"
  shows "capsule_evidence_list evidence ms = Inr (map (\<lambda>m. (PStr ''id'', PStr m) # the (map_of evidence m)) ms)"
  using assms(2)
proof (induction ms)
  case (Cons m ms)
  then have "m \<in> fst ` set evidence" using assms(1) by (auto simp: profile_ok_def simp flip: set_map)
  then obtain ev where ev: "map_of evidence m = Some ev" by (metis map_of_eq_None_iff not_None_eq)
  have "dict_merge [(PStr ''id'', PStr m)] ev = [(PStr ''id'', PStr m)] @ ev"
    using profile_ok_member [OF assms(1) ev] by (intro dict_merge_fresh) (auto simp: member_ok_def)
  with ev Cons show ?case by simp
qed simp

lemma listed_item [simp]:
  "evidence_id ((PStr ''id'', PStr m) # ev) = m"
  "k \<noteq> ''id'' \<Longrightarrow> dget ((PStr ''id'', PStr m) # ev) k = dget ev k"
  "k \<noteq> ''id'' \<Longrightarrow> dget_or ((PStr ''id'', PStr m) # ev) k v0 = dget_or ev k v0"
  by (simp_all add: evidence_id_def dget_or_def dget_def py_str_def)

lemma required_unknown_item: "item_required_unknown it = has_required_unknown_reasons (dget_or it ''required_unknown_reasons'' (PList []))"
  by (auto simp: item_required_unknown_def has_required_unknown_reasons_def split: pyval.splits)

lemma passing_outcome:
  assumes "member_ok ev"
  shows "dget ev ''evidence_outcome'' = PStr (outcome_of ev)" and "outcome_of ev \<in> set VALID_ANALYZER_OUTCOMES"
proof -
  obtain s where s: "s \<in> set VALID_ANALYZER_OUTCOMES" "dget ev ''evidence_outcome'' = PStr s"
    using assms by (auto simp: member_ok_def)
  then have "outcome_of ev = s" by (simp add: outcome_of_def dget_dget_or py_str_def)
  with s show "dget ev ''evidence_outcome'' = PStr (outcome_of ev)" "outcome_of ev \<in> set VALID_ANALYZER_OUTCOMES"
    by simp_all
qed

lemma in_str_set_str [simp]: "in_str_set (PStr s) names = Inr (s \<in> set names)"
  by (simp add: in_str_set_def)

lemma err_all_Inr: "(\<And>x. x \<in> set xs \<Longrightarrow> p x = Inr (q x)) \<Longrightarrow> err_all p xs = Inr (list_all q xs)"
  by (induction xs) auto

lemma err_any_Inr: "(\<And>x. x \<in> set xs \<Longrightarrow> p x = Inr (q x)) \<Longrightarrow> err_any p xs = Inr (list_ex q xs)"
  by (induction xs) auto

lemma profile_evidence_checks:
  assumes ok: "profile_ok evidence"
    and listed: "capsule_evidence_list evidence PR_RANGE_ANALYZERS = Inr l"
  shows "has_untrusted_analyzer_outcome (Some l) = Inr False"
    and "passing_pr_range_analyzer_profile (Some l)
       = Inr (\<forall>m \<in> set PR_RANGE_ANALYZERS. outcome_of (the (map_of evidence m)) \<in> set PASSING_ANALYZER_OUTCOMES)"
    and "has_required_unknown_evidence (Some l)
       = (\<exists>m \<in> set PR_RANGE_ANALYZERS. has_required_unknown_reasons
            (dget_or (the (map_of evidence m)) ''required_unknown_reasons'' (PList [])))"
    and "(\<exists>item \<in> set l. dget item ''evidence_outcome'' = PStr ''UNKNOWN'')
       = (\<exists>m \<in> set PR_RANGE_ANALYZERS. outcome_of (the (map_of evidence m)) = ''UNKNOWN'')"
proof -
  have l: "l = map (\<lambda>m. (PStr ''id'', PStr m) # the (map_of evidence m)) PR_RANGE_ANALYZERS"
    using listed listed_evidence [OF ok subset_refl] by simp
  have member: "member_ok (the (map_of evidence m))" if "m \<in> set PR_RANGE_ANALYZERS" for m
  proof -
    have "m \<in> fst ` set evidence" using ok that by (auto simp: profile_ok_def simp flip: set_map)
    then obtain ev where "map_of evidence m = Some ev" by (metis map_of_eq_None_iff not_None_eq)
    with profile_ok_member [OF ok] show ?thesis by simp
  qed
  show "has_untrusted_analyzer_outcome (Some l) = Inr False"
    using member passing_outcome
    by (auto simp: has_untrusted_analyzer_outcome_def evidence_list_def err_any_False l)
  show "passing_pr_range_analyzer_profile (Some l)
       = Inr (\<forall>m \<in> set PR_RANGE_ANALYZERS. outcome_of (the (map_of evidence m)) \<in> set PASSING_ANALYZER_OUTCOMES)"
  proof -
    have "err_all (\<lambda>item. in_str_set (dget item ''evidence_outcome'') PASSING_ANALYZER_OUTCOMES) l
        = Inr (list_all (\<lambda>item. dget item ''evidence_outcome'' \<in> PStr ` set PASSING_ANALYZER_OUTCOMES) l)"
      using member passing_outcome(1) by (intro err_all_Inr) (auto simp: l)
    moreover have "map evidence_id l = PR_RANGE_ANALYZERS" by (simp add: l o_def)
    ultimately show ?thesis using member passing_outcome(1)
      by (auto simp: passing_pr_range_analyzer_profile_def evidence_list_def Let_def l list_all_iff image_iff)
  qed
  show "has_required_unknown_evidence (Some l)
       = (\<exists>m \<in> set PR_RANGE_ANALYZERS. has_required_unknown_reasons
            (dget_or (the (map_of evidence m)) ''required_unknown_reasons'' (PList [])))"
    by (auto simp: has_required_unknown_evidence_def evidence_list_def l required_unknown_item)
  show "(\<exists>item \<in> set l. dget item ''evidence_outcome'' = PStr ''UNKNOWN'')
       = (\<exists>m \<in> set PR_RANGE_ANALYZERS. outcome_of (the (map_of evidence m)) = ''UNKNOWN'')"
    using member passing_outcome(1) by (auto simp: l)
qed

lemma aggregate_pass_members:
  assumes "pv_assurance_status (aggregate_profile_evidence evidence versions) = ''PASS''" and "profile_ok evidence"
    and m: "m \<in> set PR_RANGE_ANALYZERS"
  shows "outcome_of (the (map_of evidence m)) \<in> set PASSING_ANALYZER_OUTCOMES"
    and "\<not> has_required_unknown_reasons (dget_or (the (map_of evidence m)) ''required_unknown_reasons'' (PList []))"
proof -
  have "m \<in> fst ` set evidence" using assms(2) m by (auto simp: profile_ok_def simp flip: set_map)
  then obtain ev where ev: "map_of evidence m = Some ev" by (metis map_of_eq_None_iff not_None_eq)
  let ?a = "aggregate_member evidence (versions_or_default versions) m"
  have a: "ae_evidence_outcome (fst ?a) \<noteq> ''FAIL''" "\<not> snd ?a"
    using assms(1) m
    by (auto simp: aggregate_profile_evidence_def profile_ids Let_def list_ex_iff split: if_splits)
  then have "outcome_of ev \<notin> {''FAIL'', ''UNKNOWN''}"
    and u: "\<not> has_required_unknown_reasons (dget_or ev ''required_unknown_reasons'' (PList []))"
    by (auto simp: aggregate_member_def ev Let_def outcome_of_def split: if_splits)
  moreover have "outcome_of ev \<in> set VALID_ANALYZER_OUTCOMES"
    using passing_outcome(2) profile_ok_member [OF assms(2) ev] by blast
  ultimately show "outcome_of (the (map_of evidence m)) \<in> set PASSING_ANALYZER_OUTCOMES"
    and "\<not> has_required_unknown_reasons (dget_or (the (map_of evidence m)) ''required_unknown_reasons'' (PList []))"
    by (auto simp: ev VALID_ANALYZER_OUTCOMES_def)
qed

lemma assurance_texts:
  "pv_assurance_status (aggregate_profile_evidence e v) \<in> {''PASS'', ''FAIL'', ''UNKNOWN''}"
  "pv_assurance_status (aggregate_profile_evidence e v) = ''PASS'' \<Longrightarrow>
     \<not> pv_has_unknown_required_evidence (aggregate_profile_evidence e v)"
  by (auto simp: aggregate_profile_evidence_def Let_def split: if_splits)

lemma capsule_fields_valid: "report_field_errors (capsule_report_of uuid now options scope a p findings l) = []"
proof -
  have "non_blank ''1.6''" "non_blank (''review-capsule-'' @ uuid)" "non_blank (summary_for_findings findings)"
    "non_blank ''Analyzer capsule execution is incomplete; assurance is UNKNOWN.''"
    by (rule non_blank_char [of "CHR ''1''"] non_blank_char [of "CHR ''r''"] non_blank_char [of "CHR ''R''"]
        non_blank_char [of "CHR ''A''"]; simp add: py_is_space_def summary_for_findings_def)+
  then show ?thesis by (auto simp: report_field_errors_def capsule_report_of_def check_fail_def)
qed

lemma capsule_report_governed:
  assumes ok: "profile_ok evidence" and listed: "capsule_evidence_list evidence PR_RANGE_ANALYZERS = Inr l"
    and p: "p = aggregate_profile_evidence evidence versions"
  obtains rep where "make_report (capsule_report_of uuid now options scope a p findings l) = Inr rep"
    "rr_assurance_status rep = assurance_of_text (pv_assurance_status p)" "rr_findings rep = findings"
    "rr_ci_exit_code rep = Some (if pv_assurance_status p = ''PASS'' \<or> op_review_mode options = EShadow then 0 else 1)"
proof -
  let ?r = "capsule_report_of uuid now options scope a p findings l"
  define g where "g = prepare_governance ?r"
  note checks = profile_evidence_checks [OF ok listed]
  have schema: "schema_version_at_least (rr_schema_version g) 6"
    by (simp add: g_def prepare_governance_alt report_schema_version_def capsule_report_of_def Let_def) code_simp
  obtain st where st: "assurance_of_text (pv_assurance_status p) = Some st" "st \<in> {StPass, StFail, StUnknown}"
    "st = StPass \<longleftrightarrow> pv_assurance_status p = ''PASS''"
    using assurance_texts(1) [of evidence versions] by (auto simp: p)
  have fields: "rr_assurance_status g = Some st" "rr_analyzer_evidence g = Some l" "rr_findings g = findings"
    "rr_enforcement_mode g = Some (op_review_mode options)"
    "rr_has_unknown_required_evidence g = Some (pv_has_unknown_required_evidence p)"
    using st by (simp_all add: g_def capsule_report_of_def prepare_governance_alt Let_def)
  obtain unk where unk: "derived_unknown_evidence g st = Inr unk" "st = StPass \<Longrightarrow> \<not> unk"
  proof (cases "st = StPass")
    case True
    then have pass: "pv_assurance_status (aggregate_profile_evidence evidence versions) = ''PASS''" using st p by simp
    have "outcome_of (the (map_of evidence m)) \<noteq> ''UNKNOWN''" if "m \<in> set PR_RANGE_ANALYZERS" for m
      using aggregate_pass_members(1) [OF pass ok that] by (auto simp: PASSING_ANALYZER_OUTCOMES_def)
    then have "derived_unknown_evidence g st = Inr False"
      using True aggregate_pass_members [OF pass ok] assurance_texts(2) [OF pass]
      by (auto simp: derived_unknown_evidence_def fields checks evidence_list_def p)
    with that show ?thesis by blast
  next
    case False
    with that st show ?thesis
      by (cases "pv_has_unknown_required_evidence p")
        (auto simp: derived_unknown_evidence_def fields checks evidence_list_def)
  qed
  show ?thesis
    by (rule that)
      (use st unk in \<open>auto simp: make_report_def capsule_fields_valid derive_governance_fields_def g_def [symmetric] Let_def
        derive_authoritative_governance_def schema fields\<close>)
qed

lemma inactive_profile:
  assumes "profile_ok evidence"
  shows "profile_ok (map (inactive_member evidence versions reason) PR_RANGE_ANALYZERS)"
    and "pv_assurance_status (aggregate_profile_evidence
           (map (inactive_member evidence versions reason) PR_RANGE_ANALYZERS) expected) = ''UNKNOWN''"
proof -
  let ?e = "map (inactive_member evidence versions reason) PR_RANGE_ANALYZERS"
  have snd: "snd (inactive_member evidence versions reason m) = dset (dset (dset (dset (the (map_of evidence m))
        ''execution_state'' (PStr ''error'')) ''evidence_outcome'' (PStr ''UNKNOWN''))
        ''version'' (PStr (case map_of versions m of None \<Rightarrow> [] | Some v \<Rightarrow> v))) ''diagnostic'' (PStr reason)
      \<and> member_ok (the (map_of evidence m))" if "m \<in> set PR_RANGE_ANALYZERS" for m
  proof -
    have "m \<in> fst ` set evidence" using assms that by (auto simp: profile_ok_def simp flip: set_map)
    then obtain ev where "map_of evidence m = Some ev" by (metis map_of_eq_None_iff not_None_eq)
    with profile_ok_member [OF assms this] show ?thesis by (simp add: inactive_member_def)
  qed
  have fst: "fst (inactive_member evidence versions reason m) = m" for m by (simp add: inactive_member_def)
  have "member_ok (snd (inactive_member evidence versions reason m))" if "m \<in> set PR_RANGE_ANALYZERS" for m
    using snd [OF that] by (auto intro!: member_ok_dset simp: VALID_ANALYZER_OUTCOMES_def)
  then show "profile_ok ?e" by (auto simp: profile_ok_def list_all_iff fst o_def split_beta)
  have at: "map_of ?e m = Some (snd (inactive_member evidence versions reason m))" if "m \<in> set PR_RANGE_ANALYZERS" for m
    using that profile_ids_distinct fst by (intro map_of_is_SomeI) (auto simp: o_def image_iff, metis prod.collapse)
  have "ae_evidence_outcome (fst (aggregate_member ?e x m)) = ''UNKNOWN'' \<and> snd (aggregate_member ?e x m)"
    if "m \<in> set PR_RANGE_ANALYZERS" for x m
    using snd [OF that] by (simp add: aggregate_member_def at [OF that] dget_or_dset py_str_def Let_def)
  moreover have "PR_RANGE_ANALYZERS \<noteq> []" by (simp add: PR_RANGE_ANALYZERS_def PR_RANGE_REQUIRED_ANALYZERS_def)
  then obtain m0 where "m0 \<in> set PR_RANGE_ANALYZERS" by fastforce
  ultimately show "pv_assurance_status (aggregate_profile_evidence ?e expected) = ''UNKNOWN''"
    by (auto simp: aggregate_profile_evidence_def profile_ids Let_def list_ex_iff)
qed

lemma activation_pass:
  assumes "activate_packaged_suppression_catalog sha loads package platform versions = Inr a"
  shows "is_activated a \<and> ca_digest a \<noteq> None \<longleftrightarrow> ca_status a = ActivationPass"
  using assms
  by (auto simp: activate_packaged_suppression_catalog_def activate_bound_suppression_catalog_def
      activate_suppression_catalog_def unknown_activation_def is_activated_def
      split: option.splits prod.splits if_splits sum.splits pyval.splits)

lemma all_unknown_fails:
  assumes "profile_ok evidence" and "all_unknown evidence"
  shows "pv_assurance_status (aggregate_profile_evidence evidence versions) \<noteq> ''PASS''"
proof
  assume pass: "pv_assurance_status (aggregate_profile_evidence evidence versions) = ''PASS''"
  have "''ruff'' \<in> set PR_RANGE_ANALYZERS" by (simp add: PR_RANGE_ANALYZERS_def PR_RANGE_REQUIRED_ANALYZERS_def)
  note ruff = aggregate_pass_members(1) [OF pass assms(1) this] this
  then obtain ev where ev: "map_of evidence ''ruff'' = Some ev"
    using assms(1) by (metis map_of_eq_None_iff not_None_eq profile_ok_def set_map)
  then have "dget ev ''evidence_outcome'' = PStr ''UNKNOWN''"
    using assms(2) by (auto simp: all_unknown_def list_all_iff dest!: map_of_SomeD)
  then have "outcome_of ev = ''UNKNOWN''" by (simp add: outcome_of_def dget_dget_or py_str_def)
  with ruff(1) ev show False by (simp add: PASSING_ANALYZER_OUTCOMES_def)
qed

lemma activated_evidence:
  assumes "profile_ok evidence"
    and a: "activate_packaged_suppression_catalog sha loads package platform (Some C14_ANALYZER_VERSIONS) = Inr a"
  obtains e where "activated_capsule_report_evidence sha loads package evidence None platform = Inr (a, e)" "profile_ok e"
    "pv_assurance_status (aggregate_profile_evidence e None) = ''PASS'' \<longleftrightarrow>
       ca_status a = ActivationPass \<and> pv_assurance_status (aggregate_profile_evidence evidence None) = ''PASS''"
proof -
  note run = activated_capsule_report_evidence_def versions_or_default_def a Let_def
  have known: "find (\<lambda>m. map_of C14_ANALYZER_VERSIONS m = None) PR_RANGE_ANALYZERS = None"
    using default_versions_valid(2) by (auto simp: find_None_iff)
  consider "ca_status a = ActivationPass" | "ca_status a \<noteq> ActivationPass" "all_unknown evidence"
    | "ca_status a \<noteq> ActivationPass" "\<not> all_unknown evidence" by blast
  then show ?thesis
  proof cases
    case 1
    then have "is_activated a" "ca_digest a \<noteq> None" using activation_pass [OF a] by blast+
    with 1 show ?thesis using assms(1) by (intro that [of evidence]) (simp_all add: run)
  next
    case 2
    then have "\<not> (is_activated a \<and> ca_digest a \<noteq> None)" using activation_pass [OF a] by blast
    with 2 show ?thesis using assms(1) all_unknown_fails by (intro that [of evidence]) (simp_all add: run)
  next
    case 3
    let ?e = "map (inactive_member evidence C14_ANALYZER_VERSIONS
      (if ca_reason a = [] then ''suppression_catalog_activation_failed'' else ca_reason a)) PR_RANGE_ANALYZERS"
    have "\<not> (is_activated a \<and> ca_digest a \<noteq> None)" using 3 activation_pass [OF a] by blast
    with 3 show ?thesis
      using inactive_profile [OF assms(1)] known by (intro that [of ?e]) (auto simp: run profile_ids)
  qed
qed

lemma level_subset: "set (filter_findings_by_review_level fs level) \<subseteq> set fs"
  by (auto simp: filter_findings_by_review_level_def split: option.splits if_splits)

lemma focus_subset:
  assumes "focus \<in> {None, Some ''simplify''}"
  obtains gs where "filter_findings_by_focus fs focus = Inr gs" "set gs \<subseteq> set fs"
  using assms by (auto simp: filter_findings_by_focus_def)

lemma capsule_findings_subset:
  assumes "op_focus options \<in> {None, Some ''simplify''}"
  obtains findings where "capsule_findings classes options findings_by_member = Inr findings"
    "set findings \<subseteq> (\<Union>m \<in> set PR_RANGE_ANALYZERS. set (dict_list findings_by_member m))"
proof -
  let ?all = "concat (map (dict_list findings_by_member) PR_RANGE_ANALYZERS)"
  let ?heard = "if op_include_noise options then ?all else suppress_known_noise classes ?all"
  let ?levelled = "filter_findings_by_review_level ?heard (op_review_level options)"
  obtain fs where fs: "filter_findings_by_focus ?levelled (op_focus options) = Inr fs" "set fs \<subseteq> set ?levelled"
    by (rule focus_subset [OF assms])
  have "set ?heard \<subseteq> set ?all" by (auto simp: suppress_known_noise_def)
  with fs(2) level_subset [of ?heard "op_review_level options"] have "set fs \<subseteq> set ?all" by blast
  with fs(1) that show ?thesis by (simp add: capsule_findings_def profile_ids Let_def)
qed

section \<open>Properties\<close>


definition demo_options :: ReviewOptions where
  "demo_options = \<lparr>op_no_tests = False, op_include_noise = False, op_bug_hunt = False, op_review_level = None,
     op_review_mode = EFull, op_focus = None\<rparr>"

definition demo_sha :: "string \<Rightarrow> string" where
  "demo_sha _ = drop 7 FROZEN_SUPPRESSION_CATALOG_DIGEST"

lemma demo_range_passes:
  "demo_assurance (classify_range_findings demo_sha demo_comments (demo_resolution ''run(x)'' ''run(x)'')
     (demo_snapshot []) (demo_snapshot [])) = ''PASS''"
  by code_simp

lemma demo_activation:
  "(case activate_packaged_suppression_catalog demo_sha demo_loads demo_package ''linux-x86_64'' (Some C14_ANALYZER_VERSIONS) of
      Inl _ \<Rightarrow> False | Inr a \<Rightarrow> ca_status a = ActivationPass)"
  by code_simp


end
