(* ===== verification/Changed_Lines.thy ===== *)
theory Changed_Lines
  imports Py_Unicode
begin

text \<open>
  The changed lines of a review (\<^verbatim>\<open>run/runner.py\<close>): git's quoted paths, the parser of a zero-context diff, and the
  translation of repository paths to the caller's paths. The text of the diff is Latin-1; a decoded path is a list of
  code points, since its quoted bytes may decode to any text. The set of lines of a file is a set of integers.
\<close>

section \<open>Texts and paths\<close>

definition code_text :: "string \<Rightarrow> codepoints" where
  "code_text s = map of_char s"

text \<open>\<open>os.fsdecode\<close>: strict UTF-8 in which a byte that does not decode becomes a surrogate.\<close>

function fs_decode :: "string \<Rightarrow> codepoints" where
  "fs_decode s =
     (case s of
        [] \<Rightarrow> []
      | b # bs \<Rightarrow> (case utf8_next s of
                    Some (c, r) \<Rightarrow> c # fs_decode r
                  | None \<Rightarrow> (56320 + of_char b) # fs_decode bs))"
  by pat_completeness auto
termination
  by (relation "measure length") (auto simp del: utf8_next.simps dest: utf8_next_shorter)

declare fs_decode.simps [simp del]

definition remove_prefix :: "'a list \<Rightarrow> 'a list \<Rightarrow> 'a list" where
  "remove_prefix p s = (if take (length p) s = p then drop (length p) s else s)"

definition remove_suffix :: "'a list \<Rightarrow> 'a list \<Rightarrow> 'a list" where
  "remove_suffix p s = rev (remove_prefix (rev p) (rev s))"

text \<open>The positions at which \<open>s.find(p)\<close>, \<open>s.find(p, i)\<close> and \<open>s.rfind(p)\<close> look.\<close>

definition occurrences_of :: "string \<Rightarrow> string \<Rightarrow> nat list" where
  "occurrences_of p s = filter (\<lambda>i. py_startswith (drop i s) p) [0..<length s]"

section \<open>Quoted paths\<close>

definition GIT_QUOTED_PATH_ESCAPES :: "(char \<times> char) list" where
  "GIT_QUOTED_PATH_ESCAPES =
     [(CHR ''a'', CHR 0x07), (CHR ''b'', CHR 0x08), (CHR ''t'', CHR 0x09), (CHR ''n'', CHR 0x0A), (CHR ''v'', CHR 0x0B),
      (CHR ''f'', CHR 0x0C), (CHR ''r'', CHR 0x0D), (CHR 0x5C, CHR 0x5C), (CHR 0x22, CHR 0x22)]"

definition octal_digit :: "char \<Rightarrow> bool" where
  "octal_digit c = (is_digit c \<and> digit_val c < 8)"

text \<open>The rest of the quoted content stands for the index into it.\<close>

definition decode_git_path_escape :: "string \<Rightarrow> (char \<times> string) option" where
  "decode_git_path_escape content =
     (case content of
        [] \<Rightarrow> None
      | c # rest \<Rightarrow>
          (case map_of GIT_QUOTED_PATH_ESCAPES c of
             Some b \<Rightarrow> Some (b, rest)
           | None \<Rightarrow>
               (if \<not> octal_digit c then None
                else (let digits = c # takeWhile octal_digit (take 2 rest);
                          value = foldl (\<lambda>a d. a * 8 + digit_val d) 0 digits
                      in if value \<le> 255 then Some (char_of value, drop (length digits) content) else None))))"

lemma escape_shorter: "decode_git_path_escape s = Some (b, r) \<Longrightarrow> length r < length s"
  by (auto simp: decode_git_path_escape_def Let_def split: list.splits option.splits if_splits)

function decode_git_content :: "string \<Rightarrow> string option" where
  "decode_git_content content =
     (case content of
        [] \<Rightarrow> Some []
      | c # rest \<Rightarrow>
          (if c \<noteq> CHR 0x5C
           then (if c = CHR 0x22 then None
                 else map_option (\<lambda>bs. utf8_char (of_char c) @ bs) (decode_git_content rest))
           else (case decode_git_path_escape rest of
                   None \<Rightarrow> None
                 | Some (b, r) \<Rightarrow> map_option (\<lambda>bs. b # bs) (decode_git_content r))))"
  by pat_completeness auto
termination
  by (relation "measure length") (auto dest: escape_shorter)

declare decode_git_content.simps [simp del]

definition decode_git_diff_path :: "string \<Rightarrow> codepoints option" where
  "decode_git_diff_path raw_path =
     (let raw = remove_suffix [CHR 0x09] raw_path
      in if \<not> py_startswith raw [CHR 0x22] then Some (code_text raw)
         else if length raw < 2 \<or> last raw \<noteq> CHR 0x22 then None
         else map_option fs_decode (decode_git_content (butlast (tl raw))))"

definition new_file_destination_from_diff_header :: "string \<Rightarrow> codepoints option" where
  "new_file_destination_from_diff_header raw_header =
     (let quoted = occurrences_of ([CHR 0x22] @ '' '' @ [CHR 0x22] @ ''b/'') raw_header;
          strip = remove_prefix (code_text ''b/'')
      in if py_startswith raw_header ([CHR 0x22] @ ''a/'') \<and> quoted \<noteq> []
         then (case (decode_git_diff_path (take (last quoted + 1) raw_header),
                     decode_git_diff_path (drop (last quoted + 2) raw_header)) of
                 (Some source, Some destination) \<Rightarrow>
                   (if remove_prefix (code_text ''a/'') source = strip destination then Some (strip destination) else None)
               | _ \<Rightarrow> None)
         else map_option (\<lambda>i. code_text (remove_prefix ''b/'' (drop (i + 1) raw_header)))
                (find (\<lambda>i. py_startswith (take i raw_header) ''a/''
                          \<and> drop 2 (take i raw_header) = remove_prefix ''b/'' (drop (i + 1) raw_header))
                   (occurrences_of '' b/'' raw_header)))"

section \<open>Hunks\<close>

type_synonym line_sets = "(codepoints \<times> int set) list"

definition digits_int :: "string \<Rightarrow> int" where
  "digits_int digits = int (foldl (\<lambda>a d. a * 10 + digit_val d) 0 digits)"

text \<open>\<^verbatim>\<open>re.search(r"\+(\d+)(?:,(\d+))?", line)\<close>: the start and the count, which is 1 when it is missing.\<close>

fun hunk_range :: "string \<Rightarrow> (int \<times> int) option" where
  "hunk_range [] = None"
| "hunk_range (c # rest) =
     (let start = takeWhile is_digit rest; after = drop (length start) rest;
          size = (case after of x # more \<Rightarrow> (if x = CHR '','' then takeWhile is_digit more else []) | [] \<Rightarrow> [])
      in if c = CHR ''+'' \<and> start \<noteq> []
         then Some (digits_int start, if size = [] then 1 else digits_int size)
         else hunk_range rest)"

definition lines_of :: "line_sets \<Rightarrow> codepoints \<Rightarrow> int set" where
  "lines_of d path = (case map_of d path of None \<Rightarrow> {} | Some ls \<Rightarrow> ls)"

text \<open>\<open>d.setdefault(k, v)\<close> and \<open>d[k].update(range(a, a + n))\<close>.\<close>

definition set_default :: "line_sets \<Rightarrow> codepoints \<Rightarrow> int set \<Rightarrow> line_sets" where
  "set_default d path ls = (if map_of d path = None then d @ [(path, ls)] else d)"

definition add_lines :: "line_sets \<Rightarrow> codepoints \<Rightarrow> int \<Rightarrow> int \<Rightarrow> line_sets" where
  "add_lines d path start n = AList.update path (lines_of d path \<union> set [start..start + n - 1]) d"

record diff_state =
  ds_changed_lines :: line_sets
  ds_current_file :: "codepoints option"
  ds_header_destination :: "codepoints option"
  ds_awaiting_destination_header :: bool
  ds_destination_header_seen :: bool

definition record_added_hunk_lines :: "string \<Rightarrow> diff_state \<Rightarrow> diff_state option" where
  "record_added_hunk_lines line st =
     (if \<not> py_startswith line ''@@ '' then Some st
      else if \<not> ds_destination_header_seen st then None
      else (case ds_current_file st of
              None \<Rightarrow> Some st
            | Some path \<Rightarrow>
                (case hunk_range line of
                   None \<Rightarrow> Some st
                 | Some (start, n) \<Rightarrow>
                     Some (if n > 0 then st\<lparr>ds_changed_lines := add_lines (ds_changed_lines st) path start n\<rparr>
                           else st))))"

definition initial_diff_state :: diff_state where
  "initial_diff_state = \<lparr>ds_changed_lines = [], ds_current_file = None, ds_header_destination = None,
     ds_awaiting_destination_header = False, ds_destination_header_seen = False\<rparr>"

text \<open>One line of the diff.\<close>

definition diff_step :: "string \<Rightarrow> diff_state \<Rightarrow> diff_state option" where
  "diff_step line st =
     (if py_startswith line ''diff --git ''
        then Some (st\<lparr>ds_current_file := None,
                      ds_header_destination := new_file_destination_from_diff_header (remove_prefix ''diff --git '' line),
                      ds_awaiting_destination_header := True, ds_destination_header_seen := False\<rparr>)
      else if ds_awaiting_destination_header st \<and> py_startswith line ''new file mode ''
        then map_option (\<lambda>path. st\<lparr>ds_changed_lines := set_default (ds_changed_lines st) path {1}\<rparr>)
               (ds_header_destination st)
      else if ds_awaiting_destination_header st \<and> py_startswith line ''+++ ''
        then map_option (\<lambda>destination.
               let current = (if destination = code_text ''/dev/null'' then None
                              else Some (remove_prefix (code_text ''b/'') destination))
               in st\<lparr>ds_changed_lines := (case current of None \<Rightarrow> ds_changed_lines st
                                         | Some path \<Rightarrow> set_default (ds_changed_lines st) path {}),
                     ds_current_file := current, ds_awaiting_destination_header := False,
                     ds_destination_header_seen := True\<rparr>)
             (decode_git_diff_path (drop 4 line))
      else record_added_hunk_lines line st)"

fun diff_lines :: "string list \<Rightarrow> diff_state \<Rightarrow> diff_state option" where
  "diff_lines [] st = Some st"
| "diff_lines (line # rest) st = Option.bind (diff_step line st) (diff_lines rest)"

definition parse_added_lines_from_diff :: "string \<Rightarrow> line_sets option" where
  "parse_added_lines_from_diff diff_text =
     map_option ds_changed_lines (diff_lines (py_splitlines diff_text) initial_diff_state)"

section \<open>Paths relative to the caller\<close>

abbreviation slash :: nat where
  "slash \<equiv> 47"

fun path_fields :: "codepoints \<Rightarrow> codepoints list" where
  "path_fields [] = [[]]"
| "path_fields (c # cs) =
     (if c = slash then [] # path_fields cs
      else (case path_fields cs of [] \<Rightarrow> [[c]] | f # fs \<Rightarrow> (c # f) # fs))"

text \<open>The components that \<open>posixpath.normpath\<close> keeps: a parent reference removes the component before it, and stays only in
  front of a relative path.\<close>

definition push_component :: "bool \<Rightarrow> codepoints \<Rightarrow> codepoints list \<Rightarrow> codepoints list" where
  "push_component absolute part kept =
     (if part = [] \<or> part = code_text ''.'' then kept
      else if part \<noteq> code_text ''..'' \<or> (\<not> absolute \<and> kept = []) \<or> (kept \<noteq> [] \<and> last kept = code_text ''..'')
        then kept @ [part]
      else butlast kept)"

definition norm_components :: "bool \<Rightarrow> codepoints list \<Rightarrow> codepoints list" where
  "norm_components absolute comps = foldl (\<lambda>kept part. push_component absolute part kept) [] comps"

text \<open>The components of \<open>os.path.abspath(path)\<close> below a working directory given by its components.\<close>

definition abs_components :: "codepoints list \<Rightarrow> codepoints \<Rightarrow> codepoints list" where
  "abs_components cwd path =
     norm_components True (if take 1 path = [slash] then path_fields path else cwd @ path_fields path)"

fun join_components :: "codepoints list \<Rightarrow> codepoints" where
  "join_components [] = []"
| "join_components [c] = c"
| "join_components (c # d # cs) = c @ [slash] @ join_components (d # cs)"

fun common_length :: "'a list \<Rightarrow> 'a list \<Rightarrow> nat" where
  "common_length (x # xs) (y # ys) = (if x = y then Suc (common_length xs ys) else 0)"
| "common_length _ _ = 0"

text \<open>\<open>os.path.relpath\<close> on the components of two absolute paths.\<close>

definition rel_path :: "codepoints list \<Rightarrow> codepoints list \<Rightarrow> codepoints" where
  "rel_path path start =
     (let n = common_length start path;
          comps = replicate (length start - n) (code_text ''..'') @ drop n path
      in if comps = [] then code_text ''.'' else join_components comps)"

definition normalize_report_path :: "codepoints list \<Rightarrow> codepoints \<Rightarrow> codepoints" where
  "normalize_report_path cwd path = rel_path (abs_components cwd path) cwd"

definition valid_git_path :: "codepoints \<Rightarrow> bool" where
  "valid_git_path path = (path \<noteq> [] \<and> take 1 path \<noteq> [slash] \<and> code_text ''..'' \<notin> set (path_fields path))"

fun changed_lines_relative_to_caller :: "codepoints list \<Rightarrow> codepoints \<Rightarrow> line_sets \<Rightarrow> line_sets \<Rightarrow> line_sets option" where
  "changed_lines_relative_to_caller cwd prefix [] normalized = Some normalized"
| "changed_lines_relative_to_caller cwd prefix ((raw, lines) # rest) normalized =
     (if \<not> valid_git_path raw then None
      else (let relative = rel_path (abs_components cwd raw)
              (abs_components cwd (if prefix = [] then code_text ''.'' else prefix))
            in changed_lines_relative_to_caller cwd prefix rest
                 (AList.update relative (lines_of normalized relative \<union> lines) normalized)))"

end
