(* ===== verification/Diff_Roundtrip.thy ===== *)
theory Diff_Roundtrip
  imports Changed_Lines
begin

text \<open>
  The diff parser reads what git writes: a specification of the diff text (quoted paths, extended headers, hunks) and
  the proof that parsing it yields exactly the added lines.
\<close>

section \<open>Quoted paths\<close>

text \<open>Git's quoting of a path, given by its bytes.\<close>

definition octal_char :: "nat \<Rightarrow> char" where
  "octal_char n = char_of (48 + n mod 8)"

definition git_quote_char :: "char \<Rightarrow> string" where
  "git_quote_char b =
     (case find (\<lambda>(_, v). v = b) GIT_QUOTED_PATH_ESCAPES of
        Some (k, _) \<Rightarrow> [CHR 0x5C, k]
      | None \<Rightarrow>
          (let n = (of_char b :: nat)
           in if n < 32 \<or> 126 < n then [CHR 0x5C, octal_char (n div 64), octal_char (n div 8), octal_char n] else [b]))"

definition git_quote :: "string \<Rightarrow> string" where
  "git_quote bs = [CHR 0x22] @ concat (map git_quote_char bs) @ [CHR 0x22]"

definition plain_byte :: "char \<Rightarrow> bool" where
  "plain_byte b = (git_quote_char b = [b])"

definition git_path :: "string \<Rightarrow> string" where
  "git_path bs = (if list_all plain_byte bs then bs else git_quote bs)"

lemma octal_char_digit: "octal_digit (octal_char n)" "digit_val (octal_char n) = n mod 8"
proof -
  have "n mod 8 < 8" by simp
  then have "48 + n mod 8 < 256" by linarith
  then have "(of_char (octal_char n) :: nat) = 48 + n mod 8" by (simp add: octal_char_def)
  then show "octal_digit (octal_char n)" "digit_val (octal_char n) = n mod 8"
    by (simp_all add: octal_digit_def is_digit_def digit_val_def)
qed

lemma octal_no_escape: "octal_digit c \<Longrightarrow> map_of GIT_QUOTED_PATH_ESCAPES c = None"
proof -
  have "list_all (\<lambda>(k, _). \<not> octal_digit k) GIT_QUOTED_PATH_ESCAPES" by code_simp
  then show "octal_digit c \<Longrightarrow> map_of GIT_QUOTED_PATH_ESCAPES c = None"
    by (auto simp: list_all_iff map_of_eq_None_iff)
qed

lemma decode_octal:
  assumes "n < 256"
  shows "decode_git_path_escape (octal_char (n div 64) # octal_char (n div 8) # octal_char n # r) = Some (char_of n, r)"
proof -
  have "n div 64 = n div 8 div 8" using div_mult2_eq [of n 8 8] by simp
  moreover have "n div 64 < 8" using assms by (simp add: div_less_iff_less_mult)
  ultimately have "n div 64 mod 8 * 8 + n div 8 mod 8 = n div 8" by (metis div_mult_mod_eq mod_less)
  then have "(n div 64 mod 8 * 8 + n div 8 mod 8) * 8 + n mod 8 = n" by (simp only: div_mult_mod_eq)
  with assms show ?thesis
    by (simp add: decode_git_path_escape_def octal_char_digit octal_no_escape Let_def del: distrib_right_numeral)
qed

lemma find_escape: "find (\<lambda>(_, v). v = b) GIT_QUOTED_PATH_ESCAPES = Some (k, v) \<Longrightarrow>
    v = b \<and> map_of GIT_QUOTED_PATH_ESCAPES k = Some b"
  by (auto simp: GIT_QUOTED_PATH_ESCAPES_def split: if_splits)

lemma decode_quoted_char: "decode_git_content (git_quote_char b @ r) = map_option (\<lambda>bs. b # bs) (decode_git_content r)"
proof (cases "find (\<lambda>(_, v). v = b) GIT_QUOTED_PATH_ESCAPES")
  case (Some kv)
  obtain k v where kv: "kv = (k, v)" by (cases kv)
  with Some have "map_of GIT_QUOTED_PATH_ESCAPES k = Some b" by (blast dest: find_escape)
  then show ?thesis using Some kv
    by (simp add: git_quote_char_def decode_git_content.simps [of "CHR 0x5C # k # r"] decode_git_path_escape_def)
next
  case None
  let ?n = "of_char b :: nat"
  have n: "?n < 256" by (metis mod_less_divisor of_char_mod_256 zero_less_numeral)
  show ?thesis
  proof (cases "?n < 32 \<or> 126 < ?n")
    case True
    then show ?thesis using None decode_octal [OF n, of r]
      by (simp add: git_quote_char_def Let_def decode_git_content.simps [of "CHR 0x5C # _"])
  next
    case False
    have "b \<noteq> CHR 0x5C" "b \<noteq> CHR 0x22" using None by (auto simp: GIT_QUOTED_PATH_ESCAPES_def)
    then show ?thesis using False None
      by (simp add: git_quote_char_def Let_def decode_git_content.simps [of "b # r"] utf8_char_def append_Cons [abs_def])
  qed
qed

lemma decode_quoted: "decode_git_content (concat (map git_quote_char bs)) = Some bs"
  by (induction bs) (simp_all add: decode_quoted_char decode_git_content.simps [of "[]"])

lemma plain_byte_range: "plain_byte b \<Longrightarrow> 32 \<le> (of_char b :: nat) \<and> (of_char b :: nat) \<le> 126 \<and> b \<noteq> CHR 0x22 \<and> b \<noteq> CHR 0x5C"
  by (auto simp: plain_byte_def git_quote_char_def GIT_QUOTED_PATH_ESCAPES_def Let_def split: if_splits option.splits)

lemma fs_decode_ascii: "(of_char b :: nat) < 128 \<Longrightarrow> fs_decode (b # r) = of_char b # fs_decode r"
  by (subst fs_decode.simps) (simp add: Let_def)

lemma fs_decode_Nil [simp]: "fs_decode [] = []"
  by (simp add: fs_decode.simps)

lemma fs_decode_plain: "list_all plain_byte p \<Longrightarrow> fs_decode (p @ r) = code_text p @ fs_decode r"
proof (induction p)
  case (Cons b p)
  then have "(of_char b :: nat) < 128" using plain_byte_range [of b] by simp
  with Cons show ?case by (simp add: fs_decode_ascii code_text_def)
qed (simp add: code_text_def)

lemma plain_prefix: "list_all plain_byte ''a/''" "list_all plain_byte ''b/''" by code_simp+

lemma startswith_iff: "py_startswith s p \<longleftrightarrow> take (length p) s = p"
  by (induction s p rule: py_startswith.induct) auto

lemma remove_tab: "remove_suffix [t] (s @ [t]) = s" "s = [] \<or> last s \<noteq> t \<Longrightarrow> remove_suffix [t] s = s"
proof -
  show "remove_suffix [t] (s @ [t]) = s" by (simp add: remove_suffix_def remove_prefix_def)
  show "remove_suffix [t] s = s" if "s = [] \<or> last s \<noteq> t"
    using that by (cases s rule: rev_cases) (auto simp: remove_suffix_def remove_prefix_def)
qed

lemma decode_raw:
  assumes "raw = git_path bs" and "bs \<noteq> []"
  shows "decode_git_diff_path raw = Some (fs_decode bs) \<and> decode_git_diff_path (raw @ [CHR 0x09]) = Some (fs_decode bs)"
proof -
  have "remove_suffix [CHR 0x09] raw = raw"
  proof (rule remove_tab(2), rule disjI2)
    have "\<not> plain_byte (CHR 0x09)" by code_simp
    then show "last raw \<noteq> CHR 0x09" using assms
      by (auto simp: git_path_def git_quote_def list_all_iff) (metis last_in_set)
  qed
  moreover have "(if \<not> py_startswith raw [CHR 0x22] then Some (code_text raw)
         else if length raw < 2 \<or> last raw \<noteq> CHR 0x22 then None
         else map_option fs_decode (decode_git_content (butlast (tl raw)))) = Some (fs_decode bs)"
  proof (cases "list_all plain_byte bs")
    case True
    then have "raw = bs" "hd bs \<noteq> CHR 0x22"
      using assms plain_byte_range [of "hd bs"] by (cases bs; simp add: git_path_def)+
    then have "\<not> py_startswith raw [CHR 0x22]" using assms(2) by (cases raw) auto
    with True \<open>raw = bs\<close> fs_decode_plain [OF True, of "[]"] show ?thesis by simp
  next
    case False
    then show ?thesis using assms(1) by (simp add: git_path_def git_quote_def decode_quoted butlast_append)
  qed
  ultimately show ?thesis by (simp add: decode_git_diff_path_def remove_tab(1) Let_def)
qed

lemma decode_prefixed:
  assumes "list_all plain_byte pre" and "pre \<noteq> []"
  shows "decode_git_diff_path (git_path (pre @ bs)) = Some (code_text pre @ fs_decode bs)"
    and "decode_git_diff_path (git_path (pre @ bs) @ [CHR 0x09]) = Some (code_text pre @ fs_decode bs)"
  using decode_raw [OF refl, of "pre @ bs"] assms by (simp_all add: fs_decode_plain)

section \<open>The destination in the header\<close>

lemma find_unique:
  assumes "x \<in> set xs" and "P x" and "\<And>y. y \<in> set xs \<Longrightarrow> P y \<Longrightarrow> y = x"
  shows "find P xs = Some x"
proof (cases "find P xs")
  case None
  with assms(1,2) show ?thesis by (auto simp: find_None_iff)
next
  case (Some y)
  then have "P y \<and> y \<in> set xs" by (auto simp: find_Some_iff)
  with assms(3) Some show ?thesis by blast
qed

definition header_of :: "string \<Rightarrow> string" where
  "header_of bs = git_path (''a/'' @ bs) @ '' '' @ git_path (''b/'' @ bs)"

lemma remove_prefix_append [simp]: "remove_prefix p (p @ s) = s"
  by (simp add: remove_prefix_def)

lemma occurrence_iff: "i \<in> set (occurrences_of p s) \<longleftrightarrow> i < length s \<and> take (length p) (drop i s) = p"
  by (simp add: occurrences_of_def startswith_iff)

lemma drop_step:
  assumes "take 3 (drop j s) = [x, y, z]"
  shows "take 2 (drop (j + 1) s) = [y, z]"
proof -
  have "drop (j + 1) s = tl (drop j s)" by (simp add: drop_Suc tl_drop)
  with assms show ?thesis
    by (cases "drop j s"; cases "tl (drop j s)"; cases "tl (tl (drop j s))") auto
qed

lemma header_plain:
  assumes "list_all plain_byte bs"
  shows "new_file_destination_from_diff_header (header_of bs) = Some (fs_decode bs)"
proof -
  define h where "h = ''a/'' @ bs @ '' b/'' @ bs"
  define i where "i = 2 + length bs"
  let ?P = "\<lambda>i. py_startswith (take i h) ''a/'' \<and> drop 2 (take i h) = remove_prefix ''b/'' (drop (i + 1) h)"
  have h: "header_of bs = h" using assms plain_prefix by (simp add: header_of_def git_path_def h_def)
  have at: "take i h = ''a/'' @ bs" "drop i h = '' b/'' @ bs" "drop (Suc i) h = ''b/'' @ bs" "length h = 2 * length bs + 5"
    by (simp_all add: h_def i_def)
  have "find ?P (occurrences_of '' b/'' h) = Some i"
  proof (rule find_unique)
    show "i \<in> set (occurrences_of '' b/'' h)" unfolding occurrence_iff at by (simp add: i_def)
    show "?P i" by (simp add: at remove_prefix_def)
    fix j
    assume j: "j \<in> set (occurrences_of '' b/'' h)" "?P j"
    then have "take 2 (drop (j + 1) h) = ''b/''" unfolding occurrence_iff by (intro drop_step) (simp add: numeral_3_eq_3)
    then have "remove_prefix ''b/'' (drop (j + 1) h) = drop 2 (drop (j + 1) h)"
      by (simp add: remove_prefix_def numeral_2_eq_2)
    then have "length (drop 2 (take j h)) = length (drop 2 (drop (j + 1) h))" using j(2) by simp
    then show "j = i" using j(1) unfolding occurrence_iff length_drop length_take at i_def by linarith
  qed
  moreover have "\<not> py_startswith h ([CHR 0x22] @ ''a/'')" by (simp add: h_def)
  ultimately show ?thesis
    using fs_decode_plain [OF assms, of "[]"]
    by (simp add: new_file_destination_from_diff_header_def h Let_def at) (simp add: remove_prefix_def)
qed

text \<open>In a quoted path a blank is followed by a quote only at the end.\<close>

lemma quote_char_cases:
  obtains "git_quote_char b = [b]" "b \<noteq> CHR 0x22" "b \<noteq> CHR 0x5C"
  | k where "git_quote_char b = [CHR 0x5C, k]" "k \<noteq> CHR '' ''"
  | x y z where "git_quote_char b = [CHR 0x5C, x, y, z]" "x \<noteq> CHR '' ''" "y \<noteq> CHR '' ''" "z \<noteq> CHR '' ''"
proof (cases "find (\<lambda>(_, v). v = b) GIT_QUOTED_PATH_ESCAPES")
  case (Some kv)
  obtain k v where kv: "kv = (k, v)" by (cases kv)
  have "map_of GIT_QUOTED_PATH_ESCAPES k = Some b" using Some kv by (blast dest: find_escape)
  then have "k \<noteq> CHR '' ''" by (auto simp: GIT_QUOTED_PATH_ESCAPES_def)
  with Some kv that(2) [of k] show thesis by (simp add: git_quote_char_def)
next
  case None
  then have b: "b \<noteq> CHR 0x22" "b \<noteq> CHR 0x5C" by (auto simp: GIT_QUOTED_PATH_ESCAPES_def)
  have "octal_char n \<noteq> CHR '' ''" for n
  proof
    assume "octal_char n = CHR '' ''"
    moreover have "\<not> octal_digit (CHR '' '')" by code_simp
    ultimately show False using octal_char_digit(1) [of n] by simp
  qed
  note digits = this this this
  show thesis
  proof (cases "(of_char b :: nat) < 32 \<or> 126 < (of_char b :: nat)")
    case True
    with None show ?thesis by (intro that(3) [OF _ digits]) (auto simp: git_quote_char_def Let_def)
  next
    case False
    with None b show ?thesis by (intro that(1)) (auto simp: git_quote_char_def Let_def)
  qed
qed

lemma quoted_gap:
  "concat (map git_quote_char bs) @ [CHR 0x22] = us @ CHR '' '' # CHR 0x22 # vs \<Longrightarrow> vs = []"
proof (induction bs arbitrary: us)
  case Nil
  then show ?case by (cases us) auto
next
  case (Cons b bs)
  let ?rest = "concat (map git_quote_char bs) @ [CHR 0x22]"
  have first: "hd ?rest \<noteq> CHR 0x22" if "bs \<noteq> []"
  proof (cases bs)
    case (Cons c cs)
    show ?thesis by (rule quote_char_cases [of c]) (simp_all add: Cons)
  qed (use that in simp)
  have step: "vs = []" if "?rest = ws @ CHR '' '' # CHR 0x22 # vs" for ws using Cons.IH that by blast
  show ?case
  proof (rule quote_char_cases [of b])
    assume q: "git_quote_char b = [b]" "b \<noteq> CHR 0x22" "b \<noteq> CHR 0x5C"
    show ?thesis
    proof (cases us)
      case Nil
      then have r: "?rest = CHR 0x22 # vs" using Cons.prems q by simp
      then have "bs = []" using first by (metis list.sel(1))
      with r show ?thesis by simp
    next
      case (Cons u ws)
      then show ?thesis using Cons.prems q by (intro step [of ws]) simp
    qed
  next
    fix k assume q: "git_quote_char b = [CHR 0x5C, k]" "k \<noteq> CHR '' ''"
    then obtain ws where "us = CHR 0x5C # k # ws" using Cons.prems
      by (cases us; cases "tl us") auto
    then show ?thesis using Cons.prems q by (intro step [of ws]) simp
  next
    fix x y z assume q: "git_quote_char b = [CHR 0x5C, x, y, z]" "x \<noteq> CHR '' ''" "y \<noteq> CHR '' ''" "z \<noteq> CHR '' ''"
    then obtain ws where "us = CHR 0x5C # x # y # z # ws" using Cons.prems
      by (cases us; cases "tl us"; cases "tl (tl us)"; cases "tl (tl (tl us))") auto
    then show ?thesis using Cons.prems q by (intro step [of ws]) simp
  qed
qed

lemma quoted_no_separator: "take 5 (drop k (git_quote bs)) \<noteq> [CHR 0x22, CHR '' '', CHR 0x22, CHR ''b'', CHR ''/'']"
proof
  assume a: "take 5 (drop k (git_quote bs)) = [CHR 0x22, CHR '' '', CHR 0x22, CHR ''b'', CHR ''/'']"
  define us where "us = take k (git_quote bs)"
  define vs where "vs = drop 5 (drop k (git_quote bs))"
  have "git_quote bs = us @ [CHR 0x22, CHR '' '', CHR 0x22, CHR ''b'', CHR ''/''] @ vs"
    unfolding us_def vs_def a [symmetric] by (simp only: append_take_drop_id)
  then have e: "CHR 0x22 # concat (map git_quote_char bs) @ [CHR 0x22]
      = us @ [CHR 0x22, CHR '' '', CHR 0x22, CHR ''b'', CHR ''/''] @ vs" by (simp add: git_quote_def)
  show False
  proof (cases us)
    case Nil
    with e quoted_gap [of bs "[]" "CHR ''b'' # CHR ''/'' # vs"] show ?thesis by simp
  next
    case (Cons u ws)
    with e have "concat (map git_quote_char bs) @ [CHR 0x22]
        = (ws @ [CHR 0x22]) @ CHR '' '' # CHR 0x22 # CHR ''b'' # CHR ''/'' # vs" by auto
    from quoted_gap [OF this] show ?thesis by simp
  qed
qed

lemma last_occurrence:
  assumes "i \<in> set (occurrences_of p s)" and "\<And>j. i < j \<Longrightarrow> j \<notin> set (occurrences_of p s)"
  shows "occurrences_of p s \<noteq> []" and "last (occurrences_of p s) = i"
proof -
  show ne: "occurrences_of p s \<noteq> []" using assms(1) by auto
  have sorted: "sorted (occurrences_of p s)" by (simp add: occurrences_of_def sorted_filter [where f = id, simplified])
  have "i \<le> last (occurrences_of p s)"
    using assms(1) sorted by (cases "occurrences_of p s" rule: rev_cases) (auto simp: sorted_append)
  moreover have "last (occurrences_of p s) \<in> set (occurrences_of p s)" using ne by simp
  ultimately show "last (occurrences_of p s) = i" using assms(2) by (metis le_neq_implies_less)
qed

lemma header_quoted:
  assumes "\<not> list_all plain_byte bs"
  shows "new_file_destination_from_diff_header (header_of bs) = Some (fs_decode bs)"
proof -
  let ?pat = "[CHR 0x22, CHR '' '', CHR 0x22, CHR ''b'', CHR ''/'']"
  define a where "a = git_quote (''a/'' @ bs)"
  define b where "b = git_quote (''b/'' @ bs)"
  define h where "h = a @ '' '' @ b"
  have ab: "git_path (''a/'' @ bs) = a" "git_path (''b/'' @ bs) = b"
    using assms by (simp_all add: git_path_def a_def b_def)
  then have h: "header_of bs = h" by (simp add: header_of_def h_def)
  have plain: "git_quote_char (CHR ''a'') = ''a''" "git_quote_char (CHR ''b'') = ''b''" "git_quote_char (CHR ''/'') = ''/''"
    by code_simp+
  define i where "i = length a - 1"
  have a: "a \<noteq> []" "last a = CHR 0x22" "take 3 a = [CHR 0x22, CHR ''a'', CHR ''/'']" "length a = i + 1" "3 \<le> length a"
    by (simp_all add: a_def i_def git_quote_def plain numeral_3_eq_3)
  have b: "take 3 b = [CHR 0x22, CHR ''b'', CHR ''/'']" by (simp add: b_def git_quote_def plain numeral_3_eq_3)
  have at: "drop i h = [CHR 0x22, CHR '' ''] @ b"
  proof -
    have "drop i a = [last a]" using a(1,4) by (metis add_diff_cancel_right' append_butlast_last_id append_eq_conv_conj length_butlast)
    then show ?thesis using a(2,4) by (simp add: h_def)
  qed
  have in_h: "i \<in> set (occurrences_of ?pat h)"
  proof -
    have "i < length h" using a(4) by (simp add: h_def)
    moreover have "take (length ?pat) (drop i h) = ?pat" using b unfolding at by (simp add: numeral_3_eq_3)
    ultimately show ?thesis unfolding occurrence_iff by blast
  qed
  have after: "j \<notin> set (occurrences_of ?pat h)" if j: "i < j" for j
  proof
    assume "j \<in> set (occurrences_of ?pat h)"
    then have t: "take 5 (drop j h) = ?pat" by (simp add: occurrence_iff eval_nat_numeral)
    have "drop j h = drop (j - i) ([CHR 0x22, CHR '' ''] @ b)" unfolding at [symmetric] using j by simp
    moreover obtain k where "j - i = Suc k" using j by (cases "j - i") auto
    ultimately have d: "drop j h = drop k (CHR '' '' # b)" by simp
    show False
    proof (cases k)
      case 0
      with t d show ?thesis by simp
    next
      case (Suc l)
      with t d quoted_no_separator [of l "''b/'' @ bs"] show ?thesis by (simp add: b_def)
    qed
  qed
  note last = last_occurrence [OF in_h after]
  have parts: "take (i + 1) h = a" "drop (i + 2) h = b" using a(4) by (simp_all add: h_def)
  have "py_startswith h ([CHR 0x22] @ ''a/'')" using a(3,5) by (simp add: startswith_iff h_def numeral_3_eq_3)
  moreover have "decode_git_diff_path a = Some (code_text ''a/'' @ fs_decode bs)"
    "decode_git_diff_path b = Some (code_text ''b/'' @ fs_decode bs)"
    unfolding ab [symmetric] using plain_prefix by (intro decode_prefixed(1); simp)+
  ultimately show ?thesis using last parts by (simp add: new_file_destination_from_diff_header_def h Let_def)
qed

lemma header_destination: "new_file_destination_from_diff_header (header_of bs) = Some (fs_decode bs)"
  by (cases "list_all plain_byte bs") (rule header_plain header_quoted, assumption)+

section \<open>The text of a diff\<close>

text \<open>A specification of the zero-context diff that git prints for a list of files: the header with both paths, the extended
  headers, and, when there are hunks, the two path lines and the hunks. A path with a blank ends with a tabulator on its
  line. A body line starts with a plus, a minus or a backslash.\<close>

datatype git_status = GitModified | GitNew | GitDeleted

record git_hunk =
  gh_old :: "nat \<times> nat"
  gh_new :: "nat \<times> nat"
  gh_context :: string
  gh_body :: "string list"

record git_file =
  gf_path :: string
  gf_status :: git_status
  gf_hunks :: "git_hunk list"

definition range_text :: "nat \<times> nat \<Rightarrow> string" where
  "range_text r = show_nat (fst r) @ (if snd r = 1 then [] else '','' @ show_nat (snd r))"

definition hunk_lines :: "git_hunk \<Rightarrow> string list" where
  "hunk_lines g = (''@@ -'' @ range_text (gh_old g) @ '' +'' @ range_text (gh_new g) @ '' @@'' @ gh_context g) # gh_body g"

definition path_line :: "string \<Rightarrow> string" where
  "path_line bs = git_path bs @ (if list_all plain_byte bs \<and> CHR '' '' \<in> set bs then [CHR 0x09] else [])"

definition extended_headers :: "git_file \<Rightarrow> string list" where
  "extended_headers f =
     (case gf_status f of
        GitModified \<Rightarrow> [] | GitNew \<Rightarrow> [''new file mode 100644''] | GitDeleted \<Rightarrow> [''deleted file mode 100644''])
     @ [''index 1234567..89abcde 100644'']"

definition file_lines :: "git_file \<Rightarrow> string list" where
  "file_lines f =
     (''diff --git '' @ header_of (gf_path f)) # extended_headers f
     @ (if gf_hunks f = [] then []
        else [''--- '' @ (if gf_status f = GitNew then ''/dev/null'' else path_line (''a/'' @ gf_path f)),
              ''+++ '' @ (if gf_status f = GitDeleted then ''/dev/null'' else path_line (''b/'' @ gf_path f))]
             @ concat (map hunk_lines (gf_hunks f)))"

definition diff_text_of :: "git_file list \<Rightarrow> string" where
  "diff_text_of files = concat (map (\<lambda>l. l @ [CHR 0x0A]) (concat (map file_lines files)))"

definition unbroken :: "string \<Rightarrow> bool" where
  "unbroken l = list_all (\<lambda>c. \<not> py_is_linebreak c) l"

definition body_ok :: "string \<Rightarrow> bool" where
  "body_ok l = (unbroken l \<and> l \<noteq> [] \<and> hd l \<in> {CHR ''+'', CHR ''-'', CHR 0x5C})"

definition hunk_ok :: "git_hunk \<Rightarrow> bool" where
  "hunk_ok g = (unbroken (gh_context g) \<and> (gh_context g = [] \<or> hd (gh_context g) = CHR '' '') \<and> list_all body_ok (gh_body g))"

text \<open>What the parser has to find: the added lines of a file, and line 1 for a new file even if it is empty.\<close>

definition hunk_added :: "git_hunk \<Rightarrow> int set" where
  "hunk_added g = {int (fst (gh_new g)) ..< int (fst (gh_new g)) + int (snd (gh_new g))}"

definition file_added :: "git_file \<Rightarrow> line_sets" where
  "file_added f =
     (case gf_status f of
        GitDeleted \<Rightarrow> []
      | GitNew \<Rightarrow> [(fs_decode (gf_path f), {1} \<union> \<Union> (set (map hunk_added (gf_hunks f))))]
      | GitModified \<Rightarrow> (if gf_hunks f = [] then [] else [(fs_decode (gf_path f), \<Union> (set (map hunk_added (gf_hunks f))))]))"

section \<open>Reading it back\<close>

lemma splitlines_line:
  "unbroken l \<Longrightarrow> py_splitlines_acc acc (l @ CHR 0x0A # rest) = (rev acc @ l) # py_splitlines_acc [] rest"
proof (induction l arbitrary: acc)
  case Nil
  have "py_is_linebreak (CHR 0x0A)" by code_simp
  moreover have "after_break (CHR 0x0A) rest = rest" by (cases rest) simp_all
  ultimately show ?case by simp
qed (simp add: unbroken_def)

lemma splitlines_text:
  "list_all unbroken ls \<Longrightarrow> py_splitlines (concat (map (\<lambda>l. l @ [CHR 0x0A]) ls)) = ls"
  by (induction ls) (simp_all add: py_splitlines_def splitlines_line)

lemma diff_lines_append: "diff_lines (xs @ ys) st = Option.bind (diff_lines xs st) (diff_lines ys)"
proof (induction xs arbitrary: st)
  case (Cons x xs)
  then show ?case by (cases "diff_step x st") simp_all
qed simp

lemma digits_value: "foldl (\<lambda>a d. a * 10 + digit_val d) 0 (show_nat n) = n" "list_all is_digit (show_nat n)" "show_nat n \<noteq> []"
proof -
  have d: "n < 10 \<Longrightarrow> is_digit (char_of (48 + n)) \<and> digit_val (char_of (48 + n)) = n" for n :: nat
    by (simp add: is_digit_def digit_val_def)
  have "foldl (\<lambda>a d. a * 10 + digit_val d) 0 (show_nat n) = n \<and> list_all is_digit (show_nat n) \<and> show_nat n \<noteq> []"
  proof (induction n rule: less_induct)
    case (less n)
    show ?case
    proof (cases "n < 10")
      case True
      with d [of n] show ?thesis by (simp add: show_nat.simps [of n])
    next
      case False
      with less [of "n div 10"] d [of "n mod 10"] show ?thesis by (simp add: show_nat.simps [of n])
    qed
  qed
  then show "foldl (\<lambda>a d. a * 10 + digit_val d) 0 (show_nat n) = n" "list_all is_digit (show_nat n)" "show_nat n \<noteq> []"
    by blast+
qed

lemma takeWhile_digits:
  "list_all is_digit ds \<Longrightarrow> r = [] \<or> \<not> is_digit (hd r) \<Longrightarrow> takeWhile is_digit (ds @ r) = ds"
  by (induction ds) (cases r; auto)+

lemma hunk_range_skip: "list_all (\<lambda>c. c \<noteq> CHR ''+'') pre \<Longrightarrow> hunk_range (pre @ r) = hunk_range r"
  by (induction pre) simp_all

lemma digits_no_plus: "list_all is_digit ds \<Longrightarrow> list_all (\<lambda>c. c \<noteq> CHR ''+'') ds"
proof -
  have "\<not> is_digit (CHR ''+'')" by code_simp
  then show "list_all is_digit ds \<Longrightarrow> list_all (\<lambda>c. c \<noteq> CHR ''+'') ds" by (auto simp: list_all_iff)
qed

lemma range_text_no_plus: "list_all (\<lambda>c. c \<noteq> CHR ''+'') (range_text r)"
  using digits_no_plus [OF digits_value(2)] by (auto simp: range_text_def)

lemma hunk_range_header:
  "hunk_range (''@@ -'' @ range_text r @ '' +'' @ range_text (a, n) @ '' @@'' @ ctx) = Some (int a, int n)"
proof -
  have sep: "\<not> is_digit (CHR '' '')" "\<not> is_digit (CHR '','')" by code_simp+
  have "hunk_range ((''@@ -'' @ range_text r @ '' '') @ ''+'' @ range_text (a, n) @ '' @@'' @ ctx)
      = hunk_range (''+'' @ range_text (a, n) @ '' @@'' @ ctx)"
    by (rule hunk_range_skip) (simp add: range_text_no_plus)
  moreover have "hunk_range (''+'' @ range_text (a, n) @ '' @@'' @ ctx) = Some (int a, int n)"
  proof (cases "n = 1")
    case True
    have "takeWhile is_digit (show_nat a @ '' @@'' @ ctx) = show_nat a"
      using digits_value(2) sep(1) by (intro takeWhile_digits) simp_all
    with True show ?thesis by (simp add: range_text_def digits_value digits_int_def Let_def)
  next
    case False
    have "takeWhile is_digit (show_nat a @ '','' @ show_nat n @ '' @@'' @ ctx) = show_nat a"
      using digits_value(2) sep(2) by (intro takeWhile_digits) simp_all
    moreover have "takeWhile is_digit (show_nat n @ '' @@'' @ ctx) = show_nat n"
      using digits_value(2) sep(1) by (intro takeWhile_digits) simp_all
    ultimately show ?thesis using False by (simp add: range_text_def digits_value digits_int_def Let_def)
  qed
  ultimately show ?thesis by simp
qed

lemma update_last: "k \<notin> fst ` set c \<Longrightarrow> AList.update k v (c @ [(k, w)]) = c @ [(k, v)]"
  by (induction c) auto

lemma lines_of_last: "k \<notin> fst ` set c \<Longrightarrow> lines_of (c @ [(k, w)]) k = w"
  by (simp add: lines_of_def map_of_append map_add_def split: option.split) (metis map_of_SomeD fst_conv image_eqI)

text \<open>Within the hunks of a file.\<close>

definition in_hunks :: "codepoints option \<Rightarrow> diff_state \<Rightarrow> bool" where
  "in_hunks current st = (ds_current_file st = current \<and> \<not> ds_awaiting_destination_header st \<and> ds_destination_header_seen st)"

lemma body_step: "body_ok l \<Longrightarrow> in_hunks current st \<Longrightarrow> diff_step l st = Some st"
  by (cases l) (auto simp: body_ok_def in_hunks_def diff_step_def record_added_hunk_lines_def)

lemma body_steps: "list_all body_ok ls \<Longrightarrow> in_hunks current st \<Longrightarrow> diff_lines ls st = Some st"
  by (induction ls) (simp_all add: body_step)

lemma hunk_deleted:
  assumes "hunk_ok g" and "in_hunks None st"
  shows "diff_lines (hunk_lines g) st = Some st"
  using assms body_steps [of "gh_body g" None st]
  by (simp add: hunk_lines_def hunk_ok_def diff_step_def record_added_hunk_lines_def in_hunks_def)

lemma hunk_step:
  assumes "hunk_ok g" and "in_hunks (Some path) st" and "ds_changed_lines st = c @ [(path, S)]" and "path \<notin> fst ` set c"
  shows "diff_lines (hunk_lines g) st = Some (st\<lparr>ds_changed_lines := c @ [(path, S \<union> hunk_added g)]\<rparr>)"
proof -
  let ?st = "st\<lparr>ds_changed_lines := c @ [(path, S \<union> hunk_added g)]\<rparr>"
  let ?line = "''@@ -'' @ range_text (gh_old g) @ '' +'' @ range_text (gh_new g) @ '' @@'' @ gh_context g"
  obtain a n where new: "gh_new g = (a, n)" by (cases "gh_new g")
  have range: "hunk_range ?line = Some (int a, int n)" unfolding new by (rule hunk_range_header)
  have added: "hunk_added g = {int a .. int a + int n - 1}" by (auto simp: hunk_added_def new)
  have "record_added_hunk_lines ?line st = Some ?st"
  proof (cases n)
    case 0
    then have "?st = st" using assms(3) added by (cases st) simp
    with 0 show ?thesis using assms(2) range by (simp add: record_added_hunk_lines_def in_hunks_def)
  next
    case (Suc m)
    then show ?thesis using assms range added
      by (simp add: record_added_hunk_lines_def in_hunks_def add_lines_def update_last lines_of_last)
  qed
  then have "diff_step ?line st = Some ?st" using assms(2) by (simp add: diff_step_def in_hunks_def)
  moreover have "diff_lines (gh_body g) ?st = Some ?st"
    using assms(1,2) by (intro body_steps [of _ "Some path"]) (simp_all add: hunk_ok_def in_hunks_def)
  ultimately show ?thesis by (simp add: hunk_lines_def)
qed

lemma hunks_deleted:
  "list_all hunk_ok gs \<Longrightarrow> in_hunks None st \<Longrightarrow> diff_lines (concat (map hunk_lines gs)) st = Some st"
  by (induction gs) (simp_all add: diff_lines_append hunk_deleted)

lemma hunks_step:
  assumes "list_all hunk_ok gs" and "in_hunks (Some path) st" and "ds_changed_lines st = c @ [(path, S)]"
    and "path \<notin> fst ` set c"
  shows "diff_lines (concat (map hunk_lines gs)) st
    = Some (st\<lparr>ds_changed_lines := c @ [(path, S \<union> \<Union> (set (map hunk_added gs)))]\<rparr>)"
  using assms
proof (induction gs arbitrary: st S)
  case Nil
  then show ?case by (cases st) simp
next
  case (Cons g gs)
  let ?st = "st\<lparr>ds_changed_lines := c @ [(path, S \<union> hunk_added g)]\<rparr>"
  have "diff_lines (concat (map hunk_lines gs)) ?st
      = Some (?st\<lparr>ds_changed_lines := c @ [(path, (S \<union> hunk_added g) \<union> \<Union> (set (map hunk_added gs)))]\<rparr>)"
    using Cons.prems by (intro Cons.IH) (simp_all add: in_hunks_def)
  with Cons.prems show ?case by (simp add: diff_lines_append hunk_step Un_assoc)
qed


text \<open>The two path lines of a file with hunks.\<close>

lemma decode_path_line:
  assumes "list_all plain_byte pre" and "pre \<noteq> []"
  shows "decode_git_diff_path (path_line (pre @ bs)) = Some (code_text pre @ fs_decode bs)"
  using decode_prefixed [OF assms, of bs] by (simp add: path_line_def)

lemma unlisted_default: "path \<notin> fst ` set c \<Longrightarrow> set_default c path S = c @ [(path, S)]"
  by (simp add: set_default_def map_of_eq_None_iff)

lemma listed_default: "set_default (c @ [(path, S)]) path T = c @ [(path, S)]"
  by (simp add: set_default_def map_of_eq_None_iff)

lemma destination_step:
  assumes "ds_awaiting_destination_header st"
  shows "diff_step (''+++ '' @ path_line (''b/'' @ bs)) st
    = Some (st\<lparr>ds_changed_lines := set_default (ds_changed_lines st) (fs_decode bs) {},
               ds_current_file := Some (fs_decode bs), ds_awaiting_destination_header := False,
               ds_destination_header_seen := True\<rparr>)"
proof -
  have "code_text ''b/'' @ fs_decode bs \<noteq> code_text ''/dev/null''" by (simp add: code_text_def)
  with assms decode_path_line [OF plain_prefix(2), of bs] show ?thesis by (simp add: diff_step_def Let_def)
qed

lemma deletion_step:
  assumes "ds_awaiting_destination_header st"
  shows "diff_step ''+++ /dev/null'' st
    = Some (st\<lparr>ds_current_file := None, ds_awaiting_destination_header := False, ds_destination_header_seen := True\<rparr>)"
proof -
  have "decode_git_diff_path ''/dev/null'' = Some (code_text ''/dev/null'')" by code_simp
  with assms show ?thesis by (cases st) (simp add: diff_step_def Let_def)
qed

lemma silent_step:
  assumes "l = ''--- '' @ r \<or> l = ''index '' @ r \<or> l = ''deleted file mode '' @ r"
  shows "diff_step l st = Some st"
proof -
  have "\<not> py_startswith l ''diff --git ''" "\<not> py_startswith l ''new file mode ''" "\<not> py_startswith l ''+++ ''"
    "\<not> py_startswith l ''@@ ''"
    using assms by (elim disjE; simp)+
  then show ?thesis by (simp add: diff_step_def record_added_hunk_lines_def)
qed

definition header_state :: "git_file \<Rightarrow> diff_state \<Rightarrow> diff_state" where
  "header_state f st =
     st\<lparr>ds_changed_lines := ds_changed_lines st @ (if gf_status f = GitNew then [(fs_decode (gf_path f), {1})] else []),
        ds_current_file := None, ds_header_destination := Some (fs_decode (gf_path f)),
        ds_awaiting_destination_header := True, ds_destination_header_seen := False\<rparr>"

lemma header_steps:
  assumes "fs_decode (gf_path f) \<notin> fst ` set (ds_changed_lines st)"
  shows "diff_lines ((''diff --git '' @ header_of (gf_path f)) # extended_headers f) st = Some (header_state f st)"
proof -
  let ?st = "st\<lparr>ds_current_file := None, ds_header_destination := Some (fs_decode (gf_path f)),
        ds_awaiting_destination_header := True, ds_destination_header_seen := False\<rparr>"
  have "diff_step (''diff --git '' @ header_of (gf_path f)) st = Some ?st"
    using remove_prefix_append [of "''diff --git ''" "header_of (gf_path f)"] header_destination [of "gf_path f"]
    by (simp add: diff_step_def)
  moreover have "diff_step ''new file mode 100644'' ?st
      = Some (?st\<lparr>ds_changed_lines := ds_changed_lines st @ [(fs_decode (gf_path f), {1})]\<rparr>)"
    using assms by (simp add: diff_step_def unlisted_default)
  moreover have "diff_step ''index 1234567..89abcde 100644'' s = Some s" "diff_step ''deleted file mode 100644'' s = Some s" for s
    by (rule silent_step; simp)+
  ultimately show ?thesis
    by (cases "gf_status f") (simp_all add: extended_headers_def header_state_def)
qed

lemma file_step:
  assumes "list_all hunk_ok (gf_hunks f)" and "fs_decode (gf_path f) \<notin> fst ` set (ds_changed_lines st)"
  shows "\<exists>st'. diff_lines (file_lines f) st = Some st' \<and> ds_changed_lines st' = ds_changed_lines st @ file_added f"
proof (cases "gf_hunks f")
  case Nil
  have "file_lines f = (''diff --git '' @ header_of (gf_path f)) # extended_headers f" by (simp add: file_lines_def Nil)
  then show ?thesis using header_steps [OF assms(2)]
    by (cases "gf_status f") (auto simp: Nil header_state_def file_added_def)
next
  case (Cons g gs)
  let ?path = "fs_decode (gf_path f)" and ?hs = "header_state f st"
  let ?minus = "''--- '' @ (if gf_status f = GitNew then ''/dev/null'' else path_line (''a/'' @ gf_path f))"
  let ?plus = "''+++ '' @ (if gf_status f = GitDeleted then ''/dev/null'' else path_line (''b/'' @ gf_path f))"
  let ?hunks = "concat (map hunk_lines (gf_hunks f))"
  have "file_lines f = ((''diff --git '' @ header_of (gf_path f)) # extended_headers f) @ [?minus, ?plus] @ ?hunks"
    by (simp add: file_lines_def Cons)
  moreover have "diff_step ?minus ?hs = Some ?hs" by (rule silent_step) blast
  ultimately have run: "diff_lines (file_lines f) st = Option.bind (diff_step ?plus ?hs) (diff_lines ?hunks)"
    using header_steps [OF assms(2)] by (simp only: diff_lines_append) simp
  have waiting: "ds_awaiting_destination_header ?hs" by (simp add: header_state_def)
  show ?thesis
  proof (cases "gf_status f = GitDeleted")
    case True
    then show ?thesis using run deletion_step [OF waiting] hunks_deleted [OF assms(1)]
      by (simp add: in_hunks_def file_added_def header_state_def)
  next
    case False
    define S where "S = (if gf_status f = GitNew then {1::int} else {})"
    let ?st = "?hs\<lparr>ds_changed_lines := ds_changed_lines st @ [(?path, S)], ds_current_file := Some ?path,
                  ds_awaiting_destination_header := False, ds_destination_header_seen := True\<rparr>"
    have "diff_step ?plus ?hs = Some ?st"
      using False destination_step [OF waiting, of "gf_path f"] assms(2)
      by (simp add: header_state_def S_def unlisted_default listed_default)
    moreover have "diff_lines ?hunks ?st
        = Some (?st\<lparr>ds_changed_lines := ds_changed_lines st @ [(?path, S \<union> \<Union> (set (map hunk_added (gf_hunks f))))]\<rparr>)"
      using assms by (intro hunks_step) (simp_all add: in_hunks_def)
    ultimately show ?thesis using run False Cons
      by (cases "gf_status f") (simp_all add: file_added_def S_def)
  qed
qed

lemma added_keys: "fst ` set (file_added f) \<subseteq> {fs_decode (gf_path f)}"
  by (auto simp: file_added_def split: git_status.splits if_splits)

lemma files_step:
  assumes "list_all (\<lambda>f. list_all hunk_ok (gf_hunks f)) files" and "distinct (map (\<lambda>f. fs_decode (gf_path f)) files)"
    and "\<forall>f \<in> set files. fs_decode (gf_path f) \<notin> fst ` set (ds_changed_lines st)"
  shows "\<exists>st'. diff_lines (concat (map file_lines files)) st = Some st'
    \<and> ds_changed_lines st' = ds_changed_lines st @ concat (map file_added files)"
  using assms
proof (induction files arbitrary: st)
  case (Cons f fs)
  from Cons.prems obtain st1 where st1: "diff_lines (file_lines f) st = Some st1"
    "ds_changed_lines st1 = ds_changed_lines st @ file_added f"
    using file_step [of f st] by auto
  have "\<forall>g \<in> set fs. fs_decode (gf_path g) \<notin> fst ` set (ds_changed_lines st1)"
  proof
    fix g assume "g \<in> set fs"
    then have "fs_decode (gf_path g) \<noteq> fs_decode (gf_path f)" "fs_decode (gf_path g) \<notin> fst ` set (ds_changed_lines st)"
      using Cons.prems(2,3) by (simp_all add: image_iff) metis
    then show "fs_decode (gf_path g) \<notin> fst ` set (ds_changed_lines st1)"
      using added_keys [of f] by (simp only: st1(2) set_append image_Un) blast
  qed
  with Cons.prems obtain st2 where "diff_lines (concat (map file_lines fs)) st1 = Some st2"
    "ds_changed_lines st2 = ds_changed_lines st1 @ concat (map file_added fs)"
    using Cons.IH [of st1] by auto
  with st1 show ?case by (simp add: diff_lines_append)
qed simp

text \<open>Every line of the diff is one line for the parser: git quotes the control characters of the paths.\<close>

lemma printable_unbroken: "list_all (\<lambda>c. 32 \<le> (of_char c :: nat) \<and> (of_char c :: nat) \<le> 126) l \<Longrightarrow> unbroken l"
proof -
  have "\<not> py_is_linebreak c" if "32 \<le> (of_char c :: nat)" "(of_char c :: nat) \<le> 126" for c
    using that by (auto simp: py_is_linebreak_def)
  then show "list_all (\<lambda>c. 32 \<le> (of_char c :: nat) \<and> (of_char c :: nat) \<le> 126) l \<Longrightarrow> unbroken l"
    by (auto simp: unbroken_def list_all_iff)
qed

lemma quote_char_unbroken: "unbroken (git_quote_char b)"
proof (cases "find (\<lambda>(_, v). v = b) GIT_QUOTED_PATH_ESCAPES")
  case (Some kv)
  obtain k v where kv: "kv = (k, v)" by (cases kv)
  have "list_all (\<lambda>(k, _). unbroken [CHR 0x5C, k]) GIT_QUOTED_PATH_ESCAPES" by code_simp
  moreover have "(k, v) \<in> set GIT_QUOTED_PATH_ESCAPES" using Some kv by (auto simp: find_Some_iff) (metis nth_mem)
  ultimately show ?thesis using Some kv by (auto simp: git_quote_char_def list_all_iff)
next
  case None
  have digit: "32 \<le> (of_char (octal_char n) :: nat) \<and> (of_char (octal_char n) :: nat) \<le> 126" for n
    using octal_char_digit(1) [of n] by (auto simp: octal_digit_def is_digit_def Let_def)
  show ?thesis using None by (intro printable_unbroken) (auto simp: git_quote_char_def Let_def digit)
qed

lemma unbroken_simps [simp]:
  "unbroken []" "unbroken (c # l) \<longleftrightarrow> \<not> py_is_linebreak c \<and> unbroken l" "unbroken (xs @ ys) \<longleftrightarrow> unbroken xs \<and> unbroken ys"
  by (simp_all add: unbroken_def)

lemma git_path_unbroken: "unbroken (git_path bs)"
proof (cases "list_all plain_byte bs")
  case True
  then have "list_all (\<lambda>c. 32 \<le> (of_char c :: nat) \<and> (of_char c :: nat) \<le> 126) bs"
    by (rule list.pred_mono_strong) (blast dest: plain_byte_range)
  with True show ?thesis by (simp add: git_path_def printable_unbroken)
next
  case False
  have "unbroken (concat (map git_quote_char bs))" by (induction bs) (simp_all add: quote_char_unbroken)
  with False show ?thesis by (simp add: git_path_def git_quote_def py_is_linebreak_def)
qed

lemma range_unbroken: "unbroken (range_text r)"
proof -
  have "unbroken (show_nat n)" for n
  proof (rule printable_unbroken)
    show "list_all (\<lambda>c. 32 \<le> (of_char c :: nat) \<and> (of_char c :: nat) \<le> 126) (show_nat n)"
      by (rule list.pred_mono_strong [OF digits_value(2)]) (auto simp: is_digit_def Let_def)
  qed
  then show ?thesis by (simp add: range_text_def py_is_linebreak_def)
qed

lemma hunk_unbroken: "hunk_ok g \<Longrightarrow> list_all unbroken (hunk_lines g)"
  using range_unbroken [of "gh_old g"] range_unbroken [of "gh_new g"]
  by (auto simp: hunk_lines_def py_is_linebreak_def hunk_ok_def body_ok_def list_all_iff)

lemma file_unbroken:
  assumes "list_all hunk_ok (gf_hunks f)"
  shows "list_all unbroken (file_lines f)"
proof -
  have "list_all unbroken (concat (map hunk_lines (gf_hunks f)))"
    using assms hunk_unbroken by (fastforce simp: list_all_iff)
  moreover have "unbroken (header_of bs)" "unbroken (path_line bs)" for bs
    by (simp_all add: header_of_def path_line_def git_path_unbroken py_is_linebreak_def)
  moreover have "list_all unbroken (extended_headers f)"
    by (cases "gf_status f") (simp_all add: extended_headers_def py_is_linebreak_def)
  ultimately show ?thesis by (simp add: file_lines_def py_is_linebreak_def)
qed

lemma parse_diff_text:
  assumes "list_all (\<lambda>f. list_all hunk_ok (gf_hunks f)) files" and "distinct (map (\<lambda>f. fs_decode (gf_path f)) files)"
  shows "parse_added_lines_from_diff (diff_text_of files) = Some (concat (map file_added files))"
proof -
  have "list_all unbroken (concat (map file_lines files))"
    using assms(1) file_unbroken by (fastforce simp: list_all_iff)
  then have "py_splitlines (diff_text_of files) = concat (map file_lines files)"
    unfolding diff_text_of_def by (rule splitlines_text)
  then show ?thesis using files_step [OF assms, of initial_diff_state]
    by (auto simp: parse_added_lines_from_diff_def initial_diff_state_def)
qed


definition demo_hunk :: git_hunk where
  "demo_hunk = \<lparr>gh_old = (2, 0), gh_new = (3, 2), gh_context = '' def f():'', gh_body = [''+++ b/x'', ''+@@ -1 +9 @@'']\<rparr>"

definition demo_files :: "git_file list" where
  "demo_files =
     [\<lparr>gf_path = ''a b.py'', gf_status = GitModified, gf_hunks = [demo_hunk]\<rparr>,
      \<lparr>gf_path = [CHR 0xC3, CHR 0xA4, CHR 0x09, CHR ''x''], gf_status = GitNew, gf_hunks = []\<rparr>,
      \<lparr>gf_path = ''c.py'', gf_status = GitDeleted, gf_hunks = [demo_hunk\<lparr>gh_new := (0, 0)\<rparr>]\<rparr>]"


text \<open>The hypothesis on line breaks is needed: \<open>str.splitlines\<close> also breaks a line at a form feed. A form feed in an added line
  lets the rest of the line pose as a file header; here the second hunk of \<open>x.py\<close> is recorded for \<open>y.py\<close>.\<close>

definition forged_diff :: string where
  "forged_diff = diff_text_of
     [\<lparr>gf_path = ''x.py'', gf_status = GitModified,
       gf_hunks = [\<lparr>gh_old = (1, 0), gh_new = (2, 1), gh_context = [],
                    gh_body = [''+'' @ [CHR 0x0C] @ ''diff --git a/y.py b/y.py'' @ [CHR 0x0C] @ ''+++ b/y.py'']\<rparr>,
                   \<lparr>gh_old = (8, 0), gh_new = (10, 1), gh_context = [], gh_body = [''+eval(data)'']\<rparr>]\<rparr>]"

lemma form_feed_forges_header:
  "parse_added_lines_from_diff forged_diff = Some [(code_text ''x.py'', {2}), (code_text ''y.py'', {10})]"
  by code_simp

end
