(* ===== verification/Changed_Evidence.thy ===== *)
theory Changed_Evidence
  imports Changed_Lines Py_Json
begin

text \<open>
  Where the changed lines of a review come from (\<^verbatim>\<open>run/runner.py\<close>): the selected paths, the identities of the index
  and of the base tree, the raw bytes of the worktree, and the corroboration of the diff by them. Git, the file system and
  the hash functions are parameters: \<open>ev_git\<close> runs a command in the caller's directory (\<open>None\<close>) or in the repository and
  gives its text output, \<open>ev_batch\<close> is \<open>git cat-file --batch\<close>, and a missing result is a command that did not run. The
  text of the outputs is Latin-1.
\<close>

record process_result =
  pr_returncode :: int
  pr_stdout :: string
  pr_stderr :: string

datatype path_state = PathMissing | PathError | PathRegular "string option" | PathSymlink "string option" | PathOther

record evidence_env =
  ev_git :: "codepoints list option \<Rightarrow> codepoints list \<Rightarrow> process_result option"
  ev_batch :: "codepoints list \<Rightarrow> string \<Rightarrow> process_result option"
  ev_no_index :: "string \<Rightarrow> string \<Rightarrow> process_result option"
  ev_cwd :: "codepoints list"
  ev_lstat :: "codepoints list \<Rightarrow> path_state"
  ev_exists :: "codepoints list \<Rightarrow> bool"
  ev_read :: "codepoints list \<Rightarrow> string option"
  ev_diff_mode :: "string option"
  ev_sha1 :: "string \<Rightarrow> string"
  ev_sha256 :: "string \<Rightarrow> string"

record CachedDiffIdentity =
  cd_base_tree :: string
  cd_index_tree :: string
  cd_caller_prefix :: codepoints

section \<open>Commands\<close>

definition is_oid :: "string \<Rightarrow> bool" where
  "is_oid s = (hex_of_length 40 s \<or> hex_of_length 64 s)"

definition run_changed_line_git_command :: "evidence_env \<Rightarrow> codepoints list \<Rightarrow> string option" where
  "run_changed_line_git_command env command =
     (case ev_git env None command of
        None \<Rightarrow> None
      | Some r \<Rightarrow> (if pr_returncode r = 0 then Some (pr_stdout r) else None))"

text \<open>The output without the newline that ends it.\<close>

definition terminated_output :: "string \<Rightarrow> string option" where
  "terminated_output out = (if out \<noteq> [] \<and> last out = CHR 0x0A then Some (butlast out) else None)"

definition git_words :: "string list \<Rightarrow> codepoints list" where
  "git_words words = map code_text words"

definition oid_output :: "process_result \<Rightarrow> string option" where
  "oid_output r =
     (case terminated_output (pr_stdout r) of
        None \<Rightarrow> None
      | Some oid \<Rightarrow> (if pr_returncode r = 0 \<and> is_oid oid then Some oid else None))"

definition git_tree_identity :: "evidence_env \<Rightarrow> codepoints list \<Rightarrow> string \<Rightarrow> string option" where
  "git_tree_identity env repository revision =
     Option.bind (ev_git env (Some repository)
       (git_words (if revision = ''index'' then [''git'', ''write-tree'']
                   else [''git'', ''rev-parse'', ''--verify'', revision @ ''^{tree}'']))) oid_output"

definition symbolic_head_is_unborn :: "evidence_env \<Rightarrow> codepoints list \<Rightarrow> bool" where
  "symbolic_head_is_unborn env repository =
     (case ev_git env (Some repository) (git_words [''git'', ''symbolic-ref'', ''-q'', ''HEAD'']) of
        None \<Rightarrow> False
      | Some symbolic \<Rightarrow>
          (let ref = remove_suffix [CHR 0x0A] (pr_stdout symbolic)
           in if pr_returncode symbolic \<noteq> 0 \<or> terminated_output (pr_stdout symbolic) = None
                 \<or> \<not> py_startswith ref ''refs/heads/'' \<or> ref = ''refs/heads/''
              then False
              else (case ev_git env (Some repository) (git_words [''git'', ''show-ref'', ''--verify'', ''--quiet'', ref]) of
                      None \<Rightarrow> False
                    | Some present \<Rightarrow> pr_returncode present = 1 \<and> pr_stdout present = [] \<and> pr_stderr present = [])))"

definition cached_base_tree_identity :: "evidence_env \<Rightarrow> codepoints list \<Rightarrow> string option" where
  "cached_base_tree_identity env repository =
     (let base_tree = git_tree_identity env repository ''HEAD''
      in if base_tree \<noteq> None \<or> \<not> symbolic_head_is_unborn env repository then base_tree
         else Option.bind (ev_git env (Some repository) (git_words [''git'', ''mktree''])) oid_output)"

section \<open>Selected paths and their identities\<close>

type_synonym selection = "(codepoints \<times> codepoints list) list"

definition as_posix :: "codepoints list \<Rightarrow> codepoints" where
  "as_posix parts = (if parts = [] then code_text ''.'' else join_components parts)"

fun select_paths :: "codepoints list \<Rightarrow> codepoints list \<Rightarrow> codepoints list \<Rightarrow> selection \<Rightarrow> selection option" where
  "select_paths cwd repository [] selected = Some selected"
| "select_paths cwd repository (path # paths) selected =
     (let absolute = abs_components cwd path; relative = as_posix (drop (length repository) absolute)
      in if take (length repository) absolute \<noteq> repository \<or> map_of selected relative \<noteq> None then None
         else select_paths cwd repository paths (selected @ [(relative, absolute)]))"

definition cached_repository_paths :: "evidence_env \<Rightarrow> codepoints list \<Rightarrow> (codepoints list \<times> selection) option" where
  "cached_repository_paths env files =
     (if files = [] then None
      else (case Option.bind (run_changed_line_git_command env (git_words [''git'', ''rev-parse'', ''--show-toplevel'']))
                   terminated_output of
              None \<Rightarrow> None
            | Some toplevel \<Rightarrow>
                (if \<not> py_startswith toplevel ''/'' then None
                 else (let repository = abs_components (ev_cwd env) (code_text toplevel)
                       in map_option (Pair repository) (select_paths (ev_cwd env) repository files [])))))"

type_synonym tree_entries = "(codepoints \<times> string \<times> string) list"

text \<open>The part before the first tabulator and, if there is one, the part after it.\<close>

definition tab_partition :: "string \<Rightarrow> string \<times> string option" where
  "tab_partition s =
     (let before = takeWhile (\<lambda>c. c \<noteq> CHR 0x09) s
      in (before, if length before < length s then Some (drop (Suc (length before)) s) else None))"

definition nul_records :: "string \<Rightarrow> string list" where
  "nul_records out = filter (\<lambda>r. r \<noteq> []) (py_split_char (CHR 0x00) out)"

fun index_entries :: "codepoints list \<Rightarrow> string list \<Rightarrow> tree_entries \<Rightarrow> tree_entries option" where
  "index_entries selected [] entries = Some entries"
| "index_entries selected (r # records) entries =
     (case tab_partition r of
        (metadata, Some path) \<Rightarrow>
          (case py_words metadata of
             [mode, oid, stage] \<Rightarrow>
               (if code_text path \<in> set selected \<and> stage = ''0'' \<and> map_of entries (code_text path) = None
                   \<and> mode \<in> {''100644'', ''100755'', ''120000''} \<and> is_oid oid
                then index_entries selected records (entries @ [(code_text path, mode, oid)]) else None)
           | _ \<Rightarrow> None)
      | (metadata, None) \<Rightarrow> None)"

definition cached_index_blobs :: "evidence_env \<Rightarrow> codepoints list \<Rightarrow> codepoints list \<Rightarrow> tree_entries option" where
  "cached_index_blobs env repository paths =
     (case ev_git env (Some repository)
             (git_words [''git'', ''--literal-pathspecs'', ''ls-files'', ''--stage'', ''-z'', ''--''] @ paths) of
        None \<Rightarrow> None
      | Some r \<Rightarrow> (if pr_returncode r \<noteq> 0 then None else index_entries paths (nul_records (pr_stdout r)) []))"

datatype raw_blob = RawMissing | RawUnavailable | RawBytes string

definition raw_of :: "string option \<Rightarrow> raw_blob" where
  "raw_of content = (case content of None \<Rightarrow> RawUnavailable | Some bytes \<Rightarrow> RawBytes bytes)"

definition raw_worktree_blob :: "evidence_env \<Rightarrow> codepoints list \<Rightarrow> string \<Rightarrow> raw_blob" where
  "raw_worktree_blob env path mode =
     (case ev_lstat env path of
        PathMissing \<Rightarrow> RawMissing
      | PathError \<Rightarrow> RawUnavailable
      | PathRegular content \<Rightarrow> (if mode = ''120000'' then RawUnavailable else raw_of content)
      | PathSymlink target \<Rightarrow> (if mode = ''120000'' then raw_of target else RawUnavailable)
      | PathOther \<Rightarrow> RawUnavailable)"

definition git_blob_oid :: "evidence_env \<Rightarrow> string \<Rightarrow> string \<Rightarrow> string option" where
  "git_blob_oid env content expected_oid =
     (let payload = ''blob '' @ show_nat (length content) @ [CHR 0x00] @ content
      in if length expected_oid = 40 then Some (ev_sha1 env payload)
         else if length expected_oid = 64 then Some (ev_sha256 env payload) else None)"

fun selected_matches_index :: "evidence_env \<Rightarrow> tree_entries \<Rightarrow> selection \<Rightarrow> bool option" where
  "selected_matches_index env index_blobs [] = Some True"
| "selected_matches_index env index_blobs ((path, absolute) # rest) =
     (case map_of index_blobs path of
        None \<Rightarrow> (case ev_lstat env absolute of
                   PathMissing \<Rightarrow> selected_matches_index env index_blobs rest
                 | PathError \<Rightarrow> None
                 | _ \<Rightarrow> Some False)
      | Some (mode, expected_oid) \<Rightarrow>
          (if mode = ''120000'' then None
           else (case raw_worktree_blob env absolute mode of
                   RawUnavailable \<Rightarrow> None
                 | RawMissing \<Rightarrow> Some False
                 | RawBytes content \<Rightarrow>
                     (if git_blob_oid env content expected_oid \<noteq> Some expected_oid then Some False
                      else selected_matches_index env index_blobs rest))))"

definition cached_worktree_matches_index :: "evidence_env \<Rightarrow> codepoints list \<Rightarrow> bool option" where
  "cached_worktree_matches_index env files =
     (case cached_repository_paths env files of
        None \<Rightarrow> None
      | Some (repository, selected) \<Rightarrow>
          (case cached_index_blobs env repository (map fst selected) of
             None \<Rightarrow> None
           | Some index_blobs \<Rightarrow> selected_matches_index env index_blobs selected))"

section \<open>Base tree and blobs\<close>

definition parse_cached_tree_entry :: "string \<Rightarrow> (codepoints \<times> string \<times> string) option" where
  "parse_cached_tree_entry r =
     (case tab_partition r of
        (metadata, None) \<Rightarrow> None
      | (metadata, Some path) \<Rightarrow>
          (case py_words metadata of
             [mode, object_type, oid] \<Rightarrow>
               (if path = [] \<or> py_startswith path ''/'' \<or> code_text ''..'' \<in> set (path_fields (code_text path)) then None
                else if (object_type = ''commit'' \<and> mode = ''160000''
                         \<or> object_type = ''blob'' \<and> mode \<in> {''100644'', ''100755'', ''120000''}) \<and> is_oid oid
                  then Some (code_text path, mode, oid) else None)
           | _ \<Rightarrow> None))"

fun tree_records :: "string list \<Rightarrow> tree_entries \<Rightarrow> tree_entries option" where
  "tree_records [] entries = Some entries"
| "tree_records (r # records) entries =
     (case parse_cached_tree_entry r of
        None \<Rightarrow> None
      | Some (path, entry) \<Rightarrow>
          (if map_of entries path \<noteq> None then None else tree_records records (entries @ [(path, entry)])))"

definition cached_tree_entries :: "evidence_env \<Rightarrow> codepoints list \<Rightarrow> string \<Rightarrow> tree_entries option" where
  "cached_tree_entries env repository tree_oid =
     (case ev_git env (Some repository) (git_words [''git'', ''ls-tree'', ''-r'', ''-z'', tree_oid]) of
        None \<Rightarrow> None
      | Some r \<Rightarrow> (if pr_returncode r \<noteq> 0 then None else tree_records (nul_records (pr_stdout r)) []))"

text \<open>\<open>bytes.split()\<close> and \<open>int\<close> of bytes, which know only the whitespace of ASCII.\<close>

definition byte_space :: "char \<Rightarrow> bool" where
  "byte_space c = (let n = (of_char c :: nat) in n = 32 \<or> 9 \<le> n \<and> n \<le> 13)"

fun byte_words_acc :: "string \<Rightarrow> string \<Rightarrow> string list" where
  "byte_words_acc acc [] = (if acc = [] then [] else [rev acc])"
| "byte_words_acc acc (c # cs) =
     (if byte_space c then (if acc = [] then [] else [rev acc]) @ byte_words_acc [] cs else byte_words_acc (c # acc) cs)"

definition byte_words :: "string \<Rightarrow> string list" where
  "byte_words s = byte_words_acc [] s"

definition byte_int :: "string \<Rightarrow> int option" where
  "byte_int s = (if list_all (\<lambda>c. 33 \<le> (of_char c :: nat) \<and> (of_char c :: nat) \<le> 126) s then py_int s else None)"

text \<open>The output from the cursor on stands for the cursor.\<close>

definition parse_cached_batch_blob :: "string \<Rightarrow> string \<Rightarrow> (string \<times> string) option" where
  "parse_cached_batch_blob output expected_oid =
     (let header = takeWhile (\<lambda>c. c \<noteq> CHR 0x0A) output; rest = drop (Suc (length header)) output
      in if length header = length output then None
         else (case byte_words header of
                 [oid, kind, size_text] \<Rightarrow>
                   (if oid \<noteq> expected_oid \<or> kind \<noteq> ''blob'' then None
                    else (case byte_int size_text of
                            None \<Rightarrow> None
                          | Some n \<Rightarrow>
                              (if n \<ge> 0 \<and> take 1 (drop (nat n) rest) = [CHR 0x0A]
                               then Some (take (nat n) rest, drop (Suc (nat n)) rest) else None)))
               | _ \<Rightarrow> None))"

fun batch_blobs :: "string list \<Rightarrow> string \<Rightarrow> (string \<times> string) list option" where
  "batch_blobs [] output = (if output = [] then Some [] else None)"
| "batch_blobs (oid # oids) output =
     (case parse_cached_batch_blob output oid of
        None \<Rightarrow> None
      | Some (content, rest) \<Rightarrow> map_option (Cons (oid, content)) (batch_blobs oids rest))"

definition unique_in_order :: "'a list \<Rightarrow> 'a list" where
  "unique_in_order xs = rev (remdups (rev xs))"

definition cached_blob_contents :: "evidence_env \<Rightarrow> codepoints list \<Rightarrow> string list \<Rightarrow> (string \<times> string) list option" where
  "cached_blob_contents env repository oids =
     (let unique_oids = unique_in_order oids; request = concat (map (\<lambda>oid. oid @ [CHR 0x0A]) unique_oids)
      in case ev_batch env repository request of
           None \<Rightarrow> None
         | Some r \<Rightarrow> (if pr_returncode r \<noteq> 0 then None else batch_blobs unique_oids (pr_stdout r)))"

section \<open>Changed lines\<close>

definition cached_review_requested :: "evidence_env \<Rightarrow> bool \<Rightarrow> bool" where
  "cached_review_requested env changed_mode = (changed_mode \<and> py_lower (py_strip (case ev_diff_mode env of None \<Rightarrow> ''worktree'' | Some m \<Rightarrow> m)) = ''cached'')"

definition caller_git_prefix :: "evidence_env \<Rightarrow> codepoints option" where
  "caller_git_prefix env =
     (case Option.bind (run_changed_line_git_command env (git_words [''git'', ''rev-parse'', ''--show-prefix'']))
             terminated_output of
        None \<Rightarrow> None
      | Some text_prefix \<Rightarrow>
          (let prefix = code_text text_prefix
           in if take 1 prefix \<noteq> [slash] \<and> code_text ''..'' \<notin> set (path_fields prefix) \<and> (prefix = [] \<or> last prefix = slash)
              then Some prefix else None))"

definition cached_caller_prefix :: "codepoints list \<Rightarrow> codepoints list \<Rightarrow> codepoints option" where
  "cached_caller_prefix cwd repository =
     (if take (length repository) cwd \<noteq> repository then None
      else Some (if cwd = repository then [] else as_posix (drop (length repository) cwd) @ [slash]))"

definition untracked_changed_lines :: "evidence_env \<Rightarrow> codepoints \<Rightarrow> int set option" where
  "untracked_changed_lines env path =
     (case run_changed_line_git_command env
             (git_words [''git'', ''--literal-pathspecs'', ''ls-files'', ''--others'', ''--''] @ [path]) of
        None \<Rightarrow> None
      | Some listed \<Rightarrow>
          (if listed = [] then Some {}
           else (case Option.bind (ev_read env (abs_components (ev_cwd env) path)) utf8_decode of
                   None \<Rightarrow> None
                 | Some content \<Rightarrow>
                     (let line_count = int (length (text_lines content))
                      in Some (if line_count \<noteq> 0 then set [1..line_count] else {1})))))"

definition changed_diff_command :: "codepoints list \<Rightarrow> string list \<Rightarrow> codepoints list" where
  "changed_diff_command files revision =
     git_words [''git'', ''--literal-pathspecs'', ''diff'', ''--unified=0'', ''--no-ext-diff'', ''--no-color'', ''--text'',
                ''--no-textconv'', ''--src-prefix=a/'', ''--dst-prefix=b/'']
     @ git_words revision @ (if files = [] then [] else code_text ''--'' # files)"

definition changed_diff_revision ::
  "evidence_env \<Rightarrow> codepoints list \<Rightarrow> string \<Rightarrow> CachedDiffIdentity option \<Rightarrow> string list option" where
  "changed_diff_revision env files diff_mode cached_diff =
     (case cached_diff of
        Some cd \<Rightarrow> (if diff_mode = ''cached'' then Some [cd_base_tree cd, cd_index_tree cd] else None)
      | None \<Rightarrow>
          (if diff_mode = ''cached''
             then (if cached_worktree_matches_index env files = Some True then Some [''--cached''] else None)
           else if diff_mode \<noteq> ''worktree'' then None
           else (case cached_repository_paths env files of
                   None \<Rightarrow> Some [''HEAD'']
                 | Some (repository, _) \<Rightarrow> map_option (\<lambda>t. [t]) (cached_base_tree_identity env repository))))"

definition raw_no_index_added_lines :: "evidence_env \<Rightarrow> string \<Rightarrow> string \<Rightarrow> int set option" where
  "raw_no_index_added_lines env base_content worktree_content =
     (case ev_no_index env base_content worktree_content of
        None \<Rightarrow> None
      | Some r \<Rightarrow>
          (if pr_returncode r = 0 then (if pr_stdout r = [] then Some {} else None)
           else if pr_returncode r \<noteq> 1 then None
           else (case parse_added_lines_from_diff (pr_stdout r) of
                   Some [] \<Rightarrow> Some {}
                 | Some [(_, ls)] \<Rightarrow> Some ls
                 | _ \<Rightarrow> None)))"

definition selected_head_blob_evidence ::
  "evidence_env \<Rightarrow> codepoints list \<Rightarrow> selection \<Rightarrow> tree_entries \<Rightarrow> (tree_entries \<times> (string \<times> string) list) option" where
  "selected_head_blob_evidence env repository selected entries =
     (let selected_entries = concat (map (\<lambda>(path, _). case map_of entries path of None \<Rightarrow> [] | Some e \<Rightarrow> [(path, e)]) selected)
      in if list_ex (\<lambda>(_, mode, _). mode \<notin> {''100644'', ''100755''}) selected_entries then None
         else map_option (Pair selected_entries)
                (cached_blob_contents env repository (map (\<lambda>(_, _, oid). oid) selected_entries)))"

text \<open>The contents have every object identifier of the entries, so that the lookup of the base content cannot fail.\<close>

definition raw_selected_worktree_lines ::
  "evidence_env \<Rightarrow> codepoints list \<Rightarrow> (string \<times> string) option \<Rightarrow> (string \<times> string) list \<Rightarrow> int set option" where
  "raw_selected_worktree_lines env absolute entry base_contents =
     (case raw_worktree_blob env absolute (case entry of Some (mode, _) \<Rightarrow> mode | None \<Rightarrow> ''100644'') of
        RawUnavailable \<Rightarrow> None
      | RawMissing \<Rightarrow> Some {}
      | RawBytes worktree_content \<Rightarrow>
          (case entry of
             None \<Rightarrow> (if worktree_content = [] then Some {1} else raw_no_index_added_lines env [] worktree_content)
           | Some (_, oid) \<Rightarrow>
               (if git_blob_oid env worktree_content oid = Some oid then Some {}
                else Option.bind (map_of base_contents oid)
                       (\<lambda>base_content. raw_no_index_added_lines env base_content worktree_content))))"

fun raw_lines ::
  "evidence_env \<Rightarrow> tree_entries \<Rightarrow> (string \<times> string) list \<Rightarrow> selection \<Rightarrow> line_sets \<Rightarrow> line_sets option" where
  "raw_lines env entries contents [] changed = Some changed"
| "raw_lines env entries contents ((path, absolute) # rest) changed =
     (case raw_selected_worktree_lines env absolute (map_of entries path) contents of
        None \<Rightarrow> None
      | Some ls \<Rightarrow> raw_lines env entries contents rest (AList.update (rel_path absolute (ev_cwd env)) ls changed))"

definition raw_worktree_changed_lines :: "evidence_env \<Rightarrow> codepoints list \<Rightarrow> line_sets option" where
  "raw_worktree_changed_lines env files =
     (case cached_repository_paths env files of
        None \<Rightarrow> None
      | Some (repository, selected) \<Rightarrow>
          (case Option.bind (cached_base_tree_identity env repository) (cached_tree_entries env repository) of
             None \<Rightarrow> None
           | Some entries \<Rightarrow>
               (case selected_head_blob_evidence env repository selected entries of
                  None \<Rightarrow> None
                | Some (selected_entries, contents) \<Rightarrow> raw_lines env selected_entries contents selected [])))"

fun add_untracked_changed_lines :: "evidence_env \<Rightarrow> codepoints list \<Rightarrow> line_sets \<Rightarrow> line_sets option" where
  "add_untracked_changed_lines env [] changed = Some changed"
| "add_untracked_changed_lines env (path # files) changed =
     (let relative = normalize_report_path (ev_cwd env) path
      in if \<not> ev_exists env (abs_components (ev_cwd env) path) \<or> map_of changed relative \<noteq> None
           then add_untracked_changed_lines env files changed
         else (case untracked_changed_lines env path of
                 None \<Rightarrow> None
               | Some ls \<Rightarrow> add_untracked_changed_lines env files (if ls = {} then changed else changed @ [(relative, ls)])))"

definition nonempty_lines :: "line_sets \<Rightarrow> line_sets" where
  "nonempty_lines d = filter (\<lambda>(_, ls). ls \<noteq> {}) d"

definition worktree_lines_match_raw_bytes :: "evidence_env \<Rightarrow> codepoints list \<Rightarrow> line_sets \<Rightarrow> string \<Rightarrow> bool" where
  "worktree_lines_match_raw_bytes env files changed diff_mode =
     (diff_mode \<noteq> ''worktree''
      \<or> (case raw_worktree_changed_lines env files of
            None \<Rightarrow> False
          | Some raw \<Rightarrow> (\<forall>path \<in> set (map fst (changed @ raw)).
              map_of (nonempty_lines changed) path = map_of (nonempty_lines raw) path)))"

definition changed_lines_from_git ::
  "evidence_env \<Rightarrow> codepoints list \<Rightarrow> CachedDiffIdentity option \<Rightarrow> line_sets option" where
  "changed_lines_from_git env files cached_diff =
     (let diff_mode = py_lower (py_strip (case ev_diff_mode env of None \<Rightarrow> ''worktree'' | Some m \<Rightarrow> m))
      in case Option.bind (Option.bind (changed_diff_revision env files diff_mode cached_diff)
                 (\<lambda>revision. run_changed_line_git_command env (changed_diff_command files revision)))
                 parse_added_lines_from_diff of
           None \<Rightarrow> None
         | Some parsed \<Rightarrow>
             (case (case cached_diff of Some cd \<Rightarrow> Some (cd_caller_prefix cd) | None \<Rightarrow> caller_git_prefix env) of
                None \<Rightarrow> None
              | Some prefix \<Rightarrow>
                  (case changed_lines_relative_to_caller (ev_cwd env) prefix parsed [] of
                     None \<Rightarrow> None
                   | Some changed \<Rightarrow>
                       (if cached_diff \<noteq> None then Some changed
                        else (case add_untracked_changed_lines env files changed of
                                None \<Rightarrow> None
                              | Some lines \<Rightarrow>
                                  (if worktree_lines_match_raw_bytes env files lines diff_mode
                                   then Some lines else None))))))"

end
