(* ===== verification/Symlink_Containment.thy ===== *)
theory Symlink_Containment
  imports Changed_Lines
begin

text \<open>
  Containment of symbolic links (\<^verbatim>\<open>run/runner.py\<close>, \<open>_symlink_resolution_is_contained\<close>). The file system
  is a function from the components of an absolute path to the node that \<open>lstat\<close> sees there, \<open>None\<close> for an error. The
  resolution of the operating system is the reference: it walks the target of a link component by component, so that a
  parent reference leaves the directory the walk has reached. A root that starts with exactly two slashes is left out.
\<close>

datatype node = RegularNode | DirectoryNode | LinkNode "codepoints option" | OtherNode

type_synonym file_system = "codepoints list \<Rightarrow> node option"

abbreviation parent_ref :: codepoints where
  "parent_ref \<equiv> code_text ''..''"

definition skipped :: "codepoints \<Rightarrow> bool" where
  "skipped c = (c = [] \<or> c = code_text ''.'')"

definition is_absolute :: "codepoints \<Rightarrow> bool" where
  "is_absolute path = (take 1 path = [slash])"

definition MAX_HOPS :: nat where
  "MAX_HOPS = 40"

section \<open>The resolution of the operating system\<close>

text \<open>The walk has reached the directory \<open>here\<close>; \<open>None\<close> stands for a missing node, a file in the place of a directory, and
  too many links.\<close>

function os_walk :: "file_system \<Rightarrow> nat \<Rightarrow> codepoints list \<Rightarrow> codepoints list \<Rightarrow> codepoints list option" where
  "os_walk fs hops here [] = Some here"
| "os_walk fs hops here (c # rest) =
     (if skipped c then os_walk fs hops here rest
      else if c = parent_ref then os_walk fs hops (butlast here) rest
      else (case fs (here @ [c]) of
              None \<Rightarrow> None
            | Some DirectoryNode \<Rightarrow> os_walk fs hops (here @ [c]) rest
            | Some (LinkNode None) \<Rightarrow> None
            | Some (LinkNode (Some target)) \<Rightarrow>
                (if hops \<ge> MAX_HOPS then None
                 else os_walk fs (Suc hops) (if is_absolute target then [] else here) (path_fields target @ rest))
            | Some _ \<Rightarrow> (if rest = [] then Some (here @ [c]) else None)))"
  by pat_completeness auto
termination
  by (relation "inv_image (less_than <*lex*> less_than) (\<lambda>(fs, hops, here, rest). (MAX_HOPS - hops, length rest))") auto

declare os_walk.simps(2) [simp del]

section \<open>The check of the code\<close>

definition relative_to :: "codepoints list \<Rightarrow> codepoints list \<Rightarrow> codepoints list option" where
  "relative_to path base = (if take (length base) path = base then Some (drop (length base) path) else None)"

definition link_target :: "codepoints list \<Rightarrow> codepoints \<Rightarrow> codepoints list" where
  "link_target parent target = norm_components True (if is_absolute target then path_fields target else parent @ path_fields target)"

function contained_walk :: "file_system \<Rightarrow> codepoints list \<Rightarrow> nat \<Rightarrow> codepoints list \<Rightarrow> codepoints list \<Rightarrow> bool" where
  "contained_walk fs resolved_root hops resolved [] = True"
| "contained_walk fs resolved_root hops resolved (part # pending) =
     (case fs (resolved_root @ resolved @ [part]) of
        None \<Rightarrow> False
      | Some (LinkNode target) \<Rightarrow>
          (if Suc hops > MAX_HOPS then False
           else (case target of
                   None \<Rightarrow> False
                 | Some t \<Rightarrow>
                     (case relative_to (link_target (resolved_root @ resolved) t) resolved_root of
                        None \<Rightarrow> False
                      | Some parts \<Rightarrow> contained_walk fs resolved_root (Suc hops) [] (parts @ pending))))
      | Some n \<Rightarrow> (if pending \<noteq> [] \<and> n \<noteq> DirectoryNode then False
                    else contained_walk fs resolved_root hops (resolved @ [part]) pending))"
  by pat_completeness auto
termination
  by (relation "inv_image (less_than <*lex*> less_than) (\<lambda>(fs, R, hops, here, rest). (MAX_HOPS - hops, length rest))") auto

declare contained_walk.simps(2) [simp del]

definition symlink_resolution_is_contained ::
  "file_system \<Rightarrow> codepoints list \<Rightarrow> codepoints \<Rightarrow> codepoints \<Rightarrow> bool" where
  "symlink_resolution_is_contained fs cwd root_path link =
     (let lexical_root = abs_components cwd root_path; lexical_link = abs_components cwd link
      in case relative_to lexical_link lexical_root of
           None \<Rightarrow> False
         | Some pending \<Rightarrow>
             (case os_walk fs 0 [] lexical_root of
                None \<Rightarrow> False
              | Some resolved_root \<Rightarrow> contained_walk fs resolved_root 0 [] pending))"

section \<open>Lexical targets\<close>

definition named :: "codepoints \<Rightarrow> bool" where
  "named c = (\<not> skipped c \<and> c \<noteq> parent_ref)"

definition real_directory :: "file_system \<Rightarrow> codepoints list \<Rightarrow> bool" where
  "real_directory fs path = (\<forall>n < length path. named (path ! n) \<and> fs (take (Suc n) path) = Some DirectoryNode)"

text \<open>A target whose parent references all come before its first name.\<close>

definition tidy :: "codepoints \<Rightarrow> bool" where
  "tidy target = (parent_ref \<notin> set (dropWhile (\<lambda>c. \<not> named c) (path_fields target)))"

lemma real_directory_snoc:
  "real_directory fs (d @ [c]) \<longleftrightarrow> real_directory fs d \<and> named c \<and> fs (d @ [c]) = Some DirectoryNode"
  by (auto simp: real_directory_def nth_append less_Suc_eq)

lemma real_directory_Nil [simp]: "real_directory fs []"
  by (simp add: real_directory_def)

lemma real_directory_take: "real_directory fs d \<Longrightarrow> real_directory fs (take n d)"
  by (auto simp: real_directory_def)

lemma real_directory_butlast: "real_directory fs d \<Longrightarrow> real_directory fs (butlast d)"
  by (simp add: butlast_conv_take real_directory_take)

lemma real_directory_named: "real_directory fs d \<Longrightarrow> list_all named d"
  by (auto simp: real_directory_def list_all_length)

lemma walk_named: "named c \<Longrightarrow> fs (d @ [c]) = Some DirectoryNode \<Longrightarrow> os_walk fs h d (c # cs) = os_walk fs h (d @ [c]) cs"
  by (simp add: os_walk.simps(2) named_def)

lemma walk_real:
  "real_directory fs (d @ e) \<Longrightarrow> os_walk fs h d (e @ cs) = os_walk fs h (d @ e) cs"
proof (induction e arbitrary: d)
  case (Cons c e)
  then have "real_directory fs ((d @ [c]) @ e)" by simp
  then have "real_directory fs (d @ [c])" using real_directory_take [of fs "d @ [c] @ e" "length d + 1"] by simp
  with Cons.IH [of "d @ [c]"] \<open>real_directory fs ((d @ [c]) @ e)\<close> show ?case by (simp add: walk_named real_directory_snoc)
qed simp

lemma push_named: "named c \<Longrightarrow> push_component True c d = d @ [c]"
  by (simp add: push_component_def named_def skipped_def)

lemma push_skipped: "skipped c \<Longrightarrow> push_component True c d = d"
  by (simp add: push_component_def skipped_def)

lemma push_parent: "list_all named d \<Longrightarrow> push_component True parent_ref d = butlast d"
proof -
  assume "list_all named d"
  then have "d = [] \<or> last d \<noteq> parent_ref" by (auto simp: list_all_iff named_def)
  moreover have "\<not> skipped parent_ref" by code_simp
  ultimately show ?thesis by (auto simp: push_component_def skipped_def)
qed

lemma norm_step: "list_all named d \<Longrightarrow> list_all named (push_component True c d)"
proof (cases "named c")
  case False
  then have "skipped c \<or> c = parent_ref" by (auto simp: named_def)
  then show "list_all named d \<Longrightarrow> ?thesis"
    by (auto simp: push_skipped push_parent list_all_iff) (metis in_set_butlastD)
qed (simp add: push_named)

lemma norm_fold_named: "list_all named d \<Longrightarrow> list_all named (foldl (\<lambda>kept part. push_component True part kept) d cs)"
  by (induction cs arbitrary: d) (simp_all add: norm_step)

lemma norm_named: "list_all named (norm_components True cs)"
  unfolding norm_components_def by (rule norm_fold_named) simp

text \<open>The walk along a tidy target is the walk along its normal form. The converse fails for a file with a trailing slash.\<close>

lemma walk_skip:
  "os_walk fs h d cs = Some p \<Longrightarrow> cs = xs @ c # ys \<Longrightarrow> skipped c \<Longrightarrow> os_walk fs h d (xs @ ys) = Some p"
proof (induction fs h d cs arbitrary: xs rule: os_walk.induct)
  case (2 fs h d b rest)
  show ?case
  proof (cases xs)
    case Nil
    with 2 show ?thesis by (simp add: os_walk.simps(2))
  next
    case (Cons x zs)
    then have x: "b = x" "rest = zs @ c # ys" using "2.prems"(2) by simp_all
    show ?thesis
    proof (cases "skipped x \<or> x = parent_ref")
      case True
      then show ?thesis using 2 Cons x by (auto simp: os_walk.simps(2))
    next
      case False
      show ?thesis
      proof (cases "fs (d @ [x]) = Some DirectoryNode")
        case True
        then show ?thesis using "2.prems"(1,3) "2.IH"(3) [of DirectoryNode zs] Cons x False by (simp add: os_walk.simps(2))
      next
        case no_dir: False
        show ?thesis
        proof (cases "\<exists>t. fs (d @ [x]) = Some (LinkNode (Some t))")
          case True
          then obtain t where t: "fs (d @ [x]) = Some (LinkNode (Some t))" by blast
          then have "os_walk fs (Suc h) (if is_absolute t then [] else d) ((path_fields t @ zs) @ ys) = Some p"
            using "2.prems"(1,3) "2.IH"(4) [of "LinkNode (Some t)" "Some t" t "path_fields t @ zs"] x False
            by (simp add: os_walk.simps(2) split: if_splits)
          then show ?thesis using "2.prems"(1) t x False Cons by (simp add: os_walk.simps(2) split: if_splits)
        next
          case False
          with no_dir show ?thesis using "2.prems"(1) \<open>\<not> (skipped x \<or> x = parent_ref)\<close> x
            by (simp add: os_walk.simps(2) split: option.splits node.splits)
        qed
      qed
    qed
  qed
qed simp

lemma walk_skips:
  "os_walk fs h d (xs @ cs @ rest) = Some p \<Longrightarrow> os_walk fs h d (xs @ filter (\<lambda>c. \<not> skipped c) cs @ rest) = Some p"
proof (induction cs arbitrary: xs)
  case (Cons c cs)
  show ?case
  proof (cases "skipped c")
    case True
    then have "os_walk fs h d (xs @ cs @ rest) = Some p" using walk_skip [OF Cons.prems, of xs c "cs @ rest"] by simp
    with True Cons.IH show ?thesis by simp
  next
    case False
    with Cons.IH [of "xs @ [c]"] Cons.prems show ?thesis by simp
  qed
qed simp

lemma fold_unparented:
  "parent_ref \<notin> set cs \<Longrightarrow> foldl (\<lambda>kept part. push_component True part kept) d cs = d @ filter (\<lambda>c. \<not> skipped c) cs"
proof (induction cs arbitrary: d)
  case (Cons c cs)
  moreover from Cons.prems have "c \<noteq> parent_ref" by auto
  ultimately show ?case by (cases "skipped c") (simp_all add: push_skipped push_named named_def)
qed simp

lemma walk_fields:
  assumes "real_directory fs d" and "parent_ref \<notin> set (dropWhile (\<lambda>c. \<not> named c) cs)" and "os_walk fs h d (cs @ rest) = Some p"
  shows "os_walk fs h [] (foldl (\<lambda>kept part. push_component True part kept) d cs @ rest) = Some p"
  using assms
proof (induction cs arbitrary: d)
  case Nil
  then show ?case using walk_real [of fs "[]" d h rest] by simp
next
  case (Cons c cs)
  consider "named c" | "skipped c" | "c = parent_ref" "\<not> named c" "\<not> skipped c" by (auto simp: named_def skipped_def code_text_def)
  then show ?case
  proof cases
    case 1
    then have "parent_ref \<notin> set (c # cs)" using Cons.prems(2) by simp
    then have "foldl (\<lambda>kept part. push_component True part kept) d (c # cs) = d @ filter (\<lambda>c. \<not> skipped c) (c # cs)"
      by (rule fold_unparented)
    moreover have "os_walk fs h d (filter (\<lambda>c. \<not> skipped c) (c # cs) @ rest) = Some p"
      using walk_skips [of fs h d "[]" "c # cs" rest p] Cons.prems(3) by simp
    ultimately show ?thesis using walk_real [of fs "[]" d h "filter (\<lambda>c. \<not> skipped c) (c # cs) @ rest"] Cons.prems(1) by simp
  next
    case 2
    with Cons.IH [of d] Cons.prems show ?thesis by (simp add: named_def push_skipped os_walk.simps(2))
  next
    case 3
    have "real_directory fs (butlast d)" using Cons.prems(1) by (rule real_directory_butlast)
    moreover have "push_component True c d = butlast d"
      unfolding 3(1) using real_directory_named [OF Cons.prems(1)] by (rule push_parent)
    ultimately show ?thesis using Cons.IH [of "butlast d"] Cons.prems 3 by (simp add: os_walk.simps(2))
  qed
qed

lemma walk_link:
  assumes "tidy t" and "real_directory fs d"
    and "os_walk fs h (if is_absolute t then [] else d) (path_fields t @ rest) = Some p"
  shows "os_walk fs h [] (link_target d t @ rest) = Some p"
proof -
  have "norm_components True (d @ path_fields t) = foldl (\<lambda>kept part. push_component True part kept) d (path_fields t)"
  proof -
    have "foldl (\<lambda>kept part. push_component True part kept) [] d = d"
      using real_directory_named [OF assms(2)]
      by (subst fold_unparented) (auto simp: list_all_iff named_def filter_id_conv)
    then show ?thesis by (simp add: norm_components_def)
  qed
  then show ?thesis
    using walk_fields [of fs "if is_absolute t then [] else d" "path_fields t" h rest p] assms
    by (cases "is_absolute t") (simp_all add: link_target_def tidy_def norm_components_def)
qed

section \<open>Soundness\<close>

lemma contained_stays:
  assumes "contained_walk fs R hops resolved pending" and "real_directory fs (R @ resolved)" and "list_all named pending"
    and "\<forall>path t. fs path = Some (LinkNode (Some t)) \<longrightarrow> tidy t" and "os_walk fs h (R @ resolved) pending = Some p"
  shows "take (length R) p = R"
  using assms
proof (induction fs R hops resolved pending arbitrary: h rule: contained_walk.induct)
  case (2 fs R hops resolved part pending)
  let ?here = "R @ resolved"
  have part: "named part" using "2.prems"(3) by simp
  then have os: "os_walk fs h ?here (part # pending) = (case fs (?here @ [part]) of
              None \<Rightarrow> None
            | Some DirectoryNode \<Rightarrow> os_walk fs h (?here @ [part]) pending
            | Some (LinkNode None) \<Rightarrow> None
            | Some (LinkNode (Some target)) \<Rightarrow>
                (if h \<ge> MAX_HOPS then None
                 else os_walk fs (Suc h) (if is_absolute target then [] else ?here) (path_fields target @ pending))
            | Some _ \<Rightarrow> (if pending = [] then Some (?here @ [part]) else None))"
    by (simp add: os_walk.simps(2) named_def)
  obtain n where n: "fs (R @ resolved @ [part]) = Some n"
    using "2.prems"(1) by (auto simp: contained_walk.simps(2) split: option.splits)
  show ?case
  proof (cases n)
    case RegularNode
    with n os "2.prems"(5) show ?thesis by (auto split: if_splits)
  next
    case OtherNode
    with n os "2.prems"(5) show ?thesis by (auto split: if_splits)
  next
    case DirectoryNode
    have "contained_walk fs R hops (resolved @ [part]) pending"
      using "2.prems"(1) n DirectoryNode by (simp add: contained_walk.simps(2))
    moreover have "real_directory fs (R @ resolved @ [part])"
      using "2.prems"(2) n DirectoryNode part real_directory_snoc [of fs "R @ resolved" part] by simp
    ultimately show ?thesis
      using "2.IH"(2) [OF n DirectoryNode] "2.prems"(3,4,5) n DirectoryNode os by simp
  next
    case (LinkNode target)
    then obtain t parts where t: "target = Some t" and rel: "relative_to (link_target (R @ resolved) t) R = Some parts"
      and step: "Suc hops \<le> MAX_HOPS" "contained_walk fs R (Suc hops) [] (parts @ pending)"
      using "2.prems"(1) n by (auto simp: contained_walk.simps(2) split: if_splits option.splits)
    have target: "link_target (R @ resolved) t = R @ parts"
      using rel by (auto simp: relative_to_def split: if_splits) (metis append_take_drop_id)
    then have named: "list_all named parts" using norm_named by (metis link_target_def list_all_append)
    have R: "real_directory fs R" using real_directory_take [OF "2.prems"(2), of "length R"] by simp
    have "os_walk fs (Suc h) (if is_absolute t then [] else ?here) (path_fields t @ pending) = Some p"
      using "2.prems"(5) os n LinkNode t by (simp split: if_splits)
    then have "os_walk fs (Suc h) [] ((R @ parts) @ pending) = Some p"
      using walk_link [of t fs ?here] "2.prems"(2,4) n LinkNode t target by metis
    then have "os_walk fs (Suc h) (R @ []) (parts @ pending) = Some p"
      using walk_real [of fs "[]" R] R by simp
    then show ?thesis
      using "2.IH"(3) [OF n LinkNode _ t rel] step R named "2.prems"(3,4) by simp
  qed
qed auto

text \<open>The walk along a path is the walk along its first part followed by the walk along the rest.\<close>

lemma walk_split:
  assumes "os_walk fs h d cs = Some p" and "cs = xs @ ys" and "real_directory fs d"
  shows "\<exists>e h'. os_walk fs h d xs = Some e \<and> os_walk fs h' e ys = Some p \<and> (ys \<noteq> [] \<longrightarrow> real_directory fs e)"
  using assms
proof (induction fs h d cs arbitrary: xs rule: os_walk.induct)
  case (2 fs h d c rest)
  show ?case
  proof (cases xs)
    case Nil
    with "2.prems" show ?thesis by auto
  next
    case (Cons x zs)
    then have x: "c = x" "rest = zs @ ys" using "2.prems"(2) by simp_all
    consider "skipped x" | "x = parent_ref" "\<not> skipped x" | "named x" by (auto simp: named_def)
    then show ?thesis
    proof cases
      case 1
      then show ?thesis using 2 Cons x by (auto simp: os_walk.simps(2))
    next
      case 2
      then show ?thesis using "2.IH"(2) [of zs] "2.prems" Cons x real_directory_butlast by (simp add: os_walk.simps(2))
    next
      case 3
      then have not: "\<not> skipped x" "x \<noteq> parent_ref" by (simp_all add: named_def)
      show ?thesis
      proof (cases "fs (d @ [x])")
        case None
        with "2.prems"(1) x not show ?thesis by (simp add: os_walk.simps(2))
      next
        case (Some n)
        show ?thesis
        proof (cases n)
          case DirectoryNode
          then have "real_directory fs (d @ [x])" using "2.prems"(3) Some 3 by (simp add: real_directory_snoc)
          then show ?thesis using "2.prems"(1) "2.IH"(3) [of DirectoryNode zs] Cons x not Some DirectoryNode
            by (simp add: os_walk.simps(2))
        next
          case (LinkNode target)
          then obtain t where t: "target = Some t" "\<not> MAX_HOPS \<le> h"
            using "2.prems"(1) x not Some by (auto simp: os_walk.simps(2) split: option.splits if_splits)
          have "real_directory fs (if is_absolute t then [] else d)" using "2.prems"(3) by simp
          then show ?thesis
            using "2.IH"(4) [of n target t "path_fields t @ zs"] "2.prems"(1) Cons x not Some LinkNode t
            by (simp add: os_walk.simps(2))
        qed (use "2.prems"(1) Cons x not Some in \<open>auto simp: os_walk.simps(2) split: if_splits\<close>)
      qed
    qed
  qed
qed auto

text \<open>C13: A link that the containment check accepts stays below the root: when no link of the file system has a parent reference
  after a name in its target, the operating system resolves an accepted link to a path below the resolved root or not
  at all.\<close>

theorem contained_links_stay:
  assumes "symlink_resolution_is_contained fs cwd root_path link"
    and "\<forall>path t. fs path = Some (LinkNode (Some t)) \<longrightarrow> tidy t"
    and "os_walk fs 0 [] (abs_components cwd link) = Some p"
  shows "\<exists>R q. os_walk fs 0 [] (abs_components cwd root_path) = Some R \<and> p = R @ q"
proof -
  obtain pending R where rel: "relative_to (abs_components cwd link) (abs_components cwd root_path) = Some pending"
    and R: "os_walk fs 0 [] (abs_components cwd root_path) = Some R" and walk: "contained_walk fs R 0 [] pending"
    using assms(1) by (auto simp: symlink_resolution_is_contained_def Let_def split: option.splits)
  have link: "abs_components cwd link = abs_components cwd root_path @ pending"
    using rel by (auto simp: relative_to_def split: if_splits) (metis append_take_drop_id)
  obtain h where h: "os_walk fs h R pending = Some p" "pending \<noteq> [] \<longrightarrow> real_directory fs R"
    using walk_split [OF assms(3) link] R by auto
  have "list_all named pending"
    using norm_named link by (metis abs_components_def list_all_append)
  then have "take (length R) p = R"
    using h contained_stays [OF walk, of h p] assms(2) by (cases "pending = []") auto
  then show ?thesis using R by (metis append_take_drop_id)
qed

definition link_tree :: "(codepoints list \<times> node) list \<Rightarrow> file_system" where
  "link_tree nodes path = map_of nodes path"

definition tidy_tree :: "(codepoints list \<times> node) list" where
  "tidy_tree =
     [([code_text ''repo''], DirectoryNode), ([code_text ''repo'', code_text ''a''], DirectoryNode),
      ([code_text ''repo'', code_text ''a'', code_text ''up''], LinkNode (Some (code_text ''../b''))),
      ([code_text ''repo'', code_text ''b''], RegularNode)]"

theorem contained_links_stay_witness:
  "\<exists>R q. os_walk (link_tree tidy_tree) 0 [] [code_text ''repo''] = Some R \<and> [code_text ''repo'', code_text ''b''] = R @ q"
proof -
  let ?fs = "link_tree tidy_tree" and ?root = "code_text ''/repo''" and ?link = "code_text ''/repo/a/up''"
  have "symlink_resolution_is_contained ?fs [] ?root ?link"
    "os_walk ?fs 0 [] (abs_components [] ?link) = Some [code_text ''repo'', code_text ''b'']"
    "abs_components [] ?root = [code_text ''repo'']" "tidy (code_text ''../b'')" by code_simp+
  moreover from this have "\<forall>path t. ?fs path = Some (LinkNode (Some t)) \<longrightarrow> tidy t"
    by (auto simp: link_tree_def tidy_tree_def split: if_splits)
  ultimately show ?thesis using contained_links_stay [of ?fs "[]" ?root ?link "[code_text ''repo'', code_text ''b'']"] by simp
qed

definition escaping_tree :: "(codepoints list \<times> node) list" where
  "escaping_tree =
     [([code_text ''repo''], DirectoryNode), ([code_text ''repo'', code_text ''sub''], LinkNode (Some (code_text ''.''))),
      ([code_text ''repo'', code_text ''link''], LinkNode (Some (code_text ''sub/../secret''))),
      ([code_text ''repo'', code_text ''secret''], RegularNode), ([code_text ''secret''], RegularNode)]"


end
