(* ===== verification/Report_Paths.thy ===== *)
theory Report_Paths
  imports Diff_Roundtrip Changed_Evidence Symlink_Containment
begin

text \<open>
  The key of a file in the changed lines is the path under which the report names it, from every directory of the
  repository; the identities that the evidence rests on.
\<close>

section \<open>Components\<close>

definition clean :: "codepoints \<Rightarrow> bool" where
  "clean c = (named c \<and> slash \<notin> set c)"

lemma clean_named: "list_all clean cs \<Longrightarrow> list_all named cs"
  by (simp add: list_all_iff clean_def)

lemma fields_word: "slash \<notin> set c \<Longrightarrow> path_fields (c @ slash # r) = c # path_fields r" "slash \<notin> set c \<Longrightarrow> path_fields c = [c]"
  by (induction c) auto

lemma fields_join:
  "cs \<noteq> [] \<Longrightarrow> list_all (\<lambda>c. slash \<notin> set c) cs \<Longrightarrow> path_fields (join_components cs @ r) = butlast cs @ path_fields (last cs @ r)"
  by (induction cs rule: join_components.induct) (simp_all add: fields_word)

lemma fields_join_exact: "cs \<noteq> [] \<Longrightarrow> list_all (\<lambda>c. slash \<notin> set c) cs \<Longrightarrow> path_fields (join_components cs) = cs"
  using fields_join [of cs "[]"] by (simp add: fields_word list_all_iff)

lemma norm_named_id: "list_all named cs \<Longrightarrow> norm_components True cs = cs"
  by (simp add: norm_components_def fold_unparented list_all_iff named_def filter_id_conv)
    (subst fold_unparented, auto)

lemma norm_skipped: "list_all named cs \<Longrightarrow> skipped s \<Longrightarrow> norm_components True (cs @ [s]) = cs"
  using norm_named_id [of cs] by (simp add: norm_components_def push_skipped)

lemma join_head: "cs \<noteq> [] \<Longrightarrow> list_all clean cs \<Longrightarrow> take 1 (join_components cs @ r) \<noteq> [slash]"
proof (cases cs)
  case (Cons c ds)
  assume "list_all clean cs"
  then obtain x xs where "c = x # xs" "x \<noteq> slash" using Cons by (cases c) (auto simp: clean_def named_def skipped_def)
  then show ?thesis by (cases ds) (simp_all add: Cons)
qed simp

lemma abs_relative:
  "cs \<noteq> [] \<Longrightarrow> list_all clean cs \<Longrightarrow> list_all clean cwd \<Longrightarrow> abs_components cwd (join_components cs) = cwd @ cs"
proof -
  assume a: "cs \<noteq> []" "list_all clean cs" "list_all clean cwd"
  then have "path_fields (join_components cs) = cs" by (intro fields_join_exact) (auto simp: list_all_iff clean_def)
  moreover have "norm_components True (cwd @ cs) = cwd @ cs" using a by (intro norm_named_id clean_named) simp
  ultimately show ?thesis using join_head [OF a(1,2), of "[]"] by (simp add: abs_components_def)
qed

lemma abs_absolute: "list_all clean cs \<Longrightarrow> abs_components cwd (slash # join_components cs) = cs"
proof (cases "cs = []")
  case True
  then show ?thesis by (simp add: abs_components_def norm_components_def push_component_def)
next
  case False
  assume "list_all clean cs"
  moreover from this False have "path_fields (join_components cs) = cs"
    by (simp add: fields_join_exact list_all_iff clean_def)
  moreover have "norm_components True ([] # cs) = norm_components True cs" by (simp add: norm_components_def push_component_def)
  ultimately show ?thesis by (simp add: abs_components_def norm_named_id clean_named)
qed

lemma abs_prefix:
  assumes "list_all clean (R @ P)" and "cached_caller_prefix (R @ P) R = Some prefix"
  shows "abs_components (R @ P) (if prefix = [] then code_text ''.'' else prefix) = R @ P @ P"
proof (cases "P = []")
  case True
  then have "prefix = []" using assms(2) by (simp add: cached_caller_prefix_def)
  moreover have "path_fields (code_text ''.'') = [code_text ''.'']" "take 1 (code_text ''.'') \<noteq> [slash]" "skipped (code_text ''.'')"
    by code_simp+
  ultimately show ?thesis using True norm_skipped [of R "code_text ''.''"] assms(1) clean_named
    by (simp add: abs_components_def)
next
  case False
  then have prefix: "prefix = join_components P @ [slash]" using assms(2) by (simp add: cached_caller_prefix_def as_posix_def)
  have clean: "list_all clean P" "list_all (\<lambda>c. slash \<notin> set c) P" using assms(1) by (auto simp: list_all_iff clean_def)
  have "path_fields prefix = P @ [[]]"
    using fields_join [OF False clean(2), of "[slash]"] False clean(2) fields_word(1) [of "last P" "[]"]
    by (simp add: prefix list_all_iff)
  moreover have "take 1 prefix \<noteq> [slash]" unfolding prefix using False clean(1) by (rule join_head)
  ultimately show ?thesis using norm_skipped [of "R @ P @ P" "[]"] assms(1) clean(1) clean_named False
    by (simp add: abs_components_def prefix skipped_def)
qed

section \<open>Relative paths\<close>

lemma common_length_le: "common_length xs ys \<le> length xs" "common_length xs ys \<le> length ys"
  "take (common_length xs ys) xs = take (common_length xs ys) ys"
  by (induction xs ys rule: common_length.induct) auto

lemma common_length_shift: "common_length (X @ xs) (X @ ys) = length X + common_length xs ys"
  by (induction X) simp_all

definition steps_to :: "codepoints list \<Rightarrow> codepoints list \<Rightarrow> codepoints list" where
  "steps_to path start = replicate (length start - common_length start path) parent_ref @ drop (common_length start path) path"

lemma rel_path_steps: "rel_path path start = as_posix (steps_to path start)"
  by (simp only: rel_path_def Let_def steps_to_def as_posix_def)

lemma rel_path_shift: "rel_path (X @ A) (X @ B) = rel_path A B"
  by (simp add: rel_path_steps steps_to_def common_length_shift)

lemma steps_inj:
  assumes "list_all clean A" "list_all clean B" and "steps_to A P = steps_to B P"
  shows "A = B"
proof -
  let ?a = "common_length P A" and ?b = "common_length P B"
  have up: "takeWhile (\<lambda>c. c = parent_ref) (replicate k parent_ref @ C) = replicate k parent_ref" if "list_all clean C" for k C
  proof -
    have "C = [] \<or> hd C \<noteq> parent_ref" using that by (cases C) (auto simp: clean_def named_def)
    then show ?thesis by (induction k) (cases C; auto)+
  qed
  have "list_all clean (drop ?a A)" "list_all clean (drop ?b B)"
    using assms(1,2) by (auto simp: list_all_iff dest: in_set_dropD)
  then have "replicate (length P - ?a) parent_ref = replicate (length P - ?b) parent_ref"
    using assms(3) up unfolding steps_to_def by metis
  then have "length P - ?a = length P - ?b" by (metis length_replicate)
  then have n: "?a = ?b" using common_length_le(1) [of P A] common_length_le(1) [of P B] by linarith
  then have "drop ?a A = drop ?a B" using assms(3) by (simp add: steps_to_def)
  moreover have "take ?a A = take ?a B" using common_length_le(3) [of P A] common_length_le(3) [of P B] n by metis
  ultimately show ?thesis by (metis append_take_drop_id)
qed

lemma rel_path_inj:
  assumes "list_all clean A" "list_all clean B" and "rel_path A P = rel_path B P"
  shows "A = B"
proof -
  have dot: "path_fields (code_text ''.'') = [code_text ''.'']" "skipped (code_text ''.'')" "\<not> skipped parent_ref"
    "slash \<notin> set parent_ref" by code_simp+
  have steps: "list_all (\<lambda>c. slash \<notin> set c) (steps_to C P) \<and> list_all (\<lambda>c. \<not> skipped c) (steps_to C P)"
    if "list_all clean C" for C
    using that dot(3,4) by (auto simp: steps_to_def list_all_iff clean_def named_def dest: in_set_dropD)
  have fields: "path_fields (rel_path C P) = (if steps_to C P = [] then [code_text ''.''] else steps_to C P)"
    if "list_all clean C" for C
    using steps [OF that] dot(1) by (simp add: rel_path_steps as_posix_def fields_join_exact)
  have "steps_to A P = steps_to B P"
    using fields [OF assms(1)] fields [OF assms(2)] steps [OF assms(1)] steps [OF assms(2)] assms(3) dot(2)
    by (cases "steps_to A P"; cases "steps_to B P") auto
  with assms(1,2) show ?thesis by (rule steps_inj)
qed


section \<open>The keys of the changed lines\<close>

text \<open>A file of the repository below \<open>R\<close>, seen from the directory \<open>R @ P\<close>.\<close>

definition report_key :: "codepoints list \<Rightarrow> codepoints list \<Rightarrow> codepoints" where
  "report_key P G = rel_path G P"

lemma report_key_of_path:
  assumes "abs_components (R @ P) path = R @ G"
  shows "normalize_report_path (R @ P) path = report_key P G"
  using assms by (simp add: normalize_report_path_def report_key_def rel_path_shift)

lemma git_path_valid:
  assumes "G \<noteq> []" and "list_all clean G"
  shows "valid_git_path (join_components G)"
proof -
  have "path_fields (join_components G) = G" using assms by (intro fields_join_exact) (auto simp: list_all_iff clean_def)
  moreover have "parent_ref \<notin> set G" using assms(2) by (auto simp: list_all_iff clean_def named_def)
  moreover have "take 1 (join_components G) \<noteq> [slash]" using join_head [OF assms, of "[]"] by simp
  moreover have "join_components G \<noteq> []"
  proof
    assume "join_components G = []"
    with calculation(1) have "G = [[]]" by simp
    with assms(2) show False by (simp add: clean_def named_def skipped_def)
  qed
  ultimately show ?thesis by (simp add: valid_git_path_def)
qed

lemma caller_keys:
  assumes "list_all clean (R @ P)" and "cached_caller_prefix (R @ P) R = Some prefix"
    and "list_all (\<lambda>(G, _). G \<noteq> [] \<and> list_all clean G) d" and "distinct (map fst d)"
    and "\<forall>G \<in> fst ` set d. report_key P G \<notin> fst ` set acc"
  shows "changed_lines_relative_to_caller (R @ P) prefix (map (\<lambda>(G, ls). (join_components G, ls)) d) acc
    = Some (acc @ map (\<lambda>(G, ls). (report_key P G, ls)) d)"
  using assms(3-)
proof (induction d arbitrary: acc)
  case (Cons x d)
  obtain G ls where x: "x = (G, ls)" by (cases x)
  have G: "G \<noteq> []" "list_all clean G" using Cons.prems(1) x by simp_all
  have key: "rel_path (abs_components (R @ P) (join_components G))
      (abs_components (R @ P) (if prefix = [] then code_text ''.'' else prefix)) = report_key P G"
    using rel_path_shift [of "R @ P" G P] abs_prefix [OF assms(1,2)] abs_relative [OF G, of "R @ P"] assms(1)
    by (simp add: report_key_def)
  have new: "report_key P G \<notin> fst ` set acc" using Cons.prems(3) x by simp
  have "report_key P H \<noteq> report_key P G" if "H \<in> fst ` set d" for H
  proof
    assume "report_key P H = report_key P G"
    moreover have "list_all clean H" using Cons.prems(1) that by (auto simp: list_all_iff)
    ultimately have "H = G" using rel_path_inj [of H G P] G(2) by (simp add: report_key_def)
    with Cons.prems(2) that x show False by simp
  qed
  then have "changed_lines_relative_to_caller (R @ P) prefix (map (\<lambda>(G, ls). (join_components G, ls)) d) (acc @ [(report_key P G, ls)])
      = Some ((acc @ [(report_key P G, ls)]) @ map (\<lambda>(G, ls). (report_key P G, ls)) d)"
    using Cons.prems by (intro Cons.IH) auto
  moreover have "AList.update (report_key P G) (lines_of acc (report_key P G) \<union> ls) acc = acc @ [(report_key P G, ls)]"
    using new by (simp add: update_fresh lines_of_def map_of_eq_None_iff [THEN iffD2])
  ultimately show ?case using git_path_valid [OF G] key by (simp add: x Let_def)
qed simp

text \<open>The changed lines are keyed by the path under which the report names the file: from every directory of the
  repository, the translation of git's root-relative paths loses and merges no file, and the key of a file is the
  normalized report path of every spelling of it, relative or absolute.\<close>

theorem report_paths_agree:
  assumes "list_all clean (R @ P)" and "cached_caller_prefix (R @ P) R = Some prefix"
    and "list_all (\<lambda>(G, _). G \<noteq> [] \<and> list_all clean G) d" and "distinct (map fst d)"
    and "\<forall>(G, _) \<in> set d. abs_components (R @ P) (spelled G) = R @ G"
  shows "changed_lines_relative_to_caller (R @ P) prefix (map (\<lambda>(G, ls). (join_components G, ls)) d) []
    = Some (map (\<lambda>(G, ls). (normalize_report_path (R @ P) (spelled G), ls)) d)"
  using caller_keys [OF assms(1-4), of "[]"] assms(5) report_key_of_path [of R P] by (auto simp: split_beta)

theorem report_paths_agree_witness:
  "changed_lines_relative_to_caller [code_text ''repo'', code_text ''src''] (code_text ''src/'')
     [(code_text ''src/a.py'', {1}), (code_text ''docs/b.md'', {2})] []
   = Some [(code_text ''a.py'', {1}), (code_text ''../docs/b.md'', {2})]"
proof -
  let ?R = "[code_text ''repo'']" and ?P = "[code_text ''src'']"
  let ?d = "[([code_text ''src'', code_text ''a.py''], {1::int}), ([code_text ''docs'', code_text ''b.md''], {2})]"
  let ?spelled = "\<lambda>G. slash # join_components (?R @ G)"
  have "list_all clean (?R @ ?P)" "cached_caller_prefix (?R @ ?P) ?R = Some (code_text ''src/'')"
    "list_all (\<lambda>(G, _). G \<noteq> [] \<and> list_all clean G) ?d" "distinct (map fst ?d)"
    "\<forall>(G, _) \<in> set ?d. abs_components (?R @ ?P) (?spelled G) = ?R @ G"
    by code_simp+
  note agree = report_paths_agree [OF this]
  have "map (\<lambda>(G, ls). (join_components G, ls)) ?d = [(code_text ''src/a.py'', {1}), (code_text ''docs/b.md'', {2})]"
    "map (\<lambda>(G, ls). (normalize_report_path (?R @ ?P) (?spelled G), ls)) ?d
      = [(code_text ''a.py'', {1}), (code_text ''../docs/b.md'', {2})]" by code_simp+
  note sides = this
  show ?thesis using agree [unfolded sides] by (simp only: append_Cons append_Nil)
qed

end
