(* ===== verification/Review_Enforcement.thy ===== *)
theory Review_Enforcement
  imports Capsule_Report Review_Scorer Report_Paths
begin

text \<open>
  Enforcement of a review report (\<^verbatim>\<open>run/runner.py\<close>): full, shadow and changed-line mode. The changed lines come from
  \<open>Changed_Evidence\<close>. The nested records of a report pass their validators unchanged when the report is validated
  again; its findings, which later steps may have copied, are validated as such.
\<close>

section \<open>Enforcement\<close>

definition finding_targets_changed_line :: "codepoints list \<Rightarrow> line_sets \<Rightarrow> ReviewFinding \<Rightarrow> bool" where
  "finding_targets_changed_line cwd changed_lines f =
     (case map_of changed_lines (normalize_report_path cwd (code_text (rf_file f))) of
        None \<Rightarrow> False
      | Some line_numbers \<Rightarrow> (if line_numbers = {} then False else rf_line f \<in> line_numbers))"

definition mode_copy :: "ReviewReport \<Rightarrow> enforcement_mode \<Rightarrow> string \<Rightarrow> ReviewReport" where
  "mode_copy report mode summary = report\<lparr>rr_enforcement_mode := Some mode, rr_enforcement_summary := Some summary\<rparr>"

text \<open>The left result is the report that ends the enforcement, the right one the changed lines.\<close>

definition changed_enforcement_precondition ::
  "evidence_env \<Rightarrow> ReviewReport \<Rightarrow> codepoints list \<Rightarrow> CachedDiffIdentity option \<Rightarrow> ReviewReport + line_sets" where
  "changed_enforcement_precondition env report files cached_diff =
     (if rr_assurance_status report = Some StUnknown \<or> rr_has_unknown_required_evidence report = Some True
      then Inl (mode_copy report EChanged ''Changed enforcement cannot pass while required evidence is UNKNOWN.'')
      else (case changed_lines_from_git env files cached_diff of
              Some changed_lines \<Rightarrow> Inr changed_lines
            | None \<Rightarrow>
                (if cached_diff = None
                 then Inl (mode_copy report EChanged
                        ''Changed-line evidence is unavailable; the completed report retains its existing verdict.'')
                 else Inl (mode_copy (report\<lparr>
                        rr_assurance_status := (if rr_assurance_status report \<noteq> None then Some StUnknown else None),
                        rr_has_unknown_required_evidence := Some True, rr_overall_verdict := Some VFail,
                        rr_ci_exit_code := Some 1\<rparr>) EChanged
                        ''Changed-line evidence is unavailable; changed enforcement fails closed.''))))"

definition member_blockers :: "(string \<times> ReviewFinding list) list \<Rightarrow> pydict \<Rightarrow> ReviewFinding list" where
  "member_blockers findings_by_member item = filter is_blocking (dict_list findings_by_member (evidence_id item))"

definition explained_failure ::
  "codepoints list \<Rightarrow> ReviewReport \<Rightarrow> (string \<times> ReviewFinding list) list \<Rightarrow> line_sets \<Rightarrow> pydict \<Rightarrow> bool" where
  "explained_failure cwd report findings_by_member changed_lines item =
     (let blockers = member_blockers findings_by_member item
      in blockers \<noteq> [] \<and> list_all (\<lambda>f. f \<in> set (rr_findings report)) blockers
         \<and> \<not> list_ex (finding_targets_changed_line cwd changed_lines) blockers)"

definition advisory_item :: "pydict \<Rightarrow> pydict" where
  "advisory_item item =
     dset (dset (dset item ''pre_enforcement_evidence_outcome'' (PStr ''FAIL'')) ''evidence_outcome'' (PStr ''PASS''))
       ''enforcement_disposition'' (PStr ''unchanged_blockers_advisory'')"

fun project_items ::
  "codepoints list \<Rightarrow> ReviewReport \<Rightarrow> (string \<times> ReviewFinding list) list \<Rightarrow> line_sets \<Rightarrow> pydict list \<Rightarrow> (pydict list \<times> nat) option" where
  "project_items cwd report by_member changed_lines [] = Some ([], 0)"
| "project_items cwd report by_member changed_lines (item # items) =
     (if dget item ''evidence_outcome'' \<noteq> PStr ''FAIL''
      then map_option (\<lambda>(projected, n). (item # projected, n)) (project_items cwd report by_member changed_lines items)
      else if \<not> explained_failure cwd report by_member changed_lines item then None
      else map_option (\<lambda>(projected, n). (advisory_item item # projected, Suc n))
             (project_items cwd report by_member changed_lines items))"

definition project_unchanged_member_failures ::
  "codepoints list \<Rightarrow> ReviewReport \<Rightarrow> (string \<times> ReviewFinding list) list \<Rightarrow> line_sets \<Rightarrow> pydict list option" where
  "project_unchanged_member_failures cwd report by_member changed_lines =
     (case rr_analyzer_evidence report of
        None \<Rightarrow> None
      | Some evidence \<Rightarrow>
          (case project_items cwd report by_member changed_lines evidence of
             None \<Rightarrow> None
           | Some (projected, failure_count) \<Rightarrow>
               (if rr_assurance_status report = Some StFail \<and> failure_count = 0 then None else Some projected)))"

fun validated_findings :: "ReviewFinding list \<Rightarrow> validation_errors + ReviewFinding list" where
  "validated_findings [] = Inr []"
| "validated_findings (f # fs) =
     (case make_finding f of Inl e \<Rightarrow> Inl e | Inr g \<Rightarrow> map_sum id (Cons g) (validated_findings fs))"

definition revalidated_report :: "ReviewReport \<Rightarrow> report_error + ReviewReport" where
  "revalidated_report report =
     (case validated_findings (rr_findings report) of
        Inl e \<Rightarrow> Inl (ValidationErrors e)
      | Inr findings \<Rightarrow> make_report (report\<lparr>rr_findings := findings\<rparr>))"

definition blocking_changed :: "codepoints list \<Rightarrow> ReviewReport \<Rightarrow> line_sets \<Rightarrow> ReviewFinding list" where
  "blocking_changed cwd report changed_lines =
     filter (\<lambda>f. is_blocking f \<and> finding_targets_changed_line cwd changed_lines f) (rr_findings report)"

definition passed_summary :: "ReviewFinding list \<Rightarrow> string" where
  "passed_summary findings =
     (let legacy_blocking = length (filter is_blocking findings)
      in if legacy_blocking = 0 then ''Changed enforcement found no blocking findings on changed lines.''
         else ''Changed enforcement found no blocking findings on changed lines; '' @ show_nat legacy_blocking
              @ '' legacy blocking finding(s) remain as evidence.'')"

definition enforce_changed_lines ::
  "codepoints list \<Rightarrow> ReviewReport \<Rightarrow> (string \<times> ReviewFinding list) list \<Rightarrow> line_sets \<Rightarrow> report_error + ReviewReport" where
  "enforce_changed_lines cwd report by_member changed_lines =
     (let blockers = blocking_changed cwd report changed_lines;
          status = (\<lambda>s. if rr_assurance_status report \<noteq> None then Some s else None);
          projected = (if rr_assurance_status report \<noteq> None
                       then project_unchanged_member_failures cwd report by_member changed_lines else None)
      in if blockers \<noteq> []
           then revalidated_report (mode_copy (report\<lparr>rr_assurance_status := status StFail, rr_overall_verdict := Some VFail,
                  rr_ci_exit_code := Some 1\<rparr>) EChanged
                  (''Changed enforcement blocks on '' @ show_nat (length blockers) @ '' blocking finding(s) on changed lines.''))
         else if rr_assurance_status report \<noteq> None \<and> projected = None
           then revalidated_report (mode_copy report EChanged
                  (''Changed enforcement cannot pass because failing analyzer evidence is not fully explained '' @
                   ''by proven unchanged blocking findings.''))
         else revalidated_report (mode_copy (report\<lparr>rr_assurance_status := status StPass,
                rr_overall_verdict := Some (if rr_findings report = [] then VPass else VPassWithAdvisory),
                rr_ci_exit_code := Some 0,
                rr_analyzer_evidence := (if rr_assurance_status report \<noteq> None then projected else rr_analyzer_evidence report)\<rparr>)
                EChanged (passed_summary (rr_findings report))))"

definition with_changed_enforcement ::
  "evidence_env \<Rightarrow> ReviewReport \<Rightarrow> codepoints list \<Rightarrow> (string \<times> ReviewFinding list) list \<Rightarrow> CachedDiffIdentity option
   \<Rightarrow> report_error + ReviewReport" where
  "with_changed_enforcement env report files by_member cached_diff =
     (case changed_enforcement_precondition env report files cached_diff of
        Inl precondition \<Rightarrow> Inr precondition
      | Inr changed_lines \<Rightarrow> enforce_changed_lines (ev_cwd env) report by_member changed_lines)"

definition with_enforcement ::
  "evidence_env \<Rightarrow> ReviewReport \<Rightarrow> enforcement_mode \<Rightarrow> codepoints list \<Rightarrow> (string \<times> ReviewFinding list) list
   \<Rightarrow> CachedDiffIdentity option \<Rightarrow> report_error + ReviewReport" where
  "with_enforcement env report mode files by_member cached_diff =
     (case mode of
        EFull \<Rightarrow> Inr (mode_copy report EFull ''Full enforcement blocks on any blocking finding in the reviewed files.'')
      | EShadow \<Rightarrow> Inr (mode_copy (report\<lparr>rr_ci_exit_code := Some 0\<rparr>) EShadow
                      ''Shadow enforcement records findings as evidence and never blocks CI.'')
      | EChanged \<Rightarrow> with_changed_enforcement env report files by_member cached_diff)"

definition with_capsule_enforcement ::
  "evidence_env \<Rightarrow> ReviewReport \<Rightarrow> ReviewOptions \<Rightarrow> codepoints list \<Rightarrow> (string \<times> ReviewFinding list) list
   \<Rightarrow> CachedDiffIdentity option \<Rightarrow> report_error + ReviewReport" where
  "with_capsule_enforcement env report options files by_member cached_diff =
     with_enforcement env report (op_review_mode options) files by_member cached_diff"

section \<open>Findings are kept\<close>

lemma validated_wf: "list_all wf_finding fs \<Longrightarrow> validated_findings fs = Inr fs"
proof (induction fs)
  case (Cons f fs)
  then have "make_finding f = Inr f"
    by (auto simp: wf_finding_def make_finding_def Let_def derive_c14_lifecycle_fields_def expected_blocking_def)
  with Cons show ?case by simp
qed simp

lemma make_report_findings: "make_report r = Inr r' \<Longrightarrow> rr_findings r' = rr_findings r"
  by (drule make_report_steps(2), erule derive_governance_cases)
    (auto elim!: authoritative_result simp: derive_score_governance_def)

lemma revalidated_steps:
  assumes "revalidated_report r = Inr r'" and "list_all wf_finding (rr_findings r)"
  shows "make_report r = Inr r'"
  using assms by (simp add: revalidated_report_def validated_wf)

text \<open>What a report ends with when it is built again, by the assurance status it is given.\<close>

lemma rebuilt_exit_fail:
  assumes "make_report r = Inr r'" and "rr_assurance_status r = Some StFail \<or> rr_assurance_status r = None"
    and "rr_enforcement_mode r = Some EChanged" and "rr_overall_verdict r = Some v" and "rr_ci_exit_code r = Some 1"
  shows "rr_ci_exit_code r' = Some 1"
  using make_report_steps(2) [OF assms(1)]
proof (cases rule: derive_governance_cases)
  case authoritative
  then show ?thesis by (rule authoritative_result) (use assms(2,3) in \<open>auto split: if_splits\<close>)
next
  case legacy
  then show ?thesis using assms by simp
next
  case scored
  then show ?thesis using assms by (simp add: has_explicit_legacy_governance_def)
qed

lemma legacy_exit_kept:
  assumes "make_report r = Inr r'" and "rr_assurance_status r = None"
    and "rr_enforcement_mode r = Some m" and "rr_overall_verdict r = Some v" and "rr_ci_exit_code r = Some c"
  shows "rr_ci_exit_code r' = Some c \<and> rr_overall_verdict r' = Some v"
  using make_report_steps(2) [OF assms(1)]
proof (cases rule: derive_governance_cases)
  case authoritative
  then show ?thesis using assms(2) by (auto elim: authoritative_result)
next
  case legacy
  then show ?thesis using assms by simp
next
  case scored
  then show ?thesis using assms by (simp add: has_explicit_legacy_governance_def)
qed

lemma legacy_report_builds:
  assumes "rr_assurance_status r = None" and "report_field_errors r = []"
  shows "\<exists>r'. make_report r = Inr r'"
  using assms by (simp add: make_report_def derive_governance_fields_def derive_authoritative_governance_def Let_def)

lemma authoritative_exit:
  assumes "make_report r = Inr r'" and "schema_version_at_least (rr_schema_version r') 6" and "rr_assurance_status r' = Some st"
  shows "rr_ci_exit_code r' = Some (if rr_enforcement_mode r' = Some EShadow \<or> st \<in> {StPass, StNotApplicable} then 0 else 1)"
    and "rr_has_unknown_required_evidence r' = Some True \<Longrightarrow> st \<in> {StFail, StUnknown}"
proof -
  have auth: "derive_authoritative_governance (prepare_governance r) = Inr (True, r')"
    using make_report_steps(2) [OF assms(1)] by (cases rule: derive_governance_cases) (use assms(2,3) in simp_all)
  show "rr_ci_exit_code r' = Some (if rr_enforcement_mode r' = Some EShadow \<or> st \<in> {StPass, StNotApplicable} then 0 else 1)"
    using auth by (rule authoritative_result) (use assms(3) in simp)
  show "st \<in> {StFail, StUnknown}" if "rr_has_unknown_required_evidence r' = Some True"
    using auth by (rule authoritative_result) (use assms(3) that in \<open>cases st; simp split: if_splits\<close>)
qed

lemma rebuilt_schema:
  assumes "make_report r = Inr r'" and "schema_version_at_least (rr_schema_version r) 6"
  shows "rr_schema_version r' = rr_schema_version r"
proof -
  have "rr_schema_version (prepare_governance r) = rr_schema_version r"
    using assms(2) by (simp add: prepare_governance_alt report_schema_version_def Let_def)
  with make_report_steps(2) [OF assms(1)] show ?thesis
    by (cases rule: derive_governance_cases) (auto elim!: authoritative_result)
qed

lemma mode_copy_fields [simp]:
  "rr_findings (mode_copy r m t) = rr_findings r" "rr_ci_exit_code (mode_copy r m t) = rr_ci_exit_code r"
  "rr_assurance_status (mode_copy r m t) = rr_assurance_status r" "rr_enforcement_mode (mode_copy r m t) = Some m"
  "rr_overall_verdict (mode_copy r m t) = rr_overall_verdict r" "rr_schema_version (mode_copy r m t) = rr_schema_version r"
  "rr_analyzer_evidence (mode_copy r m t) = rr_analyzer_evidence r"
  "rr_has_unknown_required_evidence (mode_copy r m t) = rr_has_unknown_required_evidence r"
  "report_field_errors (mode_copy r m t) = report_field_errors r"
  by (simp_all add: mode_copy_def report_field_errors_def)

text \<open>The three ways in which the classification by changed lines ends.\<close>

lemma enforce_cases:
  assumes "enforce_changed_lines cwd r by_member cl = Inr r'" and "list_all wf_finding (rr_findings r)"
  obtains
    (blocked) t where "blocking_changed cwd r cl \<noteq> []"
      "make_report (mode_copy (r\<lparr>rr_assurance_status := map_option (\<lambda>_. StFail) (rr_assurance_status r),
         rr_overall_verdict := Some VFail, rr_ci_exit_code := Some 1\<rparr>) EChanged t) = Inr r'"
  | (unexplained) t where "blocking_changed cwd r cl = []" "rr_assurance_status r \<noteq> None"
      "project_unchanged_member_failures cwd r by_member cl = None" "make_report (mode_copy r EChanged t) = Inr r'"
  | (passed) t v e where "blocking_changed cwd r cl = []"
      "rr_assurance_status r = None \<and> e = rr_analyzer_evidence r \<or>
       rr_assurance_status r \<noteq> None \<and> e \<noteq> None \<and> project_unchanged_member_failures cwd r by_member cl = e"
      "make_report (mode_copy (r\<lparr>rr_assurance_status := map_option (\<lambda>_. StPass) (rr_assurance_status r),
         rr_overall_verdict := Some v, rr_ci_exit_code := Some 0, rr_analyzer_evidence := e\<rparr>) EChanged t) = Inr r'"
proof -
  have status: "(if rr_assurance_status r \<noteq> None then Some s else None) = map_option (\<lambda>_. s) (rr_assurance_status r)" for s
    by (cases "rr_assurance_status r") simp_all
  consider "blocking_changed cwd r cl \<noteq> []"
    | "blocking_changed cwd r cl = []" "rr_assurance_status r \<noteq> None" "project_unchanged_member_failures cwd r by_member cl = None"
    | "blocking_changed cwd r cl = []" "rr_assurance_status r = None \<or> project_unchanged_member_failures cwd r by_member cl \<noteq> None"
    by (cases "blocking_changed cwd r cl = []"; cases "rr_assurance_status r"; cases "project_unchanged_member_failures cwd r by_member cl")
      simp_all
  then show thesis
  proof cases
    case 1
    then show ?thesis using assms(1) [unfolded enforce_changed_lines_def Let_def status] assms(2)
      by (intro blocked) (auto intro: revalidated_steps)
  next
    case 2
    then show ?thesis using assms(1) [unfolded enforce_changed_lines_def Let_def status] assms(2)
      by (intro unexplained) (auto intro: revalidated_steps)
  next
    case 3
    then show ?thesis using assms(1) [unfolded enforce_changed_lines_def Let_def status] assms(2)
      by (intro passed [of "if rr_assurance_status r \<noteq> None then project_unchanged_member_failures cwd r by_member cl
            else rr_analyzer_evidence r"]) (auto intro: revalidated_steps)
  qed
qed

lemma precondition_findings:
  "changed_enforcement_precondition env r files cd = Inl r' \<Longrightarrow> rr_findings r' = rr_findings r"
  by (auto simp: changed_enforcement_precondition_def split: if_splits option.splits)

text \<open>C12: Enforcement never drops or changes a finding: whatever the mode, the changed lines and the evidence, an enforced report
  has the findings of the report it was given, in their order.\<close>

theorem enforcement_keeps_findings:
  assumes "with_enforcement env report mode files by_member cached_diff = Inr enforced"
    and "list_all wf_finding (rr_findings report)"
  shows "rr_findings enforced = rr_findings report"
proof (cases mode)
  case EChanged
  show ?thesis
  proof (cases "changed_enforcement_precondition env report files cached_diff")
    case (Inl r)
    with EChanged assms(1) show ?thesis
      by (simp add: with_enforcement_def with_changed_enforcement_def precondition_findings)
  next
    case (Inr cl)
    with EChanged assms(1) have "enforce_changed_lines (ev_cwd env) report by_member cl = Inr enforced"
      by (simp add: with_enforcement_def with_changed_enforcement_def)
    then show ?thesis using assms(2) by (rule enforce_cases) (auto dest: make_report_findings)
  qed
qed (use assms(1) in \<open>auto simp: with_enforcement_def\<close>)

section \<open>Passing in changed mode\<close>

lemma project_items_explained:
  assumes "project_items cwd r by_member cl items = Some (projected, n)"
  shows "list_all (\<lambda>item. dget item ''evidence_outcome'' = PStr ''FAIL'' \<longrightarrow> explained_failure cwd r by_member cl item) items"
  using assms by (induction items arbitrary: projected n) (auto split: if_splits)

lemma passing_profile_no_fail:
  assumes "passing_pr_range_analyzer_profile (Some items) = Inr True"
  shows "list_all (\<lambda>item. dget item ''evidence_outcome'' \<noteq> PStr ''FAIL'') items"
proof -
  have "\<forall>item \<in> set items. in_str_set (dget item ''evidence_outcome'') PASSING_ANALYZER_OUTCOMES = Inr True"
    using assms by (auto simp: passing_pr_range_analyzer_profile_def evidence_list_def err_all_True Let_def split: if_splits)
  then show ?thesis by (auto simp: list_all_iff in_str_set_def PASSING_ANALYZER_OUTCOMES_def)
qed

lemma kept_status:
  assumes "make_report r = Inr r'" and "schema_version_at_least (rr_schema_version r) 6" and "rr_assurance_status r = Some st"
    and "rr_ci_exit_code r' = Some 0" and "rr_enforcement_mode r = Some EChanged" and "st \<noteq> StNotApplicable"
  shows "st = StPass" and "passing_pr_range_analyzer_profile (rr_analyzer_evidence r) = Inr True"
proof -
  have schema: "schema_version_at_least (rr_schema_version (prepare_governance r)) 6"
    using assms(2) by (simp add: prepare_governance_alt report_schema_version_def Let_def)
  have auth: "derive_authoritative_governance (prepare_governance r) = Inr (True, r')"
    using make_report_steps(2) [OF assms(1)] by (cases rule: derive_governance_cases) (use assms(3) schema in auto)
  obtain unk where u: "derived_unknown_evidence (prepare_governance r) st = Inr unk"
    and exit: "\<not> (unk \<and> st \<in> {StPass, StNotApplicable})" "st \<in> {StPass, StNotApplicable}"
    using auth by (rule authoritative_result) (use assms(3-5) in \<open>auto split: if_splits\<close>)
  show st: "st = StPass" using exit(2) assms(6) by simp
  have "derived_unknown_evidence (prepare_governance r) StPass = Inr False" using u exit st by simp
  then show "passing_pr_range_analyzer_profile (rr_analyzer_evidence r) = Inr True"
    by (auto simp: derived_unknown_evidence_def split: if_splits sum.splits)
qed

text \<open>C9: A changed-mode pass of an assurance report is earned. When a schema 1.6 report that was built without shadow mode and
  is not NOT_APPLICABLE leaves changed enforcement with exit code 0, either the changed lines of the worktree are unavailable
  and the report had passed before, or no blocking finding of the report is on a changed line and every analyzer that
  FAILED is explained: it has blocking findings, all of them are kept in the report, and none is on a changed line.\<close>

theorem changed_pass_is_earned:
  assumes "make_report q = Inr report" and "schema_version_at_least (rr_schema_version report) 6"
    and "rr_assurance_status report = Some st" and "st \<noteq> StNotApplicable" and "rr_enforcement_mode report \<noteq> Some EShadow"
    and "list_all wf_finding (rr_findings report)"
    and "with_changed_enforcement env report files by_member cached_diff = Inr enforced" and "rr_ci_exit_code enforced = Some 0"
  shows "(changed_lines_from_git env files cached_diff = None \<and> cached_diff = None \<and> rr_ci_exit_code report = Some 0)
    \<or> (\<exists>lines. changed_lines_from_git env files cached_diff = Some lines
         \<and> blocking_changed (ev_cwd env) report lines = []
         \<and> list_all (\<lambda>item. dget item ''evidence_outcome'' = PStr ''FAIL'' \<longrightarrow>
              explained_failure (ev_cwd env) report by_member lines item) (evidence_list (rr_analyzer_evidence report)))"
proof (cases "changed_enforcement_precondition env report files cached_diff")
  case (Inl r)
  then have exit: "rr_ci_exit_code r = Some 0" using assms(7,8) by (simp add: with_changed_enforcement_def)
  have "rr_ci_exit_code report \<noteq> Some 0" if "st = StUnknown \<or> rr_has_unknown_required_evidence report = Some True"
    using authoritative_exit [OF assms(1-3)] assms(5) that by auto
  then show ?thesis using Inl exit assms(3)
    by (auto simp: changed_enforcement_precondition_def split: if_splits option.splits)
next
  case (Inr lines)
  then have available: "changed_lines_from_git env files cached_diff = Some lines"
    by (auto simp: changed_enforcement_precondition_def split: if_splits option.splits)
  have "enforce_changed_lines (ev_cwd env) report by_member lines = Inr enforced"
    using Inr assms(7) by (simp add: with_changed_enforcement_def)
  then have "blocking_changed (ev_cwd env) report lines = []
         \<and> list_all (\<lambda>item. dget item ''evidence_outcome'' = PStr ''FAIL'' \<longrightarrow>
              explained_failure (ev_cwd env) report by_member lines item) (evidence_list (rr_analyzer_evidence report))"
    using assms(6)
  proof (rule enforce_cases)
    fix t
    assume "make_report (mode_copy (report\<lparr>rr_assurance_status := map_option (\<lambda>_. StFail) (rr_assurance_status report),
         rr_overall_verdict := Some VFail, rr_ci_exit_code := Some 1\<rparr>) EChanged t) = Inr enforced"
    then have "rr_ci_exit_code enforced = Some 1" by (rule rebuilt_exit_fail) (simp_all add: assms(3))
    with assms(8) show ?thesis by simp
  next
    fix t
    assume none: "blocking_changed (ev_cwd env) report lines = []"
      and "make_report (mode_copy report EChanged t) = Inr enforced"
    then have "passing_pr_range_analyzer_profile (rr_analyzer_evidence report) = Inr True"
      using kept_status(2) [of "mode_copy report EChanged t" enforced st] assms(2-4,8) by simp
    with none show ?thesis
      using passing_profile_no_fail by (cases "rr_analyzer_evidence report") (auto simp: evidence_list_def list_all_iff)
  next
    fix t v e
    assume none: "blocking_changed (ev_cwd env) report lines = []"
      and "rr_assurance_status report = None \<and> e = rr_analyzer_evidence report \<or>
       rr_assurance_status report \<noteq> None \<and> e \<noteq> None \<and> project_unchanged_member_failures (ev_cwd env) report by_member lines = e"
    then have "project_unchanged_member_failures (ev_cwd env) report by_member lines \<noteq> None" using assms(3) by auto
    with none show ?thesis using project_items_explained
      by (auto simp: project_unchanged_member_failures_def evidence_list_def split: option.splits)
  qed
  with available show ?thesis by blast
qed

text \<open>A report without an assurance status: changed enforcement always ends, and its exit code is decided by the blocking
  findings on changed lines alone.\<close>

lemma legacy_changed_exact:
  assumes "rr_assurance_status report = None" and "rr_has_unknown_required_evidence report \<noteq> Some True"
    and "report_field_errors report = []" and "list_all wf_finding (rr_findings report)"
    and "changed_lines_from_git env files None = Some lines"
  shows "\<exists>enforced. with_enforcement env report EChanged files by_member None = Inr enforced
    \<and> rr_findings enforced = rr_findings report
    \<and> rr_ci_exit_code enforced = Some (if blocking_changed (ev_cwd env) report lines = [] then 0 else 1)"
proof -
  let ?cwd = "ev_cwd env"
  have run: "with_enforcement env report EChanged files by_member None = enforce_changed_lines ?cwd report by_member lines"
    using assms(1,2,5) by (simp add: with_enforcement_def with_changed_enforcement_def changed_enforcement_precondition_def)
  have builds: "\<exists>r'. revalidated_report (mode_copy (report\<lparr>rr_assurance_status := None, rr_overall_verdict := v,
      rr_ci_exit_code := c, rr_analyzer_evidence := ev\<rparr>) EChanged t) = Inr r'" for v c ev t
    unfolding revalidated_report_def using assms(3,4)
    by (simp add: validated_wf) (rule legacy_report_builds; simp add: report_field_errors_def mode_copy_def)
  have "\<exists>enforced. enforce_changed_lines ?cwd report by_member lines = Inr enforced"
    using builds [where ev = "rr_analyzer_evidence report"] assms(1) by (simp add: enforce_changed_lines_def Let_def)
  then obtain enforced where e: "enforce_changed_lines ?cwd report by_member lines = Inr enforced" by blast
  then have "rr_findings enforced = rr_findings report
    \<and> rr_ci_exit_code enforced = Some (if blocking_changed ?cwd report lines = [] then 0 else 1)"
    using assms(4)
  proof (rule enforce_cases)
    fix t
    assume "blocking_changed ?cwd report lines \<noteq> []" and made: "make_report (mode_copy (report\<lparr>rr_assurance_status :=
        map_option (\<lambda>_. StFail) (rr_assurance_status report), rr_overall_verdict := Some VFail, rr_ci_exit_code := Some 1\<rparr>) EChanged t)
        = Inr enforced"
    with legacy_exit_kept [OF made, of EChanged VFail 1] make_report_findings [OF made] assms(1) show ?thesis by simp
  next
    fix t v ev
    assume "blocking_changed ?cwd report lines = []" and made: "make_report (mode_copy (report\<lparr>rr_assurance_status :=
        map_option (\<lambda>_. StPass) (rr_assurance_status report), rr_overall_verdict := Some v, rr_ci_exit_code := Some 0,
        rr_analyzer_evidence := ev\<rparr>) EChanged t) = Inr enforced"
    with legacy_exit_kept [OF made, of EChanged v 0] make_report_findings [OF made] assms(1) show ?thesis by simp
  qed (use assms(1) in simp)
  with run e show ?thesis by simp
qed

section \<open>Findings on the lines of git's diff\<close>

lemma join_fields: "join_components (path_fields path) = path"
proof (induction path)
  case (Cons c cs)
  then show ?case by (cases "path_fields cs" rule: join_components.cases) (auto split: list.splits)
qed simp

lemma map_of_inj_keys:
  assumes "\<And>a. a \<in> fst ` set xs \<Longrightarrow> f a = f k \<Longrightarrow> a = k"
  shows "map_of (map (\<lambda>(a, b). (f a, b)) xs) (f k) = map_of xs k"
  using assms by (induction xs) (auto simp: image_iff, metis)

lemma added_lookup:
  assumes "distinct (map (\<lambda>f. fs_decode (gf_path f)) files)" and "f \<in> set files"
  shows "map_of (concat (map file_added files)) (fs_decode (gf_path f)) = map_of (file_added f) (fs_decode (gf_path f))"
  using assms
proof (induction files)
  case (Cons g gs)
  show ?case
  proof (cases "g = f")
    case True
    have "fs_decode (gf_path f) \<notin> fst ` set (concat (map file_added gs))"
      using Cons.prems(1) True added_keys by (fastforce simp: image_iff)
    then show ?thesis using True by (simp add: map_of_append map_add_def map_of_eq_None_iff [THEN iffD2] split: option.split)
  next
    case False
    then have "fs_decode (gf_path g) \<noteq> fs_decode (gf_path f)" using Cons.prems by (auto simp: image_iff)
    then have "fs_decode (gf_path f) \<notin> fst ` set (file_added g)" using added_keys [of g] by auto
    then show ?thesis using Cons False
      by (simp add: map_of_append map_add_def map_of_eq_None_iff [THEN iffD2] split: option.split)
  qed
qed simp

lemma disjoint_keys: "A \<subseteq> {k} \<Longrightarrow> B \<subseteq> K \<Longrightarrow> k \<notin> K \<Longrightarrow> A \<inter> B = {}"
  by auto

lemma added_distinct: "distinct (map (\<lambda>f. fs_decode (gf_path f)) files) \<Longrightarrow> distinct (map fst (concat (map file_added files)))"
proof (induction files)
  case (Cons g gs)
  have "fst ` set (concat (map file_added gs)) = (\<Union>h \<in> set gs. fst ` set (file_added h))" by auto
  then have "fst ` set (concat (map file_added gs)) \<subseteq> (\<lambda>f. fs_decode (gf_path f)) ` set gs"
    using added_keys by (simp only: UN_subset_iff) (metis image_eqI singletonD subsetI subsetD)
  moreover have "fs_decode (gf_path g) \<notin> (\<lambda>f. fs_decode (gf_path f)) ` set gs" using Cons.prems by simp
  ultimately have "fst ` set (file_added g) \<inter> fst ` set (concat (map file_added gs)) = {}"
    by (rule disjoint_keys [OF added_keys])
  moreover have "distinct (map fst (file_added g))" by (auto simp: file_added_def split: git_status.splits)
  moreover have "distinct (map fst (concat (map file_added gs)))" using Cons by simp
  ultimately show ?case by (simp only: list.map concat.simps map_append distinct_append set_map)
qed simp


section \<open>Examples\<close>

definition demo_blocker :: "int \<Rightarrow> ReviewFinding" where
  "demo_blocker line = some_blocker\<lparr>rf_file := ''./a.py'', rf_line := line\<rparr>"

definition demo_change :: "git_file list" where
  "demo_change = [\<lparr>gf_path = ''a.py'', gf_status = GitModified, gf_hunks = [demo_hunk]\<rparr>]"

definition demo_env :: evidence_env where
  "demo_env =
     \<lparr>ev_git = (\<lambda>_ _. Some \<lparr>pr_returncode = 0, pr_stdout = diff_text_of demo_change, pr_stderr = []\<rparr>),
      ev_batch = (\<lambda>_ _. None), ev_no_index = (\<lambda>_ _. None), ev_cwd = [code_text ''repo''], ev_lstat = (\<lambda>_. PathMissing),
      ev_exists = (\<lambda>_. False), ev_read = (\<lambda>_. None), ev_diff_mode = Some ''cached'', ev_sha1 = (\<lambda>_. []), ev_sha256 = (\<lambda>_. [])\<rparr>"

definition demo_diff :: CachedDiffIdentity where
  "demo_diff = \<lparr>cd_base_tree = ''b'', cd_index_tree = ''i'', cd_caller_prefix = []\<rparr>"

definition demo_failing :: "int \<Rightarrow> ReviewReport" where
  "demo_failing line = sample_report\<lparr>rr_schema_version := ''1.6'', rr_assurance_status := Some StFail,
     rr_findings := [demo_blocker line],
     rr_analyzer_evidence := Some (map (\<lambda>name. [(PStr ''id'', PStr name),
       (PStr ''evidence_outcome'', PStr (if name = ''ruff'' then ''FAIL'' else ''PASS''))]) PR_RANGE_ANALYZERS)\<rparr>"

definition demo_enforced :: "int \<Rightarrow> report_error + ReviewReport" where
  "demo_enforced line = (case make_report (demo_failing line) of
      Inl e \<Rightarrow> Inl e
    | Inr r \<Rightarrow> with_enforcement demo_env r EChanged [] [(''ruff'', [demo_blocker line])] (Some demo_diff))"

definition exit_code_of :: "report_error + ReviewReport \<Rightarrow> int option" where
  "exit_code_of result = (case result of Inl _ \<Rightarrow> None | Inr r \<Rightarrow> rr_ci_exit_code r)"

lemma demo_exit_codes: "exit_code_of (demo_enforced 9) = Some 0" "exit_code_of (demo_enforced 4) = Some 1"
  by code_simp+

lemma demo_report:
  assumes "line \<in> {4, 9}"
  obtains r where "make_report (demo_failing line) = Inr r" "rr_findings r = [demo_blocker line]" "rr_schema_version r = ''1.6''"
    "rr_assurance_status r = Some StFail" "rr_enforcement_mode r = None" "list_all wf_finding (rr_findings r)"
    "demo_enforced line = with_enforcement demo_env r EChanged [] [(''ruff'', [demo_blocker line])] (Some demo_diff)"
proof -
  let ?r = "(demo_failing line)\<lparr>rr_reward_delta := Some 20, rr_has_unknown_required_evidence := Some False,
      rr_overall_verdict := Some VFail, rr_ci_exit_code := Some 1\<rparr>"
  have "make_report (demo_failing 4) = Inr ((demo_failing 4)\<lparr>rr_reward_delta := Some 20,
      rr_has_unknown_required_evidence := Some False, rr_overall_verdict := Some VFail, rr_ci_exit_code := Some 1\<rparr>)"
    "make_report (demo_failing 9) = Inr ((demo_failing 9)\<lparr>rr_reward_delta := Some 20,
      rr_has_unknown_required_evidence := Some False, rr_overall_verdict := Some VFail, rr_ci_exit_code := Some 1\<rparr>)"
    "wf_finding (demo_blocker 4)" "wf_finding (demo_blocker 9)" by code_simp+
  then have "make_report (demo_failing line) = Inr ?r" "wf_finding (demo_blocker line)" using assms by auto
  then show thesis
    by (intro that [of ?r]) (simp_all add: demo_enforced_def demo_failing_def sample_report_def)
qed

theorem enforcement_keeps_findings_witness:
  "\<exists>enforced. demo_enforced 9 = Inr enforced \<and> rr_findings enforced = [demo_blocker 9]"
proof -
  obtain r where r: "rr_findings r = [demo_blocker 9]" "list_all wf_finding (rr_findings r)"
    "demo_enforced 9 = with_enforcement demo_env r EChanged [] [(''ruff'', [demo_blocker 9])] (Some demo_diff)"
    by (rule demo_report [of 9]) simp_all
  obtain enforced where e: "demo_enforced 9 = Inr enforced"
    using demo_exit_codes(1) by (auto simp: exit_code_of_def split: sum.splits)
  with r(3) have "with_enforcement demo_env r EChanged [] [(''ruff'', [demo_blocker 9])] (Some demo_diff) = Inr enforced" by simp
  from enforcement_keeps_findings [OF this r(2)] r(1) e show ?thesis by simp
qed

theorem changed_pass_is_earned_witness:
  "\<exists>r lines. make_report (demo_failing 9) = Inr r \<and> changed_lines_from_git demo_env [] (Some demo_diff) = Some lines
     \<and> blocking_changed (ev_cwd demo_env) r lines = []"
proof -
  obtain r where r: "make_report (demo_failing 9) = Inr r" "rr_schema_version r = ''1.6''" "rr_assurance_status r = Some StFail"
    "rr_enforcement_mode r = None" "list_all wf_finding (rr_findings r)"
    "demo_enforced 9 = with_enforcement demo_env r EChanged [] [(''ruff'', [demo_blocker 9])] (Some demo_diff)"
    by (rule demo_report [of 9]) simp_all
  obtain enforced where e: "demo_enforced 9 = Inr enforced" "rr_ci_exit_code enforced = Some 0"
    using demo_exit_codes(1) by (auto simp: exit_code_of_def split: sum.splits)
  have run: "with_changed_enforcement demo_env r [] [(''ruff'', [demo_blocker 9])] (Some demo_diff) = Inr enforced"
    using r(6) e(1) by (simp add: with_enforcement_def)
  have "schema_version_at_least (rr_schema_version r) 6" unfolding r(2) by code_simp
  from changed_pass_is_earned [OF r(1) this r(3) _ _ r(5) run e(2)] r(1,4) show ?thesis by auto
qed


end
