(* ===== verification/Review_Run.thy ===== *)
theory Review_Run
  imports Review_Enforcement Cleanup_Evidence
begin

text \<open>
  A review run (\<^verbatim>\<open>run/runner.py\<close>, \<open>run_review\<close>): options, the pull-request checklist, the reasons for preserving code,
  the enrichment of cleanup findings, scoring, the report and its enforcement. The analyzers, the test gate, the
  environment, the parser of Python and the files are parameters.
\<close>

section \<open>Options\<close>

datatype override_value = OverrideValue pyval | OverrideCallable | OverridePath string

definition override_keys :: "string list" where
  "override_keys =
     [''no_tests'', ''include_noise'', ''progress_callback'', ''bug_hunt'', ''review_level'', ''review_mode'', ''focus'',
      ''project_config'', ''project_runtime'']"

definition override_of :: "(string \<times> override_value) list \<Rightarrow> string \<Rightarrow> pyval \<Rightarrow> override_value" where
  "override_of overrides key v0 = (case map_of overrides key of None \<Rightarrow> OverrideValue v0 | Some v \<Rightarrow> v)"

definition override_flag :: "(string \<times> override_value) list \<Rightarrow> string \<Rightarrow> bool option" where
  "override_flag overrides key =
     (case override_of overrides key (PBool False) of OverrideValue (PBool b) \<Rightarrow> Some b | _ \<Rightarrow> None)"

text \<open>A value that must be one of some texts or, if allowed, \<open>None\<close>.\<close>

definition override_text :: "string list \<Rightarrow> override_value \<Rightarrow> string option option" where
  "override_text allowed v =
     (case v of
        OverrideValue PNone \<Rightarrow> Some None
      | OverrideValue (PStr s) \<Rightarrow> (if s \<in> set allowed then Some (Some s) else None)
      | _ \<Rightarrow> None)"

definition review_mode_of :: "string \<Rightarrow> enforcement_mode" where
  "review_mode_of s = (if s = ''changed'' then EChanged else if s = ''shadow'' then EShadow else EFull)"

text \<open>Every refusal is a \<open>TypeError\<close>.\<close>

definition review_options_from_kwargs ::
  "ReviewOptions option \<Rightarrow> (string \<times> override_value) list \<Rightarrow> py_error + ReviewOptions" where
  "review_options_from_kwargs options overrides =
     (case options of
        Some opts \<Rightarrow> (if overrides \<noteq> [] then Inl TypeError else Inr opts)
      | None \<Rightarrow>
          (if \<not> set (map fst overrides) \<subseteq> set override_keys then Inl TypeError
           else (case (override_flag overrides ''no_tests'', override_flag overrides ''include_noise'', override_flag overrides ''bug_hunt'') of
                   (Some no_tests, Some include_noise, Some bug_hunt) \<Rightarrow>
                     (if override_of overrides ''progress_callback'' PNone \<notin> {OverrideValue PNone, OverrideCallable} then Inl TypeError
                      else (case (override_text [''error'', ''warning''] (override_of overrides ''review_level'' PNone),
                                  override_text [''full'', ''changed'', ''shadow'', ''enforce'']
                                    (override_of overrides ''review_mode'' (PStr ''full'')),
                                  override_text [''simplify''] (override_of overrides ''focus'' PNone)) of
                              (Some level, Some (Some mode), Some focus) \<Rightarrow>
                                Inr \<lparr>op_no_tests = no_tests, op_include_noise = include_noise, op_bug_hunt = bug_hunt,
                                     op_review_level = level, op_review_mode = review_mode_of mode, op_focus = focus\<rparr>
                            | _ \<Rightarrow> Inl TypeError))
                 | _ \<Rightarrow> Inl TypeError)))"

section \<open>The checklist\<close>

definition is_truthy_env :: "(string \<Rightarrow> string option) \<Rightarrow> string \<Rightarrow> bool" where
  "is_truthy_env environ name =
     (py_lower (py_strip (case environ name of None \<Rightarrow> [] | Some v \<Rightarrow> v)) \<in> {''1'', ''true'', ''yes'', ''on''})"

definition PR_CONTEXT_ENVS :: "string list" where
  "PR_CONTEXT_ENVS =
     [''SPECFACT_CODE_REVIEW_PR_TITLE'', ''SPECFACT_CODE_REVIEW_PR_BODY'', ''SPECFACT_CODE_REVIEW_PR_PROPOSAL'']"

definition CLEAN_CODE_CONTEXT_HINTS :: "string list" where
  "CLEAN_CODE_CONTEXT_HINTS = [''clean code'', ''naming'', ''kiss'', ''yagni'', ''dry'', ''solid'', ''complexity'']"

definition checklist_finding :: ReviewFinding where
  "checklist_finding =
     plain_finding CleanCode SevInfo ''checklist'' ''clean-code.pr-checklist-missing-rationale'' ''PR_CONTEXT'' 1
       (''PR context is missing explicit clean-code reasoning. '' @
        ''Call out the naming, KISS, YAGNI, DRY, or SOLID impact in the proposal or PR body.'') False"

definition checklist_findings :: "(string \<Rightarrow> string option) \<Rightarrow> validation_errors + ReviewFinding list" where
  "checklist_findings environ =
     (if \<not> is_truthy_env environ ''SPECFACT_CODE_REVIEW_PR_MODE'' then Inr []
      else (let pr_context = py_join [CHR 0x0A]
                  (filter (\<lambda>t. t \<noteq> []) (map (\<lambda>name. py_strip (case environ name of None \<Rightarrow> [] | Some v \<Rightarrow> v)) PR_CONTEXT_ENVS))
            in if list_ex (\<lambda>hint. rx_search True (Then Boundary (Then (Text hint) Boundary)) pr_context) CLEAN_CODE_CONTEXT_HINTS
               then Inr []
               else map_sum id (\<lambda>f. [f]) (make_finding checklist_finding)))"

section \<open>Reasons for preserving code\<close>

text \<open>What the code reads of the syntax tree of a module: the function and class definitions in the order of \<open>ast.walk\<close>, and
  the assignments of its body with their targets and, for a list, tuple or set, the elements.\<close>

datatype syn = SynName string | SynAttribute syn string | SynCall syn | SynSubscript syn | SynText string | SynOther

datatype statement = PassStatement | EllipsisStatement | TextStatement | OtherStatement

record function_node =
  fn_name :: string
  fn_lineno :: int
  fn_end_lineno :: "int option"
  fn_decorators :: "syn list"
  fn_body :: "statement list"

record class_node =
  cn_lineno :: int
  cn_end_lineno :: "int option"
  cn_bases :: "syn list"

record parsed_module =
  pm_functions :: "function_node list"
  pm_classes :: "class_node list"
  pm_assignments :: "(syn list \<times> syn list option) list"

definition last_line :: "int \<Rightarrow> int option \<Rightarrow> int" where
  "last_line lineno end_lineno = (case end_lineno of None \<Rightarrow> lineno | Some n \<Rightarrow> (if n = 0 then lineno else n))"

fun first_max :: "('a \<Rightarrow> int) \<Rightarrow> 'a list \<Rightarrow> 'a option" where
  "first_max key [] = None"
| "first_max key (x # xs) =
     (case first_max key (filter (\<lambda>y. key y > key x) xs) of None \<Rightarrow> Some x | Some y \<Rightarrow> Some y)"

definition function_containing_line :: "parsed_module \<Rightarrow> int \<Rightarrow> function_node option" where
  "function_containing_line tree line =
     first_max fn_lineno (filter (\<lambda>n. fn_lineno n \<le> line \<and> line \<le> last_line (fn_lineno n) (fn_end_lineno n)) (pm_functions tree))"

definition class_containing_line :: "parsed_module \<Rightarrow> int \<Rightarrow> class_node option" where
  "class_containing_line tree line =
     first_max cn_lineno (filter (\<lambda>n. cn_lineno n \<le> line \<and> line \<le> last_line (cn_lineno n) (cn_end_lineno n)) (pm_classes tree))"

definition module_all_assignment_values :: "syn list \<times> syn list option \<Rightarrow> syn list option" where
  "module_all_assignment_values assignment =
     (if SynName ''__all__'' \<in> set (fst assignment) then snd assignment else None)"

definition string_constant_value :: "syn \<Rightarrow> string option" where
  "string_constant_value e = (case e of SynText t \<Rightarrow> Some t | _ \<Rightarrow> None)"

definition module_all_names :: "parsed_module \<Rightarrow> string list" where
  "module_all_names tree =
     concat (map (\<lambda>a. case module_all_assignment_values a of
       None \<Rightarrow> [] | Some items \<Rightarrow> List.map_filter string_constant_value items) (pm_assignments tree))"

definition dotted :: "string \<Rightarrow> string \<Rightarrow> string" where
  "dotted prefix name = (if prefix \<noteq> [] then prefix @ ''.'' @ name else name)"

text \<open>A call in front of an attribute is looked through as well, but not a call of a call.\<close>

fun decorator_full_name :: "syn \<Rightarrow> string" where
  "decorator_full_name (SynName n) = n"
| "decorator_full_name (SynAttribute v n) = dotted (decorator_full_name v) n"
| "decorator_full_name (SynCall (SynName n)) = n"
| "decorator_full_name (SynCall (SynAttribute v n)) = dotted (decorator_full_name v) n"
| "decorator_full_name _ = []"

fun base_name :: "syn \<Rightarrow> string" where
  "base_name (SynName n) = n"
| "base_name (SynAttribute v n) = dotted (base_name v) n"
| "base_name (SynSubscript v) = base_name v"
| "base_name _ = []"

definition name_tail :: "string \<Rightarrow> string" where
  "name_tail s = last (py_split_char (CHR ''.'') s)"

definition has_contract_decorator :: "function_node \<Rightarrow> bool" where
  "has_contract_decorator f =
     list_ex (\<lambda>d. decorator_full_name d \<in> set [''require'', ''ensure'', ''invariant'', ''icontract.require'', ''icontract.ensure'',
       ''icontract.invariant'']) (fn_decorators f)"

definition has_cli_decorator :: "function_node \<Rightarrow> bool" where
  "has_cli_decorator f = list_ex (\<lambda>d. name_tail (decorator_full_name d) \<in> {''command'', ''callback''}) (fn_decorators f)"

definition has_abstractmethod :: "function_node \<Rightarrow> bool" where
  "has_abstractmethod f = list_ex (\<lambda>d. name_tail (decorator_full_name d) = ''abstractmethod'') (fn_decorators f)"

definition has_base_named :: "class_node \<Rightarrow> string list \<Rightarrow> bool" where
  "has_base_named c names = list_ex (\<lambda>b. name_tail (base_name b) \<in> set names) (cn_bases c)"

definition is_stub_function :: "function_node \<Rightarrow> bool" where
  "is_stub_function f =
     list_all (\<lambda>st. st \<in> {PassStatement, EllipsisStatement}) (filter (\<lambda>st. st \<noteq> TextStatement) (fn_body f))"

definition is_protocol_or_abstract_member :: "class_node \<Rightarrow> function_node option \<Rightarrow> bool" where
  "is_protocol_or_abstract_member c f =
     (case f of
        None \<Rightarrow> False
      | Some fn \<Rightarrow> (if has_abstractmethod fn then True else has_base_named c [''Protocol''] \<and> is_stub_function fn))"

definition lines_above :: "string list \<Rightarrow> int \<Rightarrow> string" where
  "lines_above lines line = py_join [CHR 0x0A] (take (nat line - nat (max 0 (line - 3))) (drop (nat (max 0 (line - 3))) lines))"

definition has_preserve_marker :: "string list \<Rightarrow> int \<Rightarrow> bool" where
  "has_preserve_marker lines line = py_contains (lines_above lines line) ''specfact: preserve(''"

definition has_spec_marker :: "string list \<Rightarrow> int \<Rightarrow> bool" where
  "has_spec_marker lines line =
     (py_contains (lines_above lines line) ''# spec:'' \<or> py_contains (lines_above lines line) ''# specfact: requirement('')"

text \<open>The source of a file with its syntax tree; \<open>None\<close> when it cannot be read, decoded or parsed.\<close>

definition get_parsed_source ::
  "(string \<Rightarrow> file_read) \<Rightarrow> (string \<Rightarrow> parsed_module option) \<Rightarrow> string \<Rightarrow> (parsed_module \<times> string list) option" where
  "get_parsed_source read parse path =
     (case read path of
        FileText source \<Rightarrow> map_option (\<lambda>tree. (tree, py_splitlines source)) (parse source)
      | _ \<Rightarrow> None)"

definition dedupe_preserve_reasons :: "PreserveReasonEvidence list \<Rightarrow> PreserveReasonEvidence list" where
  "dedupe_preserve_reasons reasons =
     foldl (\<lambda>kept r. if pe_reason r \<in> set (map pe_reason kept) then kept else kept @ [r]) [] reasons"

text \<open>The reasons in the order of the code, each with its condition.\<close>

definition reason_candidates ::
  "parsed_module \<Rightarrow> string list \<Rightarrow> int \<Rightarrow> (bool \<times> preserve_reason \<times> string) list" where
  "reason_candidates tree lines line =
     (let fn = function_containing_line tree line; cn = class_containing_line tree line
      in (case fn of
            None \<Rightarrow> []
          | Some f \<Rightarrow>
              [(has_contract_decorator f, ContractLambda, ''Function is protected by an icontract-style contract decorator.''),
               (fn_name f \<in> set (module_all_names tree), PublicApi, ''Function is exported through __all__ and is public API.''),
               (has_cli_decorator f, CliCallback, ''Function is registered as a Typer or Click callback.''),
               (has_preserve_marker lines (fn_lineno f), CompatShim,
                ''Function has an explicit specfact preserve compatibility marker.''),
               (has_spec_marker lines (fn_lineno f), SpecLinked, ''Function has an explicit spec requirement marker.'')])
         @ (case cn of
              None \<Rightarrow> []
            | Some c \<Rightarrow> [(is_protocol_or_abstract_member c fn, ProtocolMember,
                         ''Finding is inside an abstract Protocol or ABC member contract.'')]))"

definition preserve_reasons_for_finding ::
  "(string \<Rightarrow> file_read) \<Rightarrow> (string \<Rightarrow> parsed_module option) \<Rightarrow> ReviewFinding \<Rightarrow> bool \<Rightarrow> validation_errors + PreserveReasonEvidence list" where
  "preserve_reasons_for_finding read parse f load_bearing =
     (case make_evidence_ref (finding_ref f) of
        Inl e \<Rightarrow> Inl e
      | Inr ref \<Rightarrow>
          (let evidence = (\<lambda>(_, reason, explanation).
                 \<lparr>pe_reason = reason, pe_evidence_refs = [ref], pe_explanation = explanation\<rparr>);
               proof_reasons = map evidence (filter fst [(load_bearing, LoadBearing, ''Mutation proof indicates this code is load-bearing.'')])
           in case get_parsed_source read parse (rf_file f) of
                None \<Rightarrow> Inr proof_reasons
              | Some (tree, lines) \<Rightarrow>
                  Inr (dedupe_preserve_reasons (proof_reasons @
                         map evidence (filter fst (reason_candidates tree lines (rf_line f)))))))"

section \<open>Enrichment of cleanup findings\<close>

definition signal_trace_for_finding :: "ReviewFinding \<Rightarrow> validation_errors + SignalTraceEntry list" where
  "signal_trace_for_finding f =
     (if trace_of f \<noteq> [] then Inr (trace_of f)
      else map_sum id (\<lambda>entry. [entry]) (make_signal f
        \<lparr>st_tool = rf_tool f, st_source = rf_rule f, st_fired = True,
         st_score = (if rf_confidence f = Some High then Some 1 else None),
         st_value = map_option SvStr (rf_canonical_pattern f), st_evidence_refs = Some [finding_ref f],
         st_explanation = rf_tool f @ '' emitted '' @ rf_rule f @ ''.''\<rparr>))"

definition remediation_packet_for_finding :: "ReviewFinding \<Rightarrow> validation_errors + RemediationPacket" where
  "remediation_packet_for_finding f =
     make_remediation_packet
       \<lparr>rp_issue = rf_message f,
        rp_recommended_action = (case rf_recommended_action f of None \<Rightarrow> ''inspect'' | Some a \<Rightarrow> recommended_action_text a),
        rp_possible_keep_reason =
          (if rf_preserve_reason f = None \<and> rf_guidance_kind f \<in> {Some DesignJudgment, Some NeedsTests}
           then Some ''Keep the current shape if tests, API compatibility, or domain readability need it.'' else rf_preserve_reason f),
        rp_safety_checks = packet_checks f,
        rp_validation_plan = [''run targeted tests for the touched file'', ''rerun specfact code review with --focus simplify''],
        rp_safe_to_autofix = (is_safe_mechanical_simplification f \<and> rf_fixable f), rp_patch_forecast_refs = None\<rparr>"

definition merged_reasons :: "PreserveReasonEvidence list \<Rightarrow> PreserveReasonEvidence list \<Rightarrow> PreserveReasonEvidence list" where
  "merged_reasons known found = foldl (\<lambda>rs r. if r \<in> set rs then rs else rs @ [r]) known found"

definition enriched_cleanup_finding ::
  "(string \<Rightarrow> file_read) \<Rightarrow> (string \<Rightarrow> parsed_module option) \<Rightarrow> ReviewFinding \<Rightarrow> validation_errors + ReviewFinding" where
  "enriched_cleanup_finding read parse f =
     (if rf_guidance_kind f = None then Inr f
      else (case preserve_reasons_for_finding read parse f False of
              Inl e \<Rightarrow> Inl e
            | Inr found \<Rightarrow>
                (case signal_trace_for_finding f of
                   Inl e \<Rightarrow> Inl e
                 | Inr trace \<Rightarrow>
                     (let reasons = merged_reasons (case rf_preserve_reasons f of None \<Rightarrow> [] | Some rs \<Rightarrow> rs) found;
                          traced = f\<lparr>rf_signal_trace := Some trace\<rparr>;
                          candidate = (if reasons = [] then traced
                            else traced\<lparr>rf_guidance_kind := Some Preserve, rf_recommended_action := Some Keep,
                                   rf_estimated_deletion_lines := Some 0, rf_action_status := Some Kept,
                                   rf_preserve_reason := Some (py_join ''; '' (map pe_explanation reasons)),
                                   rf_preserve_reasons := Some reasons\<rparr>)
                      in map_sum id (\<lambda>packet. candidate\<lparr>rf_remediation_packet := Some packet\<rparr>)
                           (remediation_packet_for_finding candidate)))))"

section \<open>The run\<close>

datatype run_error = RunRaised py_error | RunValidation validation_errors | RunReport report_error | RunUndecodable

record review_host =
  rh_tool :: "string \<Rightarrow> bool \<Rightarrow> ReviewFinding list"
  rh_tdd :: "string list \<Rightarrow> ReviewFinding list \<times> (string \<times> rat) list option"
  rh_environ :: "string \<Rightarrow> string option"
  rh_read :: "string \<Rightarrow> file_read"
  rh_parse :: "string \<Rightarrow> parsed_module option"
  rh_classes :: "string \<Rightarrow> class_def list option"
  rh_evidence :: evidence_env
  rh_uuid :: string
  rh_now :: int

definition tool_steps :: "string list" where
  "tool_steps =
     [''run_ruff'', ''run_radon'', ''run_semgrep'', ''run_semgrep_bugs'', ''run_ai_bloat'', ''run_ast_clean_code'', ''run_basedpyright'',
      ''run_pylint'', ''run_contract_check'']"

definition collect_tool_findings :: "review_host \<Rightarrow> bool \<Rightarrow> ReviewFinding list" where
  "collect_tool_findings host bug_hunt = concat (map (\<lambda>runner. rh_tool host runner (runner = ''run_contract_check'' \<and> bug_hunt)) tool_steps)"

definition collect_tdd_findings :: "review_host \<Rightarrow> string list \<Rightarrow> bool \<Rightarrow> ReviewFinding list \<times> bool" where
  "collect_tdd_findings host files no_tests =
     (if no_tests then ([], False)
      else (case rh_tdd host files of
              (findings, coverage) \<Rightarrow>
                (findings, (case coverage of None \<Rightarrow> False | Some c \<Rightarrow> c \<noteq> [] \<and> list_all (\<lambda>(_, percent). percent \<ge> 90) c))))"

definition SUPPRESSION_MARKERS :: "string list" where
  "SUPPRESSION_MARKERS = [''# noqa'', ''# type: ignore'', ''# pyright: ignore'', ''# pylint: disable'']"

fun has_no_suppressions :: "(string \<Rightarrow> file_read) \<Rightarrow> string list \<Rightarrow> run_error + bool" where
  "has_no_suppressions read [] = Inr True"
| "has_no_suppressions read (path # files) =
     (case read path of
        FileOSError \<Rightarrow> Inr False
      | FileUndecodable \<Rightarrow> Inl RunUndecodable
      | FileText content \<Rightarrow>
          (if list_ex (py_contains content) SUPPRESSION_MARKERS then Inr False else has_no_suppressions read files))"

definition review_kwargs :: "ReviewFinding list \<Rightarrow> bool \<Rightarrow> bool \<Rightarrow> bool \<Rightarrow> (string \<times> pyval) list" where
  "review_kwargs findings coverage unsuppressed simplify =
     [(''zero_loc_violations'', PBool (\<not> list_ex (\<lambda>f. rf_tool f = ''ruff'' \<and> rf_rule f = ''E501'') findings)),
      (''zero_complexity_violations'', PBool (\<not> list_ex (\<lambda>f. rf_tool f = ''radon'') findings)),
      (''all_apis_have_icontract'', PBool (\<not> list_ex (\<lambda>f. rf_rule f = ''MISSING_ICONTRACT'') findings)),
      (''coverage_90_plus'', PBool coverage), (''no_new_suppressions'', PBool unsuppressed),
      (''simplification_score_neutral'', PBool simplify)]"

definition run_report_of :: "review_host \<Rightarrow> int \<Rightarrow> ReviewFinding list \<Rightarrow> CleanupForecast option \<Rightarrow> ReviewReport" where
  "run_report_of host score findings forecast =
     \<lparr>rr_schema_version = ''1.0'', rr_run_id = ''review-'' @ rh_uuid host, rr_timestamp = rh_now host, rr_overall_verdict = None,
      rr_ci_exit_code = None, rr_assurance_status = None, rr_has_unknown_required_evidence = None,
      rr_scope_evidence = None, rr_analyzer_evidence = None, rr_suppression_catalog_digest = None, rr_score = score,
      rr_reward_delta = None, rr_findings = findings, rr_summary = summary_for_findings findings,
      rr_simplification_summary = None, rr_cleanup_forecast = forecast, rr_enforcement_mode = None,
      rr_enforcement_summary = None, rr_requirements_evidence = None, rr_house_rules_updates = []\<rparr>"

text \<open>The findings of a run after the filters.\<close>

definition run_findings :: "review_host \<Rightarrow> string list \<Rightarrow> ReviewOptions \<Rightarrow> run_error + (ReviewFinding list \<times> bool)" where
  "run_findings host files options =
     (case collect_tdd_findings host files (op_no_tests options) of
        (tdd, coverage) \<Rightarrow>
          (case checklist_findings (rh_environ host) of
             Inl e \<Rightarrow> Inl (RunValidation e)
           | Inr checklist \<Rightarrow>
               (let findings = collect_tool_findings host (op_bug_hunt options) @ tdd @ checklist;
                    heard = (if op_include_noise options then findings else suppress_known_noise (rh_classes host) findings)
                in map_sum RunRaised (\<lambda>fs. (fs, coverage))
                     (filter_findings_by_focus (filter_findings_by_review_level heard (op_review_level options)) (op_focus options)))))"

definition simplified_findings ::
  "review_host \<Rightarrow> string list \<Rightarrow> ReviewOptions \<Rightarrow> ReviewFinding list \<Rightarrow> run_error + (ReviewFinding list \<times> CleanupForecast option)" where
  "simplified_findings host files options findings =
     (if op_focus options \<noteq> Some ''simplify'' then Inr (findings, None)
      else (case map_findings (enriched_cleanup_finding (rh_read host) (rh_parse host)) findings of
              Inl e \<Rightarrow> Inl (RunValidation e)
            | Inr enriched \<Rightarrow>
                map_sum RunValidation (\<lambda>forecast. (enriched, Some forecast)) (build_cleanup_forecast (rh_read host) enriched files)))"

definition fails_simplification :: "ReviewOptions \<Rightarrow> ReviewReport \<Rightarrow> bool" where
  "fails_simplification options report =
     (op_focus options = Some ''simplify'' \<and> op_review_mode options = EFull
      \<and> (case rr_simplification_summary report of None \<Rightarrow> False | Some s \<Rightarrow> ss_blocking_simplification_count s > 0))"

definition run_review ::
  "review_host \<Rightarrow> string list \<Rightarrow> ReviewOptions option \<Rightarrow> (string \<times> override_value) list \<Rightarrow> run_error + ReviewReport" where
  "run_review host files given overrides =
     (case review_options_from_kwargs given overrides of Inl e \<Rightarrow> Inl (RunRaised e) | Inr options \<Rightarrow>
      (case run_findings host files options of Inl e \<Rightarrow> Inl e | Inr (kept, coverage) \<Rightarrow>
      (case simplified_findings host files options kept of Inl e \<Rightarrow> Inl e | Inr (findings, forecast) \<Rightarrow>
      (case has_no_suppressions (rh_read host) files of Inl e \<Rightarrow> Inl e | Inr unsuppressed \<Rightarrow>
      (case score_review findings (review_kwargs findings coverage unsuppressed (op_focus options = Some ''simplify'')) of
         Inl e \<Rightarrow> Inl (RunRaised e)
       | Inr score \<Rightarrow>
      (case make_report (run_report_of host (rs_score score) findings forecast) of Inl e \<Rightarrow> Inl (RunReport e) | Inr report \<Rightarrow>
      (case with_enforcement (rh_evidence host) report (op_review_mode options) (map code_text files) [] None of
         Inl e \<Rightarrow> Inl (RunReport e)
       | Inr enforced \<Rightarrow>
           Inr (if fails_simplification options enforced
                then enforced\<lparr>rr_overall_verdict := Some VFail, rr_ci_exit_code := Some 1\<rparr> else enforced))))))))"

section \<open>Every review ends in a report\<close>

lemma suppressions_total:
  "list_all (\<lambda>path. read path \<noteq> FileUndecodable) files \<Longrightarrow> \<exists>b. has_no_suppressions read files = Inr b"
  by (induction files) (auto split: file_read.splits)

lemma checklist_total: "\<exists>fs. checklist_findings environ = Inr fs \<and> list_all wf_finding fs"
proof -
  have "\<exists>g. make_finding checklist_finding = Inr g" by (rule exI, code_simp)
  then obtain g where g: "make_finding checklist_finding = Inr g" by blast
  then have "wf_finding g" by (rule make_finding_wf)
  with g show ?thesis by (simp add: checklist_findings_def Let_def)
qed

lemma noise_subset: "set (suppress_known_noise classes fs) \<subseteq> set fs"
  by (auto simp: suppress_known_noise_def)

definition host_ok :: "review_host \<Rightarrow> string list \<Rightarrow> bool" where
  "host_ok host files =
     ((\<forall>runner hunt. list_all wf_finding (rh_tool host runner hunt)) \<and> list_all wf_finding (fst (rh_tdd host files))
      \<and> list_all (\<lambda>path. rh_read host path \<noteq> FileUndecodable) files)"

lemma run_findings_total:
  assumes "host_ok host files" and "op_focus options = None"
  shows "\<exists>kept coverage. run_findings host files options = Inr (kept, coverage) \<and> list_all wf_finding kept"
proof -
  obtain tdd coverage where tdd: "collect_tdd_findings host files (op_no_tests options) = (tdd, coverage)" "list_all wf_finding tdd"
    using assms(1) by (cases "op_no_tests options"; cases "rh_tdd host files") (auto simp: collect_tdd_findings_def host_ok_def)
  obtain checklist where c: "checklist_findings (rh_environ host) = Inr checklist" "list_all wf_finding checklist"
    using checklist_total by blast
  let ?all = "collect_tool_findings host (op_bug_hunt options) @ tdd @ checklist"
  have wf: "\<forall>f \<in> set ?all. wf_finding f"
    using tdd(2) c(2) assms(1) by (auto simp: collect_tool_findings_def host_ok_def list_all_iff)
  let ?kept = "filter_findings_by_review_level
     (if op_include_noise options then ?all else suppress_known_noise (rh_classes host) ?all) (op_review_level options)"
  have "set ?kept \<subseteq> set ?all" using level_subset noise_subset by (metis (full_types) order_trans order_refl)
  with wf have "list_all wf_finding ?kept" by (auto simp: list_all_iff)
  then show ?thesis using tdd(1) c(1) assms(2)
    by (simp add: run_findings_def filter_findings_by_focus_def Let_def)
qed

lemma run_report_built:
  assumes "0 \<le> score" and "score \<le> 120"
  shows "\<exists>r. make_report (run_report_of host score findings None) = Inr r \<and> rr_findings r = findings \<and> rr_assurance_status r = None
    \<and> rr_has_unknown_required_evidence r = None \<and> report_field_errors r = []
    \<and> rr_ci_exit_code r = Some (snd (determine_verdict score findings))"
proof -
  let ?q = "run_report_of host score findings None"
  have "non_blank ''1.0''" "non_blank (''review-'' @ rh_uuid host)" "non_blank (summary_for_findings findings)"
    by (rule non_blank_char [of "CHR ''1''"] non_blank_char [of "CHR ''r''"] non_blank_char [of "CHR ''R''"];
        simp add: py_is_space_def summary_for_findings_def)+
  then have errors: "report_field_errors ?q = []" using assms by (simp add: report_field_errors_def run_report_of_def check_fail_def)
  have none: "rr_assurance_status (prepare_governance ?q) = None" "rr_enforcement_mode (prepare_governance ?q) = None"
    by (simp_all add: run_report_of_def)
  have derived: "derive_governance_fields ?q = Inr (derive_score_governance (prepare_governance ?q))"
    using none by (simp add: derive_governance_fields_def Let_def derive_authoritative_governance_def has_explicit_legacy_governance_def)
  have "rr_has_unknown_required_evidence (prepare_governance ?q) = None"
    by (simp add: prepare_governance_alt run_report_of_def Let_def)
  then show ?thesis
    using derived errors none report_field_errors_governance [OF derived errors]
    by (auto simp: make_report_def Let_def derive_score_governance_def determine_verdict_def run_report_of_def)
qed

text \<open>The exit code of a run from its findings and its score.\<close>

definition review_decision :: "review_host \<Rightarrow> string list \<Rightarrow> ReviewOptions \<Rightarrow> ReviewFinding list \<Rightarrow> int \<Rightarrow> int" where
  "review_decision host files options kept score =
     (case op_review_mode options of
        EFull \<Rightarrow> snd (determine_verdict score kept)
      | EShadow \<Rightarrow> 0
      | EChanged \<Rightarrow>
          (case changed_lines_from_git (rh_evidence host) (map code_text files) None of
             None \<Rightarrow> snd (determine_verdict score kept)
           | Some lines \<Rightarrow>
               (if list_ex (\<lambda>f. is_blocking f \<and> finding_targets_changed_line (ev_cwd (rh_evidence host)) lines f) kept then 1 else 0)))"

lemma enforced_decision:
  assumes "rr_findings r = kept" "rr_assurance_status r = None" "rr_has_unknown_required_evidence r = None"
    "report_field_errors r = []" "rr_ci_exit_code r = Some (snd (determine_verdict score kept))" "list_all wf_finding kept"
  shows "\<exists>e. with_enforcement (rh_evidence host) r (op_review_mode options) (map code_text files) [] None = Inr e
    \<and> rr_findings e = kept \<and> rr_ci_exit_code e = Some (review_decision host files options kept score)"
proof (cases "op_review_mode options")
  case EChanged
  show ?thesis
  proof (cases "changed_lines_from_git (rh_evidence host) (map code_text files) None")
    case None
    with EChanged assms show ?thesis
      by (simp add: with_enforcement_def with_changed_enforcement_def changed_enforcement_precondition_def review_decision_def)
  next
    case (Some lines)
    obtain e where "with_enforcement (rh_evidence host) r EChanged (map code_text files) [] None = Inr e" "rr_findings e = kept"
      "rr_ci_exit_code e = Some (if blocking_changed (ev_cwd (rh_evidence host)) r lines = [] then 0 else 1)"
      using legacy_changed_exact [OF assms(2) _ assms(4) _ Some, of "[]"] assms(1,3,6) by auto
    with EChanged Some assms(1) show ?thesis
      by (auto simp: review_decision_def blocking_changed_def filter_empty_conv list_ex_iff)
  qed
qed (use assms in \<open>simp_all add: with_enforcement_def review_decision_def\<close>)

text \<open>C5: Every review ends in a report. For analyzers and a test gate that yield valid findings and for files that decode, a run
  without a focus always returns a report; it has exactly the findings the filters keep, and its exit code is that of the
  scorer in full mode, 0 in shadow mode, and in changed mode 1 exactly when a kept blocking finding is on a changed
  line, or that of the scorer when the changed lines are unavailable.\<close>

theorem review_ends_in_report:
  assumes "host_ok host files" and "op_focus options = None"
  shows "\<exists>kept coverage unsuppressed score report.
    run_findings host files options = Inr (kept, coverage)
    \<and> has_no_suppressions (rh_read host) files = Inr unsuppressed
    \<and> score_review kept (review_kwargs kept coverage unsuppressed False) = Inr score
    \<and> run_review host files (Some options) [] = Inr report
    \<and> rr_findings report = kept
    \<and> rr_ci_exit_code report = Some (review_decision host files options kept (rs_score score))"
proof -
  obtain kept coverage where kept: "run_findings host files options = Inr (kept, coverage)" "list_all wf_finding kept"
    using run_findings_total [OF assms] by blast
  obtain unsuppressed where u: "has_no_suppressions (rh_read host) files = Inr unsuppressed"
    using suppressions_total [of "rh_read host" files] assms(1) by (auto simp: host_ok_def)
  have "set (map fst (review_kwargs kept coverage unsuppressed False)) \<subseteq> set score_kwargs"
    by (simp add: review_kwargs_def score_kwargs_def)
  then obtain score where s: "score_review kept (review_kwargs kept coverage unsuppressed False) = Inr score"
    using score_review_unexpected by blast
  have "0 \<le> rs_score score" "rs_score score \<le> 120" using score_review_ok [OF s] by simp_all
  then obtain r where r: "make_report (run_report_of host (rs_score score) kept None) = Inr r"
    "rr_findings r = kept" "rr_assurance_status r = None" "rr_has_unknown_required_evidence r = None"
    "report_field_errors r = []" "rr_ci_exit_code r = Some (snd (determine_verdict (rs_score score) kept))"
    using run_report_built by blast
  obtain e where "with_enforcement (rh_evidence host) r (op_review_mode options) (map code_text files) [] None = Inr e"
    "rr_findings e = kept" "rr_ci_exit_code e = Some (review_decision host files options kept (rs_score score))"
    using enforced_decision [OF r(2-6) kept(2)] by blast
  then have "run_review host files (Some options) [] = Inr e"
    using kept(1) u s r(1) assms(2)
    by (simp add: run_review_def review_options_from_kwargs_def simplified_findings_def fails_simplification_def)
  with kept u s \<open>rr_findings e = kept\<close> \<open>rr_ci_exit_code e = Some (review_decision host files options kept (rs_score score))\<close>
  show ?thesis by blast
qed

definition demo_host :: review_host where
  "demo_host =
     \<lparr>rh_tool = (\<lambda>runner _. if runner = ''run_ruff'' then [demo_blocker 4] else []), rh_tdd = (\<lambda>_. ([], Some [(''a.py'', 95)])),
      rh_environ = (\<lambda>_. None), rh_read = (\<lambda>_. FileText ''x = 1''), rh_parse = (\<lambda>_. None), rh_classes = (\<lambda>_. None),
      rh_evidence = demo_env, rh_uuid = ''1'', rh_now = 0\<rparr>"

theorem review_ends_in_report_witness:
  "\<exists>report. run_review demo_host [''a.py''] (Some demo_options) [] = Inr report \<and> rr_findings report = [demo_blocker 4]
     \<and> rr_ci_exit_code report = Some 1"
proof -
  have "wf_finding (demo_blocker 4)" by code_simp
  then have "host_ok demo_host [''a.py'']" by (simp add: host_ok_def demo_host_def)
  moreover have "op_focus demo_options = None" by (simp add: demo_options_def)
  moreover have "run_findings demo_host [''a.py''] demo_options = Inr ([demo_blocker 4], True)"
    "is_blocking (demo_blocker 4)" by code_simp+
  ultimately show ?thesis using review_ends_in_report [of demo_host "[''a.py'']" demo_options]
    by (auto simp: review_decision_def demo_options_def determine_verdict_def)
qed

section \<open>Enrichment protects preserved code\<close>

lemma non_blank_witness: "non_blank s \<Longrightarrow> \<exists>c \<in> set s. \<not> py_is_space c"
proof (rule ccontr)
  assume "non_blank s" "\<not> (\<exists>c \<in> set s. \<not> py_is_space c)"
  then have "dropWhile py_is_space s = []" by (simp add: dropWhile_eq_Nil_conv)
  with \<open>non_blank s\<close> show False by (simp add: non_blank_def py_strip_def py_lstrip_def py_rstrip_def)
qed

lemma joined_non_blank: "list_all non_blank ts \<Longrightarrow> ts \<noteq> [] \<Longrightarrow> non_blank (py_join sep ts)"
proof (cases ts)
  case (Cons t rest)
  assume "list_all non_blank ts"
  then obtain c where "c \<in> set t" "\<not> py_is_space c" using Cons non_blank_witness by auto
  then have "c \<in> set (py_join sep ts)" by (cases rest) (auto simp: Cons)
  then show ?thesis using \<open>\<not> py_is_space c\<close> by (rule non_blank_char)
qed simp

lemma merged_reasons_set: "set (merged_reasons known found) = set known \<union> set found"
  unfolding merged_reasons_def by (induction found arbitrary: known) (auto split: if_splits)

lemma merged_reasons_nonempty: "known \<noteq> [] \<or> found \<noteq> [] \<Longrightarrow> merged_reasons known found \<noteq> []"
  using merged_reasons_set [of known found] by auto

lemma deduped_subset: "set (dedupe_preserve_reasons rs) \<subseteq> set rs"
proof -
  have "set (foldl (\<lambda>kept r. if pe_reason r \<in> set (map pe_reason kept) then kept else kept @ [r]) kept rs) \<subseteq> set kept \<union> set rs" for kept
  proof (induction rs arbitrary: kept)
    case (Cons r rs)
    show ?case using Cons [of kept] Cons [of "kept @ [r]"] by (cases "pe_reason r \<in> set (map pe_reason kept)") auto
  qed simp
  from this [of "[]"] show ?thesis by (simp add: dedupe_preserve_reasons_def)
qed

lemma candidate_texts: "list_all (\<lambda>(_, _, explanation). non_blank explanation) (reason_candidates tree lines line)"
proof -
  have "list_all non_blank [''Function is protected by an icontract-style contract decorator.'',
      ''Function is exported through __all__ and is public API.'', ''Function is registered as a Typer or Click callback.'',
      ''Function has an explicit specfact preserve compatibility marker.'', ''Function has an explicit spec requirement marker.'',
      ''Finding is inside an abstract Protocol or ABC member contract.'']" by code_simp
  then show ?thesis by (simp add: reason_candidates_def Let_def split: option.split)
qed

definition known_reasons :: "ReviewFinding \<Rightarrow> PreserveReasonEvidence list" where
  "known_reasons f = (case rf_preserve_reasons f of None \<Rightarrow> [] | Some rs \<Rightarrow> rs)"

lemma reasons_total:
  assumes "wf_finding f"
  shows "\<exists>found. preserve_reasons_for_finding read parse f False = Inr found \<and> list_all (\<lambda>r. non_blank (pe_explanation r)) found"
proof -
  have ref: "make_evidence_ref (finding_ref f) = Inr (finding_ref f)"
    using wf_finding_place [OF assms]
    by (simp add: make_evidence_ref_def finding_ref_def evidence_ref_field_errors_def blank_if_present_def below_if_present_def
        check_fail_def evidence_ref_validate_invariants_def)
  show ?thesis
  proof (cases "get_parsed_source read parse (rf_file f)")
    case None
    with ref show ?thesis by (simp add: preserve_reasons_for_finding_def Let_def)
  next
    case (Some source)
    obtain tree lines where source: "source = (tree, lines)" by (cases source)
    let ?rs = "map (\<lambda>(_, reason, explanation). \<lparr>pe_reason = reason, pe_evidence_refs = [finding_ref f], pe_explanation = explanation\<rparr>)
        (filter fst (reason_candidates tree lines (rf_line f)))"
    have "\<forall>r \<in> set ?rs. non_blank (pe_explanation r)"
      using candidate_texts [of tree lines "rf_line f"] by (auto simp: list_all_iff)
    with deduped_subset [of ?rs] have "list_all (\<lambda>r. non_blank (pe_explanation r)) (dedupe_preserve_reasons ?rs)"
      by (auto simp: list_all_iff)
    with ref Some source show ?thesis by (simp add: preserve_reasons_for_finding_def Let_def)
  qed
qed

lemma trace_total:
  assumes "wf_finding f"
  shows "\<exists>trace. signal_trace_for_finding f = Inr trace"
proof (cases "trace_of f = []")
  case True
  have "non_blank (rf_tool f)" "non_blank (rf_rule f)"
    using assms by (auto simp: wf_finding_def finding_field_errors_def text_field_error_def blank_if_present_def check_fail_def split: if_splits)
  moreover have "non_blank (rf_tool f @ '' emitted '' @ rf_rule f @ ''.'')"
    by (rule non_blank_char [of "CHR ''e''"]) (simp_all add: py_is_space_def)
  ultimately show ?thesis using True make_signal_ok [OF assms] by (simp add: signal_trace_for_finding_def)
qed (simp add: signal_trace_for_finding_def)

text \<open>Enriching a valid finding always succeeds and keeps its place. When the code around it gives a reason to preserve it, the
  enriched finding asks to keep the code and is never a safe mechanical simplification.\<close>

theorem enrichment_protects:
  assumes "wf_finding f" and "list_all (\<lambda>r. non_blank (pe_explanation r)) (known_reasons f)" and "rf_guidance_kind f \<noteq> None"
  shows "\<exists>found g. preserve_reasons_for_finding read parse f False = Inr found \<and> enriched_cleanup_finding read parse f = Inr g
    \<and> (rf_tool g, rf_rule g, rf_file g, rf_line g, rf_severity g) = (rf_tool f, rf_rule f, rf_file f, rf_line f, rf_severity f)
    \<and> (known_reasons f @ found \<noteq> [] \<longrightarrow> rf_guidance_kind g = Some Preserve \<and> rf_estimated_deletion_lines g = Some 0
         \<and> \<not> is_safe_mechanical_simplification g)"
proof -
  obtain found where found: "preserve_reasons_for_finding read parse f False = Inr found"
    "list_all (\<lambda>r. non_blank (pe_explanation r)) found" using reasons_total [OF assms(1)] by blast
  obtain trace where trace: "signal_trace_for_finding f = Inr trace" using trace_total [OF assms(1)] by blast
  define reasons where "reasons = merged_reasons (known_reasons f) found"
  define candidate where "candidate = (let traced = f\<lparr>rf_signal_trace := Some trace\<rparr>
     in if reasons = [] then traced
        else traced\<lparr>rf_guidance_kind := Some Preserve, rf_recommended_action := Some Keep, rf_estimated_deletion_lines := Some 0,
          rf_action_status := Some Kept, rf_preserve_reason := Some (py_join ''; '' (map pe_explanation reasons)),
          rf_preserve_reasons := Some reasons\<rparr>)"
  have texts: "non_blank ''inspect the surrounding behavior before editing''" "non_blank ''inspect''"
    "non_blank ''run targeted tests for the touched file''" "non_blank ''rerun specfact code review with --focus simplify''"
    "non_blank ''Keep the current shape if tests, API compatibility, or domain readability need it.''" "non_blank ''keep''" by code_simp+
  have "\<forall>c \<in> set cs. non_blank c" if "rf_safety_checks f = Some cs" for cs
    using assms(1) that by (auto simp: wf_finding_def finding_field_errors_def safety_checks_error_def split: if_splits)
  then have checks: "packet_checks candidate \<noteq> []" "\<forall>c \<in> set (packet_checks candidate). non_blank c"
    using texts(1) by (auto simp: candidate_def Let_def packet_checks_def split: option.splits list.splits)
  have "\<not> blank_if_present (rf_preserve_reason f)"
    using assms(1) by (auto simp: wf_finding_def finding_field_errors_def text_field_error_def check_fail_def split: if_splits)
  moreover have "list_all non_blank (map pe_explanation reasons)"
    using found(2) assms(2) by (auto simp: list_all_iff reasons_def merged_reasons_set)
  ultimately have reason: "\<not> blank_if_present (rf_preserve_reason candidate)"
    by (auto simp: candidate_def Let_def blank_if_present_def joined_non_blank split: option.splits)
  have "\<exists>packet. remediation_packet_for_finding candidate = Inr packet"
    using checks reason texts recommended_action_non_blank wf_finding_place [OF assms(1)]
    by (auto simp: remediation_packet_for_finding_def make_remediation_packet_def entries_error_def check_fail_def blank_if_present_def
        candidate_def Let_def split: option.splits)
  then obtain packet where packet: "remediation_packet_for_finding candidate = Inr packet" by blast
  have "enriched_cleanup_finding read parse f
      = map_sum id (\<lambda>packet. candidate\<lparr>rf_remediation_packet := Some packet\<rparr>) (remediation_packet_for_finding candidate)"
    using assms(3)
    by (simp only: enriched_cleanup_finding_def found(1) trace candidate_def reasons_def known_reasons_def Let_def if_False sum.case)
  then have g: "enriched_cleanup_finding read parse f = Inr (candidate\<lparr>rf_remediation_packet := Some packet\<rparr>)"
    by (simp only: packet map_sum.simps)
  have "reasons \<noteq> []" if "known_reasons f @ found \<noteq> []" using that merged_reasons_nonempty by (auto simp: reasons_def)
  with found(1) g show ?thesis by (auto simp: candidate_def Let_def is_safe_mechanical_simplification_def)
qed

end
