(* ===== verification/Persona_Ownership.thy ===== *)
theory Persona_Ownership
  imports Prelude
begin

text \<open>
  Section ownership of personas (\<^verbatim>\<open>utils/persona_ownership.py\<close> of the project bundle) over the shell patterns of
  \<open>fnmatch\<close>: a star matches any text, a question mark any character, brackets a class with ranges and negation. A
  class that starts with an empty range followed by an exclamation mark, which \<open>fnmatch\<close> reads as a negation, is
  not modelled.
\<close>

section \<open>Shell patterns\<close>

datatype glob = GStar | GAny | GChar char | GClass bool "(char \<times> char) list"

text \<open>The position of the bracket that closes a class: a bracket in first place belongs to the class.\<close>

definition class_end :: "string \<Rightarrow> nat option" where
  "class_end rest =
     (let negation = (if take 1 rest = ''!'' then 1 else 0);
          start = negation + (if take 1 (drop negation rest) = '']'' then 1 else 0);
          tail = drop start rest; n = length (takeWhile (\<lambda>c. c \<noteq> CHR '']'') tail)
      in if n = length tail then None else Some (start + n))"

fun class_items :: "string \<Rightarrow> (char \<times> char) list" where
  "class_items [] = []"
| "class_items (a # cs) =
     (case cs of
        d # b # rest \<Rightarrow> (if d = CHR ''-'' then (a, b) # class_items rest else (a, a) # class_items cs)
      | _ \<Rightarrow> (a, a) # class_items cs)"

definition class_of :: "string \<Rightarrow> glob" where
  "class_of body =
     (if take 1 body = ''!'' then GClass True (class_items (drop 1 body)) else GClass False (class_items body))"

fun parse_glob :: "string \<Rightarrow> glob list" where
  "parse_glob [] = []"
| "parse_glob (c # cs) =
     (if c = CHR ''*'' then GStar # parse_glob cs
      else if c = CHR ''?'' then GAny # parse_glob cs
      else if c = CHR ''['' then
        (case class_end cs of
           None \<Rightarrow> GChar c # parse_glob cs
         | Some j \<Rightarrow> class_of (take j cs) # parse_glob (drop (j + 1) cs))
      else GChar c # parse_glob cs)"

fun glob_char :: "glob \<Rightarrow> char \<Rightarrow> bool" where
  "glob_char GStar c = False"
| "glob_char GAny c = True"
| "glob_char (GChar d) c = (c = d)"
| "glob_char (GClass negated ranges) c = (list_ex (\<lambda>(a, b). a \<le> c \<and> c \<le> b) ranges \<noteq> negated)"

fun glob_match :: "glob list \<Rightarrow> string \<Rightarrow> bool" where
  "glob_match [] s = (s = [])"
| "glob_match (g # gs) [] = (g = GStar \<and> glob_match gs [])"
| "glob_match (g # gs) (c # s) =
     (if g = GStar then glob_match gs (c # s) \<or> glob_match (g # gs) s else glob_char g c \<and> glob_match gs s)"

definition fnmatch :: "string \<Rightarrow> string \<Rightarrow> bool" where
  "fnmatch name pat = glob_match (parse_glob pat) name"

section \<open>Ownership\<close>

definition match_section_pattern :: "string \<Rightarrow> string \<Rightarrow> bool" where
  "match_section_pattern section_pattern path =
     (let pattern = py_replace ''.*'' ''/*'' section_pattern
      in fnmatch path pattern \<or> fnmatch path section_pattern)"

text \<open>\<open>manifest.personas\<close> maps a persona to the patterns it owns.\<close>

type_synonym personas = "(string \<times> string list) list"

definition check_persona_ownership :: "string \<Rightarrow> personas \<Rightarrow> string \<Rightarrow> bool" where
  "check_persona_ownership persona manifest section_path =
     (case map_of manifest persona of
        None \<Rightarrow> False
      | Some owns \<Rightarrow> list_ex (\<lambda>pat. match_section_pattern pat section_path) owns)"

section \<open>What a pattern matches\<close>

text \<open>The declarative meaning: a text is cut into one piece per pattern item.\<close>

inductive matches :: "glob list \<Rightarrow> string \<Rightarrow> bool" where
  Empty: "matches [] []"
| Star: "matches gs t \<Longrightarrow> matches (GStar # gs) (s @ t)"
| Char: "glob_char g c \<Longrightarrow> matches gs t \<Longrightarrow> matches (g # gs) (c # t)"

inductive_simps matches_simps: "matches [] s" "matches (g # gs) s"

lemma glob_match_matches: "glob_match gs s \<longleftrightarrow> matches gs s"
proof (induction gs s rule: glob_match.induct)
  case (2 g gs)
  then show ?case by (auto simp: matches_simps)
next
  case (3 g gs c s)
  show ?case
  proof (cases "g = GStar")
    case True
    have "matches (GStar # gs) (c # s) \<longleftrightarrow> matches gs (c # s) \<or> matches (GStar # gs) s"
      by (subst (1 2) matches_simps(2)) (auto simp: Cons_eq_append_conv)
    with True 3 show ?thesis by simp
  qed (use 3 in \<open>auto simp: matches_simps\<close>)
qed (auto simp: matches_simps)

lemma parse_glob_literal: "\<forall>c \<in> set s. c \<notin> {CHR ''*'', CHR ''?'', CHR ''[''} \<Longrightarrow> parse_glob s = map GChar s"
  by (induction s) auto

lemma matches_literal: "matches (map GChar s @ gs) t \<longleftrightarrow> (\<exists>u. t = s @ u \<and> matches gs u)"
  by (induction s arbitrary: t) (auto simp: matches_simps)

text \<open>A section pattern that ends in a dot and a star covers everything below its section, at any depth.\<close>

lemma py_replace_tail:
  assumes "\<forall>c \<in> set s. c \<noteq> CHR ''*''"
  shows "py_replace ''.*'' ''/*'' (s @ ''.*'') = s @ ''/*''"
  using assms
proof (induction s)
  case (Cons c s)
  have "\<not> py_startswith (c # s @ ''.*'') ''.*''" using Cons.prems by (cases s) auto
  with Cons show ?case by simp
qed simp

lemma section_star:
  assumes "\<forall>c \<in> set s. c \<notin> {CHR ''*'', CHR ''?'', CHR ''[''}"
  shows "match_section_pattern (s @ ''.*'') path \<longleftrightarrow> (\<exists>rest. path = s @ ''/'' @ rest \<or> path = s @ ''.'' @ rest)"
proof -
  have star: "fnmatch path (s @ [d, CHR ''*'']) \<longleftrightarrow> (\<exists>rest. path = s @ d # rest)"
    if d: "d \<notin> {CHR ''*'', CHR ''?'', CHR ''[''}" for d
  proof -
    have "parse_glob (t @ ''*'') = map GChar t @ [GStar]" if "\<forall>c \<in> set t. c \<notin> {CHR ''*'', CHR ''?'', CHR ''[''}" for t
      using that by (induction t) auto
    from this [of "s @ [d]"] assms d have "parse_glob (s @ [d, CHR ''*'']) = map GChar (s @ [d]) @ [GStar]" by simp
    moreover have "matches [GStar] u" for u by (subst matches_simps(2)) (auto simp: matches_simps(1))
    ultimately show ?thesis
      by (simp add: fnmatch_def glob_match_matches matches_literal del: map_append)
  qed
  have "py_replace ''.*'' ''/*'' (s @ ''.*'') = s @ ''/*''" using assms by (intro py_replace_tail) auto
  with star [of "CHR ''/''"] star [of "CHR ''.''"] show ?thesis by (auto simp: match_section_pattern_def Let_def)
qed

end
