(* ===== verification/Test_Gate.thy ===== *)
theory Test_Gate
  imports Range_Review Cleanup_Forecast Persona_Ownership
begin

text \<open>
  The targeted test gate (\<^verbatim>\<open>run/runner.py\<close>): outcomes of the tests from the observer records, their reconciliation with the
  JUnit file, the exit code and the planned selectors, coverage of the sources, and the findings of the gate. Running
  pytest, the files it leaves and the path spellings of a file are parameters; a coverage figure is a rational number.
\<close>

section \<open>Outcomes\<close>

record StatusResult =
  sr_status :: string
  sr_reason :: string
  sr_disposition :: string
  sr_execution_state :: string
  sr_policy_source :: string

definition status_result :: "string \<Rightarrow> string \<Rightarrow> string \<Rightarrow> StatusResult" where
  "status_result status disposition execution_state =
     \<lparr>sr_status = status, sr_reason = [], sr_disposition = disposition, sr_execution_state = execution_state, sr_policy_source = []\<rparr>"

definition flag :: "pydict \<Rightarrow> string \<Rightarrow> bool" where
  "flag r key = py_truthy (dget r key)"

definition pytest_call_outcome :: "pydict \<Rightarrow> pydict list \<Rightarrow> string" where
  "pytest_call_outcome call_record records =
     (if flag call_record ''wasxfail'' then (if flag call_record ''passed'' then ''XPASS'' else ''XFAIL'')
      else if flag call_record ''skipped'' then ''SKIPPED''
      else if \<not> flag call_record ''passed'' then ''FAILED''
      else if list_ex (\<lambda>r. \<not> flag r ''passed'' \<and> \<not> flag r ''skipped'') records then ''FAILED'' else ''PASS'')"

definition pytest_no_call_outcome :: "pydict list \<Rightarrow> string" where
  "pytest_no_call_outcome records =
     (case find (\<lambda>r. flag r ''skipped'') records of
        Some r \<Rightarrow> (if flag r ''wasxfail'' then ''XFAIL'' else ''SKIPPED'')
      | None \<Rightarrow> (if list_ex (\<lambda>r. \<not> flag r ''passed'') records then ''FAILED'' else ''UNKNOWN''))"

definition pytest_observed_outcome :: "pydict list \<Rightarrow> string" where
  "pytest_observed_outcome records =
     (case find (\<lambda>r. dget r ''phase'' = PStr ''call'') records of
        Some call_record \<Rightarrow> pytest_call_outcome call_record records
      | None \<Rightarrow> pytest_no_call_outcome records)"

definition selector_selects :: "string \<Rightarrow> string \<Rightarrow> bool" where
  "selector_selects selector nodeid =
     (nodeid = selector \<or> py_startswith nodeid (selector @ ''['') \<or> py_startswith nodeid (selector @ ''::''))"

fun matched_selectors :: "string list \<Rightarrow> string list \<Rightarrow> string list option" where
  "matched_selectors planned [] = Some []"
| "matched_selectors planned (nodeid # observed) =
     (case filter (\<lambda>s. selector_selects s nodeid) planned of
        [s] \<Rightarrow> map_option (Cons s) (matched_selectors planned observed)
      | _ \<Rightarrow> None)"

definition pytest_planned_nodes_match :: "string list \<Rightarrow> string list \<Rightarrow> bool" where
  "pytest_planned_nodes_match planned observed =
     (if planned = [] then True
      else if \<not> distinct planned then False
      else (case matched_selectors planned observed of None \<Rightarrow> False | Some matched \<Rightarrow> set matched = set planned))"

definition node_of :: "pydict \<Rightarrow> string" where
  "node_of r = py_str (dget_or r ''nodeid'' (PStr []))"

definition records_by_node :: "pydict list \<Rightarrow> (string \<times> pydict list) list" where
  "records_by_node observer = foldl (\<lambda>d r. dict_push d (node_of r) r) [] observer"

definition expected_junit :: "(string \<times> string) list" where
  "expected_junit =
     [(''PASS'', ''passed''), (''XPASS'', ''passed''), (''FAILED'', ''failed''), (''XFAIL'', ''skipped''), (''SKIPPED'', ''skipped'')]"

definition junit_by_node :: "pydict list \<Rightarrow> (string \<times> string) list" where
  "junit_by_node junit = foldl (\<lambda>d r. AList.update (node_of r) (py_str (dget_or r ''outcome'' (PStr []))) d) [] junit"

record PytestOutcomeResult =
  po_status :: string
  po_outcomes :: "string list"

definition reconcile_pytest_outcomes :: "pydict list \<Rightarrow> pydict list \<Rightarrow> int \<Rightarrow> string list \<Rightarrow> PytestOutcomeResult" where
  "reconcile_pytest_outcomes observer junit process_exit planned =
     (let by_node = records_by_node observer;
          outcomes = map (\<lambda>(_, records). pytest_observed_outcome records) by_node;
          by_junit = junit_by_node junit;
          signals_match = (length by_junit = length by_node
            \<and> list_all (\<lambda>(nodeid, records). case map_of expected_junit (pytest_observed_outcome records) of
                 None \<Rightarrow> False | Some e \<Rightarrow> map_of by_junit nodeid = Some e) by_node);
          process_matches = ((process_exit \<noteq> 0) = list_ex (\<lambda>x. x = ''FAILED'') outcomes)
      in if \<not> signals_match \<or> \<not> process_matches \<or> \<not> pytest_planned_nodes_match planned (map fst by_node)
         then \<lparr>po_status = ''UNKNOWN'', po_outcomes = outcomes\<rparr>
         else \<lparr>po_status = (if list_ex (\<lambda>x. x \<noteq> ''PASS'') outcomes then ''FAIL'' else ''PASS''), po_outcomes = outcomes\<rparr>)"

definition classify_targeted_pytest :: "string \<Rightarrow> string \<Rightarrow> StatusResult" where
  "classify_targeted_pytest base_outcome head_outcome =
     (if base_outcome = ''fail'' \<and> head_outcome = ''pass'' then status_result ''PASS'' ''fixed'' []
      else if head_outcome \<in> {''skip'', ''xfail'', ''xpass'', ''assertion-fail''} then status_result ''FAIL'' [] []
      else if head_outcome \<in> {''deselected'', ''timeout'', ''collection-error''} then status_result ''UNKNOWN'' [] []
      else status_result ''PASS'' [] [])"

definition classify_coverage :: "rat \<Rightarrow> rat \<Rightarrow> rat \<Rightarrow> StatusResult" where
  "classify_coverage base head threshold =
     (if head < threshold then status_result ''FAIL'' [] ''ran''
      else if base < threshold \<and> threshold \<le> head then status_result ''PASS'' ''fixed'' ''ran''
      else status_result ''PASS'' [] ''ran'')"

section \<open>Reconciliation of inventories\<close>

record CandidateReconciliation =
  cr_status :: string
  cr_reason :: string
  cr_missing :: "string list"

definition reconcile_pytest_inventories :: "string list \<Rightarrow> string list \<Rightarrow> (string \<times> string) list \<Rightarrow> CandidateReconciliation" where
  "reconcile_pytest_inventories base head rename_facts =
     (if set base - set head \<noteq> {} then \<lparr>cr_status = ''UNKNOWN'', cr_reason = ''removed_selector'', cr_missing = []\<rparr>
      else \<lparr>cr_status = ''PASS'', cr_reason = [], cr_missing = []\<rparr>)"

definition reconcile_test_candidates :: "string list \<Rightarrow> string list \<Rightarrow> CandidateReconciliation" where
  "reconcile_test_candidates candidates collected_paths =
     (let missing = sorted_list_of_set (set candidates - set collected_paths)
      in \<lparr>cr_status = (if missing \<noteq> [] then ''UNKNOWN'' else ''PASS''), cr_reason = [], cr_missing = missing\<rparr>)"

definition reconcile_coverage_manifest :: "string list \<Rightarrow> string list \<Rightarrow> CandidateReconciliation" where
  "reconcile_coverage_manifest required observed =
     (if sort required \<noteq> sort observed
      then \<lparr>cr_status = ''UNKNOWN'', cr_reason = ''coverage_input_manifest_mismatch'', cr_missing = []\<rparr>
      else \<lparr>cr_status = ''PASS'', cr_reason = [], cr_missing = []\<rparr>)"

definition classify_analyzer_input_kinds :: "string list \<Rightarrow> (string \<times> string list) list" where
  "classify_analyzer_input_kinds inputs =
     (let static = sort (filter (\<lambda>path. py_endswith path ''.py'' \<or> py_endswith path ''.pyi'') inputs);
          runtime = filter (\<lambda>path. py_endswith path ''.py'') static
      in [(''targeted-pytest-coverage'', runtime), (''ruff'', static), (''basedpyright'', static), (''pylint'', static),
          (''contracts.icontract-static-scan'', static), (''contracts.crosshair'', runtime)])"

section \<open>JUnit records\<close>

text \<open>\<open>nodeid.partition("[")\<close> and the identity that pytest writes into the JUnit file.\<close>

fun split_double_colon :: "string \<Rightarrow> string list" where
  "split_double_colon (a # b # s) =
     (if a = CHR '':'' \<and> b = CHR '':'' then [] # split_double_colon s
      else (case split_double_colon (b # s) of [] \<Rightarrow> [[a]] | f # fs \<Rightarrow> (a # f) # fs))"
| "split_double_colon [a] = [[a]]"
| "split_double_colon [] = [[]]"

definition junit_identity :: "string \<Rightarrow> (string \<times> string) option" where
  "junit_identity nodeid =
     (let address = takeWhile (\<lambda>c. c \<noteq> CHR ''['') nodeid; parameters = drop (length address) nodeid;
          parts = split_double_colon address; path = hd parts; qualifiers = tl parts
      in if qualifiers = [] \<or> \<not> py_endswith path ''.py'' then None
         else Some (py_join ''.'' (map (\<lambda>c. if c = CHR ''/'' then CHR ''.'' else c) (take (length path - 3) path) # butlast qualifiers),
                    last qualifiers @ parameters))"

definition pytest_junit_identities :: "pydict list \<Rightarrow> ((string \<times> string) \<times> string list) list" where
  "pytest_junit_identities observer =
     foldl (\<lambda>d nodeid. case junit_identity nodeid of None \<Rightarrow> d | Some identity \<Rightarrow> dict_push d identity nodeid) []
       (rev (remdups (rev (map node_of observer))))"

text \<open>A test case of the JUnit file with its attributes and the local names of its children.\<close>

record junit_case =
  jc_classname :: "string option"
  jc_name :: "string option"
  jc_children :: "string list"

definition pytest_junit_outcome :: "junit_case \<Rightarrow> string" where
  "pytest_junit_outcome c =
     (if ''error'' \<in> set (jc_children c) \<or> ''failure'' \<in> set (jc_children c) then ''failed''
      else if ''skipped'' \<in> set (jc_children c) then ''skipped'' else ''passed'')"

fun junit_records_from :: "((string \<times> string) \<times> string list) list \<Rightarrow> nat \<Rightarrow> junit_case list \<Rightarrow> pydict list" where
  "junit_records_from identities index [] = []"
| "junit_records_from identities index (c # cs) =
     (let candidates = dict_list identities (case jc_classname c of None \<Rightarrow> [] | Some t \<Rightarrow> t, case jc_name c of None \<Rightarrow> [] | Some t \<Rightarrow> t);
          nodeid = (if length candidates = 1 then hd candidates else ''__unmatched_junit_'' @ show_nat index)
      in [(PStr ''nodeid'', PStr nodeid), (PStr ''outcome'', PStr (pytest_junit_outcome c))]
         # junit_records_from identities (Suc index) cs)"

definition pytest_junit_records :: "junit_case list \<Rightarrow> ((string \<times> string) \<times> string list) list \<Rightarrow> pydict list" where
  "pytest_junit_records cases identities = junit_records_from identities 0 cases"

section \<open>Coverage\<close>

text \<open>The entry of a file in the coverage file: not an object, with a summary that is not an object, or with a figure.\<close>

datatype coverage_entry = EntryInvalid | SummaryInvalid | SummaryPercent "rat option"

text \<open>The coverage file holds an object; \<open>None\<close> stands for one without an object of files.\<close>

fun coverage_lookup :: "(string \<Rightarrow> string set) \<Rightarrow> string set \<Rightarrow> (string \<times> coverage_entry) list \<Rightarrow> rat option" where
  "coverage_lookup variants allowed [] = None"
| "coverage_lookup variants allowed ((filename, entry) # rest) =
     (if variants filename \<inter> allowed = {} then coverage_lookup variants allowed rest
      else (case entry of
              SummaryPercent (Some percent) \<Rightarrow> Some percent
            | SummaryPercent None \<Rightarrow> coverage_lookup variants allowed rest
            | _ \<Rightarrow> None))"

definition coverage_for_source ::
  "(string \<Rightarrow> string set) \<Rightarrow> string \<Rightarrow> (string \<times> coverage_entry) list option \<Rightarrow> rat option" where
  "coverage_for_source variants source payload =
     (case payload of None \<Rightarrow> None | Some files \<Rightarrow> coverage_lookup variants (variants source) files)"

definition COVERAGE_THRESHOLD :: rat where
  "COVERAGE_THRESHOLD = 80"

text \<open>\<open>f"{x:.1f}"\<close>\<close>

definition show_tenths :: "rat \<Rightarrow> string" where
  "show_tenths x =
     (let n = round_half_even (10 * \<bar>x\<bar>)
      in (if x < 0 then ''-'' else []) @ show_int (n div 10) @ ''.'' @ show_int (n mod 10))"

definition tool_error_finding :: "string \<Rightarrow> string \<Rightarrow> string \<Rightarrow> ReviewFinding" where
  "tool_error_finding tool path message = plain_finding ToolError SevError tool ''tool_error'' path 1 message False"

definition low_coverage_finding :: "bool \<Rightarrow> string \<Rightarrow> rat \<Rightarrow> rat \<Rightarrow> ReviewFinding" where
  "low_coverage_finding blocking source percent threshold =
     plain_finding Testing (if blocking then SevError else SevWarning) ''pytest'' ''TEST_COVERAGE_LOW'' source 1
       (''Coverage for '' @ source @ '' is '' @ show_tenths percent @ ''%, below required '' @ show_tenths threshold @ ''%.'') False"

text \<open>\<open>re.sub\<close> of a block between two triple quotes without the quote inside, and of a comment up to the end of its line.\<close>

function strip_quoted :: "char \<Rightarrow> string \<Rightarrow> string" where
  "strip_quoted q [] = []"
| "strip_quoted q (c # s) =
     (let body = takeWhile (\<lambda>d. d \<noteq> q) (drop 2 s); rest = drop (2 + length body) s
      in if take 3 (c # s) = [q, q, q] \<and> take 3 rest = [q, q, q] then strip_quoted q (drop 3 rest) else c # strip_quoted q s)"
  by pat_completeness auto
termination by (relation "measure (\<lambda>(q, s). length s)") auto

fun strip_comments :: "bool \<Rightarrow> string \<Rightarrow> string" where
  "strip_comments inside [] = []"
| "strip_comments inside (c # s) =
     (if c = CHR 0x0A then c # strip_comments False s
      else if inside \<or> c = CHR ''#'' then strip_comments True s
      else c # strip_comments False s)"

text \<open>What the gate asks the host: path spellings, the text of a file (\<open>None\<close> for an \<open>OSError\<close>) and a path relative to the working
  directory (the path itself outside of it), and \<open>path.resolve()\<close> (\<open>None\<close> for an \<open>OSError\<close>).\<close>

record coverage_host =
  ch_variants :: "string \<Rightarrow> string set"
  ch_read :: "string \<Rightarrow> string option"
  ch_relative :: "string \<Rightarrow> string"
  ch_resolve :: "string \<Rightarrow> string option"

definition is_empty_init_file :: "coverage_host \<Rightarrow> string \<Rightarrow> bool" where
  "is_empty_init_file host source =
     (pure_name source = ''__init__.py''
      \<and> (case ch_read host source of
           None \<Rightarrow> False
         | Some content \<Rightarrow>
             py_strip (strip_comments False (strip_quoted (CHR 0x27) (strip_quoted (CHR 0x22) content))) \<in> {[], ''pass''}))"

definition is_coverage_omitted_init :: "coverage_host \<Rightarrow> string \<Rightarrow> bool" where
  "is_coverage_omitted_init host source =
     (let rel = ch_relative host source; parts = pure_parts rel
      in pure_name rel = ''__init__.py'' \<and> length parts \<ge> 2 \<and> hd parts \<in> {''src'', ''packages''})"

definition coverage_exempt :: "coverage_host \<Rightarrow> bool \<Rightarrow> string \<Rightarrow> bool" where
  "coverage_exempt host allow_omitted source =
     (pure_name source = ''__init__.py'' \<and> is_empty_init_file host source
      \<or> allow_omitted \<and> is_coverage_omitted_init host source)"

type_synonym gate_result = "validation_errors + (ReviewFinding list \<times> (string \<times> rat) list option)"

fun coverage_loop ::
  "coverage_host \<Rightarrow> bool \<Rightarrow> rat \<Rightarrow> bool \<Rightarrow> (string \<times> coverage_entry) list option \<Rightarrow> string list
   \<Rightarrow> ReviewFinding list \<Rightarrow> (string \<times> rat) list \<Rightarrow> gate_result" where
  "coverage_loop host allow_omitted threshold blocking payload [] findings covered = Inr (findings, Some covered)"
| "coverage_loop host allow_omitted threshold blocking payload (source # sources) findings covered =
     (case coverage_for_source (ch_variants host) source payload of
        None \<Rightarrow>
          (if coverage_exempt host allow_omitted source
           then coverage_loop host allow_omitted threshold blocking payload sources findings covered
           else map_sum id (\<lambda>f. ([f], None)) (make_finding (tool_error_finding ''pytest'' source (''Coverage data missing for '' @ source))))
      | Some percent \<Rightarrow>
          (let covered' = AList.update source percent covered
           in if percent \<ge> threshold then coverage_loop host allow_omitted threshold blocking payload sources findings covered'
              else (case make_finding (low_coverage_finding blocking source percent threshold) of
                      Inl e \<Rightarrow> Inl e
                    | Inr f \<Rightarrow> coverage_loop host allow_omitted threshold blocking payload sources (findings @ [f]) covered')))"

definition coverage_findings ::
  "coverage_host \<Rightarrow> bool \<Rightarrow> rat \<Rightarrow> bool \<Rightarrow> (string \<times> coverage_entry) list option \<Rightarrow> string list \<Rightarrow> gate_result" where
  "coverage_findings host allow_omitted threshold blocking payload sources =
     coverage_loop host allow_omitted threshold blocking payload sources [] []"

section \<open>The gate\<close>

text \<open>What a run of pytest leaves: the observer records (\<open>None\<close> when they are not a list of objects), the cases of the JUnit file,
  the exit code and the coverage payload. A failure to start or to read is its message.\<close>

record pytest_run =
  pr_observer :: "pydict list option"
  pr_cases :: "junit_case list"
  pr_exit :: int
  pr_coverage :: "string + (string \<times> coverage_entry) list option"

definition pytest_outcome_finding :: "string \<Rightarrow> string \<Rightarrow> ReviewFinding" where
  "pytest_outcome_finding anchor status =
     (if status = ''FAIL''
      then plain_finding Testing SevError ''pytest'' ''TEST_OUTCOME_NOT_PASS'' anchor 1
        ''At least one targeted pytest selector skipped, xfailed, xpassed, or failed.'' False
      else tool_error_finding ''pytest'' anchor ''Targeted pytest observer, JUnit, and process outcomes could not be reconciled.'')"

definition gate_failure :: "ReviewFinding \<Rightarrow> gate_result" where
  "gate_failure f = map_sum id (\<lambda>g. ([g], None)) (make_finding f)"

definition load_pytest_outcome_evidence :: "pytest_run \<Rightarrow> string + (pydict list \<times> pydict list)" where
  "load_pytest_outcome_evidence r =
     (case pr_observer r of
        None \<Rightarrow> Inl ''pytest observer artifact must be a list of objects''
      | Some observer \<Rightarrow> Inr (observer, pytest_junit_records (pr_cases r) (pytest_junit_identities observer)))"

record gate_options =
  go_planned :: "string list"
  go_allow_omitted :: bool
  go_threshold :: rat
  go_blocking :: bool
  go_fallback :: string
  go_discovery :: "(string \<times> string list) option"

text \<open>With a discovery snapshot, the test files among the observed nodes are no sources.\<close>

fun discovered_tests :: "string \<Rightarrow> string list \<Rightarrow> pydict list \<Rightarrow> string list option" where
  "discovered_tests snapshot patterns [] = Some []"
| "discovered_tests snapshot patterns (r # records) =
     (let relative = hd (split_double_colon (node_of r))
      in if py_startswith relative ''/'' \<or> ''..'' \<in> set (pure_parts relative) \<or> pure_suffix relative \<noteq> ''.py'' then None
         else map_option (\<lambda>ts. if list_ex (fnmatch (pure_name relative)) patterns then (snapshot @ ''/'' @ py_join ''/'' (pure_parts relative)) # ts else ts)
                (discovered_tests snapshot patterns records))"

definition gate_sources :: "gate_options \<Rightarrow> pydict list \<Rightarrow> string list \<Rightarrow> string + string list" where
  "gate_sources options observer sources =
     (case go_discovery options of
        None \<Rightarrow> Inr sources
      | Some (snapshot, patterns) \<Rightarrow>
          (if observer = [] then Inl ''project_full_pytest_collected_no_tests''
           else (case discovered_tests snapshot patterns observer of
                   None \<Rightarrow> Inl ''project_full_pytest_test_path_invalid''
                 | Some tests \<Rightarrow> Inr (filter (\<lambda>s. s \<notin> set tests) sources))))"

text \<open>\<open>skip\<close> is the finding for a missing pytest, \<open>execution\<close> the run or the reason why there was none.\<close>

definition evaluate_pytest_execution ::
  "coverage_host \<Rightarrow> gate_options \<Rightarrow> (string \<Rightarrow> ReviewFinding list) \<Rightarrow> string + pytest_run \<Rightarrow> string list \<Rightarrow> gate_result" where
  "evaluate_pytest_execution host options skip execution sources =
     (let anchor = (if sources \<noteq> [] then hd sources else go_fallback options);
          unreadable = (\<lambda>reason. gate_failure (tool_error_finding ''pytest'' anchor
            (''Unable to read targeted pytest evidence: '' @ reason)))
      in if skip anchor \<noteq> [] then Inr (skip anchor, None)
         else (case execution of
                 Inl reason \<Rightarrow> gate_failure (tool_error_finding ''pytest'' anchor (''Unable to execute targeted tests: '' @ reason))
               | Inr r \<Rightarrow>
                   (case load_pytest_outcome_evidence r of
                      Inl reason \<Rightarrow> unreadable reason
                    | Inr (observer, junit) \<Rightarrow>
                        (let outcome = reconcile_pytest_outcomes observer junit (pr_exit r) (go_planned options)
                         in if po_status outcome \<noteq> ''PASS'' then gate_failure (pytest_outcome_finding anchor (po_status outcome))
                            else (case gate_sources options observer sources of
                                    Inl reason \<Rightarrow> unreadable reason
                                  | Inr kept \<Rightarrow>
                                      (case pr_coverage r of
                                         Inl reason \<Rightarrow> unreadable reason
                                       | Inr payload \<Rightarrow>
                                           coverage_findings host (go_allow_omitted options) (go_threshold options)
                                             (go_blocking options) payload kept))))))"

definition missing_test_finding :: "string \<Rightarrow> string \<Rightarrow> ReviewFinding" where
  "missing_test_finding source expected =
     plain_finding Testing SevError ''pytest'' ''TEST_FILE_MISSING'' source 1 (''Missing corresponding test file: '' @ expected) False"

text \<open>The test file that belongs to a source file below the source directory of the package.\<close>

definition SOURCE_ROOT :: string where
  "SOURCE_ROOT = ''packages/specfact-code-review/src''"

definition candidate_relative_to :: "string \<Rightarrow> string \<Rightarrow> string list option" where
  "candidate_relative_to candidate source_root =
     (let parts = pure_parts candidate; top_parts = pure_parts source_root
      in if take (length top_parts) parts = top_parts then Some (drop (length top_parts) parts) else None)"

definition source_relative_path :: "coverage_host \<Rightarrow> string \<Rightarrow> string list option" where
  "source_relative_path host source =
     (case List.map_filter id (List.concat (map (\<lambda>candidate. map (candidate_relative_to candidate)
             (SOURCE_ROOT # (case ch_resolve host SOURCE_ROOT of None \<Rightarrow> [] | Some p \<Rightarrow> [p])))
           (source # (case ch_resolve host source of None \<Rightarrow> [] | Some p \<Rightarrow> [p])))) of
        [] \<Rightarrow> None | relative # _ \<Rightarrow> Some relative)"

definition expected_test_path :: "coverage_host \<Rightarrow> string \<Rightarrow> string option" where
  "expected_test_path host source =
     map_option (\<lambda>relative. py_join ''/'' ([''tests'', ''unit''] @ butlast relative
                   @ [''test_'' @ (if relative = [] then [] else last relative)]))
       (source_relative_path host source)"

fun missing_tests :: "coverage_host \<Rightarrow> (string \<Rightarrow> bool) \<Rightarrow> string list \<Rightarrow> validation_errors + (string list \<times> ReviewFinding list)" where
  "missing_tests host exists [] = Inr ([], [])"
| "missing_tests host exists (source # sources) =
     (case expected_test_path host source of
        None \<Rightarrow> missing_tests host exists sources
      | Some test \<Rightarrow>
          (if exists test then map_sum id (\<lambda>(ts, fs). (test # ts, fs)) (missing_tests host exists sources)
           else (case make_finding (missing_test_finding source test) of
                   Inl e \<Rightarrow> Inl e
                 | Inr f \<Rightarrow> map_sum id (\<lambda>(ts, fs). (ts, f # fs)) (missing_tests host exists sources))))"

definition collect_tdd_inputs ::
  "coverage_host \<Rightarrow> (string \<Rightarrow> bool) \<Rightarrow> string list \<Rightarrow> validation_errors + (string list \<times> string list \<times> ReviewFinding list)" where
  "collect_tdd_inputs host exists files =
     (let sources = filter (\<lambda>f. expected_test_path host f \<noteq> None) files
      in map_sum id (Pair sources) (missing_tests host exists sources))"

definition tdd_options :: gate_options where
  "tdd_options = \<lparr>go_planned = [], go_allow_omitted = True, go_threshold = COVERAGE_THRESHOLD, go_blocking = False,
     go_fallback = ''/opt/specfact/snapshot'', go_discovery = None\<rparr>"

definition evaluate_tdd_gate ::
  "coverage_host \<Rightarrow> (string \<Rightarrow> bool) \<Rightarrow> (string \<Rightarrow> ReviewFinding list)
   \<Rightarrow> (string list \<Rightarrow> string + pytest_run) \<Rightarrow> string list \<Rightarrow> gate_result" where
  "evaluate_tdd_gate host exists skip execute files =
     (case collect_tdd_inputs host exists files of
        Inl e \<Rightarrow> Inl e
      | Inr (sources, tests, findings) \<Rightarrow>
          (if sources = [] then Inr ([], None)
           else if findings \<noteq> [] then Inr (findings, None)
           else evaluate_pytest_execution host tdd_options skip (execute tests) sources))"

section \<open>Exactness of the reconciliation\<close>

text \<open>The records of a test are good when its first call record passed, neither skipped nor expected to fail, and every other record
  of the test passed or was skipped.\<close>

definition node_passes :: "pydict list \<Rightarrow> string \<Rightarrow> bool" where
  "node_passes observer nodeid =
     (let records = filter (\<lambda>r. node_of r = nodeid) observer
      in (\<exists>c. find (\<lambda>r. dget r ''phase'' = PStr ''call'') records = Some c
              \<and> flag c ''passed'' \<and> \<not> flag c ''wasxfail'' \<and> \<not> flag c ''skipped'')
         \<and> list_all (\<lambda>r. flag r ''passed'' \<or> flag r ''skipped'') records)"

text \<open>The planned selectors: each observed test is selected by exactly one, and every selector selects one.\<close>

definition plan_met :: "string list \<Rightarrow> string set \<Rightarrow> bool" where
  "plan_met planned nodes =
     (planned = [] \<or> distinct planned \<and> (\<forall>n \<in> nodes. \<exists>!s. s \<in> set planned \<and> selector_selects s n)
        \<and> (\<forall>s \<in> set planned. \<exists>n \<in> nodes. selector_selects s n))"

lemma observed_outcome_passes:
  "pytest_observed_outcome (filter (\<lambda>r. node_of r = n) observer) = ''PASS'' \<longleftrightarrow> node_passes observer n"
  by (auto simp: pytest_observed_outcome_def pytest_call_outcome_def pytest_no_call_outcome_def node_passes_def
      list_ex_iff list_all_iff split: option.splits)

lemma distinct_filter_single:
  assumes "distinct xs"
  shows "(\<exists>s. filter P xs = [s]) \<longleftrightarrow> (\<exists>!s. s \<in> set xs \<and> P s)"
  using assms
proof (induction xs)
  case (Cons x xs)
  show ?case
  proof (cases "P x")
    case True
    then have "(\<exists>s. filter P (x # xs) = [s]) \<longleftrightarrow> (\<forall>y \<in> set xs. \<not> P y)" by (simp add: filter_empty_conv)
    also have "\<dots> \<longleftrightarrow> (\<exists>!s. s \<in> set (x # xs) \<and> P s)" using True Cons.prems by auto
    finally show ?thesis .
  next
    case False
    then have "(\<exists>!s. s \<in> set (x # xs) \<and> P s) \<longleftrightarrow> (\<exists>!s. s \<in> set xs \<and> P s)" by auto
    then show ?thesis using False Cons by simp
  qed
qed (simp add: Ex1_def)

lemma matched_selectors_Some:
  "matched_selectors planned observed = Some matched \<longleftrightarrow>
     list_all2 (\<lambda>n s. filter (\<lambda>s. selector_selects s n) planned = [s]) observed matched"
  by (induction observed arbitrary: matched)
    (auto simp: list_all2_Cons1 split: list.splits)

lemma planned_nodes_match: "pytest_planned_nodes_match planned observed \<longleftrightarrow> plan_met planned (set observed)"
proof (cases "planned = [] \<or> \<not> distinct planned")
  case True
  then show ?thesis by (auto simp: pytest_planned_nodes_match_def plan_met_def)
next
  case False
  then have d: "distinct planned" and ne: "planned \<noteq> []" by auto
  define R where "R n s \<longleftrightarrow> filter (\<lambda>s. selector_selects s n) planned = [s]" for n s
  have Rset: "t \<in> set planned \<and> selector_selects t n \<longleftrightarrow> t = s" if "R n s" for n s t
    using arg_cong [where f = set, OF that [unfolded R_def]] by (auto simp: set_eq_iff)
  have Rs: "s \<in> set planned \<and> selector_selects s n" if "R n s" for n s using Rset [OF that] by simp
  have Ru: "R n s" if "R n t" "s \<in> set planned" "selector_selects s n" for n s t
  proof -
    have "s = t" using Rset [OF that(1), of s] that(2,3) by simp
    then show ?thesis using that(1) by simp
  qed
  have single: "(\<exists>!s. s \<in> set planned \<and> selector_selects s n) \<longleftrightarrow> (\<exists>s. R n s)" for n
    unfolding R_def using distinct_filter_single [OF d] by simp
  have "pytest_planned_nodes_match planned observed
      \<longleftrightarrow> (\<exists>matched. list_all2 R observed matched \<and> set matched = set planned)"
  proof (cases "matched_selectors planned observed")
    case None
    then show ?thesis using False matched_selectors_Some [of planned observed, folded R_def]
      by (simp add: pytest_planned_nodes_match_def)
  next
    case (Some m)
    then have "list_all2 R observed m' \<longleftrightarrow> m' = m" for m'
      using matched_selectors_Some [of planned observed m', folded R_def] by (metis option.inject)
    then show ?thesis using False Some by (simp add: pytest_planned_nodes_match_def)
  qed
  also have "\<dots> \<longleftrightarrow> (\<forall>n \<in> set observed. \<exists>s. R n s) \<and> (\<forall>s \<in> set planned. \<exists>n \<in> set observed. selector_selects s n)"
  proof
    assume "\<exists>matched. list_all2 R observed matched \<and> set matched = set planned"
    then obtain matched where m: "list_all2 R observed matched" "set matched = set planned" by blast
    have "\<exists>s. R n s" if "n \<in> set observed" for n
      using m(1) that by (metis list_all2_conv_all_nth in_set_conv_nth)
    moreover have "\<exists>n \<in> set observed. selector_selects s n" if "s \<in> set planned" for s
      using list_all2_right [OF m(1)] that m(2) Rs by blast
    ultimately show "(\<forall>n \<in> set observed. \<exists>s. R n s) \<and> (\<forall>s \<in> set planned. \<exists>n \<in> set observed. selector_selects s n)" by blast
  next
    assume a: "(\<forall>n \<in> set observed. \<exists>s. R n s) \<and> (\<forall>s \<in> set planned. \<exists>n \<in> set observed. selector_selects s n)"
    then obtain f where f: "\<forall>n \<in> set observed. R n (f n)" by metis
    have "list_all2 R observed (map f observed)" using f by (simp add: list_all2_map2 list_all2_same)
    moreover have "set (map f observed) = set planned"
    proof
      show "set (map f observed) \<subseteq> set planned" using f Rs by auto
      show "set planned \<subseteq> set (map f observed)"
      proof
        fix s assume s: "s \<in> set planned"
        then obtain n where n: "n \<in> set observed" "selector_selects s n" using a by blast
        then have "R n s" using Ru f s by blast
        then have "f n = s" using f n(1) by (simp add: R_def)
        then show "s \<in> set (map f observed)" using n(1) by force
      qed
    qed
    ultimately show "\<exists>matched. list_all2 R observed matched \<and> set matched = set planned" by blast
  qed
  finally show ?thesis using d ne single by (simp add: plan_met_def)
qed

lemma records_by_node_keys: "distinct (map fst (records_by_node observer))"
  and records_by_node_set: "fst ` set (records_by_node observer) = node_of ` set observer"
proof -
  have "distinct (map fst d) \<Longrightarrow> distinct (map fst (foldl (\<lambda>d r. dict_push d (node_of r) r) d observer))" for d
    by (induction observer arbitrary: d) (simp_all add: dict_push_def distinct_update)
  then show "distinct (map fst (records_by_node observer))" by (simp add: records_by_node_def)
  show "fst ` set (records_by_node observer) = node_of ` set observer"
    using keys_group [of node_of "[]" observer] by (simp add: records_by_node_def)
qed

lemma records_by_node_value:
  "(n, records) \<in> set (records_by_node observer) \<Longrightarrow> records = filter (\<lambda>r. node_of r = n) observer"
  using dict_list_group [of node_of "[]" observer n] map_of_is_SomeI [OF records_by_node_keys]
  by (fastforce simp: records_by_node_def dict_list_def)

lemma records_by_node_all:
  "list_all (\<lambda>(n, records). Q n records) (records_by_node observer)
     \<longleftrightarrow> (\<forall>n \<in> node_of ` set observer. Q n (filter (\<lambda>r. node_of r = n) observer))"
proof -
  have "list_all (\<lambda>(n, records). Q n records) (records_by_node observer)
      \<longleftrightarrow> (\<forall>n \<in> fst ` set (records_by_node observer). Q n (filter (\<lambda>r. node_of r = n) observer))"
    using records_by_node_value by (fastforce simp: list_all_iff)
  then show ?thesis by (simp only: records_by_node_set)
qed

lemma junit_by_node_keys: "distinct (map fst (junit_by_node junit))"
proof -
  have "distinct (map fst d) \<Longrightarrow> distinct (map fst (foldl (\<lambda>d r. AList.update (node_of r) (f r) d) d junit))"
    for d and f :: "pydict \<Rightarrow> string"
    by (induction junit arbitrary: d) (simp_all add: distinct_update)
  from this [of "[]"] show ?thesis by (simp add: junit_by_node_def)
qed

text \<open>Two dictionaries of the same size, one with all the keys of the other, have the same keys.\<close>

lemma dict_same_keys:
  assumes "distinct (map fst d)" "distinct (map fst e)" "length d = length e" "fst ` set e \<subseteq> fst ` set d"
  shows "fst ` set d = fst ` set e"
proof -
  have "card (fst ` set d) = card (fst ` set e)"
    using assms(1-3) by (metis distinct_card length_map list.set_map)
  then show ?thesis using assms(4) by (metis card_subset_eq finite_imageI finite_set)
qed

lemma all_pass_outcomes:
  "\<not> list_ex (\<lambda>x. x \<noteq> ''PASS'') (map (\<lambda>(_, records). pytest_observed_outcome records) (records_by_node observer))
     \<longleftrightarrow> (\<forall>n \<in> node_of ` set observer. node_passes observer n)"
  using records_by_node_all [of "\<lambda>_ records. pytest_observed_outcome records = ''PASS''" observer]
  by (simp add: list_ex_iff list_all_iff split_beta observed_outcome_passes)

lemma signals_match_all_pass:
  assumes "\<forall>n \<in> node_of ` set observer. node_passes observer n"
  shows "length (junit_by_node junit) = length (records_by_node observer)
      \<and> list_all (\<lambda>(nodeid, records). case map_of expected_junit (pytest_observed_outcome records) of
           None \<Rightarrow> False | Some e \<Rightarrow> map_of (junit_by_node junit) nodeid = Some e) (records_by_node observer)
    \<longleftrightarrow> (\<forall>n. map_of (junit_by_node junit) n = (if n \<in> node_of ` set observer then Some ''passed'' else None))"
    (is "?len \<and> ?all \<longleftrightarrow> ?r")
proof -
  let ?N = "node_of ` set observer" and ?J = "junit_by_node junit"
  have "pytest_observed_outcome (filter (\<lambda>r. node_of r = n) observer) = ''PASS''" if "n \<in> ?N" for n
    using assms that by (simp only: observed_outcome_passes)
  then have all: "?all \<longleftrightarrow> (\<forall>n \<in> ?N. map_of ?J n = Some ''passed'')"
    unfolding records_by_node_all by (simp add: expected_junit_def)
  show ?thesis
  proof
    assume a: "?len \<and> ?all"
    have "?N \<subseteq> fst ` set ?J"
      using a all by (metis subsetI map_of_SomeD fst_conv image_eqI)
    then have "fst ` set ?J = ?N"
      using dict_same_keys [OF junit_by_node_keys [of junit] records_by_node_keys [of observer]] a
      by (simp add: records_by_node_set)
    then have "map_of ?J n = None" if "n \<notin> ?N" for n using that by (simp add: map_of_eq_None_iff)
    then show ?r using a all by auto
  next
    assume r: ?r
    have "n \<in> fst ` set ?J \<longleftrightarrow> n \<in> ?N" for n
      using r [rule_format, of n] map_of_eq_None_iff [of ?J n] by (auto split: if_splits)
    then have "fst ` set ?J = fst ` set (records_by_node observer)" by (auto simp: records_by_node_set)
    then have ?len using junit_by_node_keys [of junit] records_by_node_keys [of observer]
      by (metis distinct_card length_map list.set_map)
    then show "?len \<and> ?all" using r all by simp
  qed
qed

text \<open>C8: The targeted tests are reconciled to PASS exactly when the process exited with 0, the JUnit file names exactly the observed tests
  and reports all of them passed, each observed test has a call record that passed without skip or expected failure
  and no record that failed, and the planned selectors, if there are any, are distinct, select each observed test exactly once and
  all select a test.
\<close>

theorem pytest_pass_exact:
  "po_status (reconcile_pytest_outcomes observer junit process_exit planned) = ''PASS'' \<longleftrightarrow>
     process_exit = 0
     \<and> (\<forall>n. map_of (junit_by_node junit) n = (if n \<in> node_of ` set observer then Some ''passed'' else None))
     \<and> (\<forall>n \<in> node_of ` set observer. node_passes observer n)
     \<and> plan_met planned (node_of ` set observer)"
proof -
  let ?outcomes = "map (\<lambda>(_, records). pytest_observed_outcome records) (records_by_node observer)"
  have plan: "pytest_planned_nodes_match planned (map fst (records_by_node observer)) \<longleftrightarrow> plan_met planned (node_of ` set observer)"
    by (simp add: planned_nodes_match records_by_node_set [symmetric])
  show ?thesis
  proof (cases "\<forall>n \<in> node_of ` set observer. node_passes observer n")
    case True
    then have np: "\<not> list_ex (\<lambda>x. x \<noteq> ''PASS'') ?outcomes" by (simp only: all_pass_outcomes simp_thms)
    then have "\<not> list_ex (\<lambda>x. x = ''FAILED'') ?outcomes" by (auto simp: list_ex_iff)
    with np show ?thesis using True
      unfolding reconcile_pytest_outcomes_def Let_def plan signals_match_all_pass [OF True] by simp
  next
    case False
    then have "list_ex (\<lambda>x. x \<noteq> ''PASS'') ?outcomes" using all_pass_outcomes [of observer] by blast
    then show ?thesis using False unfolding reconcile_pytest_outcomes_def Let_def by (simp only: if_True) (auto simp del: bex_simps ball_simps)
  qed
qed

definition demo_record :: "string \<Rightarrow> string \<Rightarrow> pydict" where
  "demo_record nodeid phase = [(PStr ''nodeid'', PStr nodeid), (PStr ''phase'', PStr phase), (PStr ''passed'', PBool True)]"

definition demo_observer :: "pydict list" where
  "demo_observer = [demo_record ''t.py::a[1]'' ''setup'', demo_record ''t.py::a[1]'' ''call'']"

definition demo_junit :: "pydict list" where
  "demo_junit = [[(PStr ''nodeid'', PStr ''t.py::a[1]''), (PStr ''outcome'', PStr ''passed'')]]"

lemmas demo_defs = demo_record_def demo_observer_def demo_junit_def

theorem pytest_pass_exact_witness:
  "po_status (reconcile_pytest_outcomes demo_observer demo_junit 0 [''t.py::a'']) = ''PASS''
   \<and> node_passes demo_observer ''t.py::a[1]''
   \<and> po_status (reconcile_pytest_outcomes demo_observer demo_junit 1 [''t.py::a'']) \<noteq> ''PASS''"
proof -
  have n: "node_of ` set demo_observer = {''t.py::a[1]''}"
    by (simp add: demo_defs node_of_def dget_or_def py_str_def)
  have j: "junit_by_node demo_junit = [(''t.py::a[1]'', ''passed'')]"
    by (simp add: demo_defs junit_by_node_def node_of_def dget_or_def py_str_def)
  have p: "node_passes demo_observer ''t.py::a[1]''"
    by (simp add: demo_defs node_passes_def node_of_def dget_or_def dget_def py_str_def flag_def)
  have "plan_met [''t.py::a''] {''t.py::a[1]''}" by (auto simp: plan_met_def selector_selects_def)
  then show ?thesis
    using pytest_pass_exact [of demo_observer demo_junit 0 "[''t.py::a'']"]
      pytest_pass_exact [of demo_observer demo_junit 1 "[''t.py::a'']"] n j p
    by simp
qed

section \<open>A silent gate\<close>

lemma failure_not_silent [simp]:
  "map_sum id (\<lambda>f. ([f], None)) x \<noteq> Inr ([], c)" "map_sum id (\<lambda>f. ([f], None)) x \<noteq> Inr (out, Some d)"
  by (cases x; simp)+

text \<open>A source is settled by a figure at the threshold or above, or by an exemption.\<close>

definition source_settled :: "coverage_host \<Rightarrow> bool \<Rightarrow> rat \<Rightarrow> (string \<times> coverage_entry) list option \<Rightarrow> string \<Rightarrow> bool" where
  "source_settled host allow_omitted threshold payload source =
     (case coverage_for_source (ch_variants host) source payload of
        None \<Rightarrow> coverage_exempt host allow_omitted source | Some percent \<Rightarrow> threshold \<le> percent)"

lemma coverage_loop_silent:
  "coverage_loop host allow threshold blocking payload sources findings covered = Inr ([], c) \<Longrightarrow>
     findings = [] \<and> list_all (source_settled host allow threshold payload) sources"
proof (induction sources arbitrary: findings covered)
  case (Cons s sources)
  show ?case
  proof (cases "coverage_for_source (ch_variants host) s payload")
    case None
    then show ?thesis using Cons by (simp add: source_settled_def split: if_splits)
  next
    case (Some percent)
    show ?thesis
    proof (cases "threshold \<le> percent")
      case True
      then show ?thesis using Some Cons.prems Cons.IH [of findings "AList.update s percent covered"]
        by (simp add: source_settled_def Let_def)
    next
      case False
      then obtain f where
        "coverage_loop host allow threshold blocking payload sources (findings @ [f]) (AList.update s percent covered) = Inr ([], c)"
        using Some Cons.prems by (auto simp: Let_def split: sum.splits)
      then show ?thesis using Cons.IH by blast
    qed
  qed
qed simp

lemma coverage_loop_table:
  "coverage_loop host allow threshold blocking payload sources findings covered = Inr (out, Some c) \<Longrightarrow>
     map_of c s = (if s \<in> set sources \<and> coverage_for_source (ch_variants host) s payload \<noteq> None
                   then coverage_for_source (ch_variants host) s payload else map_of covered s)"
proof (induction sources arbitrary: findings covered)
  case (Cons t sources)
  show ?case
  proof (cases "coverage_for_source (ch_variants host) t payload")
    case None
    then show ?thesis using Cons by (auto split: if_splits)
  next
    case (Some percent)
    then obtain findings' where
      "coverage_loop host allow threshold blocking payload sources findings' (AList.update t percent covered) = Inr (out, Some c)"
      using Cons.prems by (auto simp: Let_def split: if_splits sum.splits)
    from Cons.IH [OF this] show ?thesis using Some by (auto simp: update_conv')
  qed
qed simp

lemma coverage_loop_returns_table:
  "coverage_loop host allow threshold blocking payload sources findings covered = Inr ([], c) \<Longrightarrow> c \<noteq> None"
  by (induction sources arbitrary: findings covered) (auto simp: Let_def split: option.splits if_splits sum.splits)

lemma coverage_loop_high:
  assumes "coverage_loop host allow threshold blocking payload sources findings covered = Inr (out, Some c)"
    and "\<And>s percent. map_of c s = Some percent \<Longrightarrow> threshold \<le> percent"
  shows "out = findings"
  using assms(1)
proof (induction sources arbitrary: findings covered)
  case (Cons s sources)
  show ?case
  proof (cases "coverage_for_source (ch_variants host) s payload")
    case None
    then show ?thesis using Cons by (simp split: if_splits)
  next
    case (Some percent)
    then have "threshold \<le> percent" using coverage_loop_table [OF Cons.prems, of s] assms(2) by simp
    then show ?thesis using Some Cons by (simp add: Let_def)
  qed
qed simp

text \<open>With a table whose figures all reach the threshold, the gate is silent.\<close>

lemma evaluate_tdd_gate_high:
  assumes "evaluate_tdd_gate host exists skip execute files = Inr (findings, Some c)"
    and "\<And>s percent. map_of c s = Some percent \<Longrightarrow> COVERAGE_THRESHOLD \<le> percent"
  shows "findings = []"
proof -
  obtain sources execution where e: "evaluate_pytest_execution host tdd_options skip execution sources = Inr (findings, Some c)"
    using assms(1) by (auto simp: evaluate_tdd_gate_def split: sum.splits if_splits prod.splits)
  then obtain payload kept where
    "coverage_loop host True COVERAGE_THRESHOLD False payload kept [] [] = Inr (findings, Some c)"
    by (auto simp: evaluate_pytest_execution_def gate_failure_def tdd_options_def coverage_findings_def Let_def
        split: sum.splits if_splits)
  then show ?thesis using assms(2) by (rule coverage_loop_high)
qed

lemma gate_failure_not_silent [simp]: "gate_failure f \<noteq> Inr ([], c)"
  by (simp add: gate_failure_def)

text \<open>A silent execution read its evidence, reconciled to PASS and settled the sources that it kept.\<close>

lemma evaluate_pytest_execution_silent:
  assumes "evaluate_pytest_execution host options skip execution sources = Inr ([], c)"
  obtains r observer kept payload where
    "execution = Inr r" "pr_observer r = Some observer" "gate_sources options observer sources = Inr kept" "pr_coverage r = Inr payload"
    "po_status (reconcile_pytest_outcomes observer (pytest_junit_records (pr_cases r) (pytest_junit_identities observer))
       (pr_exit r) (go_planned options)) = ''PASS''"
    "coverage_findings host (go_allow_omitted options) (go_threshold options) (go_blocking options) payload kept = Inr ([], c)"
  using assms
  by (auto simp: evaluate_pytest_execution_def load_pytest_outcome_evidence_def Let_def
      split: if_splits sum.splits option.splits)

lemma missing_tests_silent:
  "missing_tests host exists sources = Inr (tests, []) \<Longrightarrow> source \<in> set sources \<Longrightarrow> expected_test_path host source = Some test
     \<Longrightarrow> test \<in> set tests \<and> exists test"
proof (induction sources arbitrary: tests)
  case (Cons s sources)
  then show ?case
    by (cases "missing_tests host exists sources") (fastforce split: option.splits if_splits sum.splits prod.splits)+
qed simp

lemma tdd_gate_silent_cases:
  assumes "evaluate_tdd_gate host exists skip execute files = Inr ([], c)"
    and "source \<in> set files" and "expected_test_path host source = Some test"
  obtains tests r observer payload table where "exists test" "test \<in> set tests" "execute tests = Inr r"
    "pr_observer r = Some observer" "pr_coverage r = Inr payload"
    "po_status (reconcile_pytest_outcomes observer (pytest_junit_records (pr_cases r) (pytest_junit_identities observer))
       (pr_exit r) []) = ''PASS''"
    "c = Some table"
    "source_settled host True COVERAGE_THRESHOLD payload source"
    "coverage_for_source (ch_variants host) source payload \<noteq> None
       \<longrightarrow> map_of table source = coverage_for_source (ch_variants host) source payload"
proof -
  let ?sources = "filter (\<lambda>f. expected_test_path host f \<noteq> None) files"
  have s: "source \<in> set ?sources" using assms(2,3) by simp
  have ne: "?sources \<noteq> []" using length_pos_if_in_set [OF s] by (simp only: length_greater_0_conv not_False_eq_True)
  obtain tests where t: "missing_tests host exists ?sources = Inr (tests, [])"
    and e: "evaluate_pytest_execution host tdd_options skip (execute tests) ?sources = Inr ([], c)"
    using assms(1) ne by (cases "missing_tests host exists ?sources")
      (auto simp: evaluate_tdd_gate_def collect_tdd_inputs_def Let_def split: if_splits)
  have tt: "exists test" "test \<in> set tests" using missing_tests_silent [OF t s assms(3)] by auto
  from evaluate_pytest_execution_silent [OF e] obtain r observer kept payload where r:
    "execute tests = Inr r" "pr_observer r = Some observer" "gate_sources tdd_options observer ?sources = Inr kept"
    "pr_coverage r = Inr payload"
    "po_status (reconcile_pytest_outcomes observer (pytest_junit_records (pr_cases r) (pytest_junit_identities observer))
       (pr_exit r) (go_planned tdd_options)) = ''PASS''"
    "coverage_findings host (go_allow_omitted tdd_options) (go_threshold tdd_options) (go_blocking tdd_options) payload kept = Inr ([], c)"
    by metis
  have kept: "kept = ?sources" using r(3) by (simp add: gate_sources_def tdd_options_def)
  have loop: "coverage_loop host True COVERAGE_THRESHOLD False payload ?sources [] [] = Inr ([], c)"
    using r(6) kept by (simp add: coverage_findings_def tdd_options_def)
  then obtain table where c: "c = Some table" using coverage_loop_returns_table by blast
  have settled: "source_settled host True COVERAGE_THRESHOLD payload source"
    using coverage_loop_silent [OF loop] s by (simp only: list_all_iff)
  have row: "coverage_for_source (ch_variants host) source payload \<noteq> None
      \<longrightarrow> map_of table source = coverage_for_source (ch_variants host) source payload"
    using coverage_loop_table [OF loop [unfolded c], of source] s by simp
  have pass: "po_status (reconcile_pytest_outcomes observer (pytest_junit_records (pr_cases r) (pytest_junit_identities observer))
      (pr_exit r) []) = ''PASS''" using r(5) by (simp add: tdd_options_def)
  show ?thesis by (rule that [OF tt r(1,2,4) pass c settled row])
qed

text \<open>C7: When the test gate returns without a finding, every reviewed source file of the package has its corresponding test file, that file
  was among the tests that pytest ran, the run reconciled to PASS, and the source is covered by 80 percent or more, with that
  figure in the returned table, unless it is exempt and has no figure.
\<close>

theorem tdd_gate_silent:
  assumes "evaluate_tdd_gate host exists skip execute files = Inr ([], c)"
    and "source \<in> set files" and "expected_test_path host source = Some test"
  shows "exists test \<and> (\<exists>tests r observer payload. test \<in> set tests \<and> execute tests = Inr r
     \<and> pr_observer r = Some observer \<and> pr_coverage r = Inr payload
     \<and> po_status (reconcile_pytest_outcomes observer (pytest_junit_records (pr_cases r) (pytest_junit_identities observer))
         (pr_exit r) []) = ''PASS''
     \<and> (case coverage_for_source (ch_variants host) source payload of
          None \<Rightarrow> coverage_exempt host True source
        | Some percent \<Rightarrow> 80 \<le> percent \<and> (\<exists>table. c = Some table \<and> map_of table source = Some percent)))"
proof -
  obtain tests r observer payload table where f:
    "exists test" "test \<in> set tests" "execute tests = Inr r" "pr_observer r = Some observer" "pr_coverage r = Inr payload"
    "po_status (reconcile_pytest_outcomes observer (pytest_junit_records (pr_cases r) (pytest_junit_identities observer))
       (pr_exit r) []) = ''PASS''"
    and c: "c = Some table" and settled: "source_settled host True COVERAGE_THRESHOLD payload source"
    and row: "coverage_for_source (ch_variants host) source payload \<noteq> None
      \<longrightarrow> map_of table source = coverage_for_source (ch_variants host) source payload"
    by (rule tdd_gate_silent_cases [OF assms])
  have "case coverage_for_source (ch_variants host) source payload of
      None \<Rightarrow> coverage_exempt host True source
    | Some percent \<Rightarrow> 80 \<le> percent \<and> (\<exists>table. c = Some table \<and> map_of table source = Some percent)"
    using settled row c by (auto simp: source_settled_def COVERAGE_THRESHOLD_def split: option.splits)
  with f show ?thesis by (intro conjI exI)
qed

definition demo_gate_host :: coverage_host where
  "demo_gate_host = \<lparr>ch_variants = (\<lambda>p. {p}), ch_read = (\<lambda>_. None), ch_relative = id, ch_resolve = (\<lambda>_. None)\<rparr>"

definition demo_gate_source :: string where
  "demo_gate_source = ''packages/specfact-code-review/src/a.py''"

definition demo_gate_run :: pytest_run where
  "demo_gate_run = \<lparr>pr_observer = Some [demo_record ''tests/unit/test_a.py::t'' ''call''],
     pr_cases = [\<lparr>jc_classname = Some ''tests.unit.test_a'', jc_name = Some ''t'', jc_children = []\<rparr>], pr_exit = 0,
     pr_coverage = Inr (Some [(demo_gate_source, SummaryPercent (Some 95))])\<rparr>"

lemma demo_expected: "expected_test_path demo_gate_host demo_gate_source = Some ''tests/unit/test_a.py''"
  by code_simp

lemma demo_outcome:
  "po_status (reconcile_pytest_outcomes [demo_record ''tests/unit/test_a.py::t'' ''call'']
     (pytest_junit_records (pr_cases demo_gate_run) (pytest_junit_identities [demo_record ''tests/unit/test_a.py::t'' ''call''])) 0 []) = ''PASS''"
  by code_simp

lemma demo_silent:
  "evaluate_tdd_gate demo_gate_host (\<lambda>_. True) (\<lambda>_. []) (\<lambda>_. Inr demo_gate_run) [demo_gate_source] = Inr ([], Some [(demo_gate_source, 95)])"
proof -
  have s: "ch_variants demo_gate_host = (\<lambda>p. {p})" by (simp add: demo_gate_host_def)
  have c: "coverage_for_source (ch_variants demo_gate_host) demo_gate_source (Some [(demo_gate_source, SummaryPercent (Some 95))]) = Some 95"
    by (simp add: coverage_for_source_def s)
  have r: "pr_observer demo_gate_run = Some [demo_record ''tests/unit/test_a.py::t'' ''call'']" "pr_exit demo_gate_run = 0"
    "pr_coverage demo_gate_run = Inr (Some [(demo_gate_source, SummaryPercent (Some 95))])"
    by (simp_all add: demo_gate_run_def)
  show ?thesis
    using demo_outcome
    by (simp add: evaluate_tdd_gate_def collect_tdd_inputs_def demo_expected evaluate_pytest_execution_def
        load_pytest_outcome_evidence_def r gate_sources_def tdd_options_def coverage_findings_def c COVERAGE_THRESHOLD_def Let_def)
qed

theorem tdd_gate_silent_witness:
  "evaluate_tdd_gate demo_gate_host (\<lambda>_. True) (\<lambda>_. []) (\<lambda>_. Inr demo_gate_run) [demo_gate_source] = Inr ([], Some [(demo_gate_source, 95)])
   \<and> (\<exists>payload percent. pr_coverage demo_gate_run = Inr payload \<and> coverage_for_source (ch_variants demo_gate_host) demo_gate_source payload = Some percent
        \<and> 80 \<le> percent)"
proof -
  have cov: "pr_coverage demo_gate_run = Inr payload \<Longrightarrow> coverage_for_source (ch_variants demo_gate_host) demo_gate_source payload \<noteq> None" for payload
    by (auto simp: demo_gate_run_def coverage_for_source_def demo_gate_host_def)
  have "demo_gate_source \<in> set [demo_gate_source]" by simp
  from tdd_gate_silent [OF demo_silent this demo_expected] show ?thesis
    using demo_silent cov by (auto split: option.splits)
qed

end
