(* ===== verification/Bundle_Merge.thy ===== *)
theory Bundle_Merge
  imports Persona_Ownership
begin

text \<open>
  The persona-aware three-way merge of project bundles (\<^verbatim>\<open>merge/resolver.py\<close>).

  The bundle classes belong to the core package. The records have the fields that the resolver reads or writes, and
  one field for all others, whose type is a parameter. A written field is a Python value. The iteration order of
  Python sets is a parameter \<open>order\<close> that arranges the elements.
\<close>

section \<open>Bundles\<close>

record 'r Story =
  sy_key :: string
  sy_description :: pyval
  sy_rest :: 'r

record 'r Feature =
  fe_title :: pyval
  fe_stories :: "'r Story list"
  fe_rest :: 'r

record 'r Idea =
  id_title :: pyval
  id_rest :: 'r

record 'r Business =
  bu_value_proposition :: pyval
  bu_rest :: 'r

record 'r Product =
  pr_themes :: "pyval list"
  pr_rest :: 'r

record 'r ProjectBundle =
  pb_personas :: personas
  pb_features :: "(string \<times> 'r Feature) list"
  pb_idea :: "'r Idea option"
  pb_business :: "'r Business option"
  pb_product :: "'r Product option"
  pb_rest :: 'r

datatype MergeStrategy = StrategyAuto | StrategyOurs | StrategyTheirs | StrategyBase | StrategyManual

record MergeConflict =
  mc_section_path :: string
  mc_field_name :: string
  mc_base_value :: pyval
  mc_ours_value :: pyval
  mc_theirs_value :: pyval
  mc_owner_ours :: "string option"
  mc_owner_theirs :: "string option"
  mc_resolution :: "MergeStrategy option"
  mc_resolved_value :: pyval

record 'r MergeResolution =
  mr_merged_bundle :: "'r ProjectBundle"
  mr_conflicts :: "MergeConflict list"
  mr_auto_resolved :: nat
  mr_manual_resolved :: nat
  mr_unresolved :: nat

section \<open>Conflicts\<close>

type_synonym three_values = "pyval \<times> pyval \<times> pyval"

definition all_differ :: "'a \<Rightarrow> 'a \<Rightarrow> 'a \<Rightarrow> bool" where
  "all_differ b u v \<longleftrightarrow> b \<noteq> u \<and> b \<noteq> v \<and> u \<noteq> v"

definition title_path :: "string \<Rightarrow> string" where
  "title_path k = ''features.'' @ k @ ''.title''"

definition story_path :: "string \<Rightarrow> string \<Rightarrow> string" where
  "story_path k s = ''features.'' @ k @ ''.stories.'' @ s @ ''.description''"

definition story_conflict ::
  "string \<Rightarrow> 'r Feature \<Rightarrow> 'r Feature \<Rightarrow> (string \<times> three_values) list \<Rightarrow> string \<Rightarrow> (string \<times> three_values) list" where
  "story_conflict key ours_feature theirs_feature conflicts story_key =
     (case (find (\<lambda>s. sy_key s = story_key) (fe_stories ours_feature), find (\<lambda>s. sy_key s = story_key) (fe_stories theirs_feature)) of
        (Some u, Some v) \<Rightarrow>
          (if sy_description u \<noteq> sy_description v
           then AList.update (story_path key story_key)
                  (PNone, sy_description u, sy_description v) conflicts
           else conflicts)
      | _ \<Rightarrow> conflicts)"

definition common_stories :: "'r Feature \<Rightarrow> 'r Feature \<Rightarrow> 'r Feature \<Rightarrow> string list" where
  "common_stories base_feature ours_feature theirs_feature =
     (let keys = (\<lambda>f. map sy_key (fe_stories f))
      in remdups (filter (\<lambda>k. k \<in> set (keys theirs_feature) \<and> k \<notin> set (keys base_feature)) (keys ours_feature)))"

definition feature_conflict ::
  "(string list \<Rightarrow> string list) \<Rightarrow> 'r ProjectBundle \<Rightarrow> 'r ProjectBundle \<Rightarrow> 'r ProjectBundle
   \<Rightarrow> (string \<times> three_values) list \<Rightarrow> string \<Rightarrow> (string \<times> three_values) list" where
  "feature_conflict order base ours theirs conflicts key =
     (case (map_of (pb_features base) key, map_of (pb_features ours) key, map_of (pb_features theirs) key) of
        (Some b, Some u, Some v) \<Rightarrow>
          (if all_differ (fe_title b) (fe_title u) (fe_title v)
           then foldl (story_conflict key u v)
                  (AList.update (title_path key) (fe_title b, fe_title u, fe_title v) conflicts)
                  (order (common_stories b u v))
           else conflicts)
      | _ \<Rightarrow> conflicts)"

definition all_feature_keys :: "'r ProjectBundle \<Rightarrow> 'r ProjectBundle \<Rightarrow> 'r ProjectBundle \<Rightarrow> string list" where
  "all_feature_keys base ours theirs =
     remdups (map fst (pb_features base) @ map fst (pb_features ours) @ map fst (pb_features theirs))"

definition idea_conflict :: "'r ProjectBundle \<Rightarrow> 'r ProjectBundle \<Rightarrow> 'r ProjectBundle
    \<Rightarrow> (string \<times> three_values) list \<Rightarrow> (string \<times> three_values) list" where
  "idea_conflict base ours theirs conflicts =
     (case (pb_idea base, pb_idea ours, pb_idea theirs) of
        (Some b, Some u, Some v) \<Rightarrow>
          (if all_differ (id_title b) (id_title u) (id_title v)
           then AList.update ''idea.title'' (id_title b, id_title u, id_title v) conflicts else conflicts)
      | _ \<Rightarrow> conflicts)"

definition business_conflict :: "'r ProjectBundle \<Rightarrow> 'r ProjectBundle \<Rightarrow> 'r ProjectBundle
    \<Rightarrow> (string \<times> three_values) list \<Rightarrow> (string \<times> three_values) list" where
  "business_conflict base ours theirs conflicts =
     (case (pb_business base, pb_business ours, pb_business theirs) of
        (Some b, Some u, Some v) \<Rightarrow>
          (if all_differ (bu_value_proposition b) (bu_value_proposition u) (bu_value_proposition v)
           then AList.update ''business.value_proposition''
                  (bu_value_proposition b, bu_value_proposition u, bu_value_proposition v) conflicts
           else conflicts)
      | _ \<Rightarrow> conflicts)"

definition product_conflict :: "'r ProjectBundle \<Rightarrow> 'r ProjectBundle \<Rightarrow> 'r ProjectBundle
    \<Rightarrow> (string \<times> three_values) list \<Rightarrow> (string \<times> three_values) list" where
  "product_conflict base ours theirs conflicts =
     (case (pb_product base, pb_product ours, pb_product theirs) of
        (Some b, Some u, Some v) \<Rightarrow>
          (if pr_themes u \<noteq> pr_themes v \<and> (pr_themes u \<noteq> pr_themes b \<or> pr_themes v \<noteq> pr_themes b)
              \<and> pr_themes u \<noteq> pr_themes b \<and> pr_themes v \<noteq> pr_themes b
           then AList.update ''product.themes'' (PList (pr_themes b), PList (pr_themes u), PList (pr_themes v)) conflicts
           else conflicts)
      | _ \<Rightarrow> conflicts)"

definition find_conflicts ::
  "(string list \<Rightarrow> string list) \<Rightarrow> 'r ProjectBundle \<Rightarrow> 'r ProjectBundle \<Rightarrow> 'r ProjectBundle \<Rightarrow> (string \<times> three_values) list" where
  "find_conflicts order base ours theirs =
     product_conflict base ours theirs (business_conflict base ours theirs (idea_conflict base ours theirs
       (foldl (feature_conflict order base ours theirs) [] (order (all_feature_keys base ours theirs)))))"

section \<open>Resolution\<close>

definition get_owner :: "string \<Rightarrow> personas \<Rightarrow> string \<Rightarrow> string option" where
  "get_owner section_path manifest persona =
     (if check_persona_ownership persona manifest section_path then Some persona else None)"

definition get_section_path :: "string \<Rightarrow> string" where
  "get_section_path conflict_path =
     (case py_split_char (CHR ''.'') conflict_path of
        first # rest \<Rightarrow>
          (if first \<in> {''idea'', ''business'', ''product'', ''protocols'', ''contracts''} then first
           else if first = ''features'' then
             (case rest of
                key # third # _ \<Rightarrow>
                  (if third = ''stories'' then ''features.'' @ key @ ''.stories'' else ''features.'' @ key)
              | [key] \<Rightarrow> ''features.'' @ key
              | [] \<Rightarrow> conflict_path)
           else conflict_path)
      | [] \<Rightarrow> conflict_path)"

text \<open>The story that \<open>next(...)\<close> finds is changed in place.\<close>

fun update_first :: "('a \<Rightarrow> bool) \<Rightarrow> ('a \<Rightarrow> 'a) \<Rightarrow> 'a list \<Rightarrow> 'a list" where
  "update_first p f [] = []"
| "update_first p f (x # xs) = (if p x then f x # xs else x # update_first p f xs)"

definition apply_to_feature :: "string list \<Rightarrow> pyval \<Rightarrow> 'r Feature \<Rightarrow> 'r Feature" where
  "apply_to_feature parts v feature =
     (case parts of
        [] \<Rightarrow> feature
      | third # others \<Rightarrow>
          (if third = ''title'' then feature\<lparr>fe_title := v\<rparr>
           else if third = ''stories'' then
             (case others of
                story_key # fifth # _ \<Rightarrow>
                  (if fifth = ''description''
                   then feature\<lparr>fe_stories :=
                     update_first (\<lambda>s. sy_key s = story_key) (\<lambda>s. s\<lparr>sy_description := v\<rparr>) (fe_stories feature)\<rparr>
                   else feature)
              | _ \<Rightarrow> feature)
           else feature))"

definition apply_resolution :: "'r ProjectBundle \<Rightarrow> string \<Rightarrow> pyval \<Rightarrow> 'r ProjectBundle" where
  "apply_resolution bundle path v =
     (case py_split_char (CHR ''.'') path of
        [] \<Rightarrow> bundle
      | first # rest \<Rightarrow>
          (if first = ''idea'' \<and> pb_idea bundle \<noteq> None then
             (if take 1 rest = [''title'']
              then bundle\<lparr>pb_idea := map_option (\<lambda>i. i\<lparr>id_title := v\<rparr>) (pb_idea bundle)\<rparr> else bundle)
           else if first = ''business'' \<and> pb_business bundle \<noteq> None then
             (if take 1 rest = [''value_proposition'']
              then bundle\<lparr>pb_business := map_option (\<lambda>b. b\<lparr>bu_value_proposition := v\<rparr>) (pb_business bundle)\<rparr> else bundle)
           else if first = ''product'' \<and> pb_product bundle \<noteq> None \<and> take 1 rest = [''themes''] \<and> is_plist v then
             bundle\<lparr>pb_product := map_option (\<lambda>p. p\<lparr>pr_themes := (case v of PList xs \<Rightarrow> xs | _ \<Rightarrow> [])\<rparr>) (pb_product bundle)\<rparr>
           else if first = ''features'' then
             (case rest of
                [] \<Rightarrow> bundle
              | feature_key # parts \<Rightarrow>
                  bundle\<lparr>pb_features := AList.map_entry feature_key (apply_to_feature parts v) (pb_features bundle)\<rparr>)
           else bundle))"

text \<open>The four branches of the loop of \<open>resolve\<close>\<close>

definition resolution_for :: "string \<Rightarrow> string \<Rightarrow> string option \<Rightarrow> string option \<Rightarrow> MergeStrategy" where
  "resolution_for persona_ours persona_theirs owner_ours owner_theirs =
     (if owner_ours = Some persona_ours \<and> owner_theirs \<noteq> Some persona_theirs then StrategyOurs
      else if owner_theirs = Some persona_theirs \<and> owner_ours \<noteq> Some persona_ours then StrategyTheirs
      else if owner_ours = Some persona_ours \<and> owner_theirs = Some persona_theirs then
        (if persona_ours = persona_theirs then StrategyOurs else StrategyManual)
      else StrategyManual)"

definition resolve_conflict ::
  "personas \<Rightarrow> string \<Rightarrow> string \<Rightarrow> 'r MergeResolution \<Rightarrow> string \<times> three_values \<Rightarrow> 'r MergeResolution" where
  "resolve_conflict manifest persona_ours persona_theirs r entry =
     (let (path, b, u, v) = entry; section_path = get_section_path path;
          owner_ours = get_owner section_path manifest persona_ours;
          owner_theirs = get_owner section_path manifest persona_theirs;
          strategy = resolution_for persona_ours persona_theirs owner_ours owner_theirs;
          chosen = (case strategy of StrategyOurs \<Rightarrow> u | StrategyTheirs \<Rightarrow> v | _ \<Rightarrow> PNone);
          conflict = \<lparr>mc_section_path = section_path, mc_field_name = path, mc_base_value = b, mc_ours_value = u,
            mc_theirs_value = v, mc_owner_ours = owner_ours, mc_owner_theirs = owner_theirs,
            mc_resolution = Some strategy, mc_resolved_value = chosen\<rparr>
      in if strategy = StrategyManual
         then r\<lparr>mr_conflicts := mr_conflicts r @ [conflict], mr_unresolved := mr_unresolved r + 1\<rparr>
         else r\<lparr>mr_merged_bundle := apply_resolution (mr_merged_bundle r) path chosen,
                mr_conflicts := mr_conflicts r @ [conflict], mr_auto_resolved := mr_auto_resolved r + 1\<rparr>)"

definition sections_disjoint :: "'r ProjectBundle \<Rightarrow> 'r ProjectBundle \<Rightarrow> bool" where
  "sections_disjoint ours theirs = False"

text \<open>\<open>_merge_sections\<close>, for disjoint sections\<close>

definition or_else :: "'a option \<Rightarrow> 'a option \<Rightarrow> 'a option" where
  "or_else a b = (if a = None then b else a)"

definition merge_sections :: "'r ProjectBundle \<Rightarrow> 'r ProjectBundle \<Rightarrow> 'r ProjectBundle \<Rightarrow> 'r ProjectBundle" where
  "merge_sections base ours theirs =
     (let with_ours = foldl (\<lambda>d (k, f). AList.update k f d) (pb_features base) (pb_features ours);
          with_theirs = foldl (\<lambda>d (k, f). if map_of d k = None then AList.update k f d else d) with_ours (pb_features theirs)
      in base\<lparr>pb_features := with_theirs,
              pb_idea := or_else (or_else (pb_idea base) (pb_idea ours)) (pb_idea theirs),
              pb_business := or_else (or_else (pb_business base) (pb_business ours)) (pb_business theirs),
              pb_product := or_else (pb_product theirs) (or_else (pb_product ours) (pb_product base))\<rparr>)"

definition start_resolution :: "'r ProjectBundle \<Rightarrow> 'r MergeResolution" where
  "start_resolution merged = \<lparr>mr_merged_bundle = merged, mr_conflicts = [], mr_auto_resolved = 0, mr_manual_resolved = 0,
     mr_unresolved = 0\<rparr>"

definition resolve ::
  "(string list \<Rightarrow> string list) \<Rightarrow> 'r ProjectBundle \<Rightarrow> 'r ProjectBundle \<Rightarrow> 'r ProjectBundle \<Rightarrow> string \<Rightarrow> string
   \<Rightarrow> 'r MergeResolution" where
  "resolve order base ours theirs persona_ours persona_theirs =
     (if sections_disjoint ours theirs then start_resolution (merge_sections base ours theirs)
      else foldl (resolve_conflict (pb_personas base) persona_ours persona_theirs) (start_resolution base)
             (find_conflicts order base ours theirs))"

section \<open>Paths of conflicts\<close>

definition dot_free :: "string \<Rightarrow> bool" where
  "dot_free k \<longleftrightarrow> CHR ''.'' \<notin> set k"

lemma split_dot: "dot_free a \<Longrightarrow> py_split_char (CHR ''.'') (a @ CHR ''.'' # b) = a # py_split_char (CHR ''.'') b"
  by (induction a) (auto simp: dot_free_def)

lemma split_dot_free: "dot_free a \<Longrightarrow> py_split_char (CHR ''.'') a = [a]"
  by (induction a) (auto simp: dot_free_def)

lemma split_paths:
  assumes "dot_free k"
  shows "py_split_char (CHR ''.'') (title_path k) = [''features'', k, ''title'']"
    and "dot_free s \<Longrightarrow> py_split_char (CHR ''.'') (story_path k s) = [''features'', k, ''stories'', s, ''description'']"
proof -
  have l: "dot_free ''features''" "dot_free ''title''" "dot_free ''stories''" "dot_free ''description''" by (simp_all add: dot_free_def)
  show "py_split_char (CHR ''.'') (title_path k) = [''features'', k, ''title'']"
    using split_dot [OF l(1), of "k @ CHR ''.'' # ''title''"] split_dot [OF assms, of "''title''"] split_dot_free [OF l(2)]
    by (simp only: title_path_def append.simps append_assoc)
  show "dot_free s \<Longrightarrow> py_split_char (CHR ''.'') (story_path k s) = [''features'', k, ''stories'', s, ''description'']"
    using split_dot [OF l(1), of "k @ CHR ''.'' # ''stories'' @ CHR ''.'' # s @ CHR ''.'' # ''description''"]
      split_dot [OF assms, of "''stories'' @ CHR ''.'' # s @ CHR ''.'' # ''description''"]
      split_dot [OF l(3), of "s @ CHR ''.'' # ''description''"] split_dot [of s "''description''"] split_dot_free [OF l(4)]
    by (simp only: story_path_def append.simps append_assoc)
qed

lemma paths_differ [simp]:
  "title_path k = title_path k' \<longleftrightarrow> k = k'" "story_path k s \<noteq> title_path k'" "title_path k' \<noteq> story_path k s"
  "title_path k \<noteq> ''idea.title''" "title_path k \<noteq> ''business.value_proposition''" "title_path k \<noteq> ''product.themes''"
  "story_path k s \<noteq> ''idea.title''" "story_path k s \<noteq> ''business.value_proposition''" "story_path k s \<noteq> ''product.themes''"
  "''idea.title'' \<noteq> title_path k" "''business.value_proposition'' \<noteq> title_path k" "''product.themes'' \<noteq> title_path k"
  "''idea.title'' \<noteq> story_path k s" "''business.value_proposition'' \<noteq> story_path k s" "''product.themes'' \<noteq> story_path k s"
proof -
  have "last (story_path k s) \<noteq> last (title_path k')" by (simp add: story_path_def title_path_def)
  then show "story_path k s \<noteq> title_path k'" "title_path k' \<noteq> story_path k s" by metis+
qed (simp_all add: title_path_def story_path_def)

section \<open>What is in conflict\<close>

type_synonym conflicts = "(string \<times> three_values) list"

text \<open>The three values of a field when they are pairwise different.\<close>

definition three_way :: "('x \<Rightarrow> pyval) \<Rightarrow> 'x option \<Rightarrow> 'x option \<Rightarrow> 'x option \<Rightarrow> three_values option" where
  "three_way g b u v =
     (case (b, u, v) of
        (Some b', Some u', Some v') \<Rightarrow> (if all_differ (g b') (g u') (g v') then Some (g b', g u', g v') else None)
      | _ \<Rightarrow> None)"

abbreviation title_conflict :: "'r ProjectBundle \<Rightarrow> 'r ProjectBundle \<Rightarrow> 'r ProjectBundle \<Rightarrow> string \<Rightarrow> three_values option" where
  "title_conflict base ours theirs k \<equiv>
     three_way fe_title (map_of (pb_features base) k) (map_of (pb_features ours) k) (map_of (pb_features theirs) k)"

definition record_conflict :: "string \<Rightarrow> three_values option \<Rightarrow> conflicts \<Rightarrow> conflicts" where
  "record_conflict path vals d = (case vals of None \<Rightarrow> d | Some x \<Rightarrow> AList.update path x d)"

lemma record_conflict_lookup:
  "map_of (record_conflict path vals d) p =
     (if p = path then (case vals of None \<Rightarrow> map_of d p | Some x \<Rightarrow> Some x) else map_of d p)"
  by (auto simp: record_conflict_def update_conv' split: option.splits)

lemma record_conflict_distinct: "distinct (map fst d) \<Longrightarrow> distinct (map fst (record_conflict path vals d))"
  by (auto simp: record_conflict_def distinct_update split: option.splits)

lemma record_conflict_all:
  "\<forall>e \<in> set d. P e \<Longrightarrow> (\<And>x. vals = Some x \<Longrightarrow> P (path, x)) \<Longrightarrow> \<forall>e \<in> set (record_conflict path vals d). P e"
proof (cases vals)
  case (Some x)
  assume "\<forall>e \<in> set d. P e" "\<And>x. vals = Some x \<Longrightarrow> P (path, x)"
  moreover have "set (AList.update path x d) \<subseteq> insert (path, x) (set d)" by (induction d) auto
  ultimately show ?thesis using Some by (auto simp: record_conflict_def)
qed (simp add: record_conflict_def)

lemma fixed_conflicts:
  "idea_conflict base ours theirs = record_conflict ''idea.title'' (three_way id_title (pb_idea base) (pb_idea ours) (pb_idea theirs))"
  "business_conflict base ours theirs = record_conflict ''business.value_proposition''
     (three_way bu_value_proposition (pb_business base) (pb_business ours) (pb_business theirs))"
  "product_conflict base ours theirs = record_conflict ''product.themes''
     (three_way (PList \<circ> pr_themes) (pb_product base) (pb_product ours) (pb_product theirs))"
  by (auto simp: idea_conflict_def business_conflict_def product_conflict_def record_conflict_def three_way_def all_differ_def
      fun_eq_iff split: option.splits)

lemma story_conflict_record:
  "\<exists>x. story_conflict key u v d s = record_conflict (story_path key s) x d"
proof -
  have "d = record_conflict p None d" "AList.update p x d = record_conflict p (Some x) d" for p x
    by (simp_all add: record_conflict_def)
  then show ?thesis unfolding story_conflict_def by (auto split: option.splits)
qed

lemma feature_conflict_record:
  "feature_conflict order base ours theirs d key =
     (case title_conflict base ours theirs key of
        None \<Rightarrow> d
      | Some x \<Rightarrow> foldl (story_conflict key (the (map_of (pb_features ours) key)) (the (map_of (pb_features theirs) key)))
          (record_conflict (title_path key) (Some x) d)
          (order (common_stories (the (map_of (pb_features base) key)) (the (map_of (pb_features ours) key))
             (the (map_of (pb_features theirs) key)))))"
  by (auto simp: feature_conflict_def three_way_def record_conflict_def split: option.splits)

lemma story_conflicts_lookup:
  "(\<And>s. path \<noteq> story_path key s) \<Longrightarrow> map_of (foldl (story_conflict key u v) d ks) path = map_of d path"
  by (induction ks arbitrary: d) (auto simp: story_conflict_def update_conv' split: option.splits)

lemma feature_conflict_lookup:
  assumes "\<And>k s. path \<noteq> story_path k s"
  shows "map_of (feature_conflict order base ours theirs d key) path =
     (if path = title_path key \<and> title_conflict base ours theirs key \<noteq> None then title_conflict base ours theirs key
      else map_of d path)"
  using assms
  by (auto simp: feature_conflict_def three_way_def story_conflicts_lookup update_conv' split: option.splits)

lemma feature_conflicts_lookup:
  "map_of (foldl (feature_conflict order base ours theirs) d keys) (title_path k) =
     (if k \<in> set keys \<and> title_conflict base ours theirs k \<noteq> None then title_conflict base ours theirs k
      else map_of d (title_path k))"
  by (induction keys arbitrary: d) (auto simp: feature_conflict_lookup)

lemma feature_conflicts_other:
  "(\<And>k s. path \<noteq> story_path k s) \<Longrightarrow> (\<And>k. path \<noteq> title_path k) \<Longrightarrow>
   map_of (foldl (feature_conflict order base ours theirs) d keys) path = map_of d path"
  by (induction keys arbitrary: d) (simp_all add: feature_conflict_lookup)

lemma find_conflicts_lookup:
  assumes "\<And>xs. set (order xs) = set xs"
  shows "map_of (find_conflicts order base ours theirs) (title_path k) = title_conflict base ours theirs k"
    and "map_of (find_conflicts order base ours theirs) ''idea.title''
      = three_way id_title (pb_idea base) (pb_idea ours) (pb_idea theirs)"
    and "map_of (find_conflicts order base ours theirs) ''business.value_proposition''
      = three_way bu_value_proposition (pb_business base) (pb_business ours) (pb_business theirs)"
    and "map_of (find_conflicts order base ours theirs) ''product.themes''
      = three_way (PList \<circ> pr_themes) (pb_product base) (pb_product ours) (pb_product theirs)"
proof -
  have keys: "title_conflict base ours theirs k = None" if "k \<notin> set (order (all_feature_keys base ours theirs))"
  proof -
    have "k \<notin> fst ` set (pb_features base)" using that unfolding assms by (auto simp: all_feature_keys_def)
    then have "map_of (pb_features base) k = None" by (simp add: map_of_eq_None_iff)
    then show ?thesis by (simp add: three_way_def)
  qed
  have none: "map_of (foldl (feature_conflict order base ours theirs) [] ks) p = None"
    if "p \<in> {''idea.title'', ''business.value_proposition'', ''product.themes''}" for p ks
  proof -
    have "p \<noteq> story_path k s" "p \<noteq> title_path k" for k s using that paths_differ(4-9) by blast+
    then show ?thesis by (simp add: feature_conflicts_other)
  qed
  show "map_of (find_conflicts order base ours theirs) (title_path k) = title_conflict base ours theirs k"
    using keys by (cases "title_conflict base ours theirs k = None")
      (auto simp: find_conflicts_def fixed_conflicts record_conflict_lookup feature_conflicts_lookup)
  show "map_of (find_conflicts order base ours theirs) ''idea.title''
      = three_way id_title (pb_idea base) (pb_idea ours) (pb_idea theirs)"
    using none by (simp add: find_conflicts_def fixed_conflicts record_conflict_lookup split: option.split)
  show "map_of (find_conflicts order base ours theirs) ''business.value_proposition''
      = three_way bu_value_proposition (pb_business base) (pb_business ours) (pb_business theirs)"
    using none by (simp add: find_conflicts_def fixed_conflicts record_conflict_lookup split: option.split)
  show "map_of (find_conflicts order base ours theirs) ''product.themes''
      = three_way (PList \<circ> pr_themes) (pb_product base) (pb_product ours) (pb_product theirs)"
    using none by (simp add: find_conflicts_def fixed_conflicts record_conflict_lookup split: option.split)
qed

text \<open>The shape of an entry: it names a title, a story that the base lacks, or one of the three fixed fields.\<close>

definition conflict_entry :: "(string \<times> 'r Feature) list \<Rightarrow> string \<times> three_values \<Rightarrow> bool" where
  "conflict_entry features e \<longleftrightarrow>
     (\<exists>k. dot_free k \<and> fst e = title_path k)
     \<or> (\<exists>k s. dot_free k \<and> dot_free s \<and> fst e = story_path k s
          \<and> (\<forall>f. map_of features k = Some f \<longrightarrow> s \<notin> sy_key ` set (fe_stories f)))
     \<or> fst e = ''idea.title'' \<or> fst e = ''business.value_proposition''
     \<or> (\<exists>b u v. e = (''product.themes'', PList b, PList u, PList v))"

definition dot_free_keys :: "'r ProjectBundle \<Rightarrow> bool" where
  "dot_free_keys b \<longleftrightarrow> (\<forall>(k, f) \<in> set (pb_features b). dot_free k \<and> (\<forall>s \<in> set (fe_stories f). dot_free (sy_key s)))"

lemma feature_conflict_entries:
  assumes order: "\<And>xs. set (order xs) = set xs" and dots: "dot_free_keys ours"
    and d: "\<forall>e \<in> set d. conflict_entry (pb_features base) e"
  shows "\<forall>e \<in> set (feature_conflict order base ours theirs d key). conflict_entry (pb_features base) e"
proof (cases "title_conflict base ours theirs key")
  case None
  with d show ?thesis by (simp add: feature_conflict_record)
next
  case (Some x)
  then obtain b u v where f: "map_of (pb_features base) key = Some b" "map_of (pb_features ours) key = Some u"
      "map_of (pb_features theirs) key = Some v"
    by (auto simp: three_way_def split: option.splits)
  have key: "dot_free key" "\<forall>s \<in> set (fe_stories u). dot_free (sy_key s)"
    using dots map_of_SomeD [OF f(2)] by (auto simp: dot_free_keys_def)
  have story: "conflict_entry (pb_features base) (story_path key s, y)" if "s \<in> set (common_stories b u v)" for s y
  proof -
    have "dot_free s" "\<forall>f. map_of (pb_features base) key = Some f \<longrightarrow> s \<notin> sy_key ` set (fe_stories f)"
      using that key(2) f(1) by (auto simp: common_stories_def)
    with key(1) show ?thesis unfolding conflict_entry_def fst_conv by blast
  qed
  have stories: "\<forall>e \<in> set (foldl (story_conflict key u v) d' ks). conflict_entry (pb_features base) e"
    if "set ks \<subseteq> set (common_stories b u v)" "\<forall>e \<in> set d'. conflict_entry (pb_features base) e" for ks d'
    using that
  proof (induction ks arbitrary: d')
    case (Cons s ks)
    obtain y where "story_conflict key u v d' s = record_conflict (story_path key s) y d'"
      using story_conflict_record by blast
    moreover have "\<forall>e \<in> set (record_conflict (story_path key s) y d'). conflict_entry (pb_features base) e"
      using Cons.prems story by (intro record_conflict_all) auto
    ultimately show ?case using Cons by simp
  qed simp
  have "\<forall>e \<in> set (record_conflict (title_path key) (Some x) d). conflict_entry (pb_features base) e"
    using d key(1) by (intro record_conflict_all) (auto simp: conflict_entry_def)
  from stories [OF _ this, of "order (common_stories b u v)"] Some f show ?thesis
    by (simp add: feature_conflict_record order)
qed

lemma find_conflicts_entries:
  assumes order: "\<And>xs. set (order xs) = set xs" and dots: "dot_free_keys ours"
  shows "\<forall>e \<in> set (find_conflicts order base ours theirs). conflict_entry (pb_features base) e"
proof -
  have "\<forall>e \<in> set (foldl (feature_conflict order base ours theirs) d ks). conflict_entry (pb_features base) e"
    if "\<forall>e \<in> set d. conflict_entry (pb_features base) e" for d ks
    using that
  proof (induction ks arbitrary: d)
    case (Cons k ks)
    from Cons.IH [OF feature_conflict_entries [OF order dots Cons.prems]] show ?case by simp
  qed simp
  from this [of "[]" "order (all_feature_keys base ours theirs)"] show ?thesis
    unfolding find_conflicts_def fixed_conflicts
    by (intro record_conflict_all) (auto simp: conflict_entry_def three_way_def split: option.splits if_splits)
qed

lemma find_conflicts_distinct: "distinct (map fst (find_conflicts order base ours theirs))"
proof -
  have story: "distinct (map fst d) \<Longrightarrow> distinct (map fst (foldl (story_conflict key u v) d ks))" for d ks key u v
  proof (induction ks arbitrary: d)
    case (Cons s ks)
    obtain y where "story_conflict key u v d s = record_conflict (story_path key s) y d" using story_conflict_record by blast
    with Cons show ?case by (simp add: record_conflict_distinct)
  qed simp
  have feature: "distinct (map fst d) \<Longrightarrow> distinct (map fst (feature_conflict order base ours theirs d k))" for d k
    by (simp add: feature_conflict_record story record_conflict_distinct split: option.split)
  have "distinct (map fst d) \<Longrightarrow> distinct (map fst (foldl (feature_conflict order base ours theirs) d ks))" for d ks
    by (induction ks arbitrary: d) (simp_all add: feature)
  then show ?thesis by (simp add: find_conflicts_def fixed_conflicts record_conflict_distinct)
qed

section \<open>Resolving conflicts\<close>

definition strategy_at :: "personas \<Rightarrow> string \<Rightarrow> string \<Rightarrow> string \<Rightarrow> MergeStrategy" where
  "strategy_at m po pt section_path =
     resolution_for po pt (get_owner section_path m po) (get_owner section_path m pt)"

definition chosen_value :: "MergeStrategy \<Rightarrow> pyval \<Rightarrow> three_values \<Rightarrow> pyval" where
  "chosen_value strategy old vals =
     (case vals of (b, u, v) \<Rightarrow> (case strategy of StrategyOurs \<Rightarrow> u | StrategyTheirs \<Rightarrow> v | _ \<Rightarrow> old))"

text \<open>The value of a field after the conflicts of a dictionary are resolved.\<close>

definition pick :: "personas \<Rightarrow> string \<Rightarrow> string \<Rightarrow> conflicts \<Rightarrow> string \<Rightarrow> pyval \<Rightarrow> pyval" where
  "pick m po pt D path old =
     (case map_of D path of None \<Rightarrow> old | Some vals \<Rightarrow> chosen_value (strategy_at m po pt (get_section_path path)) old vals)"

definition list_of :: "pyval \<Rightarrow> pyval list" where
  "list_of v = (case v of PList xs \<Rightarrow> xs | _ \<Rightarrow> [])"

definition picked_bundle :: "personas \<Rightarrow> string \<Rightarrow> string \<Rightarrow> conflicts \<Rightarrow> 'r ProjectBundle \<Rightarrow> 'r ProjectBundle" where
  "picked_bundle m po pt D b =
     b\<lparr>pb_features := map (\<lambda>(k, f). (k, f\<lparr>fe_title := pick m po pt D (title_path k) (fe_title f)\<rparr>)) (pb_features b),
       pb_idea := map_option (\<lambda>i. i\<lparr>id_title := pick m po pt D ''idea.title'' (id_title i)\<rparr>) (pb_idea b),
       pb_business := map_option (\<lambda>x. x\<lparr>bu_value_proposition :=
         pick m po pt D ''business.value_proposition'' (bu_value_proposition x)\<rparr>) (pb_business b),
       pb_product := map_option (\<lambda>p. p\<lparr>pr_themes := list_of (pick m po pt D ''product.themes'' (PList (pr_themes p)))\<rparr>) (pb_product b)\<rparr>"

lemma resolution_for_cases: "resolution_for po pt x y \<in> {StrategyOurs, StrategyTheirs, StrategyManual}"
  by (simp add: resolution_for_def)

lemma map_entry_distinct:
  "distinct (map fst d) \<Longrightarrow> AList.map_entry k g d = map (\<lambda>(k', x). (k', if k' = k then g x else x)) d"
proof (induction d)
  case (Cons a d)
  have "k \<notin> fst ` set d \<Longrightarrow> map (\<lambda>(k', x). (k', if k' = k then g x else x)) d = d"
    by (induction d) auto
  with Cons show ?case by (cases a) auto
qed simp

lemma update_first_absent: "\<forall>x \<in> set xs. \<not> p x \<Longrightarrow> update_first p f xs = xs"
  by (induction xs) auto

lemma pick_single [simp]:
  "pick m po pt [(path, vals)] p old =
     (if p = path then chosen_value (strategy_at m po pt (get_section_path path)) old vals else old)"
  by (simp add: pick_def)

lemma pick_Nil [simp]: "pick m po pt [] p old = old"
  by (simp add: pick_def)

lemma pick_Cons: "path \<notin> fst ` set D \<Longrightarrow> pick m po pt D p (pick m po pt [(path, vals)] p old) = pick m po pt ((path, vals) # D) p old"
  by (auto simp: pick_def map_of_eq_None_iff [symmetric] split: option.split)

lemma apply_resolution_picks:
  assumes "conflict_entry (pb_features b) (path, vals)" and "distinct (map fst (pb_features b))"
    and "strategy_at m po pt (get_section_path path) \<noteq> StrategyManual"
  shows "apply_resolution b path (chosen_value (strategy_at m po pt (get_section_path path)) PNone vals)
    = picked_bundle m po pt [(path, vals)] b"
proof -
  define x where "x = chosen_value (strategy_at m po pt (get_section_path path)) PNone vals"
  have st: "strategy_at m po pt (get_section_path path) \<in> {StrategyOurs, StrategyTheirs}"
    using assms(3) resolution_for_cases unfolding strategy_at_def by fastforce
  then have one: "pick m po pt [(path, vals)] p old = (if p = path then x else old)" for p old
    by (auto simp: x_def chosen_value_def split: prod.split)
  have themes_value: "x \<in> {PList u, PList v}" if "vals = (PList b', PList u, PList v)" for b' u v
    using st that by (auto simp: x_def chosen_value_def)
  consider (title) k where "dot_free k" "path = title_path k"
    | (story) k s where "dot_free k" "dot_free s" "path = story_path k s"
        "\<forall>f. map_of (pb_features b) k = Some f \<longrightarrow> s \<notin> sy_key ` set (fe_stories f)"
    | (idea) "path = ''idea.title''" | (business) "path = ''business.value_proposition''"
    | (themes) b' u v where "path = ''product.themes''" "vals = (PList b', PList u, PList v)"
    using assms(1) unfolding conflict_entry_def by auto
  then have "apply_resolution b path x = picked_bundle m po pt [(path, vals)] b"
  proof cases
    case title
    have "apply_resolution b path x = b\<lparr>pb_features := map (\<lambda>(k', f). (k', if k' = k then f\<lparr>fe_title := x\<rparr> else f)) (pb_features b)\<rparr>"
      using assms(2) title by (simp add: apply_resolution_def split_paths apply_to_feature_def map_entry_distinct cong: if_cong)
    also have "map (\<lambda>(k', f). (k', if k' = k then f\<lparr>fe_title := x\<rparr> else f)) (pb_features b)
        = map (\<lambda>(k', f). (k', f\<lparr>fe_title := if k' = k then x else fe_title f\<rparr>)) (pb_features b)"
      by (intro map_cong) auto
    finally show ?thesis
      unfolding picked_bundle_def one by (simp add: title(2) list_of_def option.map_ident)
  next
    case story
    have "apply_to_feature [''stories'', s, ''description''] x f = f" if "(k, f) \<in> set (pb_features b)" for f
    proof -
      have "\<forall>y \<in> set (fe_stories f). sy_key y \<noteq> s" using story(4) assms(2) that by force
      then show ?thesis by (simp add: apply_to_feature_def update_first_absent)
    qed
    then have "map (\<lambda>(k', f). (k', if k' = k then apply_to_feature [''stories'', s, ''description''] x f else f)) (pb_features b)
        = pb_features b"
      by (intro map_idI) auto
    then have "apply_resolution b path x = b"
      using assms(2) story(1-3) by (simp add: apply_resolution_def split_paths map_entry_distinct)
    then show ?thesis unfolding picked_bundle_def one by (auto simp: story(3) list_of_def option.map_ident)
  next
    case idea
    then show ?thesis unfolding picked_bundle_def one
      by (cases "pb_idea b") (simp_all add: apply_resolution_def list_of_def option.map_ident)
  next
    case business
    then show ?thesis unfolding picked_bundle_def one
      by (cases "pb_business b") (simp_all add: apply_resolution_def list_of_def option.map_ident)
  next
    case themes
    then show ?thesis unfolding picked_bundle_def one
      using themes_value by (cases "pb_product b") (auto simp: apply_resolution_def list_of_def option.map_ident)
  qed
  then show ?thesis by (simp only: x_def)
qed

lemma picked_bundle_Cons:
  assumes "path \<notin> fst ` set D"
  shows "picked_bundle m po pt D (picked_bundle m po pt [(path, vals)] b) = picked_bundle m po pt ((path, vals) # D) b"
proof -
  have themes: "list_of (pick m po pt D p (PList (list_of (pick m po pt [(path, vals)] p (PList t)))))
      = list_of (pick m po pt ((path, vals) # D) p (PList t))" for p t
  proof (cases "p = path")
    case True
    with assms have "map_of D p = None" by (simp add: map_of_eq_None_iff)
    with True show ?thesis by (simp add: pick_def list_of_def)
  next
    case False
    then show ?thesis by (simp add: list_of_def pick_def)
  qed
  note pc = pick_Cons [OF assms]
  show ?thesis
    unfolding picked_bundle_def
    by (simp add: pc themes option.map_comp comp_def split_beta del: pick_single)
qed

lemma conflict_entry_picked: "conflict_entry (pb_features (picked_bundle m po pt D b)) e = conflict_entry (pb_features b) e"
proof -
  have "map_of (map (\<lambda>(k, f). (k, g k f)) fs) k = map_option (g k) (map_of fs k)" for g :: "string \<Rightarrow> 'a Feature \<Rightarrow> 'a Feature" and fs k
    by (induction fs) auto
  then have "(\<forall>f. map_of (pb_features (picked_bundle m po pt D b)) k = Some f \<longrightarrow> s \<notin> sy_key ` set (fe_stories f))
      = (\<forall>f. map_of (pb_features b) k = Some f \<longrightarrow> s \<notin> sy_key ` set (fe_stories f))" for k s
    by (cases "map_of (pb_features b) k") (simp_all add: picked_bundle_def)
  then show ?thesis unfolding conflict_entry_def by simp
qed

lemma resolve_conflict_merged:
  assumes "conflict_entry (pb_features (mr_merged_bundle r)) e" and "distinct (map fst (pb_features (mr_merged_bundle r)))"
  shows "mr_merged_bundle (resolve_conflict m po pt r e) = picked_bundle m po pt [e] (mr_merged_bundle r)"
proof -
  obtain path b u v where e: "e = (path, b, u, v)" by (cases e)
  let ?st = "strategy_at m po pt (get_section_path path)"
  show ?thesis
  proof (cases "?st = StrategyManual")
    case True
    then have one: "pick m po pt [(path, b, u, v)] p old = old" for p old by (simp add: chosen_value_def)
    have "picked_bundle m po pt [e] (mr_merged_bundle r) = mr_merged_bundle r"
      unfolding picked_bundle_def e one by (simp add: list_of_def option.map_ident)
    with True show ?thesis by (simp add: e resolve_conflict_def strategy_at_def Let_def)
  next
    case False
    from apply_resolution_picks [OF assms(1)[unfolded e] assms(2) False] False show ?thesis
      by (simp add: e resolve_conflict_def strategy_at_def Let_def chosen_value_def)
  qed
qed

lemma resolve_conflicts_merged:
  assumes "\<forall>e \<in> set D. conflict_entry (pb_features (mr_merged_bundle r)) e" and "distinct (map fst D)"
    and "distinct (map fst (pb_features (mr_merged_bundle r)))"
  shows "mr_merged_bundle (foldl (resolve_conflict m po pt) r D) = picked_bundle m po pt D (mr_merged_bundle r)"
  using assms
proof (induction D arbitrary: r)
  case Nil
  then show ?case by (simp add: picked_bundle_def list_of_def option.map_ident cong: map_cong)
next
  case (Cons e D)
  let ?r = "resolve_conflict m po pt r e"
  have merged: "mr_merged_bundle ?r = picked_bundle m po pt [e] (mr_merged_bundle r)"
    using Cons.prems by (intro resolve_conflict_merged) auto
  have keys: "map fst (pb_features (picked_bundle m po pt [e] b)) = map fst (pb_features b)" for b :: "'a ProjectBundle"
    by (simp add: picked_bundle_def comp_def split_beta)
  have "mr_merged_bundle (foldl (resolve_conflict m po pt) ?r D) = picked_bundle m po pt D (mr_merged_bundle ?r)"
    using Cons.prems by (intro Cons.IH) (auto simp: merged conflict_entry_picked keys)
  with Cons.prems(2) show ?case unfolding merged by (cases e) (simp add: picked_bundle_Cons)
qed

definition counts_ok :: "'r MergeResolution \<Rightarrow> bool" where
  "counts_ok r \<longleftrightarrow> mr_unresolved r = length (filter (\<lambda>c. mc_resolution c = Some StrategyManual) (mr_conflicts r))
     \<and> mr_auto_resolved r + mr_unresolved r = length (mr_conflicts r)"

lemma resolve_counts:
  "counts_ok r \<Longrightarrow> counts_ok (foldl (resolve_conflict m po pt) r D)
     \<and> map mc_field_name (mr_conflicts (foldl (resolve_conflict m po pt) r D)) = map mc_field_name (mr_conflicts r) @ map fst D"
proof (induction D arbitrary: r)
  case (Cons e D)
  have "counts_ok (resolve_conflict m po pt r e)"
    "map mc_field_name (mr_conflicts (resolve_conflict m po pt r e)) = map mc_field_name (mr_conflicts r) @ [fst e]"
    using Cons.prems by (auto simp: counts_ok_def resolve_conflict_def Let_def split: prod.split)
  with Cons.IH [of "resolve_conflict m po pt r e"] show ?case by simp
qed simp

section \<open>The merge\<close>

text \<open>A field of the merged bundle: the base value, unless all three versions differ and exactly one side (or one persona on both
  sides) owns the section.\<close>

definition merged_field :: "personas \<Rightarrow> string \<Rightarrow> string \<Rightarrow> string \<Rightarrow> 'v \<Rightarrow> 'v option \<Rightarrow> 'v option \<Rightarrow> 'v" where
  "merged_field m po pt section_path b ours theirs =
     (case (ours, theirs) of
        (Some u, Some v) \<Rightarrow>
          (if all_differ b u v
           then (case strategy_at m po pt section_path of StrategyOurs \<Rightarrow> u | StrategyTheirs \<Rightarrow> v | _ \<Rightarrow> b) else b)
      | _ \<Rightarrow> b)"

lemma pick_merged:
  assumes "map_of D path = three_way g (Some x) u v" and "get_section_path path = sec"
  shows "pick m po pt D path (g x) = merged_field m po pt sec (g x) (map_option g u) (map_option g v)"
  using assms by (auto simp: pick_def three_way_def merged_field_def chosen_value_def split: option.split MergeStrategy.split)

lemma section_of_title: "dot_free k \<Longrightarrow> get_section_path (title_path k) = ''features.'' @ k"
  by (simp add: get_section_path_def split_paths)

text \<open>C35: The three-way merge, for keys without dots and whatever the iteration order of its sets. The merged bundle
  is the base bundle with four kinds of fields replaced: feature titles, the idea title, the value proposition and the
  themes, each only when all three versions differ and ownership decides. Stories and everything else keep the base version. The
  counters partition the conflicts, one per conflicting path.\<close>

theorem merge_resolution_exact:
  assumes order: "\<And>xs. set (order xs) = set xs" and dict: "distinct (map fst (pb_features base))"
    and dots: "dot_free_keys base" "dot_free_keys ours"
  shows "let r = resolve order base ours theirs po pt; field = merged_field (pb_personas base) po pt
     in mr_merged_bundle r = base\<lparr>
          pb_features := map (\<lambda>(k, f). (k, f\<lparr>fe_title := field (''features.'' @ k) (fe_title f)
            (map_option fe_title (map_of (pb_features ours) k)) (map_option fe_title (map_of (pb_features theirs) k))\<rparr>)) (pb_features base),
          pb_idea := map_option (\<lambda>i. i\<lparr>id_title := field ''idea'' (id_title i)
            (map_option id_title (pb_idea ours)) (map_option id_title (pb_idea theirs))\<rparr>) (pb_idea base),
          pb_business := map_option (\<lambda>x. x\<lparr>bu_value_proposition := field ''business'' (bu_value_proposition x)
            (map_option bu_value_proposition (pb_business ours)) (map_option bu_value_proposition (pb_business theirs))\<rparr>)
            (pb_business base),
          pb_product := map_option (\<lambda>p. p\<lparr>pr_themes := merged_field (pb_personas base) po pt ''product'' (pr_themes p)
            (map_option pr_themes (pb_product ours)) (map_option pr_themes (pb_product theirs))\<rparr>) (pb_product base)\<rparr>
       \<and> counts_ok r \<and> distinct (map mc_field_name (mr_conflicts r))"
proof -
  let ?D = "find_conflicts order base ours theirs" and ?m = "pb_personas base"
  have r: "resolve order base ours theirs po pt = foldl (resolve_conflict ?m po pt) (start_resolution base) ?D"
    by (simp add: resolve_def sections_disjoint_def)
  have "counts_ok (start_resolution base)" "mr_conflicts (start_resolution base) = []"
    by (simp_all add: counts_ok_def start_resolution_def)
  then have counts: "counts_ok (resolve order base ours theirs po pt)"
    "distinct (map mc_field_name (mr_conflicts (resolve order base ours theirs po pt)))"
    using resolve_counts [of "start_resolution base" ?m po pt ?D] find_conflicts_distinct by (simp_all add: r)
  have merged: "mr_merged_bundle (resolve order base ours theirs po pt) = picked_bundle ?m po pt ?D base"
    using resolve_conflicts_merged [of ?D "start_resolution base" ?m po pt] find_conflicts_entries [OF order dots(2), of base theirs]
      find_conflicts_distinct [of order base ours theirs] dict by (simp add: r start_resolution_def)
  note look = find_conflicts_lookup [OF order, of base ours theirs]
  have title: "pick ?m po pt ?D (title_path k) (fe_title f) = merged_field ?m po pt (''features.'' @ k) (fe_title f)
      (map_option fe_title (map_of (pb_features ours) k)) (map_option fe_title (map_of (pb_features theirs) k))"
    if "(k, f) \<in> set (pb_features base)" for k f
    using that dict dots(1) look(1) [of k] by (intro pick_merged) (auto simp: section_of_title dot_free_keys_def)
  have idea: "pick ?m po pt ?D ''idea.title'' (id_title i) = merged_field ?m po pt ''idea'' (id_title i)
      (map_option id_title (pb_idea ours)) (map_option id_title (pb_idea theirs))" if "pb_idea base = Some i" for i
    using that look(2) by (intro pick_merged) (simp_all add: get_section_path_def)
  have business: "pick ?m po pt ?D ''business.value_proposition'' (bu_value_proposition x) = merged_field ?m po pt ''business''
      (bu_value_proposition x) (map_option bu_value_proposition (pb_business ours))
      (map_option bu_value_proposition (pb_business theirs))" if "pb_business base = Some x" for x
    using that look(3) by (intro pick_merged) (simp_all add: get_section_path_def)
  have product: "list_of (pick ?m po pt ?D ''product.themes'' (PList (pr_themes p))) = merged_field ?m po pt ''product'' (pr_themes p)
      (map_option pr_themes (pb_product ours)) (map_option pr_themes (pb_product theirs))" if "pb_product base = Some p" for p
    using that look(4) by (auto simp: pick_def list_of_def merged_field_def three_way_def chosen_value_def all_differ_def
        get_section_path_def split: option.splits MergeStrategy.splits)
  have "map (\<lambda>(k, f). (k, f\<lparr>fe_title := pick ?m po pt ?D (title_path k) (fe_title f)\<rparr>)) (pb_features base)
      = map (\<lambda>(k, f). (k, f\<lparr>fe_title := merged_field ?m po pt (''features.'' @ k) (fe_title f)
          (map_option fe_title (map_of (pb_features ours) k)) (map_option fe_title (map_of (pb_features theirs) k))\<rparr>)) (pb_features base)"
    by (intro map_cong refl) (auto simp only: title split: prod.split)
  with counts idea business product show ?thesis unfolding Let_def merged picked_bundle_def
    by (cases "pb_idea base"; cases "pb_business base"; cases "pb_product base"; simp only: option.map)
qed

lemma three_way_same: "three_way g x y x = None" "three_way g x x y = None"
  by (auto simp: three_way_def all_differ_def split: option.split)

text \<open>C40: The merge drops every change that only one side made: when the other side still is the base version, the result is
  the base bundle, without a conflict.\<close>

theorem merge_drops_one_sided_changes:
  "resolve order base ours base po pt = start_resolution base \<and> resolve order base base theirs po pt = start_resolution base"
proof -
  have "feature_conflict order base ours base d k = d" "feature_conflict order base base theirs d k = d" for d k
    by (auto simp: feature_conflict_def all_differ_def split: option.split)
  then have features: "foldl (feature_conflict order base ours base) d ks = d" "foldl (feature_conflict order base base theirs) d ks = d" for d ks
    by (induction ks arbitrary: d) simp_all
  have "find_conflicts order base ours base = []" "find_conflicts order base base theirs = []"
    by (simp_all add: find_conflicts_def fixed_conflicts features record_conflict_def three_way_same)
  then show ?thesis by (simp add: resolve_def sections_disjoint_def)
qed

section \<open>Examples\<close>

definition demo_bundle :: "string \<Rightarrow> string \<Rightarrow> unit ProjectBundle" where
  "demo_bundle key title =
     \<lparr>pb_personas = [(''product-owner'', [''features.*'']), (''architect'', [''product''])],
      pb_features = [(key, \<lparr>fe_title = PStr title, fe_stories = [], fe_rest = ()\<rparr>)],
      pb_idea = None, pb_business = None, pb_product = None, pb_rest = ()\<rparr>"

theorem merge_resolution_exact_witness:
  "mr_merged_bundle (resolve id (demo_bundle ''F-1'' ''Login'') (demo_bundle ''F-1'' ''Sign in'') (demo_bundle ''F-1'' ''Log on'')
     ''product-owner'' ''architect'') = demo_bundle ''F-1'' ''Sign in''"
proof -
  let ?b = "demo_bundle ''F-1'' ''Login''" and ?u = "demo_bundle ''F-1'' ''Sign in''" and ?v = "demo_bundle ''F-1'' ''Log on''"
  have dots: "dot_free_keys ?b" "dot_free_keys ?u" "distinct (map fst (pb_features ?b))"
    by (simp_all add: demo_bundle_def dot_free_keys_def dot_free_def)
  have field: "merged_field (pb_personas ?b) ''product-owner'' ''architect'' (''features.F-1'') (PStr ''Login'')
      (Some (PStr ''Sign in'')) (Some (PStr ''Log on'')) = PStr ''Sign in''" by code_simp
  show ?thesis
    using merge_resolution_exact [of id ?b ?u ?v "''product-owner''" "''architect''"] dots field
    by (simp add: Let_def demo_bundle_def)
qed

text \<open>A conflict on a feature whose key has a dot is counted as resolved, but the bundle keeps the base title: the path is
  split at the dot of the key.\<close>

theorem dotted_key_is_not_merged:
  "let r = resolve id (demo_bundle ''v1.2'' ''Login'') (demo_bundle ''v1.2'' ''Sign in'') (demo_bundle ''v1.2'' ''Log on'')
     ''product-owner'' ''architect''
   in mr_auto_resolved r = 1 \<and> mr_unresolved r = 0 \<and> map mc_resolution (mr_conflicts r) = [Some StrategyOurs]
      \<and> mr_merged_bundle r = demo_bundle ''v1.2'' ''Login''"
  by code_simp

end
