(* ===== verification/Feature_Keys.thy ===== *)
theory Feature_Keys
  imports Prelude
begin

text \<open>
  Feature keys of plans (\<^verbatim>\<open>utils/feature_keys.py\<close> of the project bundle): the normal form used to compare plans, and the
  conversion of a feature list to one key format. A feature is a dictionary of text fields. Upper case is Python's on
  Latin-1, except for the micro sign and the y with diaeresis, whose upper-case forms lie outside it and which stay.
\<close>

section \<open>Case conversion\<close>

definition py_upper_char :: "char \<Rightarrow> string" where
  "py_upper_char c = (let n = (of_char c :: nat) in
     if n = 223 then ''SS''
     else if (97 \<le> n \<and> n \<le> 122) \<or> (224 \<le> n \<and> n \<le> 254 \<and> n \<noteq> 247) then [char_of (n - 32)] else [c])"

definition py_upper :: "string \<Rightarrow> string" where
  "py_upper s = concat (map py_upper_char s)"

text \<open>The title case of the sharp s is \<open>Ss\<close>, that of any other letter its upper case.\<close>

definition py_title_char :: "char \<Rightarrow> string" where
  "py_title_char c = (if of_char c = (223 :: nat) then ''Ss'' else py_upper_char c)"

definition py_cased :: "char \<Rightarrow> bool" where
  "py_cased c = (let n = (of_char c :: nat) in
     (65 \<le> n \<and> n \<le> 90) \<or> (97 \<le> n \<and> n \<le> 122) \<or> n \<in> {170, 181, 186} \<or> (192 \<le> n \<and> n \<noteq> 215 \<and> n \<noteq> 247))"

fun py_capitalize :: "string \<Rightarrow> string" where
  "py_capitalize [] = []"
| "py_capitalize (c # cs) = py_title_char c @ py_lower cs"

fun py_title_from :: "bool \<Rightarrow> string \<Rightarrow> string" where
  "py_title_from previous_cased [] = []"
| "py_title_from previous_cased (c # cs) =
     (if previous_cased then [py_lower_char c] else py_title_char c) @ py_title_from (py_cased c) cs"

definition py_title :: "string \<Rightarrow> string" where
  "py_title s = py_title_from False s"

text \<open>\<open>re.split\<close> at every character of a class\<close>

fun split_at :: "(char \<Rightarrow> bool) \<Rightarrow> string \<Rightarrow> string list" where
  "split_at p [] = [[]]"
| "split_at p (c # cs) =
     (if p c then [] # split_at p cs else (case split_at p cs of [] \<Rightarrow> [[c]] | w # ws \<Rightarrow> (c # w) # ws))"

section \<open>Normal form\<close>

text \<open>\<open>re.sub(r"^\d{3}" + c, "", key)\<close>\<close>

definition drop_number :: "char \<Rightarrow> string \<Rightarrow> string" where
  "drop_number c key =
     (if length key \<ge> 4 \<and> list_all is_digit (take 3 key) \<and> key ! 3 = c then drop 4 key else key)"

definition key_separator :: "char \<Rightarrow> bool" where
  "key_separator c \<longleftrightarrow> c = CHR ''_'' \<or> c = CHR ''-'' \<or> py_is_space c"

definition normalize_feature_key :: "string \<Rightarrow> string" where
  "normalize_feature_key key =
     (let key1 = py_replace ''FEATURE-'' [] key; key2 = drop_number (CHR ''_'') key1; key3 = drop_number (CHR ''-'') key2
      in py_upper (filter (\<lambda>c. \<not> key_separator c) key3))"

section \<open>Key formats\<close>

text \<open>\<open>f"{index:03d}"\<close> and \<open>str(n).zfill(3)\<close>: the sign counts for the width.\<close>

definition padded3 :: "int \<Rightarrow> string" where
  "padded3 i =
     (if i < 0 then CHR ''-'' # (let s = show_nat (nat (- i)) in replicate (2 - length s) (CHR ''0'') @ s)
      else (let s = show_nat (nat i) in replicate (3 - length s) (CHR ''0'') @ s))"

definition to_sequential_key :: "string \<Rightarrow> int \<Rightarrow> string" where
  "to_sequential_key key index = ''FEATURE-'' @ padded3 index"

definition to_classname_key :: "string \<Rightarrow> string" where
  "to_classname_key class_name = ''FEATURE-'' @ py_upper class_name"

definition to_underscore_key :: "string \<Rightarrow> string \<Rightarrow> string" where
  "to_underscore_key title prefix = prefix @ ''_'' @ py_replace '' '' ''_'' (py_upper title)"

type_synonym feature = "(string \<times> string) list"

fun find_feature_by_normalized_key :: "feature list \<Rightarrow> string \<Rightarrow> feature option" where
  "find_feature_by_normalized_key [] target_key = None"
| "find_feature_by_normalized_key (feature # features) target_key =
     (case map_of feature ''key'' of
        None \<Rightarrow> find_feature_by_normalized_key features target_key
      | Some k \<Rightarrow>
          (if normalize_feature_key k = normalize_feature_key target_key then Some feature
           else find_feature_by_normalized_key features target_key))"

definition extract_class_name :: "string \<Rightarrow> string \<Rightarrow> string" where
  "extract_class_name key title =
     (if py_contains key ''FEATURE-'' then
        (let class_part = py_replace ''FEATURE-'' [] key
         in if CHR ''_'' \<in> set class_part \<or> CHR ''-'' \<in> set class_part
            then concat (map py_capitalize (split_at (\<lambda>c. c = CHR ''_'' \<or> c = CHR ''-'') (py_lower class_part)))
            else py_title class_part)
      else if title \<noteq> [] then concat (map py_capitalize (split_at key_separator title))
      else ''UnknownClass'')"

fun convert_loop :: "string \<Rightarrow> int \<Rightarrow> feature list \<Rightarrow> feature list" where
  "convert_loop target_format current_index [] = []"
| "convert_loop target_format current_index (feature # features) =
     (case map_of feature ''key'' of
        None \<Rightarrow> convert_loop target_format current_index features
      | Some original_key \<Rightarrow>
          (let title = (case map_of feature ''title'' of None \<Rightarrow> [] | Some t \<Rightarrow> t)
           in if target_format = ''sequential'' then
                AList.update ''key'' (to_sequential_key original_key current_index) feature
                  # convert_loop target_format (current_index + 1) features
              else if target_format = ''classname'' then
                AList.update ''key'' (to_classname_key (extract_class_name original_key title)) feature
                  # convert_loop target_format current_index features
              else if target_format = ''underscore'' then
                AList.update ''key'' (to_underscore_key title (padded3 (current_index - 1))) feature
                  # convert_loop target_format (current_index + 1) features
              else AList.update ''key'' original_key feature # convert_loop target_format current_index features))"

definition convert_feature_keys :: "feature list \<Rightarrow> string \<Rightarrow> int \<Rightarrow> feature list" where
  "convert_feature_keys features target_format start_index = convert_loop target_format start_index features"

section \<open>The normal form is a normal form\<close>

lemma key_separator_code: "key_separator c \<longleftrightarrow> (let n = (of_char c :: nat) in n = 95 \<or> n = 45 \<or> (9 \<le> n \<and> n \<le> 13) \<or> (28 \<le> n \<and> n \<le> 32)
    \<or> n = 133 \<or> n = 160)"
proof -
  have "c = CHR ''_'' \<longleftrightarrow> of_char c = (95 :: nat)" "c = CHR ''-'' \<longleftrightarrow> of_char c = (45 :: nat)"
    using of_char_eq_iff [of c "CHR ''_''", where 'a = nat] of_char_eq_iff [of c "CHR ''-''", where 'a = nat] by simp_all
  then show ?thesis by (simp add: key_separator_def py_is_space_def Let_def)
qed

lemma upper_separator: "\<not> key_separator c \<Longrightarrow> list_all (\<lambda>d. \<not> key_separator d) (py_upper_char c)"
  by (auto simp: key_separator_code py_upper_char_def Let_def)

lemma upper_upper_char: "py_upper (py_upper_char c) = py_upper_char c"
  by (auto simp: py_upper_def py_upper_char_def Let_def)

lemma py_upper_append: "py_upper (s @ t) = py_upper s @ py_upper t"
  by (simp add: py_upper_def)

lemma py_upper_idem: "py_upper (py_upper s) = py_upper s"
proof (induction s)
  case (Cons c s)
  have "py_upper (c # s) = py_upper_char c @ py_upper s" by (simp add: py_upper_def)
  with Cons show ?case by (simp add: py_upper_append upper_upper_char)
qed (simp add: py_upper_def)

lemma py_startswith_set: "py_startswith s p \<Longrightarrow> set p \<subseteq> set s"
  by (induction s p rule: py_startswith.induct) auto

lemma py_replace_absent: "c \<in> set old \<Longrightarrow> c \<notin> set s \<Longrightarrow> py_replace old new s = s"
proof (induction s)
  case (Cons x s)
  then have "\<not> py_startswith (x # s) old" using py_startswith_set by blast
  with Cons show ?case by simp
qed simp

lemma normalized_no_separator: "\<forall>c \<in> set (normalize_feature_key key). \<not> key_separator c"
  using upper_separator by (fastforce simp: normalize_feature_key_def Let_def py_upper_def list_all_iff)

lemma normalize_keeps:
  assumes "\<forall>c \<in> set s. \<not> key_separator c"
  shows "normalize_feature_key s = py_upper s"
proof -
  have h: "CHR ''-'' \<notin> set s" "CHR ''_'' \<notin> set s" using assms by (auto simp: key_separator_def)
  have "py_replace ''FEATURE-'' [] s = s" by (rule py_replace_absent [where c = "CHR ''-''"]) (use h in simp_all)
  moreover have "drop_number c s = s" if "c \<notin> set s" for c
    using that nth_mem [of 3 s] by (auto simp: drop_number_def)
  ultimately show ?thesis using h assms by (simp add: normalize_feature_key_def Let_def)
qed

text \<open>Normalisation yields a normal form: it has no separators, and normalising again changes nothing. Looking up a feature by
  normal form returns the first feature whose key has the same normal form as the target.\<close>

theorem feature_key_normal_form:
  "normalize_feature_key (normalize_feature_key key) = normalize_feature_key key
   \<and> list_all (\<lambda>c. c \<noteq> CHR ''-'' \<and> c \<noteq> CHR ''_'' \<and> \<not> py_is_space c) (normalize_feature_key key)
   \<and> find_feature_by_normalized_key features key = find_feature_by_normalized_key features (normalize_feature_key key)
   \<and> find_feature_by_normalized_key features key = find (\<lambda>f. map_option normalize_feature_key (map_of f ''key'')
        = Some (normalize_feature_key key)) features"
proof -
  have idem: "normalize_feature_key (normalize_feature_key k) = normalize_feature_key k" for k
    using normalize_keeps [OF normalized_no_separator [of k]]
    by (metis (no_types, lifting) normalize_feature_key_def py_upper_idem)
  have "find_feature_by_normalized_key fs k = find_feature_by_normalized_key fs (normalize_feature_key k)" for fs k
    by (induction fs) (auto simp: idem split: option.split)
  moreover have "find_feature_by_normalized_key fs k = find (\<lambda>f. map_option normalize_feature_key (map_of f ''key'')
        = Some (normalize_feature_key k)) fs" for fs k
    by (induction fs) (auto split: option.split)
  ultimately show ?thesis using idem normalized_no_separator [of key] by (auto simp: key_separator_def list_all_iff)
qed

section \<open>Sequential keys\<close>

lemma padded3_value: "0 \<le> i \<Longrightarrow> foldl (\<lambda>a c. a * 10 + digit_val c) 0 (padded3 i) = nat i"
proof -
  have "foldl (\<lambda>a c. a * 10 + digit_val c) 0 (replicate k (CHR ''0'')) = 0" for k
    by (induction k) (simp_all add: digit_val_def)
  then show "0 \<le> i \<Longrightarrow> ?thesis" by (simp add: padded3_def Let_def show_nat_value)
qed

lemma padded3_inject: "0 \<le> i \<Longrightarrow> 0 \<le> j \<Longrightarrow> padded3 i = padded3 j \<longleftrightarrow> i = j"
  using padded3_value [of i] padded3_value [of j] by auto

definition keyed :: "feature list \<Rightarrow> feature list" where
  "keyed features = filter (\<lambda>f. map_of f ''key'' \<noteq> None) features"

lemma convert_sequential:
  "convert_loop ''sequential'' i features
   = map (\<lambda>(n, f). AList.update ''key'' (''FEATURE-'' @ padded3 (i + int n)) f) (enumerate 0 (keyed features))"
proof (induction features arbitrary: i)
  case (Cons f fs)
  have shift: "enumerate (Suc 0) xs = map (\<lambda>(n, f). (Suc n, f)) (enumerate 0 xs)" for xs :: "feature list"
    by (rule nth_equalityI) (simp_all add: nth_enumerate_eq)
  show ?case
    by (cases "map_of f ''key''")
      (simp_all add: Cons keyed_def to_sequential_key_def shift comp_def split_beta algebra_simps)
qed (simp add: keyed_def)

text \<open>Converting a feature list to sequential keys numbers the features that have a key, in their order and from the start index;
  the new keys are pairwise different and no other field changes.\<close>

theorem sequential_keys_distinct:
  fixes features start_index
  assumes "0 \<le> start_index"
  defines "out \<equiv> convert_feature_keys features ''sequential'' start_index"
  shows "map (\<lambda>f. map_of f ''key'') out = map (\<lambda>n. Some (''FEATURE-'' @ padded3 (start_index + int n))) [0..<length (keyed features)]
    \<and> distinct (map (\<lambda>f. map_of f ''key'') out)
    \<and> list_all2 (\<lambda>f g. \<forall>field. field \<noteq> ''key'' \<longrightarrow> map_of g field = map_of f field) (keyed features) out"
proof -
  have out: "out = map (\<lambda>(n, f). AList.update ''key'' (''FEATURE-'' @ padded3 (start_index + int n)) f) (enumerate 0 (keyed features))"
    unfolding out_def convert_feature_keys_def by (rule convert_sequential)
  have keys: "map (\<lambda>f. map_of f ''key'') out = map (\<lambda>n. Some (''FEATURE-'' @ padded3 (start_index + int n))) [0..<length (keyed features)]"
    by (rule nth_equalityI) (simp_all add: out nth_enumerate_eq update_conv')
  moreover have "distinct (map (\<lambda>n. Some (''FEATURE-'' @ padded3 (start_index + int n))) [0..<length (keyed features)])"
    using assms(1) by (auto simp: distinct_map inj_on_def padded3_inject)
  ultimately show ?thesis by (auto simp: out list_all2_conv_all_nth nth_enumerate_eq update_conv')
qed

theorem sequential_keys_distinct_witness:
  "map (\<lambda>f. map_of f ''key'') (convert_feature_keys [[(''key'', ''000_LOGIN'')], [(''title'', ''x'')], [(''key'', ''000_LOGIN'')]]
     ''sequential'' 9) = [Some ''FEATURE-009'', Some ''FEATURE-010'']"
proof -
  let ?fs = "[[(''key'', ''000_LOGIN'')], [(''title'', ''x'')], [(''key'', ''000_LOGIN'')]]"
  have "map (\<lambda>n. Some (''FEATURE-'' @ padded3 (9 + int n))) [0..<length (keyed ?fs)] = [Some ''FEATURE-009'', Some ''FEATURE-010'']"
    by code_simp
  with sequential_keys_distinct [of 9 ?fs] show ?thesis by simp
qed

end
