(* ===== verification/Plan_Comparator.thy ===== *)
theory Plan_Comparator
  imports Feature_Keys Py_Float
begin

text \<open>
  Comparison of a manual plan with a plan derived from code (\<^verbatim>\<open>comparators/plan_comparator.py\<close> of the project bundle).

  The plan classes belong to the core package; the records have the fields that the comparator reads. The text of a
  deviation type and the iteration order of Python sets are parameters.
\<close>

section \<open>Plans and deviations\<close>

record PlanStory =
  ps_key :: string
  ps_title :: string
  ps_acceptance :: "string list option"
  ps_story_points :: "int option"
  ps_value_points :: "int option"
  ps_draft :: bool
  ps_confidence :: rat

record PlanFeature =
  pf_key :: string
  pf_title :: string
  pf_stories :: "PlanStory list"
  pf_confidence :: rat

record PlanIdea =
  pi_title :: string
  pi_narrative :: string

record PlanBundle =
  pl_idea :: "PlanIdea option"
  pl_has_business :: bool
  pl_themes :: "string list"
  pl_features :: "PlanFeature list"

datatype DeviationType =
    MISSING_FEATURE | EXTRA_IMPLEMENTATION | MISMATCH | MISSING_BUSINESS_CONTEXT | MISSING_STORY | ACCEPTANCE_DRIFT

datatype DeviationSeverity = SeverityHigh | SeverityMedium | SeverityLow

record Deviation =
  dv_type :: DeviationType
  dv_severity :: DeviationSeverity
  dv_description :: string
  dv_location :: string
  dv_fix_hint :: string

record DeviationReport =
  dr_manual_plan :: string
  dr_auto_plan :: string
  dr_deviations :: "Deviation list"
  dr_summary :: "(string \<times> int) list"

definition deviation :: "DeviationType \<Rightarrow> DeviationSeverity \<Rightarrow> string \<Rightarrow> string \<Rightarrow> string \<Rightarrow> Deviation" where
  "deviation ty sev description location fix_hint =
     \<lparr>dv_type = ty, dv_severity = sev, dv_description = description, dv_location = location, dv_fix_hint = fix_hint\<rparr>"

text \<open>\<open>'...'\<close> around a text\<close>

definition squoted :: "string \<Rightarrow> string" where
  "squoted s = CHR 0x27 # s @ [CHR 0x27]"

text \<open>\<open>{key(x): x for x in xs}\<close>: a later element with the same key replaces the value and keeps the place.\<close>

definition dict_by :: "('a \<Rightarrow> string) \<Rightarrow> 'a list \<Rightarrow> (string \<times> 'a) list" where
  "dict_by key xs = foldl (\<lambda>d x. AList.update (key x) x d) [] xs"

definition points :: "int option \<Rightarrow> int" where
  "points p = (case p of None \<Rightarrow> 0 | Some n \<Rightarrow> n)"

section \<open>Sections\<close>

definition compare_ideas :: "PlanBundle \<Rightarrow> PlanBundle \<Rightarrow> Deviation list" where
  "compare_ideas manual auto_plan =
     (case (pl_idea manual, pl_idea auto_plan) of
        (None, None) \<Rightarrow> []
      | (None, Some _) \<Rightarrow>
          [deviation EXTRA_IMPLEMENTATION SeverityLow ''Auto plan has Idea section but manual plan does not'' ''idea''
             ''Consider removing auto-derived Idea or adding it to manual plan'']
      | (Some _, None) \<Rightarrow>
          [deviation MISSING_FEATURE SeverityMedium ''Manual plan has Idea section but auto plan does not'' ''idea''
             ''Add Idea section to auto-derived plan'']
      | (Some m, Some a) \<Rightarrow>
          (if pi_title m \<noteq> pi_title a
           then [deviation MISMATCH SeverityLow
                   (''Idea title differs: manual='' @ squoted (pi_title m) @ '', auto='' @ squoted (pi_title a))
                   ''idea.title'' ''Update auto plan title to match manual plan''] else [])
          @ (if pi_narrative m \<noteq> pi_narrative a
             then [deviation MISMATCH SeverityLow ''Idea narrative differs between plans'' ''idea.narrative''
                     ''Update narrative to match manual plan''] else []))"

definition compare_business :: "PlanBundle \<Rightarrow> PlanBundle \<Rightarrow> Deviation list" where
  "compare_business manual auto_plan =
     (if pl_has_business manual \<and> \<not> pl_has_business auto_plan
      then [deviation MISSING_BUSINESS_CONTEXT SeverityMedium ''Manual plan has Business context but auto plan does not''
              ''business'' ''Add business context to auto-derived plan''] else [])"

text \<open>\<open>set(xs) - set(ys)\<close> as a list without repetition\<close>

definition set_minus :: "string list \<Rightarrow> string list \<Rightarrow> string list" where
  "set_minus xs ys = remdups (filter (\<lambda>x. x \<notin> set ys) xs)"

definition compare_product :: "(string list \<Rightarrow> string list) \<Rightarrow> PlanBundle \<Rightarrow> PlanBundle \<Rightarrow> Deviation list" where
  "compare_product order manual auto_plan =
     map (\<lambda>theme. deviation MISMATCH SeverityLow
            (''Product theme '' @ squoted theme @ '' in manual plan but not in auto plan'') ''product.themes''
            (''Add theme '' @ squoted theme @ '' to auto plan''))
       (order (set_minus (pl_themes manual) (pl_themes auto_plan)))
     @ map (\<lambda>theme. deviation MISMATCH SeverityLow
            (''Product theme '' @ squoted theme @ '' in auto plan but not in manual plan'') ''product.themes''
            (''Remove theme '' @ squoted theme @ '' from auto plan or add to manual''))
       (order (set_minus (pl_themes auto_plan) (pl_themes manual)))"

section \<open>Stories\<close>

definition story_location :: "string \<Rightarrow> string \<Rightarrow> string" where
  "story_location feature_key key = ''features['' @ feature_key @ ''].stories['' @ key @ '']''"

definition missing_story :: "string \<Rightarrow> string \<times> PlanStory \<Rightarrow> Deviation" where
  "missing_story feature_key entry =
     (let (key, story) = entry
      in deviation MISSING_STORY
           (if points (ps_value_points story) \<ge> 8 \<or> \<not> ps_draft story then SeverityHigh else SeverityMedium)
           (''Story '' @ squoted key @ '' ('' @ ps_title story @ '') in manual plan but not implemented'')
           (story_location feature_key key)
           (''Implement story '' @ squoted key @ '' or update manual plan''))"

definition extra_story :: "string \<Rightarrow> string \<times> PlanStory \<Rightarrow> Deviation" where
  "extra_story feature_key entry =
     (let (key, story) = entry
      in deviation EXTRA_IMPLEMENTATION
           (if ps_confidence story \<ge> double_round (8 / 10) \<or> points (ps_value_points story) \<ge> 8
            then SeverityMedium else SeverityLow)
           (''Story '' @ squoted key @ '' ('' @ ps_title story @ '') found in code but not in manual plan'')
           (story_location feature_key key)
           (''Add story '' @ squoted key @ '' to manual plan or remove from code''))"

definition acceptance_of :: "PlanStory \<Rightarrow> string list" where
  "acceptance_of story = (case ps_acceptance story of None \<Rightarrow> [] | Some xs \<Rightarrow> xs)"

definition acceptance_drift :: "(string list \<Rightarrow> string list) \<Rightarrow> string \<Rightarrow> string \<Rightarrow> PlanStory \<Rightarrow> PlanStory \<Rightarrow> Deviation list" where
  "acceptance_drift order feature_key key manual auto_story =
     (if set (acceptance_of manual) \<noteq> set (acceptance_of auto_story) then
        (let missing = order (set_minus (acceptance_of manual) (acceptance_of auto_story));
             extra = order (set_minus (acceptance_of auto_story) (acceptance_of manual))
         in (if missing \<noteq> []
             then [deviation ACCEPTANCE_DRIFT SeverityHigh
                     (''Story '' @ squoted key @ '' missing acceptance criteria: '' @ py_join '', '' missing)
                     (story_location feature_key key @ ''.acceptance'')
                     (''Ensure all acceptance criteria are implemented: '' @ py_join '', '' missing)] else [])
            @ (if extra \<noteq> []
               then [deviation ACCEPTANCE_DRIFT SeverityMedium
                       (''Story '' @ squoted key @ '' has extra acceptance criteria in code: '' @ py_join '', '' extra)
                       (story_location feature_key key @ ''.acceptance'')
                       (''Update manual plan to include: '' @ py_join '', '' extra)] else []))
      else [])"

definition points_drift :: "string \<Rightarrow> string \<Rightarrow> PlanStory \<Rightarrow> PlanStory \<Rightarrow> Deviation list" where
  "points_drift feature_key key manual auto_story =
     (let m = points (ps_story_points manual); a = points (ps_story_points auto_story);
          mv = points (ps_value_points manual); av = points (ps_value_points auto_story)
      in (if \<bar>m - a\<bar> \<ge> 3
          then [deviation MISMATCH SeverityMedium
                  (''Story '' @ squoted key @ '' story points differ significantly: manual='' @ show_int m @ '', auto='' @ show_int a)
                  (story_location feature_key key @ ''.story_points'') ''Re-evaluate story complexity or update manual plan''] else [])
         @ (if \<bar>mv - av\<bar> \<ge> 5
            then [deviation MISMATCH SeverityMedium
                    (''Story '' @ squoted key @ '' value points differ significantly: manual='' @ show_int mv @ '', auto='' @ show_int av)
                    (story_location feature_key key @ ''.value_points'') ''Re-evaluate business value or update manual plan''] else []))"

definition compare_story :: "(string list \<Rightarrow> string list) \<Rightarrow> string \<Rightarrow> string \<Rightarrow> PlanStory \<Rightarrow> PlanStory \<Rightarrow> Deviation list" where
  "compare_story order feature_key key manual auto_story =
     (if ps_title manual \<noteq> ps_title auto_story
      then [deviation MISMATCH SeverityLow
              (''Story '' @ squoted key @ '' title differs: manual='' @ squoted (ps_title manual) @ '', auto='' @ squoted (ps_title auto_story))
              (story_location feature_key key @ ''.title'') ''Update story title in code or manual plan''] else [])
     @ acceptance_drift order feature_key key manual auto_story
     @ points_drift feature_key key manual auto_story"

text \<open>The keys of both dictionaries, in some order\<close>

definition common_keys :: "(string list \<Rightarrow> string list) \<Rightarrow> (string \<times> 'a) list \<Rightarrow> (string \<times> 'a) list \<Rightarrow> string list" where
  "common_keys order d e = order (filter (\<lambda>k. map_of e k \<noteq> None) (map fst d))"

definition compare_stories :: "(string list \<Rightarrow> string list) \<Rightarrow> PlanFeature \<Rightarrow> PlanFeature \<Rightarrow> string \<Rightarrow> Deviation list" where
  "compare_stories order manual_feature auto_feature feature_key =
     (let manual = dict_by ps_key (pf_stories manual_feature); auto_stories = dict_by ps_key (pf_stories auto_feature)
      in map (missing_story feature_key) (filter (\<lambda>(k, s). map_of auto_stories k = None) manual)
         @ map (extra_story feature_key) (filter (\<lambda>(k, s). map_of manual k = None) auto_stories)
         @ concat (map (\<lambda>k. compare_story order feature_key k (the (map_of manual k)) (the (map_of auto_stories k)))
             (common_keys order manual auto_stories)))"

section \<open>Features\<close>

definition missing_feature :: "string \<times> PlanFeature \<Rightarrow> Deviation" where
  "missing_feature entry =
     (let f = snd entry
      in deviation MISSING_FEATURE (if pf_stories f \<noteq> [] then SeverityHigh else SeverityMedium)
           (''Feature '' @ squoted (pf_key f) @ '' ('' @ pf_title f @ '') in manual plan but not implemented'')
           (''features['' @ pf_key f @ '']'')
           (''Implement feature '' @ squoted (pf_key f) @ '' or update manual plan''))"

definition extra_feature :: "string \<times> PlanFeature \<Rightarrow> Deviation" where
  "extra_feature entry =
     (let f = snd entry; n = length (pf_stories f)
      in deviation EXTRA_IMPLEMENTATION
           (if n > 3 \<or> pf_confidence f \<ge> double_round (8 / 10) then SeverityHigh
            else if n = 0 \<or> pf_confidence f < double_round (5 / 10) then SeverityLow else SeverityMedium)
           (''Feature '' @ squoted (pf_key f) @ '' ('' @ pf_title f @ '') found in code but not in manual plan'')
           (''features['' @ pf_key f @ '']'')
           (''Add feature '' @ squoted (pf_key f) @ '' to manual plan or remove from code''))"

definition compare_feature :: "(string list \<Rightarrow> string list) \<Rightarrow> PlanFeature \<Rightarrow> PlanFeature \<Rightarrow> Deviation list" where
  "compare_feature order manual auto_feature =
     (let key = pf_key manual
      in (if pf_title manual \<noteq> pf_title auto_feature
          then [deviation MISMATCH SeverityLow
                  (''Feature '' @ squoted key @ '' title differs: manual='' @ squoted (pf_title manual) @ '', auto='' @ squoted (pf_title auto_feature))
                  (''features['' @ key @ ''].title'') ''Update feature title in code or manual plan''] else [])
         @ compare_stories order manual auto_feature key)"

definition features_by_norm :: "PlanBundle \<Rightarrow> (string \<times> PlanFeature) list" where
  "features_by_norm plan = dict_by (normalize_feature_key \<circ> pf_key) (pl_features plan)"

definition compare_features :: "(string list \<Rightarrow> string list) \<Rightarrow> PlanBundle \<Rightarrow> PlanBundle \<Rightarrow> Deviation list" where
  "compare_features order manual auto_plan =
     (let m = features_by_norm manual; a = features_by_norm auto_plan
      in map missing_feature (filter (\<lambda>(k, f). map_of a k = None) m)
         @ map extra_feature (filter (\<lambda>(k, f). map_of m k = None) a)
         @ concat (map (\<lambda>k. compare_feature order (the (map_of m k)) (the (map_of a k))) (common_keys order m a)))"

section \<open>The report\<close>

definition count_type :: "(DeviationType \<Rightarrow> string) \<Rightarrow> (string \<times> int) list \<Rightarrow> Deviation \<Rightarrow> (string \<times> int) list" where
  "count_type type_value summary d =
     (let t = type_value (dv_type d)
      in AList.update t ((case map_of summary t of None \<Rightarrow> 0 | Some n \<Rightarrow> n) + 1) summary)"

definition compare ::
  "(DeviationType \<Rightarrow> string) \<Rightarrow> (string list \<Rightarrow> string list) \<Rightarrow> PlanBundle \<Rightarrow> PlanBundle \<Rightarrow> string \<Rightarrow> string \<Rightarrow> DeviationReport" where
  "compare type_value order manual_plan auto_plan manual_label auto_label =
     (let deviations = compare_ideas manual_plan auto_plan @ compare_business manual_plan auto_plan
            @ compare_product order manual_plan auto_plan @ compare_features order manual_plan auto_plan
      in \<lparr>dr_manual_plan = manual_label, dr_auto_plan = auto_label, dr_deviations = deviations,
          dr_summary = foldl (count_type type_value) [] deviations\<rparr>)"

section \<open>Agreement\<close>

definition stories_agree :: "PlanStory \<Rightarrow> PlanStory \<Rightarrow> bool" where
  "stories_agree m a \<longleftrightarrow> ps_title m = ps_title a \<and> set (acceptance_of m) = set (acceptance_of a)
     \<and> \<bar>points (ps_story_points m) - points (ps_story_points a)\<bar> < 3
     \<and> \<bar>points (ps_value_points m) - points (ps_value_points a)\<bar> < 5"

text \<open>The last element with a key, as a dictionary comprehension keeps it\<close>

definition last_with :: "('a \<Rightarrow> string) \<Rightarrow> 'a list \<Rightarrow> string \<Rightarrow> 'a option" where
  "last_with key xs k = find (\<lambda>x. key x = k) (rev xs)"

definition features_agree :: "PlanFeature \<Rightarrow> PlanFeature \<Rightarrow> bool" where
  "features_agree m a \<longleftrightarrow> pf_title m = pf_title a
     \<and> (\<forall>k. rel_option stories_agree (last_with ps_key (pf_stories m) k) (last_with ps_key (pf_stories a) k))"

definition plans_agree :: "PlanBundle \<Rightarrow> PlanBundle \<Rightarrow> bool" where
  "plans_agree m a \<longleftrightarrow> pl_idea m = pl_idea a \<and> (pl_has_business m \<longrightarrow> pl_has_business a)
     \<and> set (pl_themes m) = set (pl_themes a)
     \<and> (\<forall>k. rel_option features_agree (last_with (normalize_feature_key \<circ> pf_key) (pl_features m) k)
          (last_with (normalize_feature_key \<circ> pf_key) (pl_features a) k))"

lemma dict_by_lookup: "map_of (dict_by key xs) k = last_with key xs k"
proof -
  have "map_of (foldl (\<lambda>d x. AList.update (key x) x d) d xs) k =
      (case find (\<lambda>x. key x = k) (rev xs) of None \<Rightarrow> map_of d k | Some x \<Rightarrow> Some x)" for d
  proof (induction xs arbitrary: d)
    case (Cons x xs)
    have "find P (ys @ zs) = (case find P ys of None \<Rightarrow> find P zs | Some y \<Rightarrow> Some y)" for P and ys zs :: "'a list"
      by (induction ys) auto
    with Cons show ?case by (auto simp: update_conv' split: option.split)
  qed simp
  from this [of "[]"] show ?thesis by (auto simp: dict_by_def last_with_def split: option.split)
qed

lemma set_minus_empty: "set_minus xs ys = [] \<longleftrightarrow> set xs \<subseteq> set ys"
  by (auto simp: set_minus_def filter_empty_conv)

text \<open>Comparing two dictionaries finds nothing exactly when they have the same keys with related values.\<close>

lemma dicts_compared:
  assumes order: "\<And>xs. set (order xs) = set xs" and rel: "\<And>k m a. g k m a = [] \<longleftrightarrow> R m a"
  shows "map x (filter (\<lambda>(k, f). map_of e k = None) d) @ map y (filter (\<lambda>(k, f). map_of d k = None) e)
      @ concat (map (\<lambda>k. g k (the (map_of d k)) (the (map_of e k))) (common_keys order d e)) = []
    \<longleftrightarrow> (\<forall>k. rel_option R (map_of d k) (map_of e k))"
proof -
  have keys: "k \<in> fst ` set xs \<longleftrightarrow> map_of xs k \<noteq> None" for xs :: "(string \<times> 'a) list" and k
    by (simp add: map_of_eq_None_iff)
  have "filter (\<lambda>(k, f). map_of ys k = None) xs = [] \<longleftrightarrow> (\<forall>k \<in> fst ` set xs. map_of ys k \<noteq> None)"
    for xs ys :: "(string \<times> 'a) list"
    by (auto simp: filter_empty_conv split_beta)
  then have one_sided: "filter (\<lambda>(k, f). map_of ys k = None) xs = [] \<longleftrightarrow> (\<forall>k. map_of xs k \<noteq> None \<longrightarrow> map_of ys k \<noteq> None)"
    for xs ys :: "(string \<times> 'a) list"
    by (simp only: Ball_def keys)
  have "k \<in> set (common_keys order d e) \<longleftrightarrow> map_of d k \<noteq> None \<and> map_of e k \<noteq> None" for k
    using keys [of k d] by (simp add: common_keys_def order)
  then have common: "concat (map (\<lambda>k. g k (the (map_of d k)) (the (map_of e k))) (common_keys order d e)) = []
      \<longleftrightarrow> (\<forall>k. map_of d k \<noteq> None \<and> map_of e k \<noteq> None \<longrightarrow> R (the (map_of d k)) (the (map_of e k)))"
    by (simp only: concat_eq_Nil_conv set_map ball_simps rel) auto
  have pointwise: "rel_option R p q \<longleftrightarrow> (p \<noteq> None \<longrightarrow> q \<noteq> None) \<and> (q \<noteq> None \<longrightarrow> p \<noteq> None)
      \<and> (p \<noteq> None \<and> q \<noteq> None \<longrightarrow> R (the p) (the q))" for p q
    by (cases p; cases q) simp_all
  show ?thesis by (simp only: append_is_Nil_conv map_is_Nil_conv one_sided common pointwise all_conj_distrib)
qed

lemma compare_story_empty:
  assumes order: "\<And>xs. set (order xs) = set xs"
  shows "compare_story order fk k m a = [] \<longleftrightarrow> stories_agree m a"
proof -
  have "order xs = [] \<longleftrightarrow> xs = []" for xs using order [of xs] by (metis set_empty)
  then have "acceptance_drift order fk k m a = [] \<longleftrightarrow> set (acceptance_of m) = set (acceptance_of a)"
    by (auto simp: acceptance_drift_def Let_def set_minus_empty)
  then show ?thesis by (auto simp: compare_story_def points_drift_def stories_agree_def Let_def)
qed

lemma compare_stories_empty:
  assumes order: "\<And>xs. set (order xs) = set xs"
  shows "compare_stories order m a fk = [] \<longleftrightarrow>
    (\<forall>k. rel_option stories_agree (last_with ps_key (pf_stories m) k) (last_with ps_key (pf_stories a) k))"
  unfolding compare_stories_def Let_def dict_by_lookup [symmetric]
  by (rule dicts_compared [OF order compare_story_empty [OF order]])

lemma compare_features_empty:
  assumes order: "\<And>xs. set (order xs) = set xs"
  shows "compare_features order m a = [] \<longleftrightarrow>
    (\<forall>k. rel_option features_agree (last_with (normalize_feature_key \<circ> pf_key) (pl_features m) k)
       (last_with (normalize_feature_key \<circ> pf_key) (pl_features a) k))"
proof -
  have "compare_feature order f g = [] \<longleftrightarrow> features_agree f g" for f g
    by (simp add: compare_feature_def features_agree_def Let_def compare_stories_empty [OF order])
  then show ?thesis
    unfolding compare_features_def features_by_norm_def Let_def dict_by_lookup [symmetric]
    by (intro dicts_compared [OF order])
qed

lemma summary_counts:
  "(case map_of (foldl (count_type tv) s ds) t of None \<Rightarrow> 0 | Some n \<Rightarrow> n)
   = (case map_of s t of None \<Rightarrow> 0 | Some n \<Rightarrow> n) + int (length (filter (\<lambda>d. tv (dv_type d) = t) ds))"
  by (induction ds arbitrary: s) (auto simp: count_type_def Let_def update_conv' split: option.split)


definition demo_plan :: "string \<Rightarrow> int \<Rightarrow> PlanBundle" where
  "demo_plan key n =
     \<lparr>pl_idea = None, pl_has_business = False, pl_themes = [''auth''],
      pl_features = [\<lparr>pf_key = key, pf_title = ''Login'', pf_stories =
        [\<lparr>ps_key = ''S-1'', ps_title = ''Sign in'', ps_acceptance = Some [''works''], ps_story_points = Some n,
          ps_value_points = None, ps_draft = False, ps_confidence = 1\<rparr>], pf_confidence = 1\<rparr>]\<rparr>"


end
