(* ===== verification/Graph_Search.thy ===== *)
theory Graph_Search
  imports Prelude "HOL-Library.Monad_Syntax"
begin

text \<open>
  The graph traversals shared by the backlog graph builder and the dependency analyzer: a search with
  an explicit stack, a recursive search, cycle detection by depth-first search, and the memoised longest
  path. Each is written as the source writes it, over an adjacency function, as a partial function whose
  value \<open>None\<close> is a run that does not return; that they return is proved for the finite graphs of the
  program. A Python set is a list without regard to order; the results are sorted by the callers.
  The recursion limit of the interpreter is not modelled.
\<close>

section \<open>Traversals\<close>

text \<open>\<open>while stack: node = stack.pop() ...\<close>\<close>

partial_function (option) stack_search :: "('a \<Rightarrow> 'a list) \<Rightarrow> 'a list \<Rightarrow> 'a list \<Rightarrow> 'a list option" where
  "stack_search adj stack seen =
     (if stack = [] then Some seen
      else (let node = last stack; rest = butlast stack
            in if node \<in> set seen then stack_search adj rest seen
               else stack_search adj (rest @ adj node) (node # seen)))"

text \<open>The recursive search: the loop over the neighbours of one node, recursing into each unseen one.\<close>

partial_function (option) traverse_dfs :: "('a \<Rightarrow> 'a list) \<Rightarrow> 'a list \<Rightarrow> 'a list \<Rightarrow> 'a list option" where
  "traverse_dfs adj neighbors seen =
     (case neighbors of
        [] \<Rightarrow> Some seen
      | n # ns \<Rightarrow>
          (if n \<in> set seen then traverse_dfs adj ns seen
           else traverse_dfs adj (adj n) (n # seen) \<bind> (\<lambda>seen1. traverse_dfs adj ns seen1)))"

text \<open>Cycle detection: the visited nodes, the path from the root (whose nodes are \<open>in_stack\<close>), and the
  cycles found.\<close>

record 'a cycle_state =
  cs_visited :: "'a list"
  cs_in_stack :: "'a list"
  cs_path :: "'a list"
  cs_cycles :: "'a list list"

definition enter_node :: "'a \<Rightarrow> 'a cycle_state \<Rightarrow> 'a cycle_state" where
  "enter_node n st = st\<lparr>cs_visited := n # cs_visited st, cs_in_stack := n # cs_in_stack st,
     cs_path := cs_path st @ [n]\<rparr>"

definition leave_node :: "'a \<Rightarrow> 'a cycle_state \<Rightarrow> 'a cycle_state" where
  "leave_node n st = st\<lparr>cs_path := butlast (cs_path st), cs_in_stack := removeAll n (cs_in_stack st)\<rparr>"

text \<open>\<open>path[path.index(neighbor):] + [neighbor]\<close>\<close>

definition report_cycle :: "'a \<Rightarrow> 'a cycle_state \<Rightarrow> 'a cycle_state" where
  "report_cycle n st = st\<lparr>cs_cycles := cs_cycles st @ [dropWhile (\<lambda>x. x \<noteq> n) (cs_path st) @ [n]]\<rparr>"

partial_function (option) visit_neighbors ::
  "('a \<Rightarrow> 'a list) \<Rightarrow> 'a list \<Rightarrow> 'a cycle_state \<Rightarrow> 'a cycle_state option" where
  "visit_neighbors adj neighbors st =
     (case neighbors of
        [] \<Rightarrow> Some st
      | n # ns \<Rightarrow>
          (if n \<notin> set (cs_visited st)
             then visit_neighbors adj (adj n) (enter_node n st)
                    \<bind> (\<lambda>st1. visit_neighbors adj ns (leave_node n st1))
           else if n \<in> set (cs_in_stack st) then visit_neighbors adj ns (report_cycle n st)
           else visit_neighbors adj ns st))"

text \<open>The loop over the roots calls the same visit on each node not visited yet.\<close>

fun visit_roots :: "('a \<Rightarrow> 'a list) \<Rightarrow> 'a list \<Rightarrow> 'a cycle_state \<Rightarrow> 'a cycle_state option" where
  "visit_roots adj [] st = Some st"
| "visit_roots adj (n # ns) st =
     (if n \<notin> set (cs_visited st)
      then visit_neighbors adj (adj n) (enter_node n st) \<bind> (\<lambda>st1. visit_roots adj ns (leave_node n st1))
      else visit_roots adj ns st)"

definition detect_cycles :: "('a \<Rightarrow> 'a list) \<Rightarrow> 'a list \<Rightarrow> 'a list list option" where
  "detect_cycles adj roots =
     map_option cs_cycles
       (visit_roots adj roots \<lparr>cs_visited = [], cs_in_stack = [], cs_path = [], cs_cycles = []\<rparr>)"

text \<open>\<open>_longest_path_from\<close> for each neighbour in turn, keeping the longest tail.\<close>

partial_function (option) best_tail ::
  "('a \<Rightarrow> 'a list) \<Rightarrow> 'a list \<Rightarrow> 'a list \<Rightarrow> ('a \<times> 'a list) list \<Rightarrow> 'a list
   \<Rightarrow> ('a list \<times> ('a \<times> 'a list) list) option" where
  "best_tail adj neighbors visiting memo best =
     (case neighbors of
        [] \<Rightarrow> Some (best, memo)
      | n # ns \<Rightarrow>
          (case map_of memo n of
             Some p \<Rightarrow> Some (p, memo)
           | None \<Rightarrow>
               (if n \<in> set visiting then Some ([n], memo)
                else best_tail adj (adj n) (n # visiting) memo []
                       \<bind> (\<lambda>(tail, memo1). Some (n # tail, (n, n # tail) # memo1))))
          \<bind> (\<lambda>(candidate, memo1).
                 best_tail adj ns visiting memo1 (if length candidate > length best then candidate else best)))"

definition longest_path_from ::
  "('a \<Rightarrow> 'a list) \<Rightarrow> 'a \<Rightarrow> 'a list \<Rightarrow> ('a \<times> 'a list) list \<Rightarrow> ('a list \<times> ('a \<times> 'a list) list) option" where
  "longest_path_from adj n visiting memo =
     (case map_of memo n of
        Some p \<Rightarrow> Some (p, memo)
      | None \<Rightarrow>
          (if n \<in> set visiting then Some ([n], memo)
           else best_tail adj (adj n) (n # visiting) memo []
                  \<bind> (\<lambda>(tail, memo1). Some (n # tail, (n, n # tail) # memo1))))"

fun critical_path_loop ::
  "('a \<Rightarrow> 'a list) \<Rightarrow> 'a list \<Rightarrow> ('a \<times> 'a list) list \<Rightarrow> 'a list \<Rightarrow> 'a list option" where
  "critical_path_loop adj [] memo longest = Some longest"
| "critical_path_loop adj (n # ns) memo longest =
     longest_path_from adj n [] memo \<bind> (\<lambda>(candidate, memo1).
       critical_path_loop adj ns memo1 (if length candidate > length longest then candidate else longest))"

declare stack_search.simps [code] traverse_dfs.simps [code] visit_neighbors.simps [code] best_tail.simps [code]

lemma best_tail_Nil: "best_tail adj [] visiting memo best = Some (best, memo)"
  by (simp add: best_tail.simps)

lemma best_tail_Cons:
  "best_tail adj (n # ns) visiting memo best =
     longest_path_from adj n visiting memo \<bind> (\<lambda>(candidate, memo1).
       best_tail adj ns visiting memo1 (if length candidate > length best then candidate else best))"
  by (subst best_tail.simps) (simp add: longest_path_from_def)

lemma stack_search_Nil: "stack_search adj [] seen = Some seen"
  by (simp add: stack_search.simps)

lemma stack_search_snoc:
  "stack_search adj (rest @ [n]) seen =
     (if n \<in> set seen then stack_search adj rest seen else stack_search adj (rest @ adj n) (n # seen))"
  by (subst stack_search.simps) simp

lemma traverse_dfs_Nil: "traverse_dfs adj [] seen = Some seen"
  by (simp add: traverse_dfs.simps)

lemma traverse_dfs_Cons:
  "traverse_dfs adj (n # ns) seen =
     (if n \<in> set seen then traverse_dfs adj ns seen
      else traverse_dfs adj (adj n) (n # seen) \<bind> traverse_dfs adj ns)"
  by (subst traverse_dfs.simps) simp

lemma visit_Nil: "visit_neighbors adj [] st = Some st"
  by (simp add: visit_neighbors.simps)

lemma visit_Cons:
  "visit_neighbors adj (n # ns) st =
     (if n \<notin> set (cs_visited st)
        then visit_neighbors adj (adj n) (enter_node n st) \<bind> (\<lambda>st1. visit_neighbors adj ns (leave_node n st1))
      else if n \<in> set (cs_in_stack st) then visit_neighbors adj ns (report_cycle n st)
      else visit_neighbors adj ns st)"
  by (subst visit_neighbors.simps) simp

lemmas search_eqs = stack_search_Nil stack_search_snoc traverse_dfs_Nil traverse_dfs_Cons visit_Nil visit_Cons

section \<open>Finite graphs\<close>

definition edges_of :: "('a \<Rightarrow> 'a list) \<Rightarrow> ('a \<times> 'a) set" where
  "edges_of adj = {(u, v). v \<in> set (adj u)}"

locale finite_graph =
  fixes adj :: "'a \<Rightarrow> 'a list" and nodes :: "'a set"
  assumes finite_nodes: "finite nodes"
    and closed: "n \<in> nodes \<Longrightarrow> set (adj n) \<subseteq> nodes"
begin

lemma measure_step:
  assumes "n \<in> nodes" and "n \<notin> S"
  shows "card (nodes - insert n S) < card (nodes - S)"
  using assms finite_nodes by (intro psubset_card_mono) auto

lemma reach_closed: "(u, v) \<in> (edges_of adj)\<^sup>* \<Longrightarrow> (\<And>n. n \<in> S \<Longrightarrow> set (adj n) \<subseteq> S) \<Longrightarrow> u \<in> S \<Longrightarrow> v \<in> S"
  by (induction rule: rtrancl_induct) (auto simp: edges_of_def)

lemma reach_step: "(edges_of adj)\<^sup>* `` {n} = insert n ((edges_of adj)\<^sup>* `` set (adj n))"
proof (intro equalityI subsetI)
  fix v assume "v \<in> (edges_of adj)\<^sup>* `` {n}"
  then have "(n, v) \<in> (edges_of adj)\<^sup>*" by simp
  then show "v \<in> insert n ((edges_of adj)\<^sup>* `` set (adj n))"
    by (cases rule: converse_rtranclE) (auto simp: edges_of_def)
next
  fix v assume "v \<in> insert n ((edges_of adj)\<^sup>* `` set (adj n))"
  then show "v \<in> (edges_of adj)\<^sup>* `` {n}"
    by (auto simp: edges_of_def intro: converse_rtrancl_into_rtrancl)
qed

lemma reach_within: "u \<in> nodes \<Longrightarrow> (u, v) \<in> (edges_of adj)\<^sup>* \<Longrightarrow> v \<in> nodes"
  using reach_closed closed by blast

text \<open>The stack search returns the nodes it has seen and those reachable from the stack.\<close>

lemma stack_search_result:
  assumes "set stack \<subseteq> nodes" and "distinct seen"
    and "\<And>m. m \<in> set seen \<Longrightarrow> set (adj m) \<subseteq> set seen \<union> set stack"
  shows "\<exists>result. stack_search adj stack seen = Some result \<and> distinct result
    \<and> set result = set seen \<union> (edges_of adj)\<^sup>* `` set stack"
  using assms
proof (induction "(card (nodes - set seen), length stack)" arbitrary: seen stack rule: less_induct)
  case less
  show ?case
  proof (cases stack rule: rev_cases)
    case Nil
    with less.prems show ?thesis by (simp add: stack_search_Nil)
  next
    case (snoc rest n)
    show ?thesis
    proof (cases "n \<in> set seen")
      case True
      have "\<exists>result. stack_search adj rest seen = Some result \<and> distinct result
          \<and> set result = set seen \<union> (edges_of adj)\<^sup>* `` set rest"
        using less.prems True by (intro less.hyps) (auto simp: snoc)
      moreover have "set seen \<union> (edges_of adj)\<^sup>* `` set rest = set seen \<union> (edges_of adj)\<^sup>* `` set stack"
      proof -
        let ?S = "set seen \<union> (edges_of adj)\<^sup>* `` set rest"
        have "set (adj m) \<subseteq> ?S" if "m \<in> ?S" for m
          using that less.prems(3) True
          by (auto simp: snoc edges_of_def intro: rtrancl_into_rtrancl)
        then have "(edges_of adj)\<^sup>* `` {n} \<subseteq> ?S" using True reach_closed [of n _ ?S] by blast
        then show ?thesis by (auto simp: snoc)
      qed
      ultimately show ?thesis using True by (simp add: snoc stack_search_snoc)
    next
      case False
      have "n \<in> nodes" using less.prems(1) snoc by simp
      then have "\<exists>result. stack_search adj (rest @ adj n) (n # seen) = Some result \<and> distinct result
          \<and> set result = set (n # seen) \<union> (edges_of adj)\<^sup>* `` set (rest @ adj n)"
        using less.prems False closed measure_step
        by (intro less.hyps) (auto simp: snoc)
      moreover have "set (n # seen) \<union> (edges_of adj)\<^sup>* `` set (rest @ adj n)
          = set seen \<union> (edges_of adj)\<^sup>* `` set stack"
        using reach_step [of n] by (auto simp: snoc)
      ultimately show ?thesis using False by (simp add: snoc stack_search_snoc)
    qed
  qed
qed

text \<open>The recursive search: it returns, keeps what it has seen, adds only nodes reachable from the
  neighbours, and every node it adds has all its neighbours among the seen ones.\<close>

lemma traverse_dfs_result:
  assumes "set ns \<subseteq> nodes" and "distinct seen"
  shows "\<exists>result. traverse_dfs adj ns seen = Some result \<and> distinct result
    \<and> set seen \<union> set ns \<subseteq> set result
    \<and> set result \<subseteq> set seen \<union> (edges_of adj)\<^sup>* `` set ns
    \<and> (\<forall>m \<in> set result - set seen. set (adj m) \<subseteq> set result)"
  using assms
proof (induction "(card (nodes - set seen), length ns)" arbitrary: seen ns rule: less_induct)
  case less
  show ?case
  proof (cases ns)
    case Nil
    with less.prems show ?thesis by (simp add: traverse_dfs_Nil)
  next
    case (Cons n rest)
    show ?thesis
    proof (cases "n \<in> set seen")
      case True
      have "\<exists>result. traverse_dfs adj rest seen = Some result \<and> distinct result
        \<and> set seen \<union> set rest \<subseteq> set result \<and> set result \<subseteq> set seen \<union> (edges_of adj)\<^sup>* `` set rest
        \<and> (\<forall>m \<in> set result - set seen. set (adj m) \<subseteq> set result)"
        using less.prems by (intro less.hyps) (auto simp: Cons)
      with True show ?thesis by (simp add: Cons traverse_dfs_Cons) blast
    next
      case False
      have n: "n \<in> nodes" using less.prems(1) Cons by simp
      then have "\<exists>r. traverse_dfs adj (adj n) (n # seen) = Some r \<and> distinct r
        \<and> set (n # seen) \<union> set (adj n) \<subseteq> set r \<and> set r \<subseteq> set (n # seen) \<union> (edges_of adj)\<^sup>* `` set (adj n)
        \<and> (\<forall>m \<in> set r - set (n # seen). set (adj m) \<subseteq> set r)"
        using less.prems False closed measure_step by (intro less.hyps) (auto simp: Cons)
      then obtain r where r: "traverse_dfs adj (adj n) (n # seen) = Some r" "distinct r"
        "set (n # seen) \<union> set (adj n) \<subseteq> set r" "set r \<subseteq> set (n # seen) \<union> (edges_of adj)\<^sup>* `` set (adj n)"
        "\<forall>m \<in> set r - set (n # seen). set (adj m) \<subseteq> set r" by blast
      have "card (nodes - set r) \<le> card (nodes - insert n (set seen))"
        using r(3) finite_nodes by (intro card_mono) auto
      with measure_step [OF n False] have lt: "card (nodes - set r) < card (nodes - set seen)" by simp
      have "\<exists>q. traverse_dfs adj rest r = Some q \<and> distinct q
        \<and> set r \<union> set rest \<subseteq> set q \<and> set q \<subseteq> set r \<union> (edges_of adj)\<^sup>* `` set rest
        \<and> (\<forall>m \<in> set q - set r. set (adj m) \<subseteq> set q)"
        using less.prems lt r(2) by (intro less.hyps) (auto simp: Cons)
      then obtain q where q: "traverse_dfs adj rest r = Some q" "distinct q"
        "set r \<union> set rest \<subseteq> set q" "set q \<subseteq> set r \<union> (edges_of adj)\<^sup>* `` set rest"
        "\<forall>m \<in> set q - set r. set (adj m) \<subseteq> set q" by blast
      have "set q \<subseteq> set seen \<union> (edges_of adj)\<^sup>* `` set ns"
        using q(4) r(4) reach_step [of n] by (auto simp: Cons)
      moreover have "\<forall>m \<in> set q - set seen. set (adj m) \<subseteq> set q"
      proof
        fix m assume m: "m \<in> set q - set seen"
        show "set (adj m) \<subseteq> set q"
        proof (cases "m \<in> set r")
          case True
          then have "set (adj m) \<subseteq> set r" using m r(3,5) by (cases "m = n") auto
          with q(3) show ?thesis by blast
        next
          case False
          with m q(5) show ?thesis by blast
        qed
      qed
      moreover have "set seen \<union> set ns \<subseteq> set q" using q(3) r(3) by (auto simp: Cons)
      ultimately show ?thesis using r(1) q(1,2) False by (auto simp: Cons traverse_dfs_Cons)
    qed
  qed
qed

text \<open>Started with nothing seen, it returns exactly the reachable nodes.\<close>

lemma traverse_dfs_reach:
  assumes "set ns \<subseteq> nodes"
  shows "\<exists>result. traverse_dfs adj ns [] = Some result \<and> distinct result
    \<and> set result = (edges_of adj)\<^sup>* `` set ns"
proof -
  obtain r where r: "traverse_dfs adj ns [] = Some r" "distinct r" "set ns \<subseteq> set r"
    "set r \<subseteq> (edges_of adj)\<^sup>* `` set ns" "\<forall>m \<in> set r. set (adj m) \<subseteq> set r"
    using traverse_dfs_result [OF assms, of "[]"] by auto
  have "(edges_of adj)\<^sup>* `` set ns \<subseteq> set r" using r(3,5) reach_closed [of _ _ "set r"] by blast
  with r show ?thesis by blast
qed

lemma stack_search_reach:
  assumes "set stack \<subseteq> nodes"
  shows "\<exists>result. stack_search adj stack [] = Some result \<and> distinct result
    \<and> set result = (edges_of adj)\<^sup>* `` set stack"
  using stack_search_result [OF assms, of "[]"] by simp

end

section \<open>Cycle detection\<close>

definition is_cycle :: "('a \<Rightarrow> 'a list) \<Rightarrow> 'a list \<Rightarrow> bool" where
  "is_cycle adj c =
     (2 \<le> length c \<and> hd c = last c \<and> distinct (butlast c) \<and> successively (\<lambda>u v. v \<in> set (adj u)) c)"

text \<open>A list in which every edge out of a node leads to a later node.\<close>

inductive topological :: "('a \<Rightarrow> 'a list) \<Rightarrow> 'a list \<Rightarrow> bool" for adj where
  topo_Nil: "topological adj []"
| topo_Cons: "topological adj L \<Longrightarrow> n \<notin> set L \<Longrightarrow> set (adj n) \<subseteq> set L \<Longrightarrow> topological adj (n # L)"

lemma topological_closed:
  "topological adj L \<Longrightarrow> u \<in> set L \<Longrightarrow> set (adj u) \<subseteq> set L"
  by (induction rule: topological.induct) auto

lemma topological_reach:
  assumes "topological adj L" and "u \<in> set L" and "(u, v) \<in> (edges_of adj)\<^sup>*"
  shows "v \<in> set L"
  using assms(3,2) topological_closed [OF assms(1)]
  by (induction rule: rtrancl_induct) (auto simp: edges_of_def)

lemma topological_acyclic:
  "topological adj L \<Longrightarrow> u \<in> set L \<Longrightarrow> (u, v) \<in> (edges_of adj)\<^sup>+ \<Longrightarrow> u \<noteq> v"
proof (induction rule: topological.induct)
  case (topo_Cons L n)
  show ?case
  proof (cases "u = n")
    case True
    from tranclD [OF topo_Cons.prems(2)] obtain w where w: "w \<in> set (adj u)" "(w, v) \<in> (edges_of adj)\<^sup>*"
      by (auto simp: edges_of_def)
    then have "v \<in> set L" using True topo_Cons.hyps topological_reach [of adj L w v] by blast
    with True topo_Cons.hyps(2) show ?thesis by auto
  next
    case False
    with topo_Cons show ?thesis by simp
  qed
qed simp

lemma cycle_reach:
  assumes "is_cycle adj c"
  shows "(hd c, hd c) \<in> (edges_of adj)\<^sup>+"
proof -
  have walk: "successively (\<lambda>u v. v \<in> set (adj u)) xs \<Longrightarrow> 2 \<le> length xs \<Longrightarrow> (hd xs, last xs) \<in> (edges_of adj)\<^sup>+" for xs
  proof (induction xs)
    case (Cons x xs)
    then obtain y ys where xs: "xs = y # ys" by (cases xs) auto
    with Cons.prems have e: "(x, y) \<in> edges_of adj" by (simp add: edges_of_def)
    show ?case
    proof (cases ys)
      case Nil
      with e xs show ?thesis by auto
    next
      case (Cons z zs)
      with Cons.IH Cons.prems xs have "(y, last xs) \<in> (edges_of adj)\<^sup>+" by simp
      with e show ?thesis by (simp add: xs trancl_into_trancl2)
    qed
  qed simp
  from assms walk [of c] show ?thesis by (simp add: is_cycle_def)
qed

definition cycle_inv :: "('a \<Rightarrow> 'a list) \<Rightarrow> 'a set \<Rightarrow> 'a cycle_state \<Rightarrow> bool" where
  "cycle_inv adj nodes st =
     (cs_in_stack st = rev (cs_path st) \<and> distinct (cs_path st) \<and> set (cs_path st) \<subseteq> set (cs_visited st)
      \<and> set (cs_visited st) \<subseteq> nodes \<and> successively (\<lambda>u v. v \<in> set (adj u)) (cs_path st)
      \<and> (\<forall>c \<in> set (cs_cycles st). is_cycle adj c \<and> set c \<subseteq> nodes)
      \<and> (cs_cycles st = [] \<longrightarrow>
           (\<exists>L. topological adj L \<and> set L = set (cs_visited st) - set (cs_path st))))"

text \<open>What one loop over neighbours achieves.\<close>

definition visit_post :: "'a list \<Rightarrow> 'a cycle_state \<Rightarrow> 'a cycle_state \<Rightarrow> bool" where
  "visit_post ns st st' =
     (cs_path st' = cs_path st \<and> set (cs_visited st) \<union> set ns \<subseteq> set (cs_visited st')
      \<and> (cs_cycles st \<noteq> [] \<longrightarrow> cs_cycles st' \<noteq> [])
      \<and> (cs_cycles st' = [] \<longrightarrow> set ns \<inter> set (cs_path st) = {}))"

lemma enter_inv:
  assumes "cycle_inv adj nodes st" and "n \<in> nodes" and "n \<notin> set (cs_visited st)"
    and "cs_path st \<noteq> [] \<Longrightarrow> n \<in> set (adj (last (cs_path st)))"
  shows "cycle_inv adj nodes (enter_node n st)"
proof -
  have "set (cs_visited (enter_node n st)) - set (cs_path (enter_node n st)) = set (cs_visited st) - set (cs_path st)"
    using assms(3) by (auto simp: enter_node_def)
  moreover have "n \<notin> set (cs_path st)" using assms(1,3) by (auto simp: cycle_inv_def)
  ultimately show ?thesis
    using assms by (auto simp: cycle_inv_def enter_node_def successively_append_iff)
qed

lemma leave_inv:
  assumes inv: "cycle_inv adj nodes st1" and path: "cs_path st1 = p @ [n]"
    and all: "set (adj n) \<subseteq> set (cs_visited st1)"
    and fin: "cs_cycles st1 = [] \<Longrightarrow> set (adj n) \<inter> set (p @ [n]) = {}"
  shows "cycle_inv adj nodes (leave_node n st1)" and "cs_path (leave_node n st1) = p"
proof -
  have np: "n \<notin> set p" "distinct p" using inv path by (auto simp: cycle_inv_def)
  show pp: "cs_path (leave_node n st1) = p" by (simp add: leave_node_def path)
  have stk: "cs_in_stack (leave_node n st1) = rev p"
    using inv path np by (simp add: cycle_inv_def leave_node_def removeAll_id)
  have topo: "\<exists>L. topological adj L \<and> set L = set (cs_visited st1) - set p" if c: "cs_cycles st1 = []"
  proof -
    obtain L where L: "topological adj L" "set L = set (cs_visited st1) - set (p @ [n])"
      using inv c path by (auto simp: cycle_inv_def)
    have "topological adj (n # L)" using L all fin [OF c] by (intro topo_Cons) auto
    moreover have "set (n # L) = set (cs_visited st1) - set p"
      using L(2) np inv path by (auto simp: cycle_inv_def)
    ultimately show ?thesis by blast
  qed
  show "cycle_inv adj nodes (leave_node n st1)"
    using inv np stk topo path unfolding cycle_inv_def pp
    by (auto simp: leave_node_def successively_append_iff)
qed

lemma report_inv:
  assumes inv: "cycle_inv adj nodes st" and "n \<in> set (cs_path st)" and "n \<in> set (adj (last (cs_path st)))"
  shows "cycle_inv adj nodes (report_cycle n st)"
proof -
  obtain ys zs where p: "cs_path st = ys @ n # zs" "n \<notin> set ys"
    using assms(2) by (meson split_list_first)
  have d: "dropWhile (\<lambda>x. x \<noteq> n) (cs_path st) = n # zs"
    using p by (simp add: dropWhile_append)
  have "is_cycle adj (n # zs @ [n])"
    using inv assms(3) p
    by (auto simp: is_cycle_def cycle_inv_def successively_append_iff butlast_append split: if_splits)
      (auto simp: successively_Cons successively_append_iff)
  moreover have "set (n # zs @ [n]) \<subseteq> nodes" using inv p by (auto simp: cycle_inv_def)
  ultimately show ?thesis using inv by (auto simp: cycle_inv_def report_cycle_def d)
qed

context finite_graph
begin

lemma visit_result:
  assumes "cycle_inv adj nodes st" and "set ns \<subseteq> nodes" and "cs_path st \<noteq> []"
    and "set ns \<subseteq> set (adj (last (cs_path st)))"
  shows "\<exists>st'. visit_neighbors adj ns st = Some st' \<and> cycle_inv adj nodes st' \<and> visit_post ns st st'"
  using assms
proof (induction "(card (nodes - set (cs_visited st)), length ns)" arbitrary: st ns rule: less_induct)
  case less
  show ?case
  proof (cases ns)
    case Nil
    with less.prems show ?thesis by (simp add: visit_Nil visit_post_def)
  next
    case (Cons n rest)
    have n: "n \<in> nodes" "n \<in> set (adj (last (cs_path st)))" using less.prems Cons by auto
    show ?thesis
    proof (cases "n \<in> set (cs_visited st)")
      case False
      let ?e = "enter_node n st"
      have e: "cycle_inv adj nodes ?e" using less.prems(1) n False by (intro enter_inv) auto
      have lt: "card (nodes - set (cs_visited ?e)) < card (nodes - set (cs_visited st))"
        using measure_step [OF n(1) False] by (simp add: enter_node_def)
      have "\<exists>st1. visit_neighbors adj (adj n) ?e = Some st1 \<and> cycle_inv adj nodes st1 \<and> visit_post (adj n) ?e st1"
        using e lt closed [OF n(1)] by (intro less.hyps) (auto simp: enter_node_def)
      then obtain st1 where s1: "visit_neighbors adj (adj n) ?e = Some st1" "cycle_inv adj nodes st1"
        "visit_post (adj n) ?e st1" by blast
      let ?l = "leave_node n st1"
      have p1: "cs_path st1 = cs_path st @ [n]" using s1(3) by (simp add: visit_post_def enter_node_def)
      have l: "cycle_inv adj nodes ?l" "cs_path ?l = cs_path st"
        using s1 by (auto intro!: leave_inv [OF s1(2) p1] simp: visit_post_def enter_node_def)
      have v1: "insert n (set (cs_visited st)) \<subseteq> set (cs_visited ?l)"
        using s1(3) by (auto simp: visit_post_def enter_node_def leave_node_def)
      have "card (nodes - set (cs_visited ?l)) \<le> card (nodes - insert n (set (cs_visited st)))"
        using v1 finite_nodes by (intro card_mono) auto
      with measure_step [OF n(1) False] have lt2: "card (nodes - set (cs_visited ?l)) < card (nodes - set (cs_visited st))"
        by simp
      have "\<exists>st2. visit_neighbors adj rest ?l = Some st2 \<and> cycle_inv adj nodes st2 \<and> visit_post rest ?l st2"
        using l lt2 less.prems Cons by (intro less.hyps) auto
      then obtain st2 where s2: "visit_neighbors adj rest ?l = Some st2" "cycle_inv adj nodes st2" "visit_post rest ?l st2"
        by blast
      have "n \<notin> set (cs_path st)" using less.prems(1) False by (auto simp: cycle_inv_def)
      moreover have "cs_cycles ?e = cs_cycles st" "cs_cycles ?l = cs_cycles st1"
        by (simp_all add: enter_node_def leave_node_def)
      ultimately have "visit_post ns st st2"
        using s1(3) s2(3) v1 l(2) unfolding visit_post_def Cons by auto
      with s1(1) s2 False show ?thesis by (simp add: Cons visit_Cons)
    next
      case True
      have stk: "set (cs_in_stack st) = set (cs_path st)" using less.prems(1) by (simp add: cycle_inv_def)
      let ?s = "if n \<in> set (cs_path st) then report_cycle n st else st"
      have s: "cycle_inv adj nodes ?s" using less.prems(1) n(2) by (auto intro: report_inv)
      have f: "cs_path ?s = cs_path st" "cs_visited ?s = cs_visited st" by (simp_all add: report_cycle_def)
      have "\<exists>st'. visit_neighbors adj rest ?s = Some st' \<and> cycle_inv adj nodes st' \<and> visit_post rest ?s st'"
        using s f less.prems Cons by (intro less.hyps) auto
      then obtain st' where s': "visit_neighbors adj rest ?s = Some st'" "cycle_inv adj nodes st'" "visit_post rest ?s st'"
        by blast
      have "visit_post ns st st'"
        using s'(3) True f unfolding visit_post_def Cons by (auto simp: report_cycle_def split: if_splits)
      with s'(1,2) True stk show ?thesis by (auto simp: Cons visit_Cons split: if_splits)
    qed
  qed
qed

lemma visit_roots_result:
  assumes "cycle_inv adj nodes st" and "cs_path st = []" and "set ns \<subseteq> nodes"
  shows "\<exists>st'. visit_roots adj ns st = Some st' \<and> cycle_inv adj nodes st' \<and> cs_path st' = []
    \<and> set (cs_visited st) \<union> set ns \<subseteq> set (cs_visited st')"
  using assms
proof (induction ns arbitrary: st)
  case (Cons n ns)
  show ?case
  proof (cases "n \<in> set (cs_visited st)")
    case True
    from Cons.IH [OF Cons.prems(1,2)] Cons.prems(3) obtain st' where "visit_roots adj ns st = Some st'"
      "cycle_inv adj nodes st'" "cs_path st' = []" "set (cs_visited st) \<union> set ns \<subseteq> set (cs_visited st')" by auto
    with True show ?thesis by auto
  next
    case False
    have e: "cycle_inv adj nodes (enter_node n st)" using Cons.prems False by (intro enter_inv) auto
    have pe: "cs_path (enter_node n st) = [n]" using Cons.prems(2) by (simp add: enter_node_def)
    have "set (adj n) \<subseteq> nodes" using closed [of n] Cons.prems(3) by simp
    from visit_result [OF e this] pe obtain st1 where s1: "visit_neighbors adj (adj n) (enter_node n st) = Some st1"
      "cycle_inv adj nodes st1" "visit_post (adj n) (enter_node n st) st1" by auto
    have p1: "cs_path st1 = [] @ [n]" using s1(3) pe by (simp add: visit_post_def)
    have l: "cycle_inv adj nodes (leave_node n st1)" "cs_path (leave_node n st1) = []"
      using s1(3) pe by (auto intro!: leave_inv [OF s1(2) p1] simp: visit_post_def)
    have v: "insert n (set (cs_visited st)) \<subseteq> set (cs_visited (leave_node n st1))"
      using s1(3) by (auto simp: visit_post_def enter_node_def leave_node_def)
    from Cons.IH [OF l] Cons.prems(3) obtain st' where "visit_roots adj ns (leave_node n st1) = Some st'"
      "cycle_inv adj nodes st'" "cs_path st' = []" "set (cs_visited (leave_node n st1)) \<union> set ns \<subseteq> set (cs_visited st')"
      by auto
    with s1(1) False v show ?thesis by auto
  qed
qed simp

lemma detect_cycles_result:
  assumes "set roots \<subseteq> nodes"
  shows "\<exists>cs. detect_cycles adj roots = Some cs \<and> (\<forall>c \<in> set cs. is_cycle adj c \<and> set c \<subseteq> nodes)
    \<and> (cs = [] \<longrightarrow> (\<forall>r \<in> set roots. \<forall>v. (r, v) \<in> (edges_of adj)\<^sup>* \<longrightarrow> (v, v) \<notin> (edges_of adj)\<^sup>+))"
proof -
  let ?st = "\<lparr>cs_visited = [], cs_in_stack = [], cs_path = [], cs_cycles = []\<rparr>"
  have "cycle_inv adj nodes ?st" by (auto simp: cycle_inv_def intro: topo_Nil exI [of _ "[]"])
  from visit_roots_result [OF this _ assms] obtain st where st: "visit_roots adj roots ?st = Some st"
    "cycle_inv adj nodes st" "cs_path st = []" "set roots \<subseteq> set (cs_visited st)" by auto
  have "(v, v) \<notin> (edges_of adj)\<^sup>+" if c: "cs_cycles st = []" and r: "r \<in> set roots" "(r, v) \<in> (edges_of adj)\<^sup>*" for r v
  proof -
    obtain L where L: "topological adj L" "set L = set (cs_visited st)"
      using st(2,3) c by (auto simp: cycle_inv_def)
    have "v \<in> set L" using topological_reach [OF L(1) _ r(2)] r(1) st(4) L(2) by auto
    then show ?thesis using topological_acyclic [OF L(1)] by blast
  qed
  moreover have "\<forall>c \<in> set (cs_cycles st). is_cycle adj c \<and> set c \<subseteq> nodes"
    using st(2) by (simp add: cycle_inv_def)
  ultimately show ?thesis unfolding detect_cycles_def using st(1) by auto
qed

lemma reach_graph: "set roots \<subseteq> nodes \<Longrightarrow> finite_graph adj ((edges_of adj)\<^sup>* `` set roots)"
proof
  assume "set roots \<subseteq> nodes"
  then have "(edges_of adj)\<^sup>* `` set roots \<subseteq> nodes" using reach_within by blast
  then show "finite ((edges_of adj)\<^sup>* `` set roots)" using finite_nodes finite_subset by blast
next
  fix n assume "n \<in> (edges_of adj)\<^sup>* `` set roots"
  then show "set (adj n) \<subseteq> (edges_of adj)\<^sup>* `` set roots"
    by (auto simp: edges_of_def intro: rtrancl_into_rtrancl)
qed

text \<open>Cycle detection is exact on the part of the graph reachable from the roots.\<close>

lemma detect_cycles_exact:
  assumes "set roots \<subseteq> nodes"
  shows "\<exists>cs. detect_cycles adj roots = Some cs \<and> (\<forall>c \<in> set cs. is_cycle adj c)
    \<and> (cs = [] \<longleftrightarrow> (\<forall>r \<in> set roots. \<forall>v. (r, v) \<in> (edges_of adj)\<^sup>* \<longrightarrow> (v, v) \<notin> (edges_of adj)\<^sup>+))"
proof -
  let ?R = "(edges_of adj)\<^sup>* `` set roots"
  have "set roots \<subseteq> ?R" by blast
  from finite_graph.detect_cycles_result [OF reach_graph [OF assms] this] obtain cs where
    cs: "detect_cycles adj roots = Some cs" "\<forall>c \<in> set cs. is_cycle adj c \<and> set c \<subseteq> ?R"
    "cs = [] \<longrightarrow> (\<forall>r \<in> set roots. \<forall>v. (r, v) \<in> (edges_of adj)\<^sup>* \<longrightarrow> (v, v) \<notin> (edges_of adj)\<^sup>+)" by blast
  have "cs = []" if a: "\<forall>r \<in> set roots. \<forall>v. (r, v) \<in> (edges_of adj)\<^sup>* \<longrightarrow> (v, v) \<notin> (edges_of adj)\<^sup>+"
  proof (rule ccontr)
    assume "cs \<noteq> []"
    then have c: "is_cycle adj (hd cs)" "set (hd cs) \<subseteq> ?R" using cs(2) by (cases cs; simp)+
    have "hd (hd cs) \<in> ?R" using c by (cases "hd cs") (auto simp: is_cycle_def)
    with cycle_reach [OF c(1)] a show False by blast
  qed
  with cs show ?thesis by blast
qed

text \<open>The longest-path recursion returns on every finite graph.\<close>

lemma best_tail_returns:
  assumes "set ns \<subseteq> nodes"
  shows "\<exists>r. best_tail adj ns visiting memo best = Some r"
  using assms
proof (induction "(card (nodes - set visiting), length ns)" arbitrary: visiting ns memo best rule: less_induct)
  case less
  show ?case
  proof (cases ns)
    case (Cons n rest)
    have n: "n \<in> nodes" using less.prems Cons by simp
    have "\<exists>r. longest_path_from adj n visiting memo = Some r"
    proof (cases "map_of memo n = None \<and> n \<notin> set visiting")
      case True
      then have "\<exists>r. best_tail adj (adj n) (n # visiting) memo [] = Some r"
        using closed [OF n] measure_step [OF n, of "set visiting"] by (intro less.hyps) auto
      with True show ?thesis by (auto simp: longest_path_from_def)
    qed (auto simp: longest_path_from_def split: option.splits)
    then obtain c m where "longest_path_from adj n visiting memo = Some (c, m)" by auto
    moreover have "\<exists>r. best_tail adj rest visiting m b = Some r" for b
      using less.prems by (intro less.hyps) (auto simp: Cons)
    ultimately show ?thesis by (simp add: Cons best_tail_Cons)
  qed (simp add: best_tail_Nil)
qed

lemma critical_path_returns:
  "set ns \<subseteq> nodes \<Longrightarrow> \<exists>p. critical_path_loop adj ns memo longest = Some p"
proof (induction ns arbitrary: memo longest)
  case (Cons n ns)
  have n: "n \<in> nodes" using Cons.prems by simp
  obtain tail m where t: "best_tail adj (adj n) [n] memo [] = Some (tail, m)"
    using best_tail_returns [OF closed [OF n], of "[n]" memo "[]"] by auto
  have "\<exists>r. longest_path_from adj n [] memo = Some r"
    by (cases "map_of memo n") (simp_all add: longest_path_from_def t)
  with Cons show ?case by auto
qed simp

end

section \<open>Longest paths\<close>

definition path_from :: "('a \<Rightarrow> 'a list) \<Rightarrow> 'a \<Rightarrow> 'a list \<Rightarrow> bool" where
  "path_from adj n p = (p \<noteq> [] \<and> hd p = n \<and> successively (\<lambda>u v. v \<in> set (adj u)) p)"

definition longest_from :: "('a \<Rightarrow> 'a list) \<Rightarrow> 'a \<Rightarrow> 'a list \<Rightarrow> bool" where
  "longest_from adj n p = (path_from adj n p \<and> (\<forall>q. path_from adj n q \<longrightarrow> length q \<le> length p))"

definition memo_longest :: "('a \<Rightarrow> 'a list) \<Rightarrow> ('a \<times> 'a list) list \<Rightarrow> bool" where
  "memo_longest adj memo = (\<forall>n p. map_of memo n = Some p \<longrightarrow> longest_from adj n p)"

lemma path_from_cases:
  "path_from adj n q \<Longrightarrow> q = [n] \<or> (\<exists>m r. q = n # r \<and> m \<in> set (adj n) \<and> path_from adj m r)"
  by (cases q; cases "tl q") (auto simp: path_from_def)

lemma longest_from_step:
  assumes "\<And>m q. m \<in> set (adj n) \<Longrightarrow> path_from adj m q \<Longrightarrow> length q \<le> length b"
    and "b = [] \<or> (\<exists>m \<in> set (adj n). path_from adj m b)"
  shows "longest_from adj n (n # b)"
proof -
  have "path_from adj n (n # b)"
    using assms(2) by (cases b) (auto simp: path_from_def)
  moreover have "length q \<le> length (n # b)" if "path_from adj n q" for q
    using path_from_cases [OF that] assms(1) by fastforce
  ultimately show ?thesis by (simp add: longest_from_def)
qed

locale dag = finite_graph +
  assumes acyclic: "n \<in> nodes \<Longrightarrow> (n, n) \<notin> (edges_of adj)\<^sup>+"
begin

lemma wf_edges: "wf ((edges_of adj)\<inverse> \<inter> nodes \<times> nodes)"
proof -
  let ?E = "edges_of adj \<inter> nodes \<times> nodes"
  have "(x, x) \<notin> ?E\<^sup>+" for x
  proof
    assume x: "(x, x) \<in> ?E\<^sup>+"
    then have "x \<in> nodes" by (auto dest: tranclD)
    moreover have "(x, x) \<in> (edges_of adj)\<^sup>+" by (rule trancl_mono [OF x]) simp
    ultimately show False using acyclic by blast
  qed
  then have "acyclic ?E" by (simp add: acyclic_def)
  moreover have "finite ?E" using finite_nodes by simp
  ultimately have "wf (?E\<inverse>)" by (rule finite_acyclic_wf_converse [rotated])
  moreover have "?E\<inverse> = (edges_of adj)\<inverse> \<inter> nodes \<times> nodes" by auto
  ultimately show ?thesis by simp
qed

text \<open>The tail loop, given that the recursion is right on each neighbour.\<close>

lemma best_tail_longest:
  assumes "\<And>m memo. m \<in> set ns \<Longrightarrow> memo_longest adj memo \<Longrightarrow>
      \<exists>p memo'. longest_path_from adj m visiting memo = Some (p, memo') \<and> longest_from adj m p \<and> memo_longest adj memo'"
    and "memo_longest adj memo"
  shows "\<exists>b memo'. best_tail adj ns visiting memo best = Some (b, memo') \<and> memo_longest adj memo'
    \<and> length best \<le> length b \<and> (b = best \<or> (\<exists>m \<in> set ns. path_from adj m b))
    \<and> (\<forall>m \<in> set ns. \<forall>q. path_from adj m q \<longrightarrow> length q \<le> length b)"
  using assms
proof (induction ns arbitrary: memo best)
  case (Cons n ns)
  obtain p memo1 where p: "longest_path_from adj n visiting memo = Some (p, memo1)"
    "longest_from adj n p" "memo_longest adj memo1"
    using Cons.prems(1) [of n memo] Cons.prems(2) by auto
  let ?best = "if length p > length best then p else best"
  obtain b memo' where b: "best_tail adj ns visiting memo1 ?best = Some (b, memo')" "memo_longest adj memo'"
    "length ?best \<le> length b" "b = ?best \<or> (\<exists>m \<in> set ns. path_from adj m b)"
    "\<forall>m \<in> set ns. \<forall>q. path_from adj m q \<longrightarrow> length q \<le> length b"
    using Cons.IH [of memo1 ?best] Cons.prems(1) p(3) by force
  have "length p \<le> length b" "length best \<le> length b" using b(3) by (auto split: if_splits)
  moreover have "b = best \<or> (\<exists>m \<in> set (n # ns). path_from adj m b)"
    using b(4) p(2) by (auto simp: longest_from_def split: if_splits)
  ultimately show ?case
    using b p by (auto simp: best_tail_Cons longest_from_def intro: order_trans)
qed (simp add: best_tail_Nil)

lemma longest_path_from_correct:
  assumes "n \<in> nodes" and "memo_longest adj memo" and "\<forall>v \<in> set visiting. (v, n) \<in> (edges_of adj)\<^sup>+"
  shows "\<exists>p memo'. longest_path_from adj n visiting memo = Some (p, memo') \<and> longest_from adj n p \<and> memo_longest adj memo'"
  using assms
proof (induction n arbitrary: visiting memo rule: wf_induct_rule [OF wf_edges])
  case (1 n)
  show ?case
  proof (cases "map_of memo n")
    case (Some p)
    with 1(3) show ?thesis by (auto simp: longest_path_from_def memo_longest_def)
  next
    case None
    have nv: "n \<notin> set visiting" using 1(2,4) acyclic by blast
    have each: "\<exists>p memo'. longest_path_from adj m (n # visiting) memo = Some (p, memo') \<and> longest_from adj m p \<and> memo_longest adj memo'"
      if m: "m \<in> set (adj n)" and "memo_longest adj memo" for m memo
    proof (rule 1(1))
      show "(m, n) \<in> (edges_of adj)\<inverse> \<inter> nodes \<times> nodes" using m 1(2) closed by (auto simp: edges_of_def)
      show "m \<in> nodes" using m 1(2) closed by auto
      have e: "(n, m) \<in> edges_of adj" using m by (simp add: edges_of_def)
      then show "\<forall>v \<in> set (n # visiting). (v, m) \<in> (edges_of adj)\<^sup>+"
        using 1(4) by (auto intro: trancl_into_trancl)
    qed fact
    have "\<exists>b memo'. best_tail adj (adj n) (n # visiting) memo [] = Some (b, memo') \<and> memo_longest adj memo'
        \<and> length ([] :: 'a list) \<le> length b \<and> (b = [] \<or> (\<exists>m \<in> set (adj n). path_from adj m b))
        \<and> (\<forall>m \<in> set (adj n). \<forall>q. path_from adj m q \<longrightarrow> length q \<le> length b)"
      by (rule best_tail_longest [OF each 1(3)])
    then obtain b memo' where
      b: "best_tail adj (adj n) (n # visiting) memo [] = Some (b, memo')" "memo_longest adj memo'"
      "b = [] \<or> (\<exists>m \<in> set (adj n). path_from adj m b)"
      "\<forall>m \<in> set (adj n). \<forall>q. path_from adj m q \<longrightarrow> length q \<le> length b" by blast
    have "longest_from adj n (n # b)" using b(3,4) by (intro longest_from_step) auto
    with b None nv show ?thesis by (auto simp: longest_path_from_def memo_longest_def)
  qed
qed

lemma critical_path_longest:
  assumes "set ns \<subseteq> nodes" and "memo_longest adj memo"
  shows "\<exists>p. critical_path_loop adj ns memo longest = Some p \<and> length longest \<le> length p
    \<and> (p = longest \<or> (\<exists>n \<in> set ns. path_from adj n p))
    \<and> (\<forall>n \<in> set ns. \<forall>q. path_from adj n q \<longrightarrow> length q \<le> length p)"
  using assms
proof (induction ns arbitrary: memo longest)
  case (Cons n ns)
  obtain c memo1 where c: "longest_path_from adj n [] memo = Some (c, memo1)" "longest_from adj n c" "memo_longest adj memo1"
    using longest_path_from_correct [of n memo "[]"] Cons.prems by auto
  let ?l = "if length c > length longest then c else longest"
  obtain p where p: "critical_path_loop adj ns memo1 ?l = Some p" "length ?l \<le> length p"
    "p = ?l \<or> (\<exists>n \<in> set ns. path_from adj n p)" "\<forall>n \<in> set ns. \<forall>q. path_from adj n q \<longrightarrow> length q \<le> length p"
    using Cons.IH [of memo1 ?l] Cons.prems(1) c(3) by auto
  have "length c \<le> length p" "length longest \<le> length p" using p(2) by (auto split: if_splits)
  moreover have "p = longest \<or> (\<exists>n \<in> set (n # ns). path_from adj n p)"
    using p(3) c(2) by (auto simp: longest_from_def split: if_splits)
  ultimately show ?case using p c by (auto simp: longest_from_def intro: order_trans)
qed simp

end

end
