(* ===== verification/Backlog_Graph.thy ===== *)
theory Backlog_Graph
  imports Graph_Search
begin

text \<open>
  The backlog dependency graph (\<^verbatim>\<open>backlog_core/graph\<close>): items and dependencies (\<^verbatim>\<open>models.py\<close>), the
  configuration (\<^verbatim>\<open>config_schema.py\<close>), and the builder that maps provider payloads to a graph and
  computes its closure, cycles and orphans (\<^verbatim>\<open>builder.py\<close>).

  Parameters of the model: the mapping template and the configuration of \<^verbatim>\<open>.specfact/spec.yaml\<close> are
  arguments, read from YAML files by the source. Fields that pydantic types are HOL types; a configuration
  dictionary is a \<open>config_payload\<close>, in one of the two shapes the source distinguishes. Confidences are
  rationals: they are constants that are only compared with one half.
\<close>

section \<open>Models\<close>

datatype ItemType = Epic | Feature | Story | Task | Bug | SubTask | CustomItem

fun item_type_text :: "ItemType \<Rightarrow> string" where
  "item_type_text Epic = ''epic''"
| "item_type_text Feature = ''feature''"
| "item_type_text Story = ''story''"
| "item_type_text Task = ''task''"
| "item_type_text Bug = ''bug''"
| "item_type_text SubTask = ''sub_task''"
| "item_type_text CustomItem = ''custom''"

datatype DependencyType =
  ParentChild | Blocks | RelatesTo | Duplicates | ClonedFrom | Implements | CustomDependency

fun dependency_type_text :: "DependencyType \<Rightarrow> string" where
  "dependency_type_text ParentChild = ''parent_child''"
| "dependency_type_text Blocks = ''blocks''"
| "dependency_type_text RelatesTo = ''relates_to''"
| "dependency_type_text Duplicates = ''duplicates''"
| "dependency_type_text ClonedFrom = ''cloned_from''"
| "dependency_type_text Implements = ''implements''"
| "dependency_type_text CustomDependency = ''custom''"

text \<open>\<open>ItemType(value)\<close> and \<open>DependencyType(value)\<close>: the member with that value, or \<open>ValueError\<close>.\<close>

definition item_type_of :: "string \<Rightarrow> ItemType option" where
  "item_type_of s = List.find (\<lambda>t. item_type_text t = s) [Epic, Feature, Story, Task, Bug, SubTask, CustomItem]"

definition dependency_type_of :: "string \<Rightarrow> DependencyType option" where
  "dependency_type_of s = List.find (\<lambda>t. dependency_type_text t = s)
     [ParentChild, Blocks, RelatesTo, Duplicates, ClonedFrom, Implements, CustomDependency]"

record BacklogItem =
  bi_id :: string
  bi_key :: "string option"
  bi_title :: string
  bi_type :: ItemType
  bi_status :: string
  bi_description :: "string option"
  bi_priority :: "string option"
  bi_parent_id :: "string option"
  bi_raw_data :: pydict
  bi_inferred_type :: "ItemType option"
  bi_confidence :: rat

definition effective_type :: "BacklogItem \<Rightarrow> ItemType" where
  "effective_type item =
     (case bi_inferred_type item of
        Some t \<Rightarrow> (if bi_confidence item \<ge> 1 / 2 then t else bi_type item)
      | None \<Rightarrow> bi_type item)"

record Dependency =
  dp_source_id :: string
  dp_target_id :: string
  dp_type :: DependencyType
  dp_metadata :: pydict
  dp_confidence :: rat

record BacklogGraph =
  bg_items :: "(string \<times> BacklogItem) list"
  bg_dependencies :: "Dependency list"
  bg_provider :: string
  bg_project_key :: string
  bg_transitive_closure :: "(string \<times> string list) list"
  bg_cycles_detected :: "string list list"
  bg_orphans :: "string list"

section \<open>Configuration\<close>

record BacklogConfigModel =
  bc_template :: "string option"
  bc_type_mapping :: "(string \<times> string) list"
  bc_dependency_rules :: "(string \<times> string) list"
  bc_status_mapping :: "(string \<times> string) list"
  bc_creation_hierarchy :: "(string \<times> string list) list"

record ProviderConfig =
  pc_adapter :: "string option"
  pc_project_id :: "string option"
  pc_settings :: pydict

record DevOpsStageConfig =
  ds_default_action :: "string option"
  ds_enabled :: bool
  ds_settings :: pydict

record BacklogConfigSchema =
  sc_dependencies :: BacklogConfigModel
  sc_providers :: "(string \<times> ProviderConfig) list"
  sc_devops_stages :: "(string \<times> DevOpsStageConfig) list"

text \<open>A configuration dictionary: with a \<open>dependencies\<close> or \<open>providers\<close> key it validates as the schema,
  otherwise as the flat model, whose validation ignores keys it does not know (\<open>project_key\<close> is one).\<close>

datatype config_payload =
    SchemaPayload BacklogConfigSchema
  | FlatPayload BacklogConfigModel "string option"

text \<open>The configuration merged into the builder: the flattened dictionaries have these keys.\<close>

record merged_config =
  mg_template :: "string option"
  mg_project_key :: "string option"
  mg_type_mapping :: "(string \<times> string) list"
  mg_dependency_rules :: "(string \<times> string) list"
  mg_status_mapping :: "(string \<times> string) list"
  mg_creation_hierarchy :: "(string \<times> string list) list"
  mg_providers :: "(string \<times> ProviderConfig) list"

definition empty_config :: merged_config where
  "empty_config = \<lparr>mg_template = None, mg_project_key = None, mg_type_mapping = [], mg_dependency_rules = [],
     mg_status_mapping = [], mg_creation_hierarchy = [], mg_providers = []\<rparr>"

definition flatten_config_payload :: "config_payload \<Rightarrow> merged_config" where
  "flatten_config_payload p =
     (let flat = (case p of SchemaPayload s \<Rightarrow> sc_dependencies s | FlatPayload m _ \<Rightarrow> m)
      in \<lparr>mg_template = bc_template flat, mg_project_key = None,
          mg_type_mapping = bc_type_mapping flat, mg_dependency_rules = bc_dependency_rules flat,
          mg_status_mapping = bc_status_mapping flat, mg_creation_hierarchy = bc_creation_hierarchy flat,
          mg_providers = (case p of SchemaPayload s \<Rightarrow> sc_providers s | FlatPayload _ _ \<Rightarrow> [])\<rparr>)"

definition first_some :: "'a option \<Rightarrow> 'a option \<Rightarrow> 'a option" where
  "first_some a b = (case a of None \<Rightarrow> b | Some x \<Rightarrow> Some x)"

definition merge_config :: "merged_config \<Rightarrow> merged_config \<Rightarrow> merged_config" where
  "merge_config base ov =
     \<lparr>mg_template = first_some (mg_template ov) (mg_template base),
      mg_project_key = first_some (mg_project_key ov) (mg_project_key base),
      mg_type_mapping = dict_merge (mg_type_mapping base) (mg_type_mapping ov),
      mg_dependency_rules = dict_merge (mg_dependency_rules base) (mg_dependency_rules ov),
      mg_status_mapping = dict_merge (mg_status_mapping base) (mg_status_mapping ov),
      mg_creation_hierarchy = dict_merge (mg_creation_hierarchy base) (mg_creation_hierarchy ov),
      mg_providers = dict_merge (mg_providers base) (mg_providers ov)\<rparr>"

text \<open>\<open>project_bundle_metadata\<close>: the three places searched for a \<open>backlog_config\<close> dictionary.\<close>

record bundle_metadata =
  bm_backlog_config :: "config_payload option"
  bm_backlog_core :: "config_payload option"
  bm_extension :: "config_payload option"

definition metadata_config :: "bundle_metadata \<Rightarrow> config_payload option" where
  "metadata_config m = first_some (bm_backlog_config m) (first_some (bm_backlog_core m) (bm_extension m))"

definition load_custom_config ::
  "BacklogConfigSchema option \<Rightarrow> (config_payload \<times> bundle_metadata option) option \<Rightarrow> merged_config" where
  "load_custom_config spec_config custom_config =
     (let m0 = empty_config;
          m1 = (case spec_config of None \<Rightarrow> m0
                | Some s \<Rightarrow> merge_config m0 (flatten_config_payload (SchemaPayload s)))
      in case custom_config of
           None \<Rightarrow> m1
         | Some (payload, metadata) \<Rightarrow>
             (let m2 = (case metadata of None \<Rightarrow> m1
                        | Some md \<Rightarrow> (case metadata_config md of None \<Rightarrow> m1
                            | Some c \<Rightarrow> merge_config m1 (flatten_config_payload c)))
              in merge_config m2 (flatten_config_payload payload)))"

record BacklogTemplate =
  tp_type_mapping :: "(string \<times> string) list"
  tp_dependency_rules :: "(string \<times> string) list"
  tp_status_mapping :: "(string \<times> string) list"

section \<open>Builder\<close>

record BacklogGraphBuilder =
  gb_provider :: string
  gb_template :: BacklogTemplate
  gb_custom_config :: merged_config
  gb_items :: "(string \<times> BacklogItem) list"
  gb_dependencies :: "Dependency list"

definition new_builder ::
  "string \<Rightarrow> BacklogTemplate \<Rightarrow> BacklogConfigSchema option \<Rightarrow> (config_payload \<times> bundle_metadata option) option
   \<Rightarrow> BacklogGraphBuilder" where
  "new_builder provider template spec_config custom_config =
     \<lparr>gb_provider = provider, gb_template = template,
      gb_custom_config = load_custom_config spec_config custom_config, gb_items = [], gb_dependencies = []\<rparr>"

text \<open>\<open>{**{k.lower(): v ...template}, **{k.lower(): v ...custom}}\<close>\<close>

definition lowered :: "(string \<times> string) list \<Rightarrow> (string \<times> string) list" where
  "lowered d = dict_of (map (\<lambda>(k, v). (py_lower k, v)) d)"

definition lowered_mapping :: "(string \<times> string) list \<Rightarrow> (string \<times> string) list \<Rightarrow> (string \<times> string) list" where
  "lowered_mapping template custom = dict_merge (lowered template) (lowered custom)"

definition infer_type :: "BacklogGraphBuilder \<Rightarrow> pydict \<Rightarrow> ItemType \<times> rat" where
  "infer_type b raw_item =
     (let raw_type = py_lower (py_strip (py_str
            (py_or (dget raw_item ''type'') (py_or (dget raw_item ''work_item_type'') (PStr ''custom'')))));
          mapping = lowered_mapping (tp_type_mapping (gb_template b)) (mg_type_mapping (gb_custom_config b));
          mapped = (case map_of mapping raw_type of None \<Rightarrow> ''custom'' | Some v \<Rightarrow> v)
      in case item_type_of mapped of
           Some t \<Rightarrow> (t, if mapped \<noteq> ''custom'' then 9 / 10 else 4 / 10)
         | None \<Rightarrow> (CustomItem, 1 / 10))"

definition map_status :: "BacklogGraphBuilder \<Rightarrow> string \<Rightarrow> string" where
  "map_status b status =
     (let normalized = py_lower (py_strip status);
          mapping = lowered_mapping (tp_status_mapping (gb_template b)) (mg_status_mapping (gb_custom_config b))
      in case map_of mapping normalized of
           Some v \<Rightarrow> v
         | None \<Rightarrow> (if normalized \<noteq> [] then normalized else ''unknown''))"

text \<open>\<open>str(v) if v else None\<close>\<close>

definition opt_text :: "pyval \<Rightarrow> string option" where
  "opt_text v = (if py_truthy v then Some (py_str v) else None)"

definition raw_item_id :: "pydict \<Rightarrow> string" where
  "raw_item_id raw = py_str (py_or (dget raw ''id'') (py_or (dget raw ''key'') (PStr [])))"

definition make_item :: "BacklogGraphBuilder \<Rightarrow> pydict \<Rightarrow> BacklogItem" where
  "make_item b raw =
     (let item_id = raw_item_id raw; (inferred, confidence) = infer_type b raw
      in \<lparr>bi_id = item_id,
          bi_key = Some (py_str (py_or (dget raw ''key'') (PStr item_id))),
          bi_title = py_str (py_or (dget raw ''title'') (py_or (dget raw ''name'') (PStr item_id))),
          bi_type = inferred,
          bi_status = map_status b (py_str (py_or (dget raw ''status'') (py_or (dget raw ''state'') (PStr ''unknown'')))),
          bi_description = opt_text (dget raw ''description''),
          bi_priority = opt_text (dget raw ''priority''),
          bi_parent_id = opt_text (dget raw ''parent_id''),
          bi_raw_data = raw, bi_inferred_type = Some inferred, bi_confidence = confidence\<rparr>)"

definition add_item :: "BacklogGraphBuilder \<Rightarrow> pydict \<Rightarrow> BacklogGraphBuilder" where
  "add_item b raw =
     (if raw_item_id raw = [] then b
      else b\<lparr>gb_items := AList.update (raw_item_id raw) (make_item b raw) (gb_items b)\<rparr>)"

definition add_items :: "BacklogGraphBuilder \<Rightarrow> pydict list \<Rightarrow> BacklogGraphBuilder" where
  "add_items b raw_items = foldl add_item b raw_items"

definition infer_dependency_type :: "BacklogGraphBuilder \<Rightarrow> string \<Rightarrow> DependencyType" where
  "infer_dependency_type b raw =
     (let normalized = py_lower (py_strip raw);
          mapping = lowered_mapping (tp_dependency_rules (gb_template b)) (mg_dependency_rules (gb_custom_config b))
      in case map_of mapping normalized of
           None \<Rightarrow> CustomDependency
         | Some mapped \<Rightarrow> (case dependency_type_of mapped of Some t \<Rightarrow> t | None \<Rightarrow> CustomDependency))"

definition relationship_ends :: "pydict \<Rightarrow> string \<times> string" where
  "relationship_ends r =
     (py_str (py_or (dget r ''source_id'') (py_or (dget r ''from'') (PStr []))),
      py_str (py_or (dget r ''target_id'') (py_or (dget r ''to'') (PStr []))))"

definition add_dependency :: "BacklogGraphBuilder \<Rightarrow> pydict \<Rightarrow> BacklogGraphBuilder" where
  "add_dependency b r =
     (let (source_id, target_id) = relationship_ends r
      in if source_id = [] \<or> target_id = [] then b
         else (let t = infer_dependency_type b (py_str (py_or (dget r ''type'') (py_or (dget r ''relation'') (PStr []))))
               in b\<lparr>gb_dependencies := gb_dependencies b @
                     [\<lparr>dp_source_id = source_id, dp_target_id = target_id, dp_type = t, dp_metadata = r,
                       dp_confidence = (if t \<noteq> CustomDependency then 9 / 10 else 4 / 10)\<rparr>]\<rparr>))"

definition add_dependencies :: "BacklogGraphBuilder \<Rightarrow> pydict list \<Rightarrow> BacklogGraphBuilder" where
  "add_dependencies b relationships = foldl add_dependency b relationships"

text \<open>The adjacency of a dependency list, and its reverse.\<close>

definition adjacency :: "Dependency list \<Rightarrow> string \<Rightarrow> string list" where
  "adjacency deps n = dict_list (foldl (\<lambda>d dep. dict_push d (dp_source_id dep) (dp_target_id dep)) [] deps) n"

text \<open>A set of neighbours: the same without duplicates.\<close>

definition adjacency_set :: "Dependency list \<Rightarrow> string \<Rightarrow> string list" where
  "adjacency_set deps n = remdups (adjacency deps n)"

fun closure_loop ::
  "Dependency list \<Rightarrow> string list \<Rightarrow> (string \<times> string list) list \<Rightarrow> (string \<times> string list) list option" where
  "closure_loop deps [] closure = Some closure"
| "closure_loop deps (source # sources) closure =
     stack_search (adjacency_set deps) (adjacency_set deps source) [] \<bind> (\<lambda>seen.
       closure_loop deps sources
         (if seen \<noteq> [] then AList.update source (sort seen) closure else closure))"

definition builder_transitive_closure :: "BacklogGraphBuilder \<Rightarrow> (string \<times> string list) list option" where
  "builder_transitive_closure b = closure_loop (gb_dependencies b) (map fst (gb_items b)) []"

definition builder_detect_cycles :: "BacklogGraphBuilder \<Rightarrow> string list list option" where
  "builder_detect_cycles b = detect_cycles (adjacency (gb_dependencies b)) (map fst (gb_items b))"

definition is_orphan :: "Dependency list \<Rightarrow> BacklogItem \<Rightarrow> bool" where
  "is_orphan deps item =
     ((case bi_parent_id item of None \<Rightarrow> True | Some p \<Rightarrow> p = []) \<and> bi_id item \<notin> set (map dp_target_id deps))"

definition find_orphans :: "BacklogGraphBuilder \<Rightarrow> string list" where
  "find_orphans b =
     sorted_list_of_set (set (map bi_id (filter (is_orphan (gb_dependencies b)) (map snd (gb_items b)))))"

definition build :: "BacklogGraphBuilder \<Rightarrow> BacklogGraph option" where
  "build b =
     builder_transitive_closure b \<bind> (\<lambda>closure. builder_detect_cycles b \<bind> (\<lambda>cycles.
       Some \<lparr>bg_items = gb_items b, bg_dependencies = gb_dependencies b, bg_provider = gb_provider b,
             bg_project_key = (case mg_project_key (gb_custom_config b) of
                                 None \<Rightarrow> ''unknown'' | Some k \<Rightarrow> if k = [] then ''unknown'' else k),
             bg_transitive_closure = closure, bg_cycles_detected = cycles, bg_orphans = find_orphans b\<rparr>))"

section \<open>The dependency graph\<close>

definition dep_edges :: "Dependency list \<Rightarrow> (string \<times> string) set" where
  "dep_edges deps = (\<lambda>d. (dp_source_id d, dp_target_id d)) ` set deps"

lemma adjacency_list: "adjacency deps n = map dp_target_id (filter (\<lambda>d. dp_source_id d = n) deps)"
proof -
  have "dict_list (foldl (\<lambda>d dep. dict_push d (dp_source_id dep) (dp_target_id dep)) e deps) n
      = dict_list e n @ map dp_target_id (filter (\<lambda>d. dp_source_id d = n) deps)" for e
    by (induction deps arbitrary: e) (auto simp: dict_list_push)
  then show ?thesis by (simp add: adjacency_def dict_list_def [of "[]"])
qed

lemma edges_adjacency [simp]:
  "edges_of (adjacency deps) = dep_edges deps" "edges_of (adjacency_set deps) = dep_edges deps"
  by (force simp: edges_of_def dep_edges_def adjacency_list adjacency_set_def)+

interpretation dep_graph: finite_graph "adjacency deps" "set ids \<union> dp_target_id ` set deps"
  by unfold_locales (auto simp: adjacency_list)

interpretation dep_set_graph: finite_graph "adjacency_set deps" "set ids \<union> dp_target_id ` set deps"
  by unfold_locales (auto simp: adjacency_list adjacency_set_def)

text \<open>The nodes from which no cycle can be reached form an acyclic graph.\<close>

definition acyclic_part :: "Dependency list \<Rightarrow> string list \<Rightarrow> string set" where
  "acyclic_part deps ids = {n \<in> set ids \<union> dp_target_id ` set deps.
     \<forall>v. (n, v) \<in> (dep_edges deps)\<^sup>* \<longrightarrow> (v, v) \<notin> (dep_edges deps)\<^sup>+}"

interpretation acyclic_deps: dag "adjacency deps" "acyclic_part deps ids"
proof
  show "finite (acyclic_part deps ids)" by (simp add: acyclic_part_def)
next
  fix n assume n: "n \<in> acyclic_part deps ids"
  show "set (adjacency deps n) \<subseteq> acyclic_part deps ids"
  proof
    fix m assume m: "m \<in> set (adjacency deps n)"
    then have "(n, m) \<in> dep_edges deps" by (force simp: adjacency_list dep_edges_def)
    then have "(m, v) \<in> (dep_edges deps)\<^sup>* \<Longrightarrow> (n, v) \<in> (dep_edges deps)\<^sup>*" for v
      by (rule converse_rtrancl_into_rtrancl)
    then show "m \<in> acyclic_part deps ids" using n m by (auto simp: acyclic_part_def adjacency_list)
  qed
  show "(n, n) \<notin> (edges_of (adjacency deps))\<^sup>+" using n by (auto simp: acyclic_part_def)
qed

text \<open>What depends on what.\<close>

definition reachable_from :: "Dependency list \<Rightarrow> string \<Rightarrow> string set" where
  "reachable_from deps n = {v. (n, v) \<in> (dep_edges deps)\<^sup>+}"

lemma reachable_image:
  assumes "edges_of adj = dep_edges deps"
  shows "(dep_edges deps)\<^sup>* `` set (adj n) = reachable_from deps n"
proof -
  have "m \<in> set (adj n) \<longleftrightarrow> (n, m) \<in> dep_edges deps" for m
    using assms by (auto simp: edges_of_def)
  moreover have "(n, v) \<in> (dep_edges deps)\<^sup>+ \<longleftrightarrow> (\<exists>m. (n, m) \<in> dep_edges deps \<and> (m, v) \<in> (dep_edges deps)\<^sup>*)" for v
    by (meson tranclD rtrancl_into_trancl2)
  ultimately show ?thesis by (auto simp: reachable_from_def Image_iff)
qed

lemma reachable_finite [simp]: "finite (reachable_from deps n)"
proof (rule finite_subset)
  show "reachable_from deps n \<subseteq> dp_target_id ` set deps"
    by (auto simp: reachable_from_def dep_edges_def dest: tranclD2)
qed simp

lemma sort_distinct: "distinct xs \<Longrightarrow> sort xs = sorted_list_of_set (set xs)"
  by (simp add: sorted_list_of_set_sort_remdups distinct_remdups_id)

lemma stack_closure:
  "\<exists>seen. stack_search (adjacency_set deps) (adjacency_set deps n) [] = Some seen
     \<and> sort seen = sorted_list_of_set (reachable_from deps n) \<and> (seen = [] \<longleftrightarrow> reachable_from deps n = {})"
proof -
  have "set (adjacency_set deps n) \<subseteq> set [] \<union> dp_target_id ` set deps"
    by (auto simp: adjacency_set_def adjacency_list)
  from dep_set_graph.stack_search_reach [OF this] obtain seen where
    s: "stack_search (adjacency_set deps) (adjacency_set deps n) [] = Some seen" "distinct seen"
    "set seen = reachable_from deps n"
    by (auto simp: reachable_image)
  then show ?thesis by (metis sort_distinct set_empty)
qed

lemma closure_loop_result:
  "\<exists>c. closure_loop deps sources closure = Some c \<and>
     map_of c n = (if n \<in> set sources \<and> reachable_from deps n \<noteq> {}
                   then Some (sorted_list_of_set (reachable_from deps n)) else map_of closure n)"
proof (induction sources arbitrary: closure)
  case (Cons s sources)
  obtain seen where s: "stack_search (adjacency_set deps) (adjacency_set deps s) [] = Some seen"
    "sort seen = sorted_list_of_set (reachable_from deps s)" "seen = [] \<longleftrightarrow> reachable_from deps s = {}"
    using stack_closure by blast
  let ?c = "if seen \<noteq> [] then AList.update s (sort seen) closure else closure"
  obtain c where "closure_loop deps sources ?c = Some c"
    "map_of c n = (if n \<in> set sources \<and> reachable_from deps n \<noteq> {}
       then Some (sorted_list_of_set (reachable_from deps n)) else map_of ?c n)" using Cons by blast
  then show ?case using s by (auto simp: update_conv' split: if_splits)
qed simp

lemma closure_returns: "\<exists>c. closure_loop deps sources closure = Some c"
  using closure_loop_result by blast

lemma closure_dict:
  assumes "closure_loop deps sources [] = Some c"
  shows "map_of c n = (if n \<in> set sources \<and> reachable_from deps n \<noteq> {}
           then Some (sorted_list_of_set (reachable_from deps n)) else None)"
  using closure_loop_result [of deps sources "[]" n] assms by auto

text \<open>Cycles that an item can reach.\<close>

definition cyclic_below :: "Dependency list \<Rightarrow> string list \<Rightarrow> bool" where
  "cyclic_below deps ids = (\<exists>i \<in> set ids. \<exists>v. (i, v) \<in> (dep_edges deps)\<^sup>* \<and> (v, v) \<in> (dep_edges deps)\<^sup>+)"

lemma detect_cycles_deps:
  "\<exists>cs. detect_cycles (adjacency deps) ids = Some cs \<and> (\<forall>c \<in> set cs. is_cycle (adjacency deps) c)
     \<and> (cs = [] \<longleftrightarrow> \<not> cyclic_below deps ids)"
  using dep_graph.detect_cycles_exact [of ids ids deps] by (auto simp: cyclic_below_def)

lemma acyclic_part_items: "\<not> cyclic_below deps ids \<Longrightarrow> set ids \<subseteq> acyclic_part deps ids"
  by (auto simp: cyclic_below_def acyclic_part_def)

lemma build_returns:
  "\<exists>closure cycles. build b = Some \<lparr>bg_items = gb_items b, bg_dependencies = gb_dependencies b,
       bg_provider = gb_provider b,
       bg_project_key = (case mg_project_key (gb_custom_config b) of
                           None \<Rightarrow> ''unknown'' | Some k \<Rightarrow> if k = [] then ''unknown'' else k),
       bg_transitive_closure = closure, bg_cycles_detected = cycles, bg_orphans = find_orphans b\<rparr>
     \<and> closure_loop (gb_dependencies b) (map fst (gb_items b)) [] = Some closure
     \<and> detect_cycles (adjacency (gb_dependencies b)) (map fst (gb_items b)) = Some cycles"
proof -
  obtain cl cs where "closure_loop (gb_dependencies b) (map fst (gb_items b)) [] = Some cl"
    "detect_cycles (adjacency (gb_dependencies b)) (map fst (gb_items b)) = Some cs"
    using closure_returns detect_cycles_deps by blast
  then show ?thesis by (simp add: build_def builder_transitive_closure_def builder_detect_cycles_def)
qed

section \<open>Items\<close>

text \<open>Items are filed under their own, non-empty id.\<close>

definition items_ok :: "BacklogGraphBuilder \<Rightarrow> bool" where
  "items_ok b = (distinct (map fst (gb_items b)) \<and> (\<forall>(k, item) \<in> set (gb_items b). bi_id item = k \<and> k \<noteq> []))"

lemma make_item_frame:
  "gb_template b' = gb_template b \<Longrightarrow> gb_custom_config b' = gb_custom_config b \<Longrightarrow> make_item b' raw = make_item b raw"
  by (simp add: make_item_def infer_type_def map_status_def)

lemma make_item_id [simp]: "bi_id (make_item b raw) = raw_item_id raw"
  by (simp add: make_item_def Let_def split_beta)

lemma add_item_ok: "items_ok b \<Longrightarrow> items_ok (add_item b raw)"
proof -
  assume ok: "items_ok b"
  have "bi_id item = k \<and> k \<noteq> []"
    if "raw_item_id raw \<noteq> []" "(k, item) \<in> set (AList.update (raw_item_id raw) (make_item b raw) (gb_items b))" for k item
  proof -
    have d: "distinct (map fst (AList.update (raw_item_id raw) (make_item b raw) (gb_items b)))"
      using ok by (simp add: items_ok_def distinct_update)
    have "map_of (AList.update (raw_item_id raw) (make_item b raw) (gb_items b)) k = Some item"
      using that(2) d by simp
    then have "k = raw_item_id raw \<and> item = make_item b raw \<or> map_of (gb_items b) k = Some item"
      by (simp add: update_conv' split: if_splits)
    then show ?thesis using that(1) ok by (auto simp: items_ok_def dest: map_of_SomeD)
  qed
  then show ?thesis
    using ok by (auto simp: add_item_def items_ok_def distinct_update)
qed

lemma add_items_frame:
  "gb_template (add_items b raws) = gb_template b" "gb_custom_config (add_items b raws) = gb_custom_config b"
  "gb_dependencies (add_items b raws) = gb_dependencies b"
  unfolding add_items_def by (induction raws arbitrary: b) (simp_all add: add_item_def)

lemma add_items_lookup:
  "map_of (gb_items (add_items b raws)) i =
     (case List.find (\<lambda>r. raw_item_id r = i) (rev raws) of
        Some r \<Rightarrow> if i = [] then map_of (gb_items b) i else Some (make_item b r)
      | None \<Rightarrow> map_of (gb_items b) i)"
proof (induction raws rule: rev_induct)
  case Nil
  show ?case by (simp add: add_items_def)
next
  case (snoc r raws)
  have step: "add_items b (raws @ [r]) = add_item (add_items b raws) r" by (simp add: add_items_def)
  have "make_item (add_items b raws) r = make_item b r" by (rule make_item_frame) (simp_all add: add_items_frame)
  with snoc show ?case by (auto simp: step add_item_def update_conv' split: option.splits)
qed

lemma add_dependencies_frame:
  "gb_items (add_dependencies b rs) = gb_items b" "gb_custom_config (add_dependencies b rs) = gb_custom_config b"
  unfolding add_dependencies_def
  by (induction rs arbitrary: b) (simp_all add: add_dependency_def Let_def split_beta)

section \<open>Properties\<close>

definition sample_template :: BacklogTemplate where
  "sample_template = \<lparr>tp_type_mapping = [(''Story'', ''story'')], tp_dependency_rules = [(''blocks'', ''blocks'')],
     tp_status_mapping = []\<rparr>"

definition sample_builder :: BacklogGraphBuilder where
  "sample_builder = add_dependencies
     (add_items (new_builder ''github'' sample_template None (Some (FlatPayload
          \<lparr>bc_template = None, bc_type_mapping = [], bc_dependency_rules = [], bc_status_mapping = [], bc_creation_hierarchy = []\<rparr>
          (Some ''acme''), None)))
       [[(PStr ''id'', PStr ''a''), (PStr ''type'', PStr ''story'')], [(PStr ''id'', PStr ''b'')], [(PStr ''title'', PStr ''x'')]])
     [[(PStr ''source_id'', PStr ''a''), (PStr ''target_id'', PStr ''b''), (PStr ''type'', PStr ''blocks'')],
      [(PStr ''from'', PStr ''b''), (PStr ''to'', PStr ''c'')]]"

text \<open>C28: Building always succeeds and the computed graph facts are right: the closure of an item is the
  sorted list of everything it transitively depends on (absent when there is nothing), every reported cycle
  is a cycle of the dependency graph, cycles are reported exactly when an item can reach one, and the
  orphans are the items with no parent that nothing points to.\<close>

theorem build_graph_facts:
  shows "\<exists>g. build b = Some g
    \<and> (\<forall>i. map_of (bg_transitive_closure g) i =
          (if i \<in> set (map fst (gb_items b)) \<and> reachable_from (gb_dependencies b) i \<noteq> {}
           then Some (sorted_list_of_set (reachable_from (gb_dependencies b) i)) else None))
    \<and> (\<forall>c \<in> set (bg_cycles_detected g). is_cycle (adjacency (gb_dependencies b)) c)
    \<and> (bg_cycles_detected g = [] \<longleftrightarrow> \<not> cyclic_below (gb_dependencies b) (map fst (gb_items b)))
    \<and> sorted (bg_orphans g) \<and> distinct (bg_orphans g)
    \<and> set (bg_orphans g) = bi_id ` {item \<in> snd ` set (gb_items b). is_orphan (gb_dependencies b) item}"
proof -
  obtain cl cs where g: "build b = Some \<lparr>bg_items = gb_items b, bg_dependencies = gb_dependencies b,
       bg_provider = gb_provider b,
       bg_project_key = (case mg_project_key (gb_custom_config b) of
                           None \<Rightarrow> ''unknown'' | Some k \<Rightarrow> if k = [] then ''unknown'' else k),
       bg_transitive_closure = cl, bg_cycles_detected = cs, bg_orphans = find_orphans b\<rparr>"
    and cl: "closure_loop (gb_dependencies b) (map fst (gb_items b)) [] = Some cl"
    and cs: "detect_cycles (adjacency (gb_dependencies b)) (map fst (gb_items b)) = Some cs"
    using build_returns by blast
  have "(\<forall>c \<in> set cs. is_cycle (adjacency (gb_dependencies b)) c)
      \<and> (cs = [] \<longleftrightarrow> \<not> cyclic_below (gb_dependencies b) (map fst (gb_items b)))"
    using detect_cycles_deps [of "gb_dependencies b" "map fst (gb_items b)"] cs by simp
  moreover have "set (find_orphans b) = bi_id ` {item \<in> snd ` set (gb_items b). is_orphan (gb_dependencies b) item}"
    by (simp add: find_orphans_def)
  moreover have "sorted (find_orphans b)" "distinct (find_orphans b)" by (simp_all add: find_orphans_def)
  ultimately show ?thesis
    by (intro exI [of _ "the (build b)"]) (simp add: g closure_dict [OF cl] del: set_map)
qed

theorem build_graph_facts_witness:
  "\<exists>g. build sample_builder = Some g \<and> bg_orphans g = [''a''] \<and> bg_cycles_detected g = []
     \<and> \<not> cyclic_below (gb_dependencies sample_builder) (map fst (gb_items sample_builder))"
proof -
  have v: "case build sample_builder of None \<Rightarrow> False | Some g \<Rightarrow> bg_orphans g = [''a''] \<and> bg_cycles_detected g = []"
    by code_simp
  obtain g where "build sample_builder = Some g" "bg_orphans g = [''a'']" "bg_cycles_detected g = []"
    using v by (auto split: option.splits)
  with build_graph_facts [of sample_builder] show ?thesis by force
qed

text \<open>Items are stored by id, last payload first. After any sequence of payloads added to a builder
  without items, ids are distinct and non-empty, each item carries the id it is stored under, and the item
  stored under an id is the one made from the last payload with that id.\<close>

theorem items_last_payload_wins:
  assumes "gb_items b = []"
  shows "items_ok (add_items b raws)
    \<and> map_of (gb_items (add_items b raws)) i =
        (if i = [] then None
         else map_option (make_item b) (List.find (\<lambda>r. raw_item_id r = i) (rev raws)))"
proof
  have "items_ok b" using assms by (simp add: items_ok_def)
  then show "items_ok (add_items b raws)"
    unfolding add_items_def by (induction raws arbitrary: b) (simp_all add: add_item_ok)
  show "map_of (gb_items (add_items b raws)) i =
        (if i = [] then None
         else map_option (make_item b) (List.find (\<lambda>r. raw_item_id r = i) (rev raws)))"
    using assms by (auto simp: add_items_lookup split: option.splits)
qed

theorem items_last_payload_wins_witness:
  "map_option bi_title (map_of (gb_items (add_items (new_builder ''github'' sample_template None None)
     [[(PStr ''id'', PInt 7), (PStr ''title'', PStr ''old'')], [(PStr ''id'', PInt 7), (PStr ''title'', PStr ''new'')]])) ''7'')
   = Some ''new''"
proof -
  let ?b = "new_builder ''github'' sample_template None None"
  let ?raws = "[[(PStr ''id'', PInt 7), (PStr ''title'', PStr ''old'')], [(PStr ''id'', PInt 7), (PStr ''title'', PStr ''new'')]]"
  have b: "gb_items ?b = []" by (simp add: new_builder_def)
  have f: "map_option bi_title (map_option (make_item ?b) (List.find (\<lambda>r. raw_item_id r = ''7'') (rev ?raws))) = Some ''new''"
    by code_simp
  from items_last_payload_wins [OF b, of ?raws "''7''"] f show ?thesis by simp
qed

text \<open>The project key never reaches the graph. Whatever \<open>project_key\<close> the caller's configuration carries, and
  whatever the specification file and the bundle metadata say, the graph built has the project key
  \<open>unknown\<close>: flattening a configuration drops the key before it is merged.\<close>

theorem project_key_is_lost:
  "map_option bg_project_key
     (build (add_dependencies (add_items (new_builder provider template spec_config custom_config) raws) rels))
   = Some ''unknown''"
proof -
  have f: "mg_project_key (flatten_config_payload p) = None" for p
    by (simp add: flatten_config_payload_def Let_def)
  have m: "mg_project_key (merge_config c (flatten_config_payload p)) = mg_project_key c" for c p
    by (simp add: merge_config_def first_some_def f)
  have "mg_project_key (load_custom_config spec_config custom_config) = None"
    by (simp add: load_custom_config_def Let_def m empty_config_def split: option.splits)
  then have "mg_project_key (gb_custom_config (add_dependencies (add_items
      (new_builder provider template spec_config custom_config) raws) rels)) = None"
    by (simp add: add_dependencies_frame add_items_frame new_builder_def)
  then show ?thesis
    using build_returns [of "add_dependencies (add_items (new_builder provider template spec_config custom_config) raws) rels"]
    by auto
qed

end
