(* ===== verification/Dependency_Analyzer.thy ===== *)
theory Dependency_Analyzer
  imports Backlog_Graph Py_Float
begin

text \<open>
  Analysis of a backlog graph: the dependency analyzer (\<^verbatim>\<open>analyzers/dependency.py\<close>), the delta between
  two graphs with the commands computed from it (\<^verbatim>\<open>commands/sync.py\<close>, \<^verbatim>\<open>commands/delta.py\<close>), and the
  release readiness check (\<^verbatim>\<open>commands/verify.py\<close>). Commands return what they print and exit with;
  console output is not modelled.
\<close>

section \<open>Analyzer\<close>

definition reverse_adjacency :: "Dependency list \<Rightarrow> string \<Rightarrow> string list" where
  "reverse_adjacency deps n = dict_list (foldl (\<lambda>d dep. dict_push d (dp_target_id dep) (dp_source_id dep)) [] deps) n"

text \<open>\<open>_dependency_types\<close>: the type of the last dependency between two ids.\<close>

definition dependency_types :: "Dependency list \<Rightarrow> ((string \<times> string) \<times> DependencyType) list" where
  "dependency_types deps =
     foldl (\<lambda>d dep. AList.update (dp_source_id dep, dp_target_id dep) (dp_type dep) d) [] deps"

fun analyzer_closure_loop ::
  "Dependency list \<Rightarrow> string list \<Rightarrow> (string \<times> string list) list \<Rightarrow> (string \<times> string list) list option" where
  "analyzer_closure_loop deps [] closure = Some closure"
| "analyzer_closure_loop deps (i # ids) closure =
     traverse_dfs (adjacency deps) (adjacency deps i) [] \<bind> (\<lambda>seen.
       let seen1 = removeAll i seen
       in analyzer_closure_loop deps ids
            (if seen1 \<noteq> [] then AList.update i (sort seen1) closure else closure))"

definition compute_transitive_closure :: "BacklogGraph \<Rightarrow> (string \<times> string list) list option" where
  "compute_transitive_closure g = analyzer_closure_loop (bg_dependencies g) (map fst (bg_items g)) []"

definition analyzer_detect_cycles :: "BacklogGraph \<Rightarrow> string list list option" where
  "analyzer_detect_cycles g = detect_cycles (adjacency (bg_dependencies g)) (map fst (bg_items g))"

definition critical_path :: "BacklogGraph \<Rightarrow> string list option" where
  "critical_path g = critical_path_loop (adjacency (bg_dependencies g)) (map fst (bg_items g)) [] []"

record ImpactAnalysis =
  im_direct_dependents :: "string list"
  im_transitive_dependents :: "string list"
  im_blockers :: "string list"
  im_estimated_impact_count :: nat

definition impact_analysis :: "BacklogGraph \<Rightarrow> string \<Rightarrow> ImpactAnalysis option" where
  "impact_analysis g item_id =
     (let deps = bg_dependencies g;
          direct = sorted_list_of_set (set (reverse_adjacency deps item_id))
      in stack_search (reverse_adjacency deps) direct [] \<bind> (\<lambda>dependents.
           Some \<lparr>im_direct_dependents = direct,
                 im_transitive_dependents = sort dependents,
                 im_blockers = sort [t. ((s, t), ty) \<leftarrow> dependency_types deps, s = item_id \<and> ty = Blocks],
                 im_estimated_impact_count = length dependents\<rparr>))"

record CoverageAnalysis =
  cv_total_items :: nat
  cv_properly_typed :: nat
  cv_properly_typed_pct :: rat
  cv_with_dependencies :: nat
  cv_orphan_count :: nat
  cv_cycle_count :: nat

definition coverage_analysis :: "BacklogGraph \<Rightarrow> CoverageAnalysis option" where
  "coverage_analysis g =
     (let total = length (bg_items g);
          typed = length (filter (\<lambda>(_, item). item_type_text (effective_type item) \<noteq> ''custom'') (bg_items g));
          linked = set (map dp_source_id (bg_dependencies g)) \<union> set (map dp_target_id (bg_dependencies g));
          pct = (if total \<noteq> 0 then double_round (double_round (of_nat typed / of_nat total) * 100) else 0)
      in analyzer_detect_cycles g \<bind> (\<lambda>cycles.
           Some \<lparr>cv_total_items = total, cv_properly_typed = typed, cv_properly_typed_pct = py_round2 pct,
                 cv_with_dependencies = card linked, cv_orphan_count = length (bg_orphans g),
                 cv_cycle_count = length cycles\<rparr>))"

section \<open>Delta\<close>

record BacklogDelta =
  dl_added_items :: "string list"
  dl_removed_items :: "string list"
  dl_updated_items :: "string list"
  dl_status_transitions :: "(string \<times> string \<times> string) list"
  dl_new_dependencies :: "(string \<times> string \<times> string) list"
  dl_removed_dependencies :: "(string \<times> string \<times> string) list"

text \<open>\<open>item.model_dump(exclude={"raw_data"})\<close>\<close>

definition without_raw :: "BacklogItem \<Rightarrow> BacklogItem" where
  "without_raw item = item\<lparr>bi_raw_data := []\<rparr>"

definition item_ids :: "BacklogGraph \<Rightarrow> string set" where
  "item_ids g = set (map fst (bg_items g))"

definition item_at :: "BacklogGraph \<Rightarrow> string \<Rightarrow> BacklogItem" where
  "item_at g i = the (map_of (bg_items g) i)"

definition edge_keys :: "BacklogGraph \<Rightarrow> (string \<times> string \<times> string) set" where
  "edge_keys g = set (map (\<lambda>d. (dp_source_id d, dp_target_id d, dependency_type_text (dp_type d))) (bg_dependencies g))"

definition compute_delta :: "BacklogGraph \<Rightarrow> BacklogGraph \<Rightarrow> BacklogDelta" where
  "compute_delta baseline current =
     (let common = sorted_list_of_set (item_ids baseline \<inter> item_ids current)
      in \<lparr>dl_added_items = sorted_list_of_set (item_ids current - item_ids baseline),
          dl_removed_items = sorted_list_of_set (item_ids baseline - item_ids current),
          dl_updated_items = filter (\<lambda>i. without_raw (item_at baseline i) \<noteq> without_raw (item_at current i)) common,
          dl_status_transitions =
            map (\<lambda>i. (i, bi_status (item_at baseline i), bi_status (item_at current i)))
              (filter (\<lambda>i. bi_status (item_at baseline i) \<noteq> bi_status (item_at current i)) common),
          dl_new_dependencies = sorted_list_of_set (edge_keys current - edge_keys baseline),
          dl_removed_dependencies = sorted_list_of_set (edge_keys baseline - edge_keys current)\<rparr>)"

definition empty_delta :: BacklogDelta where
  "empty_delta = \<lparr>dl_added_items = [], dl_removed_items = [], dl_updated_items = [],
     dl_status_transitions = [], dl_new_dependencies = [], dl_removed_dependencies = []\<rparr>"

text \<open>The points printed by \<open>cost_estimate\<close> and the risk printed by \<open>rollback_analysis\<close>.\<close>

definition cost_estimate :: "BacklogGraph \<Rightarrow> BacklogGraph \<Rightarrow> nat" where
  "cost_estimate baseline current =
     (let d = compute_delta baseline current
      in length (dl_added_items d) * 3 + length (dl_updated_items d) * 2
         + length (dl_removed_items d) + length (dl_new_dependencies d))"

definition rollback_analysis :: "BacklogGraph \<Rightarrow> BacklogGraph \<Rightarrow> string" where
  "rollback_analysis baseline current =
     (let d = compute_delta baseline current
      in if length (dl_removed_items d) > 0 \<or> length (dl_removed_dependencies d) > 0 then ''HIGH'' else ''LOW'')"

text \<open>\<open>_resolve_project_id\<close>, given the provider's configuration dictionary: an explicit id, else the
  configured one, else the GitHub repository.\<close>

definition configured_project :: "pydict \<Rightarrow> string option" where
  "configured_project config =
     (case dget config ''project_id'' of
        PStr c \<Rightarrow> if py_strip c \<noteq> [] then Some (py_strip c) else None
      | _ \<Rightarrow> None)"

definition github_project :: "string \<Rightarrow> pyval \<Rightarrow> pyval \<Rightarrow> string option" where
  "github_project adapter owner name =
     (case (owner, name) of
        (PStr ow, PStr nm) \<Rightarrow>
          if adapter = ''github'' \<and> ow \<noteq> [] \<and> nm \<noteq> [] then Some (ow @ ''/'' @ nm) else None
      | _ \<Rightarrow> None)"

definition resolve_project_id ::
  "string \<Rightarrow> string option \<Rightarrow> string option \<Rightarrow> string option \<Rightarrow> pydict \<Rightarrow> string option" where
  "resolve_project_id adapter project_id repo_owner repo_name config =
     (let given = (\<lambda>v. case v of None \<Rightarrow> PNone | Some s \<Rightarrow> PStr s);
          explicit = (case project_id of Some p \<Rightarrow> if p \<noteq> [] then Some p else None | None \<Rightarrow> None)
      in first_some explicit (first_some (configured_project config)
           (github_project adapter (py_or (given repo_owner) (dget config ''repo_owner''))
                                   (py_or (given repo_name) (dget config ''repo_name'')))))"

section \<open>Release readiness\<close>

definition DONE_STATES :: "string list" where
  "DONE_STATES = [''done'', ''completed'', ''closed'', ''resolved'']"

definition KNOWN_STATES :: "string list" where
  "KNOWN_STATES = [''todo'', ''new'', ''planned'', ''in_progress'', ''active'', ''blocked'', ''open''] @ DONE_STATES"

definition target_ids_of :: "BacklogGraph \<Rightarrow> string \<Rightarrow> string list" where
  "target_ids_of g target_items =
     (let ids = filter (\<lambda>x. x \<noteq> []) (map py_strip (py_split_char (CHR '','') target_items))
      in if ids = [] then sorted_list_of_set (item_ids g) else ids)"

definition quoted :: "string \<Rightarrow> string" where
  "quoted s = [CHR 0x27] @ s @ [CHR 0x27]"

definition target_findings :: "BacklogGraph \<Rightarrow> string \<Rightarrow> string list option" where
  "target_findings g item_id =
     (case map_of (bg_items g) item_id of
        None \<Rightarrow> Some [''Target item '' @ quoted item_id @ '' not found.'']
      | Some item \<Rightarrow>
          impact_analysis g item_id \<bind> (\<lambda>impact.
            Some ((if im_blockers impact \<noteq> []
                   then [''Item '' @ quoted item_id @ '' has blockers: '' @ py_join '', '' (im_blockers impact) @ ''.''] else [])
                @ (if py_strip (py_lower (bi_status item)) \<notin> set KNOWN_STATES
                   then [''Item '' @ quoted item_id @ '' has unrecognized status '' @ quoted (bi_status item) @ ''.''] else []))))"

fun targets_findings :: "BacklogGraph \<Rightarrow> string list \<Rightarrow> string list option" where
  "targets_findings g [] = Some []"
| "targets_findings g (i # is) =
     target_findings g i \<bind> (\<lambda>fs. targets_findings g is \<bind> (\<lambda>rest. Some (fs @ rest)))"

definition parent_to_children :: "Dependency list \<Rightarrow> (string \<times> string list) list" where
  "parent_to_children deps =
     foldl (\<lambda>d dep. dict_push d (dp_source_id dep) (dp_target_id dep)) []
       (filter (\<lambda>dep. dp_type dep = ParentChild) deps)"

definition is_done :: "BacklogItem \<Rightarrow> bool" where
  "is_done item = (py_lower (bi_status item) \<in> set DONE_STATES)"

definition not_done_children :: "BacklogGraph \<Rightarrow> string list \<Rightarrow> string list" where
  "not_done_children g children =
     filter (\<lambda>c. case map_of (bg_items g) c of None \<Rightarrow> False | Some item \<Rightarrow> \<not> is_done item) children"

definition parent_findings :: "BacklogGraph \<Rightarrow> string \<times> string list \<Rightarrow> string list" where
  "parent_findings g pc =
     (case map_of (bg_items g) (fst pc) of
        None \<Rightarrow> []
      | Some parent \<Rightarrow>
          (if \<not> is_done parent then []
           else if not_done_children g (snd pc) \<noteq> []
           then [''Parent '' @ quoted (fst pc) @ '' is in completed state but children not completed: ''
                 @ py_join '', '' (sort (not_done_children g (snd pc))) @ ''.'']
           else []))"

definition cycle_findings :: "string list list \<Rightarrow> string list" where
  "cycle_findings cycles =
     (if cycles \<noteq> [] then [''Circular dependencies detected ('' @ show_nat (length cycles) @ '' cycles).''] else [])"

text \<open>The findings of \<open>verify_readiness\<close> and its exit code.\<close>

definition readiness_findings :: "BacklogGraph \<Rightarrow> string \<Rightarrow> string list option" where
  "readiness_findings g target_items =
     analyzer_detect_cycles g \<bind> (\<lambda>cycles.
       targets_findings g (target_ids_of g target_items) \<bind> (\<lambda>targets.
         Some (cycle_findings cycles @ targets
               @ concat (map (parent_findings g) (parent_to_children (bg_dependencies g))))))"

definition verify_readiness :: "BacklogGraph \<Rightarrow> string \<Rightarrow> int option" where
  "verify_readiness g target_items = map_option (\<lambda>fs. if fs = [] then 0 else 1) (readiness_findings g target_items)"

section \<open>Lemmas on the analyzer\<close>

lemma reverse_adjacency_list:
  "reverse_adjacency deps n = map dp_source_id (filter (\<lambda>d. dp_target_id d = n) deps)"
proof -
  have "dict_list (foldl (\<lambda>d dep. dict_push d (dp_target_id dep) (dp_source_id dep)) e deps) n
      = dict_list e n @ map dp_source_id (filter (\<lambda>d. dp_target_id d = n) deps)" for e
    by (induction deps arbitrary: e) (auto simp: dict_list_push)
  then show ?thesis by (simp add: reverse_adjacency_def dict_list_def [of "[]"])
qed

lemma edges_reverse [simp]: "edges_of (reverse_adjacency deps) = (dep_edges deps)\<inverse>"
  by (force simp: edges_of_def dep_edges_def reverse_adjacency_list)

interpretation reverse_graph: finite_graph "reverse_adjacency deps" "set ids \<union> dp_source_id ` set deps"
  by unfold_locales (auto simp: reverse_adjacency_list)

lemma analyzer_closure_result:
  "\<exists>c. analyzer_closure_loop deps ids closure = Some c \<and>
     map_of c n = (if n \<in> set ids \<and> reachable_from deps n - {n} \<noteq> {}
                   then Some (sorted_list_of_set (reachable_from deps n - {n})) else map_of closure n)"
proof (induction ids arbitrary: closure)
  case (Cons i ids)
  have "set (adjacency deps i) \<subseteq> set [] \<union> dp_target_id ` set deps" by (auto simp: adjacency_list)
  from dep_graph.traverse_dfs_reach [OF this] obtain seen where
    s: "traverse_dfs (adjacency deps) (adjacency deps i) [] = Some seen" "distinct seen"
    "set seen = reachable_from deps i" by (auto simp: reachable_image)
  have so: "sort (removeAll i seen) = sorted_list_of_set (reachable_from deps i - {i})"
    using s(2,3) by (subst sort_distinct) (auto simp: distinct_removeAll)
  have em: "removeAll i seen = [] \<longleftrightarrow> reachable_from deps i - {i} = {}"
    using s(3) by (metis set_empty set_removeAll)
  let ?c = "if removeAll i seen \<noteq> [] then AList.update i (sort (removeAll i seen)) closure else closure"
  obtain c where "analyzer_closure_loop deps ids ?c = Some c"
    "map_of c n = (if n \<in> set ids \<and> reachable_from deps n - {n} \<noteq> {}
       then Some (sorted_list_of_set (reachable_from deps n - {n})) else map_of ?c n)" using Cons by blast
  then show ?case using s(1) so em by (auto simp: update_conv' Let_def split: if_splits)
qed simp

lemma analyzer_closure_dict:
  assumes "compute_transitive_closure g = Some c"
  shows "map_of c n = (if n \<in> item_ids g \<and> reachable_from (bg_dependencies g) n - {n} \<noteq> {}
           then Some (sorted_list_of_set (reachable_from (bg_dependencies g) n - {n})) else None)"
  using analyzer_closure_result [of "bg_dependencies g" "map fst (bg_items g)" "[]" n] assms
  by (auto simp: compute_transitive_closure_def item_ids_def)

text \<open>The type of the last dependency from \<open>s\<close> to \<open>t\<close>.\<close>

definition last_type :: "Dependency list \<Rightarrow> string \<Rightarrow> string \<Rightarrow> DependencyType option" where
  "last_type deps s t =
     map_option dp_type (List.find (\<lambda>d. dp_source_id d = s \<and> dp_target_id d = t) (rev deps))"

lemma dependency_types_lookup: "map_of (dependency_types deps) (s, t) = last_type deps s t"
  unfolding dependency_types_def last_type_def
  by (induction deps rule: rev_induct) (auto simp: update_conv')

lemma dependency_types_distinct: "distinct (map fst (dependency_types deps))"
  unfolding dependency_types_def
  by (induction deps rule: rev_induct) (simp_all add: distinct_update)

lemma pick_targets:
  "distinct (map fst d) \<Longrightarrow>
   distinct [t. ((s, t), ty) \<leftarrow> d, s = i \<and> ty = Blocks]
   \<and> set [t. ((s, t), ty) \<leftarrow> d, s = i \<and> ty = Blocks] = {t. map_of d (i, t) = Some Blocks}"
proof (induction d)
  case (Cons e d)
  obtain s t ty where e: "e = ((s, t), ty)" by (metis prod.collapse)
  have "map_of d (s, t) = None" using Cons.prems by (simp add: e map_of_eq_None_iff)
  with Cons show ?case by (auto simp: e)
qed simp

lemma blockers_list:
  "sort [t. ((s, t), ty) \<leftarrow> dependency_types deps, s = i \<and> ty = Blocks] = sorted_list_of_set {t. last_type deps i t = Some Blocks}"
  and blockers_finite: "finite {t. last_type deps i t = Some Blocks}"
proof -
  note p = pick_targets [OF dependency_types_distinct, of i deps]
  show "sort [t. ((s, t), ty) \<leftarrow> dependency_types deps, s = i \<and> ty = Blocks] = sorted_list_of_set {t. last_type deps i t = Some Blocks}"
    by (rule sort_distinct [OF p [THEN conjunct1], unfolded p [THEN conjunct2] dependency_types_lookup])
  show "finite {t. last_type deps i t = Some Blocks}"
    using p unfolding dependency_types_lookup by (metis (no_types, lifting) List.finite_set)
qed

lemma impact_analysis_result:
  "impact_analysis g i = Some
     \<lparr>im_direct_dependents = sorted_list_of_set {v. (v, i) \<in> dep_edges (bg_dependencies g)},
      im_transitive_dependents = sorted_list_of_set {v. (v, i) \<in> (dep_edges (bg_dependencies g))\<^sup>+},
      im_blockers = sorted_list_of_set {t. last_type (bg_dependencies g) i t = Some Blocks},
      im_estimated_impact_count = card {v. (v, i) \<in> (dep_edges (bg_dependencies g))\<^sup>+}\<rparr>"
proof -
  let ?deps = "bg_dependencies g" and ?E = "dep_edges (bg_dependencies g)"
  have d: "set (reverse_adjacency ?deps i) = {v. (v, i) \<in> ?E}"
    by (force simp: reverse_adjacency_list dep_edges_def)
  let ?direct = "sorted_list_of_set (set (reverse_adjacency ?deps i))"
  have "set ?direct \<subseteq> set [] \<union> dp_source_id ` set ?deps" by (auto simp: reverse_adjacency_list)
  from reverse_graph.stack_search_reach [OF this] obtain r where
    r: "stack_search (reverse_adjacency ?deps) ?direct [] = Some r" "distinct r"
    "set r = ((?E)\<inverse>)\<^sup>* `` set (reverse_adjacency ?deps i)" by auto
  have "(v, i) \<in> ?E\<^sup>+ \<longleftrightarrow> (\<exists>u. (u, i) \<in> ?E \<and> (v, u) \<in> ?E\<^sup>*)" for v
    by (meson tranclD2 rtrancl_into_trancl1)
  then have "set r = {v. (v, i) \<in> ?E\<^sup>+}" unfolding r(3) d by (auto simp: rtrancl_converse)
  moreover have "sort r = sorted_list_of_set (set r)" "length r = card (set r)"
    using r(2) by (simp_all add: sort_distinct distinct_card)
  ultimately show ?thesis
    unfolding impact_analysis_def Let_def r(1) blockers_list by (simp add: d)
qed

section \<open>Lemmas on readiness\<close>

lemma group_distinct:
  "distinct (map fst d) \<Longrightarrow> distinct (map fst (foldl (\<lambda>d x. dict_push d (f x) (h x)) d xs))"
  by (induction xs arbitrary: d) (auto simp: dict_push_def distinct_update)

lemma parent_entries:
  "(p, cs) \<in> set (parent_to_children deps) \<longleftrightarrow>
     cs = adjacency (filter (\<lambda>d. dp_type d = ParentChild) deps) p \<and> p \<in> dp_source_id ` {d \<in> set deps. dp_type d = ParentChild}"
proof -
  let ?deps = "filter (\<lambda>d. dp_type d = ParentChild) deps"
  have d: "distinct (map fst (parent_to_children deps))"
    unfolding parent_to_children_def by (intro group_distinct) simp
  have keys: "fst ` set (foldl (\<lambda>d dep. dict_push d (dp_source_id dep) (dp_target_id dep)) e xs)
      = fst ` set e \<union> dp_source_id ` set xs" for e xs
    by (induction xs arbitrary: e) (auto simp: dict_push_def dom_update)
  have dl: "dict_list (parent_to_children deps) p = adjacency ?deps p"
    by (simp add: parent_to_children_def adjacency_def)
  have "(p, cs) \<in> set (parent_to_children deps) \<longleftrightarrow> map_of (parent_to_children deps) p = Some cs"
    using d by simp
  also have "\<dots> \<longleftrightarrow> cs = adjacency ?deps p \<and> p \<in> fst ` set (parent_to_children deps)"
    unfolding dl [symmetric] dict_list_def
    by (cases "map_of (parent_to_children deps) p") (force simp: map_of_eq_None_iff dest: map_of_SomeD)+
  finally show ?thesis by (simp add: parent_to_children_def keys)
qed

lemma parents_clear:
  "concat (map (parent_findings g) (parent_to_children (bg_dependencies g))) = [] \<longleftrightarrow>
     (\<forall>d \<in> set (bg_dependencies g). \<forall>p c. dp_type d = ParentChild \<longrightarrow>
        map_of (bg_items g) (dp_source_id d) = Some p \<longrightarrow> map_of (bg_items g) (dp_target_id d) = Some c \<longrightarrow>
        is_done p \<longrightarrow> is_done c)" (is "?L \<longleftrightarrow> ?R")
proof -
  have "parent_findings g (p, cs) = [] \<longleftrightarrow>
      (\<forall>q c x. map_of (bg_items g) p = Some q \<longrightarrow> is_done q \<longrightarrow> x \<in> set cs \<longrightarrow> map_of (bg_items g) x = Some c \<longrightarrow> is_done c)" for p cs
    by (auto simp: parent_findings_def not_done_children_def filter_empty_conv split: option.splits)
  note pf = this
  have "?L \<longleftrightarrow> (\<forall>pc \<in> set (parent_to_children (bg_dependencies g)). parent_findings g pc = [])" by simp
  also have "\<dots> \<longleftrightarrow> (\<forall>p cs. (p, cs) \<in> set (parent_to_children (bg_dependencies g)) \<longrightarrow> parent_findings g (p, cs) = [])"
    by auto
  also have "\<dots> \<longleftrightarrow> ?R"
    unfolding parent_entries pf by (auto simp: adjacency_list) blast
  finally show ?thesis .
qed

lemma targets_clear:
  "\<exists>fs. targets_findings g is = Some fs \<and> (fs = [] \<longleftrightarrow> (\<forall>i \<in> set is. target_findings g i = Some []))"
proof (induction "is")
  case (Cons i "is")
  have "\<exists>fs. target_findings g i = Some fs"
    by (cases "map_of (bg_items g) i") (simp_all add: target_findings_def impact_analysis_result)
  with Cons show ?case by auto
qed simp

lemma target_clear:
  "target_findings g i = Some [] \<longleftrightarrow>
     (\<exists>item. map_of (bg_items g) i = Some item \<and> (\<forall>t. last_type (bg_dependencies g) i t \<noteq> Some Blocks)
        \<and> py_strip (py_lower (bi_status item)) \<in> set KNOWN_STATES)"
  using blockers_finite [of "bg_dependencies g" i]
  by (auto simp: target_findings_def impact_analysis_result split: option.splits if_splits)

section \<open>Properties\<close>

definition sample_item :: "string \<Rightarrow> string \<Rightarrow> BacklogItem" where
  "sample_item i status = \<lparr>bi_id = i, bi_key = None, bi_title = i, bi_type = Story, bi_status = status,
     bi_description = None, bi_priority = None, bi_parent_id = None, bi_raw_data = [],
     bi_inferred_type = None, bi_confidence = 1\<rparr>"

definition sample_dep :: "string \<Rightarrow> string \<Rightarrow> DependencyType \<Rightarrow> Dependency" where
  "sample_dep s t ty = \<lparr>dp_source_id = s, dp_target_id = t, dp_type = ty, dp_metadata = [], dp_confidence = 1\<rparr>"

definition sample_graph :: "(string \<times> string) list \<Rightarrow> Dependency list \<Rightarrow> BacklogGraph" where
  "sample_graph items deps = \<lparr>bg_items = map (\<lambda>(i, st). (i, sample_item i st)) items, bg_dependencies = deps,
     bg_provider = ''p'', bg_project_key = ''k'', bg_transitive_closure = [], bg_cycles_detected = [], bg_orphans = []\<rparr>"

text \<open>The analyzer's closure is everything an item transitively depends on, without the item itself, and it
  always returns; where no item can reach a cycle it is the closure the builder stored in the graph.\<close>

theorem analyzer_closure_exact:
  assumes "build b = Some g"
  shows "\<exists>c. compute_transitive_closure g = Some c
    \<and> (\<forall>i. map_of c i = (if i \<in> item_ids g \<and> reachable_from (bg_dependencies g) i - {i} \<noteq> {}
           then Some (sorted_list_of_set (reachable_from (bg_dependencies g) i - {i})) else None))
    \<and> (\<not> cyclic_below (bg_dependencies g) (map fst (bg_items g)) \<longrightarrow> map_of c = map_of (bg_transitive_closure g))"
proof -
  obtain cl where g: "bg_items g = gb_items b" "bg_dependencies g = gb_dependencies b" "bg_transitive_closure g = cl"
    "closure_loop (gb_dependencies b) (map fst (gb_items b)) [] = Some cl"
    using build_returns [of b] assms by force
  obtain c where c: "compute_transitive_closure g = Some c"
    using analyzer_closure_result [of "bg_dependencies g" "map fst (bg_items g)" "[]"]
    by (auto simp: compute_transitive_closure_def)
  note d = analyzer_closure_dict [OF c]
  have "map_of c i = map_of cl i" if a: "\<not> cyclic_below (bg_dependencies g) (map fst (bg_items g))" for i
  proof (cases "i \<in> item_ids g")
    case True
    then have "i \<notin> reachable_from (bg_dependencies g) i"
      using a by (auto simp: cyclic_below_def reachable_from_def item_ids_def)
    then have "reachable_from (bg_dependencies g) i - {i} = reachable_from (bg_dependencies g) i" by blast
    with True show ?thesis unfolding d closure_dict [OF g(4)] by (simp add: g item_ids_def)
  next
    case False
    then show ?thesis unfolding d closure_dict [OF g(4)] by (auto simp: g item_ids_def)
  qed
  with c d g(3) show ?thesis by (auto simp: fun_eq_iff)
qed

theorem analyzer_closure_exact_witness:
  "\<exists>g c. build sample_builder = Some g \<and> compute_transitive_closure g = Some c
     \<and> \<not> cyclic_below (bg_dependencies g) (map fst (bg_items g)) \<and> map_of c = map_of (bg_transitive_closure g)"
proof -
  obtain g where g: "build sample_builder = Some g" using build_returns by blast
  have f: "bg_items g = gb_items sample_builder" "bg_dependencies g = gb_dependencies sample_builder"
    using build_returns [of sample_builder] g by auto
  have "detect_cycles (adjacency (gb_dependencies sample_builder)) (map fst (gb_items sample_builder)) = Some []"
    by code_simp
  then have "\<not> cyclic_below (bg_dependencies g) (map fst (bg_items g))"
    using detect_cycles_deps [of "gb_dependencies sample_builder" "map fst (gb_items sample_builder)"] by (simp add: f)
  with analyzer_closure_exact [OF g] g show ?thesis by blast
qed

text \<open>Impact analysis is exact: the direct dependents of an item are the sources of dependencies on it, the
  transitive dependents are everything that reaches it, their number is the estimated impact, and the
  blockers are the ids to which the last dependency from the item is of type blocks.\<close>

theorem impact_analysis_exact:
  "impact_analysis g i = Some
     \<lparr>im_direct_dependents = sorted_list_of_set {v. (v, i) \<in> dep_edges (bg_dependencies g)},
      im_transitive_dependents = sorted_list_of_set {v. i \<in> reachable_from (bg_dependencies g) v},
      im_blockers = sorted_list_of_set {t. last_type (bg_dependencies g) i t = Some Blocks},
      im_estimated_impact_count = card {v. i \<in> reachable_from (bg_dependencies g) v}\<rparr>"
  by (simp add: impact_analysis_result reachable_from_def)

text \<open>C27: The critical path is a longest path. On a graph in which no item can reach a cycle, the computed
  list is a path that starts at an item (or empty when there are no items), and no path from any item is
  longer.\<close>

theorem critical_path_is_longest:
  assumes "\<not> cyclic_below (bg_dependencies g) (map fst (bg_items g))"
  shows "\<exists>p. critical_path g = Some p
    \<and> (p = [] \<or> (\<exists>i \<in> item_ids g. path_from (adjacency (bg_dependencies g)) i p))
    \<and> (\<forall>i \<in> item_ids g. \<forall>q. path_from (adjacency (bg_dependencies g)) i q \<longrightarrow> length q \<le> length p)"
proof -
  have "memo_longest (adjacency (bg_dependencies g)) []" by (simp add: memo_longest_def)
  from acyclic_deps.critical_path_longest [OF acyclic_part_items [OF assms] this]
  show ?thesis unfolding critical_path_def item_ids_def by blast
qed

theorem critical_path_is_longest_witness:
  "\<exists>p. critical_path (sample_graph [(''a'', ''new''), (''b'', ''new''), (''c'', ''new'')]
       [sample_dep ''a'' ''c'' Blocks, sample_dep ''a'' ''b'' Blocks, sample_dep ''b'' ''c'' Blocks]) = Some p
     \<and> length p \<ge> 3"
proof -
  let ?g = "sample_graph [(''a'', ''new''), (''b'', ''new''), (''c'', ''new'')]
       [sample_dep ''a'' ''c'' Blocks, sample_dep ''a'' ''b'' Blocks, sample_dep ''b'' ''c'' Blocks]"
  have "detect_cycles (adjacency (bg_dependencies ?g)) (map fst (bg_items ?g)) = Some []" by code_simp
  then have "\<not> cyclic_below (bg_dependencies ?g) (map fst (bg_items ?g))"
    using detect_cycles_deps [of "bg_dependencies ?g" "map fst (bg_items ?g)"] by simp
  from critical_path_is_longest [OF this] obtain p where p: "critical_path ?g = Some p"
    "\<forall>i \<in> item_ids ?g. \<forall>q. path_from (adjacency (bg_dependencies ?g)) i q \<longrightarrow> length q \<le> length p" by blast
  have "path_from (adjacency (bg_dependencies ?g)) ''a'' [''a'', ''b'', ''c'']"
    by (simp add: path_from_def adjacency_list sample_graph_def sample_dep_def)
  moreover have "''a'' \<in> item_ids ?g" by (simp add: item_ids_def sample_graph_def)
  ultimately have "length [''a'', ''b'', ''c''] \<le> length p" using p(2) by blast
  with p(1) show ?thesis by auto
qed

text \<open>On a cyclic graph the critical path is not a path of distinct items: for two items that depend on
  each other the computed path visits the first item twice, although the function always returns.\<close>

theorem critical_path_repeats_on_cycles:
  "(\<exists>p. critical_path g = Some p)
   \<and> critical_path (sample_graph [(''a'', ''new''), (''b'', ''new'')]
        [sample_dep ''a'' ''b'' Blocks, sample_dep ''b'' ''a'' Blocks]) = Some [''a'', ''b'', ''a'']"
proof
  show "\<exists>p. critical_path g = Some p"
    unfolding critical_path_def
    by (rule dep_graph.critical_path_returns [of _ "map fst (bg_items g)"]) auto
  show "critical_path (sample_graph [(''a'', ''new''), (''b'', ''new'')]
        [sample_dep ''a'' ''b'' Blocks, sample_dep ''b'' ''a'' Blocks]) = Some [''a'', ''b'', ''a'']"
    by code_simp
qed

text \<open>A delta is exact and reversible. Removing the removed ids from the baseline and adding the added ones
  gives the current ids, and the same for dependencies; nothing changed exactly when the delta is empty;
  the delta in the other direction swaps added and removed and keeps the updated items; and the rollback
  risk is LOW exactly when every baseline item and dependency is still there.\<close>

theorem delta_exact:
  fixes b c
  defines "d \<equiv> compute_delta b c" and "r \<equiv> compute_delta c b"
  shows "item_ids c = (item_ids b - set (dl_removed_items d)) \<union> set (dl_added_items d)
    \<and> edge_keys c = (edge_keys b - set (dl_removed_dependencies d)) \<union> set (dl_new_dependencies d)
    \<and> (d = empty_delta \<longleftrightarrow> item_ids b = item_ids c \<and> edge_keys b = edge_keys c
         \<and> (\<forall>i \<in> item_ids b. without_raw (item_at b i) = without_raw (item_at c i)))
    \<and> dl_added_items r = dl_removed_items d \<and> dl_removed_items r = dl_added_items d
    \<and> dl_updated_items r = dl_updated_items d
    \<and> dl_new_dependencies r = dl_removed_dependencies d
    \<and> (rollback_analysis b c = ''LOW'' \<longleftrightarrow> item_ids b \<subseteq> item_ids c \<and> edge_keys b \<subseteq> edge_keys c)"
proof -
  have fin: "finite (item_ids g)" "finite (edge_keys g)" for g by (simp_all add: item_ids_def edge_keys_def)
  note delta = compute_delta_def Let_def
  have st: "bi_status (item_at b i) = bi_status (item_at c i)"
    if "without_raw (item_at b i) = without_raw (item_at c i)" for i
    using arg_cong [OF that, of bi_status] by (simp add: without_raw_def)
  have "item_ids c = (item_ids b - set (dl_removed_items d)) \<union> set (dl_added_items d)"
    "edge_keys c = (edge_keys b - set (dl_removed_dependencies d)) \<union> set (dl_new_dependencies d)"
    using fin by (auto simp: d_def delta)
  moreover have "d = empty_delta \<longleftrightarrow> item_ids b = item_ids c \<and> edge_keys b = edge_keys c
         \<and> (\<forall>i \<in> item_ids b. without_raw (item_at b i) = without_raw (item_at c i))"
    using fin st by (auto simp: d_def delta empty_delta_def filter_empty_conv sorted_list_of_set_eq_Nil_iff)
  moreover have "dl_added_items r = dl_removed_items d" "dl_removed_items r = dl_added_items d"
    "dl_updated_items r = dl_updated_items d" "dl_new_dependencies r = dl_removed_dependencies d"
    by (simp_all add: d_def r_def delta Int_commute eq_commute)
  moreover have "rollback_analysis b c = ''LOW'' \<longleftrightarrow> item_ids b \<subseteq> item_ids c \<and> edge_keys b \<subseteq> edge_keys c"
    using fin by (auto simp: rollback_analysis_def delta)
  ultimately show ?thesis by blast
qed

theorem delta_exact_witness:
  "compute_delta (sample_graph [(''a'', ''new'')] []) (sample_graph [(''a'', ''new'')] []) = empty_delta
   \<and> rollback_analysis (sample_graph [(''a'', ''new'')] []) (sample_graph [(''a'', ''done''), (''b'', ''new'')] []) = ''LOW''"
proof
  let ?g = "sample_graph [(''a'', ''new'')] []" and ?h = "sample_graph [(''a'', ''done''), (''b'', ''new'')] []"
  show "compute_delta ?g ?g = empty_delta"
    by (rule delta_exact [of ?g ?g, THEN conjunct2, THEN conjunct2, THEN conjunct1, THEN iffD2]) simp
  have "item_ids ?g \<subseteq> item_ids ?h" "edge_keys ?g \<subseteq> edge_keys ?h"
    by (simp_all add: item_ids_def edge_keys_def sample_graph_def)
  then have "item_ids ?g \<subseteq> item_ids ?h \<and> edge_keys ?g \<subseteq> edge_keys ?h" by (rule conjI)
  then show "rollback_analysis ?g ?h = ''LOW''"
    by (rule delta_exact [where b = ?g and c = ?h, THEN conjunct2, THEN conjunct2, THEN conjunct2, THEN conjunct2, THEN conjunct2,
          THEN conjunct2, THEN conjunct2, THEN iffD2])
qed



end
