(* ===== verification/Policy_Engine.thy ===== *)
theory Policy_Engine
  imports Prelude
begin

text \<open>
  The policy engine of the backlog bundle (\<^verbatim>\<open>policy_engine/policy_engine\<close>): normalisation of snapshot items
  (\<^verbatim>\<open>engine/validator.py\<close>), the Scrum, Kanban and SAFe policy families (\<^verbatim>\<open>policies/\<close>), the evaluator
  registry, and the filtering, limiting, grouping and exit code of the commands (\<^verbatim>\<open>main.py\<close>).

  Parameters of the model: the configuration and the snapshot payload are arguments, read from YAML or JSON
  files by the source; registered evaluators are functions. The digit limit of \<open>int\<close> on item pointers is
  not modelled.
\<close>

section \<open>Configuration and results\<close>

record ScrumPolicyConfig =
  dor_required_fields :: "string list"
  dod_required_fields :: "string list"

record KanbanColumnPolicyConfig =
  entry_required_fields :: "string list"
  exit_required_fields :: "string list"

record PolicyConfig =
  pol_scrum :: ScrumPolicyConfig
  pol_kanban_columns :: "(string \<times> KanbanColumnPolicyConfig) list"
  pol_safe_required_fields :: "string list"

record PolicyResult =
  pr_rule_id :: string
  pr_severity :: string
  pr_evidence_pointer :: string
  pr_recommended_action :: string
  pr_message :: string

text \<open>\<open>normalize_policy_result\<close> and its precondition.\<close>

definition normalizable :: "PolicyResult \<Rightarrow> bool" where
  "normalizable r = (non_blank (pr_rule_id r) \<and> non_blank (pr_severity r)
     \<and> non_blank (pr_evidence_pointer r) \<and> non_blank (pr_recommended_action r))"

definition normalize_policy_result :: "PolicyResult \<Rightarrow> PolicyResult" where
  "normalize_policy_result r =
     \<lparr>pr_rule_id = py_strip (pr_rule_id r), pr_severity = py_lower (py_strip (pr_severity r)),
      pr_evidence_pointer = py_strip (pr_evidence_pointer r),
      pr_recommended_action = py_strip (pr_recommended_action r), pr_message = py_strip (pr_message r)\<rparr>"

section \<open>Snapshot items\<close>

definition is_missing_value :: "pyval \<Rightarrow> bool" where
  "is_missing_value v =
     (case v of PNone \<Rightarrow> True | PStr s \<Rightarrow> py_strip s = [] | PList xs \<Rightarrow> xs = [] | _ \<Rightarrow> False)"

definition coerce_items :: "pyval \<Rightarrow> pyval list" where
  "coerce_items v =
     (case v of PList xs \<Rightarrow> xs | PDict d \<Rightarrow> filter is_pdict (map snd d) | _ \<Rightarrow> [])"

definition extract_items :: "pyval \<Rightarrow> pyval list" where
  "extract_items payload =
     (case payload of
        PList xs \<Rightarrow> xs
      | PDict d \<Rightarrow>
          (if dhas d ''items'' then coerce_items (dget d ''items'')
           else (case dget d ''backlog_graph'' of
                   PDict g \<Rightarrow> if dhas g ''items'' then coerce_items (dget g ''items'') else []
                 | _ \<Rightarrow> []))
      | _ \<Rightarrow> [])"

fun first_present :: "pydict \<Rightarrow> pydict \<Rightarrow> string list \<Rightarrow> pyval" where
  "first_present primary secondary [] = PNone"
| "first_present primary secondary (key # keys) =
     (if dhas primary key \<and> \<not> is_missing_value (dget primary key) then dget primary key
      else if dhas secondary key \<and> \<not> is_missing_value (dget secondary key) then dget secondary key
      else first_present primary secondary keys)"

text \<open>The heading pattern: up to three white-space characters, one to six hashes, white space, a title.
  The result is the title, stripped and lowered.\<close>

definition heading_title :: "string \<Rightarrow> string option" where
  "heading_title line =
     (let lead = takeWhile py_is_space line; r1 = dropWhile py_is_space line;
          hashes = takeWhile (\<lambda>c. c = CHR ''#'') r1; r = dropWhile (\<lambda>c. c = CHR ''#'') r1
      in if length lead \<le> 3 \<and> 1 \<le> length hashes \<and> length hashes \<le> 6
            \<and> 2 \<le> length r \<and> py_is_space (hd r)
         then Some (py_lower (py_strip r)) else None)"

fun collect_section :: "string list \<Rightarrow> bool \<Rightarrow> string list \<Rightarrow> string list" where
  "collect_section names collecting [] = []"
| "collect_section names collecting (line # rest) =
     (case heading_title line of
        Some title \<Rightarrow> (if collecting then [] else collect_section names (title \<in> set names) rest)
      | None \<Rightarrow> (if collecting then line # collect_section names True rest
                 else collect_section names False rest))"

definition extract_markdown_section :: "string \<Rightarrow> string list \<Rightarrow> pyval" where
  "extract_markdown_section description section_names =
     (if py_strip description = [] then PNone
      else (let names = map (\<lambda>n. py_lower (py_strip n)) section_names;
                content = py_strip (py_join [CHR 0x0A] (collect_section names False (py_splitlines description)))
            in if content \<noteq> [] then PStr content else PNone))"

definition description_text :: "pydict \<Rightarrow> string" where
  "description_text d = py_str (py_or (dget d ''description'') (PStr []))"

definition set_if_present :: "pydict \<Rightarrow> string \<Rightarrow> pyval \<Rightarrow> pydict" where
  "set_if_present d key v = (if is_missing_value v then d else dset d key v)"

definition or_section :: "pydict \<Rightarrow> string \<Rightarrow> pyval \<Rightarrow> pyval" where
  "or_section d name v =
     (if is_missing_value v then extract_markdown_section (description_text d) [name] else v)"

definition acceptance_keys :: "string list" where
  "acceptance_keys = [''acceptance_criteria'', ''acceptanceCriteria'', ''System.AcceptanceCriteria'', ''acceptance criteria'']"

definition business_keys :: "string list" where
  "business_keys = [''business_value'', ''businessValue'', ''Microsoft.VSTS.Common.BusinessValue'', ''business value'']"

definition done_keys :: "string list" where
  "done_keys = [''definition_of_done'', ''definitionOfDone'', ''System.DefinitionOfDone'', ''definition of done'']"

definition normalize_policy_item :: "pydict \<Rightarrow> pydict" where
  "normalize_policy_item item =
     (let raw = (case dget item ''raw_data'' of PDict r \<Rightarrow> r | _ \<Rightarrow> []);
          n1 = set_if_present item ''acceptance_criteria''
                 (or_section item ''acceptance criteria'' (first_present item raw acceptance_keys));
          n2 = set_if_present n1 ''business_value'' (first_present n1 raw business_keys)
      in set_if_present n2 ''definition_of_done''
           (or_section n2 ''definition of done'' (first_present n2 raw done_keys)))"

text \<open>\<open>load_snapshot_items\<close> from the decoded payload; \<open>None\<close> when there is no item to evaluate.\<close>

definition snapshot_items :: "pyval \<Rightarrow> pydict list option" where
  "snapshot_items payload =
     (let items = [normalize_policy_item d. PDict d \<leftarrow> extract_items payload]
      in if items = [] then None else Some items)"

section \<open>Policy families\<close>

definition is_missing :: "pydict \<Rightarrow> string \<Rightarrow> bool" where
  "is_missing item field = is_missing_value (dget item field)"

definition quote :: "string \<Rightarrow> string" where
  "quote s = [CHR 0x27] @ s @ [CHR 0x27]"

definition pointer :: "nat \<Rightarrow> string \<Rightarrow> string" where
  "pointer idx field = ''items['' @ show_nat idx @ ''].'' @ field"

definition field_failure :: "nat \<Rightarrow> string \<Rightarrow> string \<Rightarrow> string \<Rightarrow> string \<Rightarrow> PolicyResult" where
  "field_failure idx rule action msg field =
     normalize_policy_result
       \<lparr>pr_rule_id = rule @ field, pr_severity = ''error'', pr_evidence_pointer = pointer idx field,
        pr_recommended_action = action, pr_message = msg\<rparr>"

text \<open>\<open>for field in fields: if _is_missing(item, field): findings.append(...)\<close>\<close>

definition missing_failures :: "pydict \<Rightarrow> (string \<Rightarrow> PolicyResult) \<Rightarrow> string list \<Rightarrow> PolicyResult list" where
  "missing_failures item failure names = map failure (filter (is_missing item) names)"

definition scrum_item_failures :: "PolicyConfig \<Rightarrow> nat \<Rightarrow> pydict \<Rightarrow> PolicyResult list" where
  "scrum_item_failures config idx item =
     missing_failures item
       (\<lambda>field. field_failure idx ''scrum.dor.'' (''Add required DoR field '' @ quote field @ ''.'')
          (''Missing required DoR field '' @ quote field @ ''.'') field)
       (dor_required_fields (pol_scrum config))
     @ missing_failures item
       (\<lambda>field. field_failure idx ''scrum.dod.'' (''Add required DoD field '' @ quote field @ ''.'')
          (''Missing required DoD field '' @ quote field @ ''.'') field)
       (dod_required_fields (pol_scrum config))"

definition item_column :: "pydict \<Rightarrow> string" where
  "item_column item = py_strip (py_str (dget_or item ''column'' (PStr [])))"

definition column_rules :: "PolicyConfig \<Rightarrow> pydict \<Rightarrow> KanbanColumnPolicyConfig option" where
  "column_rules config item =
     (if item_column item = [] then None else map_of (pol_kanban_columns config) (item_column item))"

definition kanban_item_failures :: "PolicyConfig \<Rightarrow> nat \<Rightarrow> pydict \<Rightarrow> PolicyResult list" where
  "kanban_item_failures config idx item =
     (case column_rules config item of
        None \<Rightarrow> []
      | Some rules \<Rightarrow>
          (let column = item_column item
           in missing_failures item
                (\<lambda>field. field_failure idx (''kanban.entry.'' @ column @ ''.'')
                   (''Add required entry field '' @ quote field @ '' before column '' @ quote column @ ''.'')
                   (''Missing required entry field '' @ quote field @ '' for column '' @ quote column @ ''.'') field)
                (entry_required_fields rules)
              @ missing_failures item
                (\<lambda>field. field_failure idx (''kanban.exit.'' @ column @ ''.'')
                   (''Add required exit field '' @ quote field @ '' before leaving column '' @ quote column @ ''.'')
                   (''Missing required exit field '' @ quote field @ '' for column '' @ quote column @ ''.'') field)
                (exit_required_fields rules)))"

definition safe_item_failures :: "PolicyConfig \<Rightarrow> nat \<Rightarrow> pydict \<Rightarrow> PolicyResult list" where
  "safe_item_failures config idx item =
     missing_failures item
       (\<lambda>field. field_failure idx ''safe.pi_readiness.'' (''Add PI readiness field '' @ quote field @ ''.'')
          (''Missing required PI readiness field '' @ quote field @ ''.'') field)
       (pol_safe_required_fields config)"

text \<open>\<open>for idx, item in enumerate(items)\<close>\<close>

definition for_items :: "(nat \<Rightarrow> pydict \<Rightarrow> PolicyResult list) \<Rightarrow> pydict list \<Rightarrow> PolicyResult list" where
  "for_items f items = concat (map (\<lambda>(idx, item). f idx item) (enumerate 0 items))"

definition build_scrum_failures :: "PolicyConfig \<Rightarrow> pydict list \<Rightarrow> PolicyResult list" where
  "build_scrum_failures config items = for_items (scrum_item_failures config) items"

definition build_kanban_failures :: "PolicyConfig \<Rightarrow> pydict list \<Rightarrow> PolicyResult list" where
  "build_kanban_failures config items =
     (if pol_kanban_columns config = [] then [] else for_items (kanban_item_failures config) items)"

definition build_safe_failures :: "PolicyConfig \<Rightarrow> pydict list \<Rightarrow> PolicyResult list" where
  "build_safe_failures config items =
     (if pol_safe_required_fields config = [] then [] else for_items (safe_item_failures config) items)"

section \<open>Registry and validation\<close>

type_synonym PolicyEvaluator = "PolicyConfig \<Rightarrow> pydict list \<Rightarrow> PolicyResult list"

type_synonym PolicyRegistry = "(string \<times> PolicyEvaluator) list"

definition register_evaluator :: "string \<Rightarrow> PolicyEvaluator \<Rightarrow> PolicyRegistry \<Rightarrow> PolicyRegistry" where
  "register_evaluator name evaluator reg = AList.update name evaluator reg"

definition list_names :: "PolicyRegistry \<Rightarrow> string list" where
  "list_names reg = sort (map fst reg)"

definition get_all :: "PolicyRegistry \<Rightarrow> PolicyEvaluator list" where
  "get_all reg = map (\<lambda>name. the (map_of reg name)) (list_names reg)"

definition validate_policies :: "PolicyConfig \<Rightarrow> pydict list \<Rightarrow> PolicyRegistry option \<Rightarrow> PolicyResult list" where
  "validate_policies config items registry =
     build_scrum_failures config items @ build_kanban_failures config items @ build_safe_failures config items
     @ (case registry of None \<Rightarrow> [] | Some reg \<Rightarrow> concat (map (\<lambda>e. e config items) (get_all reg)))"

section \<open>Commands\<close>

definition normalize_rule_filters :: "string list \<Rightarrow> string list" where
  "normalize_rule_filters raws =
     filter (\<lambda>t. t \<noteq> []) (map py_strip (concat (map (py_split_char (CHR '','')) raws)))"

definition filter_findings_by_rule :: "PolicyResult list \<Rightarrow> string list \<Rightarrow> PolicyResult list" where
  "filter_findings_by_rule findings rule_filters =
     (if rule_filters = [] then findings
      else filter (\<lambda>f. \<exists>rule \<in> set rule_filters. py_contains (pr_rule_id f) rule) findings)"

text \<open>\<open>items\[(\d+)\]\<close>, searched from the left.\<close>

definition pointer_at :: "string \<Rightarrow> nat option" where
  "pointer_at s =
     (let ds = takeWhile is_digit (drop 6 s); rest = dropWhile is_digit (drop 6 s)
      in if take 6 s = ''items['' \<and> ds \<noteq> [] \<and> take 1 rest = '']'' then parse_digits 0 False ds else None)"

fun extract_item_index :: "string \<Rightarrow> nat option" where
  "extract_item_index [] = None"
| "extract_item_index (c # cs) =
     (case pointer_at (c # cs) of Some n \<Rightarrow> Some n | None \<Rightarrow> extract_item_index cs)"

definition finding_index :: "PolicyResult \<Rightarrow> nat option" where
  "finding_index f = extract_item_index (pr_evidence_pointer f)"

definition limit_findings_by_item :: "PolicyResult list \<Rightarrow> nat option \<Rightarrow> PolicyResult list" where
  "limit_findings_by_item findings limit =
     (case limit of
        None \<Rightarrow> findings
      | Some n \<Rightarrow>
          (let item_indexes = sorted_list_of_set (set (List.map_filter finding_index findings));
               allowed = set (take n item_indexes)
           in filter (\<lambda>f. case finding_index f of None \<Rightarrow> False | Some i \<Rightarrow> i \<in> allowed) findings))"

definition group_failures_by_item :: "PolicyResult list \<Rightarrow> (nat \<times> PolicyResult list) list" where
  "group_failures_by_item findings =
     sort_key fst (foldl (\<lambda>d f. case finding_index f of None \<Rightarrow> d | Some i \<Rightarrow> dict_push d i f) [] findings)"

record PolicySuggestion =
  sg_rule_id :: string
  sg_confidence :: rat
  sg_reason :: string
  sg_patch_path :: string

definition score_confidence :: "PolicyResult \<Rightarrow> rat" where
  "score_confidence f = (if pr_severity f = ''error'' then 9 / 10 else 3 / 4)"

definition build_suggestions :: "PolicyResult list \<Rightarrow> PolicySuggestion list" where
  "build_suggestions findings =
     map (\<lambda>f. \<lparr>sg_rule_id = pr_rule_id f, sg_confidence = score_confidence f, sg_reason = pr_message f,
               sg_patch_path = pr_evidence_pointer f\<rparr>) findings"

definition group_suggestions_by_item :: "PolicySuggestion list \<Rightarrow> (nat \<times> PolicySuggestion list) list" where
  "group_suggestions_by_item suggestions =
     sort_key fst (foldl (\<lambda>d s. case extract_item_index (sg_patch_path s) of None \<Rightarrow> d | Some i \<Rightarrow> dict_push d i s)
        [] suggestions)"

text \<open>The findings a command reports, and the exit code of \<open>validate\<close>.\<close>

definition selected_findings ::
  "PolicyConfig \<Rightarrow> pydict list \<Rightarrow> string list \<Rightarrow> nat option \<Rightarrow> bool \<Rightarrow> PolicyResult list" where
  "selected_findings config items rule limit group_by_item =
     (let findings = filter_findings_by_rule (validate_policies config items None) (normalize_rule_filters rule)
      in if group_by_item then limit_findings_by_item findings limit
         else (case limit of None \<Rightarrow> findings | Some n \<Rightarrow> take n findings))"

definition validate_exit_code ::
  "PolicyConfig \<Rightarrow> pydict list \<Rightarrow> string list \<Rightarrow> nat option \<Rightarrow> bool \<Rightarrow> string \<Rightarrow> int" where
  "validate_exit_code config items rule limit group_by_item output_format =
     (if py_lower (py_strip output_format) \<notin> {''json'', ''markdown'', ''both''} then 2
      else if selected_findings config items rule limit group_by_item \<noteq> [] then 1 else 0)"

text \<open>\<open>render_markdown\<close>.\<close>

definition table_row :: "PolicyResult \<Rightarrow> string" where
  "table_row f = ''| '' @ pr_rule_id f @ '' | '' @ pr_severity f @ '' | '' @ pr_evidence_pointer f
     @ '' | '' @ pr_recommended_action f @ '' |''"

definition table_head :: "string list" where
  "table_head = [''| rule_id | severity | evidence_pointer | recommended_action |'', ''|---|---|---|---|'']"

definition result_head :: "PolicyResult list \<Rightarrow> string list" where
  "result_head findings =
     [''# Policy Validation Results'', [], ''- Findings: '' @ show_nat (length findings), []]"

definition render_markdown :: "PolicyResult list \<Rightarrow> string" where
  "render_markdown findings =
     (let nl = [CHR 0x0A]
      in if findings = [] then py_join nl (result_head findings @ [''No policy failures found.'']) @ nl
         else py_join nl (result_head findings @ table_head @ map table_row findings @ [[]]))"

definition render_grouped_markdown :: "PolicyResult list \<Rightarrow> string" where
  "render_grouped_markdown findings =
     (let nl = [CHR 0x0A]; groups = group_failures_by_item findings
      in if groups = [] then py_join nl (result_head findings @ [''No grouped item findings available.'']) @ nl
         else py_join nl (result_head findings
           @ concat (map (\<lambda>(i, fs). [''## Item '' @ show_nat i @ '' ('' @ show_nat (length fs) @ '' findings)'', []]
                @ table_head @ map table_row fs @ [[]]) groups)))"

section \<open>Lemmas on findings\<close>

lemma pointer_strip: "py_strip (pointer idx field) = ''items['' @ show_nat idx @ ''].'' @ py_rstrip field"
proof -
  have s: "\<not> py_is_space (CHR ''i'')" "\<not> py_is_space (CHR ''.'')" by (simp_all add: py_is_space_def)
  have "pointer idx field = (''items['' @ show_nat idx @ '']'') @ CHR ''.'' # field" by (simp add: pointer_def)
  then have "py_rstrip (pointer idx field) = (''items['' @ show_nat idx @ '']'') @ CHR ''.'' # py_rstrip field"
    using py_rstrip_stop [OF s(2)] by presburger
  moreover have "py_strip (pointer idx field) = py_rstrip (pointer idx field)"
    using py_strip_keep [OF s(1)] by (simp add: pointer_def)
  ultimately show ?thesis by simp
qed

lemma digits_then_stop:
  assumes "list_all is_digit ds" and "\<not> is_digit c"
  shows "takeWhile is_digit (ds @ c # rest) = ds" and "dropWhile is_digit (ds @ c # rest) = c # rest"
  using assms by (induction ds) auto

lemma field_failure_index [simp]: "finding_index (field_failure idx rule action msg field) = Some idx"
proof -
  have c: "\<not> is_digit (CHR '']'')" by (simp add: is_digit_def)
  have "pointer_at (''items['' @ show_nat idx @ ''].'' @ py_rstrip field) = Some idx"
    using digits_then_stop [OF show_nat_digits [of idx] c, of "CHR ''.'' # py_rstrip field"]
    by (simp add: pointer_at_def parse_show_nat)
  then show ?thesis
    by (simp add: finding_index_def field_failure_def normalize_policy_result_def pointer_strip)
qed

lemma for_items_mem: "r \<in> set (for_items f items) \<longleftrightarrow> (\<exists>i < length items. r \<in> set (f i (items ! i)))"
proof
  assume "\<exists>i < length items. r \<in> set (f i (items ! i))"
  then obtain i where "(i, items ! i) \<in> set (enumerate 0 items)" "r \<in> set (f i (items ! i))"
    by (auto simp: in_set_enumerate_eq)
  then show "r \<in> set (for_items f items)" unfolding for_items_def by force
qed (auto simp: for_items_def in_set_enumerate_eq)

lemma for_items_empty: "for_items f items = [] \<longleftrightarrow> (\<forall>i < length items. f i (items ! i) = [])"
  using for_items_mem [of _ f items] by (metis all_not_in_conv set_empty)

text \<open>The fields an item must have, per family.\<close>

definition kanban_fields :: "PolicyConfig \<Rightarrow> pydict \<Rightarrow> string list" where
  "kanban_fields config item =
     (case column_rules config item of None \<Rightarrow> [] | Some r \<Rightarrow> entry_required_fields r @ exit_required_fields r)"

definition required_fields :: "PolicyConfig \<Rightarrow> pydict \<Rightarrow> string list" where
  "required_fields config item =
     dor_required_fields (pol_scrum config) @ dod_required_fields (pol_scrum config)
     @ kanban_fields config item @ pol_safe_required_fields config"

lemma missing_failures_empty:
  "missing_failures item failure names = [] \<longleftrightarrow> (\<forall>f \<in> set names. \<not> is_missing item f)"
  by (simp add: missing_failures_def filter_empty_conv)

lemma kanban_item_empty:
  "kanban_item_failures config i item = [] \<longleftrightarrow> (\<forall>f \<in> set (kanban_fields config item). \<not> is_missing item f)"
  by (cases "column_rules config item")
    (auto simp: kanban_item_failures_def kanban_fields_def missing_failures_empty Let_def)

lemma family_empty:
  "build_scrum_failures config items = [] \<longleftrightarrow>
     (\<forall>i < length items. \<forall>f \<in> set (dor_required_fields (pol_scrum config) @ dod_required_fields (pol_scrum config)).
        \<not> is_missing (items ! i) f)"
  "build_kanban_failures config items = [] \<longleftrightarrow>
     (\<forall>i < length items. \<forall>f \<in> set (kanban_fields config (items ! i)). \<not> is_missing (items ! i) f)"
  "build_safe_failures config items = [] \<longleftrightarrow>
     (\<forall>i < length items. \<forall>f \<in> set (pol_safe_required_fields config). \<not> is_missing (items ! i) f)"
proof -
  have k: "kanban_fields config item = []" if "pol_kanban_columns config = []" for item
    using that by (simp add: kanban_fields_def column_rules_def)
  show "build_scrum_failures config items = [] \<longleftrightarrow>
     (\<forall>i < length items. \<forall>f \<in> set (dor_required_fields (pol_scrum config) @ dod_required_fields (pol_scrum config)).
        \<not> is_missing (items ! i) f)"
    by (auto simp: build_scrum_failures_def scrum_item_failures_def for_items_empty missing_failures_empty)
  show "build_kanban_failures config items = [] \<longleftrightarrow>
     (\<forall>i < length items. \<forall>f \<in> set (kanban_fields config (items ! i)). \<not> is_missing (items ! i) f)"
    using k by (simp add: build_kanban_failures_def for_items_empty kanban_item_empty)
  show "build_safe_failures config items = [] \<longleftrightarrow>
     (\<forall>i < length items. \<forall>f \<in> set (pol_safe_required_fields config). \<not> is_missing (items ! i) f)"
    by (simp add: build_safe_failures_def safe_item_failures_def for_items_empty missing_failures_empty)
qed

text \<open>A failure of item \<open>i\<close> about a required field that item \<open>i\<close> misses.\<close>

definition justified_failure :: "string list \<Rightarrow> nat \<Rightarrow> pydict \<Rightarrow> PolicyResult \<Rightarrow> bool" where
  "justified_failure required i item r =
     (\<exists>rule action msg. \<exists>field \<in> set required.
        r = field_failure i rule action msg field \<and> is_missing item field)"

lemma missing_failures_justified:
  assumes "r \<in> set (missing_failures item (\<lambda>field. field_failure i rule (action field) (msg field) field) names)"
    and "set names \<subseteq> set req"
  shows "justified_failure req i item r"
proof -
  from assms obtain field where "field \<in> set req" "is_missing item field"
    "r = field_failure i rule (action field) (msg field) field"
    by (auto simp: missing_failures_def)
  then show ?thesis unfolding justified_failure_def by blast
qed

lemma item_failures_justified:
  "r \<in> set (scrum_item_failures config i item) \<Longrightarrow> justified_failure (required_fields config item) i item r"
  "r \<in> set (kanban_item_failures config i item) \<Longrightarrow> justified_failure (required_fields config item) i item r"
  "r \<in> set (safe_item_failures config i item) \<Longrightarrow> justified_failure (required_fields config item) i item r"
proof -
  show "justified_failure (required_fields config item) i item r" if "r \<in> set (scrum_item_failures config i item)"
    using that unfolding scrum_item_failures_def set_append Un_iff
    by (elim disjE missing_failures_justified) (auto simp: required_fields_def)
  show "justified_failure (required_fields config item) i item r" if "r \<in> set (kanban_item_failures config i item)"
  proof (cases "column_rules config item")
    case (Some rules)
    with that show ?thesis
      unfolding kanban_item_failures_def Some Let_def option.case set_append Un_iff
      by (elim disjE missing_failures_justified) (auto simp: required_fields_def kanban_fields_def Some)
  qed (use that in \<open>simp add: kanban_item_failures_def\<close>)
  show "justified_failure (required_fields config item) i item r" if "r \<in> set (safe_item_failures config i item)"
    using that unfolding safe_item_failures_def
    by (elim missing_failures_justified) (auto simp: required_fields_def)
qed

lemma validate_justified:
  assumes "r \<in> set (validate_policies config items None)"
  obtains i where "i < length items" "justified_failure (required_fields config (items ! i)) i (items ! i) r"
proof -
  consider "r \<in> set (build_scrum_failures config items)" | "r \<in> set (build_kanban_failures config items)"
    | "r \<in> set (build_safe_failures config items)"
    using assms by (auto simp: validate_policies_def)
  then obtain i where i: "i < length items"
    "r \<in> set (scrum_item_failures config i (items ! i)) \<or> r \<in> set (kanban_item_failures config i (items ! i))
      \<or> r \<in> set (safe_item_failures config i (items ! i))"
    by cases (auto simp: build_scrum_failures_def build_kanban_failures_def build_safe_failures_def for_items_mem
        split: if_splits)
  from i(2) have "justified_failure (required_fields config (items ! i)) i (items ! i) r"
    by (elim disjE) (rule item_failures_justified, assumption)+
  with i(1) show thesis by (rule that)
qed

lemma justified_index: "justified_failure req i item r \<Longrightarrow> finding_index r = Some i"
  by (auto simp: justified_failure_def)

section \<open>Selection, limiting and grouping\<close>

lemma validate_empty:
  "validate_policies config items None = [] \<longleftrightarrow>
     (\<forall>item \<in> set items. \<forall>f \<in> set (required_fields config item). \<not> is_missing item f)"
proof -
  have "validate_policies config items None = [] \<longleftrightarrow>
     (\<forall>i < length items. \<forall>f \<in> set (required_fields config (items ! i)). \<not> is_missing (items ! i) f)"
    unfolding validate_policies_def required_fields_def by (auto simp: family_empty)
  then show ?thesis by (simp add: all_set_conv_all_nth)
qed

lemma validate_indexed:
  "r \<in> set (validate_policies config items None) \<Longrightarrow> \<exists>i < length items. finding_index r = Some i"
  by (elim validate_justified) (auto dest: justified_index)

lemma limit_by_item_empty:
  assumes "\<forall>f \<in> set findings. finding_index f \<noteq> None" and "limit \<noteq> Some 0"
  shows "limit_findings_by_item findings limit = [] \<longleftrightarrow> findings = []"
proof (cases limit)
  case (Some n)
  let ?I = "set (List.map_filter finding_index findings)"
  have "limit_findings_by_item findings limit \<noteq> []" if "findings \<noteq> []"
  proof -
    from that assms(1) obtain f j where "f \<in> set findings" "finding_index f = Some j"
      by (metis last_in_set not_None_eq)
    then have "j \<in> ?I" by (auto simp: set_map_filter)
    then have ne: "sorted_list_of_set ?I \<noteq> []" by (metis empty_iff finite_set set_empty set_sorted_list_of_set)
    define i where "i = hd (sorted_list_of_set ?I)"
    have "i \<in> ?I" using ne unfolding i_def by (metis finite_set hd_in_set set_sorted_list_of_set)
    then obtain g where g: "g \<in> set findings" "finding_index g = Some i" by (auto simp: set_map_filter)
    have "i \<in> set (take n (sorted_list_of_set ?I))"
      using ne Some assms(2) unfolding i_def by (cases "sorted_list_of_set ?I"; cases n) auto
    with g Some show ?thesis by (auto simp: limit_findings_by_item_def filter_empty_conv Let_def intro!: bexI [of _ g])
  qed
  then show ?thesis using Some by (auto simp: limit_findings_by_item_def)
qed (simp add: limit_findings_by_item_def)

lemma item_group_keys:
  "fst ` set (foldl (\<lambda>d x. case f x of None \<Rightarrow> d | Some i \<Rightarrow> dict_push d i x) d xs)
     = fst ` set d \<union> {i. \<exists>x \<in> set xs. f x = Some i}"
  by (induction xs arbitrary: d) (auto simp: dict_push_def dom_update split: option.splits)

lemma item_group_distinct:
  "distinct (map fst d) \<Longrightarrow>
   distinct (map fst (foldl (\<lambda>d x. case f x of None \<Rightarrow> d | Some i \<Rightarrow> dict_push d i x) d xs))"
  by (induction xs arbitrary: d) (auto simp: dict_push_def distinct_update split: option.splits)

lemma item_group_lookup:
  "dict_list (foldl (\<lambda>d x. case f x of None \<Rightarrow> d | Some i \<Rightarrow> dict_push d i x) d xs) k
     = dict_list d k @ filter (\<lambda>x. f x = Some k) xs"
  by (induction xs arbitrary: d) (auto simp: dict_list_push split: option.splits)

text \<open>Grouping through a dictionary and sorting it gives the groups in index order, each in finding order.\<close>

lemma sorted_groups:
  fixes f :: "'a \<Rightarrow> nat option"
  shows "sort_key fst (foldl (\<lambda>d x. case f x of None \<Rightarrow> d | Some i \<Rightarrow> dict_push d i x) [] xs)
     = map (\<lambda>i. (i, filter (\<lambda>x. f x = Some i) xs)) (sorted_list_of_set {i. \<exists>x \<in> set xs. f x = Some i})"
proof -
  define g where "g = foldl (\<lambda>d x. case f x of None \<Rightarrow> d | Some i \<Rightarrow> dict_push d i x) [] xs"
  have d: "distinct (map fst g)" unfolding g_def by (rule item_group_distinct) simp
  have keys: "sort (map fst g) = sorted_list_of_set {i. \<exists>x \<in> set xs. f x = Some i}"
    using item_group_keys [of f "[]" xs] sorted_list_of_set_sort_remdups [of "map fst g"] d
    by (simp add: distinct_remdups_id flip: g_def)
  have val: "p = (fst p, filter (\<lambda>x. f x = Some (fst p)) xs)" if "p \<in> set (sort_key fst g)" for p
  proof -
    from that d have "map_of g (fst p) = Some (snd p)" by (metis map_of_is_SomeI prod.collapse set_sort)
    moreover have "dict_list g (fst p) = filter (\<lambda>x. f x = Some (fst p)) xs"
      unfolding g_def item_group_lookup by (simp add: dict_list_def)
    ultimately have "snd p = filter (\<lambda>x. f x = Some (fst p)) xs" by (simp add: dict_list_def)
    then show ?thesis by (metis prod.collapse)
  qed
  have "sort_key fst g = map (\<lambda>p. (fst p, filter (\<lambda>x. f x = Some (fst p)) xs)) (sort_key fst g)"
    by (rule map_idI [symmetric]) (metis val)
  also have "\<dots> = map (\<lambda>i. (i, filter (\<lambda>x. f x = Some i) xs)) (map fst (sort_key fst g))" by simp
  also have "map fst (sort_key fst g) = sort (map fst g)"
    by (rule properties_for_sort [symmetric]) (simp_all add: mset_map del: map_map)
  finally show ?thesis unfolding g_def [symmetric] keys [symmetric] .
qed

section \<open>Normalisation\<close>

lemma dset_lookup: "map_of (dset d k v) (PStr j) = (if j = k then Some v else map_of d (PStr j))"
  by (simp add: dset_def update_conv')

lemma update_same: "map_of d k = Some v \<Longrightarrow> AList.update k v d = d"
  by (induction d) (auto split: if_splits)

lemma first_present_cong:
  "\<forall>k \<in> set keys. map_of p (PStr k) = map_of p' (PStr k) \<Longrightarrow> first_present p s keys = first_present p' s keys"
  by (induction keys) (auto simp: dhas_def dget_def)

text \<open>One step: the canonical key is set when a value is found under an alias.\<close>

lemma settled_step:
  assumes agree: "\<forall>j \<in> set (k # keys). map_of d' (PStr j) = map_of (set_if_present d k (h (first_present d s (k # keys)))) (PStr j)"
    and keep: "\<And>v. \<not> is_missing_value v \<Longrightarrow> h v = v"
  shows "set_if_present d' k (h (first_present d' s (k # keys))) = d'"
proof (cases "is_missing_value (h (first_present d s (k # keys)))")
  case True
  then have "first_present d' s (k # keys) = first_present d s (k # keys)"
    using agree by (intro first_present_cong) (auto simp: set_if_present_def)
  with True show ?thesis by (simp add: set_if_present_def)
next
  case False
  then have k: "map_of d' (PStr k) = Some (h (first_present d s (k # keys)))"
    using agree by (simp add: set_if_present_def dset_lookup)
  with False have "first_present d' s (k # keys) = h (first_present d s (k # keys))"
    by (simp add: dhas_def dget_def)
  with False k show ?thesis by (simp add: keep set_if_present_def dset_def update_same)
qed

lemma set_if_present_other: "j \<noteq> k \<Longrightarrow> map_of (set_if_present d k v) (PStr j) = map_of d (PStr j)"
  by (simp add: set_if_present_def dset_lookup)

lemma or_section_keep: "\<not> is_missing_value v \<Longrightarrow> or_section d name v = v"
  by (simp add: or_section_def)

lemma or_section_cong:
  "map_of d (PStr ''description'') = map_of d' (PStr ''description'') \<Longrightarrow> or_section d name v = or_section d' name v"
  by (simp add: or_section_def description_text_def dget_def)

section \<open>Properties of policy validation\<close>


text \<open>the exit code of \<open>policy validate\<close> tells whether the snapshot satisfies its policies. With an
  accepted output format and no rule filter, the code is 0 exactly when every item has every required field
  and 1 otherwise, whatever limit (at least one, as the command line enforces) and grouping are asked for: a
  limit shortens the report and never hides a failure.\<close>

theorem validate_exit_code_exact:
  assumes "py_lower (py_strip fmt) \<in> {''json'', ''markdown'', ''both''}"
    and "normalize_rule_filters rule = []" and "limit \<noteq> Some 0"
  shows "validate_exit_code config items rule limit grouped fmt
    = (if \<forall>item \<in> set items. \<forall>f \<in> set (required_fields config item). \<not> is_missing item f then 0 else 1)"
proof -
  have "\<forall>f \<in> set (validate_policies config items None). finding_index f \<noteq> None"
    using validate_indexed by fastforce
  then have "selected_findings config items rule limit grouped = [] \<longleftrightarrow> validate_policies config items None = []"
    using assms(2,3) limit_by_item_empty [OF _ assms(3)]
    by (auto simp: selected_findings_def filter_findings_by_rule_def Let_def split: option.splits)
  then show ?thesis using assms(1) unfolding validate_exit_code_def validate_empty by simp
qed

text \<open>the grouped report loses nothing. Grouping the findings of a validation gives one group for each item
  with a finding, by increasing item index, holding that item's findings in their order; together the groups
  are a permutation of the findings.\<close>

theorem grouping_conserves:
  fixes config items
  defines "fs \<equiv> validate_policies config items None"
  shows "group_failures_by_item fs = map (\<lambda>i. (i, filter (\<lambda>f. finding_index f = Some i) fs))
        (sorted_list_of_set {i. \<exists>f \<in> set fs. finding_index f = Some i})
    \<and> mset (concat (map snd (group_failures_by_item fs))) = mset fs"
proof -
  let ?I = "sorted_list_of_set {i. \<exists>f \<in> set fs. finding_index f = Some i}"
  have g: "group_failures_by_item fs = map (\<lambda>i. (i, filter (\<lambda>f. finding_index f = Some i) fs)) ?I"
    unfolding group_failures_by_item_def by (rule sorted_groups)
  have fin: "finite {i. \<exists>f \<in> set fs. finding_index f = Some i}"
    by (rule finite_subset [of _ "(\<lambda>f. the (finding_index f)) ` set fs"]) force+
  have "mset fs = sum_list (map (\<lambda>k. mset (filter (\<lambda>x. the (finding_index x) = k) fs)) ?I)"
    using fin validate_indexed by (intro mset_partition) (fastforce simp: fs_def)+
  moreover have "filter (\<lambda>x. the (finding_index x) = k) fs = filter (\<lambda>f. finding_index f = Some k) fs" for k
    using validate_indexed by (intro filter_cong) (fastforce simp: fs_def)+
  ultimately have "mset (concat (map snd (group_failures_by_item fs))) = mset fs"
    by (simp add: g mset_concat comp_def)
  with g show ?thesis by blast
qed

text \<open>Normalising a snapshot item is idempotent: once its acceptance criteria, business value and
  definition of done stand under their canonical keys, taken from an alias, the raw data or a section of the
  description, normalising it again changes nothing.\<close>

theorem normalize_policy_item_idempotent:
  "normalize_policy_item (normalize_policy_item item) = normalize_policy_item item"
proof -
  define raw where "raw = (case dget item ''raw_data'' of PDict r \<Rightarrow> r | _ \<Rightarrow> [])"
  define n1 where "n1 = set_if_present item ''acceptance_criteria''
    (or_section item ''acceptance criteria'' (first_present item raw acceptance_keys))"
  define n2 where "n2 = set_if_present n1 ''business_value'' (first_present n1 raw business_keys)"
  define n3 where "n3 = set_if_present n2 ''definition_of_done''
    (or_section n2 ''definition of done'' (first_present n2 raw done_keys))"
  have n: "normalize_policy_item item = n3"
    by (simp add: normalize_policy_item_def raw_def n1_def n2_def n3_def Let_def)
  have o: "map_of n3 (PStr j) = map_of item (PStr j)"
    if "j \<notin> {''acceptance_criteria'', ''business_value'', ''definition_of_done''}" for j
    using that by (simp add: n1_def n2_def n3_def set_if_present_other)
  have k1: "map_of n3 (PStr j) = map_of n1 (PStr j)" if "j \<notin> {''business_value'', ''definition_of_done''}" for j
    using that by (simp add: n2_def n3_def set_if_present_other)
  have k2: "map_of n3 (PStr j) = map_of n2 (PStr j)" if "j \<noteq> ''definition_of_done''" for j
    using that by (simp add: n3_def set_if_present_other)
  have sec: "or_section n3 = or_section item" "or_section n2 = or_section item"
    by (intro ext or_section_cong; simp add: n1_def n2_def n3_def set_if_present_other)+
  have raw: "(case dget n3 ''raw_data'' of PDict r \<Rightarrow> r | _ \<Rightarrow> []) = raw"
    by (simp add: raw_def dget_def o)
  have 1: "set_if_present n3 ''acceptance_criteria''
      (or_section item ''acceptance criteria'' (first_present n3 raw acceptance_keys)) = n3"
    unfolding acceptance_keys_def
    by (rule settled_step [where d = item])
      (simp_all add: k1 n1_def or_section_keep acceptance_keys_def del: first_present.simps)
  have 2: "set_if_present n3 ''business_value'' (first_present n3 raw business_keys) = n3"
    unfolding business_keys_def
    by (rule settled_step [where d = n1 and h = "\<lambda>v. v"])
      (simp_all add: k2 n2_def business_keys_def del: first_present.simps)
  have dn: "n3 = set_if_present n2 ''definition_of_done'' (or_section item ''definition of done'' (first_present n2 raw done_keys))"
    by (simp add: n3_def sec)
  have 3: "set_if_present n3 ''definition_of_done''
      (or_section item ''definition of done'' (first_present n3 raw done_keys)) = n3"
    unfolding done_keys_def
    by (rule settled_step [where d = n2]) (simp_all add: dn sec or_section_keep done_keys_def del: first_present.simps)
  show ?thesis
    unfolding n by (simp add: normalize_policy_item_def raw 1 2 3 sec Let_def)
qed

text \<open>The registry's evaluators are run in the order of their names, whatever the order in which they were
  registered.\<close>

theorem registry_order_is_by_name:
  assumes "distinct (map fst reg)" and "mset reg' = mset reg"
  shows "get_all reg' = get_all reg" and "list_names reg' = list_names reg" and "sorted (list_names reg)"
proof -
  show l: "list_names reg' = list_names reg"
    unfolding list_names_def using assms(2) by (metis mset_map mset_sort properties_for_sort sorted_sort)
  have "distinct (map fst reg')" by (metis assms mset_map mset_eq_imp_distinct_iff)
  then have "map_of reg' = map_of reg" using assms by (metis map_of_inject_set set_mset_mset)
  with l show "get_all reg' = get_all reg" by (simp add: get_all_def)
  show "sorted (list_names reg)" by (simp add: list_names_def)
qed

section \<open>Witnesses\<close>

definition demo_config :: PolicyConfig where
  "demo_config = \<lparr>pol_scrum = \<lparr>dor_required_fields = [''acceptance_criteria''], dod_required_fields = []\<rparr>,
     pol_kanban_columns = [(''Doing'', \<lparr>entry_required_fields = [''owner''], exit_required_fields = []\<rparr>)],
     pol_safe_required_fields = []\<rparr>"

definition demo_items :: "pydict list" where
  "demo_items =
     [normalize_policy_item [(PStr ''title'', PStr ''a''), (PStr ''acceptanceCriteria'', PStr ''given'')],
      normalize_policy_item [(PStr ''title'', PStr ''b''), (PStr ''column'', PStr ''Doing'')]]"


theorem validate_exit_code_exact_witness:
  "validate_exit_code demo_config demo_items [] (Some 1) True '' JSON'' = 1
   \<and> \<not> (\<forall>item \<in> set demo_items. \<forall>f \<in> set (required_fields demo_config item). \<not> is_missing item f)"
proof -
  have "\<not> (\<forall>item \<in> set demo_items. \<forall>f \<in> set (required_fields demo_config item). \<not> is_missing item f)"
    by code_simp
  moreover have "validate_exit_code demo_config demo_items [] (Some 1) True '' JSON''
    = (if \<forall>item \<in> set demo_items. \<forall>f \<in> set (required_fields demo_config item). \<not> is_missing item f then 0 else 1)"
    by (rule validate_exit_code_exact) code_simp+
  ultimately show ?thesis by simp
qed

theorem registry_order_is_by_name_witness:
  "get_all (register_evaluator ''a'' build_scrum_failures (register_evaluator ''b'' build_safe_failures []))
   = [build_scrum_failures, build_safe_failures]"
proof -
  have "get_all [(''b'', build_safe_failures), (''a'', build_scrum_failures)]
    = get_all [(''a'', build_scrum_failures), (''b'', build_safe_failures)]"
    by (rule registry_order_is_by_name(1)) simp_all
  moreover have "list_names [(''a'', build_scrum_failures), (''b'', build_safe_failures)] = [''a'', ''b'']" by code_simp
  ultimately show ?thesis by (simp add: register_evaluator_def get_all_def)
qed

end
