(* ===== verification/Requirement_Values.thy ===== *)
theory Requirement_Values
  imports Py_Json
begin

text \<open>
  Values of the requirements bundle and their canonical digest
  (\<^verbatim>\<open>requirements/lifecycle.py\<close>, \<open>_json_safe\<close> and \<open>canonical_digest\<close>).

  A sidecar value is a \<open>yval\<close>: what the YAML and JSON loaders return. A float carries the two texts
  \<open>repr\<close> and \<open>float.hex\<close>, a date or time its \<open>str\<close>, a set its elements in iteration
  order, and a value of any other type the name of the type. SHA-256 is a parameter, a function from the encoded
  text to the hexadecimal digest.

  The lemmas show that the encoding is injective up to the order of mappings and sets, and that it does
  not depend on that order.
\<close>

section \<open>Values\<close>

datatype yval =
    YNone
  | YBool bool
  | YInt int
  | YFloat string string
  | YStr string
  | YDatetime string
  | YDate string
  | YList "yval list"
  | YTuple "yval list"
  | YSet "yval list"
  | YMap "(yval \<times> yval) list"
  | YOther string

type_synonym ydict = "(yval \<times> yval) list"

definition yget :: "ydict \<Rightarrow> string \<Rightarrow> yval" where
  "yget d k = (case map_of d (YStr k) of None \<Rightarrow> YNone | Some v \<Rightarrow> v)"

definition yset :: "ydict \<Rightarrow> string \<Rightarrow> yval \<Rightarrow> ydict" where
  "yset d k v = AList.update (YStr k) v d"

text \<open>A dictionary display with string keys.\<close>

definition ydict_of :: "(string \<times> yval) list \<Rightarrow> ydict" where
  "ydict_of ps = map (\<lambda>(k, v). (YStr k, v)) ps"

fun is_ymap :: "yval \<Rightarrow> bool" where
  "is_ymap (YMap d) = True"
| "is_ymap _ = False"

text \<open>\<open>repr(v)\<close> and \<open>str(v)\<close>. The \<open>repr\<close> of a date inside a container is its constructor call; here it is
  the text, as only the scalars' \<open>str\<close> is used by the code.\<close>

fun y_repr :: "yval \<Rightarrow> string" where
  "y_repr YNone = ''None''"
| "y_repr (YBool b) = (if b then ''True'' else ''False'')"
| "y_repr (YInt i) = show_int i"
| "y_repr (YFloat r h) = r"
| "y_repr (YStr s) = repr_str s"
| "y_repr (YDatetime t) = t"
| "y_repr (YDate t) = t"
| "y_repr (YList xs) = ''['' @ py_join '', '' (map y_repr xs) @ '']''"
| "y_repr (YTuple xs) = ''('' @ py_join '', '' (map y_repr xs) @ (if length xs = 1 then '',)'' else '')'')"
| "y_repr (YSet xs) = ''{'' @ py_join '', '' (map y_repr xs) @ ''}''"
| "y_repr (YMap d) = ''{'' @ py_join '', '' (map (\<lambda>(k, v). y_repr k @ '': '' @ y_repr v) d) @ ''}''"
| "y_repr (YOther t) = t"

definition y_str :: "yval \<Rightarrow> string" where
  "y_str v = (case v of YStr s \<Rightarrow> s | _ \<Rightarrow> y_repr v)"

section \<open>Canonical encoding\<close>

text \<open>The encoded node: nested lists of strings and booleans.\<close>

datatype jnode = JB bool | JS string | JL "jnode list"

fun encoded_sort_key :: "jnode \<Rightarrow> string" where
  "encoded_sort_key (JB b) = (if b then ''true'' else ''false'')"
| "encoded_sort_key (JS s) = json_str s"
| "encoded_sort_key (JL ns) = ''['' @ py_join '','' (map encoded_sort_key ns) @ '']''"

definition scalar_node :: "yval \<Rightarrow> jnode option" where
  "scalar_node v =
     (case v of
        YNone \<Rightarrow> Some (JL [JS ''none''])
      | YBool b \<Rightarrow> Some (JL [JS ''bool'', JB b])
      | YInt i \<Rightarrow> Some (JL [JS ''int'', JS (show_int i)])
      | YFloat r h \<Rightarrow> Some (JL [JS ''float'', JS h])
      | YStr s \<Rightarrow> Some (JL [JS ''str'', JS s])
      | YDatetime t \<Rightarrow> Some (JL [JS ''datetime'', JS t])
      | YDate t \<Rightarrow> Some (JL [JS ''date'', JS t])
      | _ \<Rightarrow> None)"

definition mapping_node :: "(jnode \<times> jnode) list \<Rightarrow> jnode" where
  "mapping_node entries =
     JL [JS ''mapping'', JL (map (\<lambda>(k, v). JL [k, v])
       (sort_key (\<lambda>(k, v). (encoded_sort_key k, encoded_sort_key v)) entries))]"

function (sequential) json_safe :: "yval \<Rightarrow> string + jnode"
and json_safe_list :: "yval list \<Rightarrow> string + jnode list"
and json_safe_entries :: "ydict \<Rightarrow> string + (jnode \<times> jnode) list" where
  "json_safe (YMap d) = map_sum id mapping_node (json_safe_entries d)"
| "json_safe (YList xs) = map_sum id (\<lambda>ns. JL [JS ''list'', JL ns]) (json_safe_list xs)"
| "json_safe (YTuple xs) = map_sum id (\<lambda>ns. JL [JS ''tuple'', JL ns]) (json_safe_list xs)"
| "json_safe (YSet xs) =
     map_sum id (\<lambda>ns. JL [JS ''set'', JL (sort_key encoded_sort_key ns)]) (json_safe_list xs)"
| "json_safe (YOther t) = Inl (''unsupported-sidecar-value:'' @ t)"
| "json_safe v = (case scalar_node v of Some n \<Rightarrow> Inr n | None \<Rightarrow> Inl [])"
| "json_safe_list [] = Inr []"
| "json_safe_list (x # xs) =
     (case json_safe x of Inl e \<Rightarrow> Inl e | Inr n \<Rightarrow> map_sum id (\<lambda>ns. n # ns) (json_safe_list xs))"
| "json_safe_entries [] = Inr []"
| "json_safe_entries ((k, v) # d) =
     (case json_safe k of
        Inl e \<Rightarrow> Inl e
      | Inr nk \<Rightarrow> (case json_safe v of
            Inl e \<Rightarrow> Inl e
          | Inr nv \<Rightarrow> map_sum id (\<lambda>es. (nk, nv) # es) (json_safe_entries d)))"
  by pat_completeness auto

termination
  by (relation "measure (case_sum size (case_sum (size_list size) (size_list (size_prod size size))))") auto

text \<open>The digest, with the hash as a parameter. \<open>ValueError\<close> carries the message of an unsupported value.\<close>

type_synonym hash = "string \<Rightarrow> string"

definition canonical_digest :: "hash \<Rightarrow> ydict \<Rightarrow> py_error + string" where
  "canonical_digest sha value =
     (case json_safe (YMap value) of
        Inl e \<Rightarrow> Inl (ValueError e)
      | Inr n \<Rightarrow> Inr (''sha256:'' @ sha (encoded_sort_key n)))"

section \<open>The text of a node determines the node\<close>

lemma hex_digit_inject: "a < 16 \<Longrightarrow> b < 16 \<Longrightarrow> hex_digit a = hex_digit b \<longleftrightarrow> a = b"
proof -
  assume a: "a < 16" and b: "b < 16"
  have "hex_digit a = hex_digit b \<longleftrightarrow> (of_char (hex_digit a) :: nat) = of_char (hex_digit b)" by simp
  also have "\<dots> \<longleftrightarrow> a = b" using a b by (auto simp: hex_digit_def split: if_splits)
  finally show ?thesis .
qed

text \<open>\<open>json_char\<close> is a prefix code, and no code starts with the quote.\<close>

lemma hex_pair_inject:
  fixes c d :: char
  assumes "hex_digit (of_char c div 16) = hex_digit (of_char d div 16)"
    and "hex_digit (of_char c mod 16) = hex_digit (of_char d mod 16)"
  shows "c = d"
proof -
  have "(of_char c :: nat) < 16 * 16" "(of_char d :: nat) < 16 * 16" by simp_all
  then have "(of_char c :: nat) div 16 < 16" "(of_char d :: nat) div 16 < 16"
    by (simp_all only: less_mult_imp_div_less)
  then have "(of_char c :: nat) div 16 = of_char d div 16" "(of_char c :: nat) mod 16 = of_char d mod 16"
    using assms by (simp_all add: hex_digit_inject)
  then have "(of_char c :: nat) = of_char d" by (metis div_mult_mod_eq)
  then show ?thesis by simp
qed

lemma json_char_table:
  "json_char (CHR 0x22) = [CHR 0x5C, CHR 0x22]" "json_char (CHR 0x5C) = [CHR 0x5C, CHR 0x5C]"
  "json_char (CHR 0x08) = [CHR 0x5C, CHR ''b'']" "json_char (CHR 0x09) = [CHR 0x5C, CHR ''t'']"
  "json_char (CHR 0x0A) = [CHR 0x5C, CHR ''n'']" "json_char (CHR 0x0C) = [CHR 0x5C, CHR ''f'']"
  "json_char (CHR 0x0D) = [CHR 0x5C, CHR ''r'']"
  by (simp_all add: json_char_def)

lemma json_char_cases:
  obtains (plain) "json_char c = [c]" "c \<noteq> CHR 0x5C" "c \<noteq> CHR 0x22"
  | (short) e where "json_char c = [CHR 0x5C, e]" "e \<noteq> CHR ''u''"
      "(c, e) \<in> {(CHR 0x22, CHR 0x22), (CHR 0x5C, CHR 0x5C), (CHR 0x08, CHR ''b''), (CHR 0x09, CHR ''t''),
        (CHR 0x0A, CHR ''n''), (CHR 0x0C, CHR ''f''), (CHR 0x0D, CHR ''r'')}"
  | (long) "json_char c = [CHR 0x5C, CHR ''u'', CHR ''0'', CHR ''0'', hex_digit (of_char c div 16), hex_digit (of_char c mod 16)]"
proof (cases "(of_char c :: nat) \<in> {34, 92, 8, 9, 10, 12, 13}")
  case True
  then have "(of_char c :: nat) \<in> of_char ` {CHR 0x22, CHR 0x5C, CHR 0x08, CHR 0x09, CHR 0x0A, CHR 0x0C, CHR 0x0D}"
    by simp
  then have "c \<in> {CHR 0x22, CHR 0x5C, CHR 0x08, CHR 0x09, CHR 0x0A, CHR 0x0C, CHR 0x0D}"
    unfolding image_iff of_char_eq_iff by blast
  then obtain e where "json_char c = [CHR 0x5C, e]" "e \<noteq> CHR ''u''"
    "(c, e) \<in> {(CHR 0x22, CHR 0x22), (CHR 0x5C, CHR 0x5C), (CHR 0x08, CHR ''b''), (CHR 0x09, CHR ''t''),
        (CHR 0x0A, CHR ''n''), (CHR 0x0C, CHR ''f''), (CHR 0x0D, CHR ''r'')}"
    unfolding insert_iff empty_iff by (elim disjE) (simp_all add: json_char_table)
  then show ?thesis by (rule short)
next
  case False
  then have "c \<noteq> CHR 0x5C" "c \<noteq> CHR 0x22" by auto
  with False show ?thesis
    using plain long by (cases "(of_char c :: nat) < 32 \<or> 126 < (of_char c :: nat)") (auto simp: json_char_def Let_def)
qed

lemma json_char_inject: "json_char c @ s = json_char d @ t \<Longrightarrow> c = d \<and> s = t"
  by (cases c rule: json_char_cases; cases d rule: json_char_cases) (auto dest: hex_pair_inject)

lemma json_char_no_quote: "json_char c \<noteq> [] \<and> json_char c \<noteq> CHR 0x22 # r"
  by (cases c rule: json_char_cases) auto

lemma json_str_inject: "json_str a @ s = json_str b @ t \<Longrightarrow> a = b \<and> s = t"
proof -
  have "concat (map json_char a) @ CHR 0x22 # s = concat (map json_char b) @ CHR 0x22 # t \<Longrightarrow> a = b \<and> s = t"
  proof (induction a arbitrary: b)
    case Nil
    then show ?case by (cases b) (auto simp: Cons_eq_append_conv json_char_no_quote dest: sym)
  next
    case (Cons x a)
    show ?case
    proof (cases b)
      case Nil
      then show ?thesis using Cons.prems json_char_no_quote [of x] by (auto simp: append_eq_Cons_conv)
    next
      case (Cons y b')
      with Cons.prems have "json_char x @ (concat (map json_char a) @ CHR 0x22 # s)
        = json_char y @ (concat (map json_char b') @ CHR 0x22 # t)" by simp
      from json_char_inject [OF this] Cons.IH [of b'] Cons show ?thesis by simp
    qed
  qed
  then show "json_str a @ s = json_str b @ t \<Longrightarrow> a = b \<and> s = t" by (simp add: json_str_def)
qed

text \<open>The text of a node is a prefix code too, so it determines the node.\<close>

lemma joined_inject:
  assumes "\<And>n m s t. n \<in> set ns \<Longrightarrow> f n @ s = f m @ t \<Longrightarrow> n = m \<and> s = t"
    and "\<And>n r. f n \<noteq> CHR '']'' # r" and "\<And>n. f n \<noteq> []"
  shows "py_join '','' (map f ns) @ CHR '']'' # s = py_join '','' (map f ms) @ CHR '']'' # t \<Longrightarrow> ns = ms \<and> s = t"
  using assms(1)
proof (induction ns arbitrary: ms)
  case Nil
  then show ?case
    by (cases "('','', map f ms)" rule: py_join.cases)
      (auto simp: Cons_eq_append_conv assms(2,3) dest: sym)
next
  case (Cons n ns)
  obtain m ms' where ms: "ms = m # ms'"
    using Cons.prems(1) assms(2,3) by (cases ms; cases ns) (auto simp: append_eq_Cons_conv)
  have e: "f n @ (if ns = [] then CHR '']'' # s else CHR '','' # py_join '','' (map f ns) @ CHR '']'' # s)
    = f m @ (if ms' = [] then CHR '']'' # t else CHR '','' # py_join '','' (map f ms') @ CHR '']'' # t)"
    using Cons.prems(1) unfolding ms by (cases ns; cases ms') simp_all
  from Cons.prems(2) [OF _ e] have "n = m"
    and r: "(if ns = [] then CHR '']'' # s else CHR '','' # py_join '','' (map f ns) @ CHR '']'' # s)
     = (if ms' = [] then CHR '']'' # t else CHR '','' # py_join '','' (map f ms') @ CHR '']'' # t)" by simp_all
  moreover have "ns = ms' \<and> s = t"
  proof (cases "ns = [] \<or> ms' = []")
    case True
    then show ?thesis using r by (auto split: if_splits)
  next
    case False
    then have "py_join '','' (map f ns) @ CHR '']'' # s = py_join '','' (map f ms') @ CHR '']'' # t" using r by simp
    then show ?thesis by (rule Cons.IH) (rule Cons.prems(2), simp)
  qed
  ultimately show ?case using ms by simp
qed

lemma encoded_start: "encoded_sort_key n \<noteq> []" "encoded_sort_key n \<noteq> CHR '']'' # r"
  by (cases n; simp add: json_str_def)+

lemma encoded_inject_append: "encoded_sort_key n @ s = encoded_sort_key m @ t \<Longrightarrow> n = m \<and> s = t"
proof (induction n arbitrary: m s t)
  case (JB b)
  then show ?case by (cases m) (auto simp: json_str_def split: if_splits)
next
  case (JS x)
  then obtain y where m: "m = JS y" by (cases m) (auto simp: json_str_def split: if_splits)
  with JS have "json_str x @ s = json_str y @ t" by simp
  from json_str_inject [OF this] m show ?case by simp
next
  case (JL ns)
  then obtain ms where m: "m = JL ms" by (cases m) (auto simp: json_str_def split: if_splits)
  have "ns = ms \<and> s = t"
    by (rule joined_inject [of ns encoded_sort_key]) (use JL m encoded_start in \<open>auto\<close>)
  with m show ?case by simp
qed

lemma encoded_sort_key_inject: "encoded_sort_key n = encoded_sort_key m \<longleftrightarrow> n = m"
  using encoded_inject_append [of n "[]" m "[]"] by auto

section \<open>Equivalence of values and their encodings\<close>

text \<open>Equal up to the order of mapping entries and of set elements.\<close>

inductive y_equiv :: "yval \<Rightarrow> yval \<Rightarrow> bool" where
  eq_none: "y_equiv YNone YNone"
| eq_bool: "y_equiv (YBool b) (YBool b)"
| eq_int: "y_equiv (YInt i) (YInt i)"
| eq_float: "y_equiv (YFloat r h) (YFloat r' h)"
| eq_str: "y_equiv (YStr s) (YStr s)"
| eq_datetime: "y_equiv (YDatetime t) (YDatetime t)"
| eq_date: "y_equiv (YDate t) (YDate t)"
| eq_list: "list_all2 y_equiv xs ys \<Longrightarrow> y_equiv (YList xs) (YList ys)"
| eq_tuple: "list_all2 y_equiv xs ys \<Longrightarrow> y_equiv (YTuple xs) (YTuple ys)"
| eq_set: "list_all2 y_equiv xs zs \<Longrightarrow> mset zs = mset ys \<Longrightarrow> y_equiv (YSet xs) (YSet ys)"
| eq_map: "list_all2 (rel_prod y_equiv y_equiv) d e' \<Longrightarrow> mset e' = mset e \<Longrightarrow> y_equiv (YMap d) (YMap e)"
  monos list_all2_mono prod.rel_mono

inductive_cases y_equivE: "y_equiv (YMap d) v"

lemma json_safe_list_Inr: "json_safe_list xs = Inr ns \<longleftrightarrow> list_all2 (\<lambda>x n. json_safe x = Inr n) xs ns"
  by (induction xs arbitrary: ns) (auto simp: list_all2_Cons1 map_sum_Inr_iff split: sum.splits)

lemma json_safe_entries_Inr:
  "json_safe_entries d = Inr es \<longleftrightarrow>
     list_all2 (rel_prod (\<lambda>x n. json_safe x = Inr n) (\<lambda>x n. json_safe x = Inr n)) d es"
proof (induction d arbitrary: es)
  case (Cons p d)
  then show ?case by (cases p) (auto simp: list_all2_Cons1 map_sum_Inr_iff split: sum.splits)
qed auto

lemma sort_key_inj:
  assumes "inj f" and "mset xs = mset ys"
  shows "sort_key f xs = sort_key f ys"
proof -
  have "map f (sort_key f zs) = sort (map f zs)" for zs
    by (rule properties_for_sort [symmetric]) (simp_all add: mset_map del: map_map)
  then have "map f (sort_key f xs) = map f (sort_key f ys)"
    using assms(2) by (metis mset_map mset_sort properties_for_sort sorted_sort)
  then show ?thesis using assms(1) by simp
qed

lemma entry_key_inj: "inj (\<lambda>(k, v). (encoded_sort_key k, encoded_sort_key v))"
  by (auto simp: inj_def encoded_sort_key_inject)

lemma mapping_node_eq: "mapping_node es = mapping_node es' \<longleftrightarrow> mset es = mset es'"
proof
  assume "mapping_node es = mapping_node es'"
  then have "sort_key (\<lambda>(k, v). (encoded_sort_key k, encoded_sort_key v)) es
    = sort_key (\<lambda>(k, v). (encoded_sort_key k, encoded_sort_key v)) es'"
    by (auto simp: mapping_node_def inj_def dest!: map_injective)
  then show "mset es = mset es'" by (metis mset_sort)
next
  assume "mset es = mset es'"
  from sort_key_inj [OF entry_key_inj this] show "mapping_node es = mapping_node es'"
    unfolding mapping_node_def by (rule arg_cong)
qed

lemma sort_encoded_eq: "sort_key encoded_sort_key ns = sort_key encoded_sort_key ms \<longleftrightarrow> mset ns = mset ms"
  using sort_key_inj [of encoded_sort_key ns ms] by (metis encoded_sort_key_inject injI mset_sort)

lemma show_int_inject: "show_int i = show_int j \<longleftrightarrow> i = j"
proof
  have minus: "show_nat n \<noteq> CHR ''-'' # r" for n r
    using show_nat_digits [of n] by (auto simp: is_digit_def)
  assume "show_int i = show_int j"
  moreover have "nat a = nat b" if "show_nat (nat a) = show_nat (nat b)" for a b
    using that by (metis option.inject parse_show_nat)
  ultimately show "i = j"
    using minus minus [symmetric] by (fastforce simp: show_int_def split: if_splits)
qed simp

text \<open>The encoding of a value is the encoding of every equivalent value, and of no other.\<close>

lemma reorder_right:
  assumes "list_all2 R xs ns" and "mset ys = mset xs"
  obtains ms where "list_all2 R ys ms" "mset ms = mset ns"
  using list_all2_reorder_left_invariance [OF assms(1)] assms(2) by metis

lemma reorder_left:
  assumes "list_all2 R ys ms" and "mset ns = mset ms"
  obtains zs where "list_all2 R zs ns" "mset zs = mset ys"
  using list_all2_reorder_left_invariance [of "R\<inverse>\<inverse>" ms ys ns] assms by (auto simp: list.rel_conversep)

lemma y_equiv_encoding: "y_equiv v w \<Longrightarrow> json_safe v = Inr n \<Longrightarrow> json_safe w = Inr n"
proof (induction arbitrary: n rule: y_equiv.induct)
  case (eq_list xs ys)
  then obtain ns where ns: "list_all2 (\<lambda>x n. json_safe x = Inr n) xs ns" "n = JL [JS ''list'', JL ns]"
    by (auto simp: map_sum_Inr_iff json_safe_list_Inr)
  from eq_list.IH ns(1) have "list_all2 (\<lambda>x n. json_safe x = Inr n) ys ns"
    by (auto simp: list_all2_conv_all_nth)
  with ns(2) show ?case by (simp add: map_sum_Inr_iff json_safe_list_Inr)
next
  case (eq_tuple xs ys)
  then obtain ns where ns: "list_all2 (\<lambda>x n. json_safe x = Inr n) xs ns" "n = JL [JS ''tuple'', JL ns]"
    by (auto simp: map_sum_Inr_iff json_safe_list_Inr)
  from eq_tuple.IH ns(1) have "list_all2 (\<lambda>x n. json_safe x = Inr n) ys ns"
    by (auto simp: list_all2_conv_all_nth)
  with ns(2) show ?case by (simp add: map_sum_Inr_iff json_safe_list_Inr)
next
  case (eq_set xs zs ys)
  then obtain ns where ns: "list_all2 (\<lambda>x n. json_safe x = Inr n) xs ns"
    "n = JL [JS ''set'', JL (sort_key encoded_sort_key ns)]"
    by (auto simp: map_sum_Inr_iff json_safe_list_Inr)
  from eq_set.IH ns(1) have "list_all2 (\<lambda>x n. json_safe x = Inr n) zs ns"
    by (auto simp: list_all2_conv_all_nth)
  then obtain ms where "list_all2 (\<lambda>x n. json_safe x = Inr n) ys ms" "mset ms = mset ns"
    using eq_set.hyps(1) [symmetric] by (rule reorder_right)
  with ns(2) show ?case
    by (auto simp: map_sum_Inr_iff json_safe_list_Inr sort_encoded_eq)
next
  case (eq_map d e' e)
  let ?R = "\<lambda>x n. json_safe x = Inr n"
  from eq_map.prems obtain es where es: "list_all2 (rel_prod ?R ?R) d es" "n = mapping_node es"
    by (auto simp: map_sum_Inr_iff json_safe_entries_Inr)
  from eq_map.IH es(1) have "list_all2 (rel_prod ?R ?R) e' es"
    by (auto simp: list_all2_conv_all_nth rel_prod_sel)
  then obtain fs where "list_all2 (rel_prod ?R ?R) e fs" "mset fs = mset es"
    using eq_map.hyps(1) [symmetric] by (rule reorder_right)
  with es(2) show ?case
    by (auto simp: map_sum_Inr_iff json_safe_entries_Inr mapping_node_eq)
qed (auto simp: scalar_node_def)

lemma same_images_related:
  assumes "list_all2 R xs ns" and "list_all2 R ys ns" and "\<And>x y n. x \<in> set xs \<Longrightarrow> R x n \<Longrightarrow> R y n \<Longrightarrow> Q x y"
  shows "list_all2 Q xs ys"
  using assms by (auto simp: list_all2_conv_all_nth)

lemma scalar_y_equiv:
  assumes "scalar_node v = Some n" and "json_safe w = Inr n"
  shows "y_equiv v w"
  using assms
  by (cases v; simp add: scalar_node_def; cases w;
      clarsimp simp: scalar_node_def map_sum_Inr_iff mapping_node_def show_int_inject y_equiv.intros)

lemma encoding_y_equiv: "json_safe v = Inr n \<Longrightarrow> json_safe w = Inr n \<Longrightarrow> y_equiv v w"
proof (induction v arbitrary: w n)
  case (YList xs)
  from YList.prems obtain ns ys where "w = YList ys" "list_all2 (\<lambda>x n. json_safe x = Inr n) xs ns"
    "list_all2 (\<lambda>x n. json_safe x = Inr n) ys ns"
    by (cases w) (auto simp: map_sum_Inr_iff json_safe_list_Inr mapping_node_def scalar_node_def)
  then show ?case using YList.IH by (auto intro!: eq_list elim!: same_images_related)
next
  case (YTuple xs)
  from YTuple.prems obtain ns ys where "w = YTuple ys" "list_all2 (\<lambda>x n. json_safe x = Inr n) xs ns"
    "list_all2 (\<lambda>x n. json_safe x = Inr n) ys ns"
    by (cases w) (auto simp: map_sum_Inr_iff json_safe_list_Inr mapping_node_def scalar_node_def)
  then show ?case using YTuple.IH by (auto intro!: eq_tuple elim!: same_images_related)
next
  case (YSet xs)
  from YSet.prems obtain ns ms ys where w: "w = YSet ys" and ns: "list_all2 (\<lambda>x n. json_safe x = Inr n) xs ns"
    and ms: "list_all2 (\<lambda>x n. json_safe x = Inr n) ys ms" and m: "mset ns = mset ms"
    by (cases w) (auto simp: map_sum_Inr_iff json_safe_list_Inr mapping_node_def scalar_node_def sort_encoded_eq)
  from ms m obtain zs where zs: "list_all2 (\<lambda>x n. json_safe x = Inr n) zs ns" "mset zs = mset ys"
    by (rule reorder_left)
  have "list_all2 y_equiv xs zs" using ns zs(1) by (rule same_images_related) (rule YSet.IH)
  with w zs(2) show ?case by (auto intro: eq_set)
next
  case (YMap d)
  let ?R = "rel_prod (\<lambda>x n. json_safe x = Inr n) (\<lambda>x n. json_safe x = Inr n)"
  from YMap.prems obtain es fs e where w: "w = YMap e" and es: "list_all2 ?R d es"
    and fs: "list_all2 ?R e fs" and m: "mset es = mset fs"
    by (cases w) (auto simp: map_sum_Inr_iff json_safe_entries_Inr mapping_node_eq scalar_node_def,
        auto simp: mapping_node_def)
  from fs m obtain e' where e': "list_all2 ?R e' es" "mset e' = mset e"
    by (rule reorder_left)
  have "list_all2 (rel_prod y_equiv y_equiv) d e'"
    using es e'(1) by (rule same_images_related) (use YMap.IH in \<open>fastforce simp: rel_prod_sel\<close>)
  with w e'(2) show ?case by (auto intro: eq_map)
qed (auto intro!: scalar_y_equiv split: option.splits)

lemma encoding_exact:
  "json_safe v = Inr n \<Longrightarrow> json_safe w = Inr m \<Longrightarrow> n = m \<longleftrightarrow> y_equiv v w"
  using y_equiv_encoding encoding_y_equiv by (metis sum.inject(2))

section \<open>Digests\<close>

text \<open>The text that is hashed.\<close>

definition canonical_text :: "ydict \<Rightarrow> string" where
  "canonical_text value = (case json_safe (YMap value) of Inl e \<Rightarrow> [] | Inr n \<Rightarrow> encoded_sort_key n)"

lemma canonical_digest_Inr:
  "canonical_digest sha d = Inr x \<longleftrightarrow>
     (\<exists>n. json_safe (YMap d) = Inr n \<and> x = ''sha256:'' @ sha (canonical_text d) \<and> canonical_text d = encoded_sort_key n)"
  by (auto simp: canonical_digest_def canonical_text_def split: sum.splits)

lemma canonical_text_exact:
  "json_safe (YMap a) = Inr n \<Longrightarrow> json_safe (YMap b) = Inr m \<Longrightarrow>
   canonical_text a = canonical_text b \<longleftrightarrow> y_equiv (YMap a) (YMap b)"
  using encoding_exact [of "YMap a" n "YMap b" m] by (simp add: canonical_text_def encoded_sort_key_inject)

lemma canonical_digest_equiv:
  assumes "canonical_digest sha a = Inr x" and "y_equiv (YMap a) (YMap b)"
  shows "canonical_digest sha b = Inr x"
  using assms y_equiv_encoding [OF assms(2)] by (auto simp: canonical_digest_def split: sum.splits)

lemma canonical_digest_binding:
  assumes "canonical_digest sha a = Inr x" and "canonical_digest sha b = Inr x"
    and "inj_on sha {canonical_text a, canonical_text b}"
  shows "y_equiv (YMap a) (YMap b)"
proof -
  from assms(1,2) obtain n m where n: "json_safe (YMap a) = Inr n" and m: "json_safe (YMap b) = Inr m"
    unfolding canonical_digest_Inr by blast
  from assms(1,2) have "sha (canonical_text a) = sha (canonical_text b)"
    unfolding canonical_digest_Inr by force
  with assms(3) have "canonical_text a = canonical_text b" by (rule inj_onD) simp_all
  then show ?thesis using canonical_text_exact [OF n m] by blast
qed

text \<open>C29: the digest of a mapping identifies it. Mappings equal up to the order of their entries, and of the
  elements of sets, at every depth have the same digest; and equal digests come from mappings that are equal in
  that sense, types of the scalars included, unless the hash maps the two encoded texts together.\<close>

theorem canonical_digest_exact:
  assumes "canonical_digest sha a = Inr x" and "canonical_digest sha b = Inr y"
    and "inj_on sha {canonical_text a, canonical_text b}"
  shows "x = y \<longleftrightarrow> y_equiv (YMap a) (YMap b)"
  using assms canonical_digest_equiv [OF assms(1)] canonical_digest_binding by auto

theorem canonical_digest_exact_witness:
  "canonical_digest id (ydict_of [(''a'', YInt 1), (''b'', YStr ''1'')])
     = canonical_digest id (ydict_of [(''b'', YStr ''1''), (''a'', YInt 1)])
   \<and> canonical_digest id (ydict_of [(''a'', YInt 1)]) \<noteq> canonical_digest id (ydict_of [(''a'', YStr ''1'')])
   \<and> y_equiv (YMap (ydict_of [(''a'', YInt 1), (''b'', YStr ''1'')])) (YMap (ydict_of [(''b'', YStr ''1''), (''a'', YInt 1)]))"
proof -
  define a where "a = ydict_of [(''a'', YInt 1), (''b'', YStr ''1'')]"
  define b where "b = ydict_of [(''b'', YStr ''1''), (''a'', YInt 1)]"
  have e: "canonical_digest id a = canonical_digest id b" unfolding a_def b_def by code_simp
  have "\<not> isl (canonical_digest id a)" unfolding a_def by code_simp
  then obtain x where a: "canonical_digest id a = Inr x" by (cases "canonical_digest id a") simp_all
  have b: "canonical_digest id b = Inr x" using a unfolding e .
  have "y_equiv (YMap a) (YMap b)" using canonical_digest_exact [OF a b inj_on_id] by (rule iffD1) (rule refl)
  moreover have "canonical_digest id (ydict_of [(''a'', YInt 1)]) \<noteq> canonical_digest id (ydict_of [(''a'', YStr ''1'')])"
    by code_simp
  ultimately show ?thesis using e unfolding a_def b_def by blast
qed

end
