(* ===== verification/Requirement_Lifecycle.thy ===== *)
theory Requirement_Lifecycle
  imports Requirement_Values
begin

text \<open>
  The maturity gate of the requirements bundle (\<^verbatim>\<open>requirements/lifecycle.py\<close>): validation of a
  requirement mapping into a verification plan, and reconciliation of a JUnit result file with that plan.

  Parameters of the model: the hash of \<open>canonical_digest\<close> and the XML parser. The JUnit file is a value
  (unreadable, not a regular file, or its bytes, a \<open>char\<close> for a byte). Reports are dictionaries, as
  in the source. The keyword form of the reconciliation context is not modelled.
\<close>

section \<open>Maturity levels\<close>

definition MATURITY_ORDER :: "(string \<times> int) list" where
  "MATURITY_ORDER = [(''incomplete'', 0), (''planned'', 1), (''accepted'', 2), (''test-authored'', 3), (''red'', 4), (''verified'', 5)]"

text \<open>\<open>MATURITY_ORDER[m]\<close>; the code applies it to the levels of the table only.\<close>

definition maturity_rank :: "string \<Rightarrow> int" where
  "maturity_rank m = (case map_of MATURITY_ORDER m of Some n \<Rightarrow> n | None \<Rightarrow> -1)"

definition SUPPORTED_REQUIRED_MATURITY :: "string list" where
  "SUPPORTED_REQUIRED_MATURITY = [''planned'', ''accepted'', ''test-authored'', ''red'', ''verified'']"

definition SUPPORTED_METHODS :: "string list" where
  "SUPPORTED_METHODS = [''test'', ''analysis'', ''inspection'', ''demonstration'']"

definition DELIVERY_STATUS_BY_MATURITY :: "(string \<times> string) list" where
  "DELIVERY_STATUS_BY_MATURITY = [(''planned'', ''proposal-only''), (''accepted'', ''proposal-accepted''),
     (''test-authored'', ''test-design''), (''red'', ''failing-first-proven''),
     (''verified'', ''implementation-verified''), (''incomplete'', ''incomplete'')]"

definition IMPLEMENTATION_EVIDENCE_BY_MATURITY :: "(string \<times> string) list" where
  "IMPLEMENTATION_EVIDENCE_BY_MATURITY = [(''planned'', ''not-yet-available''), (''accepted'', ''not-yet-available''),
     (''test-authored'', ''tests-not-executed''), (''red'', ''failing-first-proven''),
     (''verified'', ''passing-after-red-proven''), (''incomplete'', ''not-available'')]"

definition lifecycle_status :: "string \<Rightarrow> py_error + string \<times> string" where
  "lifecycle_status observed =
     (case (map_of DELIVERY_STATUS_BY_MATURITY observed, map_of IMPLEMENTATION_EVIDENCE_BY_MATURITY observed) of
        (Some d, Some i) \<Rightarrow> Inr (d, i)
      | _ \<Rightarrow> Inl (ValueError (''unsupported observed maturity: '' @ observed)))"

section \<open>Error propagation\<close>

definition err_bind :: "'e + 'a \<Rightarrow> ('a \<Rightarrow> 'e + 'b) \<Rightarrow> 'e + 'b" where
  "err_bind x f = (case x of Inl e \<Rightarrow> Inl e | Inr a \<Rightarrow> f a)"

fun err_map :: "('a \<Rightarrow> 'e + 'b) \<Rightarrow> 'a list \<Rightarrow> 'e + 'b list" where
  "err_map f [] = Inr []"
| "err_map f (x # xs) = err_bind (f x) (\<lambda>y. map_sum id (\<lambda>ys. y # ys) (err_map f xs))"

section \<open>Verification cases\<close>

definition is_text :: "yval \<Rightarrow> bool" where
  "is_text v = (case v of YStr s \<Rightarrow> non_blank s | _ \<Rightarrow> False)"

definition is_digest :: "yval \<Rightarrow> bool" where
  "is_digest v = (case v of YStr s \<Rightarrow> is_sha256 s | _ \<Rightarrow> False)"

definition mapping_payload :: "ydict \<Rightarrow> ydict" where
  "mapping_payload mapping = ydict_of [(''schema_version'', yget mapping ''schema_version''),
     (''requirements'', yget mapping ''requirements'')]"

definition missing_text :: "yval \<Rightarrow> string \<Rightarrow> string \<Rightarrow> string list" where
  "missing_text v field ident = (if is_text v then [] else [''missing-'' @ field @ '':'' @ ident])"

text \<open>The selector pattern: a path of safe characters ending in \<open>.py\<close> and not starting with a dash, then
  \<open>::\<close> and a test name of safe characters. A path holds no colon, so the split is at the first one.\<close>

definition is_alnum :: "char \<Rightarrow> bool" where
  "is_alnum c = (let n = (of_char c :: nat) in
     (48 \<le> n \<and> n \<le> 57) \<or> (65 \<le> n \<and> n \<le> 90) \<or> (97 \<le> n \<and> n \<le> 122) \<or> n = 95)"

definition path_char :: "char \<Rightarrow> bool" where
  "path_char c = (is_alnum c \<or> c \<in> set ''./-'')"

definition name_char :: "char \<Rightarrow> bool" where
  "name_char c = (is_alnum c \<or> c \<in> set '':.[]-'')"

definition selector_path :: "string \<Rightarrow> string" where
  "selector_path node = takeWhile (\<lambda>c. c \<noteq> CHR '':'') node"

definition selector_matches :: "string \<Rightarrow> bool" where
  "selector_matches node =
     (let path = selector_path node; rest = drop (length path) node
      in list_all path_char path \<and> 4 \<le> length path \<and> drop (length path - 3) path = ''.py''
         \<and> hd path \<noteq> CHR ''-''
         \<and> take 2 rest = ''::'' \<and> drop 2 rest \<noteq> [] \<and> list_all name_char (drop 2 rest))"

definition path_parts :: "string \<Rightarrow> string list" where
  "path_parts p = filter (\<lambda>c. c \<noteq> [] \<and> c \<noteq> ''.'') (py_split_char (CHR ''/'') p)"

definition selector_forbidden :: "string" where
  "selector_forbidden = ''$&;|'' @ [CHR 0x60] @ ''<>*?(){}!'' @ [CHR 0x5C, CHR 0x22]"

definition selector_escapes :: "string \<Rightarrow> bool" where
  "selector_escapes node =
     (take 1 (selector_path node) = ''/'' \<or> ''..'' \<in> set (path_parts (selector_path node))
      \<or> list_ex (\<lambda>c. c \<in> set selector_forbidden) node)"

definition validate_selector :: "ydict \<Rightarrow> string \<Rightarrow> string option \<times> string list" where
  "validate_selector cs case_id =
     (case yget cs ''selector'' of
        YMap selector \<Rightarrow>
          (if yget selector ''runner'' \<noteq> YStr ''pytest'' then (None, [''unsupported-selector-runner:'' @ case_id])
           else (case yget selector ''node_id'' of
                   YStr node \<Rightarrow>
                     (if \<not> selector_matches node \<or> selector_escapes node
                      then (None, [''invalid-selector:'' @ case_id]) else (Some node, []))
                 | _ \<Rightarrow> (None, [''invalid-selector:'' @ case_id])))
      | _ \<Rightarrow> (None, [''missing-selector:'' @ case_id]))"

definition selector_required :: "yval \<Rightarrow> string \<Rightarrow> ydict \<Rightarrow> bool" where
  "selector_required meth required cs =
     ((meth = YStr ''test'' \<and> maturity_rank ''test-authored'' \<le> maturity_rank required)
      \<or> is_ymap (yget cs ''selector''))"

text \<open>\<open>value not in a set of strings\<close> hashes the value.\<close>

fun y_hashable :: "yval \<Rightarrow> bool" where
  "y_hashable (YList xs) = False"
| "y_hashable (YSet xs) = False"
| "y_hashable (YMap d) = False"
| "y_hashable (YTuple xs) = list_all y_hashable xs"
| "y_hashable v = True"

definition in_texts :: "yval \<Rightarrow> string list \<Rightarrow> bool" where
  "in_texts v names = (case v of YStr s \<Rightarrow> s \<in> set names | _ \<Rightarrow> False)"

definition selector_entries :: "string \<Rightarrow> (string \<times> yval) list" where
  "selector_entries node =
     [(''selector'', YMap (ydict_of [(''runner'', YStr ''pytest''), (''node_id'', YStr node)])),
      (''runner'', YStr ''pytest''), (''node_id'', YStr node)]"

definition preserved_case :: "string \<Rightarrow> string \<Rightarrow> ydict \<Rightarrow> string option \<Rightarrow> ydict" where
  "preserved_case requirement_id case_name cs selector =
     ydict_of ([(''requirement_id'', YStr requirement_id), (''case_id'', YStr case_name),
        (''scenario_id'', yget cs ''scenario_id''), (''method'', yget cs ''method''),
        (''intent'', yget cs ''intent''), (''observable'', yget cs ''observable'')]
      @ (case selector of None \<Rightarrow> [] | Some node \<Rightarrow> selector_entries node))"

definition validated_case :: "yval \<Rightarrow> string \<Rightarrow> string \<Rightarrow> py_error + ydict option \<times> string list" where
  "validated_case v requirement_id required =
     (case v of
        YMap cs \<Rightarrow>
          (if \<not> is_text (yget cs ''case_id'') then Inr (None, [''missing-case-id:'' @ requirement_id])
           else (let case_name = y_str (yget cs ''case_id''); meth = yget cs ''method'';
                     findings = concat (map (\<lambda>f. missing_text (yget cs f) f case_name)
                       [''scenario_id'', ''method'', ''intent'', ''observable''])
                 in if \<not> y_hashable meth then Inl TypeError
                    else if \<not> in_texts meth SUPPORTED_METHODS
                      then Inr (None, findings @ [''unsupported-verification-method:'' @ case_name])
                    else (let (selector, more) =
                            (if selector_required meth required cs then validate_selector cs case_name else (None, []))
                          in Inr (Some (preserved_case requirement_id case_name cs selector), findings @ more))))
      | _ \<Rightarrow> Inr (None, [''invalid-verification-case:'' @ requirement_id]))"

definition valid_touchpoint :: "yval \<Rightarrow> bool" where
  "valid_touchpoint v =
     (case v of YMap t \<Rightarrow> list_all (\<lambda>f. is_text (yget t f)) [''id'', ''kind'', ''locator''] | _ \<Rightarrow> False)"

definition touchpoint_findings :: "ydict \<Rightarrow> string \<Rightarrow> string list" where
  "touchpoint_findings requirement ident =
     (case yget requirement ''touchpoints'' of
        YList (t # ts) \<Rightarrow> (if list_all valid_touchpoint (t # ts) then [] else [''invalid-touchpoint:'' @ ident])
      | _ \<Rightarrow> [''missing-touchpoints:'' @ ident])"

definition verification_case_results :: "ydict \<Rightarrow> string \<Rightarrow> string \<Rightarrow> py_error + ydict list \<times> string list" where
  "verification_case_results requirement ident required =
     (case yget requirement ''verification_cases'' of
        YList (c # cs) \<Rightarrow>
          map_sum id (\<lambda>rs. (List.map_filter fst rs, concat (map snd rs)))
            (err_map (\<lambda>v. validated_case v ident required) (c # cs))
      | _ \<Rightarrow> Inr ([], [''missing-verification-cases:'' @ ident]))"

definition attach_touchpoints :: "yval \<Rightarrow> ydict \<Rightarrow> ydict" where
  "attach_touchpoints touchpoints cs =
     (case touchpoints of YList ts \<Rightarrow> yset cs ''touchpoints'' (YList (filter is_ymap ts)) | _ \<Rightarrow> cs)"

definition requirement_cases :: "yval \<Rightarrow> yval \<Rightarrow> string \<Rightarrow> py_error + ydict list \<times> string list" where
  "requirement_cases requirement_id v required =
     (case v of
        YMap requirement \<Rightarrow>
          (if \<not> is_text requirement_id then Inr ([], [''invalid-requirement-entry''])
           else (let ident = y_str requirement_id;
                     findings = missing_text (yget requirement ''rationale'') ''rationale'' ident
                       @ touchpoint_findings requirement ident
                 in map_sum id (\<lambda>(cases, case_findings).
                      (map (attach_touchpoints (yget requirement ''touchpoints'')) cases, findings @ case_findings))
                      (verification_case_results requirement ident required)))
      | _ \<Rightarrow> Inr ([], [''invalid-requirement-entry'']))"

text \<open>The texts under \<open>node_id\<close>.\<close>

definition case_selectors :: "ydict list \<Rightarrow> string list" where
  "case_selectors cases =
     map (\<lambda>c. y_str (yget c ''node_id'')) (filter (\<lambda>c. is_text (yget c ''node_id'')) cases)"

definition duplicate_selector_findings :: "ydict list \<Rightarrow> string list" where
  "duplicate_selector_findings cases =
     (let selectors = case_selectors cases
      in map (\<lambda>s. ''duplicate-selector:'' @ s)
           (sorted_list_of_set (set (filter (\<lambda>s. 1 < count_list selectors s) selectors))))"

definition validated_cases :: "ydict \<Rightarrow> string \<Rightarrow> py_error + ydict list \<times> string list" where
  "validated_cases mapping required =
     (if yget mapping ''schema_version'' \<noteq> YStr ''2'' then Inr ([], [''unsupported-sidecar-schema''])
      else (case yget mapping ''requirements'' of
              YMap (r # rs) \<Rightarrow>
                map_sum id (\<lambda>results.
                    (let cases = concat (map fst results); findings = concat (map snd results)
                     in (cases, sorted_list_of_set (set (findings @ duplicate_selector_findings cases)))))
                  (err_map (\<lambda>(k, v). requirement_cases k v required) (sort_key (\<lambda>(k, v). y_str k) (r # rs)))
            | _ \<Rightarrow> Inr ([], [''missing-requirements''])))"

definition valid_acceptance :: "ydict option \<Rightarrow> string \<Rightarrow> string list" where
  "valid_acceptance review mapping_digest =
     (case review of
        None \<Rightarrow> [''acceptance-missing'']
      | Some r \<Rightarrow>
          map (\<lambda>f. ''acceptance-missing-'' @ f)
            (filter (\<lambda>f. \<not> is_text (yget r f)) [''reviewer_id'', ''reviewer_role'', ''recorded_at'', ''reference''])
          @ (if yget r ''decision'' \<noteq> YStr ''accepted'' then [''acceptance-not-accepted''] else [])
          @ (if yget r ''mapping_digest'' \<noteq> YStr mapping_digest then [''acceptance-stale''] else []))"

section \<open>Plan and report\<close>

definition ordered_cases :: "hash \<Rightarrow> ydict list \<Rightarrow> py_error + ydict list" where
  "ordered_cases sha cases =
     map_sum id (\<lambda>ds. map snd (sort_key fst (zip
         (map2 (\<lambda>c d. (y_str (yget c ''requirement_id''), y_str (yget c ''case_id''), d)) cases ds) cases)))
       (err_map (canonical_digest sha) cases)"

definition plan_identity :: "string \<Rightarrow> ydict list \<Rightarrow> ydict" where
  "plan_identity mapping_digest cases =
     ydict_of [(''mapping_digest'', YStr mapping_digest), (''cases'', YList (map YMap cases))]"

definition build_plan :: "hash \<Rightarrow> string \<Rightarrow> ydict list \<Rightarrow> py_error + ydict" where
  "build_plan sha mapping_digest cases =
     err_bind (ordered_cases sha cases) (\<lambda>ordered.
       err_bind (canonical_digest sha (plan_identity mapping_digest ordered)) (\<lambda>d.
         Inr (plan_identity mapping_digest ordered @ ydict_of [(''plan_digest'', YStr d)])))"

definition texts :: "string list \<Rightarrow> yval" where
  "texts ss = YList (map YStr ss)"

definition lifecycle_report ::
  "hash \<Rightarrow> string \<Rightarrow> string \<Rightarrow> string \<Rightarrow> string list \<Rightarrow> ydict list \<Rightarrow> py_error + ydict" where
  "lifecycle_report sha required observed mapping_digest findings cases =
     (let passed = (findings = [] \<and> maturity_rank required \<le> maturity_rank observed)
      in err_bind (lifecycle_status observed) (\<lambda>(delivery, evidence).
           err_bind (build_plan sha mapping_digest cases) (\<lambda>plan.
             Inr (ydict_of
               [(''schema_version'', YStr ''2''),
                (''verdict'', YStr (if passed then ''passed'' else ''failed'')),
                (''gate_decision'', YStr (if passed then ''pass'' else ''fail'')),
                (''required_maturity'', YStr required), (''observed_maturity'', YStr observed),
                (''delivery_status'', YStr delivery), (''implementation_evidence'', YStr evidence),
                (''mapping_digest'', YStr mapping_digest),
                (''findings'', texts (sorted_list_of_set (set findings))), (''plan'', YMap plan)]))))"

text \<open>\<open>evaluate_mapping\<close>: the level observed and the findings, then the report.\<close>

definition observe_maturity ::
  "string \<Rightarrow> ydict option \<Rightarrow> string \<Rightarrow> string list \<Rightarrow> string \<times> string list" where
  "observe_maturity required review mapping_digest findings0 =
     (let observed0 = (if findings0 \<noteq> [] then ''incomplete'' else ''planned'');
          (observed1, findings1) =
            (if findings0 = [] \<and> maturity_rank ''accepted'' \<le> maturity_rank required
             then (let acceptance = valid_acceptance review mapping_digest
                   in (if acceptance = [] then ''accepted'' else observed0, findings0 @ acceptance))
             else (observed0, findings0));
          observed2 = (if findings1 = [] \<and> maturity_rank ''test-authored'' \<le> maturity_rank required
             then ''test-authored'' else observed1)
      in if required \<in> {''red'', ''verified''}
         then (''incomplete'', findings1 @ [''execution-proof-required:'' @ required])
         else (observed2, findings1))"

definition evaluate_mapping :: "hash \<Rightarrow> ydict \<Rightarrow> string \<Rightarrow> ydict option \<Rightarrow> py_error + ydict" where
  "evaluate_mapping sha mapping required review =
     (if required \<notin> set SUPPORTED_REQUIRED_MATURITY
      then Inl (ValueError ''required maturity must be planned, accepted, test-authored, red, or verified'')
      else (case canonical_digest sha (mapping_payload mapping) of
              Inl (ValueError msg) \<Rightarrow>
                err_bind (canonical_digest sha (ydict_of [(''invalid'', YStr ''ValueError'')])) (\<lambda>d.
                  lifecycle_report sha required ''incomplete'' d [msg] [])
            | Inl e \<Rightarrow> Inl e
            | Inr mapping_digest \<Rightarrow>
                err_bind (validated_cases mapping required) (\<lambda>(cases, findings0).
                  (let (observed, findings) = observe_maturity required review mapping_digest findings0
                   in lifecycle_report sha required observed mapping_digest findings cases))))"

section \<open>JUnit results\<close>

datatype xml = XElem (xtag: string) (xattrs: "(string \<times> string) list") (xchildren: "xml list")

fun xml_iter :: "string \<Rightarrow> xml \<Rightarrow> xml list" where
  "xml_iter t (XElem u attrs cs) = (if u = t then [XElem u attrs cs] else []) @ concat (map (xml_iter t) cs)"

definition xml_find :: "xml \<Rightarrow> string \<Rightarrow> xml list" where
  "xml_find e t = filter (\<lambda>c. xtag c = t) (xchildren e)"

definition junit_selector :: "xml \<Rightarrow> string option" where
  "junit_selector test_case =
     (case filter (\<lambda>p. map_of (xattrs p) ''name'' = Some ''specfact.selector'')
             (concat (map (\<lambda>ps. xml_find ps ''property'') (xml_find test_case ''properties''))) of
        [] \<Rightarrow> None | p # _ \<Rightarrow> map_of (xattrs p) ''value'')"

definition junit_case_result :: "xml \<Rightarrow> string option \<times> string" where
  "junit_case_result test_case =
     (junit_selector test_case,
      if xml_find test_case ''failure'' \<noteq> [] then ''failed''
      else if xml_find test_case ''error'' \<noteq> [] then ''errored''
      else if xml_find test_case ''skipped'' \<noteq> [] then ''skipped'' else ''passed'')"

datatype junit_file = JunitOSError | JunitNotRegular | JunitBytes string

definition MAX_JUNIT_BYTES :: int where
  "MAX_JUNIT_BYTES = 10 * 1024 * 1024"

text \<open>\<open>bytes.upper()\<close> changes the ASCII letters only.\<close>

definition bytes_upper :: "string \<Rightarrow> string" where
  "bytes_upper s = map (\<lambda>c. let n = (of_char c :: nat) in if 97 \<le> n \<and> n \<le> 122 then char_of (n - 32) else c) s"

type_synonym junit_outcomes = "(string \<times> string list) list"

text \<open>The body of the loop over the test cases, and the loop.\<close>

definition collect_outcome :: "junit_outcomes \<times> string list \<Rightarrow> xml \<Rightarrow> junit_outcomes \<times> string list" where
  "collect_outcome acc t =
     (case (acc, junit_case_result t) of
        ((results, findings), (selector, outcome)) \<Rightarrow>
          (case selector of
             Some s \<Rightarrow> (if non_blank s then (dict_push results s outcome, findings)
                        else (results, findings @ [''junit-selector-missing'']))
           | None \<Rightarrow> (results, findings @ [''junit-selector-missing''])))"

definition collect_outcomes :: "xml list \<Rightarrow> junit_outcomes \<times> string list" where
  "collect_outcomes test_cases = foldl collect_outcome ([], []) test_cases"

definition junit_results ::
  "hash \<Rightarrow> (string \<Rightarrow> xml option) \<Rightarrow> junit_file \<Rightarrow> junit_outcomes \<times> string list \<times> string option" where
  "junit_results sha xml_parse file =
     (case file of
        JunitOSError \<Rightarrow> ([], [''junit-malformed''], None)
      | JunitNotRegular \<Rightarrow> ([], [''junit-not-regular-file''], None)
      | JunitBytes payload \<Rightarrow>
          (if MAX_JUNIT_BYTES < int (length payload) then ([], [''junit-too-large''], None)
           else if py_contains (bytes_upper payload) ''<!DOCTYPE'' \<or> py_contains (bytes_upper payload) ''<!ENTITY''
             then ([], [''junit-unsafe-doctype''], None)
           else (case xml_parse payload of
                   None \<Rightarrow> ([], [''junit-malformed''], None)
                 | Some tree \<Rightarrow>
                     (let (results, findings) = collect_outcomes (xml_iter ''testcase'' tree)
                      in (results, findings, Some (''sha256:'' @ sha payload))))))"

section \<open>Reconciliation\<close>

record ReconciliationContext =
  rc_run_stage :: string
  rc_source_ref :: string
  rc_prior_red_proof :: "ydict option"
  rc_legacy_tdd_evidence :: "ydict option"

definition trusted_plan :: "ydict \<Rightarrow> py_error + ydict" where
  "trusted_plan report =
     (if yget report ''gate_decision'' \<noteq> YStr ''pass'' \<or> yget report ''observed_maturity'' \<noteq> YStr ''test-authored''
      then Inl (ValueError ''plan report must be a passing test-authored lifecycle report'')
      else (case yget report ''plan'' of
              YMap plan \<Rightarrow>
                (case yget plan ''cases'' of
                   YList cs \<Rightarrow>
                     (if is_digest (yget plan ''mapping_digest'') \<and> is_digest (yget plan ''plan_digest'') then Inr plan
                      else Inl (ValueError ''plan report must contain a lifecycle plan''))
                 | _ \<Rightarrow> Inl (ValueError ''plan report must contain a lifecycle plan''))
            | _ \<Rightarrow> Inl (ValueError ''plan report must contain a lifecycle plan'')))"

fun ymaps :: "yval list \<Rightarrow> ydict list" where
  "ymaps [] = []"
| "ymaps (YMap d # vs) = d # ymaps vs"
| "ymaps (v # vs) = ymaps vs"

definition ylist :: "yval \<Rightarrow> yval list" where
  "ylist v = (case v of YList xs \<Rightarrow> xs | _ \<Rightarrow> [])"

definition consistent_plan_cases :: "hash \<Rightarrow> ydict \<Rightarrow> py_error + ydict list" where
  "consistent_plan_cases sha plan =
     (let listed = ylist (yget plan ''cases''); all_cases = ymaps listed
      in case yget plan ''mapping_digest'' of
           YStr mapping_digest \<Rightarrow>
             err_bind (build_plan sha mapping_digest all_cases) (\<lambda>expected.
               if yget expected ''plan_digest'' \<noteq> yget plan ''plan_digest''
               then Inl (ValueError ''plan report has an invalid plan digest'')
               else if length all_cases \<noteq> length listed \<or> all_cases = []
               then Inl (ValueError ''plan report must contain nonempty valid cases'')
               else Inr all_cases)
         | _ \<Rightarrow> Inl (ValueError ''plan report must contain a valid mapping digest''))"

definition case_label :: "ydict \<Rightarrow> string" where
  "case_label c = (case map_of c (YStr ''case_id'') of None \<Rightarrow> ''<unknown>'' | Some v \<Rightarrow> y_str v)"

definition execution_selector :: "ydict \<Rightarrow> py_error + string" where
  "execution_selector c =
     (case validate_selector c (case_label c) of
        (Some node, []) \<Rightarrow>
          (if yget c ''node_id'' = YStr node then Inr node
           else Inl (ValueError ''plan report contains an invalid test selector''))
      | _ \<Rightarrow> Inl (ValueError ''plan report contains an invalid test selector''))"

definition execution_cases :: "ydict list \<Rightarrow> py_error + ydict list" where
  "execution_cases cases =
     (let executable = filter (\<lambda>c. yget c ''method'' = YStr ''test'') cases
      in if executable = [] then Inl (ValueError ''plan report must contain executable test cases'')
         else err_bind (err_map execution_selector executable) (\<lambda>selectors.
           if distinct selectors then Inr executable
           else Inl (ValueError ''plan report contains duplicate test selectors'')))"

definition plan_cases :: "hash \<Rightarrow> ydict \<Rightarrow> py_error + string \<times> string \<times> ydict \<times> ydict list" where
  "plan_cases sha report =
     err_bind (trusted_plan report) (\<lambda>plan.
       err_bind (consistent_plan_cases sha plan) (\<lambda>all_cases.
         err_bind (execution_cases all_cases) (\<lambda>cases.
           Inr (y_str (yget plan ''mapping_digest''), y_str (yget plan ''plan_digest''), plan, cases))))"

definition selector_result_finding :: "string \<Rightarrow> string list \<Rightarrow> string \<Rightarrow> string \<Rightarrow> string option" where
  "selector_result_finding selector outcomes expected maturity =
     (case outcomes of
        [] \<Rightarrow> Some (''uncollected-selector:'' @ selector)
      | [outcome] \<Rightarrow>
          (if outcome \<noteq> expected then Some (maturity @ ''-proof-'' @ outcome @ ''-not-'' @ expected @ '':'' @ selector)
           else None)
      | _ \<Rightarrow> Some (''duplicate-selector-result:'' @ selector))"

definition expected_outcome :: "string \<Rightarrow> string" where
  "expected_outcome run_stage = (if run_stage = ''red'' then ''failed'' else ''passed'')"

definition selector_result_findings :: "string set \<Rightarrow> junit_outcomes \<Rightarrow> string \<Rightarrow> string list" where
  "selector_result_findings expected results run_stage =
     List.map_filter (\<lambda>s. selector_result_finding s (dict_list results s) (expected_outcome run_stage)
         (if run_stage = ''red'' then ''red'' else ''final'')) (sorted_list_of_set expected)"

definition prior_red_proof_valid :: "ydict \<Rightarrow> string \<Rightarrow> string \<Rightarrow> bool" where
  "prior_red_proof_valid proof mapping_digest plan_digest =
     (yget proof ''observed_maturity'' = YStr ''red'' \<and> yget proof ''mapping_digest'' = YStr mapping_digest
      \<and> yget proof ''plan_digest'' = YStr plan_digest \<and> yget proof ''gate_decision'' = YStr ''pass'')"

definition legacy_tdd_evidence_valid :: "ydict \<Rightarrow> string \<Rightarrow> string \<Rightarrow> bool" where
  "legacy_tdd_evidence_valid evidence mapping_digest plan_digest =
     (yget evidence ''schema_version'' = YStr ''1'' \<and> yget evidence ''kind'' = YStr ''legacy-tdd-ledger''
      \<and> is_text (yget evidence ''change_id'') \<and> is_digest (yget evidence ''ledger_digest'')
      \<and> yget evidence ''mapping_digest'' = YStr mapping_digest \<and> yget evidence ''plan_digest'' = YStr plan_digest)"

definition prior_red_proof_findings :: "ydict option \<Rightarrow> string \<Rightarrow> string \<Rightarrow> string list" where
  "prior_red_proof_findings proof mapping_digest plan_digest =
     (case proof of
        None \<Rightarrow> [''prior-red-proof-missing'']
      | Some p \<Rightarrow> if prior_red_proof_valid p mapping_digest plan_digest then [] else [''prior-red-proof-invalid''])"

definition legacy_tdd_evidence_findings :: "ydict option \<Rightarrow> string \<Rightarrow> string \<Rightarrow> string list" where
  "legacy_tdd_evidence_findings evidence mapping_digest plan_digest =
     (case evidence of
        None \<Rightarrow> [''prior-red-proof-missing'']
      | Some e \<Rightarrow> if legacy_tdd_evidence_valid e mapping_digest plan_digest then []
                 else [''legacy-tdd-evidence-invalid''])"

definition final_proof_findings ::
  "ydict option \<Rightarrow> ydict option \<Rightarrow> string \<Rightarrow> string \<Rightarrow> string list \<times> string option" where
  "final_proof_findings prior legacy mapping_digest plan_digest =
     (if prior \<noteq> None \<and> legacy \<noteq> None then ([''proof-basis-ambiguous''], None)
      else if prior \<noteq> None
        then (let f = prior_red_proof_findings prior mapping_digest plan_digest
              in (f, if f = [] then Some ''red-junit'' else None))
      else (let f = legacy_tdd_evidence_findings legacy mapping_digest plan_digest
            in (f, if f = [] then Some ''legacy-tdd-ledger'' else None)))"

definition is_source_ref :: "string \<Rightarrow> bool" where
  "is_source_ref s = (hex_of_length 40 s \<or> hex_of_length 64 s)"

definition validate_reconciliation_context :: "ReconciliationContext \<Rightarrow> py_error option" where
  "validate_reconciliation_context ctx =
     (if rc_run_stage ctx \<notin> {''red'', ''final''} then Some (ValueError ''run stage must be red or final'')
      else if \<not> is_source_ref (rc_source_ref ctx)
        then Some (ValueError ''source ref must be a full lowercase Git object id'')
      else None)"

definition proof_basis_for_context ::
  "ReconciliationContext \<Rightarrow> string \<Rightarrow> string \<Rightarrow> string list \<times> string option" where
  "proof_basis_for_context ctx mapping_digest plan_digest =
     (if rc_run_stage ctx = ''final''
      then final_proof_findings (rc_prior_red_proof ctx) (rc_legacy_tdd_evidence ctx) mapping_digest plan_digest
      else if rc_legacy_tdd_evidence ctx \<noteq> None then ([''legacy-tdd-evidence-red-stage''], None) else ([], None))"

record ReconciliationOutcome =
  ro_mapping_digest :: string
  ro_plan_digest :: string
  ro_submitted_plan :: ydict
  ro_cases :: "ydict list"
  ro_findings :: "string list"
  ro_proof_basis :: "string option"
  ro_junit_digest :: "string option"

definition execution_proof :: "ReconciliationContext \<Rightarrow> ReconciliationOutcome \<Rightarrow> ydict" where
  "execution_proof ctx outcome =
     ydict_of ([(''run_stage'', YStr (rc_run_stage ctx)), (''source_ref'', YStr (rc_source_ref ctx)),
        (''selectors'', texts (sort (map (\<lambda>c. y_str (yget c ''node_id'')) (ro_cases outcome))))]
       @ (case ro_proof_basis outcome of None \<Rightarrow> [] | Some b \<Rightarrow> [(''proof_basis'', YStr b)])
       @ (case ro_junit_digest outcome of None \<Rightarrow> [] | Some d \<Rightarrow> [(''junit_digest'', YStr d)]))"

definition reconciliation_report ::
  "hash \<Rightarrow> ReconciliationContext \<Rightarrow> ReconciliationOutcome \<Rightarrow> py_error + ydict" where
  "reconciliation_report sha ctx outcome =
     (let observed = (if rc_run_stage ctx = ''red'' then ''red'' else ''verified'')
      in err_bind
           (lifecycle_report sha observed (if ro_findings outcome = [] then observed else ''incomplete'')
              (ro_mapping_digest outcome) (ro_findings outcome) (ro_cases outcome)) (\<lambda>report.
           (let base = filter (\<lambda>(k, v). k \<noteq> YStr ''plan'') report
                  @ ydict_of [(''execution_plan'', yget report ''plan''), (''plan'', YMap (ro_submitted_plan outcome)),
                              (''execution_proof'', YMap (execution_proof ctx outcome))];
                legacy = (if ro_proof_basis outcome = Some ''legacy-tdd-ledger'' \<and> ro_findings outcome = []
                  then yset base ''implementation_evidence'' (YStr ''passing-after-legacy-tdd-ledger'')
                    @ ydict_of [(''legacy_tdd_evidence'', YMap (case rc_legacy_tdd_evidence ctx of None \<Rightarrow> [] | Some d \<Rightarrow> d))]
                  else base)
            in Inr (legacy @ ydict_of [(''plan_digest'', YStr (ro_plan_digest outcome))]))))"

definition reconcile_junit ::
  "hash \<Rightarrow> (string \<Rightarrow> xml option) \<Rightarrow> ydict \<Rightarrow> junit_file \<Rightarrow> ReconciliationContext \<Rightarrow> py_error + ydict" where
  "reconcile_junit sha xml_parse report file ctx =
     (case validate_reconciliation_context ctx of
        Some e \<Rightarrow> Inl e
      | None \<Rightarrow>
          err_bind (plan_cases sha report) (\<lambda>(mapping_digest, plan_digest, plan, cases).
            (let (results, junit_findings, junit_digest) = junit_results sha xml_parse file;
                 expected = set (map (\<lambda>c. y_str (yget c ''node_id'')) cases);
                 (proof_findings, proof_basis) = proof_basis_for_context ctx mapping_digest plan_digest
             in reconciliation_report sha ctx
                  \<lparr>ro_mapping_digest = mapping_digest, ro_plan_digest = plan_digest, ro_submitted_plan = plan,
                   ro_cases = cases,
                   ro_findings = junit_findings @ selector_result_findings expected results (rc_run_stage ctx) @ proof_findings,
                   ro_proof_basis = proof_basis, ro_junit_digest = junit_digest\<rparr>)))"

section \<open>Lookups and errors\<close>

lemma yget_ydict_of [simp]:
  "yget (ydict_of []) j = YNone"
  "yget (ydict_of ((k, v) # ps)) j = (if j = k then v else yget (ydict_of ps) j)"
  by (auto simp: yget_def ydict_of_def)

lemma map_of_ydict_of: "map_of (ydict_of ps) (YStr k) = map_of ps k"
  by (induction ps) (auto simp: ydict_of_def)

lemma yget_append: "yget (a @ b) k = (if map_of a (YStr k) = None then yget b k else yget a k)"
  by (auto simp: yget_def split: option.splits)

lemma err_bind_Inr: "err_bind x f = Inr b \<longleftrightarrow> (\<exists>a. x = Inr a \<and> f a = Inr b)"
  by (cases x) (auto simp: err_bind_def)

lemma err_map_Inr: "err_map f xs = Inr ys \<longleftrightarrow> list_all2 (\<lambda>x y. f x = Inr y) xs ys"
  by (induction xs arbitrary: ys) (auto simp: err_bind_Inr map_sum_Inr_iff list_all2_Cons1)

lemma err_map_total: "(\<exists>ys. err_map f xs = Inr ys) \<longleftrightarrow> (\<forall>x \<in> set xs. \<exists>y. f x = Inr y)"
  by (induction xs) (auto simp: err_bind_Inr map_sum_Inr_iff)

section \<open>Reports\<close>

lemma lifecycle_report_fields:
  assumes "lifecycle_report sha required observed mapping_digest findings cases = Inr rep"
  obtains plan where "build_plan sha mapping_digest cases = Inr plan" "yget rep ''plan'' = YMap plan"
    "yget rep ''gate_decision'' =
       YStr (if findings = [] \<and> maturity_rank required \<le> maturity_rank observed then ''pass'' else ''fail'')"
    "yget rep ''observed_maturity'' = YStr observed" "yget rep ''mapping_digest'' = YStr mapping_digest"
    "yget rep ''findings'' = texts (sorted_list_of_set (set findings))"
    "yget rep ''required_maturity'' = YStr required"
  using assms by (auto simp: lifecycle_report_def err_bind_Inr Let_def)

lemma build_plan_fields:
  assumes "build_plan sha mapping_digest cases = Inr plan"
  obtains ordered d where "ordered_cases sha cases = Inr ordered"
    "canonical_digest sha (plan_identity mapping_digest ordered) = Inr d"
    "yget plan ''mapping_digest'' = YStr mapping_digest" "yget plan ''cases'' = YList (map YMap ordered)"
    "yget plan ''plan_digest'' = YStr d"
  using assms
  by (auto simp: build_plan_def err_bind_Inr plan_identity_def yget_append map_of_ydict_of)

lemma ymaps_YMap [simp]: "ymaps (map YMap ds) = ds"
  by (induction ds) auto

lemma ymaps_length: "length (ymaps vs) \<le> length vs"
  by (induction vs rule: ymaps.induct) auto

lemma ymaps_all: "length (ymaps vs) = length vs \<Longrightarrow> map YMap (ymaps vs) = vs"
proof (induction vs)
  case (Cons v vs)
  then show ?case using ymaps_length [of vs] by (cases v) auto
qed simp

section \<open>Plans\<close>

definition digest_of :: "hash \<Rightarrow> ydict \<Rightarrow> string" where
  "digest_of sha c = (case canonical_digest sha c of Inl e \<Rightarrow> [] | Inr d \<Rightarrow> d)"

definition case_key :: "hash \<Rightarrow> ydict \<Rightarrow> string \<times> string \<times> string" where
  "case_key sha c = (y_str (yget c ''requirement_id''), y_str (yget c ''case_id''), digest_of sha c)"

lemma insort_decorated:
  "insort_key fst (f x, x) (map (\<lambda>y. (f y, y)) ys) = map (\<lambda>y. (f y, y)) (insort_key f x ys)"
  by (induction ys) auto

lemma sort_decorated: "map snd (sort_key fst (map (\<lambda>y. (f y, y)) xs)) = sort_key f xs"
proof -
  have "sort_key fst (map (\<lambda>y. (f y, y)) xs) = map (\<lambda>y. (f y, y)) (sort_key f xs)"
    by (induction xs) (simp_all add: insort_decorated)
  then show ?thesis by (simp add: comp_def)
qed

lemma ordered_cases_Inr:
  "ordered_cases sha cases = Inr ordered \<longleftrightarrow>
     (\<forall>c \<in> set cases. \<exists>d. canonical_digest sha c = Inr d) \<and> ordered = sort_key (case_key sha) cases"
proof (cases "err_map (canonical_digest sha) cases")
  case (Inl e)
  then show ?thesis by (auto simp: ordered_cases_def simp flip: err_map_total)
next
  case (Inr ds)
  have "ds = map (digest_of sha) cases"
    using Inr unfolding err_map_Inr
    by (auto simp: list_all2_conv_all_nth digest_of_def intro!: nth_equalityI)
  then have "zip (map2 (\<lambda>c d. (y_str (yget c ''requirement_id''), y_str (yget c ''case_id''), d)) cases ds) cases
    = map (\<lambda>c. (case_key sha c, c)) cases"
    by (auto simp: case_key_def zip_map_map zip_same_conv_map comp_def map_zip_map2 intro!: nth_equalityI)
  with Inr show ?thesis
    by (auto simp: ordered_cases_def sort_decorated simp flip: err_map_total)
qed

text \<open>A plan can be built when every case can be encoded.\<close>

lemma json_safe_list_total: "(\<exists>ns. json_safe_list xs = Inr ns) \<longleftrightarrow> (\<forall>x \<in> set xs. \<exists>n. json_safe x = Inr n)"
  by (induction xs) (auto simp: map_sum_Inr_iff split: sum.splits)

lemma digest_total: "(\<exists>d. canonical_digest sha c = Inr d) \<longleftrightarrow> (\<exists>n. json_safe (YMap c) = Inr n)"
  by (cases "json_safe (YMap c)") (auto simp: canonical_digest_def)

lemma plan_identity_total:
  assumes "\<forall>c \<in> set cases. \<exists>d. canonical_digest sha c = Inr d"
  obtains d where "canonical_digest sha (plan_identity md cases) = Inr d"
proof -
  have "\<forall>c \<in> set (map YMap cases). \<exists>n. json_safe c = Inr n" using assms digest_total by auto
  then obtain ns where "json_safe_list (map YMap cases) = Inr ns" using json_safe_list_total by metis
  then have "\<exists>n. json_safe (YMap (plan_identity md cases)) = Inr n"
    by (simp add: plan_identity_def ydict_of_def scalar_node_def)
  then show thesis using that digest_total by metis
qed

lemma build_plan_Inr:
  "(\<exists>plan. build_plan sha md cases = Inr plan) \<longleftrightarrow> (\<forall>c \<in> set cases. \<exists>d. canonical_digest sha c = Inr d)"
proof
  assume a: "\<forall>c \<in> set cases. \<exists>d. canonical_digest sha c = Inr d"
  then have o: "ordered_cases sha cases = Inr (sort_key (case_key sha) cases)" by (simp add: ordered_cases_Inr)
  from a have "\<forall>c \<in> set (sort_key (case_key sha) cases). \<exists>d. canonical_digest sha c = Inr d" by simp
  then obtain d where "canonical_digest sha (plan_identity md (sort_key (case_key sha) cases)) = Inr d"
    by (rule plan_identity_total)
  with o show "\<exists>plan. build_plan sha md cases = Inr plan" by (simp add: build_plan_def err_bind_def)
qed (auto simp: build_plan_def err_bind_Inr ordered_cases_Inr)

text \<open>Building the plan of an ordered plan's cases gives the same plan.\<close>

lemma sort_key_idem: "sort_key f (sort_key f xs) = sort_key f xs"
  by (rule properties_for_sort_key) auto

lemma build_plan_again:
  assumes "build_plan sha md cases = Inr plan"
  shows "build_plan sha md (sort_key (case_key sha) cases) = Inr plan"
  using assms by (auto simp: build_plan_def err_bind_Inr ordered_cases_Inr sort_key_idem)

lemma build_plan_digest:
  assumes "build_plan sha md cases = Inr plan"
  obtains d where "canonical_digest sha (plan_identity md (sort_key (case_key sha) cases)) = Inr d"
    "yget plan ''plan_digest'' = YStr d" "\<forall>c \<in> set cases. \<exists>d. canonical_digest sha c = Inr d"
proof -
  obtain ordered d where "ordered_cases sha cases = Inr ordered"
    "canonical_digest sha (plan_identity md ordered) = Inr d" "yget plan ''plan_digest'' = YStr d"
    using assms by (rule build_plan_fields)
  then show thesis using that unfolding ordered_cases_Inr by blast
qed

lemma map_sort_key: "map f (sort_key f xs) = sort (map f xs)"
  by (rule properties_for_sort [symmetric]) (simp_all add: mset_map del: map_map)

lemma sorted_cases_equiv:
  assumes "mset cs = mset cs'" and "\<forall>c \<in> set cs. \<exists>d. canonical_digest sha c = Inr d"
    and inj: "inj_on sha (canonical_text ` set cs)"
  shows "list_all2 y_equiv (map YMap (sort_key (case_key sha) cs)) (map YMap (sort_key (case_key sha) cs'))"
proof -
  have st: "set cs' = set cs" using assms(1) by (metis set_mset_mset)
  have "map (case_key sha) (sort_key (case_key sha) cs) = map (case_key sha) (sort_key (case_key sha) cs')"
    unfolding map_sort_key using assms(1) by (metis mset_map mset_sort properties_for_sort sorted_sort)
  then have "list_all2 (=) (map (case_key sha) (sort_key (case_key sha) cs)) (map (case_key sha) (sort_key (case_key sha) cs'))"
    by (simp add: list.rel_eq)
  then have k: "list_all2 (\<lambda>a b. case_key sha a = case_key sha b) (sort_key (case_key sha) cs) (sort_key (case_key sha) cs')"
    by (simp only: list_all2_map1 list_all2_map2)
  have "y_equiv (YMap a) (YMap b)" if "a \<in> set cs" "b \<in> set cs" "case_key sha a = case_key sha b" for a b
  proof -
    from that assms(2) obtain x y where xy: "canonical_digest sha a = Inr x" "canonical_digest sha b = Inr y" by blast
    with that(3) have "x = y" by (simp add: case_key_def digest_of_def)
    with xy that(1,2) show ?thesis by (auto intro!: canonical_digest_binding [of sha a x b] inj_on_subset [OF inj])
  qed
  then show ?thesis unfolding list_all2_map1 list_all2_map2
    using k by (elim list.rel_mono_strong) (auto simp: st)
qed

lemma plan_identity_equiv:
  "y_equiv (YMap (plan_identity md cs)) (YMap (plan_identity md' cs')) \<longleftrightarrow>
     md = md' \<and> list_all2 y_equiv (map YMap cs) (map YMap cs')"
proof
  assume "md = md' \<and> list_all2 y_equiv (map YMap cs) (map YMap cs')"
  then show "y_equiv (YMap (plan_identity md cs)) (YMap (plan_identity md' cs'))"
    by (intro eq_map [of _ "plan_identity md' cs'"]) (auto simp: plan_identity_def ydict_of_def intro: y_equiv.intros)
next
  assume "y_equiv (YMap (plan_identity md cs)) (YMap (plan_identity md' cs'))"
  then obtain e where e: "list_all2 (rel_prod y_equiv y_equiv) (plan_identity md cs) e"
    "mset e = mset (plan_identity md' cs')" by (auto elim: y_equivE)
  then obtain p q where "e = [p, q]" "rel_prod y_equiv y_equiv (YStr ''mapping_digest'', YStr md) p"
    "rel_prod y_equiv y_equiv (YStr ''cases'', YList (map YMap cs)) q"
    by (auto simp: plan_identity_def ydict_of_def list_all2_Cons1)
  moreover have "y_equiv (YStr a) v \<longleftrightarrow> v = YStr a" "y_equiv (YList xs) v \<longleftrightarrow> (\<exists>ys. v = YList ys \<and> list_all2 y_equiv xs ys)"
    for a v xs by (auto elim: y_equiv.cases intro: y_equiv.intros)
  ultimately show "md = md' \<and> list_all2 y_equiv (map YMap cs) (map YMap cs')"
    using mset_eq_setD [OF e(2)] by (auto simp: plan_identity_def ydict_of_def doubleton_eq_iff rel_prod_sel)
qed

section \<open>Complete mappings\<close>

text \<open>What the validation demands of a mapping at a maturity level, stated on the mapping itself.\<close>

definition selector_node :: "ydict \<Rightarrow> string option" where
  "selector_node cs = fst (validate_selector cs [])"

definition case_node :: "string \<Rightarrow> yval \<Rightarrow> string option" where
  "case_node required v =
     (case v of YMap cs \<Rightarrow> (if selector_required (yget cs ''method'') required cs then selector_node cs else None)
      | _ \<Rightarrow> None)"

definition case_complete :: "string \<Rightarrow> yval \<Rightarrow> bool" where
  "case_complete required v =
     (case v of
        YMap cs \<Rightarrow> list_all (\<lambda>f. is_text (yget cs f)) [''case_id'', ''scenario_id'', ''intent'', ''observable'']
          \<and> in_texts (yget cs ''method'') SUPPORTED_METHODS
          \<and> (selector_required (yget cs ''method'') required cs \<longrightarrow> selector_node cs \<noteq> None)
      | _ \<Rightarrow> False)"

definition requirement_complete :: "string \<Rightarrow> yval \<times> yval \<Rightarrow> bool" where
  "requirement_complete required e =
     (case e of
        (k, YMap r) \<Rightarrow> is_text k \<and> is_text (yget r ''rationale'')
          \<and> ylist (yget r ''touchpoints'') \<noteq> [] \<and> list_all valid_touchpoint (ylist (yget r ''touchpoints''))
          \<and> ylist (yget r ''verification_cases'') \<noteq> []
          \<and> list_all (case_complete required) (ylist (yget r ''verification_cases''))
      | _ \<Rightarrow> False)"

definition requirement_nodes :: "string \<Rightarrow> yval \<times> yval \<Rightarrow> string list" where
  "requirement_nodes required e =
     (case e of (k, YMap r) \<Rightarrow> List.map_filter (case_node required) (ylist (yget r ''verification_cases'')) | _ \<Rightarrow> [])"

definition mapping_complete :: "ydict \<Rightarrow> string \<Rightarrow> bool" where
  "mapping_complete mapping required =
     (yget mapping ''schema_version'' = YStr ''2''
      \<and> (case yget mapping ''requirements'' of
           YMap rs \<Rightarrow> rs \<noteq> [] \<and> list_all (requirement_complete required) rs
             \<and> distinct (concat (map (requirement_nodes required) rs))
         | _ \<Rightarrow> False))"

lemma validate_selector_findings:
  obtains fs where "validate_selector cs case_id = (selector_node cs, fs)" "fs = [] \<longleftrightarrow> selector_node cs \<noteq> None"
proof
  show "validate_selector cs case_id = (selector_node cs, snd (validate_selector cs case_id))"
    by (auto simp: selector_node_def validate_selector_def split: yval.splits)
  show "snd (validate_selector cs case_id) = [] \<longleftrightarrow> selector_node cs \<noteq> None"
    by (auto simp: selector_node_def validate_selector_def split: yval.splits)
qed

lemma missing_text_empty [simp]: "missing_text v f i = [] \<longleftrightarrow> is_text v"
  by (simp add: missing_text_def)

lemma in_texts_text: "in_texts v SUPPORTED_METHODS \<Longrightarrow> is_text v"
  by (cases v) (auto simp: in_texts_def SUPPORTED_METHODS_def is_text_def non_blank_def, code_simp+)

lemma validated_case_cases:
  assumes "validated_case v rid required = Inr (c, fs)"
  obtains (incomplete) "c = None" "fs \<noteq> []" "\<not> case_complete required v"
  | (checked) cs where "v = YMap cs" "is_text (yget cs ''case_id'')" "in_texts (yget cs ''method'') SUPPORTED_METHODS"
      "c = Some (preserved_case rid (y_str (yget cs ''case_id'')) cs (case_node required v))"
      "fs = [] \<longleftrightarrow> case_complete required v"
proof (cases v)
  case (YMap cs)
  obtain ms where sel: "validate_selector cs (y_str (yget cs ''case_id'')) = (selector_node cs, ms)"
    "ms = [] \<longleftrightarrow> selector_node cs \<noteq> None" by (rule validate_selector_findings)
  show ?thesis
  proof (cases "is_text (yget cs ''case_id'') \<and> in_texts (yget cs ''method'') SUPPORTED_METHODS")
    case True
    show ?thesis
      by (rule checked [of cs])
        (use assms True YMap sel in_texts_text [of "yget cs ''method''"] in
          \<open>auto simp: validated_case_def case_complete_def case_node_def Let_def split: if_splits\<close>)
  next
    case False
    show ?thesis
      by (rule incomplete)
        (use assms False YMap in \<open>auto simp: validated_case_def case_complete_def Let_def split: if_splits prod.splits\<close>)
  qed
qed (use assms incomplete in \<open>auto simp: validated_case_def case_complete_def\<close>)

lemma validated_case_complete:
  assumes "validated_case v rid required = Inr (c, fs)"
  shows "fs = [] \<longleftrightarrow> case_complete required v"
  using assms by (cases rule: validated_case_cases) auto

text \<open>The selectors of the validated cases are the declared ones.\<close>

lemma yget_yset: "yget (yset d k v) j = (if j = k then v else yget d j)"
  by (simp add: yget_def yset_def update_conv')

lemma attach_touchpoints_other [simp]: "j \<noteq> ''touchpoints'' \<Longrightarrow> yget (attach_touchpoints t c) j = yget c j"
  by (cases t) (auto simp: attach_touchpoints_def yget_yset)

lemma selector_node_text:
  assumes "selector_node cs = Some node"
  shows "is_text (YStr node)" and "selector_matches node" and "\<not> selector_escapes node"
proof -
  from assms show m: "selector_matches node" and "\<not> selector_escapes node"
    by (auto simp: selector_node_def validate_selector_def split: yval.splits if_splits)
  from m have "node \<noteq> []" by (auto simp: selector_matches_def selector_path_def Let_def)
  from m have "take 2 (drop (length (selector_path node)) node) = ''::''" by (simp add: selector_matches_def Let_def)
  then have "CHR '':'' \<in> set node" by (metis in_set_dropD in_set_takeD list.set_intros(1))
  then show "is_text (YStr node)" by (auto simp: is_text_def intro: non_blank_char simp: py_is_space_def)
qed

lemma preserved_node_id:
  "yget (preserved_case rid name cs sel) ''node_id'' = (case sel of None \<Rightarrow> YNone | Some n \<Rightarrow> YStr n)"
  by (cases sel) (simp_all add: preserved_case_def selector_entries_def)

lemma case_node_text: "case_node required v = Some n \<Longrightarrow> is_text (YStr n)"
  by (auto simp: case_node_def intro: selector_node_text split: yval.splits if_splits)

text \<open>The selectors of one case.\<close>

lemma case_selectors_Cons: "case_selectors (c # cs) = case_selectors [c] @ case_selectors cs"
  by (simp add: case_selectors_def)

lemma case_selectors_append [simp]: "case_selectors (a @ b) = case_selectors a @ case_selectors b"
  by (simp add: case_selectors_def)

lemma preserved_selectors:
  assumes "yget c ''node_id'' = (case case_node required v of None \<Rightarrow> YNone | Some n \<Rightarrow> YStr n)"
  shows "case_selectors [c] = (case case_node required v of None \<Rightarrow> [] | Some n \<Rightarrow> [n])"
  using assms case_node_text by (auto simp: case_selectors_def is_text_def y_str_def split: option.splits)

lemma validated_list:
  assumes "err_map (\<lambda>v. validated_case v rid required) vs = Inr rs"
  shows "concat (map snd rs) = [] \<longleftrightarrow> list_all (case_complete required) vs"
    and "concat (map snd rs) = [] \<Longrightarrow>
      case_selectors (map (attach_touchpoints t) (List.map_filter fst rs)) = List.map_filter (case_node required) vs"
proof -
  have "(concat (map snd rs) = [] \<longleftrightarrow> list_all (case_complete required) vs) \<and>
    (concat (map snd rs) = [] \<longrightarrow>
      case_selectors (map (attach_touchpoints t) (List.map_filter fst rs)) = List.map_filter (case_node required) vs)"
    using assms unfolding err_map_Inr
  proof (induction rule: list_all2_induct)
    case (Cons v vs r rs)
    obtain c fs where r: "r = (c, fs)" by (cases r)
    from Cons.hyps(1) have v: "validated_case v rid required = Inr (c, fs)" using r by simp
    from v show ?case
    proof (cases rule: validated_case_cases)
      case incomplete
      with r Cons.IH show ?thesis by auto
    next
      case (checked cs)
      have "case_selectors [attach_touchpoints t (preserved_case rid (y_str (yget cs ''case_id'')) cs (case_node required v))]
        = (case case_node required v of None \<Rightarrow> [] | Some n \<Rightarrow> [n])"
        by (rule preserved_selectors) (simp add: preserved_node_id)
      with checked r Cons.IH show ?thesis
        using case_selectors_Cons [of "attach_touchpoints t (the c)" "map (attach_touchpoints t) (List.map_filter fst rs)"]
        by (auto simp: List.map_filter_simps split: option.splits)
    qed
  qed (simp add: case_selectors_def List.map_filter_simps)
  then show "concat (map snd rs) = [] \<longleftrightarrow> list_all (case_complete required) vs"
    and "concat (map snd rs) = [] \<Longrightarrow>
      case_selectors (map (attach_touchpoints t) (List.map_filter fst rs)) = List.map_filter (case_node required) vs"
    by auto
qed

lemma requirement_cases_complete:
  assumes "requirement_cases k v required = Inr (cases, fs)"
  shows "fs = [] \<longleftrightarrow> requirement_complete required (k, v)"
    and "fs = [] \<Longrightarrow> case_selectors cases = requirement_nodes required (k, v)"
proof -
  have "(fs = [] \<longleftrightarrow> requirement_complete required (k, v)) \<and>
    (fs = [] \<longrightarrow> case_selectors cases = requirement_nodes required (k, v))"
  proof (cases v)
    case (YMap r)
    show ?thesis
    proof (cases "is_text k")
      case True
      with assms YMap obtain cs cf where cf: "verification_case_results r (y_str k) required = Inr (cs, cf)"
        and c: "cases = map (attach_touchpoints (yget r ''touchpoints'')) cs"
        and f: "fs = missing_text (yget r ''rationale'') ''rationale'' (y_str k) @ touchpoint_findings r (y_str k) @ cf"
        by (auto simp: requirement_cases_def Let_def map_sum_Inr_iff)
      have t: "touchpoint_findings r i = [] \<longleftrightarrow>
          ylist (yget r ''touchpoints'') \<noteq> [] \<and> list_all valid_touchpoint (ylist (yget r ''touchpoints''))" for i
        by (auto simp: touchpoint_findings_def ylist_def split: yval.splits list.splits)
      have v: "(cf = [] \<longleftrightarrow> ylist (yget r ''verification_cases'') \<noteq> []
          \<and> list_all (case_complete required) (ylist (yget r ''verification_cases'')))
        \<and> (cf = [] \<longrightarrow> case_selectors cases
            = List.map_filter (case_node required) (ylist (yget r ''verification_cases'')))"
      proof (cases "ylist (yget r ''verification_cases'')")
        case Nil
        with cf show ?thesis
          by (auto simp: verification_case_results_def ylist_def split: yval.splits list.splits)
      next
        case (Cons x xs)
        with cf obtain rs where rs: "err_map (\<lambda>v. validated_case v (y_str k) required) (x # xs) = Inr rs"
          "cs = List.map_filter fst rs" "cf = concat (map snd rs)"
          by (auto simp: verification_case_results_def ylist_def map_sum_Inr_iff split: yval.splits list.splits
              simp del: err_map.simps)
        show ?thesis
          using validated_list(1) [OF rs(1)] validated_list(2) [OF rs(1)] unfolding Cons c rs(2,3) by blast
      qed
      show ?thesis using True f t v unfolding YMap by (auto simp: requirement_complete_def requirement_nodes_def)
    next
      case False
      with assms YMap show ?thesis by (auto simp: requirement_cases_def requirement_complete_def)
    qed
  qed (use assms in \<open>auto simp: requirement_cases_def requirement_complete_def\<close>)
  then show "fs = [] \<longleftrightarrow> requirement_complete required (k, v)"
    and "fs = [] \<Longrightarrow> case_selectors cases = requirement_nodes required (k, v)" by auto
qed

lemma no_duplicates: "duplicate_selector_findings cases = [] \<longleftrightarrow> distinct (case_selectors cases)"
proof -
  have "(\<forall>s \<in> set xs. \<not> 1 < count_list xs s) \<longleftrightarrow> distinct xs" for xs :: "string list"
  proof (induction xs)
    case (Cons x xs)
    then show ?case by (auto simp: count_list_0_iff)
  qed simp
  then show ?thesis
    by (auto simp: duplicate_selector_findings_def Let_def filter_empty_conv)
qed

lemma requirement_results:
  assumes "list_all2 (\<lambda>e r. requirement_cases (fst e) (snd e) required = Inr r) es results"
  shows "concat (map snd results) = [] \<longleftrightarrow> list_all (requirement_complete required) es"
    and "concat (map snd results) = [] \<Longrightarrow>
      case_selectors (concat (map fst results)) = concat (map (requirement_nodes required) es)"
proof -
  have "(concat (map snd results) = [] \<longleftrightarrow> list_all (requirement_complete required) es) \<and>
    (concat (map snd results) = [] \<longrightarrow>
      case_selectors (concat (map fst results)) = concat (map (requirement_nodes required) es))"
    using assms
  proof (induction rule: list_all2_induct)
    case (Cons e es r results)
    obtain k v cs fs where e: "e = (k, v)" "r = (cs, fs)" by (cases e; cases r)
    with Cons.hyps have "requirement_cases k v required = Inr (cs, fs)" by simp
    from requirement_cases_complete [OF this] Cons.IH e show ?case by auto
  qed (simp add: case_selectors_def)
  then show "concat (map snd results) = [] \<longleftrightarrow> list_all (requirement_complete required) es"
    and "concat (map snd results) = [] \<Longrightarrow>
      case_selectors (concat (map fst results)) = concat (map (requirement_nodes required) es)" by auto
qed

lemma mset_concat_perm: "mset xs = mset ys \<Longrightarrow> mset (concat (map f xs)) = mset (concat (map f ys))"
  by (simp add: mset_concat flip: sum_mset_sum_list)

lemma validated_cases_complete:
  assumes "validated_cases mapping required = Inr (cases, fs)"
  shows "fs = [] \<longleftrightarrow> mapping_complete mapping required"
    and "fs = [] \<Longrightarrow> distinct (case_selectors cases)"
proof -
  have "(fs = [] \<longleftrightarrow> mapping_complete mapping required) \<and> (fs = [] \<longrightarrow> distinct (case_selectors cases))"
  proof (cases "yget mapping ''schema_version'' = YStr ''2'' \<and> (\<exists>r rs. yget mapping ''requirements'' = YMap (r # rs))")
    case True
    then obtain r rs where y: "yget mapping ''requirements'' = YMap (r # rs)" by blast
    let ?es = "sort_key (\<lambda>(k, v). y_str k) (r # rs)"
    from True y assms obtain results where res: "list_all2 (\<lambda>e r. requirement_cases (fst e) (snd e) required = Inr r) ?es results"
      and c: "cases = concat (map fst results)"
      and f: "fs = sorted_list_of_set (set (concat (map snd results) @ duplicate_selector_findings cases))"
      by (auto simp: validated_cases_def map_sum_Inr_iff err_map_Inr Let_def case_prod_beta simp del: sort_key_simps)
    have f': "fs = [] \<longleftrightarrow> concat (map snd results) = [] \<and> distinct (case_selectors cases)"
      unfolding f by (auto simp: no_duplicates [symmetric])
    have "list_all (requirement_complete required) ?es \<longleftrightarrow> list_all (requirement_complete required) (r # rs)"
      by (simp only: list_all_iff set_sort)
    moreover have "distinct (concat (map (requirement_nodes required) ?es))
      \<longleftrightarrow> distinct (concat (map (requirement_nodes required) (r # rs)))"
      by (rule mset_eq_imp_distinct_iff, rule mset_concat_perm) (rule mset_sort)
    ultimately show ?thesis
      using requirement_results [OF res] f' True y c by (auto simp: mapping_complete_def simp del: sort_key_simps)
  next
    case False
    then have "fs \<noteq> []" using assms
      by (auto simp: validated_cases_def split: if_splits yval.splits list.splits)
    with False show ?thesis by (auto simp: mapping_complete_def neq_Nil_conv split: yval.splits)
  qed
  then show "fs = [] \<longleftrightarrow> mapping_complete mapping required"
    and "fs = [] \<Longrightarrow> distinct (case_selectors cases)" by auto
qed

text \<open>the plan digest identifies the plan. It does not depend on the order in which the cases are
  collected; and two plans with the same digest have the same mapping digest and, up to the order of the
  cases, equivalent cases, as long as the hash does not map the encoded texts of the two plans together. A plan
  report edited after it was issued is therefore refused by the reconciliation, which recomputes the digest.\<close>

theorem plan_digest_identifies_plan:
  assumes p: "build_plan sha md cs = Inr plan" and p': "build_plan sha md' cs' = Inr plan'"
    and inj: "inj_on sha (canonical_text ` (set cs \<union> {plan_identity md (sort_key (case_key sha) cs),
      plan_identity md' (sort_key (case_key sha) cs')}))"
  shows "(md' = md \<and> mset cs' = mset cs \<longrightarrow> yget plan' ''plan_digest'' = yget plan ''plan_digest'')
    \<and> (yget plan' ''plan_digest'' = yget plan ''plan_digest'' \<longrightarrow>
      md' = md \<and> (\<exists>zs. mset zs = mset cs' \<and> list_all2 (\<lambda>c z. y_equiv (YMap c) (YMap z)) cs zs))"
proof -
  obtain d where d: "canonical_digest sha (plan_identity md (sort_key (case_key sha) cs)) = Inr d"
    "yget plan ''plan_digest'' = YStr d" "\<forall>c \<in> set cs. \<exists>d. canonical_digest sha c = Inr d"
    using p by (rule build_plan_digest)
  obtain d' where d': "canonical_digest sha (plan_identity md' (sort_key (case_key sha) cs')) = Inr d'"
    "yget plan' ''plan_digest'' = YStr d'"
    using p' by (rule build_plan_digest)
  have 1: "yget plan' ''plan_digest'' = yget plan ''plan_digest''" if "md' = md \<and> mset cs' = mset cs"
  proof -
    have "list_all2 y_equiv (map YMap (sort_key (case_key sha) cs)) (map YMap (sort_key (case_key sha) cs'))"
      by (rule sorted_cases_equiv) (use that d(3) in \<open>auto intro: inj_on_subset [OF inj]\<close>)
    with that have "y_equiv (YMap (plan_identity md (sort_key (case_key sha) cs)))
      (YMap (plan_identity md' (sort_key (case_key sha) cs')))" by (simp add: plan_identity_equiv)
    from canonical_digest_equiv [OF d(1) this] d d' show ?thesis by simp
  qed
  have 2: "md' = md \<and> (\<exists>zs. mset zs = mset cs' \<and> list_all2 (\<lambda>c z. y_equiv (YMap c) (YMap z)) cs zs)"
    if "yget plan' ''plan_digest'' = yget plan ''plan_digest''"
  proof -
    have "inj_on sha {canonical_text (plan_identity md (sort_key (case_key sha) cs)),
      canonical_text (plan_identity md' (sort_key (case_key sha) cs'))}"
      by (rule inj_on_subset [OF inj]) simp
    moreover from that d(2) d' have "canonical_digest sha (plan_identity md' (sort_key (case_key sha) cs')) = Inr d"
      by simp
    ultimately have "y_equiv (YMap (plan_identity md (sort_key (case_key sha) cs)))
      (YMap (plan_identity md' (sort_key (case_key sha) cs')))"
      using d(1) canonical_digest_binding by blast
    then have "md = md'" and l: "list_all2 (\<lambda>c z. y_equiv (YMap c) (YMap z))
      (sort_key (case_key sha) cs) (sort_key (case_key sha) cs')"
      by (simp_all add: plan_identity_equiv list_all2_map1 list_all2_map2)
    moreover obtain zs where "list_all2 (\<lambda>c z. y_equiv (YMap c) (YMap z)) cs zs" "mset zs = mset (sort_key (case_key sha) cs')"
      using l by (rule reorder_right) simp
    ultimately show ?thesis by auto
  qed
  from 1 2 show ?thesis by blast
qed

section \<open>Witnesses\<close>

definition demo_case :: "string \<Rightarrow> ydict" where
  "demo_case name = ydict_of [(''requirement_id'', YStr ''R1''), (''case_id'', YStr name), (''method'', YStr ''analysis'')]"

theorem plan_digest_identifies_plan_witness:
  "\<exists>plan plan'. build_plan id ''m'' [demo_case ''a'', demo_case ''b''] = Inr plan
     \<and> build_plan id ''m'' [demo_case ''b'', demo_case ''a''] = Inr plan'
     \<and> yget plan' ''plan_digest'' = yget plan ''plan_digest''
     \<and> (\<exists>zs. mset zs = mset [demo_case ''b'', demo_case ''a'']
          \<and> list_all2 (\<lambda>c z. y_equiv (YMap c) (YMap z)) [demo_case ''a'', demo_case ''b''] zs)"
proof -
  have d: "\<exists>d. canonical_digest id (demo_case n) = Inr d" for n
    unfolding digest_total by (simp add: demo_case_def ydict_of_def scalar_node_def)
  obtain plan plan' where p: "build_plan id ''m'' [demo_case ''a'', demo_case ''b''] = Inr plan"
    "build_plan id ''m'' [demo_case ''b'', demo_case ''a''] = Inr plan'"
    using build_plan_Inr [of id "''m''" "[demo_case ''a'', demo_case ''b'']"]
      build_plan_Inr [of id "''m''" "[demo_case ''b'', demo_case ''a'']"] d by auto
  note t = plan_digest_identifies_plan [OF p inj_on_id]
  have "yget plan' ''plan_digest'' = yget plan ''plan_digest''" by (rule t [THEN conjunct1, rule_format]) simp
  with p t show ?thesis by blast
qed

end
