(* ===== verification/Requirement_Gate.thy ===== *)
theory Requirement_Gate
  imports Requirement_Lifecycle
begin

text \<open>
  What the maturity gate of \<^verbatim>\<open>requirements/lifecycle.py\<close> promises: when a mapping passes, that a passing
  plan report is accepted by the reconciliation, and when a reconciliation passes.
\<close>

section \<open>Passing a mapping\<close>

definition accepted_review :: "ydict \<Rightarrow> string \<Rightarrow> bool" where
  "accepted_review r mapping_digest =
     (list_all (\<lambda>f. is_text (yget r f)) [''reviewer_id'', ''reviewer_role'', ''recorded_at'', ''reference'']
      \<and> yget r ''decision'' = YStr ''accepted'' \<and> yget r ''mapping_digest'' = YStr mapping_digest)"

lemma valid_acceptance_empty: "valid_acceptance review d = [] \<longleftrightarrow> (\<exists>r. review = Some r \<and> accepted_review r d)"
  by (cases review) (auto simp: valid_acceptance_def accepted_review_def)

lemma maturity_rank_simps [simp]:
  "maturity_rank ''incomplete'' = 0" "maturity_rank ''planned'' = 1" "maturity_rank ''accepted'' = 2"
  "maturity_rank ''test-authored'' = 3" "maturity_rank ''red'' = 4" "maturity_rank ''verified'' = 5"
  by (simp_all add: maturity_rank_def MATURITY_ORDER_def)

lemma supported_cases:
  assumes "required \<in> set SUPPORTED_REQUIRED_MATURITY"
  obtains "required = ''planned''" | "required = ''accepted''" | "required = ''test-authored''"
  | "required = ''red''" | "required = ''verified''"
  using assms by (auto simp: SUPPORTED_REQUIRED_MATURITY_def)

lemma observe_maturity_pass:
  assumes "required \<in> set SUPPORTED_REQUIRED_MATURITY"
    and "observe_maturity required review d findings0 = (observed, findings)"
  shows "(findings = [] \<and> maturity_rank required \<le> maturity_rank observed) \<longleftrightarrow>
      required \<in> {''planned'', ''accepted'', ''test-authored''} \<and> findings0 = []
      \<and> (required \<noteq> ''planned'' \<longrightarrow> valid_acceptance review d = [])"
    (is ?pass) and "findings = [] \<Longrightarrow> observed = required" (is "_ \<Longrightarrow> ?same")
proof -
  have "?pass \<and> (findings = [] \<longrightarrow> ?same)"
    by (rule supported_cases [OF assms(1)])
      (use assms(2) in \<open>auto simp: observe_maturity_def Let_def split: if_splits\<close>)
  then show ?pass and "findings = [] \<Longrightarrow> ?same" by blast+
qed

lemma evaluate_mapping_cases:
  assumes "evaluate_mapping sha mapping required review = Inr rep"
  obtains (unsupported) msg d where "required \<in> set SUPPORTED_REQUIRED_MATURITY"
      "canonical_digest sha (mapping_payload mapping) = Inl (ValueError msg)"
      "lifecycle_report sha required ''incomplete'' d [msg] [] = Inr rep"
  | (evaluated) d cases findings0 observed findings where "required \<in> set SUPPORTED_REQUIRED_MATURITY"
      "canonical_digest sha (mapping_payload mapping) = Inr d"
      "validated_cases mapping required = Inr (cases, findings0)"
      "observe_maturity required review d findings0 = (observed, findings)"
      "lifecycle_report sha required observed d findings cases = Inr rep"
proof (cases "canonical_digest sha (mapping_payload mapping)")
  case (Inl e)
  with assms unsupported show thesis
    by (auto simp: evaluate_mapping_def err_bind_Inr split: if_splits py_error.splits)
next
  case (Inr d)
  with assms obtain cases findings0 where v: "required \<in> set SUPPORTED_REQUIRED_MATURITY"
    "validated_cases mapping required = Inr (cases, findings0)"
    "(let (observed, findings) = observe_maturity required review d findings0
      in lifecycle_report sha required observed d findings cases) = Inr rep"
    by (auto simp: evaluate_mapping_def err_bind_Inr split: if_splits)
  obtain observed findings where o: "observe_maturity required review d findings0 = (observed, findings)" by force
  from v(3) have "lifecycle_report sha required observed d findings cases = Inr rep" by (simp add: o)
  from evaluated [OF v(1) Inr v(2) o this] show thesis .
qed

lemma evaluate_mapping_gate:
  assumes "evaluate_mapping sha mapping required review = Inr rep"
  shows "(yget rep ''gate_decision'' = YStr ''pass'' \<longleftrightarrow>
      required \<in> {''planned'', ''accepted'', ''test-authored''} \<and> mapping_complete mapping required
      \<and> (\<exists>d. canonical_digest sha (mapping_payload mapping) = Inr d
           \<and> (required \<noteq> ''planned'' \<longrightarrow> (\<exists>r. review = Some r \<and> accepted_review r d))))
    \<and> (yget rep ''gate_decision'' = YStr ''pass'' \<longrightarrow>
      yget rep ''observed_maturity'' = YStr required \<and> yget rep ''findings'' = YList [])"
  using assms
proof (cases rule: evaluate_mapping_cases)
  case (unsupported msg d)
  from unsupported(3) show ?thesis
    by (rule lifecycle_report_fields) (simp add: unsupported(2))
next
  case (evaluated d cases findings0 observed findings)
  note o = observe_maturity_pass [OF evaluated(1,4)]
  have c: "findings0 = [] \<longleftrightarrow> mapping_complete mapping required"
    by (rule validated_cases_complete(1) [OF evaluated(3)])
  from evaluated(5) show ?thesis
  proof (rule lifecycle_report_fields)
    assume g: "yget rep ''gate_decision'' =
       YStr (if findings = [] \<and> maturity_rank required \<le> maturity_rank observed then ''pass'' else ''fail'')"
      and rest: "yget rep ''observed_maturity'' = YStr observed"
        "yget rep ''findings'' = texts (sorted_list_of_set (set findings))"
    have p: "yget rep ''gate_decision'' = YStr ''pass'' \<longleftrightarrow> findings = [] \<and> maturity_rank required \<le> maturity_rank observed"
      unfolding g by simp
    show ?thesis
      unfolding p using o rest by (auto simp: c evaluated(2) valid_acceptance_empty texts_def)
  qed
qed

text \<open>C18: the gate of a mapping is exact. At a level up to test-authored it passes when, and only when, the
  mapping is complete for that level (schema, requirements, touchpoints, cases, safe and unique selectors) and,
  above planned, an accepted review bound to the digest of this very mapping is presented; the levels red and
  verified never pass without test results. A passing report states the required level and no finding.\<close>

theorem lifecycle_gate_exact:
  assumes "evaluate_mapping sha mapping required review = Inr rep"
  shows "(yget rep ''gate_decision'' = YStr ''pass'' \<longleftrightarrow>
      required \<in> {''planned'', ''accepted'', ''test-authored''} \<and> mapping_complete mapping required
      \<and> (\<exists>d. canonical_digest sha (mapping_payload mapping) = Inr d
           \<and> (required \<noteq> ''planned'' \<longrightarrow> (\<exists>r. review = Some r \<and> accepted_review r d))))
    \<and> (yget rep ''gate_decision'' = YStr ''pass'' \<longrightarrow>
      yget rep ''observed_maturity'' = YStr required \<and> yget rep ''findings'' = YList [])"
  using assms by (rule evaluate_mapping_gate)

section \<open>Handing the plan to the reconciliation\<close>

text \<open>Every case of a plan without findings comes from a complete declared case.\<close>

definition case_of_mapping :: "string \<Rightarrow> ydict \<Rightarrow> bool" where
  "case_of_mapping required c =
     (\<exists>t rid name cs. c = attach_touchpoints t (preserved_case rid name cs (case_node required (YMap cs)))
        \<and> case_complete required (YMap cs))"

lemma validated_members:
  assumes "err_map (\<lambda>v. validated_case v rid required) vs = Inr rs" and "concat (map snd rs) = []"
    and "c \<in> set (List.map_filter fst rs)"
  shows "case_of_mapping required (attach_touchpoints t c)"
proof -
  from assms(3) obtain fs where r: "(Some c, fs) \<in> set rs"
    by (auto simp: set_map_filter)
  with assms(1) obtain v where v: "validated_case v rid required = Inr (Some c, fs)"
    unfolding err_map_Inr by (blast dest: list_all2_right)
  from r assms(2) have "fs = []" by force
  from v show ?thesis
  proof (cases rule: validated_case_cases)
    case (checked cs)
    with \<open>fs = []\<close> show ?thesis unfolding case_of_mapping_def by blast
  qed simp
qed

lemma requirement_members:
  assumes "requirement_cases k v required = Inr (cases, [])" and "c \<in> set cases"
  shows "case_of_mapping required c"
proof -
  from assms obtain r cs cf where r: "v = YMap r" "verification_case_results r (y_str k) required = Inr (cs, cf)"
    "cf = []" "cases = map (attach_touchpoints (yget r ''touchpoints'')) cs"
    by (auto simp: requirement_cases_def Let_def map_sum_Inr_iff split: yval.splits if_splits)
  then obtain vs rs where "err_map (\<lambda>v. validated_case v (y_str k) required) vs = Inr rs"
    "concat (map snd rs) = []" "cs = List.map_filter fst rs"
    by (auto simp: verification_case_results_def map_sum_Inr_iff simp del: err_map.simps split: yval.splits list.splits)
  with assms(2) r(4) validated_members show ?thesis by fastforce
qed

lemma plan_members:
  assumes "validated_cases mapping required = Inr (cases, [])" and "c \<in> set cases"
  shows "case_of_mapping required c"
proof -
  from assms(1) obtain es results where res: "list_all2 (\<lambda>e r. requirement_cases (fst e) (snd e) required = Inr r) es results"
    and c: "cases = concat (map fst results)"
    and f: "[] = sorted_list_of_set (set (concat (map snd results) @ duplicate_selector_findings cases))"
    by (auto simp: validated_cases_def map_sum_Inr_iff err_map_Inr Let_def case_prod_beta
        simp del: sort_key_simps split: if_splits yval.splits list.splits)
  from c assms(2) obtain r where r: "r \<in> set results" "c \<in> set (fst r)" by auto
  from f have "set (concat (map snd results) @ duplicate_selector_findings cases) = {}"
    by (metis List.finite_set sorted_list_of_set_eq_Nil_iff)
  with r(1) have "snd r = []" by auto
  moreover from r(1) res obtain e where "requirement_cases (fst e) (snd e) required = Inr r"
    by (blast dest: list_all2_right)
  ultimately have "requirement_cases (fst e) (snd e) required = Inr (fst r, [])" by (metis prod.collapse)
  from requirement_members [OF this r(2)] show ?thesis .
qed

lemma executable_case:
  assumes "case_of_mapping ''test-authored'' c" and "yget c ''method'' = YStr ''test''"
  obtains node where "execution_selector c = Inr node" "yget c ''node_id'' = YStr node" "is_text (YStr node)"
proof -
  from assms(1) obtain t rid name cs where
    c: "c = attach_touchpoints t (preserved_case rid name cs (case_node ''test-authored'' (YMap cs)))"
    and ok: "case_complete ''test-authored'' (YMap cs)"
    unfolding case_of_mapping_def by blast
  have m: "yget cs ''method'' = YStr ''test''" using assms(2) by (simp add: c preserved_case_def)
  then have sel: "selector_required (yget cs ''method'') ''test-authored'' cs" by (simp add: selector_required_def)
  with ok obtain node where node: "selector_node cs = Some node" by (auto simp: case_complete_def)
  with sel have n: "case_node ''test-authored'' (YMap cs) = Some node" by (simp add: case_node_def)
  have s: "yget c ''selector'' = YMap (ydict_of [(''runner'', YStr ''pytest''), (''node_id'', YStr node)])"
    and i: "yget c ''node_id'' = YStr node"
    by (simp_all add: c n preserved_case_def selector_entries_def)
  with selector_node_text [OF node] have "execution_selector c = Inr node"
    by (simp add: execution_selector_def validate_selector_def)
  from that [OF this i selector_node_text(1) [OF node]] show thesis .
qed

lemma distinct_map_sub:
  assumes "distinct (map g (filter P xs))" and "\<And>x. x \<in> set xs \<Longrightarrow> Q x \<Longrightarrow> P x"
  shows "distinct (map g (filter Q xs))"
proof -
  have "filter Q xs = filter Q (filter P xs)" using assms(2) by (auto intro: filter_cong)
  then show ?thesis using distinct_map_filter [OF assms(1), of Q] by simp
qed

lemma execution_cases_accepted:
  assumes ok: "\<forall>c \<in> set cases. case_of_mapping ''test-authored'' c" and d: "distinct (case_selectors cases)"
    and some: "\<exists>c \<in> set cases. yget c ''method'' = YStr ''test''"
  shows "execution_cases cases = Inr (filter (\<lambda>c. yget c ''method'' = YStr ''test'') cases)"
proof -
  let ?test = "\<lambda>c. yget c ''method'' = YStr ''test''"
  let ?node = "\<lambda>c. y_str (yget c ''node_id'')"
  have e: "execution_selector c = Inr (?node c) \<and> is_text (yget c ''node_id'')" if c: "c \<in> set cases" and t: "?test c" for c
  proof -
    from ok c have "case_of_mapping ''test-authored'' c" by blast
    from executable_case [OF this t] obtain node
      where "execution_selector c = Inr node" "yget c ''node_id'' = YStr node" "is_text (YStr node)" .
    then show ?thesis by (simp add: y_str_def)
  qed
  have "err_map execution_selector (filter ?test cases) = Inr (map ?node (filter ?test cases))"
    unfolding err_map_Inr using e by (auto simp: list_all2_map2 list_all2_same)
  moreover have "distinct (map ?node (filter ?test cases))"
    using d e unfolding case_selectors_def by (auto intro: distinct_map_sub)
  ultimately show ?thesis
    using some by (auto simp: execution_cases_def err_bind_def Let_def filter_empty_conv)
qed

lemma case_selectors_perm: "mset xs = mset ys \<Longrightarrow> distinct (case_selectors xs) \<longleftrightarrow> distinct (case_selectors ys)"
  unfolding case_selectors_def by (rule mset_eq_imp_distinct_iff) (simp add: mset_filter)

text \<open>The hash prints 64 lower-case hexadecimal digits.\<close>

definition hex_hash :: "hash \<Rightarrow> bool" where
  "hex_hash sha = (\<forall>s. hex_of_length 64 (sha s))"

lemma digest_is_digest: "hex_hash sha \<Longrightarrow> canonical_digest sha d = Inr x \<Longrightarrow> is_digest (YStr x)"
  by (auto simp: canonical_digest_Inr is_digest_def is_sha256_def hex_hash_def)

lemma passing_plan_accepted:
  assumes e: "evaluate_mapping sha mapping ''test-authored'' review = Inr rep"
    and pass: "yget rep ''gate_decision'' = YStr ''pass''"
    and hex: "hex_hash sha"
    and plan: "yget rep ''plan'' = YMap plan"
    and some: "\<exists>c \<in> set (ymaps (ylist (yget plan ''cases''))). yget c ''method'' = YStr ''test''"
  shows "plan_cases sha rep = Inr (y_str (yget rep ''mapping_digest''), y_str (yget plan ''plan_digest''), plan,
    filter (\<lambda>c. yget c ''method'' = YStr ''test'') (ymaps (ylist (yget plan ''cases''))))"
  using e
proof (cases rule: evaluate_mapping_cases)
  case (unsupported msg d)
  from unsupported(3) show ?thesis by (rule lifecycle_report_fields) (use pass in simp)
next
  case (evaluated d cases findings0 observed findings)
  from evaluated(5) obtain plan' where r: "build_plan sha d cases = Inr plan'" "yget rep ''plan'' = YMap plan'"
    "yget rep ''gate_decision'' = YStr (if findings = []
       \<and> maturity_rank ''test-authored'' \<le> maturity_rank observed then ''pass'' else ''fail'')"
    "yget rep ''observed_maturity'' = YStr observed" "yget rep ''mapping_digest'' = YStr d"
    by (rule lifecycle_report_fields)
  from r(3) pass have f: "findings = []" by (simp split: if_splits)
  with r(3) pass have "findings0 = []" "observed = ''test-authored''"
    using observe_maturity_pass [OF evaluated(1,4)] by (simp_all split: if_splits)
  note v = evaluated(3) [unfolded \<open>findings0 = []\<close>]
  from r(2) plan have p: "plan' = plan" by simp
  let ?sorted = "sort_key (case_key sha) cases"
  from r(1) obtain ordered pd where o: "ordered_cases sha cases = Inr ordered"
    "canonical_digest sha (plan_identity d ordered) = Inr pd" "yget plan' ''mapping_digest'' = YStr d"
    "yget plan' ''cases'' = YList (map YMap ordered)" "yget plan' ''plan_digest'' = YStr pd"
    by (rule build_plan_fields)
  have ord: "ordered = ?sorted" using o(1) by (simp add: ordered_cases_Inr)
  have l: "ylist (yget plan ''cases'') = map YMap ?sorted" using o(4) by (simp add: p ord ylist_def)
  have trusted: "trusted_plan rep = Inr plan"
    using pass r(4) \<open>observed = ''test-authored''\<close> plan o digest_is_digest [OF hex o(2)]
      digest_is_digest [OF hex evaluated(2)] by (simp add: trusted_plan_def p)
  have "build_plan sha d ?sorted = Inr plan" using build_plan_again [OF r(1)] p by simp
  moreover have "?sorted \<noteq> []" using some unfolding l ymaps_YMap by (cases ?sorted) simp_all
  ultimately have consistent: "consistent_plan_cases sha plan = Inr ?sorted"
    using o(3) by (simp add: consistent_plan_cases_def l p err_bind_def Let_def)
  have "execution_cases ?sorted = Inr (filter (\<lambda>c. yget c ''method'' = YStr ''test'') ?sorted)"
  proof (rule execution_cases_accepted)
    show "\<forall>c \<in> set ?sorted. case_of_mapping ''test-authored'' c" using plan_members [OF v] by simp
    show "distinct (case_selectors ?sorted)"
      using validated_cases_complete(2) [OF v] case_selectors_perm [of ?sorted cases] by simp
    show "\<exists>c \<in> set ?sorted. yget c ''method'' = YStr ''test''" using some by (simp add: l)
  qed
  with trusted consistent show ?thesis
    using o(3,5) r(5) by (simp add: plan_cases_def err_bind_def l p y_str_def)
qed

text \<open>C20: the two halves of the lifecycle fit. A report that passes at the level test-authored and plans at least one
  test is accepted by the reconciliation: the recomputed plan digest agrees, every planned test has a safe and
  unique selector, and the cases to reconcile are exactly the planned cases whose method is test.\<close>

theorem plan_handoff:
  assumes e: "evaluate_mapping sha mapping ''test-authored'' review = Inr rep"
    and pass: "yget rep ''gate_decision'' = YStr ''pass''"
    and hex: "hex_hash sha"
    and plan: "yget rep ''plan'' = YMap plan"
    and some: "\<exists>c \<in> set (ymaps (ylist (yget plan ''cases''))). yget c ''method'' = YStr ''test''"
  shows "plan_cases sha rep = Inr (y_str (yget rep ''mapping_digest''), y_str (yget plan ''plan_digest''), plan,
    filter (\<lambda>c. yget c ''method'' = YStr ''test'') (ymaps (ylist (yget plan ''cases''))))"
  using assms by (rule passing_plan_accepted)

section \<open>Passing a reconciliation\<close>

text \<open>The outcomes recorded for a selector, in document order.\<close>

definition outcomes_of :: "xml list \<Rightarrow> string \<Rightarrow> string list" where
  "outcomes_of ts s = map (\<lambda>t. snd (junit_case_result t)) (filter (\<lambda>t. junit_selector t = Some s) ts)"

definition selects :: "xml \<Rightarrow> bool" where
  "selects t = (case junit_selector t of None \<Rightarrow> False | Some s \<Rightarrow> non_blank s)"

lemma collect_outcome_step:
  "selects t \<Longrightarrow> junit_selector t = Some s \<Longrightarrow>
     collect_outcome (results, findings) t = (dict_push results s (snd (junit_case_result t)), findings)"
  "\<not> selects t \<Longrightarrow> collect_outcome (results, findings) t = (results, findings @ [''junit-selector-missing''])"
  by (auto simp: selects_def collect_outcome_def junit_case_result_def split: option.splits)

lemma collect_outcomes_fold:
  "foldl collect_outcome (results0, findings0) ts = (results, findings) \<Longrightarrow>
   (findings = [] \<longleftrightarrow> findings0 = [] \<and> list_all selects ts)
   \<and> (list_all selects ts \<longrightarrow> (\<forall>s. dict_list results s = dict_list results0 s @ outcomes_of ts s))"
proof (induction ts arbitrary: results0 findings0)
  case Nil
  then show ?case by (simp add: outcomes_of_def)
next
  case (Cons t ts)
  show ?case
  proof (cases "selects t")
    case True
    then obtain s where s: "junit_selector t = Some s" by (auto simp: selects_def split: option.splits)
    with Cons.prems True have "foldl collect_outcome (dict_push results0 s (snd (junit_case_result t)), findings0) ts
      = (results, findings)" by (simp add: collect_outcome_step)
    from Cons.IH [OF this] True s show ?thesis by (simp add: outcomes_of_def dict_list_push)
  next
    case False
    with Cons.prems have "foldl collect_outcome (results0, findings0 @ [''junit-selector-missing'']) ts
      = (results, findings)" by (simp add: collect_outcome_step)
    from Cons.IH [OF this] False show ?thesis by simp
  qed
qed

lemma collect_outcomes_exact:
  assumes "collect_outcomes ts = (results, findings)"
  shows "findings = [] \<longleftrightarrow> list_all selects ts"
    and "findings = [] \<Longrightarrow> dict_list results s = outcomes_of ts s"
  using collect_outcomes_fold [OF assms [unfolded collect_outcomes_def]] by (auto simp: dict_list_def)

lemma selector_findings_empty:
  assumes "finite expected"
  shows "selector_result_findings expected results stage = [] \<longleftrightarrow>
    (\<forall>s \<in> expected. dict_list results s = [expected_outcome stage])"
proof -
  have f: "selector_result_finding s os e m = None \<longleftrightarrow> os = [e]" for s os e m
    by (auto simp: selector_result_finding_def split: list.splits)
  have "List.map_filter g xs = [] \<longleftrightarrow> (\<forall>x \<in> set xs. g x = None)" for g :: "string \<Rightarrow> string option" and xs
    by (induction xs) (auto simp: List.map_filter_simps split: option.splits)
  then show ?thesis using assms by (simp add: selector_result_findings_def f)
qed

text \<open>What the stage demands of the historical proof: nothing but the absence of a ledger record for red, and
  exactly one valid basis bound to the same mapping and plan for final.\<close>

definition proof_basis_ok :: "ReconciliationContext \<Rightarrow> string \<Rightarrow> string \<Rightarrow> bool" where
  "proof_basis_ok ctx md pd =
     (if rc_run_stage ctx = ''final''
      then (\<exists>p. rc_prior_red_proof ctx = Some p \<and> rc_legacy_tdd_evidence ctx = None \<and> prior_red_proof_valid p md pd)
         \<or> (\<exists>l. rc_legacy_tdd_evidence ctx = Some l \<and> rc_prior_red_proof ctx = None \<and> legacy_tdd_evidence_valid l md pd)
      else rc_legacy_tdd_evidence ctx = None)"

lemma proof_basis_empty: "fst (proof_basis_for_context ctx md pd) = [] \<longleftrightarrow> proof_basis_ok ctx md pd"
  by (cases "rc_prior_red_proof ctx"; cases "rc_legacy_tdd_evidence ctx")
    (auto simp: proof_basis_for_context_def proof_basis_ok_def final_proof_findings_def
      prior_red_proof_findings_def legacy_tdd_evidence_findings_def Let_def)

definition readable_junit :: "(string \<Rightarrow> xml option) \<Rightarrow> junit_file \<Rightarrow> xml option" where
  "readable_junit xml_parse file =
     (case file of
        JunitBytes payload \<Rightarrow>
          (if int (length payload) \<le> MAX_JUNIT_BYTES \<and> \<not> py_contains (bytes_upper payload) ''<!DOCTYPE''
              \<and> \<not> py_contains (bytes_upper payload) ''<!ENTITY'' then xml_parse payload else None)
      | _ \<Rightarrow> None)"

lemma junit_results_exact:
  assumes "junit_results sha xml_parse file = (results, findings, digest)"
  shows "findings = [] \<longleftrightarrow> (\<exists>tree. readable_junit xml_parse file = Some tree \<and> list_all selects (xml_iter ''testcase'' tree))"
    and "findings = [] \<Longrightarrow> readable_junit xml_parse file = Some tree \<Longrightarrow>
      dict_list results s = outcomes_of (xml_iter ''testcase'' tree) s"
proof -
  have "(findings = [] \<longleftrightarrow> (\<exists>tree. readable_junit xml_parse file = Some tree \<and> list_all selects (xml_iter ''testcase'' tree)))
    \<and> (\<forall>tree s. findings = [] \<longrightarrow> readable_junit xml_parse file = Some tree \<longrightarrow>
        dict_list results s = outcomes_of (xml_iter ''testcase'' tree) s)"
  proof (cases "readable_junit xml_parse file")
    case None
    then have "findings \<noteq> []"
      using assms by (auto simp: junit_results_def readable_junit_def split: junit_file.splits if_splits option.splits)
    with None show ?thesis by simp
  next
    case (Some tree)
    then have "collect_outcomes (xml_iter ''testcase'' tree) = (results, findings)"
      using assms by (auto simp: junit_results_def readable_junit_def Let_def case_prod_beta
          split: junit_file.splits if_splits)
    from collect_outcomes_exact [OF this] Some show ?thesis by simp
  qed
  then show "findings = [] \<longleftrightarrow> (\<exists>tree. readable_junit xml_parse file = Some tree \<and> list_all selects (xml_iter ''testcase'' tree))"
    and "findings = [] \<Longrightarrow> readable_junit xml_parse file = Some tree \<Longrightarrow>
      dict_list results s = outcomes_of (xml_iter ''testcase'' tree) s" by auto
qed

lemma yget_append_present: "yget a k \<noteq> YNone \<Longrightarrow> yget (a @ b) k = yget a k"
  by (auto simp: yget_def split: option.splits)

lemma yget_filter: "j \<noteq> a \<Longrightarrow> yget (filter (\<lambda>(k, v). k \<noteq> YStr a) d) j = yget d j"
  by (induction d) (auto simp: yget_def)

lemma reconciliation_report_fields:
  assumes "reconciliation_report sha ctx outcome = Inr rep"
  defines "level \<equiv> if rc_run_stage ctx = ''red'' then ''red'' else ''verified''"
  shows "yget rep ''gate_decision'' = YStr (if ro_findings outcome = [] then ''pass'' else ''fail'')"
    and "yget rep ''observed_maturity'' = YStr (if ro_findings outcome = [] then level else ''incomplete'')"
proof -
  from assms(1) obtain r where r: "lifecycle_report sha level (if ro_findings outcome = [] then level else ''incomplete'')
      (ro_mapping_digest outcome) (ro_findings outcome) (ro_cases outcome) = Inr r"
    and keep: "j \<notin> {''plan'', ''implementation_evidence''} \<Longrightarrow> yget r j \<noteq> YNone \<Longrightarrow> yget rep j = yget r j" for j
    unfolding level_def reconciliation_report_def
    by (auto simp: err_bind_Inr Let_def yget_append_present yget_filter yget_yset split: if_splits)
  from r show "yget rep ''gate_decision'' = YStr (if ro_findings outcome = [] then ''pass'' else ''fail'')"
    by (rule lifecycle_report_fields) (use keep [of "''gate_decision''"] in \<open>simp add: level_def\<close>)
  from r show "yget rep ''observed_maturity'' = YStr (if ro_findings outcome = [] then level else ''incomplete'')"
    by (rule lifecycle_report_fields) (use keep [of "''observed_maturity''"] in \<open>simp add: level_def\<close>)
qed

text \<open>C19: the reconciliation is exact. It passes when, and only when, the JUnit file is readable and safe to
  parse, every recorded test names its selector, every planned selector was recorded exactly once with the outcome the
  stage demands (failed for red, passed for final), and the historical proof is in order. A passing red run shows the
  level red and a passing final run the level verified; any other shows incomplete.\<close>

theorem reconcile_gate_exact:
  assumes "reconcile_junit sha xml_parse report file ctx = Inr rep"
    and "plan_cases sha report = Inr (md, pd, plan, cases)"
  shows "(yget rep ''gate_decision'' = YStr ''pass'' \<longleftrightarrow>
      (\<exists>tree. readable_junit xml_parse file = Some tree \<and> list_all selects (xml_iter ''testcase'' tree)
        \<and> (\<forall>c \<in> set cases. outcomes_of (xml_iter ''testcase'' tree) (y_str (yget c ''node_id''))
             = [expected_outcome (rc_run_stage ctx)]))
      \<and> proof_basis_ok ctx md pd)
    \<and> yget rep ''observed_maturity'' = YStr (if yget rep ''gate_decision'' \<noteq> YStr ''pass'' then ''incomplete''
        else if rc_run_stage ctx = ''red'' then ''red'' else ''verified'')"
proof -
  obtain results jf jd where j: "junit_results sha xml_parse file = (results, jf, jd)" by (cases "junit_results sha xml_parse file")
  obtain pf pb where p: "proof_basis_for_context ctx md pd = (pf, pb)" by force
  let ?expected = "set (map (\<lambda>c. y_str (yget c ''node_id'')) cases)"
  let ?sf = "selector_result_findings ?expected results (rc_run_stage ctx)"
  from assms j p obtain outcome where o: "reconciliation_report sha ctx outcome = Inr rep"
    and f: "ro_findings outcome = jf @ ?sf @ pf"
    by (auto simp: reconcile_junit_def err_bind_def split: option.splits)
  note r = reconciliation_report_fields [OF o]
  have s: "?sf = [] \<longleftrightarrow> (\<forall>c \<in> set cases. dict_list results (y_str (yget c ''node_id'')) = [expected_outcome (rc_run_stage ctx)])"
    by (simp add: selector_findings_empty)
  have "ro_findings outcome = [] \<longleftrightarrow>
      (\<exists>tree. readable_junit xml_parse file = Some tree \<and> list_all selects (xml_iter ''testcase'' tree)
        \<and> (\<forall>c \<in> set cases. outcomes_of (xml_iter ''testcase'' tree) (y_str (yget c ''node_id''))
             = [expected_outcome (rc_run_stage ctx)]))
      \<and> proof_basis_ok ctx md pd"
    using junit_results_exact [OF j] proof_basis_empty [of ctx md pd] s unfolding f p by auto
  then show ?thesis using r by auto
qed

section \<open>Witnesses\<close>

definition demo_hash :: hash where
  "demo_hash s = replicate 64 (CHR ''0'')"

definition demo_node :: string where
  "demo_node = ''tests/test_a.py::test_one''"

definition demo_mapping :: ydict where
  "demo_mapping = ydict_of [(''schema_version'', YStr ''2''), (''requirements'', YMap (ydict_of [(''R1'', YMap (ydict_of
     [(''rationale'', YStr ''why''),
      (''touchpoints'', YList [YMap (ydict_of [(''id'', YStr ''t''), (''kind'', YStr ''cli''), (''locator'', YStr ''x'')])]),
      (''verification_cases'', YList [YMap (ydict_of
         [(''case_id'', YStr ''c''), (''scenario_id'', YStr ''R1''), (''method'', YStr ''test''), (''intent'', YStr ''i''),
          (''observable'', YStr ''o''),
          (''selector'', YMap (ydict_of [(''runner'', YStr ''pytest''), (''node_id'', YStr demo_node)]))])])]))]))]"

definition demo_review :: ydict where
  "demo_review = ydict_of [(''reviewer_id'', YStr ''r''), (''reviewer_role'', YStr ''lead''), (''recorded_at'', YStr ''now''),
     (''reference'', YStr ''ref''), (''decision'', YStr ''accepted''),
     (''mapping_digest'', YStr (''sha256:'' @ replicate 64 (CHR ''0'')))]"

definition demo_report :: ydict where
  "demo_report = (case evaluate_mapping demo_hash demo_mapping ''test-authored'' (Some demo_review) of Inr r \<Rightarrow> r | Inl e \<Rightarrow> [])"

definition demo_digest :: string where
  "demo_digest = ''sha256:'' @ replicate 64 (CHR ''0'')"

lemma Inr_of_not_isl: "x = Inr y \<Longrightarrow> x = Inr (case x of Inr r \<Rightarrow> r | Inl e \<Rightarrow> [])"
  by simp

lemma demo_complete: "mapping_complete demo_mapping ''test-authored''"
  by code_simp

lemma demo_hashed: "json_safe (YMap d) = Inr n \<Longrightarrow> canonical_digest demo_hash d = Inr demo_digest"
  by (simp add: canonical_digest_def demo_hash_def demo_digest_def)

definition demo_planned :: ydict where
  "demo_planned = attach_touchpoints
     (YList [YMap (ydict_of [(''id'', YStr ''t''), (''kind'', YStr ''cli''), (''locator'', YStr ''x'')])])
     (ydict_of ([(''requirement_id'', YStr ''R1''), (''case_id'', YStr ''c''), (''scenario_id'', YStr ''R1''),
        (''method'', YStr ''test''), (''intent'', YStr ''i''), (''observable'', YStr ''o'')] @ selector_entries demo_node))"

lemma demo_validated: "validated_cases demo_mapping ''test-authored'' = Inr ([demo_planned], [])"
  by code_simp

lemma demo_planned_hashed: "canonical_digest demo_hash demo_planned = Inr demo_digest"
proof -
  have "\<exists>n. json_safe (YMap demo_planned) = Inr n"
    by (simp add: demo_planned_def attach_touchpoints_def yset_def ydict_of_def selector_entries_def scalar_node_def)
  then show ?thesis using demo_hashed by blast
qed

lemma demo_built: "\<exists>plan. build_plan demo_hash md [demo_planned] = Inr plan"
  unfolding build_plan_Inr using demo_planned_hashed by simp

lemma demo_mapping_hashed: "canonical_digest demo_hash (mapping_payload demo_mapping) = Inr demo_digest"
proof -
  have "\<exists>n. json_safe (YMap (mapping_payload demo_mapping)) = Inr n"
    by (simp add: mapping_payload_def demo_mapping_def ydict_of_def yget_def scalar_node_def)
  then show ?thesis using demo_hashed by blast
qed

lemma demo_accepted: "valid_acceptance (Some demo_review) demo_digest = []"
  by code_simp

lemma demo_reported:
  "\<exists>rep. lifecycle_report demo_hash r ''test-authored'' md fs [demo_planned] = Inr rep"
  "\<exists>rep. lifecycle_report demo_hash r ''red'' md fs [demo_planned] = Inr rep"
  using demo_built [of md]
  by (auto simp: lifecycle_report_def err_bind_def lifecycle_status_def DELIVERY_STATUS_BY_MATURITY_def
      IMPLEMENTATION_EVIDENCE_BY_MATURITY_def Let_def)

lemma demo_evaluated:
  "lifecycle_report demo_hash ''test-authored'' ''test-authored'' demo_digest [] [demo_planned] = Inr demo_report"
  "evaluate_mapping demo_hash demo_mapping ''test-authored'' (Some demo_review) = Inr demo_report"
proof -
  have o: "observe_maturity ''test-authored'' (Some demo_review) demo_digest [] = (''test-authored'', [])"
    by (simp add: observe_maturity_def demo_accepted Let_def)
  have e: "evaluate_mapping demo_hash demo_mapping ''test-authored'' (Some demo_review)
      = lifecycle_report demo_hash ''test-authored'' ''test-authored'' demo_digest [] [demo_planned]"
    by (simp add: evaluate_mapping_def SUPPORTED_REQUIRED_MATURITY_def demo_mapping_hashed demo_validated err_bind_def o)
  from demo_reported(1) obtain rep
    where r: "lifecycle_report demo_hash ''test-authored'' ''test-authored'' demo_digest [] [demo_planned] = Inr rep" by blast
  show "evaluate_mapping demo_hash demo_mapping ''test-authored'' (Some demo_review) = Inr demo_report"
    using r unfolding demo_report_def e by (rule Inr_of_not_isl)
  then show "lifecycle_report demo_hash ''test-authored'' ''test-authored'' demo_digest [] [demo_planned] = Inr demo_report"
    unfolding e .
qed

lemma demo_plan:
  obtains plan where "yget demo_report ''plan'' = YMap plan" "yget demo_report ''gate_decision'' = YStr ''pass''"
    "ymaps (ylist (yget plan ''cases'')) = [demo_planned]" "yget demo_report ''mapping_digest'' = YStr demo_digest"
proof -
  from demo_evaluated(1) obtain plan where p: "build_plan demo_hash demo_digest [demo_planned] = Inr plan"
    "yget demo_report ''plan'' = YMap plan" "yget demo_report ''gate_decision'' = YStr ''pass''"
    "yget demo_report ''mapping_digest'' = YStr demo_digest"
    by (rule lifecycle_report_fields) simp
  from p(1) have "ymaps (ylist (yget plan ''cases'')) = [demo_planned]"
    by (rule build_plan_fields) (simp add: ordered_cases_Inr ylist_def)
  with p show thesis using that by blast
qed

lemma demo_method: "yget demo_planned ''method'' = YStr ''test''" "yget demo_planned ''node_id'' = YStr demo_node"
  by code_simp+

lemma demo_hash_hex: "hex_hash demo_hash"
proof -
  have "hex_of_length 64 (replicate 64 (CHR ''0''))" by code_simp
  then show ?thesis by (simp add: hex_hash_def demo_hash_def)
qed

theorem lifecycle_gate_exact_witness:
  "evaluate_mapping demo_hash demo_mapping ''test-authored'' (Some demo_review) = Inr demo_report
   \<and> yget demo_report ''gate_decision'' = YStr ''pass'' \<and> mapping_complete demo_mapping ''test-authored''
   \<and> yget demo_report ''observed_maturity'' = YStr ''test-authored''"
  using lifecycle_gate_exact [OF demo_evaluated(2)] demo_complete demo_mapping_hashed demo_accepted demo_evaluated
  unfolding valid_acceptance_empty by blast

theorem plan_handoff_witness:
  "\<exists>plan pd. yget demo_report ''plan'' = YMap plan
     \<and> plan_cases demo_hash demo_report = Inr (demo_digest, pd, plan, [demo_planned])"
proof -
  obtain plan where p: "yget demo_report ''plan'' = YMap plan" "yget demo_report ''gate_decision'' = YStr ''pass''"
    "ymaps (ylist (yget plan ''cases'')) = [demo_planned]" "yget demo_report ''mapping_digest'' = YStr demo_digest"
    by (rule demo_plan)
  have "\<exists>c \<in> set (ymaps (ylist (yget plan ''cases''))). yget c ''method'' = YStr ''test''" by (simp add: p demo_method)
  from plan_handoff [OF demo_evaluated(2) p(2) demo_hash_hex p(1) this] p show ?thesis
    by (simp add: demo_method y_str_def)
qed

definition demo_test :: "string \<Rightarrow> xml" where
  "demo_test outcome = XElem ''testsuite'' [] [XElem ''testcase'' [] [XElem ''properties'' []
     [XElem ''property'' [(''name'', ''specfact.selector''), (''value'', demo_node)] []], XElem outcome [] []]]"

definition demo_ctx :: ReconciliationContext where
  "demo_ctx = \<lparr>rc_run_stage = ''red'', rc_source_ref = replicate 40 (CHR ''a''), rc_prior_red_proof = None,
     rc_legacy_tdd_evidence = None\<rparr>"

theorem reconcile_gate_exact_witness:
  "\<exists>rep. reconcile_junit demo_hash (\<lambda>payload. Some (demo_test ''failure'')) demo_report (JunitBytes ''<x/>'') demo_ctx = Inr rep
     \<and> yget rep ''gate_decision'' = YStr ''pass'' \<and> yget rep ''observed_maturity'' = YStr ''red''"
proof -
  obtain plan where p: "yget demo_report ''plan'' = YMap plan" "yget demo_report ''gate_decision'' = YStr ''pass''"
    "ymaps (ylist (yget plan ''cases'')) = [demo_planned]" "yget demo_report ''mapping_digest'' = YStr demo_digest"
    by (rule demo_plan)
  have "\<exists>c \<in> set (ymaps (ylist (yget plan ''cases''))). yget c ''method'' = YStr ''test''" by (simp add: p demo_method)
  from passing_plan_accepted [OF demo_evaluated(2) p(2) demo_hash_hex p(1) this] p
  obtain pd where pc: "plan_cases demo_hash demo_report = Inr (demo_digest, pd, plan, [demo_planned])"
    by (simp add: demo_method y_str_def)
  let ?parse = "\<lambda>payload. Some (demo_test ''failure'')"
  have ctx: "validate_reconciliation_context demo_ctx = None" by code_simp
  have stage: "rc_run_stage demo_ctx = ''red''" by (simp add: demo_ctx_def)
  have j: "readable_junit ?parse (JunitBytes ''<x/>'') = Some (demo_test ''failure'')" by code_simp
  have t: "list_all selects (xml_iter ''testcase'' (demo_test ''failure''))"
    "outcomes_of (xml_iter ''testcase'' (demo_test ''failure'')) demo_node = [expected_outcome ''red'']" by code_simp+
  have b: "proof_basis_ok demo_ctx demo_digest pd" by (simp add: proof_basis_ok_def demo_ctx_def)
  obtain results jf jd where res: "junit_results demo_hash ?parse (JunitBytes ''<x/>'') = (results, jf, jd)"
    by (cases "junit_results demo_hash ?parse (JunitBytes ''<x/>'')")
  have jf: "jf = []" using junit_results_exact(1) [OF res] j t(1) by simp
  have sf: "selector_result_findings {demo_node} results ''red'' = []"
    using junit_results_exact(2) [OF res jf j] t(2) by (simp add: selector_findings_empty)
  have pf: "fst (proof_basis_for_context demo_ctx demo_digest pd) = []" using b proof_basis_empty by simp
  have "\<exists>rep. reconcile_junit demo_hash ?parse demo_report (JunitBytes ''<x/>'') demo_ctx = Inr rep"
    using demo_reported(2) [of "''red''" demo_digest "[]"] jf sf pf
    by (auto simp: reconcile_junit_def ctx pc err_bind_def res stage demo_method y_str_def case_prod_beta Let_def
        reconciliation_report_def)
  then obtain rep where r: "reconcile_junit demo_hash ?parse demo_report (JunitBytes ''<x/>'') demo_ctx = Inr rep" by blast
  from reconcile_gate_exact [OF r pc] have "yget rep ''gate_decision'' = YStr ''pass''"
    using j t b by (simp add: stage demo_method y_str_def)
  with r reconcile_gate_exact [OF r pc] show ?thesis by (auto simp: stage)
qed

end
