(* ===== verification/Requirement_Evidence.thy ===== *)
theory Requirement_Evidence
  imports Requirement_Gate
begin

text \<open>
  The evidence gate of the requirements bundle over several changed sources
  (\<^verbatim>\<open>requirements/evidence.py\<close>) and the pure helpers of \<^verbatim>\<open>requirements/runtime.py\<close>.

  Parameters of the model: what the core importer returns for a source (the requirement identifiers and its
  diagnostics), what the core validator and coverage inspection return, the decoded sidecar file, and whether a test
  target is a file of the repository. Git discovery, temporary directories and file writes are not modelled.
\<close>

section \<open>Merging imported requirements\<close>

text \<open>\<open>merge_requirement_inputs\<close>: a record is its identifier with its content.\<close>

definition merge_step :: "(string \<times> 'r) list \<times> string list \<Rightarrow> string \<times> 'r \<Rightarrow> (string \<times> 'r) list \<times> string list" where
  "merge_step acc r =
     (case acc of (by_id, order) \<Rightarrow>
        (AList.update (fst r) (snd r) by_id, if map_of by_id (fst r) = None then order @ [fst r] else order))"

definition merge_requirement_inputs :: "(string \<times> 'r) list \<Rightarrow> (string \<times> 'r) list \<Rightarrow> (string \<times> 'r) list" where
  "merge_requirement_inputs existing imported =
     (case foldl merge_step (dict_of existing, map fst existing) imported of
        (by_id, order) \<Rightarrow> map (\<lambda>i. (i, the (map_of by_id i))) order)"

section \<open>Profiles and records\<close>

definition replace_char :: "char \<Rightarrow> char \<Rightarrow> string \<Rightarrow> string" where
  "replace_char a b s = map (\<lambda>c. if c = a then b else c) s"

definition normalize_profile :: "string \<Rightarrow> string" where
  "normalize_profile p = replace_char (CHR ''-'') (CHR ''_'') p"

definition profile_aliases :: "string set \<Rightarrow> string set" where
  "profile_aliases profiles =
     profiles \<union> replace_char (CHR ''_'') (CHR ''-'') ` profiles \<union> replace_char (CHR ''-'') (CHR ''_'') ` profiles"

definition profile_supported :: "string set \<Rightarrow> string \<Rightarrow> bool" where
  "profile_supported known profile = (normalize_profile profile \<in> normalize_profile ` profile_aliases known)"

definition load_requirement_records :: "yval \<Rightarrow> py_error + yval list" where
  "load_requirement_records loaded =
     (case loaded of
        YNone \<Rightarrow> Inr []
      | YList xs \<Rightarrow> Inr xs
      | YMap d \<Rightarrow> (case yget d ''requirements'' of YList xs \<Rightarrow> Inr xs | _ \<Rightarrow> Inr [YMap d])
      | _ \<Rightarrow> Inl (ValueError ''requirements source must be a mapping, a list, or a mapping with a requirements list''))"

definition sole_source :: "string list \<Rightarrow> string \<Rightarrow> py_error + string" where
  "sole_source candidates layout =
     (case candidates of
        [c] \<Rightarrow> Inr c
      | [] \<Rightarrow> Inl (ValueError (''No import source found; expected '' @ layout @ ''.''))
      | _ \<Rightarrow> Inl (ValueError (''Multiple import sources found ('' @ py_join '', '' candidates
               @ ''); pass an explicit path instead of '' @ layout @ ''.'')))"

text \<open>\<open>requirements_gate_finding_counts\<close> on the violations of the core report.\<close>

definition count_code :: "(string \<times> int) list \<Rightarrow> ydict \<Rightarrow> (string \<times> int) list" where
  "count_code counts violation =
     (case yget violation ''code'' of
        YStr code \<Rightarrow> AList.update code ((case map_of counts code of None \<Rightarrow> 0 | Some n \<Rightarrow> n) + 1) counts
      | _ \<Rightarrow> counts)"

definition gate_finding_counts :: "ydict list \<Rightarrow> (string \<times> int) list" where
  "gate_finding_counts violations = foldl count_code [] violations"

section \<open>Reasons that fail a source\<close>

definition get_default :: "ydict \<Rightarrow> string \<Rightarrow> yval \<Rightarrow> yval" where
  "get_default d k v0 = (case map_of d (YStr k) of None \<Rightarrow> v0 | Some v \<Rightarrow> v)"

definition is_error :: "ydict \<Rightarrow> bool" where
  "is_error d = (yget d ''severity'' = YStr ''error'')"

definition diagnostic_code :: "ydict \<Rightarrow> string" where
  "diagnostic_code d = y_str (get_default d ''code'' (YStr ''unknown''))"

definition import_reasons :: "nat \<Rightarrow> ydict list \<Rightarrow> string list" where
  "import_reasons imported diagnostics =
     map (\<lambda>d. ''import-error:'' @ diagnostic_code d) (filter is_error diagnostics)
     @ (if imported = 0 then [''no-requirements-imported''] else [])"

definition validation_reasons :: "ydict option \<Rightarrow> string list" where
  "validation_reasons validation =
     (case validation of
        None \<Rightarrow> [] | Some v \<Rightarrow> if yget v ''status'' = YStr ''failed'' then [''validation-failed''] else [])"

text \<open>The two counts of the coverage model.\<close>

record coverage_counts =
  total_requirements :: int
  with_test_links :: int

definition coverage_reasons :: "coverage_counts option \<Rightarrow> string list" where
  "coverage_reasons coverage =
     (case coverage of
        None \<Rightarrow> []
      | Some c \<Rightarrow> if with_test_links c < total_requirements c
          then [''test-link-coverage-incomplete:'' @ show_int (with_test_links c) @ ''/'' @ show_int (total_requirements c)]
          else [])"

fun y_truthy :: "yval \<Rightarrow> bool" where
  "y_truthy YNone = False"
| "y_truthy (YBool b) = b"
| "y_truthy (YInt i) = (i \<noteq> 0)"
| "y_truthy (YFloat r h) = (r \<noteq> ''0.0'' \<and> r \<noteq> ''-0.0'')"
| "y_truthy (YStr s) = (s \<noteq> [])"
| "y_truthy (YList xs) = (xs \<noteq> [])"
| "y_truthy (YTuple xs) = (xs \<noteq> [])"
| "y_truthy (YSet xs) = (xs \<noteq> [])"
| "y_truthy (YMap d) = (d \<noteq> [])"
| "y_truthy v = True"

definition validation_error_codes :: "ydict option \<Rightarrow> string list" where
  "validation_error_codes validation =
     (case validation of
        None \<Rightarrow> []
      | Some v \<Rightarrow> map (\<lambda>d. y_str (yget d ''code''))
          (filter (\<lambda>d. is_error d \<and> y_truthy (yget d ''code'')) (ymaps (ylist (yget v ''violations'')))))"

definition error_gate_reasons :: "ydict option \<Rightarrow> (string \<times> int) list \<Rightarrow> string list" where
  "error_gate_reasons validation counts =
     map (\<lambda>(name, n). ''gate-finding:'' @ name @ ''='' @ show_int n)
       (filter (\<lambda>(name, n). 0 < n \<and> name \<in> set (validation_error_codes validation)) (sort_key fst counts))"

definition source_reasons ::
  "nat \<Rightarrow> ydict list \<Rightarrow> ydict option \<Rightarrow> coverage_counts option \<Rightarrow> (string \<times> int) list \<Rightarrow> string list" where
  "source_reasons imported diagnostics validation coverage counts =
     import_reasons imported diagnostics @ validation_reasons validation @ coverage_reasons coverage
     @ error_gate_reasons validation counts"

section \<open>The test-link sidecar\<close>

definition text_targets :: "yval list \<Rightarrow> string list option" where
  "text_targets vs =
     (if list_all (\<lambda>v. case v of YStr s \<Rightarrow> s \<noteq> [] | _ \<Rightarrow> False) vs then Some (map y_str vs) else None)"

text \<open>\<open>_valid_test_targets\<close>: the links that are files of the repository, and the reasons.\<close>

definition valid_test_targets :: "(string \<Rightarrow> bool) \<Rightarrow> yval \<Rightarrow> string list \<times> string list" where
  "valid_test_targets is_file test_links =
     (case test_links of
        YList (v # vs) \<Rightarrow>
          (case text_targets (v # vs) of
             Some targets \<Rightarrow>
               (let valid = filter is_file targets
                in (valid, map (\<lambda>t. ''evidence-sidecar-missing-test:'' @ t) (filter (\<lambda>t. t \<notin> set valid) targets)))
           | None \<Rightarrow> ([], [''invalid'']))
      | _ \<Rightarrow> ([], [''invalid'']))"

definition sidecar_entry ::
  "(string \<Rightarrow> bool) \<Rightarrow> string set \<Rightarrow> yval \<Rightarrow> yval \<Rightarrow> string option \<times> string list \<times> string list" where
  "sidecar_entry is_file imported_ids requirement_id entry =
     (case (requirement_id, entry) of
        (YStr rid, YMap d) \<Rightarrow>
          (let (links, reasons) = valid_test_targets is_file (yget d ''test_links'')
           in if reasons = [''invalid''] then (Some rid, [], [''evidence-sidecar-invalid-test-links:'' @ rid])
              else (Some rid, links, if rid \<in> imported_ids then reasons
                      else (''evidence-sidecar-unknown-requirement:'' @ rid) # reasons))
      | _ \<Rightarrow> (None, [], [''evidence-sidecar-invalid'']))"

definition sidecar_step ::
  "(string \<Rightarrow> bool) \<Rightarrow> string set \<Rightarrow> (string \<times> string list) list \<times> string list \<Rightarrow> yval \<times> yval
   \<Rightarrow> (string \<times> string list) list \<times> string list" where
  "sidecar_step is_file imported_ids acc e =
     (case (acc, sidecar_entry is_file imported_ids (fst e) (snd e)) of
        ((links_by, reasons), (key, links, entry_reasons)) \<Rightarrow>
          (case key of
             Some k \<Rightarrow> (if links \<noteq> [] then AList.update k links links_by else links_by, reasons @ entry_reasons)
           | None \<Rightarrow> (links_by, reasons @ entry_reasons)))"

text \<open>\<open>_load_evidence_sidecar\<close>: no file, a file without a requirements mapping, or its entries.\<close>

datatype sidecar_file = NoSidecar | InvalidSidecar | SidecarRequirements ydict

definition load_evidence_sidecar ::
  "(string \<Rightarrow> bool) \<Rightarrow> string set \<Rightarrow> sidecar_file \<Rightarrow> (string \<times> string list) list \<times> string list" where
  "load_evidence_sidecar is_file imported_ids file =
     (case file of
        NoSidecar \<Rightarrow> ([], [])
      | InvalidSidecar \<Rightarrow> ([], [''evidence-sidecar-invalid''])
      | SidecarRequirements d \<Rightarrow>
          foldl (sidecar_step is_file imported_ids) ([], []) (sort_key (\<lambda>(k, v). y_str k) d))"

text \<open>The records the overlay import receives; \<open>None\<close> when there is nothing to import.\<close>

definition overlay_record :: "(string \<times> string list) list \<Rightarrow> string \<times> ydict \<Rightarrow> ydict" where
  "overlay_record links_by r =
     (let links = dict_list links_by (fst r)
      in if links = [] then snd r
         else yset (snd r) ''evidence_links'' (YList (ylist (get_default (snd r) ''evidence_links'' (YList []))
                @ map (\<lambda>t. YMap (ydict_of [(''link_type'', YStr ''test''), (''target'', YStr t)])) links)))"

definition apply_evidence_sidecar ::
  "(string \<Rightarrow> bool) \<Rightarrow> sidecar_file \<Rightarrow> (string \<times> ydict) list \<Rightarrow> string list \<times> ydict list option" where
  "apply_evidence_sidecar is_file file imported =
     (let (links_by, reasons) = load_evidence_sidecar is_file (fst ` set imported) file
      in if reasons \<noteq> [] \<or> links_by = [] then (reasons, None)
         else ([], Some (map (overlay_record links_by) imported)))"

section \<open>Sources without a maturity level\<close>

text \<open>What the core tools return for one source.\<close>

record source_input =
  in_label :: string
  in_mapping :: ydict
  in_sidecar :: sidecar_file
  in_diagnostics :: "ydict list"
  in_requirements :: "(string \<times> ydict) list"
  in_validation :: "ydict list option \<Rightarrow> ydict"
  in_coverage :: "ydict list option \<Rightarrow> coverage_counts"
  in_violations :: "ydict list option \<Rightarrow> ydict list"

text \<open>\<open>_evaluate_imported_source\<close>: validation and coverage run only after a clean import and sidecar.\<close>

definition evaluate_imported_source ::
  "(string \<Rightarrow> bool) \<Rightarrow> source_input
   \<Rightarrow> ydict option \<times> coverage_counts option \<times> (string \<times> int) list \<times> string list" where
  "evaluate_imported_source is_file src =
     (if list_ex is_error (in_diagnostics src) \<or> in_requirements src = [] then (None, None, [], [])
      else (case apply_evidence_sidecar is_file (in_sidecar src) (in_requirements src) of
              (r # rs, overlay) \<Rightarrow> (None, None, [], r # rs)
            | ([], overlay) \<Rightarrow> (Some (in_validation src overlay), Some (in_coverage src overlay),
                gate_finding_counts (in_violations src overlay), [])))"

definition report_reasons :: "(string \<Rightarrow> bool) \<Rightarrow> source_input \<Rightarrow> string list" where
  "report_reasons is_file src =
     (case evaluate_imported_source is_file src of
        (validation, coverage, counts, sidecar_reasons) \<Rightarrow>
          sidecar_reasons
          @ source_reasons (length (in_requirements src)) (in_diagnostics src) validation coverage counts)"

text \<open>The verdict and the summary of \<open>_evaluate_sources\<close>: total, passed, failed and skipped sources.\<close>

record evidence_summary =
  es_verdict :: string
  es_failed :: nat
  es_passed :: nat
  es_skipped :: nat
  es_total :: nat

definition skipped_summary :: evidence_summary where
  "skipped_summary = \<lparr>es_verdict = ''skipped'', es_failed = 0, es_passed = 0, es_skipped = 1, es_total = 0\<rparr>"

definition summary_of :: "bool list \<Rightarrow> evidence_summary" where
  "summary_of failed =
     (let n = length (filter (\<lambda>b. b) failed)
      in \<lparr>es_verdict = (if n \<noteq> 0 then ''failed'' else ''passed''), es_failed = n, es_passed = length failed - n,
          es_skipped = 0, es_total = length failed\<rparr>)"

definition evaluate_sources :: "(string \<Rightarrow> bool) \<Rightarrow> source_input list \<Rightarrow> evidence_summary" where
  "evaluate_sources is_file srcs =
     (if srcs = [] then skipped_summary else summary_of (map (\<lambda>src. report_reasons is_file src \<noteq> []) srcs))"

text \<open>The exit code of the gate.\<close>

definition evidence_exit_code :: "string \<Rightarrow> int" where
  "evidence_exit_code verdict = (if verdict = ''failed'' then 1 else 0)"

section \<open>Sources at a maturity level\<close>

definition source_requirement_ids :: "source_input \<Rightarrow> string set \<times> string list" where
  "source_requirement_ids src =
     (let findings = map (\<lambda>d. ''source-import-error:'' @ diagnostic_code d) (filter is_error (in_diagnostics src));
          ids = fst ` set (in_requirements src)
      in (ids, if findings = [] \<and> in_requirements src = [] then [''source-no-requirements-imported''] else findings))"

definition last_segment :: "string \<Rightarrow> string" where
  "last_segment s = rev (takeWhile (\<lambda>c. c \<noteq> CHR '':'') (rev s))"

definition mapped_scenario_ids :: "yval \<Rightarrow> string list" where
  "mapped_scenario_ids requirement =
     (case requirement of
        YMap r \<Rightarrow> map (\<lambda>c. py_strip (y_str (yget c ''scenario_id'')))
          (filter (\<lambda>c. is_text (yget c ''scenario_id'')) (ymaps (ylist (yget r ''verification_cases''))))
      | _ \<Rightarrow> [])"

fun str_keys :: "ydict \<Rightarrow> string list" where
  "str_keys [] = []"
| "str_keys ((YStr k, v) # d) = k # str_keys d"
| "str_keys ((k, v) # d) = str_keys d"

definition source_mapping_findings :: "ydict \<Rightarrow> source_input \<Rightarrow> string list" where
  "source_mapping_findings mapping src =
     (case yget mapping ''requirements'' of
        YMap requirements \<Rightarrow>
          (let (source_ids, findings) = source_requirement_ids src; mapped_ids = set (str_keys requirements)
           in findings
              @ map (\<lambda>r. ''missing-source-requirement-mapping:'' @ r) (sorted_list_of_set (source_ids - mapped_ids))
              @ map (\<lambda>r. ''unknown-source-requirement:'' @ r) (sorted_list_of_set (mapped_ids - source_ids))
              @ concat (map (\<lambda>r. map (\<lambda>s. ''unknown-source-scenario:'' @ r @ '':'' @ s)
                    (filter (\<lambda>s. s \<noteq> last_segment r) (mapped_scenario_ids (yget requirements r))))
                  (sorted_list_of_set (source_ids \<inter> mapped_ids))))
      | _ \<Rightarrow> [])"

definition failed_lifecycle_source_report :: "ydict \<Rightarrow> string list \<Rightarrow> py_error + ydict" where
  "failed_lifecycle_source_report report findings =
     err_bind (lifecycle_status ''incomplete'') (\<lambda>(delivery, evidence).
       Inr (dict_merge report (ydict_of
         [(''verdict'', YStr ''failed''), (''gate_decision'', YStr ''fail''), (''observed_maturity'', YStr ''incomplete''),
          (''delivery_status'', YStr delivery), (''implementation_evidence'', YStr evidence),
          (''findings'', texts (sorted_list_of_set (set (map y_str (ylist (yget report ''findings''))) \<union> set findings)))])))"

definition lifecycle_source :: "hash \<Rightarrow> string \<Rightarrow> ydict option \<Rightarrow> source_input \<Rightarrow> py_error + ydict" where
  "lifecycle_source sha required review src =
     err_bind (evaluate_mapping sha (in_mapping src) required review) (\<lambda>lifecycle.
       (let findings = source_mapping_findings (in_mapping src) src
        in map_sum id (\<lambda>r. dict_merge (ydict_of [(''source'', YStr (in_label src))]) r)
             (if findings = [] then Inr lifecycle else failed_lifecycle_source_report lifecycle findings)))"

definition summary_dict :: "evidence_summary \<Rightarrow> yval" where
  "summary_dict s = YMap (ydict_of [(''failed_sources'', YInt (int (es_failed s))), (''passed_sources'', YInt (int (es_passed s))),
     (''skipped_sources'', YInt (int (es_skipped s))), (''total_sources'', YInt (int (es_total s)))])"

definition no_impact_report :: "string \<Rightarrow> ydict" where
  "no_impact_report required = ydict_of
     [(''schema_version'', YStr ''2''), (''verdict'', YStr ''skipped''), (''execution_proof'', YStr ''not-included''),
      (''sources'', YList []), (''summary'', summary_dict skipped_summary), (''gate_decision'', YStr ''pass''),
      (''required_maturity'', YStr required), (''observed_maturity'', YStr ''no-impact''),
      (''delivery_status'', YStr ''no-impact''), (''implementation_evidence'', YStr ''not-applicable'')]"

definition lowest_maturity :: "ydict list \<Rightarrow> string" where
  "lowest_maturity sources = arg_min_list maturity_rank (map (\<lambda>s. y_str (yget s ''observed_maturity'')) sources)"

definition sources_report :: "hash \<Rightarrow> string \<Rightarrow> ydict option \<Rightarrow> source_input list \<Rightarrow> py_error + ydict" where
  "sources_report sha required review srcs =
     (if srcs = [] then Inr (no_impact_report required)
      else err_bind (err_map (lifecycle_source sha required review) srcs) (\<lambda>sources.
        (let summary = summary_of (map (\<lambda>s. yget s ''gate_decision'' = YStr ''fail'') sources);
             observed = lowest_maturity sources
         in err_bind (lifecycle_status observed) (\<lambda>(delivery, evidence).
              Inr (ydict_of
                [(''schema_version'', YStr ''2''), (''verdict'', YStr (es_verdict summary)),
                 (''gate_decision'', YStr (if es_failed summary \<noteq> 0 then ''fail'' else ''pass'')),
                 (''required_maturity'', YStr required), (''observed_maturity'', YStr observed),
                 (''delivery_status'', YStr delivery), (''implementation_evidence'', YStr evidence),
                 (''sources'', YList (map YMap sources)), (''summary'', summary_dict summary)])))))"

section \<open>The plan artifact of several sources\<close>

definition normalized_source_plan :: "yval \<Rightarrow> (ydict \<times> ydict list) option" where
  "normalized_source_plan v =
     (case v of
        YMap source \<Rightarrow>
          (case yget source ''plan'' of
             YMap plan \<Rightarrow>
               (case (yget plan ''cases'', yget plan ''mapping_digest'') of
                  (YList listed, YStr md) \<Rightarrow>
                    (let name = y_str (get_default source ''source'' (YStr []));
                         cases = map (dict_merge (ydict_of [(''source'', YStr name)])) (ymaps listed)
                     in if length cases \<noteq> length listed then None
                        else Some (ydict_of [(''source'', YStr name), (''mapping_digest'', YStr md)], cases))
                | _ \<Rightarrow> None)
           | _ \<Rightarrow> None)
      | _ \<Rightarrow> None)"

definition normalized_plan_inputs :: "yval list \<Rightarrow> (ydict list \<times> ydict list) option" where
  "normalized_plan_inputs sources =
     (let normalized = map normalized_source_plan sources
      in if None \<in> set normalized then None
         else (let plans = map (fst \<circ> the) normalized; cases = concat (map (snd \<circ> the) normalized)
               in if plans = [] \<or> cases = [] then None else Some (plans, cases)))"

definition source_order :: "yval \<Rightarrow> string" where
  "source_order v = (case v of YMap s \<Rightarrow> y_str (yget s ''source'') | _ \<Rightarrow> [])"

text \<open>\<open>_normalized_plan_report\<close>; \<open>Inr None\<close> when no plan is available.\<close>

definition normalized_plan_report :: "hash \<Rightarrow> ydict \<Rightarrow> py_error + ydict option" where
  "normalized_plan_report sha report =
     (case yget report ''sources'' of
        YList listed \<Rightarrow>
          (if yget report ''gate_decision'' \<noteq> YStr ''pass'' then Inr None
           else (case normalized_plan_inputs (sort_key source_order listed) of
                   None \<Rightarrow> Inr None
                 | Some (plans, cases) \<Rightarrow>
                     err_bind (canonical_digest sha (ydict_of [(''sources'', YList (map YMap plans))])) (\<lambda>md.
                     err_bind (build_plan sha md cases) (\<lambda>plan.
                     err_bind (canonical_digest sha
                         (ydict_of [(''sources'', YList (map YMap plans)), (''cases'', YList (map YMap cases))])) (\<lambda>ident.
                       Inr (Some (ydict_of
                         [(''schema_version'', YStr ''2''), (''verdict'', yget report ''verdict''),
                          (''gate_decision'', yget report ''gate_decision''),
                          (''required_maturity'', yget report ''required_maturity''),
                          (''observed_maturity'', yget report ''observed_maturity''), (''mapping_digest'', YStr md),
                          (''plan'', YMap plan), (''sources'', YList (map YMap plans)),
                          (''plan_identity_digest'', YStr ident)])))))))
      | _ \<Rightarrow> Inr None)"

definition unavailable_source :: "ydict \<Rightarrow> yval" where
  "unavailable_source source = YMap (ydict_of
     ([(''source'', YStr (y_str (get_default source ''source'' (YStr []))))]
      @ (case yget source ''mapping_digest'' of YStr md \<Rightarrow> [(''mapping_digest'', YStr md)] | _ \<Rightarrow> [])
      @ (case yget source ''findings'' of YList fs \<Rightarrow> [(''findings'', YList fs)] | _ \<Rightarrow> [])))"

definition unavailable_plan_report :: "ydict \<Rightarrow> ydict" where
  "unavailable_plan_report report = ydict_of
     [(''schema_version'', YStr ''2''), (''gate_decision'', get_default report ''gate_decision'' (YStr ''fail'')),
      (''plan_status'', YStr ''not-available''), (''plan'', YNone),
      (''sources'', YList (map unavailable_source (ymaps (ylist (yget report ''sources'')))))]"

section \<open>The gate over several sources\<close>

lemma merge_lookup:
  "distinct (map fst b) \<Longrightarrow> map_of (dict_merge a b) k = (case map_of b k of None \<Rightarrow> map_of a k | Some v \<Rightarrow> Some v)"
proof (induction b arbitrary: a)
  case (Cons p b)
  obtain j v where p: "p = (j, v)" by (cases p)
  have "dict_merge a (p # b) = dict_merge (AList.update j v a) b" by (simp add: dict_merge_def p)
  moreover from Cons.prems have "map_of b j = None" by (simp add: p map_of_eq_None_iff)
  ultimately show ?case
    using Cons.IH [of "AList.update j v a"] Cons.prems by (auto simp: p update_conv' split: option.splits)
qed (simp add: dict_merge_def)

lemma yget_merge:
  "distinct (map fst b) \<Longrightarrow> yget (dict_merge a b) k = (if map_of b (YStr k) = None then yget a k else yget b k)"
  by (auto simp: yget_def merge_lookup split: option.splits)

lemma ydict_of_distinct [simp]: "distinct (map fst (ydict_of ps)) \<longleftrightarrow> distinct (map fst ps)"
proof -
  have "map fst (ydict_of ps) = map YStr (map fst ps)" by (induction ps) (auto simp: ydict_of_def)
  then show ?thesis by (simp add: distinct_map inj_on_def)
qed

lemma lifecycle_report_distinct:
  "lifecycle_report sha required observed md findings cases = Inr rep \<Longrightarrow> distinct (map fst rep)"
  by (auto simp: lifecycle_report_def err_bind_Inr ydict_of_def Let_def)

lemma evaluate_mapping_distinct:
  assumes "evaluate_mapping sha mapping required review = Inr rep"
  shows "distinct (map fst rep)"
  using assms by (cases rule: evaluate_mapping_cases) (auto dest: lifecycle_report_distinct)

lemma evaluate_mapping_observed:
  assumes "evaluate_mapping sha mapping required review = Inr rep"
  obtains g obs where "yget rep ''gate_decision'' = YStr g" "g \<in> {''pass'', ''fail''}" "yget rep ''observed_maturity'' = YStr obs"
  using assms by (cases rule: evaluate_mapping_cases) (auto elim!: lifecycle_report_fields split: if_splits)

lemma merge_distinct: "distinct (map fst a) \<Longrightarrow> distinct (map fst (dict_merge a b))"
  unfolding dict_merge_def by (induction b arbitrary: a) (auto simp: distinct_update)

lemma lifecycle_source_fields:
  assumes "lifecycle_source sha required review src = Inr s"
  obtains rep where "evaluate_mapping sha (in_mapping src) required review = Inr rep"
    "yget s ''gate_decision'' = (if source_mapping_findings (in_mapping src) src = [] then yget rep ''gate_decision'' else YStr ''fail'')"
    "yget s ''observed_maturity'' = (if source_mapping_findings (in_mapping src) src = [] then yget rep ''observed_maturity''
       else YStr ''incomplete'')"
proof -
  from assms obtain rep r where e: "evaluate_mapping sha (in_mapping src) required review = Inr rep"
    and r: "(if source_mapping_findings (in_mapping src) src = [] then Inr rep
       else failed_lifecycle_source_report rep (source_mapping_findings (in_mapping src) src)) = Inr r"
    and s: "s = dict_merge (ydict_of [(''source'', YStr (in_label src))]) r"
    by (auto simp: lifecycle_source_def err_bind_Inr map_sum_Inr_iff Let_def)
  note d = evaluate_mapping_distinct [OF e]
  obtain g obs where go: "yget rep ''gate_decision'' = YStr g" "yget rep ''observed_maturity'' = YStr obs"
    using e by (rule evaluate_mapping_observed)
  have r_ok: "distinct (map fst r) \<and>
    yget r ''gate_decision'' = (if source_mapping_findings (in_mapping src) src = [] then yget rep ''gate_decision'' else YStr ''fail'') \<and>
    yget r ''observed_maturity'' = (if source_mapping_findings (in_mapping src) src = [] then yget rep ''observed_maturity'' else YStr ''incomplete'')"
  proof (cases "source_mapping_findings (in_mapping src) src = []")
    case True
    with r d show ?thesis by simp
  next
    case False
    with r obtain x y z where "r = dict_merge rep (ydict_of
         [(''verdict'', YStr ''failed''), (''gate_decision'', YStr ''fail''), (''observed_maturity'', YStr ''incomplete''),
          (''delivery_status'', x), (''implementation_evidence'', y), (''findings'', z)])"
      by (auto simp: failed_lifecycle_source_report_def err_bind_Inr)
    with False d show ?thesis by (simp add: merge_distinct yget_merge map_of_ydict_of)
  qed
  have keep: "yget s j = yget r j" if "yget r j \<noteq> YNone" for j
  proof -
    from that have "map_of r (YStr j) \<noteq> None" unfolding yget_def by (auto split: option.splits)
    with yget_merge [OF r_ok [THEN conjunct1], of "ydict_of [(''source'', YStr (in_label src))]" j]
    show ?thesis unfolding s by argo
  qed
  show thesis
    by (rule that [OF e]) (use keep r_ok go in \<open>auto split: if_splits\<close>)
qed

text \<open>The sidecar maps exactly the requirements the importer found in the source, scenario by scenario.\<close>

definition source_covered :: "source_input \<Rightarrow> bool" where
  "source_covered src =
     (case yget (in_mapping src) ''requirements'' of
        YMap rs \<Rightarrow> list_all (\<lambda>d. \<not> is_error d) (in_diagnostics src) \<and> in_requirements src \<noteq> []
          \<and> set (str_keys rs) = fst ` set (in_requirements src)
          \<and> (\<forall>r \<in> set (str_keys rs). \<forall>s \<in> set (mapped_scenario_ids (yget rs r)). s = last_segment r)
      | _ \<Rightarrow> True)"

lemma source_mapping_empty: "source_mapping_findings (in_mapping src) src = [] \<longleftrightarrow> source_covered src"
proof (cases "yget (in_mapping src) ''requirements''")
  case (YMap rs)
  obtain ids fs where i: "source_requirement_ids src = (ids, fs)" by force
  then have ids: "ids = fst ` set (in_requirements src)"
    and fs: "fs = [] \<longleftrightarrow> list_all (\<lambda>d. \<not> is_error d) (in_diagnostics src) \<and> in_requirements src \<noteq> []"
    by (auto simp: source_requirement_ids_def Let_def filter_empty_conv list_all_iff split: if_splits)
  have fin: "finite ids" by (simp add: ids)
  have "source_mapping_findings (in_mapping src) src = [] \<longleftrightarrow>
      fs = [] \<and> ids - set (str_keys rs) = {} \<and> set (str_keys rs) - ids = {}
      \<and> (\<forall>r \<in> ids \<inter> set (str_keys rs). \<forall>s \<in> set (mapped_scenario_ids (yget rs r)). s = last_segment r)"
    using fin by (auto simp: source_mapping_findings_def YMap i Let_def filter_empty_conv)
  also have "\<dots> \<longleftrightarrow> source_covered src"
    unfolding source_covered_def YMap using fs ids by auto
  finally show ?thesis .
qed (auto simp: source_mapping_findings_def source_covered_def)

definition source_passes :: "hash \<Rightarrow> string \<Rightarrow> ydict option \<Rightarrow> source_input \<Rightarrow> bool" where
  "source_passes sha required review src =
     (required \<in> {''planned'', ''accepted'', ''test-authored''} \<and> mapping_complete (in_mapping src) required
      \<and> (\<exists>d. canonical_digest sha (mapping_payload (in_mapping src)) = Inr d
           \<and> (required \<noteq> ''planned'' \<longrightarrow> (\<exists>r. review = Some r \<and> accepted_review r d)))
      \<and> source_covered src)"

lemma lifecycle_source_gate:
  assumes "lifecycle_source sha required review src = Inr s"
  shows "yget s ''gate_decision'' = YStr ''fail'' \<longleftrightarrow> \<not> source_passes sha required review src"
    and "source_passes sha required review src \<Longrightarrow> yget s ''observed_maturity'' = YStr required"
proof -
  obtain rep where e: "evaluate_mapping sha (in_mapping src) required review = Inr rep"
    and g: "yget s ''gate_decision'' = (if source_covered src then yget rep ''gate_decision'' else YStr ''fail'')"
    and obs: "yget s ''observed_maturity'' = (if source_covered src then yget rep ''observed_maturity'' else YStr ''incomplete'')"
    using assms by (rule lifecycle_source_fields) (simp add: source_mapping_empty)
  note gate = evaluate_mapping_gate [OF e]
  obtain x where "yget rep ''gate_decision'' = YStr x" "x \<in> {''pass'', ''fail''}"
    using e by (rule evaluate_mapping_observed)
  then show "yget s ''gate_decision'' = YStr ''fail'' \<longleftrightarrow> \<not> source_passes sha required review src"
    using gate [THEN conjunct1] unfolding g source_passes_def by (cases "source_covered src") auto
  show "yget s ''observed_maturity'' = YStr required" if "source_passes sha required review src"
    using gate that unfolding obs source_passes_def by simp
qed

lemma arg_min_list_mem: "xs \<noteq> [] \<Longrightarrow> arg_min_list f xs \<in> set xs"
  by (induction f xs rule: arg_min_list.induct) (auto simp: Let_def)

lemma arg_min_list_le: "x \<in> set xs \<Longrightarrow> (f (arg_min_list f xs) :: int) \<le> f x"
  using f_arg_min_list_f [of xs f] by fastforce

lemma summary_of_verdict: "es_verdict (summary_of bs) = (if True \<in> set bs then ''failed'' else ''passed'')"
  "0 < es_failed (summary_of bs) \<longleftrightarrow> True \<in> set bs" "es_failed (summary_of bs) = 0 \<longleftrightarrow> True \<notin> set bs"
  by (auto simp: summary_of_def Let_def filter_empty_conv)

text \<open>C21: the evidence gate over the changed sources at a maturity level is exact. A run that reports sources passes,
  and exits with code 0, exactly when every source has a complete mapping for the level, accepted for its own digest
  above planned, that covers exactly the requirements the importer finds in the source; and it then shows the required
  level. The level shown by a failing run is no higher than the level of any source.\<close>

theorem sources_gate_exact:
  assumes rep: "sources_report sha required review srcs = Inr rep" and "srcs \<noteq> []"
    and each: "err_map (lifecycle_source sha required review) srcs = Inr sources"
  shows "(yget rep ''gate_decision'' = YStr ''pass'' \<longleftrightarrow> (\<forall>src \<in> set srcs. source_passes sha required review src))
    \<and> (evidence_exit_code (y_str (yget rep ''verdict'')) = 0 \<longleftrightarrow> yget rep ''gate_decision'' = YStr ''pass'')
    \<and> (yget rep ''gate_decision'' = YStr ''pass'' \<longrightarrow> yget rep ''observed_maturity'' = YStr required)
    \<and> (\<forall>s \<in> set sources. maturity_rank (y_str (yget rep ''observed_maturity'')) \<le> maturity_rank (y_str (yget s ''observed_maturity'')))"
proof -
  have l: "list_all2 (\<lambda>src s. lifecycle_source sha required review src = Inr s) srcs sources"
    using each by (simp add: err_map_Inr)
  have fail: "True \<in> set (map (\<lambda>s. yget s ''gate_decision'' = YStr ''fail'') sources) \<longleftrightarrow>
      \<not> (\<forall>src \<in> set srcs. source_passes sha required review src)"
    using l by (induction rule: list_all2_induct) (auto simp: lifecycle_source_gate)
  have level: "\<forall>s \<in> set sources. yget s ''observed_maturity'' = YStr required"
    if "\<forall>src \<in> set srcs. source_passes sha required review src"
    using l that by (induction rule: list_all2_induct) (auto simp: lifecycle_source_gate)
  have ne: "sources \<noteq> []" using l assms(2) by auto
  have r: "yget rep ''gate_decision'' = YStr (if \<forall>src \<in> set srcs. source_passes sha required review src then ''pass'' else ''fail'')"
    "yget rep ''verdict'' = YStr (if \<forall>src \<in> set srcs. source_passes sha required review src then ''passed'' else ''failed'')"
    "yget rep ''observed_maturity'' = YStr (lowest_maturity sources)"
    using rep assms(2) fail by (auto simp: sources_report_def each err_bind_Inr summary_of_verdict Let_def)
  have "lowest_maturity sources \<in> (\<lambda>s. y_str (yget s ''observed_maturity'')) ` set sources"
    using arg_min_list_mem [of "map (\<lambda>s. y_str (yget s ''observed_maturity'')) sources" maturity_rank] ne
    by (simp add: lowest_maturity_def)
  then have "lowest_maturity sources = required" if "\<forall>src \<in> set srcs. source_passes sha required review src"
    using level [OF that] by (auto simp: y_str_def)
  moreover have "\<forall>s \<in> set sources. maturity_rank (lowest_maturity sources) \<le> maturity_rank (y_str (yget s ''observed_maturity''))"
    unfolding lowest_maturity_def by (auto intro!: arg_min_list_le)
  ultimately show ?thesis by (auto simp: r y_str_def evidence_exit_code_def)
qed

section \<open>Merging\<close>

text \<open>The distinct elements in the order of their first occurrence.\<close>

definition first_seen :: "'a list \<Rightarrow> 'a list" where
  "first_seen xs = rev (remdups (rev xs))"

lemma first_seen_snoc: "first_seen (xs @ [x]) = first_seen xs @ (if x \<in> set xs then [] else [x])"
  by (simp add: first_seen_def)

lemma set_first_seen [simp]: "set (first_seen xs) = set xs"
  by (simp add: first_seen_def)

lemma merge_keys: "fst ` set (dict_merge a b) = fst ` set a \<union> fst ` set b"
  by (induction b arbitrary: a) (simp_all add: dict_merge_def dom_update case_prod_beta)

lemma merge_fold:
  assumes keys: "fst ` set by_id = set order"
  shows "foldl merge_step (by_id, order) imported =
      (dict_merge by_id imported, order @ filter (\<lambda>i. i \<notin> set order) (first_seen (map fst imported)))"
proof (induction imported rule: rev_induct)
  case Nil
  then show ?case by (simp add: dict_merge_def first_seen_def)
next
  case (snoc r imported)
  have "fst ` set (dict_merge by_id imported) = set order \<union> fst ` set imported"
    by (simp add: merge_keys keys)
  then have "map_of (dict_merge by_id imported) (fst r) = None \<longleftrightarrow> fst r \<notin> set order \<and> fst r \<notin> fst ` set imported"
    by (simp add: map_of_eq_None_iff)
  then show ?case
    using snoc.IH by (auto simp: merge_step_def dict_merge_def first_seen_snoc case_prod_beta)
qed

lemma merge_lookup_last:
  "map_of (dict_merge a b) k = (case map_of (rev b) k of None \<Rightarrow> map_of a k | Some v \<Rightarrow> Some v)"
proof (induction b rule: rev_induct)
  case (snoc p b)
  then show ?case by (cases p) (auto simp: dict_merge_def update_conv')
qed (simp add: dict_merge_def)

text \<open>merging imported requirements keeps the existing order and takes the imported content. The identifiers
  of the result are the existing ones in their order followed by the new ones in the order of their first import, and
  the record of an identifier is the last one imported for it, or else the last existing one.\<close>

theorem merge_requirement_inputs_exact:
  fixes existing imported :: "(string \<times> 'r) list"
  shows "map fst (merge_requirement_inputs existing imported) =
      map fst existing @ filter (\<lambda>i. i \<notin> fst ` set existing) (first_seen (map fst imported))
    \<and> (\<forall>(i, r) \<in> set (merge_requirement_inputs existing imported).
        (case map_of (rev imported) i of Some x \<Rightarrow> Some x | None \<Rightarrow> map_of (rev existing) i) = Some r)"
proof -
  have keys: "fst ` set (dict_of existing) = set (map fst existing)"
    by (simp add: dict_of_def merge_keys)
  let ?order = "map fst existing @ filter (\<lambda>i. i \<notin> fst ` set existing) (first_seen (map fst imported))"
  have m: "merge_requirement_inputs existing imported =
      map (\<lambda>i. (i, the (map_of (dict_merge (dict_of existing) imported) i))) ?order"
    using merge_fold [OF keys, of imported] by (simp add: merge_requirement_inputs_def image_image)
  have look: "map_of (dict_merge (dict_of existing) imported) i
      = (case map_of (rev imported) i of Some x \<Rightarrow> Some x | None \<Rightarrow> map_of (rev existing) i)" for i
    by (simp add: merge_lookup_last dict_of_def split: option.splits)
  have "map_of (dict_merge (dict_of existing) imported) i \<noteq> None" if "i \<in> set ?order" for i
    using that unfolding map_of_eq_None_iff merge_keys keys by auto
  then have d: "map_of (dict_merge (dict_of existing) imported) i
      = Some (the (map_of (dict_merge (dict_of existing) imported) i))" if "i \<in> set ?order" for i
    using that by simp
  show ?thesis unfolding look [symmetric]
  proof (intro conjI ballI)
    show "map fst (merge_requirement_inputs existing imported) = ?order" unfolding m by (simp add: comp_def)
    fix p
    assume "p \<in> set (merge_requirement_inputs existing imported)"
    then obtain i where "i \<in> set ?order" "p = (i, the (map_of (dict_merge (dict_of existing) imported) i))"
      unfolding m set_map by blast
    with d show "case p of (i, r) \<Rightarrow> map_of (dict_merge (dict_of existing) imported) i = Some r" by simp
  qed
qed

section \<open>Witnesses\<close>

definition demo_source :: source_input where
  "demo_source = \<lparr>in_label = ''openspec/changes/a'', in_mapping = demo_mapping, in_sidecar = NoSidecar, in_diagnostics = [],
     in_requirements = [(''R1'', [])], in_validation = (\<lambda>ov. []), in_coverage = (\<lambda>ov. \<lparr>total_requirements = 1, with_test_links = 1\<rparr>),
     in_violations = (\<lambda>ov. [])\<rparr>"

lemma demo_source_covered: "source_covered demo_source"
  by code_simp

lemma demo_source_passes: "source_passes demo_hash ''test-authored'' (Some demo_review) demo_source"
proof -
  have "in_mapping demo_source = demo_mapping" by (simp add: demo_source_def)
  then show ?thesis
    using demo_complete demo_mapping_hashed demo_accepted demo_source_covered
    unfolding source_passes_def valid_acceptance_empty by simp
qed

theorem sources_gate_exact_witness:
  "\<exists>rep. sources_report demo_hash ''test-authored'' (Some demo_review) [demo_source] = Inr rep
     \<and> yget rep ''gate_decision'' = YStr ''pass'' \<and> yget rep ''observed_maturity'' = YStr ''test-authored''
     \<and> evidence_exit_code (y_str (yget rep ''verdict'')) = 0"
proof -
  have m: "in_mapping demo_source = demo_mapping" by (simp add: demo_source_def)
  have "source_mapping_findings demo_mapping demo_source = []"
    using demo_source_covered source_mapping_empty [of demo_source] by (simp add: m)
  then obtain s where s: "lifecycle_source demo_hash ''test-authored'' (Some demo_review) demo_source = Inr s"
    by (simp add: lifecycle_source_def m demo_evaluated err_bind_def)
  have each: "err_map (lifecycle_source demo_hash ''test-authored'' (Some demo_review)) [demo_source] = Inr [s]"
    by (simp add: s err_bind_def)
  have "yget s ''observed_maturity'' = YStr ''test-authored''"
    using lifecycle_source_gate(2) [OF s demo_source_passes] .
  then have "lifecycle_status (lowest_maturity [s]) = Inr (''test-design'', ''tests-not-executed'')"
    by (simp add: lowest_maturity_def y_str_def lifecycle_status_def DELIVERY_STATUS_BY_MATURITY_def
        IMPLEMENTATION_EVIDENCE_BY_MATURITY_def)
  then obtain rep where r: "sources_report demo_hash ''test-authored'' (Some demo_review) [demo_source] = Inr rep"
    by (simp add: sources_report_def each err_bind_def Let_def del: err_map.simps)
  from sources_gate_exact [OF r _ each] demo_source_passes
  have "yget rep ''gate_decision'' = YStr ''pass''" by simp
  with r sources_gate_exact [OF r _ each] show ?thesis by auto
qed

theorem merge_requirement_inputs_exact_witness:
  "map fst (merge_requirement_inputs [(''a'', 1::int), (''b'', 2)] [(''b'', 3), (''c'', 4)]) = [''a'', ''b'', ''c'']
   \<and> merge_requirement_inputs [(''a'', 1::int), (''b'', 2)] [(''b'', 3), (''c'', 4)] = [(''a'', 1), (''b'', 3), (''c'', 4)]"
  using merge_requirement_inputs_exact [of "[(''a'', 1::int), (''b'', 2)]" "[(''b'', 3), (''c'', 4)]"]
  by (simp add: first_seen_def merge_requirement_inputs_def merge_step_def dict_of_def dict_merge_def)

section \<open>Two sources that share a test\<close>

definition other_source :: source_input where
  "other_source = demo_source\<lparr>in_label := ''openspec/changes/b''\<rparr>"

definition labelled :: "string \<Rightarrow> ydict \<Rightarrow> ydict" where
  "labelled label d = dict_merge (ydict_of [(''source'', YStr label)]) d"

lemma shared_sources:
  "err_map (lifecycle_source demo_hash ''test-authored'' (Some demo_review)) [demo_source, other_source]
     = Inr [labelled ''openspec/changes/a'' demo_report, labelled ''openspec/changes/b'' demo_report]"
proof -
  have m: "in_mapping demo_source = demo_mapping" "in_mapping other_source = demo_mapping"
    by (simp_all add: demo_source_def other_source_def)
  have "source_covered other_source" by code_simp
  then have "source_mapping_findings demo_mapping demo_source = []" "source_mapping_findings demo_mapping other_source = []"
    using demo_source_covered source_mapping_empty [of demo_source] source_mapping_empty [of other_source] by (simp_all add: m)
  then show ?thesis
    by (simp add: lifecycle_source_def m demo_evaluated err_bind_def labelled_def)
      (simp add: demo_source_def other_source_def)
qed

lemma labelled_fields:
  assumes "distinct (map fst d)" and "map_of d (YStr ''source'') = None"
  shows "yget (labelled l d) ''source'' = YStr l" and "j \<noteq> ''source'' \<Longrightarrow> yget (labelled l d) j = yget d j"
    and "get_default (labelled l d) ''source'' v = YStr l"
  using assms by (auto simp: labelled_def yget_merge get_default_def merge_lookup map_of_ydict_of yget_def split: option.splits)

lemma lifecycle_report_no_source:
  "lifecycle_report sha required observed md findings cases = Inr rep \<Longrightarrow> map_of rep (YStr ''source'') = None"
  by (auto simp: lifecycle_report_def err_bind_Inr map_of_ydict_of Let_def)

lemma demo_report_plain: "distinct (map fst demo_report)" "map_of demo_report (YStr ''source'') = None"
  using demo_evaluated(1) by (rule lifecycle_report_distinct, rule lifecycle_report_no_source)

lemma demo_planned_plain: "distinct (map fst demo_planned)" "map_of demo_planned (YStr ''source'') = None"
  by (simp_all add: demo_planned_def attach_touchpoints_def yset_def ydict_of_def selector_entries_def)

lemma shared_case: "json_safe (YMap (labelled l demo_planned)) \<noteq> Inl e"
  by (simp add: labelled_def dict_merge_def demo_planned_def attach_touchpoints_def yset_def ydict_of_def
      selector_entries_def scalar_node_def)

lemma shared_case_hashed: "canonical_digest demo_hash (labelled l demo_planned) = Inr demo_digest"
  using shared_case demo_hashed by (cases "json_safe (YMap (labelled l demo_planned))") auto

lemma shared_selector: "execution_selector (labelled l demo_planned) = Inr demo_node"
proof -
  have "yget demo_planned ''selector'' = YMap (ydict_of [(''runner'', YStr ''pytest''), (''node_id'', YStr demo_node)])"
    by (simp add: demo_planned_def selector_entries_def)
  moreover have "selector_matches demo_node" "\<not> selector_escapes demo_node" by code_simp+
  ultimately show ?thesis
    by (simp add: execution_selector_def validate_selector_def labelled_fields [OF demo_planned_plain] demo_method)
qed

lemma shared_plan_refused:
  assumes p: "build_plan demo_hash md [labelled a demo_planned, labelled b demo_planned] = Inr plan"
    and md: "is_digest (YStr md)"
    and art: "yget art ''gate_decision'' = YStr ''pass''" "yget art ''observed_maturity'' = YStr ''test-authored''"
      "yget art ''plan'' = YMap plan"
  shows "plan_cases demo_hash art = Inl (ValueError ''plan report contains duplicate test selectors'')"
proof -
  let ?cs = "[labelled a demo_planned, labelled b demo_planned]"
  let ?sorted = "sort_key (case_key demo_hash) ?cs"
  obtain ordered pd where o: "ordered_cases demo_hash ?cs = Inr ordered"
    "canonical_digest demo_hash (plan_identity md ordered) = Inr pd" "yget plan ''mapping_digest'' = YStr md"
    "yget plan ''cases'' = YList (map YMap ordered)" "yget plan ''plan_digest'' = YStr pd"
    using p by (rule build_plan_fields)
  have ord: "ordered = ?sorted" using o(1) unfolding ordered_cases_Inr by blast
  have trusted: "trusted_plan art = Inr plan"
    using art o md digest_is_digest [OF demo_hash_hex o(2)] by (simp add: trusted_plan_def)
  have two: "length ?sorted = 2" by simp
  then have ne: "?sorted \<noteq> []" by (metis length_0_conv zero_neq_numeral)
  have "consistent_plan_cases demo_hash plan = Inr ?sorted"
    using build_plan_again [OF p] o ne
    by (auto simp: consistent_plan_cases_def ylist_def ord err_bind_def Let_def simp del: sort_key_simps)
  moreover have mem: "\<forall>c \<in> set ?sorted. c \<in> {labelled a demo_planned, labelled b demo_planned}" by auto
  have "filter (\<lambda>c. yget c ''method'' = YStr ''test'') ?sorted = ?sorted"
    using mem by (intro filter_True) (auto simp: labelled_fields [OF demo_planned_plain] demo_method simp del: sort_key_simps)
  moreover have "\<forall>c \<in> set ?sorted. execution_selector c = Inr demo_node"
    using mem shared_selector by auto
  then have "err_map execution_selector ?sorted = Inr (map (\<lambda>c. demo_node) ?sorted)"
    unfolding err_map_Inr list_all2_map2 list_all2_same .
  moreover have "\<not> distinct (map (\<lambda>c. demo_node) ?sorted)"
    unfolding map_replicate_const two by (simp add: numeral_2_eq_2)
  ultimately show ?thesis using trusted ne
    by (auto simp: plan_cases_def execution_cases_def err_bind_def Let_def simp del: sort_key_simps)
qed

lemma demo_source_plan:
  obtains plan where "yget demo_report ''plan'' = YMap plan" "yget plan ''cases'' = YList [YMap demo_planned]"
    "yget plan ''mapping_digest'' = YStr demo_digest" "yget demo_report ''gate_decision'' = YStr ''pass''"
    "yget demo_report ''observed_maturity'' = YStr ''test-authored''"
proof -
  from demo_evaluated(1) obtain plan where p: "build_plan demo_hash demo_digest [demo_planned] = Inr plan"
    "yget demo_report ''plan'' = YMap plan" "yget demo_report ''gate_decision'' = YStr ''pass''"
    "yget demo_report ''observed_maturity'' = YStr ''test-authored''"
    by (rule lifecycle_report_fields) simp
  from p(1) have "yget plan ''cases'' = YList [YMap demo_planned] \<and> yget plan ''mapping_digest'' = YStr demo_digest"
    by (rule build_plan_fields) (simp add: ordered_cases_Inr)
  with p that show thesis by blast
qed

lemma shared_source_plan:
  "normalized_source_plan (YMap (labelled l demo_report))
     = Some (ydict_of [(''source'', YStr l), (''mapping_digest'', YStr demo_digest)], [labelled l demo_planned])"
proof -
  obtain plan where "yget demo_report ''plan'' = YMap plan" "yget plan ''cases'' = YList [YMap demo_planned]"
    "yget plan ''mapping_digest'' = YStr demo_digest" by (rule demo_source_plan)
  then show ?thesis
    by (simp add: normalized_source_plan_def labelled_fields [OF demo_report_plain] y_str_def)
      (simp add: labelled_def)
qed


end
