(* ===== verification/Spec2Isabelle.thy ===== *)
theory Spec2Isabelle
  imports Review_Ledger Review_Assurance Suppression_Gate Suppression_Catalog Source_Location House_Rules Cleanup_Evidence Review_Run Test_Gate
    Bundle_Merge Plan_Comparator
    Dependency_Analyzer Policy_Engine Requirement_Evidence
begin

text \<open>
  \<^bold>\<open>Verification of the specfact-cli-modules bundles.\<close>

  The repository ships command bundles for the SpecFact command line. This development models the parts of
  four bundles that decide something: the code-review bundle (is a change acceptable, what is the review
  worth), the backlog bundle (what does a backlog graph say, does a backlog follow its policies), the
  requirements bundle (does the evidence for a requirement reach the demanded maturity) and the project bundle
  (how do two copies of a plan merge, how do two plans differ). Paths below are
  relative to \<^verbatim>\<open>src/packages/specfact-<bundle>/src/specfact_<bundle>/\<close>.

  \<^bold>\<open>Code review.\<close> Analyzers produce findings; the scorer turns them into a score; the report model
  derives verdict, exit code and assurance status; the ledger records reports; the differential compares
  the findings and the suppression comments of two revisions; recurring rules of the ledger go into the
  house rules that coding assistants read.

  \<^item> \<open>Review_Findings\<close>, \<open>Review_Report\<close>, \<open>Review_Assurance\<close> model
    \<^verbatim>\<open>run/findings.py\<close>. A model class is a record, building one is a function into errors or the
    record (\<open>make_finding\<close>, \<open>make_report\<close>). Shown: accepted findings and reports are fixed
    points of their validators, a schema 1.6 report passes only with complete analyzer evidence, the
    consumer matrix is closed, the report reader is conservative, and assurance reports read back.
  \<^item> \<open>Review_Scorer\<close> models \<^verbatim>\<open>run/scorer.py\<close>: range, verdict and monotonicity of the score, and
    agreement with the report. The locale \<open>verdict_policy\<close> states what a verdict promises; the
    scorer and the report both interpret it.
  \<^item> \<open>Review_Ledger\<close> models \<^verbatim>\<open>ledger/client.py\<close>, on the floats of \<open>Py_Float\<close>: the local
    file implements the locale \<open>state_store\<close>, recording refines the in-memory fold, and coin
    balances do not drift.
  \<^item> \<open>Line_Correspondence\<close> and \<open>Finding_Differential\<close> model the classification half of
    \<^verbatim>\<open>run/differential.py\<close>: the edit-cost tables are optimal, the caches are transparent, every finding is
    accounted for once, and an unchanged finding is justified by its location or by every optimal alignment.
  \<^item> \<open>Suppression_Directives\<close>, \<open>Suppression_Delta\<close> and \<open>Suppression_Gate\<close> model its
    suppression half: the directive patterns and the index of occurrences, the operations that pair them, and
    what they promise. Shown: the gate passes exactly when every file with a suppression comment is
    byte-identical to its base file, introduced and unchanged suppressions are those of the head
    sources, an unchanged one is on every optimal alignment, and the work per pair of sources is bounded.
    The locale \<open>pairing\<close> states what every pairing step keeps and \<open>cache_invariant\<close> what every
    cache step keeps; the steps of the program interpret them. \<open>Suppression_Catalog\<close> models the
    activation of the packaged catalog, exactly on agreeing digests, bindings and analyzer versions.
  \<^item> \<open>Source_Location\<close> models its location conversion over the strict UTF-8 codec of
    \<open>Py_Unicode\<close> (locale \<open>codec\<close>): conversion succeeds exactly on code point boundaries.
  \<^item> \<open>House_Rules\<close> models \<^verbatim>\<open>rules/updater.py\<close>: an update keeps the curated lines and lists exactly the
    recurring rules that fit into the line budget.
  \<^item> \<open>Cleanup_Forecast\<close> models \<^verbatim>\<open>run/forecast.py\<close> and \<open>Cleanup_Evidence\<close>
    \<^verbatim>\<open>run/cleanup_evidence.py\<close>: the forecast counts each eligible finding once and its ratios stay in
    bounds on binary floats; cleanup evidence keeps the findings, and what a preview overwrites is stated.

  \<^bold>\<open>Review runner.\<close> The review of a range of commits classifies every analyzer on both snapshots and
  aggregates the profile; a local review collects the findings, the test gate and the checklist. Both end in a report,
  which is then enforced in full, in shadow, or on the changed lines. All of this is \<^verbatim>\<open>run/runner.py\<close>.

  \<^item> \<open>Range_Review\<close> has the operations on a range, \<open>Range_Gate\<close> what they promise, and
    \<open>Capsule_Report\<close> the report. Shown: mapping the differential back keeps every head finding once, a
    range passes exactly when every member that applies passes and no suppression concerns it, and the report passes
    exactly when the range does and the catalog is activated.
  \<^item> \<open>Changed_Lines\<close> has the parser of git's diff with its quoted paths, \<open>Changed_Evidence\<close> the
    identities of index, base and worktree and the check of the diff against raw bytes, \<open>Report_Paths\<close> the
    spelling of paths. \<open>Diff_Roundtrip\<close> shows that the parser reads a diff printed by git back exactly, and which
    line of a file forges a header.
  \<^item> \<open>Symlink_Containment\<close> models the check on symbolic links of a snapshot: an accepted link stays below the
    root unless a target goes up after a name, and then it can leave it.
  \<^item> \<open>Review_Enforcement\<close> models the modes: no finding is lost, a report passes on changed lines only if it has
    earned it, and a finding is on a changed line exactly when git printed that line as added to its file.
  \<^item> \<open>Review_Run\<close> models \<open>run_review\<close> with its options, checklist, reasons for preserving code and the
    enrichment of cleanup findings: every review ends in a report.
  \<^item> \<open>Test_Gate\<close> models the targeted tests: PASS is exactly the agreement of process, JUnit file, observer
    and plan, and a gate without findings means tested and covered sources. Below, the coverage bonus of a review is
    traced to the run of pytest.

  \<^bold>\<open>Backlog.\<close> The builder turns provider payloads into a graph; the analyzer, the delta and the
  readiness check read it; the policy engine checks item snapshots.

  \<^item> \<open>Graph_Search\<close> has the traversals shared by builder and analyzer with the locales
    \<open>finite_graph\<close> and \<open>dag\<close>; \<open>Backlog_Graph\<close>
    (\<^verbatim>\<open>backlog_core/graph\<close>) and \<open>Dependency_Analyzer\<close> (\<^verbatim>\<open>backlog_core/analyzers\<close>,
    \<^verbatim>\<open>backlog_core/commands\<close>) interpret them on the adjacency functions of the program. Shown: closure,
    cycles, orphans, impact, longest path, delta and readiness are what their names say.
  \<^item> \<open>Policy_Engine\<close> models \<^verbatim>\<open>policy_engine/policy_engine\<close>: findings and exit code are exactly the
    missing required fields, and grouping loses none.

  \<^bold>\<open>Requirements.\<close> A sidecar mapping is validated into a plan; acceptance and JUnit results raise its
  maturity; the evidence gate combines the sources of a change.

  \<^item> \<open>Requirement_Values\<close> models the canonical digest, \<open>Requirement_Lifecycle\<close> the
    operations of \<^verbatim>\<open>requirements/lifecycle.py\<close>, \<open>Requirement_Gate\<close> what they promise, and
    \<open>Requirement_Evidence\<close> \<^verbatim>\<open>requirements/evidence.py\<close> with helpers of \<^verbatim>\<open>requirements/runtime.py\<close>.
    Shown: the digests identify what they cover, a mapping, a reconciliation and a set of sources pass
    exactly on complete, accepted and executed evidence, and a passing plan is accepted downstream.

  \<^bold>\<open>Project.\<close> Personas own sections of a plan bundle; a merge decides each section by ownership; the
  comparator reports how two plans deviate.

  \<^item> \<open>Persona_Ownership\<close> models \<^verbatim>\<open>utils/persona_ownership.py\<close> over the shell patterns of
    \<^verbatim>\<open>fnmatch\<close> (inductive relation \<open>matches\<close>), and \<open>Bundle_Merge\<close>
    \<^verbatim>\<open>merge/resolver.py\<close>: every section goes to the side its owner wrote, conflicts are exactly the sections
    without a decision, and one-sided changes that are dropped are named.
  \<^item> \<open>Feature_Keys\<close> models \<^verbatim>\<open>utils/feature_keys.py\<close> and \<open>Plan_Comparator\<close>
    \<^verbatim>\<open>comparators/plan_comparator.py\<close>: keys have a normal form, and the deviations are exactly the differences of
    the two plans. Bundles and plans are classes of the core package; they appear with the fields these functions
    read, and the iteration order of a set is a parameter.

  \<^bold>\<open>Conventions.\<close> \<open>Prelude\<close> models Python text on Latin-1, dictionaries as association
  lists in insertion order, untyped values, and the error type; \<open>Py_Json\<close> the JSON printer. Errors
  are values: a raised exception is an \<open>Inl\<close>, an early return a branch.

  \<^bold>\<open>Parameters.\<close> Code outside the repository is an argument: SHA-256 (where a claim needs it, it is
  injective on the texts at hand and yields hexadecimal text), the XML and YAML parsers, the core importer
  and validator, Supabase answers, the Python tokenizer, the JSON reader and the installed files of the catalog, files as
  values, the packaged catalog digest, the answers of git and of the file system, the analyzers, the parser of Python and the run of
  pytest with the files it leaves.

  \<^bold>\<open>Loops and bounds.\<close> Loops over lists are structural recursions. Graph searches are partial functions
  whose value \<open>None\<close> is a run that never returns, and are proved to return on the finite graphs of the
  program. No fuel is used; the walk along
  symbolic links stops after the 40 hops of the source. The size limits of the source (source bytes and lines, correspondence cells and
  their sum, JUnit file size, skill lines) are definitions with the source's values. The recursion and digit limits of the interpreter
  are not modelled.

  \<^bold>\<open>Not modelled.\<close> The memo tables of source lines in the suppression delta, which hold values of pure functions. The rest of the review runner and scope, the toolchain, the analyzer adapters, the
  native runtimes, the interactive commands of all bundles, the rest of the project bundle, the codebase, spec and govern bundles and the
  release scripts start processes, read file systems and call services or the models of the core package,
  which is not in the repository: a model of them would describe these and not the repository.
\<close>

section \<open>The coverage bonus\<close>

text \<open>C6: A review run that claims coverage of 90 percent, with the test gate of the runner, has no finding of the gate, and every
  reviewed source of the package has its test file, which was run, in a run that reconciled to PASS; the source is covered by 90 percent or
  more, unless it is exempt and has no figure.\<close>

theorem coverage_bonus_is_earned:
  assumes "evaluate_tdd_gate gate exists skip execute files = Inr (rh_tdd host files)"
    and "collect_tdd_findings host files no_tests = (findings, True)"
    and "source \<in> set files" and "expected_test_path gate source = Some test"
  shows "findings = [] \<and> exists test \<and> (\<exists>tests r observer payload. test \<in> set tests \<and> execute tests = Inr r
     \<and> pr_observer r = Some observer \<and> pr_coverage r = Inr payload
     \<and> po_status (reconcile_pytest_outcomes observer (pytest_junit_records (pr_cases r) (pytest_junit_identities observer))
         (pr_exit r) []) = ''PASS''
     \<and> (case coverage_for_source (ch_variants gate) source payload of
          None \<Rightarrow> coverage_exempt gate True source | Some percent \<Rightarrow> 90 \<le> percent))"
proof -
  from assms(2) obtain table where t: "rh_tdd host files = (findings, Some table)" and high: "list_all (\<lambda>(_, p). p \<ge> 90) table"
    by (auto simp: collect_tdd_findings_def split: if_splits prod.splits option.splits)
  have ninety: "90 \<le> p" if "map_of table s = Some p" for s p
    using high map_of_SomeD [OF that] by (auto simp: list_all_iff)
  have silent: "findings = []"
  proof (rule evaluate_tdd_gate_high [OF assms(1) [unfolded t]])
    show "COVERAGE_THRESHOLD \<le> p" if "map_of table s = Some p" for s p
      using ninety [OF that] by (simp add: COVERAGE_THRESHOLD_def)
  qed
  have gate: "evaluate_tdd_gate gate exists skip execute files = Inr ([], Some table)" using assms(1) t silent by simp
  obtain tests r observer payload table' where f:
    "exists test" "test \<in> set tests" "execute tests = Inr r" "pr_observer r = Some observer" "pr_coverage r = Inr payload"
    "po_status (reconcile_pytest_outcomes observer (pytest_junit_records (pr_cases r) (pytest_junit_identities observer))
       (pr_exit r) []) = ''PASS''"
    and c: "Some table = Some table'" and settled: "source_settled gate True COVERAGE_THRESHOLD payload source"
    and row: "coverage_for_source (ch_variants gate) source payload \<noteq> None
      \<longrightarrow> map_of table' source = coverage_for_source (ch_variants gate) source payload"
    by (rule tdd_gate_silent_cases [OF gate assms(3,4)])
  have "case coverage_for_source (ch_variants gate) source payload of
      None \<Rightarrow> coverage_exempt gate True source | Some percent \<Rightarrow> 90 \<le> percent"
    using settled row c ninety by (auto simp: source_settled_def split: option.splits)
  with f silent show ?thesis by (intro conjI exI)
qed

theorem coverage_bonus_is_earned_witness:
  "collect_tdd_findings (demo_host\<lparr>rh_tdd := \<lambda>_. ([], Some [(demo_gate_source, 95)])\<rparr>) [demo_gate_source] False = ([], True)
   \<and> expected_test_path demo_gate_host demo_gate_source = Some ''tests/unit/test_a.py''
   \<and> (\<exists>payload percent. pr_coverage demo_gate_run = Inr payload
        \<and> coverage_for_source (ch_variants demo_gate_host) demo_gate_source payload = Some percent \<and> 90 \<le> percent)"
proof -
  let ?host = "demo_host\<lparr>rh_tdd := \<lambda>_. ([], Some [(demo_gate_source, 95)])\<rparr>"
  have b: "collect_tdd_findings ?host [demo_gate_source] False = ([], True)" by (simp add: collect_tdd_findings_def)
  have g: "evaluate_tdd_gate demo_gate_host (\<lambda>_. True) (\<lambda>_. []) (\<lambda>_. Inr demo_gate_run) [demo_gate_source]
      = Inr (rh_tdd ?host [demo_gate_source])" by (simp add: demo_silent)
  have s: "demo_gate_source \<in> set [demo_gate_source]" by simp
  have cov: "pr_coverage demo_gate_run = Inr payload \<Longrightarrow> coverage_for_source (ch_variants demo_gate_host) demo_gate_source payload \<noteq> None"
    for payload
    by (auto simp: demo_gate_run_def coverage_for_source_def demo_gate_host_def)
  from coverage_bonus_is_earned [OF g b s demo_expected] show ?thesis
    using b demo_expected cov by (auto split: option.splits)
qed

end
